(* ===== verification/Prelude.thy ===== *)
theory Prelude
  imports Main "HOL-Library.Word"
begin

text \<open>
  Shared vocabulary of the development: the fixed-width integer types of the C sources, the
  \<open>errno\<close> values the functions return (negated, as plain \<open>int\<close>), the view of a
  NUL-terminated string as the list of the bytes before its terminator, byte-order
  conversions between words and byte lists, and the generic lemmas on words and lists that the
  component theories use.
\<close>

unbundle bit_operations_syntax

named_theorems byte_simps \<open>splitting words into bytes and joining them again\<close>

type_synonym u8 = "8 word"
type_synonym u16 = "16 word"
type_synonym u32 = "32 word"
type_synonym u64 = "64 word"
type_synonym bytes = "8 word list"

section \<open>Error numbers\<close>

text \<open>The values of \<open>errno.h\<close> on Linux; functions of the sources return them negated.\<close>

abbreviation (input) EIO :: int where "EIO \<equiv> 5"
abbreviation (input) EAGAIN :: int where "EAGAIN \<equiv> 11"
abbreviation (input) EBUSY :: int where "EBUSY \<equiv> 16"
abbreviation (input) EINVAL :: int where "EINVAL \<equiv> 22"
abbreviation (input) ENOSPC :: int where "ENOSPC \<equiv> 28"
abbreviation (input) ENODATA :: int where "ENODATA \<equiv> 61"
abbreviation (input) EMSGSIZE :: int where "EMSGSIZE \<equiv> 90"
abbreviation (input) ETIMEDOUT :: int where "ETIMEDOUT \<equiv> 110"

section \<open>Strings and memory\<close>

text \<open>
  A C string is the list of its bytes without the terminating NUL; reading at its length gives
  the terminator.
\<close>

definition cstr_at :: "bytes \<Rightarrow> nat \<Rightarrow> u8" where
  "cstr_at s i = (if i < length s then s ! i else 0)"

definition cstr_of :: "bytes \<Rightarrow> bytes" where
  "cstr_of buf = takeWhile (\<lambda>b. b \<noteq> 0) buf"

lemma cstr_of_terminated: "0 \<notin> set t \<Longrightarrow> cstr_of (t @ 0 # r) = t"
  unfolding cstr_of_def by (subst takeWhile_append2) auto

definition chr_byte :: "char \<Rightarrow> u8" where
  "chr_byte c = of_nat (of_char c)"

definition str_bytes :: "string \<Rightarrow> bytes" where
  "str_bytes s = map chr_byte s"

text \<open>\<open>memcpy (dst + off, src, length src)\<close> on a buffer kept as a list.\<close>

definition buf_write :: "'a list \<Rightarrow> nat \<Rightarrow> 'a list \<Rightarrow> 'a list" where
  "buf_write dst off src = take off dst @ src @ drop (off + length src) dst"

lemma length_buf_write [simp]:
  "off + length src \<le> length dst \<Longrightarrow> length (buf_write dst off src) = length dst"
  by (simp add: buf_write_def)

lemma take_buf_write_end:
  "off + length src \<le> length dst \<Longrightarrow>
   take (off + length src) (buf_write dst off src) = take off dst @ src"
  by (simp add: buf_write_def)

lemma buf_write_Nil [simp]: "off \<le> length dst \<Longrightarrow> buf_write dst off [] = dst"
  by (simp add: buf_write_def)

text \<open>Reading at an index, where reading after the end is an error.\<close>

definition nth_opt :: "'b list \<Rightarrow> nat \<Rightarrow> 'b option" where
  "nth_opt xs i = (if i < length xs then Some (xs ! i) else None)"

section \<open>Words as byte lists\<close>

definition be16_bytes :: "u16 \<Rightarrow> bytes" where
  "be16_bytes w = [ucast (drop_bit 8 w), ucast w]"

definition be16_of :: "u8 \<Rightarrow> u8 \<Rightarrow> u16" where
  "be16_of h l = push_bit 8 (ucast h) OR ucast l"

definition be32_bytes :: "u32 \<Rightarrow> bytes" where
  "be32_bytes w = [ucast (drop_bit 24 w), ucast (drop_bit 16 w), ucast (drop_bit 8 w), ucast w]"

definition be32_of :: "u8 \<Rightarrow> u8 \<Rightarrow> u8 \<Rightarrow> u8 \<Rightarrow> u32" where
  "be32_of a b c d =
     push_bit 24 (ucast a) OR push_bit 16 (ucast b) OR push_bit 8 (ucast c) OR ucast d"

lemma be16_roundtrip [byte_simps]: "be16_of (ucast (drop_bit 8 w)) (ucast w) = w"
  by (rule bit_word_eqI) (auto simp: be16_of_def bit_simps)

lemma be32_roundtrip [byte_simps]:
  "be32_of (ucast (drop_bit 24 w)) (ucast (drop_bit 16 w)) (ucast (drop_bit 8 w)) (ucast w) = w"
proof (rule bit_word_eqI)
  fix n :: nat
  assume "n < LENGTH(32)"
  then have "n < 8 \<or> 8 \<le> n \<and> n < 16 \<or> 16 \<le> n \<and> n < 24 \<or> 24 \<le> n \<and> n < 32"
    by auto
  then show "bit (be32_of (ucast (drop_bit 24 w)) (ucast (drop_bit 16 w))
      (ucast (drop_bit 8 w)) (ucast w)) n = bit w n"
    by (elim disjE) (auto simp: be32_of_def bit_simps)
qed

lemma length_be_bytes [simp]:
  "length (be16_bytes w) = 2" "length (be32_bytes v) = 4"
  by (simp_all add: be16_bytes_def be32_bytes_def)

lemma unat_lt_2p: "unat (x :: 'a::len word) < 2 ^ LENGTH('a)"
  by (rule unsigned_less)

lemma unat_word_bounds [simp]:
  "unat (a :: u8) < 256" "unat (b :: u16) < 65536" "unat (c :: u32) < 4294967296"
  "unat (d :: u64) < 18446744073709551616"
  using unat_lt_2p [of a] unat_lt_2p [of b] unat_lt_2p [of c] unat_lt_2p [of d] by simp_all

lemma unat_ucast_up [simp]:
  "unat (ucast (x :: u8) :: u16) = unat x" "unat (ucast (x :: u8) :: u32) = unat x"
  "unat (ucast (y :: u16) :: u32) = unat y" "unat (ucast (z :: u32) :: u64) = unat z"
proof -
  have "unat x < 65536" "unat x < 4294967296" "unat y < 4294967296"
    "unat z < 18446744073709551616"
    by (rule less_trans [OF unat_lt_2p], simp)+
  then show "unat (ucast x :: u16) = unat x" "unat (ucast x :: u32) = unat x"
    "unat (ucast y :: u32) = unat y" "unat (ucast z :: u64) = unat z"
    by (simp_all add: unsigned_ucast_eq take_bit_eq_mod)
qed

lemma unat_less_bits:
  fixes x :: "'a::len word"
  assumes "\<And>n. k \<le> n \<Longrightarrow> \<not> bit x n"
  shows "unat x < 2 ^ k"
proof -
  have "x = take_bit k x"
    using assms by (auto intro!: bit_word_eqI simp: bit_simps) (meson not_le)
  then have "unat x = take_bit k (unat x)"
    by (metis unsigned_take_bit_eq)
  also have "\<dots> < 2 ^ k" by simp
  finally show ?thesis .
qed

lemma not_bit_beyond: "LENGTH('a) \<le> n \<Longrightarrow> \<not> bit (x :: 'a::len word) n"
  using bit_imp_le_length leD by blast

lemma bit_word_lt: "bit (x :: 'a::len word) n \<Longrightarrow> n < LENGTH('a)"
  by (rule bit_imp_le_length)

end
