(* ===== verification/Util.thy ===== *)
theory Util
  imports Prelude
begin

text \<open>
  The utility files of the XBee driver (\<open>src/Software/lib/XBee/src/util\<close>): byte swapping
  (\<open>swapbytes.c\<close>, \<open>swapcpy.c\<close>), hexadecimal input (\<open>hexstrtobyte.c\<close>),
  buffer comparison (\<open>memcheck.c\<close>) and the table-driven CRC-16 (\<open>xmodem_crc16.c\<close>),
  which is proved equal to the bit-serial division by the polynomial \<open>0x1021\<close>.
\<close>

section \<open>swapbytes.c and swapcpy.c\<close>

definition swap32 :: "u32 \<Rightarrow> u32" where
  "swap32 value =
     push_bit 24 (value AND 0x000000FF)
     OR push_bit 8 (value AND 0x0000FF00)
     OR drop_bit 8 (value AND 0x00FF0000)
     OR drop_bit 24 (value AND 0xFF000000)"

definition swap16 :: "u16 \<Rightarrow> u16" where
  "swap16 value = push_bit 8 (value AND 0x00FF) OR drop_bit 8 value"

text \<open>
  The loop of \<open>_swapcpy\<close>: \<open>s\<close> is the source offset, decremented before each copy,
  \<open>d\<close> the destination offset, and the last argument the number of bytes left.
\<close>

fun swapcpy_loop :: "bytes \<Rightarrow> bytes \<Rightarrow> nat \<Rightarrow> nat \<Rightarrow> nat \<Rightarrow> bytes" where
  "swapcpy_loop dst src d s 0 = dst"
| "swapcpy_loop dst src d s (Suc n) =
     swapcpy_loop (dst[d := src ! (s - 1)]) src (d + 1) (s - 1) n"

definition swapcpy :: "bytes \<Rightarrow> bytes \<Rightarrow> u8 \<Rightarrow> bytes" where
  "swapcpy dst src n = (if n \<noteq> 0 then swapcpy_loop dst src 0 (unat n) (unat n) else dst)"

section \<open>hexstrtobyte.c and memcheck.c\<close>

text \<open>
  Two rounds of the loop of \<open>hexstrtobyte\<close>; \<open>b\<close> is an 8-bit accumulator. The
  terminator of the string is not a hexadecimal digit, so nothing past it is read.
\<close>

fun hexstrtobyte_loop :: "nat \<Rightarrow> bytes \<Rightarrow> nat \<Rightarrow> u8 \<Rightarrow> int" where
  "hexstrtobyte_loop 0 s p b = uint b"
| "hexstrtobyte_loop (Suc i) s p b =
     (let b = push_bit 4 b; ch = cstr_at s p in
      if 48 \<le> ch \<and> ch \<le> 57 then hexstrtobyte_loop i s (p + 1) (b + (ch - 48))
      else if 97 \<le> ch \<and> ch \<le> 102 then hexstrtobyte_loop i s (p + 1) (b + (ch - (97 - 10)))
      else if 65 \<le> ch \<and> ch \<le> 70 then hexstrtobyte_loop i s (p + 1) (b + (ch - (65 - 10)))
      else -1)"

definition hexstrtobyte :: "bytes \<Rightarrow> int" where
  "hexstrtobyte s = hexstrtobyte_loop 2 s 0 0"

fun memcheck_loop :: "bytes \<Rightarrow> u8 \<Rightarrow> int" where
  "memcheck_loop [] c = 0"
| "memcheck_loop (s # ss) c = (if s \<noteq> c then (if s > c then 1 else -1) else memcheck_loop ss c)"

definition memcheck :: "bytes \<Rightarrow> int \<Rightarrow> int" where
  "memcheck src ch = memcheck_loop src (of_int (ch AND 0xFF))"

section \<open>xmodem_crc16.c\<close>

definition crc16_table :: "u16 list" where
  "crc16_table =
    [
     0x0000, 0x1021, 0x2042, 0x3063, 0x4084, 0x50A5, 0x60C6, 0x70E7,
     0x8108, 0x9129, 0xA14A, 0xB16B, 0xC18C, 0xD1AD, 0xE1CE, 0xF1EF,
     0x1231, 0x0210, 0x3273, 0x2252, 0x52B5, 0x4294, 0x72F7, 0x62D6,
     0x9339, 0x8318, 0xB37B, 0xA35A, 0xD3BD, 0xC39C, 0xF3FF, 0xE3DE,
     0x2462, 0x3443, 0x0420, 0x1401, 0x64E6, 0x74C7, 0x44A4, 0x5485,
     0xA56A, 0xB54B, 0x8528, 0x9509, 0xE5EE, 0xF5CF, 0xC5AC, 0xD58D,
     0x3653, 0x2672, 0x1611, 0x0630, 0x76D7, 0x66F6, 0x5695, 0x46B4,
     0xB75B, 0xA77A, 0x9719, 0x8738, 0xF7DF, 0xE7FE, 0xD79D, 0xC7BC,
     0x48C4, 0x58E5, 0x6886, 0x78A7, 0x0840, 0x1861, 0x2802, 0x3823,
     0xC9CC, 0xD9ED, 0xE98E, 0xF9AF, 0x8948, 0x9969, 0xA90A, 0xB92B,
     0x5AF5, 0x4AD4, 0x7AB7, 0x6A96, 0x1A71, 0x0A50, 0x3A33, 0x2A12,
     0xDBFD, 0xCBDC, 0xFBBF, 0xEB9E, 0x9B79, 0x8B58, 0xBB3B, 0xAB1A,
     0x6CA6, 0x7C87, 0x4CE4, 0x5CC5, 0x2C22, 0x3C03, 0x0C60, 0x1C41,
     0xEDAE, 0xFD8F, 0xCDEC, 0xDDCD, 0xAD2A, 0xBD0B, 0x8D68, 0x9D49,
     0x7E97, 0x6EB6, 0x5ED5, 0x4EF4, 0x3E13, 0x2E32, 0x1E51, 0x0E70,
     0xFF9F, 0xEFBE, 0xDFDD, 0xCFFC, 0xBF1B, 0xAF3A, 0x9F59, 0x8F78,
     0x9188, 0x81A9, 0xB1CA, 0xA1EB, 0xD10C, 0xC12D, 0xF14E, 0xE16F,
     0x1080, 0x00A1, 0x30C2, 0x20E3, 0x5004, 0x4025, 0x7046, 0x6067,
     0x83B9, 0x9398, 0xA3FB, 0xB3DA, 0xC33D, 0xD31C, 0xE37F, 0xF35E,
     0x02B1, 0x1290, 0x22F3, 0x32D2, 0x4235, 0x5214, 0x6277, 0x7256,
     0xB5EA, 0xA5CB, 0x95A8, 0x8589, 0xF56E, 0xE54F, 0xD52C, 0xC50D,
     0x34E2, 0x24C3, 0x14A0, 0x0481, 0x7466, 0x6447, 0x5424, 0x4405,
     0xA7DB, 0xB7FA, 0x8799, 0x97B8, 0xE75F, 0xF77E, 0xC71D, 0xD73C,
     0x26D3, 0x36F2, 0x0691, 0x16B0, 0x6657, 0x7676, 0x4615, 0x5634,
     0xD94C, 0xC96D, 0xF90E, 0xE92F, 0x99C8, 0x89E9, 0xB98A, 0xA9AB,
     0x5844, 0x4865, 0x7806, 0x6827, 0x18C0, 0x08E1, 0x3882, 0x28A3,
     0xCB7D, 0xDB5C, 0xEB3F, 0xFB1E, 0x8BF9, 0x9BD8, 0xABBB, 0xBB9A,
     0x4A75, 0x5A54, 0x6A37, 0x7A16, 0x0AF1, 0x1AD0, 0x2AB3, 0x3A92,
     0xFD2E, 0xED0F, 0xDD6C, 0xCD4D, 0xBDAA, 0xAD8B, 0x9DE8, 0x8DC9,
     0x7C26, 0x6C07, 0x5C64, 0x4C45, 0x3CA2, 0x2C83, 0x1CE0, 0x0CC1,
     0xEF1F, 0xFF3E, 0xCF5D, 0xDF7C, 0xAF9B, 0xBFBA, 0x8FD9, 0x9FF8,
     0x6E17, 0x7E36, 0x4E55, 0x5E74, 0x2E93, 0x3EB2, 0x0ED1, 0x1EF0
    ]"

fun crc16_calc :: "bytes \<Rightarrow> u16 \<Rightarrow> u16" where
  "crc16_calc [] current = current"
| "crc16_calc (b # bs) current =
     crc16_calc bs (push_bit 8 current XOR crc16_table ! unat (drop_bit 8 current XOR ucast b))"

text \<open>
  The reference: one step of the division of the message by the polynomial, the eight steps
  of one byte, and the remainder of a whole message.
\<close>

definition crc_step :: "u16 \<Rightarrow> u16" where
  "crc_step c = (if bit c 15 then push_bit 1 c XOR 0x1021 else push_bit 1 c)"

definition crc_byte :: "u16 \<Rightarrow> u8 \<Rightarrow> u16" where
  "crc_byte c b = (crc_step ^^ 8) (c XOR push_bit 8 (ucast b))"

definition crc_ref :: "bytes \<Rightarrow> u16 \<Rightarrow> u16" where
  "crc_ref bs c = foldl crc_byte c bs"

section \<open>Byte swapping reverses the bytes\<close>

lemma byte_masks:
  "(0xFF :: u16) = mask 8" "(0xFF :: u32) = mask 8" "(0xFF00 :: u32) = push_bit 8 (mask 8)"
  "(0xFF0000 :: u32) = push_bit 16 (mask 8)" "(0xFF000000 :: u32) = push_bit 24 (mask 8)"
  by (simp_all add: mask_eq_exp_minus_1 push_bit_eq_mult)

lemma swap16_bytes: "be16_bytes (swap16 w) = rev (be16_bytes w)"
proof -
  have "ucast (drop_bit 8 (swap16 w)) = (ucast w :: u8)"
    by (rule bit_word_eqI) (auto simp: swap16_def byte_masks bit_simps)
  moreover have "ucast (swap16 w) = (ucast (drop_bit 8 w) :: u8)"
    by (rule bit_word_eqI) (auto simp: swap16_def byte_masks bit_simps)
  ultimately show ?thesis by (simp add: be16_bytes_def)
qed

lemma swap32_bytes: "be32_bytes (swap32 w) = rev (be32_bytes w)"
proof -
  have "ucast (drop_bit 24 (swap32 w)) = (ucast w :: u8)"
    "ucast (drop_bit 16 (swap32 w)) = (ucast (drop_bit 8 w) :: u8)"
    by (rule bit_word_eqI, auto simp: swap32_def byte_masks bit_simps)+
  moreover have "ucast (drop_bit 8 (swap32 w)) = (ucast (drop_bit 16 w) :: u8)"
    "ucast (swap32 w) = (ucast (drop_bit 24 w) :: u8)"
    by (rule bit_word_eqI, auto simp: swap32_def byte_masks bit_simps)+
  ultimately show ?thesis by (simp add: be32_bytes_def)
qed

lemma swapcpy_loop_rev:
  "n \<le> s \<Longrightarrow> s \<le> length src \<Longrightarrow> d + n \<le> length dst \<Longrightarrow>
   swapcpy_loop dst src d s n = buf_write dst d (rev (take n (drop (s - n) src)))"
proof (induction dst src d s n rule: swapcpy_loop.induct)
  case (2 dst src d s n)
  then have s: "s - 1 < length src" "s - 1 - n = s - Suc n" "0 < s" "n \<le> s - 1" by auto
  have "take (Suc n) (drop (s - Suc n) src) = take n (drop (s - Suc n) src) @ [src ! (s - 1)]"
    using 2 s by (simp add: take_Suc_conv_app_nth)
  with 2 s show ?case
    by (simp add: buf_write_def take_Suc_conv_app_nth)
qed simp

lemma swapcpy_rev:
  assumes "unat n \<le> length src" "unat n \<le> length dst"
  shows "swapcpy dst src n = rev (take (unat n) src) @ drop (unat n) dst"
  using assms by (simp add: swapcpy_def swapcpy_loop_rev buf_write_def unat_eq_0)

section \<open>The CRC table divides by the polynomial\<close>

lemma crc_step_xor: "crc_step (a XOR b) = crc_step a XOR crc_step b"
  by (auto simp: crc_step_def bit_simps push_bit_xor ac_simps)

lemma crc_steps_xor: "(crc_step ^^ n) (a XOR b) = (crc_step ^^ n) a XOR (crc_step ^^ n) b"
  by (induction n) (simp_all add: crc_step_xor)

lemma crc_steps_small:
  assumes "\<forall>i. 16 - n \<le> i \<longrightarrow> \<not> bit c i"
  shows "(crc_step ^^ n) c = push_bit n c"
  using assms
proof (induction n)
  case (Suc n)
  then have IH: "(crc_step ^^ n) c = push_bit n c" by simp
  have "\<not> bit (push_bit n c) 15"
    using Suc.prems by (auto simp: bit_simps)
  then have "crc_step (push_bit n c) = push_bit (Suc n) c"
    by (simp add: crc_step_def push_bit_push_bit)
  with IH show ?case by simp
qed simp

lemma crc16_table_doubling:
  "crc16_table =
     concat (map (\<lambda>c. [crc_step c, crc_step c XOR 0x1021]) (take 128 crc16_table))"
  unfolding crc16_table_def by (simp add: crc_step_def)

lemma length_crc16_table [simp]: "length crc16_table = 256"
  by (simp add: crc16_table_def)

lemma nth_concat_pairs:
  "i < length xs \<Longrightarrow> concat (map (\<lambda>c. [f c, g c]) xs) ! (2 * i) = f (xs ! i)"
  "i < length xs \<Longrightarrow> concat (map (\<lambda>c. [f c, g c]) xs) ! (Suc (2 * i)) = g (xs ! i)"
  by (induction xs arbitrary: i) (auto simp: nth_Cons split: nat.splits)

lemma crc16_table_step:
  assumes "i < 128"
  shows "crc16_table ! (2 * i) = crc_step (crc16_table ! i)"
    and "crc16_table ! (Suc (2 * i)) = crc_step (crc16_table ! i) XOR 0x1021"
  using assms by (subst crc16_table_doubling, simp add: nth_concat_pairs)+

lemma not_bit_push_8_small: "i < 128 \<Longrightarrow> \<not> bit (push_bit 8 (of_nat i :: u16)) 15"
proof -
  assume "i < 128"
  then have "\<not> bit i 7" by (simp add: bit_iff_odd)
  then show ?thesis by (simp add: bit_simps)
qed

lemma push_bit_8_double:
  assumes "i < 128"
  shows "push_bit 8 (of_nat (2 * i) :: u16) = crc_step (push_bit 8 (of_nat i))"
    and "push_bit 8 (of_nat (Suc (2 * i)) :: u16) = crc_step (push_bit 8 (of_nat i)) XOR 0x100"
proof -
  have "\<not> bit (push_bit 8 (of_nat i :: u16)) 15"
    using assms by (rule not_bit_push_8_small)
  then have s: "crc_step (push_bit 8 (of_nat i :: u16)) = push_bit 9 (of_nat i)"
    by (simp add: crc_step_def push_bit_push_bit)
  have d: "push_bit 8 (of_nat (2 * i) :: u16) = push_bit 9 (of_nat i)"
    by (simp add: push_bit_eq_mult)
  with s show "push_bit 8 (of_nat (2 * i) :: u16) = crc_step (push_bit 8 (of_nat i))" by simp
  have "push_bit 8 (of_nat (Suc (2 * i)) :: u16) = push_bit 9 (of_nat i) + 0x100"
    by (simp add: push_bit_eq_mult algebra_simps)
  also have "\<dots> = push_bit 9 (of_nat i) XOR 0x100"
  proof (rule disjunctive_add_eq_xor)
    have "bit (push_bit 8 (1 :: u16)) n \<Longrightarrow> n = 8" for n
      by (simp only: bit_simps) auto
    moreover have "push_bit 8 (1 :: u16) = 0x100" by simp
    ultimately have "\<not> bit (0x100 :: u16) n" if "n \<noteq> 8" for n using that by metis
    then show "push_bit 9 (of_nat i) AND (0x100 :: u16) = 0"
      by (intro bit_word_eqI) (simp add: bit_simps)
  qed
  finally show "push_bit 8 (of_nat (Suc (2 * i)) :: u16) = crc_step (push_bit 8 (of_nat i)) XOR 0x100"
    using s by simp
qed

lemma crc16_table_entry: "n < 256 \<Longrightarrow> crc16_table ! n = (crc_step ^^ 8) (push_bit 8 (of_nat n))"
proof (induction n rule: less_induct)
  case (less n)
  have T1: "(crc_step ^^ 8) 0x100 = 0x1021"
    by code_simp
  define i where "i = n div 2"
  have i: "i < 128" using less.prems by (simp add: i_def)
  consider "n = 0" | "0 < n" "n = 2 * i" | "n = Suc (2 * i)"
    unfolding i_def by (cases "even n") auto
  then show ?case
  proof cases
    case 1
    then show ?thesis by (simp add: crc16_table_def eval_nat_numeral crc_step_def)
  next
    case 2
    then have IH: "crc16_table ! i = (crc_step ^^ 8) (push_bit 8 (of_nat i))"
      using i less.IH [of i] by simp
    have "crc_step ((crc_step ^^ 8) x) = (crc_step ^^ 8) (crc_step x)" for x
      by (rule funpow_swap1)
    with 2 i IH show ?thesis
      by (simp add: crc16_table_step push_bit_8_double del: of_nat_mult)
  next
    case 3
    then have IH: "crc16_table ! i = (crc_step ^^ 8) (push_bit 8 (of_nat i))"
      using i less.IH [of i] by simp
    have "crc_step ((crc_step ^^ 8) x) = (crc_step ^^ 8) (crc_step x)" for x
      by (rule funpow_swap1)
    with 3 i IH T1 show ?thesis
      by (simp add: crc16_table_step push_bit_8_double crc_steps_xor del: of_nat_Suc of_nat_mult)
  qed
qed

lemma crc_byte_table:
  "crc_byte c b = push_bit 8 c XOR crc16_table ! unat (drop_bit 8 c XOR ucast b)"
proof -
  let ?h = "drop_bit 8 c XOR ucast b :: u16"
  have "unat ?h < 2 ^ 8"
    by (rule unat_less_bits) (auto simp: bit_simps not_bit_beyond)
  then have T: "crc16_table ! unat ?h = (crc_step ^^ 8) (push_bit 8 ?h)"
    by (simp add: crc16_table_entry)
  have split: "c XOR push_bit 8 (ucast b) = push_bit 8 ?h XOR take_bit 8 c"
    by (rule bit_word_eqI) (auto simp: bit_simps)
  have "(crc_step ^^ 8) (take_bit 8 c) = push_bit 8 (take_bit 8 c)"
    by (rule crc_steps_small) (auto simp: bit_simps)
  also have "\<dots> = push_bit 8 c"
    by (rule bit_word_eqI) (auto simp: bit_simps)
  finally have "crc_byte c b = (crc_step ^^ 8) (push_bit 8 ?h) XOR push_bit 8 c"
    unfolding crc_byte_def split crc_steps_xor by simp
  then show ?thesis unfolding T by (simp only: xor.commute)
qed

lemma crc16_calc_append: "crc16_calc (xs @ ys) c = crc16_calc ys (crc16_calc xs c)"
  by (induction xs arbitrary: c) simp_all

text \<open>
  C26: the table-driven \<open>crc16_calc\<close> computes, for every buffer and every starting value, the
  remainder of the bit-serial division by the CCITT polynomial \<open>0x1021\<close> (most significant
  bit first, no reflection), as its documentation promises.
\<close>

theorem crc16_calc_reference: "crc16_calc data current = crc_ref data current"
  by (induction data arbitrary: current) (simp_all add: crc_ref_def crc_byte_table)

text \<open>
  A receiver that runs \<open>crc16_calc\<close> over a block followed by the block's CRC, most
  significant byte first (the order in which \<open>_assemble_packet\<close> appends it), gets 0.
\<close>

theorem crc16_residue: "crc16_calc (data @ be16_bytes (crc16_calc data current)) current = 0"
proof -
  define c where "c = crc16_calc data current"
  have h: "drop_bit 8 c XOR ucast (ucast (drop_bit 8 c) :: u8) = 0"
    by (rule bit_word_eqI) (auto simp: bit_simps dest: bit_word_lt)
  have l: "drop_bit 8 (push_bit 8 c) XOR ucast (ucast c :: u8) = 0"
    by (rule bit_word_eqI) (auto simp: bit_simps not_bit_beyond)
  have z: "push_bit 8 (push_bit 8 c) = 0"
    by (rule bit_word_eqI) (auto simp: bit_simps)
  have t0: "crc16_table ! 0 = 0" by (simp add: crc16_table_def)
  show ?thesis
    unfolding crc16_calc_append c_def [symmetric]
    by (simp add: be16_bytes_def h l z t0)
qed

end
