(* ===== verification/Wpan_Types.thy ===== *)
theory Wpan_Types
  imports Util
begin

text \<open>
  \<open>src/Software/lib/XBee/src/wpan/wpan_types.c\<close>: 64-bit IEEE addresses, their printable
  form and the parser of the printable form. An address is the list of its eight bytes, most
  significant first; the 32-bit view \<open>l[2]\<close> of the union is read on a little-endian host.
  The parser is shown to accept every documented rendering of an address, and the formatter
  produces one of them.
\<close>

section \<open>Addresses\<close>

type_synonym addr64 = bytes

definition WPAN_IEEE_ADDR_UNDEFINED :: addr64 where
  "WPAN_IEEE_ADDR_UNDEFINED = [0xFF, 0xFF, 0xFF, 0xFF, 0xFF, 0xFF, 0xFF, 0xFF]"

definition WPAN_IEEE_ADDR_BROADCAST :: addr64 where
  "WPAN_IEEE_ADDR_BROADCAST = [0x00, 0x00, 0x00, 0x00, 0x00, 0x00, 0xFF, 0xFF]"

definition WPAN_IEEE_ADDR_COORDINATOR :: addr64 where
  "WPAN_IEEE_ADDR_COORDINATOR = [0x00, 0x00, 0x00, 0x00, 0x00, 0x00, 0x00, 0x00]"

abbreviation (input) WPAN_NET_ADDR_UNDEFINED :: u16 where "WPAN_NET_ADDR_UNDEFINED \<equiv> 0xFFFE"
abbreviation (input) WPAN_NET_ADDR_COORDINATOR :: u16 where "WPAN_NET_ADDR_COORDINATOR \<equiv> 0"

record wpan_address_t =
  ieee :: addr64
  network :: u16

definition addr64_l :: "addr64 \<Rightarrow> nat \<Rightarrow> u32" where
  "addr64_l a i = be32_of (a ! (4 * i + 3)) (a ! (4 * i + 2)) (a ! (4 * i + 1)) (a ! (4 * i))"

definition addr64_equal :: "addr64 option \<Rightarrow> addr64 option \<Rightarrow> bool" where
  "addr64_equal addr1 addr2 =
     (case (addr1, addr2) of
        (Some a, Some b) \<Rightarrow> addr64_l a 0 = addr64_l b 0 \<and> addr64_l a 1 = addr64_l b 1
      | _ \<Rightarrow> False)"

definition addr64_is_zero :: "addr64 option \<Rightarrow> bool" where
  "addr64_is_zero addr =
     (case addr of None \<Rightarrow> True | Some a \<Rightarrow> \<not> (addr64_l a 0 \<noteq> 0 \<or> addr64_l a 1 \<noteq> 0))"

section \<open>Printing\<close>

definition hexdigits :: bytes where
  "hexdigits = [48, 49, 50, 51, 52, 53, 54, 55, 56, 57, 97, 98, 99, 100, 101, 102]"

definition ADDR64_FORMAT_SEPARATOR :: u8 where "ADDR64_FORMAT_SEPARATOR = 45"

definition hex_pair :: "u8 \<Rightarrow> bytes" where
  "hex_pair ch = [hexdigits ! unat (drop_bit 4 ch), hexdigits ! unat (ch AND 0x0F)]"

text \<open>
  The loop of \<open>addr64_format\<close>: \<open>i\<close> bytes are left, the first of them at \<open>b\<close>;
  the result is what is stored at \<open>p\<close>, the terminator included.
\<close>

fun addr64_format_loop :: "nat \<Rightarrow> bytes \<Rightarrow> bytes" where
  "addr64_format_loop i [] = []"
| "addr64_format_loop i (ch # b) =
     hex_pair ch @
     (if i - 1 \<noteq> 0 then ADDR64_FORMAT_SEPARATOR # addr64_format_loop (i - 1) b else [0])"

definition addr64_format :: "addr64 \<Rightarrow> bytes" where
  "addr64_format address = addr64_format_loop 8 address"

section \<open>Parsing\<close>

text \<open>\<open>isspace\<close> and \<open>isxdigit\<close> of \<open>ctype.h\<close> in the C locale.\<close>

definition isspace :: "u8 \<Rightarrow> bool" where
  "isspace ch \<longleftrightarrow> 9 \<le> ch \<and> ch \<le> 13 \<or> ch = 32"

definition isxdigit :: "u8 \<Rightarrow> bool" where
  "isxdigit ch \<longleftrightarrow> 48 \<le> ch \<and> ch \<le> 57 \<or> 97 \<le> ch \<and> ch \<le> 102 \<or> 65 \<le> ch \<and> ch \<le> 70"

text \<open>
  One round of the \<open>for\<close> loop of \<open>addr64_parse\<close> per byte; the result is the number
  of bytes not converted and the bytes stored.
\<close>

fun addr64_parse_loop :: "nat \<Rightarrow> bytes \<Rightarrow> nat \<times> bytes" where
  "addr64_parse_loop 0 str = (0, [])"
| "addr64_parse_loop (Suc i) str =
     (let ret = hexstrtobyte str in
      if ret < 0 then (Suc i, [])
      else
        let str = drop 2 str;
            str = (if cstr_at str 0 \<noteq> 0 \<and> \<not> isxdigit (cstr_at str 0) then drop 1 str else str);
            (left, b) = addr64_parse_loop i str
        in (left, of_int ret # b))"

definition addr64_parse :: "addr64 option \<Rightarrow> bytes option \<Rightarrow> int \<times> addr64 option" where
  "addr64_parse address_be str =
     (case (str, address_be) of
        (Some s, Some a) \<Rightarrow>
          let (i, b) = addr64_parse_loop 8 (dropWhile isspace s) in
          if i = 0 then (0, Some b) else (- EINVAL, Some WPAN_IEEE_ADDR_COORDINATOR)
      | (None, Some a) \<Rightarrow> (- EINVAL, Some WPAN_IEEE_ADDR_COORDINATOR)
      | (_, None) \<Rightarrow> (- EINVAL, None))"

section \<open>Comparison is comparison of all eight bytes\<close>

lemma be32_of_eq_iff: "be32_of a b c d = be32_of a' b' c' d' \<longleftrightarrow> a = a' \<and> b = b' \<and> c = c' \<and> d = d'"
proof
  assume eq: "be32_of a b c d = be32_of a' b' c' d'"
  have "ucast (drop_bit 24 (be32_of a b c d)) = a" "ucast (drop_bit 16 (be32_of a b c d)) = b"
    "ucast (drop_bit 8 (be32_of a b c d)) = c" "ucast (be32_of a b c d) = d" for a b c d
    by (rule bit_word_eqI, auto simp: be32_of_def bit_simps dest: bit_word_lt)+
  then show "a = a' \<and> b = b' \<and> c = c' \<and> d = d'"
    using eq by metis
qed simp

lemma length_8E:
  assumes "length xs = 8"
  obtains a b c d e f g h where "xs = [a, b, c, d, e, f, g, h]"
  using assms by (auto simp: numeral_eq_Suc length_Suc_conv)

lemma addr64_equal_iff:
  assumes "length a = 8" "length b = 8"
  shows "addr64_equal (Some a) (Some b) \<longleftrightarrow> a = b"
  using assms by (elim length_8E) (auto simp: addr64_equal_def addr64_l_def be32_of_eq_iff)

section \<open>The text forms of an address\<close>

definition hexval :: "u8 \<Rightarrow> u8 option" where
  "hexval ch =
     (if 48 \<le> ch \<and> ch \<le> 57 then Some (ch - 48)
      else if 97 \<le> ch \<and> ch \<le> 102 then Some (ch - 87)
      else if 65 \<le> ch \<and> ch \<le> 70 then Some (ch - 55)
      else None)"

text \<open>
  The documented format: two hexadecimal digits of either case per byte, with an optional
  one-character separator after each byte; what follows the last byte is ignored.
\<close>

fun addr_text :: "bytes \<Rightarrow> bytes \<Rightarrow> bool" where
  "addr_text [] s = True"
| "addr_text (b # bs) (h # l # s) =
     (hexval h = Some (b div 16) \<and> hexval l = Some (b mod 16) \<and>
      (addr_text bs s \<or>
       (case s of c # s' \<Rightarrow> c \<noteq> 0 \<and> \<not> isxdigit c \<and> addr_text bs s' | [] \<Rightarrow> False)))"
| "addr_text (b # bs) _ = False"

lemma hexval_isxdigit: "(hexval ch \<noteq> None) = isxdigit ch"
  by (auto simp: hexval_def isxdigit_def)

lemma hexval_lt: "hexval ch = Some v \<Longrightarrow> v < 16"
  by (auto simp: hexval_def split: if_splits) unat_arith+

lemma hexstrtobyte_hexval:
  "hexstrtobyte s =
     (case (hexval (cstr_at s 0), hexval (cstr_at s 1)) of
        (Some h, Some l) \<Rightarrow> uint (push_bit 4 h + l) | _ \<Rightarrow> -1)"
  by (simp add: hexstrtobyte_def hexval_def numeral_2_eq_2 Let_def)

lemma nibbles_eq_iff:
  assumes "h < (16 :: u8)" "l < 16"
  shows "push_bit 4 h + l = b \<longleftrightarrow> h = b div 16 \<and> l = b mod 16"
proof
  from assms have lt: "unat h < 16" "unat l < 16" by unat_arith+
  have "unat (push_bit 4 h + l) = 16 * unat h + unat l"
    using lt by (simp add: push_bit_eq_mult unat_word_ariths)
  moreover assume "push_bit 4 h + l = b"
  ultimately have "unat b = 16 * unat h + unat l" by simp
  with lt show "h = b div 16 \<and> l = b mod 16"
    by (simp add: word_unat_eq_iff unat_div_distrib unat_mod_distrib)
next
  assume "h = b div 16 \<and> l = b mod 16"
  then show "push_bit 4 h + l = b"
    by (simp add: push_bit_eq_mult div_mult_mod_eq)
qed

lemma cstr_at_Cons [simp]:
  "cstr_at (x # xs) 0 = x" "cstr_at (x # xs) (Suc n) = cstr_at xs n" "cstr_at [] n = 0"
  by (simp_all add: cstr_at_def)

lemma hexval_0 [simp]: "hexval 0 = None"
  by (simp add: hexval_def)

lemma hexstrtobyte_eq_iff:
  "(0 \<le> hexstrtobyte s \<and> of_int (hexstrtobyte s) = b) \<longleftrightarrow>
   hexval (cstr_at s 0) = Some (b div 16) \<and> hexval (cstr_at s 1) = Some (b mod 16)"
proof (cases "hexval (cstr_at s 0)"; cases "hexval (cstr_at s 1)")
  fix h l
  assume hl: "hexval (cstr_at s 0) = Some h" "hexval (cstr_at s 1) = Some l"
  then have "push_bit 4 h + l = b \<longleftrightarrow> h = b div 16 \<and> l = b mod 16"
    by (intro nibbles_eq_iff) (auto dest: hexval_lt)
  with hl show ?thesis by (simp add: hexstrtobyte_hexval)
qed (simp_all add: hexstrtobyte_hexval)

definition skip_sep :: "bytes \<Rightarrow> bytes" where
  "skip_sep r = (if cstr_at r 0 \<noteq> 0 \<and> \<not> isxdigit (cstr_at r 0) then drop 1 r else r)"

lemma addr_text_skip_sep:
  "addr_text bs (skip_sep s) \<longleftrightarrow>
   addr_text bs s \<or> (case s of c # s' \<Rightarrow> c \<noteq> 0 \<and> \<not> isxdigit c \<and> addr_text bs s' | [] \<Rightarrow> False)"
proof (cases s)
  case (Cons c s')
  have "\<not> isxdigit c \<Longrightarrow> addr_text bs (c # s') \<Longrightarrow> bs = []"
    using hexval_isxdigit [of c] by (cases "(bs, c # s')" rule: addr_text.cases) auto
  with Cons show ?thesis by (auto simp: skip_sep_def)
qed (simp add: skip_sep_def)

lemma addr_text_Cons:
  "addr_text (b # bs) s \<longleftrightarrow>
   0 \<le> hexstrtobyte s \<and> of_int (hexstrtobyte s) = b \<and> addr_text bs (skip_sep (drop 2 s))"
proof (cases "(b # bs, s)" rule: addr_text.cases)
  case (2 b' bs' h l s')
  then show ?thesis
    using hexstrtobyte_eq_iff [of s b] by (auto simp: addr_text_skip_sep)
qed (use hexstrtobyte_eq_iff [of s b] in auto)

lemma addr64_parse_loop_text:
  "addr64_parse_loop n s = (0, bs) \<longleftrightarrow> length bs = n \<and> addr_text bs s"
proof (induction n arbitrary: s bs)
  case (Suc n)
  let ?r = "addr64_parse_loop n (skip_sep (drop 2 s))"
  have "addr64_parse_loop (Suc n) s =
      (if hexstrtobyte s < 0 then (Suc n, [])
       else (fst ?r, of_int (hexstrtobyte s) # snd ?r))"
    by (simp add: Let_def skip_sep_def split: prod.splits)
  then have "addr64_parse_loop (Suc n) s = (0, bs) \<longleftrightarrow>
      (\<exists>b bs'. bs = b # bs' \<and> 0 \<le> hexstrtobyte s \<and> of_int (hexstrtobyte s) = b \<and>
        addr64_parse_loop n (skip_sep (drop 2 s)) = (0, bs'))"
    by (cases bs) (auto simp: prod_eq_iff)
  also have "\<dots> \<longleftrightarrow> length bs = Suc n \<and> addr_text bs s"
    unfolding Suc.IH by (cases bs) (auto simp: addr_text_Cons simp del: addr_text.simps)
  finally show ?case .
qed auto

lemma addr64_parse_ok_iff:
  "addr64_parse (Some x) (Some s) = (0, Some a) \<longleftrightarrow>
   length a = 8 \<and> addr_text a (dropWhile isspace s)"
  using addr64_parse_loop_text [of 8 "dropWhile isspace s" a]
  by (auto simp: addr64_parse_def split: prod.splits)

text \<open>
  C28: \<open>addr64_parse\<close> succeeds exactly on the documented text forms: after leading white
  space, eight bytes of two hexadecimal digits with optional one-character separators; it then
  stores those eight bytes, and on every other text it returns \<open>-EINVAL\<close> with the address
  zeroed.
\<close>

theorem addr64_parse_iff:
  "(addr64_parse (Some x) (Some s) = (0, Some a) \<longleftrightarrow>
    length a = 8 \<and> addr_text a (dropWhile isspace s)) \<and>
   ((\<nexists>a. length a = 8 \<and> addr_text a (dropWhile isspace s)) \<longleftrightarrow>
    addr64_parse (Some x) (Some s) = (- EINVAL, Some WPAN_IEEE_ADDR_COORDINATOR))"
proof (rule conjI [OF addr64_parse_ok_iff])
  obtain i b where r: "addr64_parse_loop 8 (dropWhile isspace s) = (i, b)" by fastforce
  have "i = 0 \<longleftrightarrow> (\<exists>a. length a = 8 \<and> addr_text a (dropWhile isspace s))"
    unfolding addr64_parse_loop_text [symmetric] r by auto
  with r show "(\<nexists>a. length a = 8 \<and> addr_text a (dropWhile isspace s)) \<longleftrightarrow>
      addr64_parse (Some x) (Some s) = (- EINVAL, Some WPAN_IEEE_ADDR_COORDINATOR)"
    by (auto simp: addr64_parse_def)
qed

section \<open>Printing produces a text form\<close>

lemma hexval_hexdigits:
  assumes "n < 16"
  shows "hexval (hexdigits ! n) = Some (of_nat n)"
proof -
  have "map hexval hexdigits = map (\<lambda>i. Some (of_nat i)) [0..<16]"
    by (simp add: hexdigits_def hexval_def upt_rec)
  then have "map hexval hexdigits ! n = map (\<lambda>i. Some (of_nat i)) [0..<16] ! n" by simp
  moreover have "n < length hexdigits" using assms by (simp add: hexdigits_def)
  ultimately show ?thesis using assms by simp
qed

lemma hexval_hex_pair:
  "hexval (hexdigits ! unat (drop_bit 4 ch)) = Some (ch div 16)"
  "hexval (hexdigits ! unat (ch AND 0x0F)) = Some (ch mod 16)"
proof -
  have d: "drop_bit 4 ch = ch div 16" by (simp add: drop_bit_eq_div)
  have m: "ch AND 0x0F = ch mod 16"
    using take_bit_eq_mask [of 4 ch] by (simp add: take_bit_eq_mod mask_eq_exp_minus_1)
  have "unat (ch div 16) < 16" "unat (ch mod 16) < 16"
    by (simp_all add: unat_div_distrib unat_mod_distrib less_mult_imp_div_less)
  then show "hexval (hexdigits ! unat (drop_bit 4 ch)) = Some (ch div 16)"
    "hexval (hexdigits ! unat (ch AND 0x0F)) = Some (ch mod 16)"
    unfolding d m by (simp_all add: hexval_hexdigits)
qed

lemma isxdigit_not_space: "isxdigit ch \<Longrightarrow> ch \<noteq> 0 \<and> \<not> isspace ch"
  unfolding isxdigit_def isspace_def by unat_arith

lemma hex_pair_facts:
  "addr_text (b # bs) (hex_pair b @ s) =
     (addr_text bs s \<or> (case s of c # s' \<Rightarrow> c \<noteq> 0 \<and> \<not> isxdigit c \<and> addr_text bs s' | [] \<Rightarrow> False))"
  "0 \<notin> set (hex_pair b)" "length (hex_pair b) = 2" "\<not> isspace (hd (hex_pair b))"
proof -
  note hv = hexval_hex_pair [of b]
  then have "isxdigit (hexdigits ! unat (drop_bit 4 b))" "isxdigit (hexdigits ! unat (b AND 0x0F))"
    using hexval_isxdigit by force+
  then show "0 \<notin> set (hex_pair b)" "\<not> isspace (hd (hex_pair b))"
    using isxdigit_not_space by (force simp: hex_pair_def)+
  show "addr_text (b # bs) (hex_pair b @ s) =
     (addr_text bs s \<or> (case s of c # s' \<Rightarrow> c \<noteq> 0 \<and> \<not> isxdigit c \<and> addr_text bs s' | [] \<Rightarrow> False))"
    using hv by (simp add: hex_pair_def)
qed (simp add: hex_pair_def)

lemma addr64_format_loop_text:
  "bs \<noteq> [] \<Longrightarrow> \<exists>t. addr64_format_loop (length bs) bs = t @ [0] \<and> addr_text bs t \<and>
     0 \<notin> set t \<and> length t = 3 * length bs - 1 \<and> \<not> isspace (hd t)"
proof (induction bs)
  case (Cons b bs)
  show ?case
  proof (cases "bs = []")
    case True
    then show ?thesis
      by (intro exI [of _ "hex_pair b"])
        (use hex_pair_facts(1) [of b "[]" "[]"] in \<open>simp add: hex_pair_facts del: addr_text.simps(2)\<close>)
  next
    case False
    with Cons.IH obtain t where t: "addr64_format_loop (length bs) bs = t @ [0]" "addr_text bs t"
      "0 \<notin> set t" "length t = 3 * length bs - 1" by auto
    have sep: "ADDR64_FORMAT_SEPARATOR \<noteq> 0" "\<not> isxdigit ADDR64_FORMAT_SEPARATOR"
      by (simp_all add: ADDR64_FORMAT_SEPARATOR_def isxdigit_def)
    have "addr_text (b # bs) (hex_pair b @ ADDR64_FORMAT_SEPARATOR # t)"
      unfolding hex_pair_facts using sep t by simp
    moreover have "hd (hex_pair b @ ADDR64_FORMAT_SEPARATOR # t) = hd (hex_pair b)"
      by (simp add: hex_pair_def)
    ultimately show ?thesis
      using t sep False hex_pair_facts(2-4) [of b]
      by (intro exI [of _ "hex_pair b @ ADDR64_FORMAT_SEPARATOR # t"])
        (cases bs; simp del: addr_text.simps)
  qed
qed simp

text \<open>
  \<open>addr64_format\<close> writes exactly \<open>ADDR64_STRING_LENGTH\<close> (24) bytes, the
  terminator included, and \<open>addr64_parse\<close> turns the string back into the same address.
\<close>

theorem addr64_format_parse:
  assumes "length a = 8"
  shows "length (addr64_format a) = 24 \<and>
    addr64_parse (Some x) (Some (cstr_of (addr64_format a))) = (0, Some a)"
proof -
  obtain t where t: "addr64_format a = t @ [0]" "addr_text a t" "0 \<notin> set t"
    "length t = 23" "\<not> isspace (hd t)"
    using addr64_format_loop_text [of a] assms by (fastforce simp: addr64_format_def)
  have "cstr_of (addr64_format a) = t"
    using t(1,3) by (simp add: cstr_of_terminated)
  moreover have "dropWhile isspace t = t"
    using t(4,5) by (cases t) auto
  ultimately show ?thesis
    using t assms by (simp add: addr64_parse_ok_iff)
qed

theorem addr64_format_parse_witness:
  "length (addr64_format [0, 0x13, 0xA2, 0, 0x40, 0x5E, 0x0E, 0xF0]) = 24 \<and>
   addr64_parse (Some []) (Some (cstr_of (addr64_format [0, 0x13, 0xA2, 0, 0x40, 0x5E, 0x0E, 0xF0])))
     = (0, Some [0, 0x13, 0xA2, 0, 0x40, 0x5E, 0x0E, 0xF0])"
  by (rule addr64_format_parse) simp

end
