(* ===== verification/Cbuf.thy ===== *)
theory Cbuf
  imports Prelude
begin

text \<open>
  \<open>src/Software/lib/XBee/src/xbee/xbee_cbuf.c\<close>: the circular byte buffer of the
  over-the-air update client and the transparent serial cluster. The record has the fields of
  \<open>xbee_cbuf_t\<close> at their width; index arithmetic is done on C \<open>int\<close>s and masked, as
  in the source. The locale \<open>bounded_fifo\<close> states what a client of the buffer relies on,
  and the buffer is proved to implement it: it is a first-in first-out queue of at most
  \<open>mask\<close> bytes.
\<close>

section \<open>The buffer and its operations\<close>

record xbee_cbuf_t =
  cb_lock :: u8
  cb_head :: u8
  cb_tail :: u8
  cb_mask :: u8
  cb_data :: bytes

text \<open>\<open>(e) & mask\<close> for an \<open>int\<close> expression \<open>e\<close>, stored into a \<open>uint8_t\<close>.\<close>

definition masked :: "int \<Rightarrow> u8 \<Rightarrow> u8" where
  "masked e m = of_int (e AND uint m)"

definition xbee_cbuf_init :: "xbee_cbuf_t option \<Rightarrow> u8 \<Rightarrow> int \<times> xbee_cbuf_t option" where
  "xbee_cbuf_init cbuf datasize =
     (case cbuf of
        None \<Rightarrow> (- EINVAL, None)
      | Some c \<Rightarrow>
          if datasize < 3 \<or> uint datasize AND (uint datasize + 1) \<noteq> 0 then (- EINVAL, Some c)
          else (0, Some (c\<lparr>cb_mask := datasize, cb_lock := 0, cb_head := 0, cb_tail := 0\<rparr>)))"

definition xbee_cbuf_putch :: "xbee_cbuf_t \<Rightarrow> u8 \<Rightarrow> int \<times> xbee_cbuf_t" where
  "xbee_cbuf_putch cbuf ch =
     (let t = cb_tail cbuf;
          cbuf = cbuf\<lparr>cb_data := (cb_data cbuf)[unat t := ch]\<rparr>;
          t = masked (uint t + 1) (cb_mask cbuf)
      in if t = cb_head cbuf then (0, cbuf) else (1, cbuf\<lparr>cb_tail := t\<rparr>))"

definition xbee_cbuf_getch :: "xbee_cbuf_t \<Rightarrow> int \<times> xbee_cbuf_t" where
  "xbee_cbuf_getch cbuf =
     (let h = cb_head cbuf in
      if h = cb_tail cbuf then (-1, cbuf)
      else (uint (cb_data cbuf ! unat h), cbuf\<lparr>cb_head := masked (uint h + 1) (cb_mask cbuf)\<rparr>))"

definition xbee_cbuf_used :: "xbee_cbuf_t \<Rightarrow> u8" where
  "xbee_cbuf_used cbuf = masked (uint (cb_tail cbuf) - uint (cb_head cbuf)) (cb_mask cbuf)"

definition xbee_cbuf_free :: "xbee_cbuf_t \<Rightarrow> u8" where
  "xbee_cbuf_free cbuf = masked (uint (cb_head cbuf) - uint (cb_tail cbuf) - 1) (cb_mask cbuf)"

definition xbee_cbuf_flush :: "xbee_cbuf_t \<Rightarrow> xbee_cbuf_t" where
  "xbee_cbuf_flush cbuf = cbuf\<lparr>cb_head := cb_tail cbuf\<rparr>"

text \<open>
  The copy loops; the bytes still to copy are a list, whose length is the loop counter, and the
  result counts the bytes copied (\<open>length - copy\<close> in the source).
\<close>

fun xbee_cbuf_put_loop :: "xbee_cbuf_t \<Rightarrow> bytes \<Rightarrow> u8 \<Rightarrow> nat \<times> xbee_cbuf_t" where
  "xbee_cbuf_put_loop cbuf [] stop = (0, cbuf)"
| "xbee_cbuf_put_loop cbuf (b # bs) stop =
     (if cb_tail cbuf \<noteq> stop then
        let cbuf = cbuf\<lparr>cb_data := (cb_data cbuf)[unat (cb_tail cbuf) := b],
                        cb_tail := masked (uint (cb_tail cbuf) + 1) (cb_mask cbuf)\<rparr>;
            (n, cbuf) = xbee_cbuf_put_loop cbuf bs stop
        in (Suc n, cbuf)
      else (0, cbuf))"

definition xbee_cbuf_put :: "xbee_cbuf_t \<Rightarrow> bytes \<Rightarrow> nat \<times> xbee_cbuf_t" where
  "xbee_cbuf_put cbuf buffer =
     xbee_cbuf_put_loop cbuf buffer (masked (uint (cb_head cbuf) - 1) (cb_mask cbuf))"

fun xbee_cbuf_get :: "xbee_cbuf_t \<Rightarrow> nat \<Rightarrow> bytes \<times> xbee_cbuf_t" where
  "xbee_cbuf_get cbuf 0 = ([], cbuf)"
| "xbee_cbuf_get cbuf (Suc copy) =
     (if cb_head cbuf \<noteq> cb_tail cbuf then
        let b = cb_data cbuf ! unat (cb_head cbuf);
            cbuf = cbuf\<lparr>cb_head := masked (uint (cb_head cbuf) + 1) (cb_mask cbuf)\<rparr>;
            (bs, cbuf) = xbee_cbuf_get cbuf copy
        in (b # bs, cbuf)
      else ([], cbuf))"

section \<open>Invariant and contents\<close>

definition mask_ok :: "u8 \<Rightarrow> bool" where
  "mask_ok m \<longleftrightarrow> (\<exists>k \<in> {2, 3, 4, 5, 6, 7, 8}. Suc (unat m) = 2 ^ k)"

definition cbuf_inv :: "xbee_cbuf_t \<Rightarrow> bool" where
  "cbuf_inv c \<longleftrightarrow>
     mask_ok (cb_mask c) \<and>
     cb_head c \<le> cb_mask c \<and> cb_tail c \<le> cb_mask c \<and> unat (cb_mask c) < length (cb_data c)"

text \<open>The modulus \<open>mask + 1\<close>, the distance from head to tail, and the bytes in between.\<close>

definition cbuf_mod :: "xbee_cbuf_t \<Rightarrow> nat" where
  "cbuf_mod c = Suc (unat (cb_mask c))"

definition ring_dist :: "nat \<Rightarrow> nat \<Rightarrow> nat \<Rightarrow> nat" where
  "ring_dist m h t = (t + m - h) mod m"

definition cbuf_contents :: "xbee_cbuf_t \<Rightarrow> bytes" where
  "cbuf_contents c =
     map (\<lambda>i. cb_data c ! ((unat (cb_head c) + i) mod cbuf_mod c))
       [0..<ring_dist (cbuf_mod c) (unat (cb_head c)) (unat (cb_tail c))]"

section \<open>The contract of a bounded queue\<close>

text \<open>
  The abstract queue: a list of at most \<open>cap\<close> elements. A history is a list of operations, \<open>Some x\<close> to
  put \<open>x\<close> and \<open>None\<close> to get; the results are the elements accepted, those delivered, and the list at the end.
\<close>

fun queue_run :: "nat \<Rightarrow> 'a list \<Rightarrow> 'a option list \<Rightarrow> 'a list \<times> 'a list \<times> 'a list" where
  "queue_run cap q [] = ([], [], q)"
| "queue_run cap q (Some x # ops) =
     (if length q < cap then let (ins, outs, q) = queue_run cap (q @ [x]) ops in (x # ins, outs, q)
      else queue_run cap q ops)"
| "queue_run cap [] (None # ops) = queue_run cap [] ops"
| "queue_run cap (x # q) (None # ops) = (let (ins, outs, q) = queue_run cap q ops in (ins, x # outs, q))"

text \<open>
  What a client relies on: \<open>put1\<close> appends a byte unless the queue holds \<open>cap\<close> bytes, when
  it reports failure and changes nothing a client sees; \<open>get1\<close> takes the oldest byte or
  reports that there is none.
\<close>

locale bounded_fifo =
  fixes inv :: "'q \<Rightarrow> bool"
    and contents :: "'q \<Rightarrow> 'a list"
    and cap :: "'q \<Rightarrow> nat"
    and put1 :: "'q \<Rightarrow> 'a \<Rightarrow> bool \<times> 'q"
    and get1 :: "'q \<Rightarrow> 'a option \<times> 'q"
  assumes contents_cap: "inv q \<Longrightarrow> length (contents q) \<le> cap q"
    and put1_inv: "inv q \<Longrightarrow> inv (snd (put1 q x)) \<and> cap (snd (put1 q x)) = cap q"
    and put1_ok: "inv q \<Longrightarrow> length (contents q) < cap q \<Longrightarrow>
      fst (put1 q x) \<and> contents (snd (put1 q x)) = contents q @ [x]"
    and put1_full: "inv q \<Longrightarrow> length (contents q) = cap q \<Longrightarrow>
      \<not> fst (put1 q x) \<and> contents (snd (put1 q x)) = contents q"
    and get1_inv: "inv q \<Longrightarrow> inv (snd (get1 q)) \<and> cap (snd (get1 q)) = cap q"
    and get1_empty: "inv q \<Longrightarrow> contents q = [] \<Longrightarrow> get1 q = (None, q)"
    and get1_ok: "inv q \<Longrightarrow> contents q = x # xs \<Longrightarrow>
      fst (get1 q) = Some x \<and> contents (snd (get1 q)) = xs"
begin

text \<open>A history of puts and gets: the bytes accepted and the bytes delivered.\<close>

fun run :: "'q \<Rightarrow> 'a option list \<Rightarrow> 'a list \<times> 'a list \<times> 'q" where
  "run q [] = ([], [], q)"
| "run q (Some x # ops) =
     (let (ok, q) = put1 q x; (ins, outs, q) = run q ops
      in (if ok then x # ins else ins, outs, q))"
| "run q (None # ops) =
     (let (r, q) = get1 q; (ins, outs, q) = run q ops
      in (ins, case r of None \<Rightarrow> outs | Some x \<Rightarrow> x # outs, q))"

lemma run_fifo:
  "inv q \<Longrightarrow> run q ops = (ins, outs, q') \<Longrightarrow>
   inv q' \<and> cap q' = cap q \<and> contents q @ ins = outs @ contents q'"
proof (induction q ops arbitrary: ins outs q' rule: run.induct)
  case (2 q x ops)
  obtain ok q1 where p: "put1 q x = (ok, q1)" by fastforce
  obtain ins1 outs1 where r: "run q1 ops = (ins1, outs1, q')" and
    e: "ins = (if ok then x # ins1 else ins1)" "outs = outs1"
    using 2(3) p by (auto split: prod.splits)
  have "inv q1" "cap q1 = cap q" using put1_inv [OF 2(2), of x] p by auto
  with 2(1) [OF p [symmetric] refl, of ins1 outs1 q'] r
  have IH: "inv q' \<and> cap q' = cap q \<and> contents q1 @ ins1 = outs1 @ contents q'" by auto
  consider "length (contents q) < cap q" | "length (contents q) = cap q"
    using contents_cap [OF 2(2)] by linarith
  then show ?case
    using IH e put1_ok [OF 2(2), of x] put1_full [OF 2(2), of x] p by cases auto
next
  case (3 q ops)
  obtain r q1 where p: "get1 q = (r, q1)" by fastforce
  obtain outs1 where r: "run q1 ops = (ins, outs1, q')" and
    e: "outs = (case r of None \<Rightarrow> outs1 | Some x \<Rightarrow> x # outs1)"
    using 3(3) p by (auto split: prod.splits)
  have "inv q1" "cap q1 = cap q" using get1_inv [OF 3(2)] p by auto
  with 3(1) [OF p [symmetric] refl, of ins outs1 q'] r
  have IH: "inv q' \<and> cap q' = cap q \<and> contents q1 @ ins = outs1 @ contents q'" by auto
  show ?case
    using IH e get1_empty [OF 3(2)] get1_ok [OF 3(2)] p by (cases "contents q") auto
qed simp

lemma run_queue:
  "inv q \<Longrightarrow> run q ops = (ins, outs, q') \<Longrightarrow> queue_run (cap q) (contents q) ops = (ins, outs, contents q')"
proof (induction q ops arbitrary: ins outs q' rule: run.induct)
  case (2 q x ops)
  obtain ok q1 where p: "put1 q x = (ok, q1)" by fastforce
  obtain ins1 where r: "run q1 ops = (ins1, outs, q')" and e: "ins = (if ok then x # ins1 else ins1)"
    using 2(3) p by (auto split: prod.splits)
  have i: "inv q1" "cap q1 = cap q" using put1_inv [OF 2(2), of x] p by auto
  have IH: "queue_run (cap q) (contents q1) ops = (ins1, outs, contents q')"
    using 2(1) [OF p [symmetric] refl i(1) r] i(2) by simp
  consider "length (contents q) < cap q" | "length (contents q) = cap q"
    using contents_cap [OF 2(2)] by linarith
  then show ?case
    using IH e put1_ok [OF 2(2), of x] put1_full [OF 2(2), of x] p by cases auto
next
  case (3 q ops)
  obtain r q1 where p: "get1 q = (r, q1)" by fastforce
  obtain outs1 where r: "run q1 ops = (ins, outs1, q')" and
    e: "outs = (case r of None \<Rightarrow> outs1 | Some x \<Rightarrow> x # outs1)"
    using 3(3) p by (auto split: prod.splits)
  have i: "inv q1" "cap q1 = cap q" using get1_inv [OF 3(2)] p by auto
  have IH: "queue_run (cap q) (contents q1) ops = (ins, outs1, contents q')"
    using 3(1) [OF p [symmetric] refl i(1) r] i(2) by simp
  show ?case
    using IH e get1_empty [OF 3(2)] get1_ok [OF 3(2)] p by (cases "contents q") auto
qed simp

end

section \<open>Index arithmetic\<close>

lemma ring_dist_if: "h < m \<Longrightarrow> t < m \<Longrightarrow> ring_dist m h t = (if h \<le> t then t - h else t + m - h)"
  by (auto simp: ring_dist_def mod_if)

lemma Suc_mod_if: "t < m \<Longrightarrow> Suc t mod m = (if Suc t = m then 0 else Suc t)"
  by auto

lemma add_mod_if: "a < m \<Longrightarrow> b < m \<Longrightarrow> (a + b) mod m = (if a + b < m then a + b else a + b - (m :: nat))"
  by (simp add: mod_if)

lemma ring_dist_lt: "h < m \<Longrightarrow> t < m \<Longrightarrow> ring_dist m h t < m"
  by (simp add: ring_dist_def)

lemma ring_dist_0: "h < m \<Longrightarrow> t < m \<Longrightarrow> ring_dist m h t = 0 \<longleftrightarrow> h = t"
  by (auto simp: ring_dist_if)

lemma ring_dist_full: "h < m \<Longrightarrow> t < m \<Longrightarrow> Suc t mod m = h \<longleftrightarrow> Suc (ring_dist m h t) = m"
  by (auto simp: ring_dist_if Suc_mod_if)

lemma ring_dist_put:
  "h < m \<Longrightarrow> t < m \<Longrightarrow> Suc t mod m \<noteq> h \<Longrightarrow> ring_dist m h (Suc t mod m) = Suc (ring_dist m h t)"
  by (auto simp: ring_dist_if Suc_mod_if)

lemma ring_dist_get:
  "h < m \<Longrightarrow> t < m \<Longrightarrow> h \<noteq> t \<Longrightarrow> Suc (ring_dist m (Suc h mod m) t) = ring_dist m h t"
  by (auto simp: ring_dist_if Suc_mod_if)

lemma ring_index_end: "h < m \<Longrightarrow> t < m \<Longrightarrow> (h + ring_dist m h t) mod m = t"
  by (auto simp: ring_dist_if add_mod_if)

lemma ring_index_neq:
  assumes "h < m" "t < m" "i < ring_dist m h t"
  shows "(h + i) mod m \<noteq> t"
proof -
  have "i < m" using assms ring_dist_lt [of h m t] by linarith
  with assms show ?thesis by (auto simp: ring_dist_if add_mod_if split: if_splits)
qed

lemma masked_mod:
  assumes "mask_ok m"
  shows "int (unat (masked e m)) = e mod int (Suc (unat m))"
proof -
  from assms obtain k where "k \<in> {2, 3, 4, 5, 6, 7, 8}" and k2: "Suc (unat m) = 2 ^ k"
    unfolding mask_ok_def by (elim bexE)
  then have k: "k \<le> 8" "Suc (unat m) = 2 ^ k" by (auto simp only: insert_iff empty_iff)
  then have m: "uint m = 2 ^ k - 1"
    by (metis of_nat_Suc of_nat_numeral of_nat_power uint_nat add_diff_cancel_left')
  have e: "e AND uint m = e mod 2 ^ k"
    using take_bit_eq_mask [of k e] by (simp add: m take_bit_eq_mod mask_eq_exp_minus_1)
  have "e mod 2 ^ k < 2 ^ k" by simp
  also have "(2 :: int) ^ k \<le> 2 ^ 8" using k(1) by (rule power_increasing) simp
  finally have lt: "e mod 2 ^ k < 256" by simp
  have "int (unat (masked e m)) = e mod 2 ^ k"
    using lt by (simp add: masked_def e unsigned_of_int take_bit_eq_mod)
  then show ?thesis by (simp only: k(2) of_nat_power of_nat_numeral)
qed

lemma mod_eq_near:
  "n < p \<Longrightarrow> e = int n \<or> e + int p = int n \<or> e = int n + int p \<Longrightarrow> e mod int p = int n"
  by (metis add_diff_cancel_right' diff_add_cancel minus_mod_self2 mod_add_self2 mod_less of_nat_mod)

lemma masked_eqI:
  assumes "mask_ok m" "n \<le> unat m"
    and "e = int n \<or> e + int (Suc (unat m)) = int n \<or> e = int n + int (Suc (unat m))"
  shows "unat (masked e m) = n"
proof -
  have "int (unat (masked e m)) = int n"
    unfolding masked_mod [OF assms(1)] using assms(2,3) by (intro mod_eq_near) auto
  then show ?thesis by (simp only: of_nat_eq_iff)
qed

lemma masked_unat:
  assumes "mask_ok m" "h \<le> m" "t \<le> m"
  shows "unat (masked (uint t + 1) m) = Suc (unat t) mod Suc (unat m)"
    and "unat (masked (uint t - uint h) m) = ring_dist (Suc (unat m)) (unat h) (unat t)"
    and "unat (masked (uint h - uint t - 1) m) = unat m - ring_dist (Suc (unat m)) (unat h) (unat t)"
    and "unat (masked (uint h - 1) m) = (unat h + unat m) mod Suc (unat m)"
proof -
  have le: "unat h \<le> unat m" "unat t \<le> unat m" using assms by (simp_all add: word_le_nat_alt)
  show "unat (masked (uint t + 1) m) = Suc (unat t) mod Suc (unat m)"
    unfolding uint_nat
    by (rule masked_eqI [OF assms(1)]) (use le in \<open>auto simp: Suc_mod_if simp del: of_nat_unat\<close>)
  show "unat (masked (uint t - uint h) m) = ring_dist (Suc (unat m)) (unat h) (unat t)"
    unfolding uint_nat
    by (rule masked_eqI [OF assms(1)]) (use le in \<open>auto simp: ring_dist_if simp del: of_nat_unat\<close>)
  show "unat (masked (uint h - uint t - 1) m) = unat m - ring_dist (Suc (unat m)) (unat h) (unat t)"
    unfolding uint_nat
    by (rule masked_eqI [OF assms(1)]) (use le in \<open>auto simp: ring_dist_if simp del: of_nat_unat\<close>)
  have "(unat h + unat m) mod Suc (unat m) = (if unat h = 0 then unat m else unat h - 1)"
    using le by (auto simp: add_mod_if)
  then show "unat (masked (uint h - 1) m) = (unat h + unat m) mod Suc (unat m)"
    unfolding uint_nat
    by (intro masked_eqI [OF assms(1)]) (use le in \<open>auto simp del: of_nat_unat\<close>)
qed

section \<open>Each operation on the contents\<close>

lemma cbuf_invD:
  assumes "cbuf_inv c"
  shows "unat (cb_head c) < cbuf_mod c" "unat (cb_tail c) < cbuf_mod c"
    "cbuf_mod c \<le> length (cb_data c)" "cbuf_mod c = Suc (unat (cb_mask c))"
  using assms by (simp_all add: cbuf_inv_def cbuf_mod_def word_le_nat_alt less_Suc_eq_le Suc_le_eq)

lemma length_contents: "length (cbuf_contents c) = ring_dist (cbuf_mod c) (unat (cb_head c)) (unat (cb_tail c))"
  by (simp add: cbuf_contents_def)

lemmas inv_masked = masked_unat [of "cb_mask c" "cb_head c" "cb_tail c" for c, folded cbuf_mod_def]

lemma cbuf_step_tail:
  assumes "cbuf_inv c" and t: "t = masked (uint (cb_tail c) + 1) (cb_mask c)"
    and room: "t \<noteq> cb_head c"
    and d: "d = c\<lparr>cb_data := (cb_data c)[unat (cb_tail c) := x], cb_tail := t\<rparr>"
  shows "cbuf_inv d \<and> cbuf_contents d = cbuf_contents c @ [x]"
proof -
  note inv = cbuf_invD [OF assms(1)]
  have tu: "unat t = Suc (unat (cb_tail c)) mod cbuf_mod c"
    using assms(1) inv_masked(1) [of c] by (simp add: t cbuf_inv_def cbuf_mod_def)
  have ne: "Suc (unat (cb_tail c)) mod cbuf_mod c \<noteq> unat (cb_head c)"
    using room by (simp add: tu [symmetric] word_unat_eq_iff)
  have "t \<le> cb_mask c"
    unfolding word_le_nat_alt tu using inv(4) by (simp add: less_Suc_eq_le [symmetric])
  then have di: "cbuf_inv d" using assms(1) by (simp add: d cbuf_inv_def)
  let ?n = "ring_dist (cbuf_mod c) (unat (cb_head c)) (unat (cb_tail c))"
  have md: "cbuf_mod d = cbuf_mod c" by (simp add: d cbuf_mod_def)
  have "cbuf_contents d = map (\<lambda>i. (cb_data c)[unat (cb_tail c) := x] !
      ((unat (cb_head c) + i) mod cbuf_mod c)) [0..<Suc ?n]"
    using ring_dist_put [OF inv(1,2) ne] by (simp add: cbuf_contents_def md) (simp add: d tu)
  also have "\<dots> = cbuf_contents c @ [x]"
    using inv ring_index_neq [OF inv(1,2), THEN not_sym] ring_index_end [OF inv(1,2)]
    by (auto simp: cbuf_contents_def)
  finally show ?thesis using di by simp
qed

lemma cbuf_step_head:
  assumes "cbuf_inv c" and ne: "cb_head c \<noteq> cb_tail c"
    and d: "d = c\<lparr>cb_head := masked (uint (cb_head c) + 1) (cb_mask c)\<rparr>"
  shows "cbuf_inv d \<and> cbuf_contents c = cb_data c ! unat (cb_head c) # cbuf_contents d"
proof -
  note inv = cbuf_invD [OF assms(1)]
  have hu: "unat (cb_head d) = Suc (unat (cb_head c)) mod cbuf_mod c"
    using assms(1) masked_unat(1) [of "cb_mask c" "cb_tail c" "cb_head c"]
    by (simp add: d cbuf_inv_def cbuf_mod_def)
  have "cb_head d \<le> cb_mask c"
    unfolding word_le_nat_alt hu using inv(4) by (simp add: less_Suc_eq_le [symmetric])
  then have di: "cbuf_inv d" using assms(1) by (simp add: d cbuf_inv_def)
  have cd: "cb_data d = cb_data c" "cb_tail d = cb_tail c" "cbuf_mod d = cbuf_mod c"
    by (simp_all add: d cbuf_mod_def)
  let ?n = "ring_dist (cbuf_mod c) (unat (cb_head d)) (unat (cb_tail c))"
  have len: "ring_dist (cbuf_mod c) (unat (cb_head c)) (unat (cb_tail c)) = Suc ?n"
    using ring_dist_get [OF inv(1,2)] ne by (simp add: hu word_unat_eq_iff)
  have "cbuf_contents c = map (\<lambda>i. cb_data c ! ((unat (cb_head c) + i) mod cbuf_mod c)) [0..<Suc ?n]"
    by (simp add: cbuf_contents_def len)
  also have "\<dots> = cb_data c ! unat (cb_head c) #
      map (\<lambda>i. cb_data c ! ((unat (cb_head c) + Suc i) mod cbuf_mod c)) [0..<?n]"
    using inv(1) by (simp add: upt_conv_Cons map_Suc_upt [symmetric] del: upt_Suc)
  also have "(\<lambda>i. cb_data c ! ((unat (cb_head c) + Suc i) mod cbuf_mod c)) =
      (\<lambda>i. cb_data d ! ((unat (cb_head d) + i) mod cbuf_mod d))"
    by (simp add: hu cd mod_add_left_eq)
  finally show ?thesis using di by (simp add: cbuf_contents_def cd)
qed

lemma cbuf_write_gap:
  assumes "cbuf_inv c"
  shows "cbuf_inv (c\<lparr>cb_data := (cb_data c)[unat (cb_tail c) := x]\<rparr>) \<and>
    cbuf_contents (c\<lparr>cb_data := (cb_data c)[unat (cb_tail c) := x]\<rparr>) = cbuf_contents c"
  using assms ring_index_neq [OF cbuf_invD(1,2) [OF assms], THEN not_sym]
  by (auto simp: cbuf_inv_def cbuf_contents_def cbuf_mod_def)

lemma cbuf_full_iff:
  assumes "cbuf_inv c"
  shows "masked (uint (cb_tail c) + 1) (cb_mask c) = cb_head c \<longleftrightarrow>
    length (cbuf_contents c) = unat (cb_mask c)"
  using assms ring_dist_full [OF cbuf_invD(1,2) [OF assms]] inv_masked(1) [of c]
  by (simp add: cbuf_inv_def word_unat_eq_iff length_contents cbuf_mod_def)

lemma cbuf_empty_iff: "cbuf_inv c \<Longrightarrow> cb_head c = cb_tail c \<longleftrightarrow> cbuf_contents c = []"
  using ring_dist_0 [OF cbuf_invD(1,2)]
  by (simp add: length_0_conv [symmetric] length_contents word_unat_eq_iff del: length_0_conv)

lemma cbuf_length_le: "cbuf_inv c \<Longrightarrow> length (cbuf_contents c) \<le> unat (cb_mask c)"
  using ring_dist_lt [OF cbuf_invD(1,2)] by (force simp: length_contents cbuf_mod_def)

section \<open>The buffer is a bounded queue\<close>

definition cbuf_put1 :: "xbee_cbuf_t \<Rightarrow> u8 \<Rightarrow> bool \<times> xbee_cbuf_t" where
  "cbuf_put1 c x = map_prod (\<lambda>r. r \<noteq> 0) id (xbee_cbuf_putch c x)"

definition cbuf_get1 :: "xbee_cbuf_t \<Rightarrow> u8 option \<times> xbee_cbuf_t" where
  "cbuf_get1 c = map_prod (\<lambda>r. if r < 0 then None else Some (of_int r)) id (xbee_cbuf_getch c)"

lemma putch_cases:
  assumes "cbuf_inv c"
  shows "length (cbuf_contents c) < unat (cb_mask c) \<Longrightarrow>
      fst (xbee_cbuf_putch c x) = 1 \<and> cbuf_contents (snd (xbee_cbuf_putch c x)) = cbuf_contents c @ [x]"
    and "length (cbuf_contents c) = unat (cb_mask c) \<Longrightarrow>
      fst (xbee_cbuf_putch c x) = 0 \<and> cbuf_contents (snd (xbee_cbuf_putch c x)) = cbuf_contents c"
    and "cbuf_inv (snd (xbee_cbuf_putch c x)) \<and> cb_mask (snd (xbee_cbuf_putch c x)) = cb_mask c"
  using cbuf_full_iff [OF assms] cbuf_write_gap [OF assms, of x]
    cbuf_step_tail [OF assms refl _ refl, of x]
  by (auto simp: xbee_cbuf_putch_def Let_def)

lemma getch_cases:
  assumes "cbuf_inv c"
  shows "cbuf_contents c = [] \<Longrightarrow> xbee_cbuf_getch c = (-1, c)"
    and "cbuf_contents c = b # bs \<Longrightarrow>
      fst (xbee_cbuf_getch c) = uint b \<and> cbuf_contents (snd (xbee_cbuf_getch c)) = bs"
    and "cbuf_inv (snd (xbee_cbuf_getch c)) \<and> cb_mask (snd (xbee_cbuf_getch c)) = cb_mask c"
  using cbuf_empty_iff [OF assms] cbuf_step_head [OF assms _ refl] assms
  by (auto simp: xbee_cbuf_getch_def Let_def)

interpretation cbuf: bounded_fifo cbuf_inv cbuf_contents "\<lambda>c. unat (cb_mask c)" cbuf_put1 cbuf_get1
proof (unfold_locales, goal_cases)
  case (1 q)
  then show ?case by (rule cbuf_length_le)
next
  case (2 q x)
  then show ?case using putch_cases(3) [of q x] by (simp add: cbuf_put1_def)
next
  case (3 q x)
  then show ?case using putch_cases(1) [of q x] by (simp add: cbuf_put1_def)
next
  case (4 q x)
  then show ?case using putch_cases(2) [of q x] by (simp add: cbuf_put1_def)
next
  case (5 q)
  then show ?case using getch_cases(3) [of q] by (simp add: cbuf_get1_def)
next
  case (6 q)
  then show ?case using getch_cases(1) [of q] by (simp add: cbuf_get1_def)
next
  case (7 q x xs)
  then show ?case using getch_cases(2) [of q x xs] by (simp add: cbuf_get1_def)
qed

text \<open>A history of \<open>putch\<close> and \<open>getch\<close> calls: bytes accepted, bytes delivered.\<close>

fun cbuf_run :: "xbee_cbuf_t \<Rightarrow> u8 option list \<Rightarrow> bytes \<times> bytes \<times> xbee_cbuf_t" where
  "cbuf_run c [] = ([], [], c)"
| "cbuf_run c (Some x # ops) =
     (let (r, c) = xbee_cbuf_putch c x; (ins, outs, c) = cbuf_run c ops
      in (if r = 1 then x # ins else ins, outs, c))"
| "cbuf_run c (None # ops) =
     (let (r, c) = xbee_cbuf_getch c; (ins, outs, c) = cbuf_run c ops
      in (ins, if r = -1 then outs else of_int r # outs, c))"

lemma cbuf_run_eq: "cbuf_run c ops = cbuf.run c ops"
proof (induction c ops rule: cbuf_run.induct)
  case (2 c x ops)
  obtain r d where p: "xbee_cbuf_putch c x = (r, d)" by fastforce
  then have "cbuf_put1 c x = (r = 1, d)"
    by (auto simp: cbuf_put1_def xbee_cbuf_putch_def Let_def split: if_splits)
  with 2 p show ?case by simp
next
  case (3 c ops)
  obtain r d where p: "xbee_cbuf_getch c = (r, d)" by fastforce
  then have "cbuf_get1 c = (if r = -1 then None else Some (of_int r), d)"
    by (auto simp: cbuf_get1_def xbee_cbuf_getch_def Let_def split: if_splits)
  with 3 p show ?case by simp
qed simp

text \<open>
  C25: the circular buffer refines a bounded first-in first-out queue. Whatever calls of
  \<open>xbee_cbuf_putch\<close> and \<open>xbee_cbuf_getch\<close> are made on a well-formed buffer, the bytes accepted, the bytes
  delivered and the bytes still in it are those of the abstract queue of capacity \<open>mask\<close>: a byte is refused
  only when \<open>mask\<close> bytes are waiting, and a byte is delivered whenever one is waiting, the oldest one. So
  the bytes that were in the buffer followed by the bytes accepted are the bytes delivered followed by the
  bytes still in it. The buffer stays well-formed.
\<close>

theorem cbuf_fifo:
  assumes "cbuf_inv c" "cbuf_run c ops = (ins, outs, c')"
  shows "queue_run (unat (cb_mask c)) (cbuf_contents c) ops = (ins, outs, cbuf_contents c') \<and>
    cbuf_contents c @ ins = outs @ cbuf_contents c' \<and> cbuf_inv c' \<and> length (cbuf_contents c') \<le> unat (cb_mask c)"
  using cbuf.run_fifo [OF assms(1), of ops ins outs c'] cbuf.run_queue [OF assms(1), of ops ins outs c']
    assms(2) cbuf_length_le [of c'] by (simp add: cbuf_run_eq)

theorem cbuf_fifo_witness:
  "cbuf_inv \<lparr>cb_lock = 0, cb_head = 2, cb_tail = 3, cb_mask = 3, cb_data = [9, 9, 7, 9]\<rparr> \<and>
   (case cbuf_run \<lparr>cb_lock = 0, cb_head = 2, cb_tail = 3, cb_mask = 3, cb_data = [9, 9, 7, 9]\<rparr>
      [Some 1, Some 2, Some 3, None] of
      (ins, outs, c') \<Rightarrow> ins = [1, 2] \<and> outs = [7] \<and> [7] @ ins = outs @ cbuf_contents c')"
proof -
  let ?c = "\<lparr>cb_lock = 0, cb_head = 2, cb_tail = 3, cb_mask = 3, cb_data = [9, 9, 7, 9]\<rparr>"
  let ?c' = "\<lparr>cb_lock = 0, cb_head = 3, cb_tail = 1, cb_mask = 3, cb_data = [2, 3, 7, 1]\<rparr>"
  have inv: "cbuf_inv ?c" by (simp add: cbuf_inv_def mask_ok_def)
  have run: "cbuf_run ?c [Some 1, Some 2, Some 3, None] = ([1, 2], [7], ?c')" by code_simp
  have "cbuf_contents ?c = [7]" by code_simp
  with inv run cbuf_fifo [OF inv run] show ?thesis by simp
qed

section \<open>Initialisation, counters and block transfers\<close>

lemma mask_test:
  "filter (\<lambda>n :: int. n AND (n + 1) = 0) [0..255] = [0, 1, 3, 7, 15, 31, 63, 127, 255]"
  by (simp add: upto.simps)

lemma mask_ok_iff: "mask_ok m \<longleftrightarrow> unat m \<in> {3, 7, 15, 31, 63, 127, 255}"
  by (auto simp: mask_ok_def)

lemma init_test: "mask_ok d \<longleftrightarrow> \<not> (d < 3 \<or> uint d AND (uint d + 1) \<noteq> 0)"
proof -
  have u: "uint d = int (unat d)" "unat d < 256" by (simp_all add: uint_nat del: of_nat_unat)
  then have "int (unat d) \<le> 255" by linarith
  then have "uint d \<in> set [0..255]" unfolding u(1) by (simp del: of_nat_unat)
  then have "uint d AND (uint d + 1) = 0 \<longleftrightarrow>
      uint d \<in> set (filter (\<lambda>n :: int. n AND (n + 1) = 0) [0..255])" by simp
  also have "\<dots> \<longleftrightarrow> unat d \<in> {0, 1, 3, 7, 15, 31, 63, 127, 255}"
    unfolding mask_test u(1) by (simp del: of_nat_unat)
  finally show ?thesis unfolding mask_ok_iff by (auto simp: word_less_nat_alt)
qed

lemma put_stop_iff:
  assumes "cbuf_inv c"
  shows "cb_tail c = masked (uint (cb_head c) - 1) (cb_mask c) \<longleftrightarrow>
    length (cbuf_contents c) = unat (cb_mask c)"
proof -
  have "(unat (cb_head c) + unat (cb_mask c)) mod cbuf_mod c = unat (cb_tail c) \<longleftrightarrow>
      Suc (ring_dist (cbuf_mod c) (unat (cb_head c)) (unat (cb_tail c))) = cbuf_mod c"
    using cbuf_invD [OF assms] by (auto simp: add_mod_if ring_dist_if)
  with assms inv_masked(4) [of c] show ?thesis
    by (auto simp: cbuf_inv_def word_unat_eq_iff length_contents cbuf_mod_def)
qed

lemma put_loop_contents:
  assumes "cbuf_inv c" "stop = masked (uint (cb_head c) - 1) (cb_mask c)"
    "xbee_cbuf_put_loop c bs stop = (n, d)"
  shows "n = min (length bs) (unat (cb_mask c) - length (cbuf_contents c)) \<and>
    cbuf_contents d = cbuf_contents c @ take n bs \<and> cbuf_inv d"
  using assms
proof (induction c bs stop arbitrary: n d rule: xbee_cbuf_put_loop.induct)
  case (2 c b bs stop)
  show ?case
  proof (cases "cb_tail c = stop")
    case True
    with 2(2-4) put_stop_iff [of c] show ?thesis by simp
  next
    case False
    let ?c1 = "c\<lparr>cb_data := (cb_data c)[unat (cb_tail c) := b],
      cb_tail := masked (uint (cb_tail c) + 1) (cb_mask c)\<rparr>"
    have room: "length (cbuf_contents c) < unat (cb_mask c)"
      using False 2(2,3) put_stop_iff [of c] cbuf_length_le [of c] by simp
    then have c1: "cbuf_inv ?c1" "cbuf_contents ?c1 = cbuf_contents c @ [b]"
      using cbuf_step_tail [OF 2(2) refl _ refl, of b] cbuf_full_iff [OF 2(2)] by auto
    obtain n' where "xbee_cbuf_put_loop ?c1 bs stop = (n', d)" "n = Suc n'"
      using 2(4) False by (auto simp: Let_def split: prod.splits)
    with 2(1) [of ?c1 n' d] c1 2(3) False room show ?thesis by (auto simp: Let_def)
  qed
qed simp

lemma get_contents:
  "cbuf_inv c \<Longrightarrow> xbee_cbuf_get c n = (bs, d) \<Longrightarrow>
   bs = take n (cbuf_contents c) \<and> cbuf_contents d = drop n (cbuf_contents c) \<and> cbuf_inv d"
proof (induction c n arbitrary: bs d rule: xbee_cbuf_get.induct)
  case (2 c n)
  show ?case
  proof (cases "cb_head c = cb_tail c")
    case True
    with 2(2,3) cbuf_empty_iff [of c] show ?thesis by simp
  next
    case False
    let ?c1 = "c\<lparr>cb_head := masked (uint (cb_head c) + 1) (cb_mask c)\<rparr>"
    note step = cbuf_step_head [OF 2(2) False refl]
    obtain bs' where "xbee_cbuf_get ?c1 n = (bs', d)" "bs = cb_data c ! unat (cb_head c) # bs'"
      using 2(3) False by (auto simp: Let_def split: prod.splits)
    with 2(1) [of "cb_data c ! unat (cb_head c)" ?c1 bs' d] step False show ?thesis by simp
  qed
qed simp

text \<open>
  The block operations and counters of the circular buffer refine queue operations: on a
  well-formed buffer \<open>xbee_cbuf_put\<close> appends the longest prefix of the block that fits and
  returns its length, \<open>xbee_cbuf_get\<close> removes and returns the oldest bytes in order, and
  \<open>xbee_cbuf_used\<close> and \<open>xbee_cbuf_free\<close> count the bytes stored and the room left.
\<close>

theorem cbuf_block_refines:
  assumes "cbuf_inv c" "xbee_cbuf_put c bs = (n, d)" "xbee_cbuf_get c k = (out, e)"
  shows "n = min (length bs) (unat (cb_mask c) - length (cbuf_contents c)) \<and>
    cbuf_contents d = cbuf_contents c @ take n bs \<and> cbuf_inv d \<and>
    out = take k (cbuf_contents c) \<and> cbuf_contents e = drop k (cbuf_contents c) \<and> cbuf_inv e \<and>
    unat (xbee_cbuf_used c) = length (cbuf_contents c) \<and>
    unat (xbee_cbuf_free c) = unat (cb_mask c) - length (cbuf_contents c)"
  using put_loop_contents [OF assms(1) refl] get_contents [OF assms(1,3)] assms(1,2)
    inv_masked(2,3) [of c]
  by (simp add: xbee_cbuf_put_def xbee_cbuf_used_def xbee_cbuf_free_def length_contents
      cbuf_inv_def cbuf_mod_def)

theorem cbuf_block_refines_witness:
  "case (xbee_cbuf_put \<lparr>cb_lock = 0, cb_head = 2, cb_tail = 3, cb_mask = 3, cb_data = [9, 9, 7, 9]\<rparr> [4, 5, 6],
         xbee_cbuf_get \<lparr>cb_lock = 0, cb_head = 2, cb_tail = 3, cb_mask = 3, cb_data = [9, 9, 7, 9]\<rparr> 2) of
     ((n, d), (out, e)) \<Rightarrow> n = 2 \<and> cbuf_contents d = [7, 4, 5] \<and> out = [7] \<and> cbuf_contents e = []"
proof -
  let ?c = "\<lparr>cb_lock = 0, cb_head = 2, cb_tail = 3, cb_mask = 3, cb_data = [9, 9, 7, 9]\<rparr>"
  have inv: "cbuf_inv ?c" by (simp add: cbuf_inv_def mask_ok_iff)
  have c: "cbuf_contents ?c = [7]" by code_simp
  obtain n d out e where r: "xbee_cbuf_put ?c [4, 5, 6] = (n, d)" "xbee_cbuf_get ?c 2 = (out, e)"
    by (meson surj_pair)
  show ?thesis using cbuf_block_refines [OF inv r] c r by simp
qed

text \<open>
  \<open>xbee_cbuf_init\<close> accepts exactly the documented sizes, one less than a power of two
  between 4 and 256, and then leaves an empty well-formed buffer when enough memory follows the
  header; any other size gives \<open>-EINVAL\<close> and leaves the structure unchanged.
\<close>

theorem cbuf_init_correct:
  "xbee_cbuf_init (Some c) d =
     (if unat d \<in> {3, 7, 15, 31, 63, 127, 255}
      then (0, Some (c\<lparr>cb_mask := d, cb_lock := 0, cb_head := 0, cb_tail := 0\<rparr>))
      else (- EINVAL, Some c)) \<and>
   (unat d \<in> {3, 7, 15, 31, 63, 127, 255} \<and> unat d < length (cb_data c) \<longleftrightarrow>
    (\<exists>c'. xbee_cbuf_init (Some c) d = (0, Some c') \<and> cbuf_inv c' \<and> cbuf_contents c' = []))"
proof -
  let ?c = "c\<lparr>cb_mask := d, cb_lock := 0, cb_head := 0, cb_tail := 0\<rparr>"
  have init: "xbee_cbuf_init (Some c) d = (if mask_ok d then (0, Some ?c) else (- EINVAL, Some c))"
    by (simp add: xbee_cbuf_init_def init_test)
  have inv: "mask_ok d \<Longrightarrow> cbuf_inv ?c \<longleftrightarrow> unat d < length (cb_data c)"
    by (simp add: cbuf_inv_def)
  have "cbuf_contents ?c = []" by (simp add: cbuf_contents_def ring_dist_def cbuf_mod_def)
  with init inv show ?thesis unfolding mask_ok_iff [symmetric] by auto
qed

end
