(* ===== verification/Xbee_Time.thy ===== *)
theory Xbee_Time
  imports Prelude "HOL-Library.Signed_Division" "HOL-Library.Monad_Syntax"
begin

text \<open>
  \<open>src/Software/lib/XBee/src/xbee/xbee_time.c\<close>: conversion between seconds since
  1/1/2000 UTC (a \<open>uint32_t\<close>) and broken-down time. The fields of \<open>struct tm\<close> are
  C \<open>int\<close>s and are kept as integers, with a check at every sum that can leave the type; every narrower variable of the source
  (\<open>uint16_t days\<close>, \<open>uint_fast8_t years\<close>, \dots) is a word of its width. The results
  are compared with the Gregorian calendar.
\<close>

section \<open>Tables and broken-down time\<close>

record tm =
  tm_sec :: int
  tm_min :: int
  tm_hour :: int
  tm_mday :: int
  tm_mon :: int
  tm_year :: int
  tm_wday :: int
  tm_yday :: int
  tm_isdst :: int

definition xbee_time_jom :: "bool \<Rightarrow> nat list" where
  "xbee_time_jom is_leap =
     (if \<not> is_leap then [0, 31, 59, 90, 120, 151, 181, 212, 243, 273, 304, 334]
      else [0, 31, 60, 91, 121, 152, 182, 213, 244, 274, 305, 335])"

definition xbee_time_dom :: "bool \<Rightarrow> nat list" where
  "xbee_time_dom is_leap =
     (if \<not> is_leap then [31, 28, 31, 30, 31, 30, 31, 31, 30, 31, 30, 31]
      else [31, 29, 31, 30, 31, 30, 31, 31, 30, 31, 30, 31])"

abbreviation XBEE_UTCTIME_INVALID :: u32 where "XBEE_UTCTIME_INVALID \<equiv> 0xFFFFFFFF"

text \<open>Leap years are divisible by 4, except for 2100; \<open>tm_year\<close> counts from 1900.\<close>

definition tm_is_leap :: "int \<Rightarrow> bool" where
  "tm_is_leap year \<longleftrightarrow> year AND 0x03 = 0 \<and> year \<noteq> 2100 - 1900"

section \<open>xbee\_gmtime\<close>

text \<open>The \<open>for (;;)\<close> loop over years; \<open>days\<close> only decreases, so it stays in 16 bits.\<close>

function gmtime_years :: "int \<Rightarrow> nat \<Rightarrow> int \<times> nat" where
  "gmtime_years year days =
     (let diy = 365 + of_bool (tm_is_leap year) in
      if days < diy then (year, days) else gmtime_years (year + 1) (days - diy))"
  by pat_completeness auto
termination
  by (relation "measure snd") auto

declare gmtime_years.simps [simp del]

text \<open>The \<open>while\<close> loop over months, on the rest of the table row from \<open>tm_mon\<close> on.\<close>

fun gmtime_months :: "nat list \<Rightarrow> nat \<Rightarrow> nat \<Rightarrow> nat \<times> nat" where
  "gmtime_months [] mon days = (mon, days)"
| "gmtime_months (d # ds) mon days =
     (if days \<ge> d then gmtime_months ds (mon + 1) (days - d) else (mon, days))"

definition xbee_gmtime :: "u32 \<Rightarrow> tm" where
  "xbee_gmtime timestamp =
     (let seconds = timestamp mod 86400;
          days = (ucast (timestamp div 86400) :: u16);
          lquot = uint seconds div 60; lrem = uint seconds mod 60;
          iquot = lquot div 60; irem = lquot mod 60;
          wday = (uint days + 6) mod 7;
          (year, d) = gmtime_years 100 (unat days);
          (mon, r) = gmtime_months (xbee_time_dom (tm_is_leap year)) 0 d
      in \<lparr>tm_sec = lrem, tm_min = irem, tm_hour = iquot, tm_mday = int r + 1, tm_mon = int mon,
          tm_year = year, tm_wday = wday, tm_yday = int d, tm_isdst = 0\<rparr>)"

section \<open>xbee\_mktime\<close>

text \<open>The sum of two \<open>int\<close>s; an overflow is undefined.\<close>

definition fits_int :: "int \<Rightarrow> bool" where
  "fits_int x \<longleftrightarrow> - (2 ^ 31) \<le> x \<and> x < 2 ^ 31"

definition c_int :: "int \<Rightarrow> int option" where
  "c_int x = (if fits_int x then Some x else None)"

text \<open>
  \<open>div\<close> of the C library truncates towards zero; the result is \<open>(major, minor)\<close>. The quotient
  and the remainder of \<open>int\<close>s by 12, 24 or 60 cannot overflow, the sum with \<open>major\<close> can.
\<close>

definition xbee_mktime_normalize :: "int \<Rightarrow> int \<Rightarrow> int \<Rightarrow> (int \<times> int) option" where
  "xbee_mktime_normalize major minor count =
     (let quot = minor sdiv count; rem = minor smod count;
          (rem, quot) = (if rem < 0 then (rem + count, quot - 1) else (rem, quot))
      in do { major \<leftarrow> c_int (major + quot); Some (major, rem) })"

text \<open>
  The two loops that bring \<open>tm_mday\<close> into its month. The state is
  \<open>(year, mon, mday, is_leap)\<close>. The month read from the table is always in \<open>0..11\<close>
  here, since \<open>tm_mon\<close> was normalised; the range test makes that explicit. The year only decreases
  in the first and only increases in the second, so it leaves the type if its last value does; the day
  moves towards its month and stays in the type.
\<close>

function mktime_back :: "int \<Rightarrow> int \<Rightarrow> int \<Rightarrow> bool \<Rightarrow> int \<times> int \<times> int \<times> bool" where
  "mktime_back year mon mday is_leap =
     (if mday < 1 \<and> 0 \<le> mon \<and> mon \<le> 11 then
        let (year, mon, is_leap) =
              (if mon = 0 then (year - 1, 11, tm_is_leap (year - 1)) else (year, mon - 1, is_leap))
        in mktime_back year mon (mday + int (xbee_time_dom is_leap ! nat mon)) is_leap
      else (year, mon, mday, is_leap))"
  by pat_completeness auto

lemma xbee_time_dom_ge:
  assumes "0 \<le> m" "m \<le> 11"
  shows "28 \<le> xbee_time_dom l ! nat m \<and> xbee_time_dom l ! nat m \<le> 31"
proof -
  have "list_all (\<lambda>d. 28 \<le> d \<and> d \<le> 31) (xbee_time_dom l)" "length (xbee_time_dom l) = 12"
    by (simp_all add: xbee_time_dom_def)
  then show ?thesis using assms by (simp add: list_all_length nat_less_iff)
qed

termination mktime_back
proof (relation "measure (\<lambda>(_, _, mday, _). nat (1 - mday))", goal_cases)
  case (2 year mon mday is_leap p y q m l)
  then have "0 \<le> m" "m \<le> 11" by (auto split: if_splits)
  then have "28 \<le> xbee_time_dom l ! nat m" using xbee_time_dom_ge by blast
  with 2 show ?case by auto
qed simp

function mktime_forth :: "int \<Rightarrow> int \<Rightarrow> int \<Rightarrow> bool \<Rightarrow> int \<times> int \<times> int \<times> bool" where
  "mktime_forth year mon mday is_leap =
     (let daysinmonth = int (xbee_time_dom is_leap ! nat mon) in
      if 0 \<le> mon \<and> mon \<le> 11 \<and> mday > daysinmonth then
        let (year, mon, is_leap) =
              (if mon = 11 then (year + 1, 0, tm_is_leap (year + 1)) else (year, mon + 1, is_leap))
        in mktime_forth year mon (mday - daysinmonth) is_leap
      else (year, mon, mday, is_leap))"
  by pat_completeness auto
termination
proof (relation "measure (\<lambda>(_, _, mday, _). nat mday)", goal_cases)
  case (2 year mon mday is_leap d p y q m l)
  then have "28 \<le> xbee_time_dom is_leap ! nat mon" using xbee_time_dom_ge by blast
  with 2 show ?case by auto
qed simp

declare mktime_back.simps [simp del] mktime_forth.simps [simp del]

text \<open>
  The result is the timestamp and the structure copied back to the caller; the early return
  for years before 2000 leaves the caller's structure unchanged.
\<close>

definition xbee_mktime :: "tm \<Rightarrow> (u32 \<times> tm) option" where
  "xbee_mktime time_rec = do {
     let t = time_rec;
     (mi, s) \<leftarrow> xbee_mktime_normalize (tm_min t) (tm_sec t) 60;
     (h, mi) \<leftarrow> xbee_mktime_normalize (tm_hour t) mi 60;
     (md, h) \<leftarrow> xbee_mktime_normalize (tm_mday t) h 24;
     (y, mo) \<leftarrow> xbee_mktime_normalize (tm_year t) (tm_mon t) 12;
     let (y, mo, md, leap) = mktime_back y mo md (tm_is_leap y);
     y \<leftarrow> c_int y;
     let (y, mo, md, leap) = mktime_forth y mo md leap;
     y \<leftarrow> c_int y;
     Some (
       if y < 100 then (XBEE_UTCTIME_INVALID, time_rec)
       else
         let years = (of_int (y - 100) :: u8);
             yday = (of_int (int (xbee_time_jom leap ! nat mo) + md - 1) :: u16);
             pastleapdays = drop_bit 2 years + (if years AND 0x03 \<noteq> 0 then 1 else 0);
             pastleapdays = (if years > 100 then pastleapdays - 1 else pastleapdays);
             days = (of_int (uint years * 365 + uint pastleapdays + uint yday) :: u16)
         in (of_int (uint days * 86400 + h * 3600 + mi * 60 + s),
             time_rec\<lparr>tm_sec := s, tm_min := mi, tm_hour := h, tm_mday := md, tm_mon := mo,
                      tm_year := y, tm_yday := uint yday, tm_wday := (uint days + 6) mod 7\<rparr>)) }"

section \<open>The Gregorian calendar\<close>

definition greg_leap :: "int \<Rightarrow> bool" where
  "greg_leap Y \<longleftrightarrow> 4 dvd Y \<and> (\<not> 100 dvd Y \<or> 400 dvd Y)"

definition month_length :: "int \<Rightarrow> int \<Rightarrow> int" where
  "month_length Y M = (if M = 2 then (if greg_leap Y then 29 else 28)
                       else if M \<in> {4, 6, 9, 11} then 30 else 31)"

definition days_before_month :: "int \<Rightarrow> int \<Rightarrow> int" where
  "days_before_month Y M = (\<Sum>k \<in> {1..<M}. month_length Y k)"

text \<open>Days from 1 January 2000 to 1 January of year \<open>Y\<close>.\<close>

definition days_before_year :: "int \<Rightarrow> int" where
  "days_before_year Y =
     365 * (Y - 2000) + ((Y - 1) div 4 - (Y - 1) div 100 + (Y - 1) div 400 - 484)"

definition civil_days :: "int \<Rightarrow> int \<Rightarrow> int \<Rightarrow> int" where
  "civil_days Y M D = days_before_year Y + days_before_month Y M + D - 1"

lemma div_pred_step:
  fixes k Y :: int
  assumes "0 < k"
  shows "Y div k = (Y - 1) div k + of_bool (k dvd Y)"
proof (cases "k dvd Y")
  case True
  then have "(Y - 1) div k = Y div k - 1"
    using assms by (intro int_div_pos_eq[of _ _ _ "k - 1"]) (auto simp: algebra_simps)
  with True show ?thesis by simp
next
  case False
  then have "0 < Y mod k" using assms by (simp add: dvd_eq_mod_eq_0 order_less_le)
  moreover have "Y mod k < k" using assms by simp
  ultimately have "(Y - 1) div k = Y div k"
    using mult_div_mod_eq[of k Y] by (intro int_div_pos_eq[of _ _ _ "Y mod k - 1"]) linarith+
  with False show ?thesis by simp
qed

lemma of_bool_greg_leap:
  "of_bool (greg_leap Y) = (of_bool (4 dvd Y) - of_bool (100 dvd Y) + of_bool (400 dvd Y) :: int)"
proof -
  have bool: "of_bool (a \<and> (\<not> b \<or> c)) = of_bool a - of_bool b + (of_bool c :: int)"
    if "c \<longrightarrow> b" "b \<longrightarrow> a" for a b c
    using that by (cases a; cases b; cases c; simp)
  have "(100::int) dvd 400" "(4::int) dvd 100" by simp_all
  then have "400 dvd Y \<longrightarrow> 100 dvd Y" "100 dvd Y \<longrightarrow> 4 dvd Y"
    using dvd_trans by blast+
  from bool[OF this] show ?thesis unfolding greg_leap_def .
qed

lemma days_before_year_step:
  "days_before_year (Y + 1) = days_before_year Y + 365 + of_bool (greg_leap Y)"
proof -
  have "days_before_year (Y + 1) = 365 * (Y + 1 - 2000) +
      ((Y - 1) div 4 + of_bool (4 dvd Y) - ((Y - 1) div 100 + of_bool (100 dvd Y))
       + ((Y - 1) div 400 + of_bool (400 dvd Y)) - 484)"
    unfolding days_before_year_def add_diff_cancel_right'
      div_pred_step[of 4 Y, OF zero_less_numeral] div_pred_step[of 100 Y, OF zero_less_numeral]
      div_pred_step[of 400 Y, OF zero_less_numeral] ..
  then show ?thesis unfolding of_bool_greg_leap days_before_year_def by (simp only: algebra_simps)
qed

lemma days_before_month_table:
  assumes "0 \<le> m" "m \<le> 11"
  shows "days_before_month Y (m + 1) = int (xbee_time_jom (greg_leap Y) ! nat m)"
    and "month_length Y (m + 1) = int (xbee_time_dom (greg_leap Y) ! nat m)"
proof -
  have u: "{1..<n + 1} = insert n {1..<n}" if "1 \<le> n" for n :: int using that by auto
  have s: "days_before_month Y (n + 1) = days_before_month Y n + month_length Y n" if "1 \<le> n" for n
    unfolding days_before_month_def u[OF that] by simp
  have 1: "days_before_month Y 1 = 0" by (simp add: days_before_month_def)
  have 2: "days_before_month Y 2 = 31" using s[of 1] 1 by (simp add: month_length_def)
  have 3: "days_before_month Y 3 = 59 + of_bool (greg_leap Y)" using s[of 2] 2 by (simp add: month_length_def)
  have 4: "days_before_month Y 4 = 90 + of_bool (greg_leap Y)" using s[of 3] 3 by (simp add: month_length_def)
  have 5: "days_before_month Y 5 = 120 + of_bool (greg_leap Y)" using s[of 4] 4 by (simp add: month_length_def)
  have 6: "days_before_month Y 6 = 151 + of_bool (greg_leap Y)" using s[of 5] 5 by (simp add: month_length_def)
  have 7: "days_before_month Y 7 = 181 + of_bool (greg_leap Y)" using s[of 6] 6 by (simp add: month_length_def)
  have 8: "days_before_month Y 8 = 212 + of_bool (greg_leap Y)" using s[of 7] 7 by (simp add: month_length_def)
  have 9: "days_before_month Y 9 = 243 + of_bool (greg_leap Y)" using s[of 8] 8 by (simp add: month_length_def)
  have 10: "days_before_month Y 10 = 273 + of_bool (greg_leap Y)" using s[of 9] 9 by (simp add: month_length_def)
  have 11: "days_before_month Y 11 = 304 + of_bool (greg_leap Y)" using s[of 10] 10 by (simp add: month_length_def)
  have 12: "days_before_month Y 12 = 334 + of_bool (greg_leap Y)" using s[of 11] 11 by (simp add: month_length_def)
  have "m \<in> {0, 1, 2, 3, 4, 5, 6, 7, 8, 9, 10, 11}"
  proof -
    have "m \<in> set [0..11]" using assms by simp
    then show ?thesis by (simp add: upto.simps)
  qed
  then show "days_before_month Y (m + 1) = int (xbee_time_jom (greg_leap Y) ! nat m)"
    "month_length Y (m + 1) = int (xbee_time_dom (greg_leap Y) ! nat m)"
    by (elim insertE emptyE;
        simp add: 1 2 3 4 5 6 7 8 9 10 11 12 xbee_time_jom_def xbee_time_dom_def month_length_def)+
qed

text \<open>
  The rule of the code (every fourth year except 2100) is the Gregorian rule from 1901 to 2199.
\<close>

lemma and_3_mod: "y AND 3 = y mod 4" for y :: int
  using take_bit_eq_mask[of 2 y] take_bit_eq_mod[of 2 y] by (simp add: mask_eq_exp_minus_1)

lemma tm_is_leap_gregorian:
  assumes "1 \<le> y" "y \<le> 299"
  shows "tm_is_leap y = greg_leap (y + 1900)"
proof -
  have 4: "4 dvd y + 1900 \<longleftrightarrow> y mod 4 = 0" by presburger
  have 100: "y = 100 \<or> y = 200" if dvd: "100 dvd y + 1900"
  proof -
    from dvd obtain k where k: "y + 1900 = 100 * k" by (elim dvdE)
    with assms have "19 < k" "k < 22" by linarith+
    then have "k = 20 \<or> k = 21" by linarith
    with k show ?thesis by linarith
  qed
  show ?thesis
  proof (cases "y = 100 \<or> y = 200")
    case True
    then show ?thesis by (auto simp: tm_is_leap_def greg_leap_def)
  next
    case False
    with 100 have "\<not> 100 dvd y + 1900" by blast
    with False show ?thesis unfolding tm_is_leap_def greg_leap_def 4 and_3_mod by simp
  qed
qed

section \<open>Day numbers of the code's calendar\<close>

text \<open>Days from 1 January 2000 to the first of a month, by the rule of the code.\<close>

definition tm_year_start :: "int \<Rightarrow> int" where
  "tm_year_start y = 365 * (y - 100) + (y + 3) div 4 - 25 - of_bool (y > 200)"

definition tm_month_start :: "int \<Rightarrow> int \<Rightarrow> int" where
  "tm_month_start y m = tm_year_start y + int (xbee_time_jom (tm_is_leap y) ! nat m)"

lemma tm_year_start_step:
  "tm_year_start (y + 1) = tm_year_start y + 365 + of_bool (tm_is_leap y)"
proof -
  have 1: "(y + 1 + 3) div 4 = (y + 3) div 4 + of_bool (y mod 4 = 0)"
    using div_pred_step[of 4 "y + 4"] by (simp add: dvd_eq_mod_eq_0 add.commute)
  have 2: "of_bool (tm_is_leap y) = (of_bool (y mod 4 = 0) - of_bool (y = 200) :: int)"
    by (auto simp: tm_is_leap_def and_3_mod)
  have 3: "of_bool (y + 1 > 200) = (of_bool (y > 200) + of_bool (y = 200) :: int)" by auto
  show ?thesis unfolding tm_year_start_def 1 2 3 by (simp add: algebra_simps)
qed

lemma tm_year_start_gregorian:
  assumes "1 \<le> y" "y \<le> 299"
  shows "tm_year_start y = days_before_year (y + 1900)"
proof -
  have up: "tm_year_start (1 + int n) = days_before_year (1901 + int n)" if "n \<le> 298" for n
    using that
  proof (induction n)
    case 0 show ?case by (simp add: tm_year_start_def days_before_year_def)
  next
    case (Suc n)
    then show ?case
      using tm_year_start_step[of "1 + int n"] days_before_year_step[of "1901 + int n"]
        tm_is_leap_gregorian[of "1 + int n"] by (simp add: add.commute add.left_commute)
  qed
  from up[of "nat (y - 1)"] assms show ?thesis by (simp add: add.commute)
qed

lemma tm_month_start_gregorian:
  assumes "1 \<le> y" "y \<le> 299" "0 \<le> m" "m \<le> 11"
  shows "tm_month_start y m + d - 1 = civil_days (y + 1900) (m + 1) d"
  using assms
  by (simp add: tm_month_start_def civil_days_def tm_year_start_gregorian tm_is_leap_gregorian
      days_before_month_table)

section \<open>The loops\<close>

lemma gmtime_years_day:
  assumes "0 \<le> d" "d < 365 + of_bool (tm_is_leap y)" "y0 \<le> y"
  shows "gmtime_years y0 (nat (tm_year_start y - tm_year_start y0 + d)) = (y, nat d)"
  using assms
proof (induction "nat (y - y0)" arbitrary: y0)
  case 0
  then have "y0 = y" by simp
  with 0 show ?case by (subst gmtime_years.simps) (auto simp: Let_def nat_less_iff split: if_splits)
next
  case (Suc n)
  let ?diy = "365 + of_bool (tm_is_leap y0) :: int"
  have mono: "tm_year_start a \<le> tm_year_start b" if "a \<le> b" for a b
    using that
    by (induction b rule: int_ge_induct) (auto simp: tm_year_start_step)
  from Suc have le: "y0 + 1 \<le> y" by linarith
  let ?D = "tm_year_start y - tm_year_start y0 + d"
  have D: "?diy \<le> ?D" and eq: "?D - ?diy = tm_year_start y - tm_year_start (y0 + 1) + d"
    using mono[OF le] tm_year_start_step[of y0] Suc.prems(1) by linarith+
  then have "\<not> nat ?D < 365 + of_bool (tm_is_leap y0)" "nat ?D - (365 + of_bool (tm_is_leap y0)) = nat (?D - ?diy)"
    by (auto simp: of_bool_def split: if_splits)
  then have "gmtime_years y0 (nat ?D) = gmtime_years (y0 + 1) (nat (?D - ?diy))"
    by (subst gmtime_years.simps) (simp add: Let_def)
  also have "\<dots> = (y, nat d)"
    unfolding eq using Suc.hyps(2) Suc.prems le by (intro Suc.hyps(1)) linarith+
  finally show ?case .
qed

lemma gmtime_years_total:
  assumes "gmtime_years y0 n = (y, d)"
  shows "y0 \<le> y" and "d < 365 + of_bool (tm_is_leap y)"
    and "tm_year_start y + int d = tm_year_start y0 + int n"
  using assms
proof (induction y0 n rule: gmtime_years.induct)
  case (1 year days)
  { case 1
    with "1.IH" show ?case
      by (subst (asm) gmtime_years.simps) (fastforce simp: Let_def split: if_splits)
  next
    case 2
    with "1.IH" show ?case
      by (subst (asm) gmtime_years.simps) (fastforce simp: Let_def split: if_splits)
  next
    case 3
    with "1.IH"(3) tm_year_start_step[of year] show ?case
      by (subst (asm) gmtime_years.simps) (force simp: Let_def of_nat_diff split: if_splits)
  }
qed

lemma gmtime_months_row:
  assumes "0 \<le> m" "m \<le> 11" "d < xbee_time_dom l ! nat m"
  shows "gmtime_months (xbee_time_dom l) 0 (xbee_time_jom l ! nat m + d) = (nat m, d)"
proof -
  have "m \<in> set [0..11]" using assms by simp
  then have "m \<in> {0, 1, 2, 3, 4, 5, 6, 7, 8, 9, 10, 11}" by (simp add: upto.simps)
  then show ?thesis
    using assms(3) by (elim insertE emptyE; cases l; simp add: xbee_time_jom_def xbee_time_dom_def)
qed

lemma xbee_time_jom_Suc:
  assumes "m < 11"
  shows "xbee_time_jom l ! Suc m = xbee_time_jom l ! m + xbee_time_dom l ! m"
proof -
  have "list_all (\<lambda>m. xbee_time_jom l ! Suc m = xbee_time_jom l ! m + xbee_time_dom l ! m) [0..<11]"
    by (simp add: xbee_time_jom_def xbee_time_dom_def upt_rec)
  with assms show ?thesis by (simp add: list_all_iff)
qed

lemma month_of_yday:
  assumes "d < 365 + of_bool l"
  obtains m r where "0 \<le> m" "m \<le> 11" "r < xbee_time_dom l ! nat m"
    "d = xbee_time_jom l ! nat m + r"
proof -
  define P where "P m \<longleftrightarrow> m < 12 \<and> xbee_time_jom l ! m \<le> d" for m
  have "P 0" by (simp add: P_def xbee_time_jom_def)
  define m where "m = (GREATEST m. P m)"
  have Pm: "P m" unfolding m_def using \<open>P 0\<close> by (rule GreatestI_nat[where b = 12]) (simp add: P_def)
  have nP: "\<not> P (Suc m)"
    unfolding m_def using Greatest_le_nat[of P "Suc (GREATEST m. P m)" 12] by (fastforce simp: P_def)
  have "d < xbee_time_jom l ! m + xbee_time_dom l ! m"
  proof (cases "m = 11")
    case True
    with assms show ?thesis by (cases l) (simp_all add: xbee_time_jom_def xbee_time_dom_def)
  next
    case False
    with Pm nP xbee_time_jom_Suc[of m l] show ?thesis by (auto simp: P_def)
  qed
  with Pm show ?thesis by (intro that[of "int m" "d - xbee_time_jom l ! m"]) (auto simp: P_def)
qed

text \<open>The first of a month is the first of the month before plus its length.\<close>

lemma tm_month_start_next:
  assumes "0 \<le> m" "m < 11"
  shows "tm_month_start y (m + 1) = tm_month_start y m + int (xbee_time_dom (tm_is_leap y) ! nat m)"
  using assms xbee_time_jom_Suc[of "nat m" "tm_is_leap y"]
  by (simp add: tm_month_start_def nat_add_distrib)

lemma tm_month_start_next_year:
  "tm_month_start (y + 1) 0 = tm_month_start y 11 + int (xbee_time_dom (tm_is_leap y) ! nat 11)"
  by (simp add: tm_month_start_def tm_year_start_step xbee_time_jom_def xbee_time_dom_def)

lemma mktime_back_correct:
  assumes "0 \<le> mon" "mon \<le> 11" "leap = tm_is_leap y"
  shows "case mktime_back y mon md leap of (y', mon', md', leap') \<Rightarrow>
           leap' = tm_is_leap y' \<and> 0 \<le> mon' \<and> mon' \<le> 11 \<and> 1 \<le> md' \<and>
           tm_month_start y' mon' + md' = tm_month_start y mon + md"
  using assms
proof (induction y mon md leap rule: mktime_back.induct)
  case (1 y mon md leap)
  show ?case
  proof (cases "md < 1")
    case False
    with 1 show ?thesis by (subst mktime_back.simps) simp
  next
    case md: True
    show ?thesis
    proof (cases "mon = 0")
      case True
      from True 1 md tm_month_start_next_year[of "y - 1"] show ?thesis
        by (subst mktime_back.simps) (fastforce split: prod.splits)
    next
      case False
      from False 1 md tm_month_start_next[of "mon - 1" y] show ?thesis
        by (subst mktime_back.simps) (fastforce split: prod.splits)
    qed
  qed
qed

lemma mktime_forth_correct:
  assumes "0 \<le> mon" "mon \<le> 11" "leap = tm_is_leap y" "1 \<le> md"
  shows "case mktime_forth y mon md leap of (y', mon', md', leap') \<Rightarrow>
           leap' = tm_is_leap y' \<and> 0 \<le> mon' \<and> mon' \<le> 11 \<and> 1 \<le> md' \<and>
           md' \<le> int (xbee_time_dom leap' ! nat mon') \<and>
           tm_month_start y' mon' + md' = tm_month_start y mon + md"
  using assms
proof (induction y mon md leap rule: mktime_forth.induct)
  case (1 y mon md leap)
  show ?case
  proof (cases "md > int (xbee_time_dom leap ! nat mon)")
    case False
    with 1 show ?thesis by (subst mktime_forth.simps) simp
  next
    case md: True
    show ?thesis
    proof (cases "mon = 11")
      case True
      from True 1 md tm_month_start_next_year[of y] show ?thesis
        by (subst mktime_forth.simps) (fastforce split: prod.splits)
    next
      case False
      from False 1 md tm_month_start_next[of mon y] show ?thesis
        by (subst mktime_forth.simps) (fastforce split: prod.splits)
    qed
  qed
qed

lemma mktime_back_year:
  "case mktime_back y mon md leap of (y', _, _, _) \<Rightarrow> y + min 0 (md - 1) \<le> y' \<and> y' \<le> y"
proof (induction y mon md leap rule: mktime_back.induct)
  case (1 y mon md leap)
  show ?case
  proof (cases "md < 1 \<and> 0 \<le> mon \<and> mon \<le> 11")
    case False
    then show ?thesis by (subst mktime_back.simps) auto
  next
    case True
    let ?m = "if mon = 0 then 11 else mon - 1" and ?y = "if mon = 0 then y - 1 else y"
      and ?l = "if mon = 0 then tm_is_leap (y - 1) else leap"
    have d: "28 \<le> xbee_time_dom ?l ! nat ?m" using xbee_time_dom_ge[of ?m ?l] True by auto
    have step: "mktime_back y mon md leap = mktime_back ?y ?m (md + int (xbee_time_dom ?l ! nat ?m)) ?l"
      using True by (subst mktime_back.simps) simp
    have "case mktime_back ?y ?m (md + int (xbee_time_dom ?l ! nat ?m)) ?l of
        (y', _, _, _) \<Rightarrow> ?y + min 0 (md + int (xbee_time_dom ?l ! nat ?m) - 1) \<le> y' \<and> y' \<le> ?y"
      by (rule 1[of "(?y, ?m, ?l)" ?y "(?m, ?l)" ?m ?l]) (use True in simp_all)
    then show ?thesis unfolding step using d True by (auto split: if_splits)
  qed
qed

lemma mktime_back_day:
  assumes "0 \<le> mon" "mon \<le> 11"
  shows "case mktime_back y mon md leap of (_, _, md', _) \<Rightarrow> md' \<le> max 31 md"
  using assms
proof (induction y mon md leap rule: mktime_back.induct)
  case (1 y mon md leap)
  show ?case
  proof (cases "md < 1")
    case False
    then show ?thesis by (subst mktime_back.simps) auto
  next
    case True
    let ?m = "if mon = 0 then 11 else mon - 1" and ?y = "if mon = 0 then y - 1 else y"
      and ?l = "if mon = 0 then tm_is_leap (y - 1) else leap"
    have m: "0 \<le> ?m" "?m \<le> 11" using 1 by auto
    have step: "mktime_back y mon md leap = mktime_back ?y ?m (md + int (xbee_time_dom ?l ! nat ?m)) ?l"
      using True 1 by (subst mktime_back.simps) simp
    have "case mktime_back ?y ?m (md + int (xbee_time_dom ?l ! nat ?m)) ?l of
        (_, _, md', _) \<Rightarrow> md' \<le> max 31 (md + int (xbee_time_dom ?l ! nat ?m))"
      by (rule 1(1)[of "(?y, ?m, ?l)" ?y "(?m, ?l)" ?m ?l]) (use True 1 m in simp_all)
    then show ?thesis unfolding step using xbee_time_dom_ge[OF m, of ?l] True by (auto split: if_splits)
  qed
qed

lemma mktime_forth_year:
  "case mktime_forth y mon md leap of (y', _, _, _) \<Rightarrow> y \<le> y' \<and> 28 * (y' - y) \<le> max 0 md"
proof (induction y mon md leap rule: mktime_forth.induct)
  case (1 y mon md leap)
  let ?d = "int (xbee_time_dom leap ! nat mon)"
  show ?case
  proof (cases "0 \<le> mon \<and> mon \<le> 11 \<and> md > ?d")
    case False
    then show ?thesis by (subst mktime_forth.simps) (auto simp: Let_def)
  next
    case True
    let ?m = "if mon = 11 then 0 else mon + 1" and ?y = "if mon = 11 then y + 1 else y"
      and ?l = "if mon = 11 then tm_is_leap (y + 1) else leap"
    have d: "28 \<le> ?d" using xbee_time_dom_ge[of mon leap] True by auto
    have step: "mktime_forth y mon md leap = mktime_forth ?y ?m (md - ?d) ?l"
      using True by (subst mktime_forth.simps) (simp add: Let_def)
    have "case mktime_forth ?y ?m (md - ?d) ?l of (y', _, _, _) \<Rightarrow> ?y \<le> y' \<and> 28 * (y' - ?y) \<le> max 0 (md - ?d)"
      by (rule 1[of ?d "(?y, ?m, ?l)" ?y "(?m, ?l)" ?m ?l]) (use True in simp_all)
    then show ?thesis unfolding step using d True by (auto split: if_splits)
  qed
qed

lemma xbee_mktime_normalize_div_mod:
  assumes "0 < count"
  shows "xbee_mktime_normalize major minor count =
    (if fits_int (major + minor div count) then Some (major + minor div count, minor mod count) else None)"
proof -
  let ?q = "minor sdiv count" and ?r = "minor smod count"
  have eq: "minor = count * ?q + ?r" by (simp add: mult_sdiv_smod_eq)
  have r: "- count < ?r" "?r < count" using smod_int_range[of count minor] assms by auto
  show ?thesis
  proof (cases "?r < 0")
    case True
    then have "minor div count = ?q - 1" "minor mod count = ?r + count"
      using eq r by (intro int_div_pos_eq[of _ _ _ "?r + count"] int_mod_pos_eq[of _ _ "?q - 1"];
          simp add: algebra_simps)+
    with True show ?thesis by (simp add: xbee_mktime_normalize_def c_int_def Let_def)
  next
    case False
    then have "minor div count = ?q" "minor mod count = ?r"
      using eq r by (intro int_div_pos_eq[of _ _ _ ?r] int_mod_pos_eq[of _ _ ?q]; simp)+
    with False show ?thesis by (simp add: xbee_mktime_normalize_def c_int_def Let_def)
  qed
qed

section \<open>Conversion in both directions\<close>

lemma tm_year_start_mono: "a \<le> b \<Longrightarrow> tm_year_start a \<le> tm_year_start b"
  by (induction b rule: int_ge_induct) (auto simp: tm_year_start_step)

lemma tm_year_start_2000 [simp]: "tm_year_start 100 = 0"
  by (simp add: tm_year_start_def)

lemma tm_yday_less:
  assumes "0 \<le> m" "m \<le> 11" "md \<le> int (xbee_time_dom l ! nat m)"
  shows "int (xbee_time_jom l ! nat m) + md - 1 < 365 + of_bool l"
proof -
  have "m \<in> set [0..11]" using assms by simp
  then have "m \<in> {0, 1, 2, 3, 4, 5, 6, 7, 8, 9, 10, 11}" by (simp add: upto.simps)
  then show ?thesis
    using assms(3) by (elim insertE emptyE; cases l; simp add: xbee_time_jom_def xbee_time_dom_def)
qed

text \<open>The broken-down time of a day and a time of day, in normal form.\<close>

definition tm_of :: "int \<Rightarrow> int \<Rightarrow> int \<Rightarrow> int \<Rightarrow> int \<Rightarrow> int \<Rightarrow> tm" where
  "tm_of y m md h mi s =
     \<lparr>tm_sec = s, tm_min = mi, tm_hour = h, tm_mday = md, tm_mon = m, tm_year = y,
      tm_wday = (tm_month_start y m + md - 1 + 6) mod 7,
      tm_yday = int (xbee_time_jom (tm_is_leap y) ! nat m) + md - 1, tm_isdst = 0\<rparr>"

definition date_norm :: "int \<Rightarrow> int \<Rightarrow> int \<Rightarrow> bool" where
  "date_norm y m md \<longleftrightarrow>
     0 \<le> m \<and> m \<le> 11 \<and> 1 \<le> md \<and> md \<le> int (xbee_time_dom (tm_is_leap y) ! nat m)"

definition time_norm :: "int \<Rightarrow> int \<Rightarrow> int \<Rightarrow> bool" where
  "time_norm h mi s \<longleftrightarrow> h \<in> {0..<24} \<and> mi \<in> {0..<60} \<and> s \<in> {0..<60}"

lemma seconds_split:
  assumes "time_norm h mi s" "S = D * 86400 + h * 3600 + mi * 60 + s"
  shows "S div 86400 = D" and "S mod 86400 div 60 div 60 = h"
    and "S mod 86400 div 60 mod 60 = mi" and "S mod 86400 mod 60 = s"
proof -
  have r: "0 \<le> h * 3600 + mi * 60 + s" "h * 3600 + mi * 60 + s < 86400"
    using assms(1) by (auto simp: time_norm_def)
  show "S div 86400 = D" using r assms(2) by (intro int_div_pos_eq) auto
  have S: "S mod 86400 = h * 3600 + mi * 60 + s"
    using r assms(2) by (intro int_mod_pos_eq[of _ _ D]) auto
  have m: "S mod 86400 div 60 = h * 60 + mi"
    unfolding S using assms(1) by (intro int_div_pos_eq[of _ _ _ s]) (auto simp: time_norm_def)
  show "S mod 86400 mod 60 = s"
    unfolding S using assms(1) by (intro int_mod_pos_eq[of _ _ "h * 60 + mi"]) (auto simp: time_norm_def)
  show "S mod 86400 div 60 div 60 = h"
    unfolding m using assms(1) by (intro int_div_pos_eq[of _ _ _ mi]) (auto simp: time_norm_def)
  show "S mod 86400 div 60 mod 60 = mi"
    unfolding m using assms(1) by (intro int_mod_pos_eq[of _ _ h]) (auto simp: time_norm_def)
qed

lemma xbee_gmtime_of_date:
  assumes "100 \<le> y" "date_norm y m md" "time_norm h mi s"
    and S: "uint ts = (tm_month_start y m + md - 1) * 86400 + h * 3600 + mi * 60 + s"
  shows "xbee_gmtime ts = tm_of y m md h mi s"
proof -
  let ?l = "tm_is_leap y"
  let ?d = "int (xbee_time_jom ?l ! nat m) + md - 1"
  let ?D = "tm_month_start y m + md - 1"
  note split = seconds_split[OF assms(3) S]
  have u: "uint (ucast (ts div 86400) :: u16) = ?D"
  proof -
    have "uint ts < 2 ^ 32" using uint_lt2p[of ts] by simp
    moreover have "0 \<le> uint ts div 86400" by (simp add: pos_imp_zdiv_nonneg_iff)
    ultimately have "?D < 2 ^ 16" "0 \<le> ?D" using split(1) by auto
    then show ?thesis using split(1) by (simp add: uint_up_ucast unsigned_ucast_eq uint_div_distrib take_bit_int_eq_self)
  qed
  have "gmtime_years 100 (nat (tm_year_start y - tm_year_start 100 + ?d)) = (y, nat ?d)"
    using assms by (intro gmtime_years_day tm_yday_less) (auto simp: date_norm_def)
  then have years: "gmtime_years 100 (nat ?D) = (y, nat ?d)"
    by (simp add: tm_month_start_def algebra_simps)
  have nd: "nat ?d = xbee_time_jom ?l ! nat m + nat (md - 1)"
    using assms(2) by (auto simp: date_norm_def)
  have months: "gmtime_months (xbee_time_dom ?l) 0 (nat ?d) = (nat m, nat (md - 1))"
    unfolding nd using assms(2) by (intro gmtime_months_row) (auto simp: date_norm_def)
  have un: "unat (ucast (ts div 86400) :: u16) = nat ?D" using u by (metis nat_uint_eq)
  have sec: "uint (ts mod 86400) = uint ts mod 86400" by (simp add: uint_mod_distrib)
  show ?thesis
    unfolding xbee_gmtime_def Let_def un years u sec split
    using assms(2) months by (simp add: tm_of_def date_norm_def split)
qed

lemma carry_seconds:
  fixes s mi hour mday :: int
  assumes "s = qs * 60 + rs" "mi + qs = qm * 60 + rm" "hour + qm = qh * 24 + rh"
  shows "mday * 86400 + hour * 3600 + mi * 60 + s =
           (mday + qh) * 86400 + rh * 3600 + rm * 60 + rs"
  using assms by (simp add: distrib_right)

text \<open>Every timestamp has a normal date.\<close>

lemma xbee_gmtime_date:
  obtains y m md h mi s where "100 \<le> y" "date_norm y m md" "time_norm h mi s"
    "uint ts = (tm_month_start y m + md - 1) * 86400 + h * 3600 + mi * 60 + s"
    "xbee_gmtime ts = tm_of y m md h mi s"
proof -
  let ?S = "uint ts"
  obtain y d where yd: "gmtime_years 100 (nat (?S div 86400)) = (y, d)" by fastforce
  note y = gmtime_years_total[OF yd]
  obtain m r where m: "0 \<le> m" "m \<le> 11" "r < xbee_time_dom (tm_is_leap y) ! nat m"
    "d = xbee_time_jom (tm_is_leap y) ! nat m + r" using month_of_yday[OF y(2)] by blast
  let ?h = "?S mod 86400 div 60 div 60" and ?mi = "?S mod 86400 div 60 mod 60"
    and ?s = "?S mod 86400 mod 60"
  have D: "tm_month_start y m + (int r + 1) - 1 = ?S div 86400"
    using y(3) m(4) by (simp add: tm_month_start_def pos_imp_zdiv_nonneg_iff)
  have lt: "?S mod 86400 < 86400" "0 \<le> ?S mod 86400" by simp_all
  then have norm: "date_norm y m (int r + 1)" "time_norm ?h ?mi ?s"
    using m by (auto simp: date_norm_def time_norm_def pos_imp_zdiv_nonneg_iff)
  have eq: "?S = (tm_month_start y m + (int r + 1) - 1) * 86400 + ?h * 3600 + ?mi * 60 + ?s"
  proof -
    have "S = q * 86400 + r \<Longrightarrow> r = b * 60 + s \<Longrightarrow> b = h * 60 + mi
        \<Longrightarrow> S = q * 86400 + h * 3600 + mi * 60 + s" for S q r b s h mi :: int by simp
    from this[OF div_mult_mod_eq[symmetric] div_mult_mod_eq[symmetric] div_mult_mod_eq[symmetric]]
    show ?thesis unfolding D .
  qed
  from that[OF y(1) norm eq xbee_gmtime_of_date[OF y(1) norm eq]] show ?thesis .
qed

text \<open>Seconds since the epoch of an arbitrary, possibly unnormalised, broken-down time.\<close>

definition tm_seconds :: "tm \<Rightarrow> int" where
  "tm_seconds t =
     civil_days (1900 + tm_year t + tm_mon t div 12) (tm_mon t mod 12 + 1) (tm_mday t) * 86400
     + tm_hour t * 3600 + tm_min t * 60 + tm_sec t"

lemma normalize_time:
  fixes mday hour mi s :: int
  defines "mi' \<equiv> mi + s div 60" defines "h' \<equiv> hour + mi' div 60" defines "D' \<equiv> mday + h' div 24"
  shows "mday * 86400 + hour * 3600 + mi * 60 + s =
           D' * 86400 + h' mod 24 * 3600 + mi' mod 60 * 60 + s mod 60"
    and "time_norm (h' mod 24) (mi' mod 60) (s mod 60)"
  unfolding D'_def h'_def mi'_def time_norm_def
  by (rule carry_seconds; simp only: div_mult_mod_eq) simp

lemma uint_of_int_word:
  assumes "0 \<le> k" "k < 2 ^ LENGTH('a)"
  shows "uint (of_int k :: 'a::len word) = k"
  using assms by (simp add: unsigned_of_int take_bit_int_eq_self)

text \<open>The day number computed in 8 and 16 bits is exact up to the last representable day.\<close>

lemma mktime_days_exact:
  fixes y m md :: int
  defines "years \<equiv> of_int (y - 100) :: u8"
    and "yday \<equiv> of_int (int (xbee_time_jom (tm_is_leap y) ! nat m) + md - 1) :: u16"
  assumes y: "100 \<le> y" and norm: "date_norm y m md" and D: "tm_month_start y m + md - 1 \<le> 49710"
  shows "uint yday = int (xbee_time_jom (tm_is_leap y) ! nat m) + md - 1"
    and "uint (of_int (uint years * 365 + uint (if years > 100
             then drop_bit 2 years + (if years AND 3 \<noteq> 0 then 1 else 0) - 1
             else drop_bit 2 years + (if years AND 3 \<noteq> 0 then 1 else 0)) + uint yday) :: u16)
         = tm_month_start y m + md - 1"
proof -
  let ?yd = "int (xbee_time_jom (tm_is_leap y) ! nat m) + md - 1"
  have yd: "?yd < 365 + of_bool (tm_is_leap y)" "0 \<le> ?yd"
    using tm_yday_less norm by (auto simp: date_norm_def)
  then show yday: "uint yday = ?yd"
    unfolding yday_def by (intro uint_of_int_word) (auto simp: of_bool_def split: if_splits)
  have "(y + 3) div 4 \<ge> 25" using y by linarith
  then have "365 * (y - 100) \<le> 49711"
    using D yd(2) y unfolding tm_month_start_def tm_year_start_def
    by (cases "y > 200") simp_all
  then have "y - 100 \<le> 136" by presburger
  with y have y': "0 \<le> y - 100" "y - 100 \<le> 136" by simp_all
  then have years: "uint years = y - 100"
    unfolding years_def by (intro uint_of_int_word) auto
  have r: "\<forall>k \<in> set [0..136]. uint (if of_int k > (100 :: u8)
             then drop_bit 2 (of_int k :: u8) + (if (of_int k :: u8) AND 3 \<noteq> 0 then 1 else 0) - 1
             else drop_bit 2 (of_int k :: u8) + (if (of_int k :: u8) AND 3 \<noteq> 0 then 1 else 0))
           = (k + 103) div 4 - 25 - of_bool (k > 100)"
    by code_simp
  show "uint (of_int (uint years * 365 + uint (if years > 100
             then drop_bit 2 years + (if years AND 3 \<noteq> 0 then 1 else 0) - 1
             else drop_bit 2 years + (if years AND 3 \<noteq> 0 then 1 else 0)) + uint yday) :: u16)
         = tm_month_start y m + md - 1"
    (is "uint (of_int (_ + uint ?past + _) :: u16) = _")
  proof -
    have "y - 100 \<in> set [0..136]" using y' by simp
    from bspec[OF r this] have past: "uint ?past = (y + 3) div 4 - 25 - of_bool (y > 200)"
      unfolding years_def[symmetric] by (simp add: add.commute)
    have "uint years * 365 + uint ?past + uint yday = tm_month_start y m + md - 1"
      unfolding years past yday tm_month_start_def tm_year_start_def by simp
    moreover have "0 \<le> uint years * 365 + uint ?past + uint yday" by simp
    ultimately have eq: "uint years * 365 + uint ?past + uint yday = tm_month_start y m + md - 1"
      and D0: "0 \<le> tm_month_start y m + md - 1" by linarith+
    show ?thesis unfolding eq by (rule uint_of_int_word[OF D0]) (use D in simp)
  qed
qed

lemma timestamp_year:
  assumes "date_norm y m md" "time_norm h mi s"
    "uint (ts :: u32) = (tm_month_start y m + md - 1) * 86400 + h * 3600 + mi * 60 + s"
  shows "y \<le> 236"
proof (rule ccontr)
  have D: "tm_month_start y m + md - 1 \<le> 49710" using assms(2,3) uint_lt2p[of ts] by (auto simp: time_norm_def)
  assume "\<not> ?thesis"
  then have "tm_year_start 237 \<le> tm_year_start y" by (intro tm_year_start_mono) simp
  then show False using D assms(1) by (simp add: tm_month_start_def date_norm_def tm_year_start_def)
qed

text \<open>The carries of the normalisation fit an \<open>int\<close>, and the year is not further than that from 2000.\<close>

definition tm_fits :: "tm \<Rightarrow> bool" where
  "tm_fits t \<longleftrightarrow> (
     let mi = tm_min t + tm_sec t div 60; h = tm_hour t + mi div 60; md = tm_mday t + h div 24;
         y = tm_year t + tm_mon t div 12
     in fits_int mi \<and> fits_int h \<and> fits_int md \<and> 1 \<le> y \<and> y \<le> 299)"

text \<open>\<open>xbee_mktime\<close> on any such structure, in the calendar of the code.\<close>

lemma xbee_mktime_code_calendar:
  fixes t :: tm
  defines "S \<equiv> (tm_month_start (tm_year t + tm_mon t div 12) (tm_mon t mod 12) + tm_mday t - 1) * 86400
     + tm_hour t * 3600 + tm_min t * 60 + tm_sec t"
  assumes fits: "tm_fits t"
  shows "(S < 0 \<longrightarrow> xbee_mktime t = Some (XBEE_UTCTIME_INVALID, t)) \<and>
    (0 \<le> S \<and> S < 2 ^ 32 \<longrightarrow>
       xbee_mktime t = Some (of_int S, (xbee_gmtime (of_int S))\<lparr>tm_isdst := tm_isdst t\<rparr>))"
proof -
  define mi where "mi = tm_min t + tm_sec t div 60"
  define h where "h = tm_hour t + mi div 60"
  define md where "md = tm_mday t + h div 24"
  let ?y = "tm_year t + tm_mon t div 12" and ?m = "tm_mon t mod 12"
  obtain y1 m1 md1 l1 where b: "mktime_back ?y ?m md (tm_is_leap ?y) = (y1, m1, md1, l1)"
    by (metis prod_cases4)
  have b': "l1 = tm_is_leap y1" "0 \<le> m1" "m1 \<le> 11" "1 \<le> md1"
    "tm_month_start y1 m1 + md1 = tm_month_start ?y ?m + md"
    using mktime_back_correct[of ?m "tm_is_leap ?y" ?y md] b by auto
  obtain y2 m2 md2 l2 where f: "mktime_forth y1 m1 md1 l1 = (y2, m2, md2, l2)"
    by (metis prod_cases4)
  have f': "l2 = tm_is_leap y2" "date_norm y2 m2 md2"
    "tm_month_start y2 m2 + md2 = tm_month_start ?y ?m + md"
    using mktime_forth_correct[of m1 l1 y1 md1] f b' by (auto simp: date_norm_def)
  have n: "tm_mday t * 86400 + tm_hour t * 3600 + tm_min t * 60 + tm_sec t =
        md * 86400 + h mod 24 * 3600 + mi mod 60 * 60 + tm_sec t mod 60"
    and tn: "time_norm (h mod 24) (mi mod 60) (tm_sec t mod 60)"
    unfolding md_def h_def mi_def by (rule normalize_time)+
  have S: "S = (tm_month_start y2 m2 + md2 - 1) * 86400 + h mod 24 * 3600 + mi mod 60 * 60 + tm_sec t mod 60"
    using n f'(3) unfolding S_def by (simp add: algebra_simps)
  let ?D = "tm_month_start y2 m2 + md2 - 1"
  have yday: "0 \<le> int (xbee_time_jom l2 ! nat m2) + md2 - 1"
    "int (xbee_time_jom l2 ! nat m2) + md2 - 1 < 365 + of_bool l2"
    using tm_yday_less f' by (auto simp: date_norm_def)
  have F: "fits_int mi" "fits_int h" "fits_int md" "1 \<le> ?y" "?y \<le> 299"
    using fits by (simp_all add: tm_fits_def Let_def mi_def h_def md_def)
  have y1: "?y + min 0 (md - 1) \<le> y1" "y1 \<le> ?y" using mktime_back_year[where y = ?y and mon = ?m and md = md and leap = "tm_is_leap ?y"] b by auto
  have md1: "md1 \<le> max 31 md" using mktime_back_day[where y = ?y and mon = ?m and md = md and leap = "tm_is_leap ?y"] b by auto
  have y2: "y1 \<le> y2" "28 * (y2 - y1) \<le> max 0 md1" using mktime_forth_year[where y = y1 and mon = m1 and md = md1 and leap = l1] f by auto
  have Y: "fits_int ?y" "fits_int y1" "fits_int y2" using F y1 y2 md1 by (auto simp: fits_int_def)
  note mk = xbee_mktime_def[of t, unfolded Let_def, simplified xbee_mktime_normalize_div_mod zero_less_numeral
     bind.bind_lunit if_True prod.case mi_def[symmetric] h_def[symmetric] md_def[symmetric] b f F Y c_int_def]
  show ?thesis
  proof (cases "y2 < 100")
    case True
    have "?D < tm_year_start (y2 + 1)"
      using yday unfolding tm_month_start_def tm_year_start_step f'(1) by linarith
    also have "\<dots> \<le> 0" using tm_year_start_mono[of "y2 + 1" 100] True by simp
    finally have "S < 0" using S tn by (auto simp: time_norm_def)
    with True show ?thesis by (simp add: mk)
  next
    case False
    then have "0 \<le> ?D" using yday tm_year_start_mono[of 100 y2] f'(1) by (simp add: tm_month_start_def)
    then have S0: "0 \<le> S" using S tn by (auto simp: time_norm_def)
    have "xbee_mktime t = Some (of_int S, (xbee_gmtime (of_int S))\<lparr>tm_isdst := tm_isdst t\<rparr>)" if "S < 2 ^ 32"
    proof -
      have D: "?D \<le> 49710" using that S tn by (auto simp: time_norm_def)
      have u: "uint (of_int S :: u32) = S" using that S0 by (simp add: uint_of_int_word)
      have gm: "xbee_gmtime (of_int S) = tm_of y2 m2 md2 (h mod 24) (mi mod 60) (tm_sec t mod 60)"
        by (rule xbee_gmtime_of_date[OF _ f'(2) tn]) (use False in simp, rule trans[OF u S])
      show ?thesis
        using False mktime_days_exact[OF _ f'(2) D]
        unfolding gm mk f'(1) by (simp add: tm_of_def S)
    qed
    with S0 show ?thesis by simp
  qed
qed

section \<open>Properties\<close>

text \<open>
  C23: for every 32-bit timestamp, \<open>xbee_gmtime\<close> yields the Gregorian date and time: every
  field is in its range, the day exists in its month, the fields denote exactly the given number
  of seconds after 1 January 2000, and the day of the week (1 January 2000 was a Saturday) and
  the day of the year are those of that date.
\<close>

theorem xbee_gmtime_gregorian:
  "let t = xbee_gmtime ts; Y = 1900 + tm_year t; M = tm_mon t + 1 in
     tm_sec t \<in> {0..59} \<and> tm_min t \<in> {0..59} \<and> tm_hour t \<in> {0..23} \<and>
     tm_mon t \<in> {0..11} \<and> tm_mday t \<in> {1..month_length Y M} \<and> 2000 \<le> Y \<and> Y \<le> 2136 \<and>
     civil_days Y M (tm_mday t) * 86400 + tm_hour t * 3600 + tm_min t * 60 + tm_sec t = uint ts \<and>
     tm_wday t = (civil_days Y M (tm_mday t) + 6) mod 7 \<and>
     tm_yday t = days_before_month Y M + tm_mday t - 1 \<and> tm_isdst t = 0"
proof -
  obtain y m md h mi s where d: "100 \<le> y" "date_norm y m md" "time_norm h mi s"
    "uint ts = (tm_month_start y m + md - 1) * 86400 + h * 3600 + mi * 60 + s"
    "xbee_gmtime ts = tm_of y m md h mi s" by (rule xbee_gmtime_date)
  have y: "y \<le> 236" by (rule timestamp_year[OF d(2-4)])
  have greg: "tm_month_start y m + md - 1 = civil_days (1900 + y) (m + 1) md"
    "tm_is_leap y = greg_leap (1900 + y)"
    using d(1,2) y tm_month_start_gregorian[of y m md] tm_is_leap_gregorian[of y]
    by (auto simp: date_norm_def add.commute)
  have tab: "days_before_month (1900 + y) (m + 1) = int (xbee_time_jom (tm_is_leap y) ! nat m)"
    "month_length (1900 + y) (m + 1) = int (xbee_time_dom (tm_is_leap y) ! nat m)"
    unfolding greg(2) using d(2) days_before_month_table[of m "1900 + y"] by (auto simp: date_norm_def)
  show ?thesis
    using d(1-3) y unfolding d(5) Let_def tm_of_def d(4)
    by (simp add: tab greg(1)) (simp add: date_norm_def time_norm_def)
qed


text \<open>31 February 2024, 25:61:61 is 3 March 2024, 02:02:01.\<close>

definition tm_sample :: tm where
  "tm_sample = \<lparr>tm_sec = 61, tm_min = 61, tm_hour = 25, tm_mday = 31, tm_mon = 1, tm_year = 124,
                tm_wday = 0, tm_yday = 0, tm_isdst = 0\<rparr>"

lemma tm_seconds_sample: "tm_seconds tm_sample = 762746521"
proof -
  have "{1..<2::int} = {1}" by auto
  then show ?thesis
    by (simp add: tm_seconds_def tm_sample_def civil_days_def days_before_year_def
        days_before_month_def month_length_def)
qed


text \<open>
  The two conversions are inverse: for every timestamp, \<open>xbee_mktime\<close> of
  \<open>xbee_gmtime\<close>'s result returns the timestamp and leaves the structure unchanged.
\<close>

theorem xbee_gmtime_mktime: "xbee_mktime (xbee_gmtime ts) = Some (ts, xbee_gmtime ts)"
proof -
  obtain y m md h mi s where d: "100 \<le> y" "date_norm y m md" "time_norm h mi s"
    "uint ts = (tm_month_start y m + md - 1) * 86400 + h * 3600 + mi * 60 + s"
    "xbee_gmtime ts = tm_of y m md h mi s" by (rule xbee_gmtime_date)
  have m: "m div 12 = 0" "m mod 12 = m" using d(2) by (auto simp: date_norm_def)
  have "(tm_month_start (tm_year (xbee_gmtime ts) + tm_mon (xbee_gmtime ts) div 12)
          (tm_mon (xbee_gmtime ts) mod 12) + tm_mday (xbee_gmtime ts) - 1) * 86400
      + tm_hour (xbee_gmtime ts) * 3600 + tm_min (xbee_gmtime ts) * 60 + tm_sec (xbee_gmtime ts) = uint ts"
    unfolding d(4,5) by (simp add: tm_of_def m)
  moreover have "md \<le> 31" using d(2) xbee_time_dom_ge[of m "tm_is_leap y"] by (auto simp: date_norm_def)
  then have "tm_fits (xbee_gmtime ts)"
    using d(1-3) timestamp_year[OF d(2-4)] unfolding d(5)
    by (simp add: tm_fits_def tm_of_def fits_int_def time_norm_def date_norm_def)
  ultimately have "xbee_mktime (xbee_gmtime ts) =
      Some (of_int (uint ts), (xbee_gmtime (of_int (uint ts)))\<lparr>tm_isdst := tm_isdst (xbee_gmtime ts)\<rparr>)"
    using xbee_mktime_code_calendar[of "xbee_gmtime ts"] uint_lt2p[of ts] by simp
  then show ?thesis by simp
qed

end
