(* ===== verification/Telnet_Option.thy ===== *)
theory Telnet_Option
  imports Prelude
begin

text \<open>
  \<open>src/Software/lib/libtelnet/libtelnet.c\<close>, first part: the state tracker, the events it
  reports and the RFC 1143 option negotiation. The library is modelled as it is built here,
  without \<open>HAVE_ZLIB\<close>. The application's event handler is an observer: every call of
  \<open>telnet->eh\<close> appends the event to \<open>ev_log\<close>, in the order of the calls. Whether the
  \<open>n\<close>-th request to the C allocator succeeds is the parameter \<open>mem\<close> of the tracker, so
  that every out-of-memory branch of the source is a branch of the model.
\<close>

section \<open>Constants\<close>

abbreviation (input) TELNET_IAC :: u8 where "TELNET_IAC \<equiv> 255"
abbreviation (input) TELNET_DONT :: u8 where "TELNET_DONT \<equiv> 254"
abbreviation (input) TELNET_DO :: u8 where "TELNET_DO \<equiv> 253"
abbreviation (input) TELNET_WONT :: u8 where "TELNET_WONT \<equiv> 252"
abbreviation (input) TELNET_WILL :: u8 where "TELNET_WILL \<equiv> 251"
abbreviation (input) TELNET_SB :: u8 where "TELNET_SB \<equiv> 250"
abbreviation (input) TELNET_SE :: u8 where "TELNET_SE \<equiv> 240"

abbreviation (input) TELNET_TELOPT_TTYPE :: u8 where "TELNET_TELOPT_TTYPE \<equiv> 24"
abbreviation (input) TELNET_TELOPT_ENVIRON :: u8 where "TELNET_TELOPT_ENVIRON \<equiv> 36"
abbreviation (input) TELNET_TELOPT_NEW_ENVIRON :: u8 where "TELNET_TELOPT_NEW_ENVIRON \<equiv> 39"
abbreviation (input) TELNET_TELOPT_MSSP :: u8 where "TELNET_TELOPT_MSSP \<equiv> 70"
abbreviation (input) TELNET_TELOPT_COMPRESS :: u8 where "TELNET_TELOPT_COMPRESS \<equiv> 85"
abbreviation (input) TELNET_TELOPT_ZMP :: u8 where "TELNET_TELOPT_ZMP \<equiv> 93"

abbreviation (input) TELNET_FLAG_PROXY :: u8 where "TELNET_FLAG_PROXY \<equiv> 1"

abbreviation (input) Q_NO :: u8 where "Q_NO \<equiv> 0"
abbreviation (input) Q_YES :: u8 where "Q_YES \<equiv> 1"
abbreviation (input) Q_WANTNO :: u8 where "Q_WANTNO \<equiv> 2"
abbreviation (input) Q_WANTYES :: u8 where "Q_WANTYES \<equiv> 3"
abbreviation (input) Q_WANTNO_OP :: u8 where "Q_WANTNO_OP \<equiv> 4"
abbreviation (input) Q_WANTYES_OP :: u8 where "Q_WANTYES_OP \<equiv> 5"

section \<open>Types\<close>

datatype telnet_state_t =
    TELNET_STATE_DATA | TELNET_STATE_IAC | TELNET_STATE_WILL | TELNET_STATE_WONT
  | TELNET_STATE_DO | TELNET_STATE_DONT | TELNET_STATE_SB | TELNET_STATE_SB_DATA
  | TELNET_STATE_SB_DATA_IAC

datatype telnet_error_t =
    TELNET_EOK | TELNET_EBADVAL | TELNET_ENOMEM | TELNET_EOVERFLOW | TELNET_EPROTOCOL
  | TELNET_ECOMPRESS

record telnet_telopt_t =
  to_telopt :: int
  to_us :: u8
  to_him :: u8

record telnet_rfc1143_t =
  rq_telopt :: u8
  rq_state :: u8

record telnet_environ_t =
  env_type :: u8
  env_var :: "bytes option"
  env_value :: "bytes option"

text \<open>The text of a report: its format and, where it has one, the number printed by it.\<close>

datatype telnet_msg = Msg string | MsgD string u8

text \<open>
  The union \<open>telnet_event_t\<close>. A data event carries the bytes its pointer and size denote
  and the \<open>size_t\<close> itself; strings are C strings, \<open>None\<close> the null pointer.
\<close>

datatype telnet_event_t =
    TELNET_EV_DATA bytes u64
  | TELNET_EV_SEND bytes
  | TELNET_EV_IAC u8
  | TELNET_EV_WILL u8 | TELNET_EV_WONT u8 | TELNET_EV_DO u8 | TELNET_EV_DONT u8
  | TELNET_EV_SUBNEGOTIATION u8 bytes
  | TELNET_EV_ZMP "bytes list"
  | TELNET_EV_TTYPE u8 "bytes option"
  | TELNET_EV_ENVIRON u8 "telnet_environ_t list"
  | TELNET_EV_MSSP "telnet_environ_t list"
  | TELNET_EV_WARNING string telnet_msg
  | TELNET_EV_ERROR string telnet_msg

record telnet_t =
  telopts :: "telnet_telopt_t list option"
  q_tab :: "telnet_rfc1143_t list"
  sb_buf :: bytes
  buffer_size :: nat
  buffer_pos :: nat
  tstate :: telnet_state_t
  flags :: u8
  sb_telopt :: u8
  q_size :: u8
  ev_log :: "telnet_event_t list"
  mem :: "nat \<Rightarrow> bool"
  mem_calls :: nat

text \<open>\<open>telnet->eh (telnet, &ev, telnet->ud)\<close>.\<close>

definition eh :: "telnet_event_t \<Rightarrow> telnet_t \<Rightarrow> telnet_t" where
  "eh ev t = t\<lparr>ev_log := ev_log t @ [ev]\<rparr>"

text \<open>A call of \<open>malloc\<close>, \<open>calloc\<close> or \<open>realloc\<close>: does it return memory?\<close>

definition alloc :: "telnet_t \<Rightarrow> bool \<times> telnet_t" where
  "alloc t = (mem t (mem_calls t), t\<lparr>mem_calls := mem_calls t + 1\<rparr>)"

definition telnet_error :: "string \<Rightarrow> telnet_error_t \<Rightarrow> bool \<Rightarrow> telnet_msg \<Rightarrow> telnet_t \<Rightarrow> telnet_error_t \<times> telnet_t" where
  "telnet_error func err fatal msg t =
     (err, eh (if fatal then TELNET_EV_ERROR func msg else TELNET_EV_WARNING func msg) t)"

text \<open>\<open>_error (..., 0, ...)\<close> where the result is not used.\<close>

abbreviation warn :: "string \<Rightarrow> telnet_error_t \<Rightarrow> telnet_msg \<Rightarrow> telnet_t \<Rightarrow> telnet_t" where
  "warn func err msg t \<equiv> snd (telnet_error func err False msg t)"

definition telnet_send_raw :: "telnet_t \<Rightarrow> bytes \<Rightarrow> telnet_t" where
  "telnet_send_raw t buf = eh (TELNET_EV_SEND buf) t"

section \<open>Supported options\<close>

fun check_telopt_loop :: "telnet_telopt_t list \<Rightarrow> u8 \<Rightarrow> bool \<Rightarrow> bool" where
  "check_telopt_loop [] telopt us = False"
| "check_telopt_loop (e # es) telopt us =
     (if to_telopt e = - 1 then False
      else if to_telopt e = uint telopt then
        (if us \<and> to_us e = TELNET_WILL then True
         else if \<not> us \<and> to_him e = TELNET_DO then True
         else False)
      else check_telopt_loop es telopt us)"

definition check_telopt :: "telnet_t \<Rightarrow> u8 \<Rightarrow> bool \<Rightarrow> bool" where
  "check_telopt t telopt us =
     (case telopts t of None \<Rightarrow> False | Some tab \<Rightarrow> check_telopt_loop tab telopt us)"

section \<open>The RFC 1143 table\<close>

definition Q_US :: "telnet_rfc1143_t \<Rightarrow> u8" where
  "Q_US q = rq_state q AND 0x0F"

definition Q_HIM :: "telnet_rfc1143_t \<Rightarrow> u8" where
  "Q_HIM q = drop_bit 4 (rq_state q AND 0xF0)"

definition Q_MAKE :: "u8 \<Rightarrow> u8 \<Rightarrow> u8" where
  "Q_MAKE us him = us OR push_bit 4 him"

fun get_rfc1143_loop :: "telnet_rfc1143_t list \<Rightarrow> u8 \<Rightarrow> telnet_rfc1143_t" where
  "get_rfc1143_loop [] telopt = \<lparr>rq_telopt = telopt, rq_state = 0\<rparr>"
| "get_rfc1143_loop (e # es) telopt = (if rq_telopt e = telopt then e else get_rfc1143_loop es telopt)"

definition get_rfc1143 :: "telnet_t \<Rightarrow> u8 \<Rightarrow> telnet_rfc1143_t" where
  "get_rfc1143 t telopt = get_rfc1143_loop (take (unat (q_size t)) (q_tab t)) telopt"

text \<open>The search loop of \<open>_set_rfc1143\<close>: the table with the entry replaced, if found.\<close>

fun set_rfc1143_loop :: "telnet_rfc1143_t list \<Rightarrow> u8 \<Rightarrow> u8 \<Rightarrow> telnet_rfc1143_t list option" where
  "set_rfc1143_loop [] telopt st = None"
| "set_rfc1143_loop (e # es) telopt st =
     (if rq_telopt e = telopt then Some (e\<lparr>rq_state := st\<rparr> # es)
      else map_option (Cons e) (set_rfc1143_loop es telopt st))"

text \<open>
  The table grows by four zeroed entries, of which the first is filled in; \<open>q_size\<close> is an
  \<open>unsigned char\<close> and wraps.
\<close>

definition set_rfc1143 :: "telnet_t \<Rightarrow> u8 \<Rightarrow> u8 \<Rightarrow> u8 \<Rightarrow> telnet_t" where
  "set_rfc1143 t telopt us him =
     (let n = unat (q_size t) in
      case set_rfc1143_loop (take n (q_tab t)) telopt (Q_MAKE us him) of
        Some tab \<Rightarrow> t\<lparr>q_tab := tab @ drop n (q_tab t)\<rparr>
      | None \<Rightarrow>
          (case alloc t of
             (False, t) \<Rightarrow> warn ''_set_rfc1143'' TELNET_ENOMEM (Msg ''realloc() failed: %s'') t
           | (True, t) \<Rightarrow>
               t\<lparr>q_tab := take n (q_tab t)
                     @ \<lparr>rq_telopt = telopt, rq_state = Q_MAKE us him\<rparr>
                     # replicate 3 \<lparr>rq_telopt = 0, rq_state = 0\<rparr>,
                 q_size := q_size t + 4\<rparr>))"

definition send_negotiate :: "telnet_t \<Rightarrow> u8 \<Rightarrow> u8 \<Rightarrow> telnet_t" where
  "send_negotiate t cmd telopt = telnet_send_raw t [TELNET_IAC, cmd, telopt]"

section \<open>Received negotiation\<close>

text \<open>The four cases of the \<open>switch\<close> of \<open>_negotiate\<close>.\<close>

definition negotiate_will :: "telnet_t \<Rightarrow> u8 \<Rightarrow> telnet_rfc1143_t \<Rightarrow> telnet_t" where
  "negotiate_will t telopt q =
     (if Q_HIM q = Q_NO then
        if check_telopt t telopt False
        then eh (TELNET_EV_WILL telopt)
               (send_negotiate (set_rfc1143 t telopt (Q_US q) Q_YES) TELNET_DO telopt)
        else send_negotiate t TELNET_DONT telopt
      else if Q_HIM q = Q_WANTNO then
        warn ''_negotiate'' TELNET_EPROTOCOL (Msg ''DONT answered by WILL'')
          (eh (TELNET_EV_WONT telopt) (set_rfc1143 t telopt (Q_US q) Q_NO))
      else if Q_HIM q = Q_WANTNO_OP then
        warn ''_negotiate'' TELNET_EPROTOCOL (Msg ''DONT answered by WILL'')
          (eh (TELNET_EV_WILL telopt) (set_rfc1143 t telopt (Q_US q) Q_YES))
      else if Q_HIM q = Q_WANTYES then
        eh (TELNET_EV_WILL telopt) (set_rfc1143 t telopt (Q_US q) Q_YES)
      else if Q_HIM q = Q_WANTYES_OP then
        eh (TELNET_EV_WILL telopt)
          (send_negotiate (set_rfc1143 t telopt (Q_US q) Q_WANTNO) TELNET_DONT telopt)
      else t)"

definition negotiate_wont :: "telnet_t \<Rightarrow> u8 \<Rightarrow> telnet_rfc1143_t \<Rightarrow> telnet_t" where
  "negotiate_wont t telopt q =
     (if Q_HIM q = Q_YES then
        eh (TELNET_EV_WONT telopt)
          (send_negotiate (set_rfc1143 t telopt (Q_US q) Q_NO) TELNET_DONT telopt)
      else if Q_HIM q = Q_WANTNO then
        eh (TELNET_EV_WONT telopt) (set_rfc1143 t telopt (Q_US q) Q_NO)
      else if Q_HIM q = Q_WANTNO_OP then
        eh (TELNET_EV_DO telopt) (set_rfc1143 t telopt (Q_US q) Q_WANTYES)
      else if Q_HIM q = Q_WANTYES \<or> Q_HIM q = Q_WANTYES_OP then
        set_rfc1143 t telopt (Q_US q) Q_NO
      else t)"

definition negotiate_do :: "telnet_t \<Rightarrow> u8 \<Rightarrow> telnet_rfc1143_t \<Rightarrow> telnet_t" where
  "negotiate_do t telopt q =
     (if Q_US q = Q_NO then
        if check_telopt t telopt True
        then eh (TELNET_EV_DO telopt)
               (send_negotiate (set_rfc1143 t telopt Q_YES (Q_HIM q)) TELNET_WILL telopt)
        else send_negotiate t TELNET_WONT telopt
      else if Q_US q = Q_WANTNO then
        warn ''_negotiate'' TELNET_EPROTOCOL (Msg ''WONT answered by DO'')
          (eh (TELNET_EV_DONT telopt) (set_rfc1143 t telopt Q_NO (Q_HIM q)))
      else if Q_US q = Q_WANTNO_OP then
        warn ''_negotiate'' TELNET_EPROTOCOL (Msg ''WONT answered by DO'')
          (eh (TELNET_EV_DO telopt) (set_rfc1143 t telopt Q_YES (Q_HIM q)))
      else if Q_US q = Q_WANTYES then
        eh (TELNET_EV_DO telopt) (set_rfc1143 t telopt Q_YES (Q_HIM q))
      else if Q_US q = Q_WANTYES_OP then
        eh (TELNET_EV_DO telopt)
          (send_negotiate (set_rfc1143 t telopt Q_WANTNO (Q_HIM q)) TELNET_WONT telopt)
      else t)"

definition negotiate_dont :: "telnet_t \<Rightarrow> u8 \<Rightarrow> telnet_rfc1143_t \<Rightarrow> telnet_t" where
  "negotiate_dont t telopt q =
     (if Q_US q = Q_YES then
        eh (TELNET_EV_DONT telopt)
          (send_negotiate (set_rfc1143 t telopt Q_NO (Q_HIM q)) TELNET_WONT telopt)
      else if Q_US q = Q_WANTNO then
        eh (TELNET_EV_WONT telopt) (set_rfc1143 t telopt Q_NO (Q_HIM q))
      else if Q_US q = Q_WANTNO_OP then
        eh (TELNET_EV_WILL telopt)
          (send_negotiate (set_rfc1143 t telopt Q_WANTYES (Q_HIM q)) TELNET_WILL telopt)
      else if Q_US q = Q_WANTYES \<or> Q_US q = Q_WANTYES_OP then
        set_rfc1143 t telopt Q_NO (Q_HIM q)
      else t)"

definition negotiate :: "telnet_t \<Rightarrow> u8 \<Rightarrow> telnet_t" where
  "negotiate t telopt =
     (if flags t AND TELNET_FLAG_PROXY \<noteq> 0 then
        (case tstate t of
           TELNET_STATE_WILL \<Rightarrow> eh (TELNET_EV_WILL telopt) t
         | TELNET_STATE_WONT \<Rightarrow> eh (TELNET_EV_WONT telopt) t
         | TELNET_STATE_DO \<Rightarrow> eh (TELNET_EV_DO telopt) t
         | TELNET_STATE_DONT \<Rightarrow> eh (TELNET_EV_DONT telopt) t
         | _ \<Rightarrow> t)
      else
        let q = get_rfc1143 t telopt in
        case tstate t of
          TELNET_STATE_WILL \<Rightarrow> negotiate_will t telopt q
        | TELNET_STATE_WONT \<Rightarrow> negotiate_wont t telopt q
        | TELNET_STATE_DO \<Rightarrow> negotiate_do t telopt q
        | TELNET_STATE_DONT \<Rightarrow> negotiate_dont t telopt q
        | _ \<Rightarrow> t)"

section \<open>Requested negotiation\<close>

definition telnet_negotiate :: "telnet_t \<Rightarrow> u8 \<Rightarrow> u8 \<Rightarrow> telnet_t" where
  "telnet_negotiate t cmd telopt =
     (if flags t AND TELNET_FLAG_PROXY \<noteq> 0 then telnet_send_raw t [TELNET_IAC, cmd, telopt]
      else
        let q = get_rfc1143 t telopt in
        if cmd = TELNET_WILL then
          if Q_US q = Q_NO then
            send_negotiate (set_rfc1143 t telopt Q_WANTYES (Q_HIM q)) TELNET_WILL telopt
          else if Q_US q = Q_WANTNO then set_rfc1143 t telopt Q_WANTNO_OP (Q_HIM q)
          else if Q_US q = Q_WANTYES_OP then set_rfc1143 t telopt Q_WANTYES (Q_HIM q)
          else t
        else if cmd = TELNET_WONT then
          if Q_US q = Q_YES then
            send_negotiate (set_rfc1143 t telopt Q_WANTNO (Q_HIM q)) TELNET_WONT telopt
          else if Q_US q = Q_WANTYES then set_rfc1143 t telopt Q_WANTYES_OP (Q_HIM q)
          else if Q_US q = Q_WANTNO_OP then set_rfc1143 t telopt Q_WANTNO (Q_HIM q)
          else t
        else if cmd = TELNET_DO then
          if Q_HIM q = Q_NO then
            send_negotiate (set_rfc1143 t telopt (Q_US q) Q_WANTYES) TELNET_DO telopt
          else if Q_HIM q = Q_WANTNO then set_rfc1143 t telopt (Q_US q) Q_WANTNO_OP
          else if Q_HIM q = Q_WANTYES_OP then set_rfc1143 t telopt (Q_US q) Q_WANTYES
          else t
        else if cmd = TELNET_DONT then
          if Q_HIM q = Q_YES then
            send_negotiate (set_rfc1143 t telopt (Q_US q) Q_WANTNO) TELNET_DONT telopt
          else if Q_HIM q = Q_WANTYES then set_rfc1143 t telopt (Q_US q) Q_WANTYES_OP
          else if Q_HIM q = Q_WANTNO_OP then set_rfc1143 t telopt (Q_US q) Q_WANTNO
          else t
        else t)"

section \<open>The option table as an interface\<close>

text \<open>
  What negotiation relies on: a table of option states with independent entries. \<open>room t o\<close>
  says that an entry for option \<open>o\<close> exists or can be added.
\<close>

locale option_table =
  fixes getq :: "'s \<Rightarrow> 'o \<Rightarrow> 'v"
    and setq :: "'s \<Rightarrow> 'o \<Rightarrow> 'v \<Rightarrow> 's"
    and good :: "'s \<Rightarrow> bool"
    and room :: "'s \<Rightarrow> 'o \<Rightarrow> bool"
    and val :: "'v \<Rightarrow> bool"
  assumes get_val: "good s \<Longrightarrow> val (getq s p)"
    and set_good: "good s \<Longrightarrow> val v \<Longrightarrow> good (setq s p v)"
    and set_same: "good s \<Longrightarrow> room s p \<Longrightarrow> val v \<Longrightarrow> getq (setq s p v) p = v"
    and set_other: "good s \<Longrightarrow> room s p \<Longrightarrow> val v \<Longrightarrow> r \<noteq> p \<Longrightarrow> getq (setq s p v) r = getq s r"
    and set_room: "good s \<Longrightarrow> room s p \<Longrightarrow> val v \<Longrightarrow> room (setq s p v) p"
begin

lemma set_set:
  assumes "good s" "room s p" "val v" "val w"
  shows "getq (setq (setq s p v) p w) r = (if r = p then w else getq s r)"
  using assms set_good set_same set_other set_room by metis

lemma modify_frame:
  assumes "good s" "room s p" "\<And>v. val v \<Longrightarrow> val (f v)"
  shows "good (setq s p (f (getq s p))) \<and>
         getq (setq s p (f (getq s p))) = (getq s)(p := f (getq s p))"
  using assms get_val set_good set_same set_other by (auto simp: fun_eq_iff)

end

text \<open>The invariant of the table: reads stay inside the allocation and the nibbles are states.\<close>

definition q_valid :: "telnet_rfc1143_t \<Rightarrow> bool" where
  "q_valid q \<longleftrightarrow> Q_US q \<le> 5 \<and> Q_HIM q \<le> 5"

definition opt_inv :: "telnet_t \<Rightarrow> bool" where
  "opt_inv t \<longleftrightarrow> unat (q_size t) \<le> length (q_tab t) \<and> list_all q_valid (q_tab t)"

definition opt_room :: "telnet_t \<Rightarrow> u8 \<Rightarrow> bool" where
  "opt_room t telopt \<longleftrightarrow>
     telopt \<in> rq_telopt ` set (take (unat (q_size t)) (q_tab t)) \<or>
     unat (q_size t) < 252 \<and> mem t (mem_calls t)"

definition opt_get :: "telnet_t \<Rightarrow> u8 \<Rightarrow> u8 \<times> u8" where
  "opt_get t telopt = (Q_US (get_rfc1143 t telopt), Q_HIM (get_rfc1143 t telopt))"

definition opt_set :: "telnet_t \<Rightarrow> u8 \<Rightarrow> u8 \<times> u8 \<Rightarrow> telnet_t" where
  "opt_set t telopt v = set_rfc1143 t telopt (fst v) (snd v)"

definition nibbles :: "u8 \<times> u8 \<Rightarrow> bool" where
  "nibbles v \<longleftrightarrow> fst v \<le> 5 \<and> snd v \<le> 5"

lemma le5_cases:
  assumes "(x :: u8) \<le> 5"
  shows "x = 0 \<or> x = 1 \<or> x = 2 \<or> x = 3 \<or> x = 4 \<or> x = 5"
proof -
  have "unat x \<le> 5" using assms by (simp add: word_le_nat_alt)
  then have "unat x = 0 \<or> unat x = 1 \<or> unat x = 2 \<or> unat x = 3 \<or> unat x = 4 \<or> unat x = 5"
    by linarith
  then show ?thesis by (auto simp: word_unat_eq_iff)
qed

lemma Q_MAKE_nibbles [simp]:
  assumes "us \<le> 5" "him \<le> 5"
  shows "Q_US \<lparr>rq_telopt = a, rq_state = Q_MAKE us him\<rparr> = us"
    and "Q_HIM \<lparr>rq_telopt = a, rq_state = Q_MAKE us him\<rparr> = him"
  using le5_cases[OF assms(1)] le5_cases[OF assms(2)]
  by (elim disjE; simp add: Q_US_def Q_HIM_def Q_MAKE_def)+

lemma q_valid_make [simp]: "us \<le> 5 \<Longrightarrow> him \<le> 5 \<Longrightarrow> q_valid \<lparr>rq_telopt = a, rq_state = Q_MAKE us him\<rparr>"
  by (simp add: q_valid_def)

lemma Q_zero [simp]:
  "Q_US \<lparr>rq_telopt = a, rq_state = 0\<rparr> = 0" "Q_HIM \<lparr>rq_telopt = a, rq_state = 0\<rparr> = 0"
  by (simp_all add: Q_US_def Q_HIM_def)

lemma q_valid_zero [simp]: "q_valid \<lparr>rq_telopt = a, rq_state = 0\<rparr>"
  by (simp add: q_valid_def)

lemma get_loop_valid: "list_all q_valid xs \<Longrightarrow> q_valid (get_rfc1143_loop xs p)"
  by (induction xs) auto

lemma set_loop_None: "set_rfc1143_loop xs p st = None \<longleftrightarrow> p \<notin> rq_telopt ` set xs"
  by (induction xs) auto

lemma set_loop_Some:
  assumes "set_rfc1143_loop xs p st = Some ys"
  shows "length ys = length xs"
    and "get_rfc1143_loop ys r = (if r = p then \<lparr>rq_telopt = p, rq_state = st\<rparr> else get_rfc1143_loop xs r)"
    and "rq_telopt ` set ys = rq_telopt ` set xs"
    and "list_all q_valid xs \<Longrightarrow> q_valid \<lparr>rq_telopt = p, rq_state = st\<rparr> \<Longrightarrow> list_all q_valid ys"
proof -
  have "length ys = length xs \<and>
    get_rfc1143_loop ys r = (if r = p then \<lparr>rq_telopt = p, rq_state = st\<rparr> else get_rfc1143_loop xs r) \<and>
    rq_telopt ` set ys = rq_telopt ` set xs \<and>
    (list_all q_valid xs \<longrightarrow> q_valid \<lparr>rq_telopt = p, rq_state = st\<rparr> \<longrightarrow> list_all q_valid ys)"
    using assms
  proof (induction xs arbitrary: ys)
    case (Cons e es)
    show ?case
    proof (cases "rq_telopt e = p")
      case True
      then have "e\<lparr>rq_state := st\<rparr> = \<lparr>rq_telopt = p, rq_state = st\<rparr>" by (cases e) simp
      with True Cons.prems show ?thesis by auto
    next
      case False
      with Cons.prems obtain zs where "set_rfc1143_loop es p st = Some zs" "ys = e # zs" by auto
      with Cons.IH[of zs] False show ?thesis by auto
    qed
  qed simp
  then show "length ys = length xs"
    "get_rfc1143_loop ys r = (if r = p then \<lparr>rq_telopt = p, rq_state = st\<rparr> else get_rfc1143_loop xs r)"
    "rq_telopt ` set ys = rq_telopt ` set xs"
    "list_all q_valid xs \<Longrightarrow> q_valid \<lparr>rq_telopt = p, rq_state = st\<rparr> \<Longrightarrow> list_all q_valid ys"
    by blast+
qed

lemma get_loop_absent:
  "p \<notin> rq_telopt ` set xs \<Longrightarrow> get_rfc1143_loop xs p = \<lparr>rq_telopt = p, rq_state = 0\<rparr>"
  by (induction xs) auto

lemma get_loop_append:
  "get_rfc1143_loop (xs @ ys) p =
     (if p \<in> rq_telopt ` set xs then get_rfc1143_loop xs p else get_rfc1143_loop ys p)"
  by (induction xs) auto

lemma opt_inv_upd [simp]:
  "opt_inv (t\<lparr>ev_log := l\<rparr>) = opt_inv t" "opt_inv (t\<lparr>mem_calls := k\<rparr>) = opt_inv t"
  "opt_inv (t\<lparr>tstate := st\<rparr>) = opt_inv t"
  by (simp_all add: opt_inv_def)

lemma opt_get_upd [simp]:
  "opt_get (t\<lparr>ev_log := l\<rparr>) = opt_get t" "opt_get (t\<lparr>mem_calls := k\<rparr>) = opt_get t"
  "opt_get (t\<lparr>tstate := st\<rparr>) = opt_get t"
  by (simp_all add: fun_eq_iff opt_get_def get_rfc1143_def)

lemma opt_get_valid: "opt_inv t \<Longrightarrow> nibbles (opt_get t p)"
  using get_loop_valid[of "take (unat (q_size t)) (q_tab t)" p]
  by (auto simp: opt_inv_def nibbles_def opt_get_def get_rfc1143_def q_valid_def list_all_iff
      dest: in_set_takeD)

lemma opt_set_found:
  assumes "set_rfc1143_loop (take (unat (q_size t)) (q_tab t)) p (Q_MAKE (fst v) (snd v)) = Some tab"
  shows "opt_set t p v = t\<lparr>q_tab := tab @ drop (unat (q_size t)) (q_tab t)\<rparr>"
  using assms by (simp add: opt_set_def set_rfc1143_def)

lemma opt_set_new:
  assumes "p \<notin> rq_telopt ` set (take (unat (q_size t)) (q_tab t))" "mem t (mem_calls t)"
  shows "opt_set t p v = t\<lparr>q_tab := take (unat (q_size t)) (q_tab t)
            @ \<lparr>rq_telopt = p, rq_state = Q_MAKE (fst v) (snd v)\<rparr>
            # replicate 3 \<lparr>rq_telopt = 0, rq_state = 0\<rparr>,
          q_size := q_size t + 4, mem_calls := mem_calls t + 1\<rparr>"
proof -
  have "set_rfc1143_loop (take (unat (q_size t)) (q_tab t)) p (Q_MAKE (fst v) (snd v)) = None"
    using assms(1) by (simp add: set_loop_None)
  with assms(2) show ?thesis by (simp add: opt_set_def set_rfc1143_def alloc_def Let_def)
qed

lemma opt_set_fail:
  assumes "p \<notin> rq_telopt ` set (take (unat (q_size t)) (q_tab t))" "\<not> mem t (mem_calls t)"
  shows "opt_set t p v = warn ''_set_rfc1143'' TELNET_ENOMEM (Msg ''realloc() failed: %s'')
           (t\<lparr>mem_calls := mem_calls t + 1\<rparr>)"
proof -
  have "set_rfc1143_loop (take (unat (q_size t)) (q_tab t)) p (Q_MAKE (fst v) (snd v)) = None"
    using assms(1) by (simp add: set_loop_None)
  with assms(2) show ?thesis by (simp add: opt_set_def set_rfc1143_def alloc_def Let_def)
qed

lemma opt_set_inv:
  assumes inv: "opt_inv t" and v: "nibbles v"
  shows "opt_inv (opt_set t p v)"
proof (cases "p \<in> rq_telopt ` set (take (unat (q_size t)) (q_tab t))")
  case True
  then obtain tab where tab:
    "set_rfc1143_loop (take (unat (q_size t)) (q_tab t)) p (Q_MAKE (fst v) (snd v)) = Some tab"
    using set_loop_None by (metis option.exhaust)
  have "list_all q_valid (take (unat (q_size t)) (q_tab t))"
    "list_all q_valid (drop (unat (q_size t)) (q_tab t))"
    using inv by (auto simp: opt_inv_def list_all_iff dest: in_set_takeD in_set_dropD)
  with set_loop_Some[OF tab] inv v show ?thesis
    by (simp add: opt_set_found[OF tab] opt_inv_def nibbles_def)
next
  case False
  have tk: "list_all q_valid (take (unat (q_size t)) (q_tab t))"
    using inv by (auto simp: opt_inv_def list_all_iff dest: in_set_takeD)
  have le: "unat (q_size t + 4) \<le> unat (q_size t) + 4"
    by (simp add: unat_word_ariths)
  show ?thesis
  proof (cases "mem t (mem_calls t)")
    case True
    from inv v tk le show ?thesis
      unfolding opt_set_new[OF False True]
      by (auto simp: opt_inv_def nibbles_def list_all_iff min_def)
  next
    case F: False
    with inv show ?thesis
      by (simp add: opt_set_fail[OF False F] telnet_error_def eh_def)
  qed
qed

lemma opt_set_get:
  assumes inv: "opt_inv t" and room: "opt_room t p" and v: "nibbles v"
  shows "opt_get (opt_set t p v) r = (if r = p then v else opt_get t r)"
proof (cases "p \<in> rq_telopt ` set (take (unat (q_size t)) (q_tab t))")
  case True
  then obtain tab where tab:
    "set_rfc1143_loop (take (unat (q_size t)) (q_tab t)) p (Q_MAKE (fst v) (snd v)) = Some tab"
    using set_loop_None by (metis option.exhaust)
  with set_loop_Some(1,2)[OF tab] inv v show ?thesis
    by (simp add: opt_set_found[OF tab] opt_inv_def nibbles_def opt_get_def get_rfc1143_def)
next
  case False
  let ?n = "unat (q_size t)"
  from False room have n: "?n < 252" "mem t (mem_calls t)" by (simp_all add: opt_room_def)
  then have n4: "unat (q_size t + 4) = ?n + 4" by (simp add: unat_word_ariths)
  have len: "length (take ?n (q_tab t)) = ?n" using inv by (simp add: opt_inv_def)
  have "get_rfc1143 (opt_set t p v) r = get_rfc1143_loop (take ?n (q_tab t)
      @ \<lparr>rq_telopt = p, rq_state = Q_MAKE (fst v) (snd v)\<rparr>
      # replicate 3 \<lparr>rq_telopt = 0, rq_state = 0\<rparr>) r"
    unfolding opt_set_new[OF False n(2)] get_rfc1143_def using len by (simp add: n4)
  then show ?thesis
    using False v get_loop_absent[of r "take ?n (q_tab t)"]
    by (auto simp: opt_get_def get_rfc1143_def get_loop_append nibbles_def numeral_3_eq_3)
qed

lemma opt_set_room:
  assumes inv: "opt_inv t" and room: "opt_room t p"
  shows "opt_room (opt_set t p v) p"
proof (cases "p \<in> rq_telopt ` set (take (unat (q_size t)) (q_tab t))")
  case True
  then obtain tab where tab:
    "set_rfc1143_loop (take (unat (q_size t)) (q_tab t)) p (Q_MAKE (fst v) (snd v)) = Some tab"
    using set_loop_None by (metis option.exhaust)
  with set_loop_Some(1,3)[OF tab] inv True show ?thesis
    by (simp add: opt_set_found[OF tab] opt_inv_def opt_room_def)
next
  case False
  let ?n = "unat (q_size t)"
  from False room have n: "?n < 252" "mem t (mem_calls t)" by (simp_all add: opt_room_def)
  then have n4: "unat (q_size t + 4) = ?n + 4" by (simp add: unat_word_ariths)
  have len: "length (take ?n (q_tab t)) = ?n" using inv by (simp add: opt_inv_def)
  then show ?thesis
    unfolding opt_set_new[OF False n(2)] opt_room_def by (simp add: n4)
qed

interpretation otab: option_table opt_get opt_set opt_inv opt_room nibbles
proof (unfold_locales, goal_cases)
  case 1 then show ?case by (rule opt_get_valid)
next
  case 2 then show ?case by (rule opt_set_inv)
next
  case 3 then show ?case by (simp add: opt_set_get)
next
  case 4 then show ?case by (simp add: opt_set_get)
next
  case 5 then show ?case by (intro opt_set_room)
qed

section \<open>Negotiation refines RFC 1143\<close>

text \<open>
  The option states of RFC 1143, section 7; the Boolean is the queue bit (\<open>OPPOSITE\<close>).
  \<open>rfc_recv agree on\<close> is the table for a received positive (\<open>WILL\<close>, \<open>DO\<close>) or
  negative (\<open>WONT\<close>, \<open>DONT\<close>) command, \<open>rfc_ask on\<close> the one for a request of the
  application to enable or disable the option; the second result is the answer to send, positive
  or negative.
\<close>

datatype qstate = NO | YES | WANTNO bool | WANTYES bool

fun rfc_recv :: "bool \<Rightarrow> bool \<Rightarrow> qstate \<Rightarrow> qstate \<times> bool option" where
  "rfc_recv agree True NO = (if agree then (YES, Some True) else (NO, Some False))"
| "rfc_recv agree True YES = (YES, None)"
| "rfc_recv agree True (WANTNO False) = (NO, None)"
| "rfc_recv agree True (WANTNO True) = (YES, None)"
| "rfc_recv agree True (WANTYES False) = (YES, None)"
| "rfc_recv agree True (WANTYES True) = (WANTNO False, Some False)"
| "rfc_recv agree False NO = (NO, None)"
| "rfc_recv agree False YES = (NO, Some False)"
| "rfc_recv agree False (WANTNO False) = (NO, None)"
| "rfc_recv agree False (WANTNO True) = (WANTYES False, Some True)"
| "rfc_recv agree False (WANTYES opp) = (NO, None)"

fun rfc_ask :: "bool \<Rightarrow> qstate \<Rightarrow> qstate \<times> bool option" where
  "rfc_ask True NO = (WANTYES False, Some True)"
| "rfc_ask True YES = (YES, None)"
| "rfc_ask True (WANTNO opp) = (WANTNO True, None)"
| "rfc_ask True (WANTYES opp) = (WANTYES False, None)"
| "rfc_ask False NO = (NO, None)"
| "rfc_ask False YES = (WANTNO False, Some False)"
| "rfc_ask False (WANTNO opp) = (WANTNO False, None)"
| "rfc_ask False (WANTYES opp) = (WANTYES True, None)"

definition qdecode :: "u8 \<Rightarrow> qstate" where
  "qdecode x = (if x = 0 then NO else if x = 1 then YES else if x = 2 then WANTNO False
                else if x = 3 then WANTYES False else if x = 4 then WANTNO True else WANTYES True)"

text \<open>Our side and his side of an option, and the bytes handed to the transport so far.\<close>

definition us_of :: "telnet_t \<Rightarrow> u8 \<Rightarrow> qstate" where
  "us_of t p = qdecode (fst (opt_get t p))"

definition him_of :: "telnet_t \<Rightarrow> u8 \<Rightarrow> qstate" where
  "him_of t p = qdecode (snd (opt_get t p))"

fun ev_sent :: "telnet_event_t \<Rightarrow> bytes" where
  "ev_sent (TELNET_EV_SEND bs) = bs"
| "ev_sent _ = []"

definition sent :: "telnet_t \<Rightarrow> bytes" where
  "sent t = concat (map ev_sent (ev_log t))"

definition answer :: "u8 \<Rightarrow> u8 \<Rightarrow> u8 \<Rightarrow> bool option \<Rightarrow> bytes" where
  "answer p pos neg r =
     (case r of None \<Rightarrow> [] | Some on \<Rightarrow> [TELNET_IAC, if on then pos else neg, p])"

text \<open>What one step may change: the entry of one option and the bytes sent.\<close>

definition opt_effect :: "telnet_t \<Rightarrow> telnet_t \<Rightarrow> u8 \<Rightarrow> qstate \<times> qstate \<Rightarrow> bytes \<Rightarrow> bool" where
  "opt_effect t t' p v out \<longleftrightarrow>
     (us_of t' p, him_of t' p) = v \<and> sent t' = sent t @ out \<and> opt_inv t' \<and>
     (\<forall>r. r \<noteq> p \<longrightarrow> opt_get t' r = opt_get t r)"

lemma sent_upd [simp]: "sent (t\<lparr>mem_calls := k\<rparr>) = sent t" "sent (t\<lparr>tstate := st\<rparr>) = sent t"
  by (simp_all add: sent_def)

lemma opt_eh [simp]:
  "opt_get (eh ev t) = opt_get t" "opt_inv (eh ev t) = opt_inv t"
  "sent (eh ev t) = sent t @ ev_sent ev"
  by (simp_all add: eh_def sent_def)

lemma ev_sent_warn [simp]: "sent (warn f e m t) = sent t"
  "opt_get (warn f e m t) = opt_get t" "opt_inv (warn f e m t) = opt_inv t"
  by (simp_all add: telnet_error_def)

lemma opt_send_negotiate [simp]:
  "opt_get (send_negotiate t c p) = opt_get t" "opt_inv (send_negotiate t c p) = opt_inv t"
  "sent (send_negotiate t c p) = sent t @ [255, c, p]"
  by (simp_all add: send_negotiate_def telnet_send_raw_def)

lemma sent_opt_set:
  "opt_room t p \<Longrightarrow> sent (opt_set t p v) = sent t"
proof (cases "p \<in> rq_telopt ` set (take (unat (q_size t)) (q_tab t))")
  case True
  then obtain tab where tab:
    "set_rfc1143_loop (take (unat (q_size t)) (q_tab t)) p (Q_MAKE (fst v) (snd v)) = Some tab"
    using set_loop_None by (metis option.exhaust)
  then show ?thesis by (simp add: opt_set_found sent_def)
next
  case False
  assume "opt_room t p"
  with False show ?thesis by (simp add: opt_room_def opt_set_new sent_def)
qed

lemma opt_set_effect:
  assumes "opt_inv t" "opt_room t p" "us \<le> 5" "him \<le> 5"
  shows "opt_get (set_rfc1143 t p us him) = (opt_get t)(p := (us, him))"
    and "opt_inv (set_rfc1143 t p us him)" and "sent (set_rfc1143 t p us him) = sent t"
  using otab.set_same[of t p "(us, him)"] otab.set_other[of t p "(us, him)"]
    otab.set_good[of t "(us, him)" p] sent_opt_set[of t p "(us, him)"] assms
  by (auto simp: opt_set_def nibbles_def fun_eq_iff)

lemma opt_nibble_cases:
  assumes "opt_inv t"
  shows "Q_US (get_rfc1143 t p) \<le> 5" "Q_HIM (get_rfc1143 t p) \<le> 5"
  using otab.get_val[OF assms, of p] by (auto simp: nibbles_def opt_get_def)

lemma qdecode_simps [simp]:
  "qdecode 0 = NO" "qdecode 1 = YES" "qdecode 2 = WANTNO False" "qdecode 3 = WANTYES False"
  "qdecode 4 = WANTNO True" "qdecode 5 = WANTYES True"
  by (simp_all add: qdecode_def)

lemmas opt_effect_simps = opt_effect_def us_of_def him_of_def answer_def opt_set_effect

lemma opt_get_us: "Q_US (get_rfc1143 t p) = fst (opt_get t p)"
  and opt_get_him: "Q_HIM (get_rfc1143 t p) = snd (opt_get t p)"
  by (simp_all add: opt_get_def)

lemma negotiate_will_effect:
  assumes "opt_inv t" "opt_room t p"
  defines "r \<equiv> rfc_recv (check_telopt t p False) True (him_of t p)"
  shows "opt_effect t (negotiate_will t p (get_rfc1143 t p)) p (us_of t p, fst r)
           (answer p TELNET_DO TELNET_DONT (snd r))"
  using assms opt_nibble_cases[OF assms(1), of p] le5_cases[OF opt_nibble_cases(2)[OF assms(1)], of p]
  unfolding negotiate_will_def
  by (elim disjE) (simp_all add: opt_effect_simps opt_get_us opt_get_him)

lemma negotiate_wont_effect:
  assumes "opt_inv t" "opt_room t p"
  defines "r \<equiv> rfc_recv (check_telopt t p False) False (him_of t p)"
  shows "opt_effect t (negotiate_wont t p (get_rfc1143 t p)) p (us_of t p, fst r)
           (if him_of t p = WANTNO True then [] else answer p TELNET_DO TELNET_DONT (snd r))"
  using assms opt_nibble_cases[OF assms(1), of p] le5_cases[OF opt_nibble_cases(2)[OF assms(1)], of p]
  unfolding negotiate_wont_def
  by (elim disjE) (simp_all add: opt_effect_simps opt_get_us opt_get_him)

lemma negotiate_do_effect:
  assumes "opt_inv t" "opt_room t p"
  defines "r \<equiv> rfc_recv (check_telopt t p True) True (us_of t p)"
  shows "opt_effect t (negotiate_do t p (get_rfc1143 t p)) p (fst r, him_of t p)
           (answer p TELNET_WILL TELNET_WONT (snd r))"
  using assms opt_nibble_cases[OF assms(1), of p] le5_cases[OF opt_nibble_cases(1)[OF assms(1)], of p]
  unfolding negotiate_do_def
  by (elim disjE) (simp_all add: opt_effect_simps opt_get_us opt_get_him)

lemma negotiate_dont_effect:
  assumes "opt_inv t" "opt_room t p"
  defines "r \<equiv> rfc_recv (check_telopt t p True) False (us_of t p)"
  shows "opt_effect t (negotiate_dont t p (get_rfc1143 t p)) p (fst r, him_of t p)
           (answer p TELNET_WILL TELNET_WONT (snd r))"
  using assms opt_nibble_cases[OF assms(1), of p] le5_cases[OF opt_nibble_cases(1)[OF assms(1)], of p]
  unfolding negotiate_dont_def
  by (elim disjE) (simp_all add: opt_effect_simps opt_get_us opt_get_him)

text \<open>The step of RFC 1143 for a received command, on both sides of the option.\<close>

fun rfc_receive :: "telnet_state_t \<Rightarrow> u8 \<Rightarrow> bool \<Rightarrow> bool \<Rightarrow> qstate \<times> qstate \<Rightarrow> (qstate \<times> qstate) \<times> bytes" where
  "rfc_receive TELNET_STATE_WILL p su sh (us, him) =
     (let r = rfc_recv sh True him in ((us, fst r), answer p TELNET_DO TELNET_DONT (snd r)))"
| "rfc_receive TELNET_STATE_WONT p su sh (us, him) =
     (let r = rfc_recv sh False him in ((us, fst r), answer p TELNET_DO TELNET_DONT (snd r)))"
| "rfc_receive TELNET_STATE_DO p su sh (us, him) =
     (let r = rfc_recv su True us in ((fst r, him), answer p TELNET_WILL TELNET_WONT (snd r)))"
| "rfc_receive TELNET_STATE_DONT p su sh (us, him) =
     (let r = rfc_recv su False us in ((fst r, him), answer p TELNET_WILL TELNET_WONT (snd r)))"
| "rfc_receive _ p su sh v = (v, [])"

fun rfc_request :: "u8 \<Rightarrow> u8 \<Rightarrow> qstate \<times> qstate \<Rightarrow> (qstate \<times> qstate) \<times> bytes" where
  "rfc_request cmd p (us, him) =
     (if cmd = TELNET_WILL \<or> cmd = TELNET_WONT then
        let r = rfc_ask (cmd = TELNET_WILL) us in ((fst r, him), answer p TELNET_WILL TELNET_WONT (snd r))
      else if cmd = TELNET_DO \<or> cmd = TELNET_DONT then
        let r = rfc_ask (cmd = TELNET_DO) him in ((us, fst r), answer p TELNET_DO TELNET_DONT (snd r))
      else ((us, him), []))"

lemma opt_effect_refl: "opt_inv t \<Longrightarrow> opt_effect t t p (us_of t p, him_of t p) []"
  by (simp add: opt_effect_def)

text \<open>
  C7: a received \<open>WILL\<close>, \<open>WONT\<close>, \<open>DO\<close> or \<open>DONT\<close> moves the states of both sides of the option as
  the table of RFC 1143 says, on every branch. The answer sent is exactly the one of the table, with one
  exception: the \<open>DO\<close> that is due on a \<open>WONT\<close> in the state \<open>WANTNO\<close> with a queued request is not sent. The
  table invariant holds again and no other option changes. (A new option needs room in the table or
  memory for it, and proxy mode, in which nothing is negotiated, is off.)
\<close>

theorem negotiate_rfc1143:
  assumes "opt_inv t" "opt_room t p" "flags t AND TELNET_FLAG_PROXY = 0"
  shows "let r = rfc_receive (tstate t) p (check_telopt t p True) (check_telopt t p False)
                   (us_of t p, him_of t p)
         in opt_effect t (negotiate t p) p (fst r)
              (if tstate t = TELNET_STATE_WONT \<and> him_of t p = WANTNO True then [] else snd r)"
  using assms negotiate_will_effect[OF assms(1,2)] negotiate_wont_effect[OF assms(1,2)]
    negotiate_do_effect[OF assms(1,2)] negotiate_dont_effect[OF assms(1,2)]
  by (cases "tstate t") (simp_all add: negotiate_def Let_def opt_effect_refl split: if_splits)

text \<open>An example tracker: it supports \<open>ECHO\<close> on both sides and has just read \<open>IAC WILL\<close>.\<close>

definition sample_telnet :: telnet_t where
  "sample_telnet = \<lparr>telopts = Some [\<lparr>to_telopt = 1, to_us = TELNET_WILL, to_him = TELNET_DO\<rparr>],
     q_tab = [], sb_buf = [], buffer_size = 0, buffer_pos = 0, tstate = TELNET_STATE_WILL,
     flags = 0, sb_telopt = 0, q_size = 0, ev_log = [], mem = (\<lambda>_. True), mem_calls = 0\<rparr>"

theorem negotiate_rfc1143_witness:
  "opt_effect sample_telnet (negotiate sample_telnet 1) 1 (NO, YES) [255, 253, 1]"
proof -
  have v: "us_of sample_telnet 1 = NO" "him_of sample_telnet 1 = NO"
    by (simp_all add: us_of_def him_of_def opt_get_def get_rfc1143_def sample_telnet_def qdecode_def)
  have c: "check_telopt sample_telnet 1 False" by (simp add: check_telopt_def sample_telnet_def)
  show ?thesis
    using negotiate_rfc1143[of sample_telnet 1] v c
    by (simp add: opt_inv_def opt_room_def sample_telnet_def answer_def)
qed

text \<open>
  The branch on which the code departs from RFC 1143. On \<open>WONT\<close> in state
  \<open>WANTNO\<close> with a queued request to enable, the state becomes \<open>WANTYES\<close> as the RFC
  asks, but the \<open>DO\<close> is not sent: the peer never learns of the request, although the tracker
  waits for its answer.
\<close>

theorem negotiate_wont_queued_do_lost:
  assumes "opt_inv t" "opt_room t p" "flags t AND TELNET_FLAG_PROXY = 0"
    and "tstate t = TELNET_STATE_WONT" "him_of t p = WANTNO True"
  shows "him_of (negotiate t p) p = WANTYES False \<and> sent (negotiate t p) = sent t \<and>
         snd (rfc_receive (tstate t) p (check_telopt t p True) (check_telopt t p False)
                (us_of t p, him_of t p)) = [TELNET_IAC, TELNET_DO, p]"
  using assms negotiate_wont_effect[OF assms(1,2)]
  by (simp add: negotiate_def Let_def opt_effect_def answer_def)

theorem negotiate_wont_queued_do_lost_witness:
  "sent (negotiate (sample_telnet\<lparr>tstate := TELNET_STATE_WONT, q_size := 4,
      q_tab := [\<lparr>rq_telopt = 1, rq_state = 0x40\<rparr>, \<lparr>rq_telopt = 0, rq_state = 0\<rparr>,
                \<lparr>rq_telopt = 0, rq_state = 0\<rparr>, \<lparr>rq_telopt = 0, rq_state = 0\<rparr>]\<rparr>) 1) = []"
  (is "sent (negotiate ?t 1) = []")
proof -
  have "opt_inv ?t" "opt_room ?t 1" "flags ?t AND 1 = 0" "tstate ?t = TELNET_STATE_WONT" "sent ?t = []"
    "him_of ?t 1 = WANTNO True"
    by (simp_all add: opt_inv_def opt_room_def sample_telnet_def q_valid_def Q_US_def Q_HIM_def
        sent_def him_of_def opt_get_def get_rfc1143_def qdecode_def)
  with negotiate_wont_queued_do_lost[of ?t 1] show ?thesis by simp
qed

text \<open>
  A request of the application (\<open>telnet_negotiate\<close>) is handled by the request tables of
  RFC 1143 on every branch.
\<close>

theorem telnet_negotiate_rfc1143:
  assumes "opt_inv t" "opt_room t p" "flags t AND TELNET_FLAG_PROXY = 0"
  shows "let r = rfc_request cmd p (us_of t p, him_of t p)
         in opt_effect t (telnet_negotiate t cmd p) p (fst r) (snd r)"
proof -
  note nib = opt_nibble_cases[OF assms(1), of p, unfolded opt_get_us opt_get_him]
  note unf = telnet_negotiate_def rfc_request.simps Let_def opt_get_us opt_get_him
  consider "cmd = TELNET_WILL" | "cmd = TELNET_WONT" | "cmd = TELNET_DO" | "cmd = TELNET_DONT"
    | "cmd \<notin> {TELNET_WILL, TELNET_WONT, TELNET_DO, TELNET_DONT}" by blast
  then show ?thesis
  proof cases
    case 1
    with assms nib le5_cases[OF nib(1)] show ?thesis
      unfolding unf by (elim disjE) (simp_all add: opt_effect_simps)
  next
    case 2
    with assms nib le5_cases[OF nib(1)] show ?thesis
      unfolding unf by (elim disjE) (simp_all add: opt_effect_simps)
  next
    case 3
    with assms nib le5_cases[OF nib(2)] show ?thesis
      unfolding unf by (elim disjE) (simp_all add: opt_effect_simps)
  next
    case 4
    with assms nib le5_cases[OF nib(2)] show ?thesis
      unfolding unf by (elim disjE) (simp_all add: opt_effect_simps)
  next
    case 5
    with assms show ?thesis unfolding unf by (simp add: opt_effect_refl)
  qed
qed

theorem telnet_negotiate_rfc1143_witness:
  "opt_effect sample_telnet (telnet_negotiate sample_telnet TELNET_DO 1) 1 (NO, WANTYES False) [255, 253, 1]"
proof -
  have v: "us_of sample_telnet 1 = NO" "him_of sample_telnet 1 = NO"
    by (simp_all add: us_of_def him_of_def opt_get_def get_rfc1143_def sample_telnet_def)
  show ?thesis
    using telnet_negotiate_rfc1143[of sample_telnet 1 TELNET_DO] v
    by (simp add: opt_inv_def opt_room_def sample_telnet_def answer_def)
qed

text \<open>
  The table's size is an \<open>unsigned char\<close> and each new option takes four entries, so that
  storing the 64th option wraps it to 0: from then on every option, the one just stored
  included, reads as \<open>NO\<close> on both sides.
\<close>

theorem set_rfc1143_wraps:
  assumes "q_size t = 252" "p \<notin> rq_telopt ` set (take 252 (q_tab t))" "mem t (mem_calls t)"
  shows "q_size (set_rfc1143 t p us him) = 0 \<and>
         (\<forall>r. us_of (set_rfc1143 t p us him) r = NO \<and> him_of (set_rfc1143 t p us him) r = NO)"
proof -
  have "p \<notin> rq_telopt ` set (take (unat (q_size t)) (q_tab t))" using assms by simp
  from opt_set_new[OF this assms(3), of "(us, him)"] assms(1)
  have "q_size (set_rfc1143 t p us him) = 0" by (simp add: opt_set_def)
  then show ?thesis by (simp add: us_of_def him_of_def opt_get_def get_rfc1143_def)
qed

theorem set_rfc1143_wraps_witness:
  "let t = sample_telnet\<lparr>q_size := 252, q_tab := replicate 252 \<lparr>rq_telopt = 1, rq_state = 0x11\<rparr>\<rparr>
   in us_of t 1 = YES \<and> us_of (set_rfc1143 t 2 Q_YES Q_NO) 1 = NO"
proof -
  let ?e = "\<lparr>rq_telopt = 1, rq_state = 0x11\<rparr> :: telnet_rfc1143_t"
  let ?t = "sample_telnet\<lparr>q_size := 252, q_tab := replicate 252 ?e\<rparr>"
  have "replicate 252 ?e = ?e # replicate 251 ?e" by (simp flip: replicate_Suc)
  then have "us_of ?t 1 = YES"
    by (simp add: us_of_def opt_get_def get_rfc1143_def Q_US_def)
  moreover have "us_of (set_rfc1143 ?t 2 Q_YES Q_NO) 1 = NO"
    using set_rfc1143_wraps[of ?t 2 Q_YES Q_NO] by (simp add: sample_telnet_def)
  ultimately show ?thesis by (simp add: Let_def)
qed

end
