(* ===== verification/Telnet_Subneg.thy ===== *)
theory Telnet_Subneg
  imports Telnet_Option
begin

text \<open>
  \<open>src/Software/lib/libtelnet/libtelnet.c\<close>, second part: decoding of received
  subnegotiations (ENVIRON, MSSP, ZMP, TERMINAL-TYPE). The decoders of ENVIRON and MSSP
  work in place: they copy the unescaped bytes to the front of the buffer they are reading and
  report pointers into it. The model does the same: \<open>out\<close> and \<open>c\<close> are positions in the
  buffer, a reported string is an offset, and the bytes the handler sees are read from the
  final buffer. Here the results are proved equal to a decoder that builds separate strings.
\<close>

section \<open>ENVIRON and NEW-ENVIRON\<close>

abbreviation (input) ENVIRON_VAR :: u8 where "ENVIRON_VAR \<equiv> 0"
abbreviation (input) ENVIRON_VALUE :: u8 where "ENVIRON_VALUE \<equiv> 1"
abbreviation (input) ENVIRON_ESC :: u8 where "ENVIRON_ESC \<equiv> 2"
abbreviation (input) ENVIRON_USERVAR :: u8 where "ENVIRON_USERVAR \<equiv> 3"

text \<open>The C string at an offset of a buffer.\<close>

definition cstr_from :: "bytes \<Rightarrow> nat \<Rightarrow> bytes" where
  "cstr_from buf off = cstr_of (drop off buf)"

text \<open>The counting loop.\<close>

fun environ_count :: "bytes \<Rightarrow> nat" where
  "environ_count [] = 0"
| "environ_count (x # xs) =
     (if x = ENVIRON_VAR \<or> x = ENVIRON_USERVAR then Suc (environ_count xs)
      else if x = ENVIRON_ESC then environ_count (tl xs)
      else environ_count xs)"

text \<open>
  One of the two inner \<open>while\<close> loops: copy unescaped bytes from \<open>c\<close> to \<open>out\<close> until
  a byte for which \<open>stop\<close> holds or the end. The result is the buffer and the two positions.
\<close>

function environ_copy :: "(u8 \<Rightarrow> bool) \<Rightarrow> nat \<Rightarrow> bytes \<Rightarrow> nat \<Rightarrow> nat \<Rightarrow> bytes \<times> nat \<times> nat" where
  "environ_copy stop sz buf c out =
     (if c < sz then
        if stop (buf ! c) then (buf, c, out)
        else
          let c = (if buf ! c = ENVIRON_ESC then c + 1 else c)
          in environ_copy stop sz (buf[out := buf ! c]) (c + 1) (out + 1)
      else (buf, c, out))"
  by pat_completeness auto
termination by (relation "measure (\<lambda>(_, sz, _, c, _). sz - c)") auto

declare environ_copy.simps [simp del]

definition stop_var :: "u8 \<Rightarrow> bool" where
  "stop_var x \<longleftrightarrow> x = ENVIRON_VAR \<or> x = ENVIRON_VALUE \<or> x = ENVIRON_USERVAR"

definition stop_value :: "u8 \<Rightarrow> bool" where
  "stop_value x \<longleftrightarrow> x = ENVIRON_VAR \<or> x = ENVIRON_USERVAR"

text \<open>
  The loop over the counted entries. An entry is its type and the offsets of its name and,
  if it has one, its value; without a value the string is the literal \<open>""\<close>.
\<close>

fun environ_parse :: "nat \<Rightarrow> nat \<Rightarrow> bytes \<Rightarrow> nat \<Rightarrow> nat \<Rightarrow> bytes \<times> (u8 \<times> nat \<times> nat option) list" where
  "environ_parse 0 sz buf c out = (buf, [])"
| "environ_parse (Suc k) sz buf c out =
     (let ty = buf ! c; c = c + 1; lst = out;
          (buf, c, out) = environ_copy stop_var sz buf c out;
          buf = buf[out := 0]; out = out + 1
      in if c < sz \<and> buf ! c = ENVIRON_VALUE then
           let c = c + 1; vlast = out;
               (buf, c, out) = environ_copy stop_value sz buf c out;
               buf = buf[out := 0]; out = out + 1;
               (buf, vs) = environ_parse k sz buf c out
           in (buf, (ty, lst, Some vlast) # vs)
         else
           let (buf, vs) = environ_parse k sz buf c out
           in (buf, (ty, lst, None) # vs))"

definition environ_value :: "bytes \<Rightarrow> u8 \<times> nat \<times> nat option \<Rightarrow> telnet_environ_t" where
  "environ_value buf e =
     (case e of (ty, var, val) \<Rightarrow>
        \<lparr>env_type = ty, env_var = Some (cstr_from buf var),
         env_value = Some (case val of None \<Rightarrow> [] | Some off \<Rightarrow> cstr_from buf off)\<rparr>)"

text \<open>
  The functions that decode a subnegotiation return the C result (nonzero: stop processing the
  current input) and the tracker. \<open>buffer\<close> is \<open>telnet->buffer\<close>.
\<close>

definition environ_telnet :: "telnet_t \<Rightarrow> u8 \<Rightarrow> nat \<Rightarrow> int \<times> telnet_t" where
  "environ_telnet t type sz =
     (let buf = sb_buf t in
      if sz = 0 then (0, t)
      else if buf ! 0 \<notin> {1, 0, 2} then
        (0, warn ''_environ_telnet'' TELNET_EPROTOCOL (MsgD ''telopt %d subneg has invalid command'' type) t)
      else if sz = 1 then (1, eh (TELNET_EV_ENVIRON (buf ! 0) []) t)
      else if buf ! 1 \<noteq> ENVIRON_VAR \<and> buf ! 1 \<noteq> ENVIRON_USERVAR then
        (0, warn ''_environ_telnet'' TELNET_EPROTOCOL (MsgD ''telopt %d subneg missing variable type'' type) t)
      else if buf ! (sz - 1) = ENVIRON_ESC then
        (0, warn ''_environ_telnet'' TELNET_EPROTOCOL (MsgD ''telopt %d subneg ends with ESC'' type) t)
      else
        let count = environ_count (drop 1 (take sz buf)) in
        (case alloc t of
           (False, t) \<Rightarrow> (0, warn ''_environ_telnet'' TELNET_ENOMEM (Msg ''calloc() failed: %s'') t)
         | (True, t) \<Rightarrow>
             let (buf', vs) = environ_parse count sz buf 1 0
             in (1, eh (TELNET_EV_ENVIRON (buf ! 0) (map (environ_value buf') vs)) (t\<lparr>sb_buf := buf'\<rparr>))))"

section \<open>MSSP\<close>

abbreviation (input) MSSP_VAR :: u8 where "MSSP_VAR \<equiv> 1"
abbreviation (input) MSSP_VAL :: u8 where "MSSP_VAL \<equiv> 2"

function mssp_copy :: "nat \<Rightarrow> bytes \<Rightarrow> nat \<Rightarrow> nat \<Rightarrow> bytes \<times> nat \<times> nat" where
  "mssp_copy sz buf c out =
     (if c < sz \<and> buf ! c \<noteq> MSSP_VAR \<and> buf ! c \<noteq> MSSP_VAL
      then mssp_copy sz (buf[out := buf ! c]) (c + 1) (out + 1)
      else (buf, c, out))"
  by pat_completeness auto
termination by (relation "measure (\<lambda>(sz, _, c, _). sz - c)") auto

declare mssp_copy.simps [simp del]

lemma mssp_copy_ge: "mssp_copy sz buf c out = (buf', c', out') \<Longrightarrow> c \<le> c'"
  by (induction sz buf c out rule: mssp_copy.induct)
     (subst (asm) (2) mssp_copy.simps, fastforce split: if_splits)

text \<open>
  The main loop: \<open>var\<close> is the last name (\<open>None\<close>: null), \<open>vals\<close> the stored pairs in
  order. The byte read for \<open>next_type\<close> after the last string lies one past the data and is
  not used; \<open>None\<close> as the result is the error return.
\<close>

function mssp_loop :: "nat \<Rightarrow> bytes \<Rightarrow> nat \<Rightarrow> nat \<Rightarrow> nat \<Rightarrow> u8 \<Rightarrow> nat option \<Rightarrow> (nat \<times> nat) list
    \<Rightarrow> bytes \<times> (nat \<times> nat) list option" where
  "mssp_loop sz buf c out lst next_type var vals =
     (if c < sz then
        let (buf, c', out) = mssp_copy sz buf c out;
            buf = buf[out := 0]; out = out + 1
        in if next_type = MSSP_VAR then
             mssp_loop sz buf (c' + 1) out out (cstr_at buf c') (Some lst) vals
           else if next_type = MSSP_VAL \<and> var \<noteq> None then
             mssp_loop sz buf (c' + 1) out out (cstr_at buf c') var (vals @ [(the var, lst)])
           else (buf, None)
      else (buf, Some vals))"
  by pat_completeness auto
termination
  by (relation "measure (\<lambda>(sz, _, c, _). sz - c)")
     (auto dest!: mssp_copy_ge[OF sym])

declare mssp_loop.simps [simp del]

definition mssp_value :: "bytes \<Rightarrow> nat \<times> nat \<Rightarrow> telnet_environ_t" where
  "mssp_value buf e = \<lparr>env_type = 0, env_var = Some (cstr_from buf (fst e)),
                       env_value = Some (cstr_from buf (snd e))\<rparr>"

text \<open>The array from \<open>calloc\<close> has one entry per VAL byte; entries not filled are null.\<close>

definition mssp_telnet :: "telnet_t \<Rightarrow> nat \<Rightarrow> int \<times> telnet_t" where
  "mssp_telnet t sz =
     (let buf = sb_buf t in
      if sz = 0 then (0, t)
      else if buf ! 0 \<noteq> MSSP_VAR then
        (0, warn ''_mssp_telnet'' TELNET_EPROTOCOL (Msg ''MSSP subnegotiation has invalid data'') t)
      else
        let count = length (filter (\<lambda>x. x = MSSP_VAL) (take sz buf)) in
        (case alloc t of
           (False, t) \<Rightarrow> (0, warn ''_mssp_telnet'' TELNET_ENOMEM (Msg ''calloc() failed: %s'') t)
         | (True, t) \<Rightarrow>
             (case mssp_loop sz buf 1 0 0 (buf ! 0) None [] of
                (buf', None) \<Rightarrow>
                  (0, warn ''_mssp_telnet'' TELNET_EPROTOCOL (Msg ''invalid MSSP subnegotiation data'')
                        (t\<lparr>sb_buf := buf'\<rparr>))
              | (buf', Some vals) \<Rightarrow>
                  (0, eh (TELNET_EV_MSSP (map (mssp_value buf') vals
                            @ replicate (count - length vals)
                                \<lparr>env_type = 0, env_var = None, env_value = None\<rparr>))
                        (t\<lparr>sb_buf := buf'\<rparr>)))))"

section \<open>ZMP and TERMINAL-TYPE\<close>

function zmp_args :: "bytes \<Rightarrow> bytes list" where
  "zmp_args [] = []"
| "zmp_args (x # xs) = cstr_of (x # xs) # zmp_args (drop (length (cstr_of (x # xs)) + 1) (x # xs))"
  by pat_completeness auto
termination by (relation "measure length") auto

definition zmp_telnet :: "telnet_t \<Rightarrow> nat \<Rightarrow> int \<times> telnet_t" where
  "zmp_telnet t sz =
     (let buf = sb_buf t in
      if sz = 0 \<or> buf ! (sz - 1) \<noteq> 0 then
        (0, warn ''_zmp_telnet'' TELNET_EPROTOCOL (Msg ''incomplete ZMP frame'') t)
      else
        (case alloc t of
           (False, t) \<Rightarrow> (0, warn ''_zmp_telnet'' TELNET_ENOMEM (Msg ''calloc() failed: %s'') t)
         | (True, t) \<Rightarrow> (0, eh (TELNET_EV_ZMP (zmp_args (take sz buf))) t)))"

definition ttype_telnet :: "telnet_t \<Rightarrow> nat \<Rightarrow> int \<times> telnet_t" where
  "ttype_telnet t sz =
     (let buf = sb_buf t in
      if sz = 0 then
        (0, warn ''_ttype_telnet'' TELNET_EPROTOCOL (Msg ''incomplete TERMINAL-TYPE request'') t)
      else if buf ! 0 \<noteq> 0 \<and> buf ! 0 \<noteq> 1 then
        (0, warn ''_ttype_telnet'' TELNET_EPROTOCOL (Msg ''TERMINAL-TYPE request has invalid type'') t)
      else if buf ! 0 = 0 then
        (case alloc t of
           (False, t) \<Rightarrow> (0, warn ''_ttype_telnet'' TELNET_ENOMEM (Msg ''malloc() failed: %s'') t)
         | (True, t) \<Rightarrow>
             (0, eh (TELNET_EV_TTYPE 0 (Some (cstr_of (take (sz - 1) (drop 1 buf) @ [0])))) t))
      else (0, eh (TELNET_EV_TTYPE 1 None) t))"

section \<open>Dispatch\<close>

definition subnegotiate :: "telnet_t \<Rightarrow> int \<times> telnet_t" where
  "subnegotiate t =
     (let t = eh (TELNET_EV_SUBNEGOTIATION (sb_telopt t) (take (buffer_pos t) (sb_buf t))) t in
      if sb_telopt t = TELNET_TELOPT_ZMP then zmp_telnet t (buffer_pos t)
      else if sb_telopt t = TELNET_TELOPT_TTYPE then ttype_telnet t (buffer_pos t)
      else if sb_telopt t = TELNET_TELOPT_ENVIRON \<or> sb_telopt t = TELNET_TELOPT_NEW_ENVIRON
      then environ_telnet t (sb_telopt t) (buffer_pos t)
      else if sb_telopt t = TELNET_TELOPT_MSSP then mssp_telnet t (buffer_pos t)
      else (0, t))"

section \<open>In-place decoding of ENVIRON\<close>

text \<open>
  The reference: unescape to a separate string up to a delimiter; the second result is the
  rest of the input.
\<close>

fun unesc :: "(u8 \<Rightarrow> bool) \<Rightarrow> bytes \<Rightarrow> bytes \<times> bytes" where
  "unesc stop [] = ([], [])"
| "unesc stop (x # xs) =
     (if stop x then ([], x # xs)
      else if x = ENVIRON_ESC then
        (case xs of [] \<Rightarrow> ([], []) | y # ys \<Rightarrow> (let (s, r) = unesc stop ys in (y # s, r)))
      else (let (s, r) = unesc stop xs in (x # s, r)))"

lemma unesc_shorter: "unesc stop xs = (s, r) \<Longrightarrow> length r \<le> length xs"
  by (induction stop xs arbitrary: s r rule: unesc.induct)
     (fastforce split: if_splits list.splits prod.splits)+

function environ_ref :: "bytes \<Rightarrow> (u8 \<times> bytes \<times> bytes) list" where
  "environ_ref [] = []"
| "environ_ref (ty # xs) =
     (let (name, r) = unesc stop_var xs in
      case r of
        x # r' \<Rightarrow>
          if x = ENVIRON_VALUE then
            let (val, r'') = unesc stop_value r' in (ty, name, val) # environ_ref r''
          else (ty, name, []) # environ_ref r
      | [] \<Rightarrow> [(ty, name, [])])"
  by pat_completeness auto
termination
  by (relation "measure length")
     (auto dest!: unesc_shorter[OF sym])

lemma unesc_stop: "unesc stop xs = (s, r) \<Longrightarrow> r = [] \<or> stop (hd r)"
  by (induction stop xs arbitrary: s r rule: unesc.induct)
     (fastforce split: if_splits list.splits prod.splits)+

text \<open>An input that does not end in ESC keeps that when a decoded prefix is removed.\<close>

definition no_esc_end :: "bytes \<Rightarrow> bool" where
  "no_esc_end xs \<longleftrightarrow> xs = [] \<or> last xs \<noteq> ENVIRON_ESC"

lemma no_esc_end_unesc: "unesc stop xs = (s, r) \<Longrightarrow> no_esc_end xs \<Longrightarrow> no_esc_end r"
  by (induction stop xs arbitrary: s r rule: unesc.induct)
     (fastforce simp: no_esc_end_def split: if_splits list.splits prod.splits)+

lemma no_esc_end_tl: "no_esc_end (x # xs) \<Longrightarrow> no_esc_end xs"
  by (auto simp: no_esc_end_def)

lemma environ_count_unesc:
  "unesc stop xs = (s, r) \<Longrightarrow> stop 0 \<Longrightarrow> stop 3 \<Longrightarrow> environ_count xs = environ_count r"
  by (induction stop xs arbitrary: s r rule: unesc.induct)
     (auto split: if_splits list.splits prod.splits)

text \<open>
  A buffer during decoding: the strings written so far, bytes already read and not yet
  overwritten, the input still to read, and the memory behind it.
\<close>

lemma environ_copy_ref:
  assumes "unesc stop X = (s, r)" "no_esc_end X" "J \<noteq> []"
    and "sz = length (A @ J @ X)"
  shows "\<exists>J'. environ_copy stop sz (A @ J @ X @ T) (length (A @ J)) (length A) =
               (A @ s @ J' @ r @ T, length (A @ s @ J'), length (A @ s)) \<and> length J \<le> length J' \<and>
             sz = length (A @ s @ J' @ r)"
  using assms
proof (induction stop X arbitrary: s r A J rule: unesc.induct)
  case (1 stop)
  then show ?case by (subst environ_copy.simps) auto
next
  case (2 stop x xs)
  have at: "(A @ J @ (x # xs) @ T) ! length (A @ J) = x" by (simp add: nth_append)
  from \<open>J \<noteq> []\<close> obtain j J0 where J: "J = j # J0" by (cases J) auto
  show ?case
  proof (cases "stop x")
    case True
    with 2 at show ?thesis by (subst environ_copy.simps) auto
  next
    case ns: False
    show ?thesis
    proof (cases "x = ENVIRON_ESC")
      case True
      with 2(4) obtain y ys where xs: "xs = y # ys" by (cases xs) (auto simp: no_esc_end_def)
      from 2(3) ns True xs obtain s' where s': "unesc stop ys = (s', r)" "s = y # s'"
        by (auto split: prod.splits)
      have ne: "no_esc_end ys" using 2(4) xs by (auto simp: no_esc_end_def)
      have "environ_copy stop sz (A @ J @ (x # xs) @ T) (length (A @ J)) (length A) =
          environ_copy stop sz ((A @ [y]) @ (J0 @ [x, y]) @ ys @ T)
            (length ((A @ [y]) @ (J0 @ [x, y]))) (length (A @ [y]))"
        using ns True xs 2(6) at
        by (subst environ_copy.simps) (simp add: J nth_append Let_def)
      also obtain J' where "\<dots> = ((A @ [y]) @ s' @ J' @ r @ T, length ((A @ [y]) @ s' @ J'), length ((A @ [y]) @ s'))"
        "length (J0 @ [x, y]) \<le> length J'" "sz = length ((A @ [y]) @ s' @ J' @ r)"
        using 2(1)[OF ns True xs s'(1) ne, of "J0 @ [x, y]" "A @ [y]"] 2(6) xs J by auto
      ultimately show ?thesis using s'(2) J by (intro exI[of _ J']) simp
    next
      case False
      from 2(3) ns False obtain s' where s': "unesc stop xs = (s', r)" "s = x # s'"
        by (auto split: prod.splits)
      have ne: "no_esc_end xs" using 2(4) by (rule no_esc_end_tl)
      have "environ_copy stop sz (A @ J @ (x # xs) @ T) (length (A @ J)) (length A) =
          environ_copy stop sz ((A @ [x]) @ (J0 @ [x]) @ xs @ T)
            (length ((A @ [x]) @ (J0 @ [x]))) (length (A @ [x]))"
        using ns False 2(6) at by (subst environ_copy.simps) (simp add: J nth_append Let_def)
      also obtain J' where "\<dots> = ((A @ [x]) @ s' @ J' @ r @ T, length ((A @ [x]) @ s' @ J'), length ((A @ [x]) @ s'))"
        "length (J0 @ [x]) \<le> length J'" "sz = length ((A @ [x]) @ s' @ J' @ r)"
        using 2(2)[OF ns False s'(1) ne, of "J0 @ [x]" "A @ [x]"] 2(6) J by auto
      ultimately show ?thesis using s'(2) J by (intro exI[of _ J']) simp
    qed
  qed
qed

lemma cstr_of_append_nul: "cstr_of (s @ 0 # r) = cstr_of s"
  by (induction s) (auto simp: cstr_of_def)

definition environ_out :: "u8 \<times> bytes \<times> bytes \<Rightarrow> telnet_environ_t" where
  "environ_out e = (case e of (ty, name, val) \<Rightarrow>
     \<lparr>env_type = ty, env_var = Some (cstr_of name), env_value = Some (cstr_of val)\<rparr>)"

definition starts_var :: "bytes \<Rightarrow> bool" where
  "starts_var xs \<longleftrightarrow> xs = [] \<or> hd xs = ENVIRON_VAR \<or> hd xs = ENVIRON_USERVAR"

lemma cstr_of_Nil [simp]: "cstr_of [] = []"
  by (simp add: cstr_of_def)

text \<open>Terminating the string just written, when at least one read byte precedes the input.\<close>

lemma write_nul:
  assumes "J \<noteq> []"
  shows "(A @ s @ J @ R)[length (A @ s) := 0] = (A @ s @ [0]) @ tl J @ R"
  using assms by (cases J) (simp_all add: list_update_append)

lemma environ_parse_ref:
  assumes "starts_var X" "no_esc_end X" "J \<noteq> []" "sz = length (A @ J @ X)"
  shows "\<exists>B vs. environ_parse (environ_count X) sz (A @ J @ X @ T) (length (A @ J)) (length A) = (A @ B, vs)
           \<and> map (environ_value (A @ B)) vs = map environ_out (environ_ref X)"
  using assms
proof (induction X arbitrary: A J rule: environ_ref.induct)
  case 1
  then show ?case by (auto intro!: exI[of _ "J @ T"])
next
  case (2 ty xs)
  obtain name r where u: "unesc stop_var xs = (name, r)" by fastforce
  have ty: "ty = 0 \<or> ty = 3" using "2.prems"(1) by (simp add: starts_var_def)
  have ne: "no_esc_end xs" "no_esc_end r" using "2.prems"(2) u by (auto dest: no_esc_end_tl no_esc_end_unesc)
  have cnt: "environ_count (ty # xs) = Suc (environ_count r)"
    using ty environ_count_unesc[OF u] by (auto simp: stop_var_def)
  let ?J = "J @ [ty]"
  obtain J1 where c1: "environ_copy stop_var sz (A @ ?J @ xs @ T) (length (A @ ?J)) (length A) =
      (A @ name @ J1 @ r @ T, length (A @ name @ J1), length (A @ name))" "length ?J \<le> length J1"
    "sz = length (A @ name @ J1 @ r)"
    using environ_copy_ref[OF u ne(1), of ?J sz A T] "2.prems"(4) by auto
  then have c1': "environ_copy stop_var sz (A @ J @ (ty # xs) @ T) (length (A @ J) + 1) (length A) =
      (A @ name @ J1 @ r @ T, length (A @ name @ J1), length (A @ name))" by simp
  have J1: "J1 \<noteq> []" "tl J1 \<noteq> []" using c1(2) "2.prems"(3) by (cases J1; cases J; auto)+
  let ?A1 = "A @ name @ [0]"
  have buf1: "(A @ name @ J1 @ r @ T)[length (A @ name) := 0] = ?A1 @ tl J1 @ r @ T"
    using write_nul[OF J1(1)] by simp
  have pos1: "length (A @ name @ J1) = length (?A1 @ tl J1)" "length (A @ name) + 1 = length ?A1"
    using J1 by (cases J1; simp)+
  have szr: "sz = length (?A1 @ tl J1 @ r)" using c1(3) J1 by (cases J1) simp_all
  have at: "(A @ J @ (ty # xs) @ T) ! length (A @ J) = ty" by (simp add: nth_append)
  have parse: "environ_parse (environ_count (ty # xs)) sz (A @ J @ (ty # xs) @ T) (length (A @ J)) (length A) =
      (let buf = ?A1 @ tl J1 @ r @ T; c = length (?A1 @ tl J1); out = length ?A1 in
       if c < sz \<and> buf ! c = ENVIRON_VALUE then
           let c = c + 1; vlast = out;
               (buf, c, out) = environ_copy stop_value sz buf c out;
               buf = buf[out := 0]; out = out + 1;
               (buf, vs) = environ_parse (environ_count r) sz buf c out
           in (buf, (ty, length A, Some vlast) # vs)
         else
           let (buf, vs) = environ_parse (environ_count r) sz buf c out
           in (buf, (ty, length A, None) # vs))"
    unfolding cnt environ_parse.simps Let_def at c1' prod.case buf1 pos1 ..
  show ?case
  proof (cases "r \<noteq> [] \<and> hd r = ENVIRON_VALUE")
    case True
    then obtain r' where r: "r = ENVIRON_VALUE # r'" by (cases r) auto
    obtain val r'' where v: "unesc stop_value r' = (val, r'')" by fastforce
    have ne': "no_esc_end r'" "no_esc_end r''" using ne(2) v r by (auto dest: no_esc_end_tl no_esc_end_unesc)
    have sv: "starts_var r''" using unesc_stop[OF v] by (auto simp: starts_var_def stop_value_def)
    have cnt': "environ_count r = environ_count r''"
      using environ_count_unesc[OF v] by (simp add: r stop_value_def)
    let ?J2 = "tl J1 @ [ENVIRON_VALUE]"
    obtain J3 where c2: "environ_copy stop_value sz (?A1 @ tl J1 @ r @ T) (length (?A1 @ tl J1) + 1) (length ?A1) =
        (?A1 @ val @ J3 @ r'' @ T, length (?A1 @ val @ J3), length (?A1 @ val))" "length ?J2 \<le> length J3"
      "sz = length (?A1 @ val @ J3 @ r'')"
      using environ_copy_ref[OF v ne'(1), of ?J2 sz ?A1 T] szr r by auto
    have J3: "J3 \<noteq> []" "tl J3 \<noteq> []" using c2(2) J1(2) by (cases J3; cases "tl J1"; auto)+
    let ?A2 = "?A1 @ val @ [0]"
    have buf2: "(?A1 @ val @ J3 @ r'' @ T)[length (?A1 @ val) := 0] = ?A2 @ tl J3 @ r'' @ T"
      using write_nul[OF J3(1), of ?A1 val] by simp
    have pos2: "length (?A1 @ val @ J3) = length (?A2 @ tl J3)" "length (?A1 @ val) + 1 = length ?A2"
      using J3 by (cases J3; simp)+
    have szr2: "sz = length (?A2 @ tl J3 @ r'')" using c2(3) J3 by (cases J3) simp_all
    have cond: "length (?A1 @ tl J1) < sz \<and> (?A1 @ tl J1 @ r @ T) ! length (?A1 @ tl J1) = ENVIRON_VALUE"
      using szr r by (simp add: nth_append)
    from "2.IH"(1)[OF u[symmetric] refl r refl v[symmetric] refl sv ne'(2) J3(2) szr2]
    obtain B vs where IH: "environ_parse (environ_count r'') sz (?A2 @ tl J3 @ r'' @ T) (length (?A2 @ tl J3)) (length ?A2)
        = (?A2 @ B, vs)" "map (environ_value (?A2 @ B)) vs = map environ_out (environ_ref r'')"
      by auto
    have "environ_parse (environ_count (ty # xs)) sz (A @ J @ (ty # xs) @ T) (length (A @ J)) (length A) =
        (?A2 @ B, (ty, length A, Some (length ?A1)) # vs)"
      unfolding parse Let_def if_P[OF cond] c2(1) prod.case buf2 pos2 cnt' IH(1) ..
    moreover have "environ_ref (ty # xs) = (ty, name, val) # environ_ref r''"
      by (simp add: u r v)
    moreover have "environ_value (?A2 @ B) (ty, length A, Some (length ?A1)) = environ_out (ty, name, val)"
      by (simp add: environ_value_def environ_out_def cstr_from_def cstr_of_append_nul)
    ultimately show ?thesis using IH(2) by (intro exI[of _ "name @ 0 # val @ 0 # B"] exI) auto
  next
    case False
    then have cond: "\<not> (length (?A1 @ tl J1) < sz \<and> (?A1 @ tl J1 @ r @ T) ! length (?A1 @ tl J1) = ENVIRON_VALUE)"
      using szr by (cases r) (auto simp: nth_append)
    have sv: "starts_var r" using unesc_stop[OF u] False by (auto simp: starts_var_def stop_var_def)
    have ref: "environ_ref (ty # xs) = (ty, name, []) # environ_ref r"
      using False by (cases r) (auto simp: u)
    obtain B vs where IH: "environ_parse (environ_count r) sz (?A1 @ tl J1 @ r @ T) (length (?A1 @ tl J1)) (length ?A1)
        = (?A1 @ B, vs)" "map (environ_value (?A1 @ B)) vs = map environ_out (environ_ref r)"
    proof (cases r)
      case Nil
      with that show ?thesis by (auto simp: append_assoc intro!: that[of "tl J1 @ T" "[]"])
    next
      case (Cons x r')
      with False have "x \<noteq> ENVIRON_VALUE" by simp
      from "2.IH"(2)[OF u[symmetric] refl Cons this] sv ne(2) J1(2) szr Cons
      obtain B vs where "environ_parse (environ_count r) sz (?A1 @ tl J1 @ r @ T) (length (?A1 @ tl J1)) (length ?A1)
        = (?A1 @ B, vs)" "map (environ_value (?A1 @ B)) vs = map environ_out (environ_ref r)" by blast
      then show ?thesis by (rule that)
    qed
    have "environ_parse (environ_count (ty # xs)) sz (A @ J @ (ty # xs) @ T) (length (A @ J)) (length A) =
        (?A1 @ B, (ty, length A, None) # vs)"
      unfolding parse Let_def if_not_P[OF cond] IH(1) prod.case ..
    moreover have "environ_value (?A1 @ B) (ty, length A, None) = environ_out (ty, name, [])"
      by (simp add: environ_value_def environ_out_def cstr_from_def cstr_of_append_nul)
    ultimately show ?thesis using IH(2) ref by (intro exI[of _ "name @ 0 # B"] exI) auto
  qed
qed

section \<open>In-place decoding of MSSP\<close>

definition mssp_text :: "u8 \<Rightarrow> bool" where
  "mssp_text x \<longleftrightarrow> x \<noteq> MSSP_VAR \<and> x \<noteq> MSSP_VAL"

text \<open>
  The reference: \<open>nt\<close> says whether the next string is a name or a value, \<open>var\<close> is the
  current name; every value is paired with it. A delimiter in the last position starts no string.
\<close>

function mssp_ref :: "u8 \<Rightarrow> bytes \<Rightarrow> bytes \<Rightarrow> (bytes \<times> bytes) list" where
  "mssp_ref nt var [] = []"
| "mssp_ref nt var (x # xs) =
     (let s = takeWhile mssp_text (x # xs); r = dropWhile mssp_text (x # xs) in
      (if nt = MSSP_VAR then [] else [(var, s)]) @
      (case r of [] \<Rightarrow> [] | d # r' \<Rightarrow> mssp_ref d (if nt = MSSP_VAR then s else var) r'))"
  by pat_completeness auto
termination
proof (relation "measure (\<lambda>(_, _, xs). length xs)", goal_cases)
  case (2 nt var x xs s r d r')
  then have "length (d # r') \<le> length (x # xs)" by (metis length_dropWhile_le)
  then show ?case by simp
qed simp

definition mssp_out :: "bytes \<times> bytes \<Rightarrow> telnet_environ_t" where
  "mssp_out e = \<lparr>env_type = 0, env_var = Some (cstr_of (fst e)), env_value = Some (cstr_of (snd e))\<rparr>"

lemma mssp_copy_ref:
  assumes "sz = length (A @ J @ X)" "J \<noteq> []"
  shows "\<exists>J'. mssp_copy sz (A @ J @ X @ T) (length (A @ J)) (length A) =
     (A @ takeWhile mssp_text X @ J' @ dropWhile mssp_text X @ T,
      length (A @ takeWhile mssp_text X @ J'), length (A @ takeWhile mssp_text X)) \<and> length J' = length J"
  using assms
proof (induction X arbitrary: A J)
  case Nil
  then show ?case by (subst mssp_copy.simps) auto
next
  case (Cons x X)
  from \<open>J \<noteq> []\<close> obtain j J0 where J: "J = j # J0" by (cases J) auto
  have at: "(A @ J @ (x # X) @ T) ! length (A @ J) = x" by (simp add: nth_append)
  show ?case
  proof (cases "mssp_text x")
    case True
    have "mssp_copy sz (A @ J @ (x # X) @ T) (length (A @ J)) (length A) =
        mssp_copy sz ((A @ [x]) @ (J0 @ [x]) @ X @ T) (length ((A @ [x]) @ (J0 @ [x]))) (length (A @ [x]))"
      using True Cons.prems at by (subst mssp_copy.simps) (simp add: J nth_append mssp_text_def)
    with Cons.IH[of "A @ [x]" "J0 @ [x]"] True Cons.prems J show ?thesis by auto
  next
    case False
    then show ?thesis
      using Cons.prems at by (subst mssp_copy.simps) (auto simp: mssp_text_def intro!: exI[of _ J])
  qed
qed

text \<open>One round of the loop; a delimiter that ends the string is the type of the next one.\<close>

lemma mssp_loop_round:
  assumes "sz = length (A @ J @ x # xs)" "J \<noteq> []" "nt = MSSP_VAR \<or> nt = MSSP_VAL \<and> var \<noteq> None"
  defines "s \<equiv> takeWhile mssp_text (x # xs)" and "r \<equiv> dropWhile mssp_text (x # xs)"
  shows "\<exists>J1. (r \<noteq> [] \<longrightarrow> J1 \<noteq> []) \<and> sz = length ((A @ s @ [0]) @ J1 @ tl r) \<and>
     mssp_loop sz (A @ J @ (x # xs) @ T) (length (A @ J)) (length A) (length A) nt var vals =
     (if r = [] then ((A @ s @ [0]) @ J1 @ T,
         Some (vals @ (if nt = MSSP_VAR then [] else [(the var, length A)])))
      else mssp_loop sz ((A @ s @ [0]) @ J1 @ tl r @ T) (length ((A @ s @ [0]) @ J1))
             (length (A @ s @ [0])) (length (A @ s @ [0])) (hd r)
             (if nt = MSSP_VAR then Some (length A) else var)
             (vals @ (if nt = MSSP_VAR then [] else [(the var, length A)])))"
proof -
  obtain J1 where c: "mssp_copy sz (A @ J @ (x # xs) @ T) (length (A @ J)) (length A) =
      (A @ s @ J1 @ r @ T, length (A @ s @ J1), length (A @ s))" "length J1 = length J"
    using mssp_copy_ref[OF assms(1,2)] unfolding s_def r_def by blast
  from c(2) assms(2) obtain j J0 where J1: "J1 = j # J0" by (cases J1) auto
  have len: "length s + length r = length (x # xs)"
    unfolding s_def r_def by (metis length_append takeWhile_dropWhile_id)
  have buf: "(A @ s @ J1 @ r @ T)[length (A @ s) := 0] = (A @ s @ [0]) @ J0 @ r @ T"
    using write_nul[of J1 A s "r @ T"] J1 by simp
  have pos: "length (A @ s @ J1) = length ((A @ s @ [0]) @ J0)" "length (A @ s) + 1 = length (A @ s @ [0])"
    using J1 by simp_all
  have lt: "length (A @ J) < sz" using assms(1) by simp
  let ?c = "length ((A @ s @ [0]) @ J0)"
  let ?loop = "\<lambda>v vs. mssp_loop sz ((A @ s @ [0]) @ J0 @ r @ T) (?c + 1) (length (A @ s @ [0]))
      (length (A @ s @ [0])) (cstr_at ((A @ s @ [0]) @ J0 @ r @ T) ?c) v vs"
  have loop: "mssp_loop sz (A @ J @ (x # xs) @ T) (length (A @ J)) (length A) (length A) nt var vals =
      (if nt = MSSP_VAR then ?loop (Some (length A)) vals else ?loop var (vals @ [(the var, length A)]))"
    by (subst mssp_loop.simps, unfold if_P[OF lt] c(1) Let_def prod.case buf pos)
       (use assms(3) in auto)
  show ?thesis
  proof (cases r)
    case Nil
    have "\<not> ?c + 1 < sz" using Nil len assms(1) c(2) J1 by simp
    then have e: "?loop v vs = ((A @ s @ [0]) @ J0 @ r @ T, Some vs)" for v vs
      by (subst mssp_loop.simps) (simp only: if_False)
    have "sz = length ((A @ s @ [0]) @ J0 @ tl r)" using Nil len assms(1) c(2) J1 by simp
    moreover have "(if nt = MSSP_VAR then ?loop (Some (length A)) vals
        else ?loop var (vals @ [(the var, length A)])) =
      ((A @ s @ [0]) @ J0 @ T, Some (vals @ (if nt = MSSP_VAR then [] else [(the var, length A)])))"
      unfolding e using Nil by simp
    ultimately show ?thesis unfolding loop using Nil by (intro exI[of _ J0]) simp
  next
    case (Cons d r')
    have at: "cstr_at ((A @ s @ [0]) @ J0 @ r @ T) ?c = d"
      using Cons by (simp add: cstr_at_def nth_append)
    have "sz = length ((A @ s @ [0]) @ (J0 @ [d]) @ tl r)" using Cons len assms(1) c(2) J1 by simp
    then show ?thesis unfolding loop at using Cons
      by (intro exI[of _ "J0 @ [d]"]) simp
  qed
qed

lemma mssp_loop_ref:
  assumes "sz = length (A @ J @ X)" "J \<noteq> []" "nt = MSSP_VAR \<or> nt = MSSP_VAL \<and> var \<noteq> None"
    and "\<And>off. var = Some off \<Longrightarrow> \<exists>R. drop off A = name @ 0 # R \<and> off < length A"
  shows "\<exists>B vs. mssp_loop sz (A @ J @ X @ T) (length (A @ J)) (length A) (length A) nt var vals
                  = (A @ B, Some (vals @ vs)) \<and>
     map (mssp_value (A @ B)) vs = map mssp_out (mssp_ref nt name X)"
  using assms
proof (induction nt name X arbitrary: A J var vals rule: mssp_ref.induct)
  case (1 nt name)
  then show ?case by (subst mssp_loop.simps) auto
next
  case (2 nt name x xs)
  let ?s = "takeWhile mssp_text (x # xs)" and ?r = "dropWhile mssp_text (x # xs)"
  let ?A = "A @ ?s @ [0]"
  let ?var = "if nt = MSSP_VAR then Some (length A) else var"
  let ?new = "if nt = MSSP_VAR then [] else [(the var, length A)]"
  let ?name = "if nt = MSSP_VAR then ?s else name"
  obtain J1 where J1: "?r \<noteq> [] \<longrightarrow> J1 \<noteq> []" "sz = length (?A @ J1 @ tl ?r)"
    and loop: "mssp_loop sz (A @ J @ (x # xs) @ T) (length (A @ J)) (length A) (length A) nt var vals =
     (if ?r = [] then (?A @ J1 @ T, Some (vals @ ?new))
      else mssp_loop sz (?A @ J1 @ tl ?r @ T) (length (?A @ J1)) (length ?A) (length ?A) (hd ?r)
             ?var (vals @ ?new))"
    using mssp_loop_round[OF "2.prems"(1-3), of T vals] by blast
  have new: "map (mssp_value (?A @ B)) ?new = map mssp_out (if nt = MSSP_VAR then [] else [(name, ?s)])" for B
    using "2.prems"(3,4)
    by (auto simp: mssp_value_def mssp_out_def cstr_from_def cstr_of_append_nul)
  show ?case
  proof (cases ?r)
    case Nil
    with loop new[of "J1 @ T"] show ?thesis
      by (intro exI[of _ "?s @ 0 # J1 @ T"] exI[of _ ?new]) (simp add: mssp_ref.simps)
  next
    case (Cons d r')
    have d: "d = MSSP_VAR \<or> d = MSSP_VAL" 
      using hd_dropWhile[of mssp_text "x # xs"] Cons by (auto simp: mssp_text_def)
    have var: "\<exists>R. drop off ?A = ?name @ 0 # R \<and> off < length ?A" if "?var = Some off" for off
      using that "2.prems"(4)[of off] by (auto split: if_splits)
    obtain B vs where IH: "mssp_loop sz (?A @ J1 @ r' @ T) (length (?A @ J1)) (length ?A) (length ?A) d ?var (vals @ ?new)
        = (?A @ B, Some ((vals @ ?new) @ vs))" "map (mssp_value (?A @ B)) vs = map mssp_out (mssp_ref d ?name r')"
      using "2.IH"[OF refl refl Cons, of ?A J1 ?var "vals @ ?new", OF _ _ _ var] J1 Cons d "2.prems"(3)
      by auto
    have "mssp_ref nt name (x # xs) = (if nt = MSSP_VAR then [] else [(name, ?s)]) @ mssp_ref d ?name r'"
      by (simp add: Cons mssp_ref.simps(2) del: takeWhile.simps dropWhile.simps)
    with loop IH Cons new[of B] show ?thesis
      by (intro exI[of _ "?s @ 0 # B"] exI[of _ "?new @ vs"]) simp
  qed
qed

section \<open>Properties\<close>

lemma alloc_ok: "mem t (mem_calls t) \<Longrightarrow> alloc t = (True, t\<lparr>mem_calls := mem_calls t + 1\<rparr>)"
  by (simp add: alloc_def)

lemma buffer_split:
  assumes "sz \<le> length buf" "0 < sz"
  obtains x X T where "buf = x # X @ T" "take sz buf = x # X" "sz = Suc (length X)"
proof -
  from assms obtain x buf' where "buf = x # buf'" by (cases buf) auto
  with assms show ?thesis
    by (intro that[of x "take (sz - 1) buf'" "drop (sz - 1) buf'"]) (auto simp: take_Cons')
qed

text \<open>
  C27: the in-place ENVIRON decoder is right: on a request that passes the checks, the event
  reports the command and, for every variable, exactly the type, the unescaped name and the
  unescaped value (as C strings) that decoding into separate strings gives; nothing else is
  reported and no string is damaged by later copying in the same buffer.
\<close>

theorem environ_telnet_decodes:
  assumes "sz \<le> length (sb_buf t)" "2 \<le> sz" "sb_buf t ! 0 \<in> {0, 1, 2}" "sb_buf t ! 1 \<in> {0, 3}"
    and "sb_buf t ! (sz - 1) \<noteq> 2" "mem t (mem_calls t)"
  shows "fst (environ_telnet t ty sz) = 1 \<and>
         ev_log (snd (environ_telnet t ty sz)) = ev_log t @
           [TELNET_EV_ENVIRON (sb_buf t ! 0) (map environ_out (environ_ref (drop 1 (take sz (sb_buf t)))))]"
proof -
  from assms(1,2) obtain x X T where b: "sb_buf t = x # X @ T" "take sz (sb_buf t) = x # X" "sz = Suc (length X)"
    by (metis buffer_split less_le_trans zero_less_numeral)
  from assms(2,4) b have X: "X \<noteq> []" "starts_var X"
    by (cases X; auto simp: starts_var_def)+
  have "no_esc_end X" using assms(5) b X(1) by (simp add: no_esc_end_def last_conv_nth nth_append)
  from environ_parse_ref[OF X(2) this, of "[x]" sz "[]" T] b(3)
  obtain B vs where p: "environ_parse (environ_count X) sz (x # X @ T) 1 0 = (B, vs)"
    "map (environ_value B) vs = map environ_out (environ_ref X)" by auto
  have d: "drop 1 (take sz (sb_buf t)) = X" using b(2) by simp
  have p': "environ_parse (environ_count X) sz (sb_buf t) 1 0 = (B, vs)" using p(1) b(1) by simp
  have "environ_telnet t ty sz = (1, eh (TELNET_EV_ENVIRON (sb_buf t ! 0) (map (environ_value B) vs))
      (t\<lparr>mem_calls := mem_calls t + 1, sb_buf := B\<rparr>))"
    using assms unfolding environ_telnet_def Let_def d
    by (simp add: alloc_ok p' del: One_nat_def) blast
  then show ?thesis unfolding d by (simp add: eh_def p(2))
qed

text \<open>The ENVIRON request \<open>IS VAR "A" VALUE "B" USERVAR "C"\<close> with an escaped byte in the value.\<close>

definition environ_sample :: telnet_t where
  "environ_sample = sample_telnet\<lparr>sb_buf := [0, 0, 65, 1, 66, 2, 1, 3, 67]\<rparr>"

theorem environ_telnet_decodes_witness:
  "ev_log (snd (environ_telnet environ_sample 39 9)) = [TELNET_EV_ENVIRON 0
     [\<lparr>env_type = 0, env_var = Some [65], env_value = Some [66, 1]\<rparr>,
      \<lparr>env_type = 3, env_var = Some [67], env_value = Some []\<rparr>]]"
  using environ_telnet_decodes[of 9 environ_sample 39]
  by (simp add: environ_sample_def sample_telnet_def stop_var_def stop_value_def environ_out_def cstr_of_def)

lemma mssp_ref_length:
  assumes "nt = 1 \<or> nt = 2" "xs \<noteq> []"
  shows "length (mssp_ref nt var xs) + of_bool (last xs = 2) =
         length (filter (\<lambda>x. x = 2) xs) + of_bool (nt = 2)"
  using assms
proof (induction nt var xs rule: mssp_ref.induct)
  case (2 nt var x xs)
  let ?s = "takeWhile mssp_text (x # xs)" and ?r = "dropWhile mssp_text (x # xs)"
  have split: "x # xs = ?s @ ?r" by simp
  have s: "filter (\<lambda>x. x = 2) ?s = []" "2 \<notin> set ?s"
    by (auto simp: filter_empty_conv mssp_text_def dest: set_takeWhileD)
  then have f: "filter (\<lambda>x. x = 2) (x # xs) = filter (\<lambda>x. x = 2) ?r" by (metis split filter_append append_Nil)
  show ?case
  proof (cases ?r)
    case Nil
    with split s have "last (x # xs) \<noteq> 2" by (metis append_Nil2 last_in_set list.distinct(1))
    moreover have "length (mssp_ref nt var (x # xs)) = of_bool (nt = 2)"
      using 2(2) unfolding mssp_ref.simps(2) Nil Let_def by auto
    ultimately show ?thesis unfolding f Nil by simp
  next
    case (Cons d r')
    have d: "d = 1 \<or> d = 2" using hd_dropWhile[of mssp_text "x # xs"] Cons by (auto simp: mssp_text_def)
    have l: "last (x # xs) = last (d # r')" by (metis split Cons last_appendR list.distinct(1))
    have m: "length (mssp_ref nt var (x # xs)) =
        of_bool (nt = 2) + length (mssp_ref d (if nt = 1 then ?s else var) r')"
      using 2(2) by (auto simp: mssp_ref.simps(2) Cons simp del: takeWhile.simps dropWhile.simps)
    show ?thesis
    proof (cases "r' = []")
      case True
      with d f l m Cons show ?thesis by (auto simp del: last.simps filter.simps) (auto)
    next
      case False
      from 2(1)[OF refl refl Cons d False] d f l m Cons False show ?thesis
        by (auto simp del: last.simps filter.simps) (auto)
    qed
  qed
qed simp

text \<open>
  The in-place MSSP decoder is right: every value is reported with the name before it, and
  a VAL byte in the last position adds an entry with null pointers. The branch for invalid data
  inside the loop is never taken.
\<close>

theorem mssp_telnet_decodes:
  assumes "sz \<le> length (sb_buf t)" "0 < sz" "sb_buf t ! 0 = 1" "mem t (mem_calls t)"
  defines "dat \<equiv> take sz (sb_buf t)"
  shows "fst (mssp_telnet t sz) = 0 \<and>
         ev_log (snd (mssp_telnet t sz)) = ev_log t @
           [TELNET_EV_MSSP (map mssp_out (mssp_ref 1 [] (drop 1 dat)) @
              (if last dat = 2 then [\<lparr>env_type = 0, env_var = None, env_value = None\<rparr>] else []))]"
proof -
  from assms(1,2) obtain x X T where b: "sb_buf t = x # X @ T" "take sz (sb_buf t) = x # X" "sz = Suc (length X)"
    by (metis buffer_split)
  with assms(3) have x: "x = 1" by simp
  from mssp_loop_ref[of sz "[]" "[x]" X 1 None "[]" T "[]"] b(3)
  obtain B vs where p: "mssp_loop sz (x # X @ T) 1 0 0 1 None [] = (B, Some vs)"
    "map (mssp_value B) vs = map mssp_out (mssp_ref 1 [] X)" by auto
  then have p': "mssp_loop sz (sb_buf t) 1 0 0 (sb_buf t ! 0) None [] = (B, Some vs)" using b(1) x by simp
  have len: "length (filter (\<lambda>x. x = 2) (take sz (sb_buf t))) - length vs = of_bool (last (x # X) = 2)"
  proof (cases "X = []")
    case True
    then show ?thesis using b(2) x p(2) by simp
  next
    case False
    from p(2) have "length vs = length (mssp_ref 1 [] X)" by (metis length_map)
    with mssp_ref_length[of 1 X "[]"] False show ?thesis using b(2) x by simp
  qed
  have "mssp_telnet t sz = (0, eh (TELNET_EV_MSSP (map (mssp_value B) vs @
      replicate (of_bool (last (x # X) = 2)) \<lparr>env_type = 0, env_var = None, env_value = None\<rparr>))
      (t\<lparr>mem_calls := mem_calls t + 1, sb_buf := B\<rparr>))"
    using assms(2-4) unfolding mssp_telnet_def Let_def len[symmetric]
    by (simp add: alloc_ok p'[simplified assms(3)] del: One_nat_def)
  then show ?thesis unfolding dat_def b(2) by (simp add: eh_def p(2))
qed

theorem mssp_telnet_decodes_witness:
  "ev_log (snd (mssp_telnet (sample_telnet\<lparr>sb_buf := [1, 65, 2, 66, 2]\<rparr>) 5)) = [TELNET_EV_MSSP
     [\<lparr>env_type = 0, env_var = Some [65], env_value = Some [66]\<rparr>,
      \<lparr>env_type = 0, env_var = None, env_value = None\<rparr>]]"
  using mssp_telnet_decodes[of 5 "sample_telnet\<lparr>sb_buf := [1, 65, 2, 66, 2]\<rparr>"]
  by (simp add: sample_telnet_def mssp_out_def mssp_text_def cstr_of_def)

end
