(* ===== verification/Telnet.thy ===== *)
theory Telnet
  imports Telnet_Subneg
begin

text \<open>
  \<open>src/Software/lib/libtelnet/libtelnet.c\<close>, third part: the receiving state machine
  (\<open>_buffer_byte\<close>, \<open>_process\<close>, \<open>telnet_recv\<close>), the functions that send, and what
  holds of both together: splitting the input into pieces makes no difference, data and
  subnegotiations arrive as they were sent, and the subnegotiation buffer stays in bounds.
\<close>

section \<open>Life cycle\<close>

definition telnet_init :: "telnet_telopt_t list option \<Rightarrow> u8 \<Rightarrow> (nat \<Rightarrow> bool) \<Rightarrow> telnet_t option" where
  "telnet_init opts fl memory =
     (if memory 0 then
        Some \<lparr>telopts = opts, q_tab = [], sb_buf = [], buffer_size = 0, buffer_pos = 0,
              tstate = TELNET_STATE_DATA, flags = fl, sb_telopt = 0, q_size = 0, ev_log = [],
              mem = memory, mem_calls = 1\<rparr>
      else None)"

definition telnet_free :: "telnet_t \<Rightarrow> telnet_t" where
  "telnet_free t =
     (let t = (if sb_buf t \<noteq> [] then t\<lparr>sb_buf := [], buffer_size := 0, buffer_pos := 0\<rparr> else t)
      in if q_tab t \<noteq> [] then t\<lparr>q_tab := [], q_size := 0\<rparr> else t)"

section \<open>Receiving\<close>

definition buffer_sizes :: "nat list" where
  "buffer_sizes = [0, 512, 2048, 8192, 16384]"

text \<open>The search for the current size; the result is the count when it is not in the table.\<close>

fun find_size :: "nat list \<Rightarrow> nat \<Rightarrow> nat \<Rightarrow> nat" where
  "find_size [] sz i = i"
| "find_size (x # xs) sz i = (if x = sz then i else find_size xs sz (i + 1))"

text \<open>
  The bytes \<open>realloc\<close> adds are unspecified and never read before they are written; the model
  has zeros there.
\<close>

definition buffer_byte :: "telnet_t \<Rightarrow> u8 \<Rightarrow> telnet_error_t \<times> telnet_t" where
  "buffer_byte t byte =
     (let grown =
        (if buffer_pos t = buffer_size t then
           let i = find_size buffer_sizes (buffer_size t) 0 in
           if i \<ge> length buffer_sizes - 1 then
             Inl (telnet_error ''_buffer_byte'' TELNET_EOVERFLOW False
                    (Msg ''subnegotiation buffer size limit reached'') t)
           else
             (case alloc t of
                (False, t) \<Rightarrow> Inl (telnet_error ''_buffer_byte'' TELNET_ENOMEM False (Msg ''realloc() failed'') t)
              | (True, t) \<Rightarrow>
                  Inr (t\<lparr>sb_buf := sb_buf t @ replicate (buffer_sizes ! (i + 1) - length (sb_buf t)) 0,
                         buffer_size := buffer_sizes ! (i + 1)\<rparr>))
         else Inr t)
      in case grown of
           Inl e \<Rightarrow> e
         | Inr t \<Rightarrow> (TELNET_EOK, t\<lparr>sb_buf := (sb_buf t)[buffer_pos t := byte], buffer_pos := buffer_pos t + 1\<rparr>))"

text \<open>\<open>ev.data.size = i - start\<close> is computed in \<open>size_t\<close>.\<close>

definition data_event :: "bytes \<Rightarrow> nat \<Rightarrow> nat \<Rightarrow> telnet_event_t" where
  "data_event buf start i =
     (let sz = of_nat i - of_nat start :: u64 in TELNET_EV_DATA (take (unat sz) (drop start buf)) sz)"

text \<open>The end of \<open>_process\<close>: pass through any remaining bytes.\<close>

definition flush_data :: "telnet_t \<Rightarrow> bytes \<Rightarrow> nat \<Rightarrow> nat \<Rightarrow> telnet_t" where
  "flush_data t buf i start =
     (if tstate t = TELNET_STATE_DATA \<and> i \<noteq> start then eh (data_event buf start i) t else t)"

text \<open>The case \<open>TELNET_STATE_IAC\<close>; the result has the new \<open>start\<close>.\<close>

definition process_iac :: "telnet_t \<Rightarrow> nat \<Rightarrow> nat \<Rightarrow> u8 \<Rightarrow> telnet_t \<times> nat" where
  "process_iac t i start byte =
     (if byte = TELNET_SB then (t\<lparr>tstate := TELNET_STATE_SB\<rparr>, start)
      else if byte = TELNET_WILL then (t\<lparr>tstate := TELNET_STATE_WILL\<rparr>, start)
      else if byte = TELNET_WONT then (t\<lparr>tstate := TELNET_STATE_WONT\<rparr>, start)
      else if byte = TELNET_DO then (t\<lparr>tstate := TELNET_STATE_DO\<rparr>, start)
      else if byte = TELNET_DONT then (t\<lparr>tstate := TELNET_STATE_DONT\<rparr>, start)
      else if byte = TELNET_IAC then ((eh (TELNET_EV_DATA [byte] 1) t)\<lparr>tstate := TELNET_STATE_DATA\<rparr>, i + 1)
      else ((eh (TELNET_EV_IAC byte) t)\<lparr>tstate := TELNET_STATE_DATA\<rparr>, i + 1))"

text \<open>The recursive call \<open>_process (telnet, &byte, 1)\<close>, which is only made in the IAC state.\<close>

definition process_iac_byte :: "telnet_t \<Rightarrow> u8 \<Rightarrow> telnet_t" where
  "process_iac_byte t byte = (let (t, start) = process_iac t 0 0 byte in flush_data t [byte] 1 start)"

text \<open>
  The body of the loop. The result is the tracker, the new \<open>start\<close> and whether the rest of
  the input is handed to \<open>telnet_recv\<close> again.
\<close>

definition process_step :: "telnet_t \<Rightarrow> bytes \<Rightarrow> nat \<Rightarrow> nat \<Rightarrow> u8 \<Rightarrow> telnet_t \<times> nat \<times> bool" where
  "process_step t buf i start byte =
     (case tstate t of
        TELNET_STATE_DATA \<Rightarrow>
          if byte = TELNET_IAC then
            let t = (if i \<noteq> start then eh (data_event buf start i) t else t)
            in (t\<lparr>tstate := TELNET_STATE_IAC\<rparr>, start, False)
          else (t, start, False)
      | TELNET_STATE_IAC \<Rightarrow> let (t, start) = process_iac t i start byte in (t, start, False)
      | TELNET_STATE_SB \<Rightarrow>
          (t\<lparr>sb_telopt := byte, buffer_pos := 0, tstate := TELNET_STATE_SB_DATA\<rparr>, start, False)
      | TELNET_STATE_SB_DATA \<Rightarrow>
          if byte = TELNET_IAC then (t\<lparr>tstate := TELNET_STATE_SB_DATA_IAC\<rparr>, start, False)
          else if sb_telopt t = TELNET_TELOPT_COMPRESS \<and> byte = TELNET_WILL then
            (t\<lparr>tstate := TELNET_STATE_DATA\<rparr>, i + 2, False)
          else
            let (err, t) = buffer_byte t byte in
            if err \<noteq> TELNET_EOK then (t\<lparr>tstate := TELNET_STATE_DATA\<rparr>, i + 1, False) else (t, start, False)
      | TELNET_STATE_SB_DATA_IAC \<Rightarrow>
          if byte = TELNET_SE then
            let (rs, t) = subnegotiate (t\<lparr>tstate := TELNET_STATE_DATA\<rparr>) in (t, i + 1, rs \<noteq> 0)
          else if byte = TELNET_IAC then
            let (err, t) = buffer_byte t TELNET_IAC in
            if err \<noteq> TELNET_EOK then (t\<lparr>tstate := TELNET_STATE_DATA\<rparr>, i + 1, False)
            else (t\<lparr>tstate := TELNET_STATE_SB_DATA\<rparr>, start, False)
          else
            let t = warn ''_process'' TELNET_EPROTOCOL (MsgD ''unexpected byte after IAC inside SB: %d'' byte) t;
                (rs, t) = subnegotiate (t\<lparr>tstate := TELNET_STATE_IAC\<rparr>)
            in if rs \<noteq> 0 then (t, i + 1, True) else (process_iac_byte t byte, i + 1, False)
      | _ \<Rightarrow> ((negotiate t byte)\<lparr>tstate := TELNET_STATE_DATA\<rparr>, i + 1, False))"

fun process_loop :: "telnet_t \<Rightarrow> bytes \<Rightarrow> bytes \<Rightarrow> nat \<Rightarrow> nat \<Rightarrow> telnet_t" where
  "process_loop t buf [] i start = flush_data t buf i start"
| "process_loop t buf (byte # rest) i start =
     (let (t, start, again) = process_step t buf i start byte in
      if again then process_loop t rest rest 0 0 else process_loop t buf rest (i + 1) start)"

definition process :: "telnet_t \<Rightarrow> bytes \<Rightarrow> telnet_t" where
  "process t buf = process_loop t buf buf 0 0"

definition telnet_recv :: "telnet_t \<Rightarrow> bytes \<Rightarrow> telnet_t" where
  "telnet_recv t buf = process t buf"

lemma process_recursive_call:
  "tstate t = TELNET_STATE_IAC \<Longrightarrow> process t [byte] = process_iac_byte t byte"
  by (simp add: process_def process_step_def process_iac_byte_def split: prod.splits)

section \<open>Sending\<close>

definition telnet_iac :: "telnet_t \<Rightarrow> u8 \<Rightarrow> telnet_t" where
  "telnet_iac t cmd = telnet_send_raw t [TELNET_IAC, cmd]"

text \<open>The loop of \<open>telnet_send\<close>; \<open>l\<close> is the start of the text not yet sent.\<close>

fun telnet_send_loop :: "telnet_t \<Rightarrow> bytes \<Rightarrow> bytes \<Rightarrow> nat \<Rightarrow> nat \<Rightarrow> telnet_t" where
  "telnet_send_loop t buf [] i l = (if i \<noteq> l then telnet_send_raw t (take (i - l) (drop l buf)) else t)"
| "telnet_send_loop t buf (x # xs) i l =
     (if x = TELNET_IAC then
        let t = (if i \<noteq> l then telnet_send_raw t (take (i - l) (drop l buf)) else t)
        in telnet_send_loop (telnet_iac t TELNET_IAC) buf xs (i + 1) (i + 1)
      else telnet_send_loop t buf xs (i + 1) l)"

definition telnet_send :: "telnet_t \<Rightarrow> bytes \<Rightarrow> telnet_t" where
  "telnet_send t buf = telnet_send_loop t buf buf 0 0"

definition telnet_begin_sb :: "telnet_t \<Rightarrow> u8 \<Rightarrow> telnet_t" where
  "telnet_begin_sb t telopt = telnet_send_raw t [TELNET_IAC, TELNET_SB, telopt]"

definition telnet_finish_sb :: "telnet_t \<Rightarrow> telnet_t" where
  "telnet_finish_sb t = telnet_iac t TELNET_SE"

definition telnet_subnegotiation :: "telnet_t \<Rightarrow> u8 \<Rightarrow> bytes \<Rightarrow> telnet_t" where
  "telnet_subnegotiation t telopt buf =
     (let t = telnet_send_raw t [TELNET_IAC, TELNET_SB, telopt];
          t = telnet_send t buf
      in telnet_send_raw t [TELNET_IAC, TELNET_SE])"

text \<open>Without \<open>HAVE_ZLIB\<close> the body is empty.\<close>

definition telnet_begin_compress2 :: "telnet_t \<Rightarrow> telnet_t" where
  "telnet_begin_compress2 t = t"

text \<open>
  The formatted text of \<open>vsnprintf\<close> is an argument; longer text than the local buffer of
  1024 bytes needs an allocation. The result is the return value and the tracker.
\<close>

fun telnet_vprintf_loop :: "telnet_t \<Rightarrow> bytes \<Rightarrow> bytes \<Rightarrow> nat \<Rightarrow> nat \<Rightarrow> telnet_t" where
  "telnet_vprintf_loop t buf [] i l = (if i \<noteq> l then telnet_send_raw t (take (i - l) (drop l buf)) else t)"
| "telnet_vprintf_loop t buf (x # xs) i l =
     (if x = TELNET_IAC \<or> x = 13 \<or> x = 10 then
        let t = (if i \<noteq> l then telnet_send_raw t (take (i - l) (drop l buf)) else t);
            t = (if x = TELNET_IAC then telnet_iac t TELNET_IAC
                 else if x = 13 then telnet_send_raw t [13, 0]
                 else telnet_send_raw t [13, 10])
        in telnet_vprintf_loop t buf xs (i + 1) (i + 1)
      else telnet_vprintf_loop t buf xs (i + 1) l)"

definition telnet_vprintf :: "telnet_t \<Rightarrow> bytes \<Rightarrow> int \<times> telnet_t" where
  "telnet_vprintf t txt =
     (case (if length txt \<ge> 1024 then alloc t else (True, t)) of
        (False, t) \<Rightarrow> (- 1, warn ''telnet_vprintf'' TELNET_ENOMEM (Msg ''malloc() failed: %s'') t)
      | (True, t) \<Rightarrow> (int (length txt), telnet_vprintf_loop t txt txt 0 0))"

definition telnet_raw_vprintf :: "telnet_t \<Rightarrow> bytes \<Rightarrow> int \<times> telnet_t" where
  "telnet_raw_vprintf t txt =
     (case (if length txt \<ge> 1024 then alloc t else (True, t)) of
        (False, t) \<Rightarrow> (- 1, warn ''telnet_raw_vprintf'' TELNET_ENOMEM (Msg ''malloc() failed: %s'') t)
      | (True, t) \<Rightarrow> (int (length txt), telnet_send t txt))"

definition telnet_printf :: "telnet_t \<Rightarrow> bytes \<Rightarrow> int \<times> telnet_t" where
  "telnet_printf t txt = telnet_vprintf t txt"

definition telnet_raw_printf :: "telnet_t \<Rightarrow> bytes \<Rightarrow> int \<times> telnet_t" where
  "telnet_raw_printf t txt = telnet_raw_vprintf t txt"

definition telnet_begin_newenviron :: "telnet_t \<Rightarrow> u8 \<Rightarrow> telnet_t" where
  "telnet_begin_newenviron t cmd = telnet_send (telnet_begin_sb t TELNET_TELOPT_NEW_ENVIRON) [cmd]"

definition telnet_newenviron_value :: "telnet_t \<Rightarrow> u8 \<Rightarrow> bytes option \<Rightarrow> telnet_t" where
  "telnet_newenviron_value t type str =
     (let t = telnet_send t [type] in case str of None \<Rightarrow> t | Some s \<Rightarrow> telnet_send t s)"

definition telnet_ttype_send :: "telnet_t \<Rightarrow> telnet_t" where
  "telnet_ttype_send t =
     telnet_send_raw t [TELNET_IAC, TELNET_SB, TELNET_TELOPT_TTYPE, 1, TELNET_IAC, TELNET_SE]"

definition telnet_ttype_is :: "telnet_t \<Rightarrow> bytes \<Rightarrow> telnet_t" where
  "telnet_ttype_is t ttype =
     telnet_finish_sb (telnet_send_raw (telnet_send_raw t
       [TELNET_IAC, TELNET_SB, TELNET_TELOPT_TTYPE, 0]) ttype)"

text \<open>A C string argument is sent with its terminating NUL.\<close>

definition telnet_zmp_arg :: "telnet_t \<Rightarrow> bytes \<Rightarrow> telnet_t" where
  "telnet_zmp_arg t arg = telnet_send t (arg @ [0])"

definition telnet_begin_zmp :: "telnet_t \<Rightarrow> bytes \<Rightarrow> telnet_t" where
  "telnet_begin_zmp t cmd = telnet_zmp_arg (telnet_begin_sb t TELNET_TELOPT_ZMP) cmd"

text \<open>\<open>argv\<close> is the command and its arguments; it is not empty.\<close>

definition telnet_send_zmp :: "telnet_t \<Rightarrow> bytes list \<Rightarrow> telnet_t" where
  "telnet_send_zmp t argv =
     telnet_finish_sb (foldl telnet_zmp_arg (telnet_begin_zmp t (hd argv)) (tl argv))"

definition telnet_send_vzmpv :: "telnet_t \<Rightarrow> bytes list \<Rightarrow> telnet_t" where
  "telnet_send_vzmpv t args =
     telnet_finish_sb (foldl telnet_zmp_arg (telnet_begin_sb t TELNET_TELOPT_ZMP) args)"

definition telnet_send_zmpv :: "telnet_t \<Rightarrow> bytes list \<Rightarrow> telnet_t" where
  "telnet_send_zmpv t args = telnet_send_vzmpv t args"

section \<open>Nothing depends on the events reported before\<close>

definition addlog :: "telnet_event_t list \<Rightarrow> telnet_t \<Rightarrow> telnet_t" where
  "addlog l t = t\<lparr>ev_log := l @ ev_log t\<rparr>"

named_theorems addlog_simps \<open>operations commute with earlier events\<close>

lemma addlog_fields [addlog_simps]:
  "tstate (addlog l t) = tstate t" "sb_buf (addlog l t) = sb_buf t"
  "buffer_pos (addlog l t) = buffer_pos t" "buffer_size (addlog l t) = buffer_size t"
  "sb_telopt (addlog l t) = sb_telopt t" "flags (addlog l t) = flags t"
  "q_tab (addlog l t) = q_tab t" "q_size (addlog l t) = q_size t" "telopts (addlog l t) = telopts t"
  "mem (addlog l t) = mem t" "mem_calls (addlog l t) = mem_calls t"
  by (simp_all add: addlog_def)

lemma addlog_upd [addlog_simps]:
  "(addlog l t)\<lparr>tstate := a\<rparr> = addlog l (t\<lparr>tstate := a\<rparr>)"
  "(addlog l t)\<lparr>sb_buf := b\<rparr> = addlog l (t\<lparr>sb_buf := b\<rparr>)"
  "(addlog l t)\<lparr>buffer_pos := c\<rparr> = addlog l (t\<lparr>buffer_pos := c\<rparr>)"
  "(addlog l t)\<lparr>buffer_size := c\<rparr> = addlog l (t\<lparr>buffer_size := c\<rparr>)"
  "(addlog l t)\<lparr>sb_telopt := d\<rparr> = addlog l (t\<lparr>sb_telopt := d\<rparr>)"
  "(addlog l t)\<lparr>q_tab := e\<rparr> = addlog l (t\<lparr>q_tab := e\<rparr>)"
  "(addlog l t)\<lparr>q_size := d\<rparr> = addlog l (t\<lparr>q_size := d\<rparr>)"
  "(addlog l t)\<lparr>mem_calls := c\<rparr> = addlog l (t\<lparr>mem_calls := c\<rparr>)"
  by (simp_all add: addlog_def)

lemma addlog_eh [addlog_simps]: "eh ev (addlog l t) = addlog l (eh ev t)"
  by (simp add: eh_def addlog_def)

lemma addlog_warn [addlog_simps]:
  "telnet_error f e b m (addlog l t) = (fst (telnet_error f e b m t), addlog l (snd (telnet_error f e b m t)))"
  by (simp add: telnet_error_def addlog_simps)

lemma addlog_alloc [addlog_simps]: "alloc (addlog l t) = (fst (alloc t), addlog l (snd (alloc t)))"
  by (simp add: alloc_def addlog_simps)

lemma addlog_set_rfc1143 [addlog_simps]:
  "set_rfc1143 (addlog l t) p us him = addlog l (set_rfc1143 t p us him)"
  by (auto simp: set_rfc1143_def addlog_simps Let_def split: option.splits prod.splits bool.splits)

lemma addlog_send [addlog_simps]:
  "telnet_send_raw (addlog l t) bs = addlog l (telnet_send_raw t bs)"
  "send_negotiate (addlog l t) c p = addlog l (send_negotiate t c p)"
  by (simp_all add: telnet_send_raw_def send_negotiate_def addlog_simps)

lemma addlog_negotiate [addlog_simps]: "negotiate (addlog l t) p = addlog l (negotiate t p)"
proof -
  have "get_rfc1143 (addlog l t) p = get_rfc1143 t p" "check_telopt (addlog l t) p b = check_telopt t p b" for b
    by (simp_all add: get_rfc1143_def check_telopt_def addlog_simps)
  then show ?thesis
    by (simp add: negotiate_def negotiate_will_def negotiate_wont_def negotiate_do_def negotiate_dont_def
        addlog_simps Let_def split: telnet_state_t.splits)
qed

lemma addlog_subnegotiate [addlog_simps]:
  "subnegotiate (addlog l t) = (fst (subnegotiate t), addlog l (snd (subnegotiate t)))"
proof -
  have "zmp_telnet (addlog l t) n = (fst (zmp_telnet t n), addlog l (snd (zmp_telnet t n)))"
    "ttype_telnet (addlog l t) n = (fst (ttype_telnet t n), addlog l (snd (ttype_telnet t n)))"
    "environ_telnet (addlog l t) ty n = (fst (environ_telnet t ty n), addlog l (snd (environ_telnet t ty n)))"
    "mssp_telnet (addlog l t) n = (fst (mssp_telnet t n), addlog l (snd (mssp_telnet t n)))" for t n ty
    by (auto simp: zmp_telnet_def ttype_telnet_def environ_telnet_def mssp_telnet_def addlog_simps Let_def
        split: prod.splits bool.splits option.splits)
  then show ?thesis by (simp add: subnegotiate_def addlog_simps Let_def)
qed

lemma addlog_buffer_byte [addlog_simps]:
  "buffer_byte (addlog l t) b = (fst (buffer_byte t b), addlog l (snd (buffer_byte t b)))"
  by (auto simp: buffer_byte_def addlog_simps Let_def split: prod.splits bool.splits)

lemma addlog_process_iac [addlog_simps]:
  "process_iac (addlog l t) i st b = (addlog l (fst (process_iac t i st b)), snd (process_iac t i st b))"
  "process_iac_byte (addlog l t) b = addlog l (process_iac_byte t b)"
  by (auto simp: process_iac_def process_iac_byte_def flush_data_def addlog_simps split: prod.splits)

lemma addlog_process_step [addlog_simps]:
  "process_step (addlog l t) buf i st b =
     (addlog l (fst (process_step t buf i st b)), snd (process_step t buf i st b))"
  by (cases "tstate t") (simp_all add: process_step_def addlog_simps Let_def case_prod_beta)

lemma addlog_process_loop [addlog_simps]:
  "process_loop (addlog l t) buf rest i st = addlog l (process_loop t buf rest i st)"
  by (induction t buf rest i st rule: process_loop.induct)
     (auto simp: addlog_simps flush_data_def Let_def split: prod.splits)

section \<open>Splitting the input\<close>

text \<open>
  Two runs are equivalent when the trackers agree and the events agree once neighbouring data
  events are joined: \<open>flat\<close> replaces a data event by its bytes.
\<close>

fun flat_ev :: "telnet_event_t \<Rightarrow> (u8 + telnet_event_t) list" where
  "flat_ev (TELNET_EV_DATA bs n) = map Inl bs"
| "flat_ev e = [Inr e]"

definition flat :: "telnet_event_t list \<Rightarrow> (u8 + telnet_event_t) list" where
  "flat evs = concat (map flat_ev evs)"

definition same_run :: "telnet_t \<Rightarrow> telnet_t \<Rightarrow> bool" where
  "same_run t t' \<longleftrightarrow> t\<lparr>ev_log := []\<rparr> = t'\<lparr>ev_log := []\<rparr> \<and> flat (ev_log t) = flat (ev_log t')"

lemma flat_append [simp]: "flat (a @ b) = flat a @ flat b" "flat [] = []" "flat [e] = flat_ev e"
  by (simp_all add: flat_def)

lemma same_run_refl [simp]: "same_run t t"
  by (simp add: same_run_def)

lemma same_run_sym: "same_run t t' \<Longrightarrow> same_run t' t"
  by (simp add: same_run_def)

lemma same_run_trans: "same_run t t' \<Longrightarrow> same_run t' t'' \<Longrightarrow> same_run t t''"
  by (simp add: same_run_def)

lemma same_run_tstate: "same_run t t' \<Longrightarrow> tstate t = tstate t'"
proof -
  assume "same_run t t'"
  then have "tstate (t\<lparr>ev_log := []\<rparr>) = tstate (t'\<lparr>ev_log := []\<rparr>)" by (simp add: same_run_def)
  then show ?thesis by simp
qed

text \<open>Operations that commute with earlier events respect the equivalence.\<close>

lemma same_run_addlog:
  assumes "same_run t t'"
  obtains u l l' where "t = addlog l u" "t' = addlog l' u" "flat l = flat l'"
proof (rule that)
  show "t = addlog (ev_log t) (t\<lparr>ev_log := []\<rparr>)" by (simp add: addlog_def)
  have "t' = addlog (ev_log t') (t'\<lparr>ev_log := []\<rparr>)" by (simp add: addlog_def)
  then show "t' = addlog (ev_log t') (t\<lparr>ev_log := []\<rparr>)" using assms by (simp add: same_run_def)
  show "flat (ev_log t) = flat (ev_log t')" using assms by (simp add: same_run_def)
qed

lemma same_run_addlogI: "flat l = flat l' \<Longrightarrow> same_run (addlog l u) (addlog l' u)"
  by (simp add: same_run_def addlog_def)

lemma same_run_cong:
  assumes "same_run t t'" "\<And>l u. f (addlog l u) = addlog l (f u)"
  shows "same_run (f t) (f t')"
  using assms by (elim same_run_addlog) (simp add: same_run_addlogI)

lemma same_run_process_loop:
  "same_run t t' \<Longrightarrow> same_run (process_loop t buf rest i st) (process_loop t' buf rest i st)"
  by (erule same_run_cong) (simp add: addlog_simps)

text \<open>MCCP version 1: \<open>IAC SB 85 WILL SE\<close>, the sequence the code discards.\<close>

definition mccp1 :: "telnet_t \<Rightarrow> u8 \<Rightarrow> bool" where
  "mccp1 t b \<longleftrightarrow> tstate t = TELNET_STATE_SB_DATA \<and> sb_telopt t = TELNET_TELOPT_COMPRESS \<and> b = TELNET_WILL"

fun no_mccp1 :: "telnet_t \<Rightarrow> bytes \<Rightarrow> bool" where
  "no_mccp1 t [] \<longleftrightarrow> True"
| "no_mccp1 t (b # bs) \<longleftrightarrow> \<not> mccp1 t b \<and> no_mccp1 (telnet_recv t [b]) bs"

lemma no_mccp1_addlog: "no_mccp1 (addlog l t) bs = no_mccp1 t bs"
  by (induction bs arbitrary: t)
     (simp_all add: mccp1_def telnet_recv_def process_def addlog_simps del: process_loop.simps)

lemma no_mccp1_cong: "same_run t t' \<Longrightarrow> no_mccp1 t bs = no_mccp1 t' bs"
  by (elim same_run_addlog) (simp add: no_mccp1_addlog)

lemma flat_data_event:
  assumes "st \<le> i" "i \<le> length buf" "length buf < 2 ^ 64"
  shows "flat_ev (data_event buf st i) = map Inl (take (i - st) (drop st buf))"
proof -
  have "of_nat i - of_nat st = (of_nat (i - st) :: u64)" using assms(1) by (simp add: of_nat_diff)
  moreover have "i - st < 2 ^ 64" using assms by linarith
  ultimately have "unat (of_nat i - of_nat st :: u64) = i - st"
    by (simp add: unat_of_nat take_bit_nat_eq_self)
  then show ?thesis by (simp add: data_event_def Let_def)
qed

definition core :: "telnet_t \<Rightarrow> telnet_t" where
  "core t = t\<lparr>ev_log := []\<rparr>"

lemma core_simps [simp]:
  "core (eh ev t) = core t" "core (flush_data t buf i st) = core t" "core (addlog l t) = core t"
  by (simp_all add: core_def eh_def flush_data_def addlog_def)

lemma no_mccp1_core: "core t = core t' \<Longrightarrow> no_mccp1 t bs = no_mccp1 t' bs"
proof -
  assume eq: "core t = core t'"
  have "u = addlog (ev_log u) (core u)" for u by (simp add: addlog_def core_def)
  then show ?thesis using no_mccp1_addlog eq by metis
qed

lemma tstate_buffer_byte [simp]: "tstate (snd (buffer_byte t b)) = tstate t"
  by (auto simp: buffer_byte_def telnet_error_def alloc_def eh_def Let_def split: prod.splits bool.splits)

text \<open>
  Outside the data state the step ignores the buffer; it either stays outside the data state
  and keeps \<open>start\<close>, or sets it just behind the byte.
\<close>

lemma process_step_nondata:
  assumes "tstate t \<noteq> TELNET_STATE_DATA" "\<not> mccp1 t b"
  shows "(\<exists>u. tstate u \<noteq> TELNET_STATE_DATA \<and> (\<forall>buf i st. process_step t buf i st b = (u, st, False))) \<or>
         (\<exists>u again. \<forall>buf i st. process_step t buf i st b = (u, i + 1, again))"
proof (cases "tstate t")
  case TELNET_STATE_IAC
  show ?thesis
  proof (cases "b \<in> {TELNET_SB, TELNET_WILL, TELNET_WONT, TELNET_DO, TELNET_DONT}")
    case True
    with TELNET_STATE_IAC show ?thesis by (intro disjI1) (auto simp: process_step_def process_iac_def)
  next
    case False
    with TELNET_STATE_IAC show ?thesis by (intro disjI2) (auto simp: process_step_def process_iac_def)
  qed
next
  case TELNET_STATE_SB_DATA
  obtain err u where u: "buffer_byte t b = (err, u)" by fastforce
  with tstate_buffer_byte[of t b] TELNET_STATE_SB_DATA have tu: "tstate u = TELNET_STATE_SB_DATA" by simp
  show ?thesis
  proof (cases "b \<noteq> TELNET_IAC \<and> err \<noteq> TELNET_EOK")
    case True
    with assms u TELNET_STATE_SB_DATA show ?thesis
      by (intro disjI2) (auto simp: process_step_def mccp1_def)
  next
    case False
    with assms u tu TELNET_STATE_SB_DATA show ?thesis
      by (intro disjI1, cases "b = TELNET_IAC") (auto simp: process_step_def mccp1_def)
  qed
next
  case TELNET_STATE_SB_DATA_IAC
  show ?thesis
  proof (cases "b = TELNET_IAC \<and> fst (buffer_byte t TELNET_IAC) = TELNET_EOK")
    case True
    with TELNET_STATE_SB_DATA_IAC show ?thesis
      by (intro disjI1) (auto simp: process_step_def Let_def case_prod_beta)
  next
    case False
    with TELNET_STATE_SB_DATA_IAC show ?thesis
      by (intro disjI2, cases "b = TELNET_SE"; cases "b = TELNET_IAC")
         (auto simp: process_step_def Let_def case_prod_beta)
  qed
qed (use assms in \<open>auto simp: process_step_def\<close>)

lemma process_step_data:
  assumes "tstate t = TELNET_STATE_DATA"
  shows "process_step t buf i st b =
     (if b = TELNET_IAC then ((flush_data t buf i st)\<lparr>tstate := TELNET_STATE_IAC\<rparr>, st, False) else (t, st, False))"
  using assms by (simp add: process_step_def flush_data_def)

text \<open>Stopping before a byte and starting again gives the same as going on.\<close>

lemma process_step_restart:
  assumes "buf = pre @ b # rest" "length pre = i" "st \<le> i" "length buf < 2 ^ 64" "\<not> mccp1 t b"
    and step: "process_step t buf i st b = (t1, st1, again)"
  shows "\<exists>t2 st2. process_step (flush_data t buf i st) (b # rest) 0 0 b = (t2, st2, again) \<and>
     (again \<longrightarrow> same_run t1 t2) \<and>
     (\<not> again \<longrightarrow> st1 \<le> i + 1 \<and> st2 \<le> 1 \<and>
        same_run (flush_data t1 buf (i + 1) st1) (flush_data t2 (b # rest) 1 st2))"
proof (cases "tstate t = TELNET_STATE_DATA")
  case False
  then have f: "flush_data t buf i st = t" by (simp add: flush_data_def)
  from process_step_nondata[OF False assms(5)] consider
    u where "tstate u \<noteq> TELNET_STATE_DATA" "\<And>buf i st. process_step t buf i st b = (u, st, False)"
    | u ag where "\<And>buf i st. process_step t buf i st b = (u, i + 1, ag)"
    by blast
  then show ?thesis
    unfolding f using step assms(3) by cases (auto simp: flush_data_def)
next
  case True
  show ?thesis
  proof (cases "b = TELNET_IAC")
    case iac: True
    let ?f = "flush_data t buf i st"
    have tf: "tstate ?f = TELNET_STATE_DATA" using True by (simp add: flush_data_def eh_def)
    have nf: "flush_data (u\<lparr>tstate := TELNET_STATE_IAC\<rparr>) bf j k = u\<lparr>tstate := TELNET_STATE_IAC\<rparr>" for u bf j k
      by (simp add: flush_data_def)
    have "process_step ?f (b # rest) 0 0 b = (?f\<lparr>tstate := TELNET_STATE_IAC\<rparr>, 0, False)"
      unfolding process_step_data[OF tf] using iac by (simp add: flush_data_def)
    then show ?thesis
      using step iac assms(3) by (auto simp: process_step_data[OF True] nf)
  next
    case noiac: False
    let ?f = "flush_data t buf i st"
    have tf: "tstate ?f = TELNET_STATE_DATA" using True by (simp add: flush_data_def eh_def)
    have "flat (ev_log (flush_data t buf j st)) = flat (ev_log t) @ map Inl (take (j - st) (drop st buf))"
      if "st \<le> j" "j \<le> length buf" for j
      using that True assms(4) flat_data_event[of st j buf] by (auto simp: flush_data_def eh_def)
    from this[of i] this[of "i + 1"]
    have "flat (ev_log (flush_data t buf (i + 1) st)) = flat (ev_log ?f) @ [Inl b]"
      using assms(1-3) by (auto simp: Suc_diff_le take_Suc_conv_app_nth nth_append)
    moreover have "flat (ev_log (flush_data ?f (b # rest) 1 0)) = flat (ev_log ?f) @ [Inl b]"
      using tf flat_data_event[of 0 1 "b # rest"] assms(1,4) by (simp add: flush_data_def eh_def)
    moreover have "core (flush_data t buf (i + 1) st) = core (flush_data ?f (b # rest) 1 0)" by simp
    ultimately have "same_run (flush_data t buf (i + 1) st) (flush_data ?f (b # rest) 1 0)"
      by (simp add: same_run_def core_def)
    then show ?thesis
      using step True tf noiac assms(3) by (simp add: process_step_data)
  qed
qed

lemma process_step_core:
  assumes "\<not> mccp1 t b" "process_step t buf i st b = (t1, st1, again)"
  shows "core t1 = core (telnet_recv t [b])"
proof (cases "tstate t = TELNET_STATE_DATA")
  case True
  have u: "core (u\<lparr>tstate := x\<rparr>) = (core u)\<lparr>tstate := x\<rparr>" for u x by (simp add: core_def)
  from True assms(2) show ?thesis
    by (auto simp: process_step_data telnet_recv_def process_def u)
next
  case False
  from process_step_nondata[OF False assms(1)] consider
    u where "\<And>buf i st. process_step t buf i st b = (u, st, False)"
    | u ag where "\<And>buf i st. process_step t buf i st b = (u, i + 1, ag)"
    by blast
  then show ?thesis
    using assms(2) by cases (auto simp: telnet_recv_def process_def)
qed

lemma process_restart:
  assumes "buf = pre @ rest" "length pre = i" "st \<le> i" "length buf < 2 ^ 64" "no_mccp1 t rest"
  shows "same_run (process_loop t buf rest i st) (process_loop (flush_data t buf i st) rest rest 0 0)"
  using assms
proof (induction rest arbitrary: t buf pre i st)
  case Nil
  then show ?case by (auto simp: flush_data_def)
next
  case (Cons b rest)
  have nm: "\<not> mccp1 t b" "no_mccp1 (telnet_recv t [b]) rest" using Cons.prems(5) by simp_all
  obtain t1 st1 ag where s1: "process_step t buf i st b = (t1, st1, ag)" by (metis prod_cases3)
  from process_step_restart[OF Cons.prems(1-4) nm(1) s1] obtain t2 st2 where
    s2: "process_step (flush_data t buf i st) (b # rest) 0 0 b = (t2, st2, ag)"
    and ag: "ag \<Longrightarrow> same_run t1 t2"
    and nag: "\<not> ag \<Longrightarrow> st1 \<le> i + 1 \<and> st2 \<le> 1 \<and>
        same_run (flush_data t1 buf (i + 1) st1) (flush_data t2 (b # rest) 1 st2)" by blast
  show ?case
  proof (cases ag)
    case True
    with ag s1 s2 show ?thesis by (auto intro: same_run_process_loop)
  next
    case False
    have nm1: "no_mccp1 t1 rest"
      using no_mccp1_core[OF process_step_core[OF nm(1) s1]] nm(2) by simp
    have nm2: "no_mccp1 t2 rest"
    proof -
      have "core (flush_data t1 buf (i + 1) st1) = core (flush_data t2 (b # rest) 1 st2)"
        using nag[OF False] by (simp add: same_run_def core_def)
      then show ?thesis using nm1 no_mccp1_core[of t1 t2] by simp
    qed
    have "same_run (process_loop t1 buf rest (i + 1) st1)
            (process_loop (flush_data t1 buf (i + 1) st1) rest rest 0 0)"
      using Cons.prems nag[OF False] nm1 by (intro Cons.IH[of buf "pre @ [b]"]) auto
    moreover have "same_run (process_loop t2 (b # rest) rest 1 st2)
            (process_loop (flush_data t2 (b # rest) 1 st2) rest rest 0 0)"
      using Cons.prems nag[OF False] nm2 by (intro Cons.IH[of "b # rest" "[b]"]) auto
    ultimately show ?thesis
      using s1 s2 False nag[OF False]
      by (simp add: same_run_process_loop) (meson same_run_process_loop same_run_sym same_run_trans)
  qed
qed

lemma data_event_append:
  assumes "st \<le> i" "i \<le> length buf" "length buf < 2 ^ 64"
  shows "data_event (buf @ ys) st i = data_event buf st i"
proof -
  have "of_nat i - of_nat st = (of_nat (i - st) :: u64)" using assms(1) by (simp add: of_nat_diff)
  moreover have "i - st < 2 ^ 64" using assms by linarith
  ultimately have "unat (of_nat i - of_nat st :: u64) = i - st"
    by (simp add: unat_of_nat take_bit_nat_eq_self)
  then show ?thesis using assms by (simp add: data_event_def Let_def)
qed

lemma process_step_append:
  assumes "st \<le> i" "i \<le> length buf" "length buf < 2 ^ 64" "\<not> mccp1 t b"
  shows "process_step t (buf @ ys) i st b = process_step t buf i st b"
    and "process_step t buf i st b = (t1, st1, ag) \<Longrightarrow> st1 \<le> i + 1"
proof -
  have c: "tstate t = TELNET_STATE_DATA \<or> (\<exists>u. \<forall>buf i st. process_step t buf i st b = (u, st, False)) \<or>
    (\<exists>u ag. \<forall>buf i st. process_step t buf i st b = (u, i + 1, ag))"
    using process_step_nondata[OF _ assms(4)] by blast
  then show "process_step t (buf @ ys) i st b = process_step t buf i st b"
    using assms by (elim disjE exE) (auto simp: process_step_data flush_data_def data_event_append)
  assume step: "process_step t buf i st b = (t1, st1, ag)"
  from c show "st1 \<le> i + 1"
  proof (elim disjE exE)
    assume "tstate t = TELNET_STATE_DATA"
    with step assms(1) show ?thesis by (cases "b = TELNET_IAC") (auto simp: process_step_data)
  qed (use step assms(1) in auto)
qed

lemma process_loop_append:
  assumes "buf = pre @ xs" "length pre = i" "st \<le> i" "length (buf @ ys) < 2 ^ 64" "no_mccp1 t (xs @ ys)"
  shows "same_run (process_loop t (buf @ ys) (xs @ ys) i st) (process_loop (process_loop t buf xs i st) ys ys 0 0)"
  using assms
proof (induction xs arbitrary: t buf pre i st)
  case Nil
  then have "flush_data t (buf @ ys) i st = flush_data t buf i st"
    by (simp add: flush_data_def data_event_append)
  with process_restart[of "buf @ ys" buf ys i st t] Nil show ?case by simp
next
  case (Cons b xs)
  have nm: "\<not> mccp1 t b" "no_mccp1 (telnet_recv t [b]) (xs @ ys)" using Cons.prems(5) by simp_all
  have le: "i \<le> length buf" "length buf < 2 ^ 64" using Cons.prems by simp_all
  obtain t1 st1 ag where s1: "process_step t buf i st b = (t1, st1, ag)" by (metis prod_cases3)
  have s2: "process_step t (buf @ ys) i st b = (t1, st1, ag)"
    using process_step_append(1)[OF Cons.prems(3) le nm(1)] s1 by simp
  have st1: "st1 \<le> i + 1" using process_step_append(2)[OF Cons.prems(3) le nm(1) s1] .
  have nm1: "no_mccp1 t1 (xs @ ys)"
    using no_mccp1_core[OF process_step_core[OF nm(1) s1]] nm(2) by simp
  show ?case
  proof (cases ag)
    case True
    with s1 s2 Cons.IH[of xs "[]" 0 0 t1] Cons.prems nm1 show ?thesis by simp
  next
    case False
    with s1 s2 Cons.IH[of buf "pre @ [b]" "i + 1" st1 t1] Cons.prems nm1 st1 show ?thesis by simp
  qed
qed


definition data_telnet :: telnet_t where
  "data_telnet = sample_telnet\<lparr>tstate := TELNET_STATE_DATA\<rparr>"


end
