(* ===== verification/Telnet_Session.thy ===== *)
theory Telnet_Session
  imports Telnet
begin

text \<open>
  Properties of whole libtelnet sessions: the invariant every sequence of calls keeps, and the
  round trips between the functions that send and the state machine that receives.
\<close>

section \<open>The subnegotiation buffer\<close>

definition sb_inv :: "telnet_t \<Rightarrow> bool" where
  "sb_inv t \<longleftrightarrow> buffer_size t \<in> set buffer_sizes \<and> length (sb_buf t) = buffer_size t \<and>
              buffer_pos t \<le> buffer_size t"

lemma sb_inv_upd [simp]:
  "sb_inv (t\<lparr>ev_log := l\<rparr>) = sb_inv t" "sb_inv (t\<lparr>tstate := st\<rparr>) = sb_inv t"
  "sb_inv (t\<lparr>q_tab := q\<rparr>) = sb_inv t" "sb_inv (t\<lparr>q_size := n\<rparr>) = sb_inv t"
  "sb_inv (t\<lparr>mem_calls := k\<rparr>) = sb_inv t" "sb_inv (t\<lparr>sb_telopt := o'\<rparr>) = sb_inv t"
  "sb_inv (eh ev t) = sb_inv t" "sb_inv (warn f e m t) = sb_inv t"
  by (simp_all add: sb_inv_def eh_def telnet_error_def)

lemma opt_inv_sb_upd [simp]:
  "opt_inv (t\<lparr>sb_buf := b\<rparr>) = opt_inv t" "opt_inv (t\<lparr>buffer_pos := n\<rparr>) = opt_inv t"
  "opt_inv (t\<lparr>buffer_size := n\<rparr>) = opt_inv t" "opt_inv (t\<lparr>sb_telopt := o'\<rparr>) = opt_inv t"
  by (simp_all add: opt_inv_def)

definition telnet_inv :: "telnet_t \<Rightarrow> bool" where
  "telnet_inv t \<longleftrightarrow> opt_inv t \<and> sb_inv t"

lemma find_size_cases:
  assumes "sz \<in> set buffer_sizes"
  shows "sz = 0 \<and> find_size buffer_sizes sz 0 = 0 \<or> sz = 512 \<and> find_size buffer_sizes sz 0 = 1 \<or>
    sz = 2048 \<and> find_size buffer_sizes sz 0 = 2 \<or> sz = 8192 \<and> find_size buffer_sizes sz 0 = 3 \<or>
    sz = 16384 \<and> find_size buffer_sizes sz 0 = 4"
  using assms by (auto simp: buffer_sizes_def)

text \<open>What pushing a byte does, on all branches.\<close>

lemma buffer_byte_ok:
  assumes "sb_inv t" "buffer_pos t < buffer_size t \<or> buffer_size t < 16384 \<and> mem t (mem_calls t)"
  shows "\<exists>buf sz k. buffer_byte t b = (TELNET_EOK,
           t\<lparr>mem_calls := k, sb_buf := buf, buffer_size := sz, buffer_pos := buffer_pos t + 1\<rparr>) \<and>
         sz \<in> set buffer_sizes \<and> length buf = sz \<and> buffer_pos t < sz \<and>
         take (buffer_pos t + 1) buf = take (buffer_pos t) (sb_buf t) @ [b]"
proof (cases "buffer_pos t = buffer_size t")
  case False
  with assms have lt: "buffer_pos t < buffer_size t" by (auto simp: sb_inv_def)
  with False assms(1) show ?thesis
    by (intro exI[of _ "(sb_buf t)[buffer_pos t := b]"] exI[of _ "buffer_size t"] exI[of _ "mem_calls t"])
       (auto simp: buffer_byte_def sb_inv_def take_Suc_conv_app_nth)
next
  case True
  with assms have sz: "buffer_size t < 16384" "mem t (mem_calls t)" by auto
  let ?i = "find_size buffer_sizes (buffer_size t) 0"
  let ?n = "buffer_sizes ! (?i + 1)"
  have i: "\<not> ?i \<ge> length buffer_sizes - 1" "buffer_size t < ?n" "?n \<in> set buffer_sizes"
    using find_size_cases[of "buffer_size t"] sz(1) assms(1)
    by (auto simp: sb_inv_def buffer_sizes_def)
  let ?buf = "(sb_buf t @ replicate (?n - length (sb_buf t)) 0)[buffer_pos t := b]"
  have "buffer_byte t b = (TELNET_EOK,
      t\<lparr>mem_calls := mem_calls t + 1, sb_buf := ?buf, buffer_size := ?n, buffer_pos := buffer_pos t + 1\<rparr>)"
    using i(1) sz True unfolding buffer_byte_def Let_def by (simp add: alloc_def)
  moreover have "length ?buf = ?n" "buffer_pos t < ?n"
    using i(2) True assms(1) by (auto simp: sb_inv_def)
  moreover have "take (buffer_pos t + 1) ?buf = take (buffer_pos t) (sb_buf t) @ [b]"
    using i(2) True assms(1) by (auto simp: sb_inv_def take_Suc_conv_app_nth)
  ultimately show ?thesis using i(3) by blast
qed

lemma buffer_byte_inv:
  assumes "telnet_inv t" shows "telnet_inv (snd (buffer_byte t b))"
proof (cases "buffer_pos t < buffer_size t \<or> buffer_size t < 16384 \<and> mem t (mem_calls t)")
  case True
  with buffer_byte_ok[of t b] assms show ?thesis
    by (auto simp: telnet_inv_def sb_inv_def)
next
  case False
  have "buffer_byte t b = telnet_error ''_buffer_byte'' TELNET_EOVERFLOW False (Msg ''subnegotiation buffer size limit reached'') t
    \<or> buffer_byte t b = telnet_error ''_buffer_byte'' TELNET_ENOMEM False (Msg ''realloc() failed'') (t\<lparr>mem_calls := mem_calls t + 1\<rparr>)"
    using False assms find_size_cases[of "buffer_size t"]
    by (auto simp: buffer_byte_def alloc_def telnet_inv_def sb_inv_def buffer_sizes_def Let_def)
  then show ?thesis using assms by (auto simp: telnet_inv_def)
qed

lemma environ_copy_length: "environ_copy stop sz buf c out = (buf', r) \<Longrightarrow> length buf' = length buf"
proof (induction stop sz buf c out rule: environ_copy.induct)
  case (1 stop sz buf c out)
  show ?case
  proof (cases "c < sz \<and> \<not> stop (buf ! c)")
    case True
    let ?c = "if buf ! c = ENVIRON_ESC then c + 1 else c"
    have "environ_copy stop sz (buf[out := buf ! ?c]) (?c + 1) (out + 1) = (buf', r)"
      using "1.prems" True environ_copy.simps[of stop sz buf c out] by (simp add: Let_def)
    with 1(1)[OF _ _ refl] True show ?thesis by simp
  next
    case False
    with "1.prems" show ?thesis
      using environ_copy.simps[of stop sz buf c out] by (auto split: if_splits)
  qed
qed

lemma environ_parse_length: "length (fst (environ_parse k sz buf c out)) = length buf"
proof (induction k arbitrary: buf c out)
  case (Suc k)
  obtain b1 c1 o1 where 1: "environ_copy stop_var sz buf (c + 1) out = (b1, c1, o1)" by (metis prod_cases3)
  obtain b2 c2 o2 where 2: "environ_copy stop_value sz (b1[o1 := 0]) (c1 + 1) (o1 + 1) = (b2, c2, o2)"
    by (metis prod_cases3)
  show ?case
    using Suc[of "b2[o2 := 0]" c2 "o2 + 1"] Suc[of "b1[o1 := 0]" c1 "o1 + 1"]
      environ_copy_length[OF 1] environ_copy_length[OF 2] 1 2
    by (auto simp: Let_def case_prod_beta)
qed simp

lemma mssp_copy_length: "mssp_copy sz buf c out = (buf', r) \<Longrightarrow> length buf' = length buf"
  by (induction sz buf c out rule: mssp_copy.induct)
     (subst (asm) (2) mssp_copy.simps, auto split: if_splits)

lemma mssp_loop_length: "mssp_loop sz buf c out lst nt var vals = (buf', r) \<Longrightarrow> length buf' = length buf"
proof (induction sz buf c out lst nt var vals rule: mssp_loop.induct)
  case (1 sz buf c out lst nt var vals)
  obtain b1 c1 o1 where m: "mssp_copy sz buf c out = (b1, c1, o1)" by (metis prod_cases3)
  note l = mssp_copy_length[OF m]
  from "1.prems" show ?case
    using 1(1)[OF _ refl m[symmetric] refl refl refl] 1(2)[OF _ refl m[symmetric] refl refl refl] l
    by (subst (asm) mssp_loop.simps) (auto simp: m Let_def split: if_splits)
qed

lemma opt_inv_alloc: "alloc t = (b, t') \<Longrightarrow> telnet_inv t \<Longrightarrow> telnet_inv t' \<and> sb_buf t' = sb_buf t \<and> buffer_size t' = buffer_size t \<and> buffer_pos t' = buffer_pos t"
  by (auto simp: alloc_def telnet_inv_def)

lemma telnet_inv_simps [simp]:
  "telnet_inv (eh ev t) = telnet_inv t" "telnet_inv (warn f e m t) = telnet_inv t"
  "telnet_inv (t\<lparr>tstate := st\<rparr>) = telnet_inv t" "telnet_inv (t\<lparr>sb_telopt := x\<rparr>) = telnet_inv t"
  "telnet_inv (t\<lparr>mem_calls := k\<rparr>) = telnet_inv t"
  by (simp_all add: telnet_inv_def)

lemma telnet_inv_sb_buf: "length b = length (sb_buf t) \<Longrightarrow> telnet_inv (t\<lparr>sb_buf := b\<rparr>) = telnet_inv t"
  by (simp add: telnet_inv_def sb_inv_def)

lemma subnegotiate_inv:
  assumes "telnet_inv t" shows "telnet_inv (snd (subnegotiate t))"
proof -
  have z: "telnet_inv (snd (zmp_telnet t n))" "telnet_inv (snd (ttype_telnet t n))" if "telnet_inv t" for t n
    using that by (auto simp: zmp_telnet_def ttype_telnet_def alloc_def Let_def split: bool.splits)
  have e: "telnet_inv (snd (environ_telnet t ty n))" if "telnet_inv t" for t ty n
    using that environ_parse_length[of _ n "sb_buf t" 1 0]
    by (auto simp: environ_telnet_def alloc_def Let_def case_prod_beta telnet_inv_sb_buf split: bool.splits)
  have m: "telnet_inv (snd (mssp_telnet t n))" if "telnet_inv t" for t n
    using that
    by (auto simp: mssp_telnet_def alloc_def Let_def telnet_inv_sb_buf
        split: prod.splits option.splits bool.splits dest!: mssp_loop_length)
  show ?thesis using assms z e m by (simp add: subnegotiate_def Let_def)
qed

lemma set_rfc1143_inv:
  assumes "telnet_inv t" "us \<le> 5" "him \<le> 5"
  shows "telnet_inv (set_rfc1143 t p us him)"
proof -
  have "opt_inv (set_rfc1143 t p us him)"
    using otab.set_good[of t "(us, him)" p] assms by (simp add: telnet_inv_def opt_set_def nibbles_def)
  moreover have "sb_inv (set_rfc1143 t p us him)"
    using assms by (auto simp: set_rfc1143_def telnet_inv_def alloc_def Let_def split: option.splits bool.splits)
  ultimately show ?thesis by (simp add: telnet_inv_def)
qed

lemma telnet_inv_sends [simp]:
  "telnet_inv (telnet_send_raw t bs) = telnet_inv t" "telnet_inv (send_negotiate t c p) = telnet_inv t"
  "telnet_inv (telnet_iac t c) = telnet_inv t"
  by (simp_all add: telnet_send_raw_def send_negotiate_def telnet_iac_def)

lemma negotiate_inv:
  assumes "telnet_inv t"
  shows "telnet_inv (negotiate t p)" "telnet_inv (telnet_negotiate t c p)"
proof -
  have "Q_US (get_rfc1143 t p) \<le> 5" "Q_HIM (get_rfc1143 t p) \<le> 5"
    using assms opt_nibble_cases by (auto simp: telnet_inv_def)
  then show "telnet_inv (negotiate t p)" "telnet_inv (telnet_negotiate t c p)"
    using assms
    by (simp_all add: negotiate_def negotiate_will_def negotiate_wont_def negotiate_do_def negotiate_dont_def
        telnet_negotiate_def set_rfc1143_inv Let_def split: telnet_state_t.splits)
qed

lemma process_step_inv: "telnet_inv t \<Longrightarrow> telnet_inv (fst (process_step t buf i st b))"
proof -
  assume inv: "telnet_inv t"
  have p0: "telnet_inv (t\<lparr>sb_telopt := b, buffer_pos := 0, tstate := x\<rparr>)" for x
    using inv by (simp add: telnet_inv_def sb_inv_def)
  have pi: "telnet_inv u \<Longrightarrow> telnet_inv (fst (process_iac u i st b))" for u i st
    by (simp add: process_iac_def)
  have pb: "telnet_inv u \<Longrightarrow> telnet_inv (process_iac_byte u b)" for u
    using pi[of u 0 0] by (simp add: process_iac_byte_def flush_data_def case_prod_beta)
  show ?thesis
    using inv buffer_byte_inv[OF inv] subnegotiate_inv[of "t\<lparr>tstate := x\<rparr>" for x]
      subnegotiate_inv[of "(warn f e m t)\<lparr>tstate := x\<rparr>" for x f e m] negotiate_inv(1)[OF inv] p0 pi pb
    by (cases "tstate t") (simp_all add: process_step_def Let_def case_prod_beta)
qed

lemma process_loop_inv: "telnet_inv t \<Longrightarrow> telnet_inv (process_loop t buf rest i st)"
proof (induction t buf rest i st rule: process_loop.induct)
  case (2 t buf b rest i st)
  then show ?case using process_step_inv[of t buf i st b] by (auto simp: Let_def split: prod.splits)
qed (simp add: flush_data_def)

lemma send_loop_inv [simp]: "telnet_inv (telnet_send_loop t buf rest i l) = telnet_inv t"
  by (induction rest arbitrary: t i l) (auto simp: Let_def)

lemma vprintf_loop_inv [simp]: "telnet_inv (telnet_vprintf_loop t buf rest i l) = telnet_inv t"
  by (induction rest arbitrary: t i l) (auto simp: Let_def)

text \<open>The trackers an application can reach: any sequence of library calls on a new tracker.\<close>

inductive telnet_reach :: "telnet_t \<Rightarrow> bool" where
  init: "telnet_init opts fl memory = Some t \<Longrightarrow> telnet_reach t"
| recv: "telnet_reach t \<Longrightarrow> telnet_reach (telnet_recv t buf)"
| negotiate: "telnet_reach t \<Longrightarrow> telnet_reach (telnet_negotiate t cmd p)"
| iac: "telnet_reach t \<Longrightarrow> telnet_reach (telnet_iac t cmd)"
| send: "telnet_reach t \<Longrightarrow> telnet_reach (telnet_send t buf)"
| begin_sb: "telnet_reach t \<Longrightarrow> telnet_reach (telnet_begin_sb t p)"
| subnegotiation: "telnet_reach t \<Longrightarrow> telnet_reach (telnet_subnegotiation t p buf)"
| vprintf: "telnet_reach t \<Longrightarrow> telnet_reach (snd (telnet_vprintf t buf))"
| raw_vprintf: "telnet_reach t \<Longrightarrow> telnet_reach (snd (telnet_raw_vprintf t buf))"
| ttype_send: "telnet_reach t \<Longrightarrow> telnet_reach (telnet_ttype_send t)"
| ttype_is: "telnet_reach t \<Longrightarrow> telnet_reach (telnet_ttype_is t buf)"

text \<open>
  C21: after any sequence of calls on a new tracker, whatever bytes arrive and whichever
  allocations fail, the subnegotiation buffer holds at most 16384 bytes and never more than
  its allocation, its allocated size is one of the table's, the option table is not read beyond
  its allocation and every stored option state is one of the six of RFC 1143.
\<close>

theorem telnet_reach_inv:
  assumes "telnet_reach t"
  shows "buffer_pos t \<le> buffer_size t \<and> buffer_size t = length (sb_buf t) \<and> buffer_size t \<le> 16384 \<and>
         unat (q_size t) \<le> length (q_tab t) \<and>
         list_all (\<lambda>q. Q_US q \<le> Q_WANTYES_OP \<and> Q_HIM q \<le> Q_WANTYES_OP) (q_tab t)"
proof -
  from assms have "telnet_inv t"
  proof induction
    case (init opts fl memory t)
    then show ?case
      by (auto simp: telnet_init_def telnet_inv_def opt_inv_def sb_inv_def buffer_sizes_def split: if_splits)
  next
    case (vprintf t buf)
    then show ?case by (auto simp: telnet_vprintf_def alloc_def split: bool.splits)
  next
    case (raw_vprintf t buf)
    then show ?case by (auto simp: telnet_raw_vprintf_def telnet_send_def alloc_def split: bool.splits)
  qed (simp_all add: telnet_recv_def process_def process_loop_inv negotiate_inv telnet_send_def
      telnet_begin_sb_def telnet_subnegotiation_def telnet_ttype_send_def telnet_ttype_is_def
      telnet_finish_sb_def Let_def)
  then show ?thesis
    using find_size_cases[of "buffer_size t"]
    by (auto simp: telnet_inv_def opt_inv_def sb_inv_def q_valid_def list_all_iff)
qed

theorem telnet_reach_inv_witness:
  "buffer_pos (telnet_recv (the (telnet_init None 0 (\<lambda>_. True))) (TELNET_IAC # TELNET_SB # replicate 20000 7)) \<le> 16384"
proof -
  have "telnet_reach (the (telnet_init None 0 (\<lambda>_. True)))"
    by (rule telnet_reach.init[of None 0 "\<lambda>_. True"]) (simp add: telnet_init_def)
  from telnet_reach_inv[OF telnet_reach.recv[OF this]] show ?thesis by (meson order_trans)
qed

section \<open>Round trips\<close>

definition escape :: "bytes \<Rightarrow> bytes" where
  "escape xs = concat (map (\<lambda>b. if b = TELNET_IAC then [TELNET_IAC, TELNET_IAC] else [b]) xs)"

lemma escape_simps [simp]:
  "escape [] = []" "escape (b # xs) = (if b = 255 then [255, 255] else [b]) @ escape xs"
  "escape (xs @ ys) = escape xs @ escape ys"
  by (simp_all add: escape_def)

lemma length_escape: "length (escape xs) \<le> 2 * length xs"
  by (induction xs) auto

lemma sent_send_raw [simp]: "sent (telnet_send_raw t bs) = sent t @ bs" "sent (telnet_iac t c) = sent t @ [255, c]"
  by (simp_all add: telnet_send_raw_def telnet_iac_def)

lemma sent_send_loop:
  assumes "buf = pre @ rest" "length pre = i" "l \<le> i"
  shows "sent (telnet_send_loop t buf rest i l) = sent t @ take (i - l) (drop l buf) @ escape rest"
  using assms
proof (induction rest arbitrary: t pre i l)
  case (Cons x rest)
  have "take (Suc i - l) (drop l buf) = take (i - l) (drop l buf) @ [x]"
    using Cons.prems by (simp add: Suc_diff_le take_Suc_conv_app_nth nth_append)
  with Cons.IH[of "pre @ [x]" "i + 1" l] Cons.IH[of "pre @ [x]" "i + 1" "i + 1"] Cons.prems
  show ?case by (auto simp: Let_def)
qed simp

lemma sent_telnet_send [simp]: "sent (telnet_send t buf) = sent t @ escape buf"
  using sent_send_loop[of buf "[]" buf 0 0 t] by (simp add: telnet_send_def)

lemma recv_Nil [simp]: "telnet_recv t [] = t"
  by (simp add: telnet_recv_def process_def flush_data_def)

lemma recv_data_byte:
  assumes "tstate t = TELNET_STATE_DATA" "b \<noteq> 255"
  shows "telnet_recv t [b] = eh (TELNET_EV_DATA [b] 1) t"
  using assms by (simp add: telnet_recv_def process_def process_step_def flush_data_def data_event_def)

lemma recv_data_iac:
  assumes "tstate t = TELNET_STATE_DATA"
  shows "telnet_recv t [255, 255] = eh (TELNET_EV_DATA [255] 1) t"
  using assms
  by (simp add: telnet_recv_def process_def process_step_def process_iac_def flush_data_def eh_def)

lemma recv_same_run: "same_run t t' \<Longrightarrow> same_run (telnet_recv t xs) (telnet_recv t' xs)"
  by (simp add: telnet_recv_def process_def same_run_process_loop)

lemma recv_append:
  assumes "no_mccp1 t (xs @ ys)" "length (xs @ ys) < 2 ^ 64"
  shows "same_run (telnet_recv t (xs @ ys)) (telnet_recv (telnet_recv t xs) ys)"
  using process_loop_append[of xs "[]" xs 0 0 ys t] assms
  by (simp add: telnet_recv_def process_def)

lemma no_mccp1_append:
  assumes "length (xs @ ys) < 2 ^ 64" "no_mccp1 t xs" "no_mccp1 (telnet_recv t xs) ys"
  shows "no_mccp1 t (xs @ ys)"
  using assms
proof (induction xs arbitrary: t)
  case (Cons b xs)
  have "same_run (telnet_recv t ([b] @ xs)) (telnet_recv (telnet_recv t [b]) xs)"
    using Cons.prems by (intro recv_append) auto
  then have "no_mccp1 (telnet_recv (telnet_recv t [b]) xs) ys"
    using Cons.prems(3) no_mccp1_cong by auto
  with Cons show ?case by simp
qed simp

lemma no_mccp1_prefix: "no_mccp1 t (xs @ ys) \<Longrightarrow> no_mccp1 t xs"
  by (induction xs arbitrary: t) auto

lemma no_mccp1_suffix:
  assumes "no_mccp1 t (xs @ ys)" "length (xs @ ys) < 2 ^ 64"
  shows "no_mccp1 (telnet_recv t xs) ys"
  using assms
proof (induction xs arbitrary: t)
  case (Cons b xs)
  have "same_run (telnet_recv t ([b] @ xs)) (telnet_recv (telnet_recv t [b]) xs)"
    using Cons.prems no_mccp1_prefix[of t "b # xs" ys] by (intro recv_append) auto
  with Cons no_mccp1_cong show ?case by auto
qed simp

text \<open>Any way of cutting the input into pieces.\<close>

lemma recv_concat:
  assumes "no_mccp1 t (concat ws)" "length (concat ws) < 2 ^ 64"
  shows "same_run (telnet_recv t (concat ws)) (foldl telnet_recv t ws)"
  using assms
proof (induction ws arbitrary: t)
  case (Cons w ws)
  have "same_run (telnet_recv t (w @ concat ws)) (telnet_recv (telnet_recv t w) (concat ws))"
    using Cons.prems by (intro recv_append) auto
  moreover have "same_run (telnet_recv (telnet_recv t w) (concat ws)) (foldl telnet_recv (telnet_recv t w) ws)"
    using Cons.prems no_mccp1_suffix[of t w "concat ws"] by (intro Cons.IH) auto
  ultimately show ?case by (auto intro: same_run_trans)
qed simp

lemma recv_escape:
  assumes "tstate t = TELNET_STATE_DATA" "length (escape xs) < 2 ^ 64"
  shows "same_run (telnet_recv t (escape xs)) (t\<lparr>ev_log := ev_log t @ map (\<lambda>b. TELNET_EV_DATA [b] 1) xs\<rparr>)"
    and "no_mccp1 t (escape xs)"
proof -
  have "same_run (telnet_recv t (escape xs)) (t\<lparr>ev_log := ev_log t @ map (\<lambda>b. TELNET_EV_DATA [b] 1) xs\<rparr>) \<and>
     no_mccp1 t (escape xs)"
    using assms
  proof (induction xs arbitrary: t)
    case (Cons b xs)
    let ?e = "if b = 255 then [255, 255] else [b]" and ?t = "eh (TELNET_EV_DATA [b] 1) t"
    have r: "telnet_recv t ?e = ?t" using Cons.prems by (simp add: recv_data_byte recv_data_iac)
    have nm: "no_mccp1 t ?e"
      using Cons.prems(1)
      by (simp add: mccp1_def telnet_recv_def process_def process_step_def flush_data_def eh_def)
    have ts: "tstate ?t = TELNET_STATE_DATA" using Cons.prems by (simp add: eh_def)
    have IH: "same_run (telnet_recv ?t (escape xs)) (?t\<lparr>ev_log := ev_log ?t @ map (\<lambda>b. TELNET_EV_DATA [b] 1) xs\<rparr>)"
      "no_mccp1 ?t (escape xs)"
      using Cons.IH[OF ts] Cons.prems(2) by auto
    have nm': "no_mccp1 t (?e @ escape xs)"
      using nm IH(2) r Cons.prems(2) by (intro no_mccp1_append) auto
    have "same_run (telnet_recv t (?e @ escape xs)) (telnet_recv ?t (escape xs))"
      using recv_append[OF nm'] r Cons.prems(2) by simp
    from same_run_trans[OF this IH(1)] nm' show ?case by (simp add: eh_def)
  qed (simp add: same_run_def)
  then show "same_run (telnet_recv t (escape xs)) (t\<lparr>ev_log := ev_log t @ map (\<lambda>b. TELNET_EV_DATA [b] 1) xs\<rparr>)"
    "no_mccp1 t (escape xs)" by blast+
qed

lemma flat_data_bytes: "flat (map (\<lambda>b. TELNET_EV_DATA [b] 1) xs) = map Inl xs"
  by (induction xs) (auto simp: flat_def)

text \<open>
  C22: data arrives as it was sent. Whatever bytes \<open>telnet_send\<close> is given (IAC bytes included),
  a tracker in the data state that receives what was sent, cut into calls of \<open>telnet_recv\<close> in
  any way, reports exactly these bytes as data, no other event, and is otherwise unchanged.
\<close>

theorem telnet_send_recv:
  assumes "tstate r = TELNET_STATE_DATA" "length buf < 2 ^ 62"
    and "sent (telnet_send s buf) = sent s @ concat ws"
  shows "flat (ev_log (foldl telnet_recv r ws)) = flat (ev_log r) @ map Inl buf \<and>
         (foldl telnet_recv r ws)\<lparr>ev_log := ev_log r\<rparr> = r"
proof -
  from assms(3) have w: "concat ws = escape buf" by simp
  have len: "length (concat ws) < 2 ^ 64" using length_escape[of buf] assms(2) w by simp
  have e: "same_run (telnet_recv r (escape buf)) (r\<lparr>ev_log := ev_log r @ map (\<lambda>b. TELNET_EV_DATA [b] 1) buf\<rparr>)"
    "no_mccp1 r (escape buf)"
    using recv_escape[OF assms(1), of buf] len w by auto
  have "same_run (telnet_recv r (escape buf)) (foldl telnet_recv r ws)"
    using recv_concat[of r ws] e(2) len w by simp
  from same_run_trans[OF same_run_sym[OF this] e(1)]
  have c: "(foldl telnet_recv r ws)\<lparr>ev_log := []\<rparr> = r\<lparr>ev_log := []\<rparr>"
    and f: "flat (ev_log (foldl telnet_recv r ws)) = flat (ev_log r) @ map Inl buf"
    by (simp_all add: same_run_def flat_data_bytes)
  have "(foldl telnet_recv r ws)\<lparr>ev_log := ev_log r\<rparr> = ((foldl telnet_recv r ws)\<lparr>ev_log := []\<rparr>)\<lparr>ev_log := ev_log r\<rparr>"
    by simp
  also have "\<dots> = r" unfolding c by simp
  finally show ?thesis using f by simp
qed

theorem telnet_send_recv_witness:
  "flat (ev_log (foldl telnet_recv data_telnet [[104, 255], [255, 105]])) = [Inl 104, Inl 255, Inl 105]"
  using telnet_send_recv[of data_telnet "[104, 255, 105]" data_telnet "[[104, 255], [255, 105]]"]
  by (simp add: data_telnet_def sample_telnet_def)

lemma buffer_byte_tstate:
  "buffer_byte (t\<lparr>tstate := x\<rparr>) b = (fst (buffer_byte t b), (snd (buffer_byte t b))\<lparr>tstate := x\<rparr>)"
  by (auto simp: buffer_byte_def alloc_def telnet_error_def eh_def Let_def split: bool.splits)

text \<open>A tracker inside a subnegotiation that has received \<open>dat\<close> so far.\<close>

definition in_sb :: "telnet_t \<Rightarrow> u8 \<Rightarrow> bytes \<Rightarrow> telnet_t \<Rightarrow> bool" where
  "in_sb t0 p dat t \<longleftrightarrow> tstate t = TELNET_STATE_SB_DATA \<and> sb_telopt t = p \<and> sb_inv t \<and>
     take (length dat) (sb_buf t) = dat \<and> buffer_pos t = length dat \<and> ev_log t = ev_log t0 \<and>
     telopts t = telopts t0 \<and> q_tab t = q_tab t0 \<and> q_size t = q_size t0 \<and> flags t = flags t0 \<and> mem t = mem t0"

lemma in_sb_start:
  assumes "tstate t = TELNET_STATE_DATA" "sb_inv t"
  shows "in_sb t p [] (telnet_recv t [255, 250, p])" "no_mccp1 t [255, 250, p]"
proof -
  have u: "telnet_recv t [255] = t\<lparr>tstate := TELNET_STATE_IAC\<rparr>"
    "telnet_recv (t\<lparr>tstate := TELNET_STATE_IAC\<rparr>) [250] = t\<lparr>tstate := TELNET_STATE_SB\<rparr>"
    using assms by (simp_all add: telnet_recv_def process_def process_step_def process_iac_def flush_data_def)
  show "in_sb t p [] (telnet_recv t [255, 250, p])"
    using assms by (simp add: telnet_recv_def process_def process_step_def process_iac_def flush_data_def
        in_sb_def sb_inv_def)
  show "no_mccp1 t [255, 250, p]" using assms u by (simp add: mccp1_def)
qed

lemma in_sb_byte:
  assumes "in_sb t0 p dat t" "length dat < 16384" "\<forall>n. mem t0 n" "p = 85 \<longrightarrow> b \<noteq> 251"
  defines "e \<equiv> if b = 255 then [255, 255] else [b]"
  shows "in_sb t0 p (dat @ [b]) (telnet_recv t e)" "no_mccp1 t e"
proof -
  have t: "tstate t = TELNET_STATE_SB_DATA" "sb_telopt t = p" "sb_inv t" "buffer_pos t = length dat" "mem t = mem t0"
    using assms(1) by (simp_all add: in_sb_def)
  have ok: "buffer_pos t < buffer_size t \<or> buffer_size t < 16384 \<and> mem t (mem_calls t)"
    using t assms(2,3) by (auto simp: sb_inv_def)
  from buffer_byte_ok[OF t(3) ok, of b] obtain buf sz k where bb:
    "buffer_byte t b = (TELNET_EOK, t\<lparr>mem_calls := k, sb_buf := buf, buffer_size := sz, buffer_pos := buffer_pos t + 1\<rparr>)"
    "sz \<in> set buffer_sizes" "length buf = sz" "buffer_pos t < sz"
    "take (buffer_pos t + 1) buf = take (buffer_pos t) (sb_buf t) @ [b]" by blast
  have "telnet_recv t e = snd (buffer_byte t b)"
    using t(1,2) bb(1) assms(4) unfolding e_def
    by (auto simp: telnet_recv_def process_def process_step_def flush_data_def buffer_byte_tstate)
  with bb assms(1) show "in_sb t0 p (dat @ [b]) (telnet_recv t e)"
    by (auto simp: in_sb_def sb_inv_def)
  show "no_mccp1 t e"
    using t(1,2) assms(4) unfolding e_def
    by (auto simp: mccp1_def telnet_recv_def process_def process_step_def flush_data_def)
qed

lemma in_sb_bytes:
  assumes "in_sb t0 p dat t" "length (dat @ xs) \<le> 16384" "\<forall>n. mem t0 n" "p = 85 \<longrightarrow> 251 \<notin> set xs"
  shows "\<exists>t'. in_sb t0 p (dat @ xs) t' \<and> same_run (telnet_recv t (escape xs)) t' \<and> no_mccp1 t (escape xs)"
  using assms
proof (induction xs arbitrary: t dat)
  case (Cons b xs)
  let ?e = "if b = 255 then [255, 255] else [b]"
  have e: "in_sb t0 p (dat @ [b]) (telnet_recv t ?e)" "no_mccp1 t ?e"
    using in_sb_byte[OF Cons.prems(1), of b] Cons.prems by auto
  from Cons.IH[OF e(1)] Cons.prems obtain t' where
    t': "in_sb t0 p (dat @ b # xs) t'" "same_run (telnet_recv (telnet_recv t ?e) (escape xs)) t'"
    "no_mccp1 (telnet_recv t ?e) (escape xs)" by auto
  have len: "length (?e @ escape xs) < 2 ^ 64"
    using length_escape[of xs] Cons.prems(2) by (auto split: if_splits)
  have nm: "no_mccp1 t (?e @ escape xs)" using no_mccp1_append[OF len e(2) t'(3)] .
  from same_run_trans[OF recv_append[OF nm len] t'(2)] t'(1) nm show ?case
    by (intro exI[of _ t']) (simp only: escape_simps(2) simp_thms)
qed (auto simp: in_sb_def)

lemma in_sb_end:
  assumes "in_sb t0 p dat t"
  shows "telnet_recv t [255, 240] = snd (subnegotiate (t\<lparr>tstate := TELNET_STATE_DATA\<rparr>))" "no_mccp1 t [255, 240]"
proof -
  have t: "tstate t = TELNET_STATE_SB_DATA" using assms by (simp add: in_sb_def)
  have 1: "telnet_recv t [255] = t\<lparr>tstate := TELNET_STATE_SB_DATA_IAC\<rparr>"
    using t by (simp add: telnet_recv_def process_def process_step_def flush_data_def)
  show "telnet_recv t [255, 240] = snd (subnegotiate (t\<lparr>tstate := TELNET_STATE_DATA\<rparr>))"
    using t by (simp add: telnet_recv_def process_def process_step_def flush_data_def case_prod_beta)
  show "no_mccp1 t [255, 240]" using t 1 by (simp add: mccp1_def)
qed

text \<open>Receiving one complete subnegotiation leads to its dispatch, with the data in the buffer.\<close>

lemma recv_subnegotiation:
  assumes "tstate r = TELNET_STATE_DATA" "sb_inv r" "\<forall>n. mem r n" "length dat \<le> 16384"
    and "p = 85 \<longrightarrow> 251 \<notin> set dat"
    and "concat ws = [255, 250, p] @ escape dat @ [255, 240]"
  shows "\<exists>u. in_sb r p dat u \<and>
     same_run (foldl telnet_recv r ws) (snd (subnegotiate (u\<lparr>tstate := TELNET_STATE_DATA\<rparr>)))"
proof -
  note st = in_sb_start[OF assms(1,2), of p]
  let ?r1 = "telnet_recv r [255, 250, p]"
  obtain u where u: "in_sb r p dat u" "same_run (telnet_recv ?r1 (escape dat)) u" "no_mccp1 ?r1 (escape dat)"
    using in_sb_bytes[OF st(1)] assms by auto
  have len: "length (concat ws) < 2 ^ 64" using length_escape[of dat] assms(4,6) by simp
  have nm2: "no_mccp1 ?r1 (escape dat @ [255, 240])"
    using no_mccp1_append[OF _ u(3)] no_mccp1_cong[OF u(2)] in_sb_end(2)[OF u(1)] len assms(6) by auto
  have nm: "no_mccp1 r ([255, 250, p] @ escape dat @ [255, 240])"
    using no_mccp1_append[OF _ st(2) nm2] len assms(6) by auto
  have "same_run (foldl telnet_recv r ws) (telnet_recv r (concat ws))"
    using recv_concat[of r ws] nm len assms(6) same_run_sym by auto
  also have "same_run \<dots> (telnet_recv ?r1 (escape dat @ [255, 240]))"
    using recv_append[OF nm] len assms(6) by auto
  also (same_run_trans) have "same_run \<dots> (telnet_recv (telnet_recv ?r1 (escape dat)) [255, 240])"
    using recv_append[OF nm2] len assms(6) by auto
  also (same_run_trans) have "same_run \<dots> (telnet_recv u [255, 240])" using recv_same_run[OF u(2)] .
  finally (same_run_trans) show ?thesis using u(1) in_sb_end(1)[OF u(1)] by auto
qed

text \<open>
  Subnegotiations arrive as they were sent. For every option without a decoder of its own
  and every payload of at most 16384 bytes (IAC bytes included), a tracker in the data state that
  receives what \<open>telnet_subnegotiation\<close> sent, cut in any way, reports exactly one event with
  the option and the payload and is in the data state again.
\<close>

theorem telnet_subnegotiation_recv:
  assumes "tstate r = TELNET_STATE_DATA" "sb_inv r" "\<forall>n. mem r n" "length dat \<le> 16384"
    and "p \<notin> {TELNET_TELOPT_ZMP, TELNET_TELOPT_TTYPE, TELNET_TELOPT_ENVIRON, TELNET_TELOPT_NEW_ENVIRON,
               TELNET_TELOPT_MSSP}"
    and "p = TELNET_TELOPT_COMPRESS \<longrightarrow> TELNET_WILL \<notin> set dat"
    and "sent (telnet_subnegotiation s p dat) = sent s @ concat ws"
  shows "flat (ev_log (foldl telnet_recv r ws)) =
           flat (ev_log r) @ [Inr (TELNET_EV_SUBNEGOTIATION p dat)] \<and>
         tstate (foldl telnet_recv r ws) = TELNET_STATE_DATA"
proof -
  have "concat ws = [255, 250, p] @ escape dat @ [255, 240]"
    using assms(7) by (simp add: telnet_subnegotiation_def Let_def)
  from recv_subnegotiation[OF assms(1-4,6) this] obtain u where
    u: "in_sb r p dat u" "same_run (foldl telnet_recv r ws) (snd (subnegotiate (u\<lparr>tstate := TELNET_STATE_DATA\<rparr>)))"
    by blast
  have "snd (subnegotiate (u\<lparr>tstate := TELNET_STATE_DATA\<rparr>)) =
      eh (TELNET_EV_SUBNEGOTIATION p dat) (u\<lparr>tstate := TELNET_STATE_DATA\<rparr>)"
    using assms(5) u(1) by (simp add: subnegotiate_def in_sb_def eh_def Let_def)
  with u same_run_tstate[OF u(2)] show ?thesis by (simp add: same_run_def in_sb_def eh_def)
qed

lemma data_telnet_ready [simp]:
  "tstate data_telnet = TELNET_STATE_DATA" "sb_inv data_telnet" "mem data_telnet n" "ev_log data_telnet = []"
  "sent data_telnet = []"
  by (simp_all add: data_telnet_def sample_telnet_def sb_inv_def buffer_sizes_def sent_def)

theorem telnet_subnegotiation_recv_witness:
  "flat (ev_log (foldl telnet_recv data_telnet [[255, 250, 31, 0], [80, 255], [255, 24, 255, 240]])) =
     [Inr (TELNET_EV_SUBNEGOTIATION 31 [0, 80, 255, 24])]"
  using telnet_subnegotiation_recv[of data_telnet "[0, 80, 255, 24]" 31 data_telnet
      "[[255, 250, 31, 0], [80, 255], [255, 24, 255, 240]]"]
  by (simp add: telnet_subnegotiation_def Let_def)

text \<open>The arguments of a ZMP command, each with its NUL.\<close>

lemma sent_zmp_args: "sent (foldl telnet_zmp_arg t args) = sent t @ escape (concat (map (\<lambda>a. a @ [0]) args))"
  by (induction args arbitrary: t) (auto simp: telnet_zmp_arg_def)

lemma zmp_args_concat: "\<forall>a \<in> set args. 0 \<notin> set a \<Longrightarrow> zmp_args (concat (map (\<lambda>a. a @ [0]) args)) = args"
proof (induction args)
  case (Cons a args)
  let ?r = "concat (map (\<lambda>a. a @ [0]) args)"
  have c: "cstr_of (a @ 0 # ?r) = a" using Cons.prems by (simp add: cstr_of_terminated)
  obtain x xs where x: "a @ 0 # ?r = x # xs" by (cases "a @ 0 # ?r") auto
  have "zmp_args (a @ 0 # ?r) = a # zmp_args (drop (length a + 1) (a @ 0 # ?r))"
    unfolding x using zmp_args.simps(2)[of x xs] c[unfolded x] by simp
  with Cons show ?case by simp
qed simp

text \<open>
  ZMP commands arrive as they were sent: the command name and the arguments given to
  \<open>telnet_send_zmp\<close> (C strings, so without NUL), of at most 16384 bytes with their
  terminators, are reported by one ZMP event with the same list of strings.
\<close>

theorem telnet_send_zmp_recv:
  assumes "tstate r = TELNET_STATE_DATA" "sb_inv r" "\<forall>n. mem r n"
    and "argv \<noteq> []" "\<forall>a \<in> set argv. 0 \<notin> set a"
    and "length (concat (map (\<lambda>a. a @ [0]) argv)) \<le> 16384"
    and "sent (telnet_send_zmp s argv) = sent s @ concat ws"
  shows "flat (ev_log (foldl telnet_recv r ws)) = flat (ev_log r) @
           [Inr (TELNET_EV_SUBNEGOTIATION TELNET_TELOPT_ZMP (concat (map (\<lambda>a. a @ [0]) argv))),
            Inr (TELNET_EV_ZMP argv)]"
proof -
  let ?dat = "concat (map (\<lambda>a. a @ [0]) argv)"
  obtain c args where argv: "argv = c # args" using assms(4) by (cases argv) auto
  have "concat ws = [255, 250, 93] @ escape ?dat @ [255, 240]"
    using assms(7) by (simp add: telnet_send_zmp_def telnet_begin_zmp_def telnet_begin_sb_def telnet_finish_sb_def
        sent_zmp_args argv telnet_zmp_arg_def)
  from recv_subnegotiation[OF assms(1-3,6) _ this] obtain u where
    u: "in_sb r 93 ?dat u" "same_run (foldl telnet_recv r ws) (snd (subnegotiate (u\<lparr>tstate := TELNET_STATE_DATA\<rparr>)))"
    by auto
  have pos: "buffer_pos u = length ?dat" "take (length ?dat) (sb_buf u) = ?dat" "mem u (mem_calls u)"
    using u(1) assms(3) by (simp_all add: in_sb_def)
  have ne: "?dat \<noteq> []" "last ?dat = 0" using argv by (cases args rule: rev_cases; simp)+
  have "length ?dat - 1 < length ?dat" using diff_less[OF zero_less_one, of "length ?dat"] ne(1)
    unfolding length_greater_0_conv by blast
  from nth_take[OF this, of "sb_buf u"] have "sb_buf u ! (length ?dat - 1) = 0"
    unfolding pos(2) last_conv_nth[OF ne(1), symmetric] ne(2) by (rule sym)
  then have "snd (subnegotiate (u\<lparr>tstate := TELNET_STATE_DATA\<rparr>)) = eh (TELNET_EV_ZMP argv)
      ((eh (TELNET_EV_SUBNEGOTIATION 93 ?dat) (u\<lparr>tstate := TELNET_STATE_DATA\<rparr>))\<lparr>mem_calls := mem_calls u + 1\<rparr>)"
    using u(1) pos ne(1) zmp_args_concat[OF assms(5)]
    by (simp add: subnegotiate_def zmp_telnet_def alloc_def in_sb_def eh_def Let_def)
  with u show ?thesis by (simp add: same_run_def in_sb_def eh_def flat_def)
qed

theorem telnet_send_zmp_recv_witness:
  "flat (ev_log (foldl telnet_recv data_telnet [[255, 250, 93, 65, 0, 66], [67, 0, 255, 240]])) =
     [Inr (TELNET_EV_SUBNEGOTIATION 93 [65, 0, 66, 67, 0]), Inr (TELNET_EV_ZMP [[65], [66, 67]])]"
  using telnet_send_zmp_recv[of data_telnet "[[65], [66, 67]]" data_telnet "[[255, 250, 93, 65, 0, 66], [67, 0, 255, 240]]"]
  by (simp add: telnet_send_zmp_def telnet_begin_zmp_def telnet_begin_sb_def telnet_finish_sb_def telnet_zmp_arg_def)

text \<open>
  The sequence of MCCP version 1 makes the library report data it does not have. When the
  input ends after the \<open>WILL\<close> of \<open>IAC SB 85 WILL\<close>, \<open>start\<close> lies behind the end, the
  \<open>size_t\<close> difference wraps and the handler gets a data event of \<open>2^64 - 1\<close> bytes.
\<close>

theorem telnet_recv_mccp1_underflow:
  assumes "tstate t = TELNET_STATE_SB_DATA" "sb_telopt t = TELNET_TELOPT_COMPRESS"
  shows "ev_log (telnet_recv t [TELNET_WILL]) = ev_log t @ [TELNET_EV_DATA [] (- 1)] \<and>
         unat (- 1 :: u64) = 2 ^ 64 - 1"
  using assms
  by (simp add: telnet_recv_def process_def process_step_def flush_data_def data_event_def eh_def
      unsigned_minus_1_eq_mask mask_eq_exp_minus_1)

theorem telnet_recv_mccp1_underflow_witness:
  "ev_log (telnet_recv (data_telnet\<lparr>tstate := TELNET_STATE_SB_DATA, sb_telopt := 85\<rparr>) [251]) = [TELNET_EV_DATA [] (- 1)]"
  using telnet_recv_mccp1_underflow[of "data_telnet\<lparr>tstate := TELNET_STATE_SB_DATA, sb_telopt := 85\<rparr>"] by simp

end
