(* ===== verification/Xbee_Serial.thy ===== *)
theory Xbee_Serial
  imports Prelude
begin

text \<open>
  \<open>src/Software/lib/XBee/src/posix/xbee_serial_posix.c\<close>: the serial interface of the XBee
  library on POSIX systems. The terminal behind the file descriptor is part of the record: the
  bytes it has received and not yet handed out (\<open>os_rx\<close>), the bytes written to it
  (\<open>os_tx\<close>), its settings and modem lines. Whether the \<open>n\<close>-th system call fails, and
  with which \<open>errno\<close>, is the parameter \<open>os_fail\<close>; how many bytes a \<open>write\<close> accepts is
  \<open>os_room\<close>. A \<open>read\<close> on the non-blocking descriptor hands out what is there, and fails
  with \<open>EAGAIN\<close> when nothing is.
\<close>

section \<open>The port and the terminal behind it\<close>

record xbee_serial_t =
  baudrate :: u32
  ser_fd :: int
  ser_device :: bytes
  os_rx :: bytes
  os_tx :: bytes
  os_speed :: u32
  os_cflag :: u32
  os_modem :: u32
  os_brk :: bool
  os_fail :: "nat \<Rightarrow> nat option"
  os_room :: "nat \<Rightarrow> nat"
  os_calls :: nat

abbreviation (input) INT_MAX :: int where "INT_MAX \<equiv> 2147483647"

abbreviation (input) CLOCAL :: u32 where "CLOCAL \<equiv> 0x800"
abbreviation (input) CREAD :: u32 where "CREAD \<equiv> 0x80"
abbreviation (input) CSIZE :: u32 where "CSIZE \<equiv> 0x30"
abbreviation (input) CS8 :: u32 where "CS8 \<equiv> 0x30"
abbreviation (input) CRTSCTS :: u32 where "CRTSCTS \<equiv> 0x80000000"
abbreviation (input) TIOCM_RTS :: u32 where "TIOCM_RTS \<equiv> 0x04"
abbreviation (input) TIOCM_CTS :: u32 where "TIOCM_CTS \<equiv> 0x20"

text \<open>A system call: the \<open>errno\<close> it fails with, if it fails.\<close>

definition syscall :: "xbee_serial_t \<Rightarrow> nat option \<times> xbee_serial_t" where
  "syscall s = (os_fail s (os_calls s), s\<lparr>os_calls := os_calls s + 1\<rparr>)"

definition os_write :: "xbee_serial_t \<Rightarrow> bytes \<Rightarrow> (nat + nat) \<times> xbee_serial_t" where
  "os_write s buf =
     (let n = min (length buf) (os_room s (os_calls s)) in
      case syscall s of
        (Some e, s) \<Rightarrow> (Inl e, s)
      | (None, s) \<Rightarrow> (Inr n, s\<lparr>os_tx := os_tx s @ take n buf\<rparr>))"

definition os_read :: "xbee_serial_t \<Rightarrow> nat \<Rightarrow> (nat + bytes) \<times> xbee_serial_t" where
  "os_read s n =
     (case syscall s of
        (Some e, s) \<Rightarrow> (Inl e, s)
      | (None, s) \<Rightarrow>
          if os_rx s = [] \<and> n > 0 then (Inl (nat EAGAIN), s)
          else (Inr (take n (os_rx s)), s\<lparr>os_rx := drop n (os_rx s)\<rparr>))"

section \<open>Reading and writing\<close>

text \<open>\<open>None\<close> is the null pointer.\<close>

definition xbee_ser_invalid :: "xbee_serial_t option \<Rightarrow> bool" where
  "xbee_ser_invalid serial = (case serial of Some s \<Rightarrow> \<not> ser_fd s \<ge> 0 | None \<Rightarrow> True)"

definition xbee_ser_portname :: "xbee_serial_t option \<Rightarrow> bytes" where
  "xbee_ser_portname serial =
     (case serial of None \<Rightarrow> str_bytes ''(invalid)'' | Some s \<Rightarrow> cstr_of (ser_device s))"

definition xbee_ser_write :: "xbee_serial_t \<Rightarrow> bytes \<Rightarrow> int \<Rightarrow> int \<times> xbee_serial_t" where
  "xbee_ser_write s buf len =
     (if xbee_ser_invalid (Some s) then (- EINVAL, s)
      else if len < 0 then (- EINVAL, s)
      else
        (case os_write s (take (nat len) buf) of
           (Inl e, s) \<Rightarrow> (- int e, s)
         | (Inr n, s) \<Rightarrow> (int n, s)))"

text \<open>The second result is what was stored at the start of the caller's buffer.\<close>

definition xbee_ser_read :: "xbee_serial_t \<Rightarrow> int \<Rightarrow> int \<times> bytes \<times> xbee_serial_t" where
  "xbee_ser_read s bufsize =
     (if xbee_ser_invalid (Some s) then (- EINVAL, [], s)
      else if bufsize < 0 then (- EINVAL, [], s)
      else
        (case os_read s (nat bufsize) of
           (Inl e, s) \<Rightarrow> if int e = EAGAIN then (0, [], s) else (- int e, [], s)
         | (Inr bs, s) \<Rightarrow> (int (length bs), bs, s)))"

definition xbee_ser_putchar :: "xbee_serial_t \<Rightarrow> u8 \<Rightarrow> int \<times> xbee_serial_t" where
  "xbee_ser_putchar s ch =
     (let (retval, s) = xbee_ser_write s [ch] 1 in
      if retval = 1 then (0, s) else if retval = 0 then (- ENOSPC, s) else (retval, s))"

definition xbee_ser_getchar :: "xbee_serial_t \<Rightarrow> int \<times> xbee_serial_t" where
  "xbee_ser_getchar s =
     (case xbee_ser_read s 1 of
        (retval, bs, s) \<Rightarrow>
          if retval \<noteq> 1 then (if retval \<noteq> 0 then retval else - ENODATA, s) else (uint (hd bs), s))"

definition xbee_ser_tx_free :: "xbee_serial_t \<Rightarrow> int" where
  "xbee_ser_tx_free s = (if xbee_ser_invalid (Some s) then - EINVAL else INT_MAX)"

definition xbee_ser_tx_used :: "xbee_serial_t \<Rightarrow> int" where
  "xbee_ser_tx_used s = (if xbee_ser_invalid (Some s) then - EINVAL else 0)"

text \<open>\<open>tcflush\<close> discards what the terminal holds; bytes already in \<open>os_tx\<close> count as sent.\<close>

definition xbee_ser_tx_flush :: "xbee_serial_t \<Rightarrow> int \<times> xbee_serial_t" where
  "xbee_ser_tx_flush s = (if xbee_ser_invalid (Some s) then (- EINVAL, s) else (0, snd (syscall s)))"

definition xbee_ser_rx_free :: "xbee_serial_t \<Rightarrow> int" where
  "xbee_ser_rx_free s = (if xbee_ser_invalid (Some s) then - EINVAL else INT_MAX)"

definition xbee_ser_rx_used :: "xbee_serial_t \<Rightarrow> int \<times> xbee_serial_t" where
  "xbee_ser_rx_used s =
     (if xbee_ser_invalid (Some s) then (- EINVAL, s)
      else (case syscall s of (Some e, s) \<Rightarrow> (- int e, s) | (None, s) \<Rightarrow> (int (length (os_rx s)), s)))"

definition xbee_ser_rx_flush :: "xbee_serial_t \<Rightarrow> int \<times> xbee_serial_t" where
  "xbee_ser_rx_flush s =
     (if xbee_ser_invalid (Some s) then (- EINVAL, s)
      else (0, (case syscall s of (Some e, s) \<Rightarrow> s | (None, s) \<Rightarrow> s\<lparr>os_rx := []\<rparr>)))"

section \<open>Settings\<close>

definition xbee_ser_baudrate :: "xbee_serial_t \<Rightarrow> u32 \<Rightarrow> int \<times> xbee_serial_t" where
  "xbee_ser_baudrate s rate =
     (if xbee_ser_invalid (Some s) then (- EINVAL, s)
      else if rate \<notin> {0, 9600, 19200, 38400, 57600, 115200} then (- EINVAL, s)
      else
        (case syscall s of
           (Some e, s) \<Rightarrow> (- int e, s)
         | (None, s) \<Rightarrow>
             let cflag = os_cflag s OR (CLOCAL OR CREAD);
                 cflag = cflag AND NOT CSIZE;
                 cflag = cflag OR CS8
             in (case syscall s of
                   (Some e, s) \<Rightarrow> (- int e, s)
                 | (None, s) \<Rightarrow> (0, s\<lparr>os_speed := rate, os_cflag := cflag\<rparr>))))"

text \<open>\<open>fd\<close> is the descriptor \<open>open\<close> returns when it succeeds.\<close>

definition xbee_ser_open :: "xbee_serial_t \<Rightarrow> u32 \<Rightarrow> int \<Rightarrow> int \<times> xbee_serial_t" where
  "xbee_ser_open s rate fd =
     (let s = s\<lparr>ser_device := (ser_device s)[39 := 0]\<rparr> in
      case syscall s of
        (Some e, s) \<Rightarrow> (- int e, s\<lparr>ser_fd := - 1\<rparr>)
      | (None, s) \<Rightarrow>
          let s = s\<lparr>ser_fd := fd\<rparr>;
              s = snd (syscall s);
              s = snd (xbee_ser_baudrate s 0);
              (err, s) = xbee_ser_baudrate s rate
          in if err \<noteq> 0 then (err, s) else (0, s))"

definition xbee_ser_close :: "xbee_serial_t \<Rightarrow> int \<times> xbee_serial_t" where
  "xbee_ser_close s =
     (if xbee_ser_invalid (Some s) then (- EINVAL, s)
      else
        (case syscall s of
           (Some e, s) \<Rightarrow> (- int e, s\<lparr>ser_fd := - 1\<rparr>)
         | (None, s) \<Rightarrow> (0, s\<lparr>ser_fd := - 1\<rparr>)))"

definition xbee_ser_break :: "xbee_serial_t \<Rightarrow> bool \<Rightarrow> int \<times> xbee_serial_t" where
  "xbee_ser_break s enabled =
     (if xbee_ser_invalid (Some s) then (- EINVAL, s)
      else (case syscall s of (Some e, s) \<Rightarrow> (- int e, s) | (None, s) \<Rightarrow> (0, s\<lparr>os_brk := enabled\<rparr>)))"

definition xbee_ser_flowcontrol :: "xbee_serial_t \<Rightarrow> bool \<Rightarrow> int \<times> xbee_serial_t" where
  "xbee_ser_flowcontrol s enabled =
     (if xbee_ser_invalid (Some s) then (- EINVAL, s)
      else
        (case syscall s of
           (Some e, s) \<Rightarrow> (- int e, s)
         | (None, s) \<Rightarrow>
             let cflag = (if enabled then os_cflag s OR CRTSCTS else os_cflag s AND NOT CRTSCTS)
             in (case syscall s of
                   (Some e, s) \<Rightarrow> (- int e, s)
                 | (None, s) \<Rightarrow> (0, s\<lparr>os_cflag := cflag\<rparr>))))"

definition xbee_ser_set_rts :: "xbee_serial_t \<Rightarrow> bool \<Rightarrow> int \<times> xbee_serial_t" where
  "xbee_ser_set_rts s asserted =
     (if xbee_ser_invalid (Some s) then (- EINVAL, s)
      else
        let s = snd (xbee_ser_flowcontrol s False) in
        (case syscall s of
           (Some e, s) \<Rightarrow> (- int e, s)
         | (None, s) \<Rightarrow>
             let status = (if asserted then os_modem s OR TIOCM_RTS else os_modem s AND NOT TIOCM_RTS)
             in (case syscall s of
                   (Some e, s) \<Rightarrow> (- int e, s)
                 | (None, s) \<Rightarrow> (0, s\<lparr>os_modem := status\<rparr>))))"

definition xbee_ser_get_cts :: "xbee_serial_t \<Rightarrow> int \<times> xbee_serial_t" where
  "xbee_ser_get_cts s =
     (if xbee_ser_invalid (Some s) then (- EINVAL, s)
      else
        (case syscall s of
           (Some e, s) \<Rightarrow> (- int e, s)
         | (None, s) \<Rightarrow> (if os_modem s AND TIOCM_CTS \<noteq> 0 then 1 else 0, s)))"

section \<open>The port as a byte stream\<close>

text \<open>
  What the layers above rely on, stated for any port: reading takes bytes from the front of the
  received stream and returns their number, writing appends to the sent stream. \<open>ready\<close> holds
  of an open port on which calls do not fail and writes are not cut short.
\<close>

locale byte_port =
  fixes rd :: "'p \<Rightarrow> int \<Rightarrow> int \<times> bytes \<times> 'p"
    and wr :: "'p \<Rightarrow> bytes \<Rightarrow> int \<Rightarrow> int \<times> 'p"
    and inp :: "'p \<Rightarrow> bytes"
    and outp :: "'p \<Rightarrow> bytes"
    and ready :: "'p \<Rightarrow> bool"
  assumes rd_ready: "ready p \<Longrightarrow> 0 \<le> n \<Longrightarrow> rd p n = (r, bs, q) \<Longrightarrow>
      ready q \<and> bs = take (nat n) (inp p) \<and> r = int (length bs) \<and> inp q = drop (nat n) (inp p) \<and> outp q = outp p"
    and wr_ready: "ready p \<Longrightarrow> 0 \<le> n \<Longrightarrow> n < 2 ^ 16 \<Longrightarrow> n \<le> int (length bs) \<Longrightarrow> wr p bs n = (r, q) \<Longrightarrow>
      ready q \<and> r = n \<and> outp q = outp p @ take (nat n) bs \<and> inp q = inp p"
begin

text \<open>Writing several blocks one after the other.\<close>

fun wr_all :: "'p \<Rightarrow> bytes list \<Rightarrow> 'p" where
  "wr_all p [] = p"
| "wr_all p (b # bs) = wr_all (snd (wr p b (int (length b)))) bs"

lemma wr_all_out:
  "ready p \<Longrightarrow> \<forall>b \<in> set bs. length b < 2 ^ 16 \<Longrightarrow>
   outp (wr_all p bs) = outp p @ concat bs \<and> ready (wr_all p bs) \<and> inp (wr_all p bs) = inp p"
proof (induction bs arbitrary: p)
  case (Cons b bs)
  obtain r q where "wr p b (int (length b)) = (r, q)" by fastforce
  with Cons wr_ready[OF Cons.prems(1) _ _ _ this] show ?case by simp
qed simp

lemma rd_short: "ready p \<Longrightarrow> 0 \<le> n \<Longrightarrow> rd p n = (r, bs, q) \<Longrightarrow> r < n \<Longrightarrow> bs = inp p \<and> inp q = []"
  using rd_ready[of p n r bs q] by (auto simp: min_def split: if_splits)

end

definition ser_ready :: "xbee_serial_t \<Rightarrow> bool" where
  "ser_ready s \<longleftrightarrow> ser_fd s \<ge> 0 \<and> (\<forall>n. os_fail s n = None) \<and> (\<forall>n. os_room s n \<ge> 2 ^ 16)"

interpretation port: byte_port xbee_ser_read xbee_ser_write os_rx os_tx ser_ready
proof (unfold_locales, goal_cases)
  case (1 p n r bs q)
  then show ?case
    by (auto simp: xbee_ser_read_def xbee_ser_invalid_def os_read_def syscall_def ser_ready_def split: if_splits)
next
  case (2 p n bs r q)
  have "length (take (nat n) bs) = nat n" using 2 by auto
  moreover have "65536 \<le> os_room p (os_calls p)" using 2(1) by (simp add: ser_ready_def)
  then have "min (nat n) (os_room p (os_calls p)) = nat n" using 2(3) by (intro min_absorb1) auto
  ultimately show ?case using 2
    by (auto simp: xbee_ser_write_def xbee_ser_invalid_def os_write_def syscall_def ser_ready_def Let_def)
qed

text \<open>Every failing system call is reported as the negated \<open>errno\<close>, except \<open>EAGAIN\<close> on reading.\<close>

lemma xbee_ser_read_error:
  assumes "ser_fd s \<ge> 0" "0 \<le> n" "os_fail s (os_calls s) = Some e" "int e \<noteq> EAGAIN"
  shows "xbee_ser_read s n = (- int e, [], s\<lparr>os_calls := os_calls s + 1\<rparr>)"
  using assms by (simp add: xbee_ser_read_def xbee_ser_invalid_def os_read_def syscall_def)

lemma xbee_ser_read_bounds:
  "xbee_ser_read s n = (r, bs, q) \<Longrightarrow> 0 < r \<Longrightarrow>
   r \<le> n \<and> r = int (length bs) \<and> os_rx s = bs @ os_rx q"
  by (auto simp: xbee_ser_read_def os_read_def syscall_def split: if_splits option.splits)

text \<open>
  Opening a port. It succeeds exactly when the rate is one the driver supports and the
  system calls succeed; then the descriptor is the one the system returned, the line runs at the
  requested rate with eight data bits, and the received bytes are untouched.
\<close>

theorem xbee_ser_open_correct:
  assumes "\<forall>n. os_fail s n = None" "0 \<le> fd"
  shows "case xbee_ser_open s rate fd of (err, s') \<Rightarrow>
     ser_fd s' = fd \<and> os_rx s' = os_rx s \<and>
     (if rate \<in> {0, 9600, 19200, 38400, 57600, 115200}
      then err = 0 \<and> os_speed s' = rate \<and> os_cflag s' AND CSIZE = CS8
      else err = - EINVAL \<and> os_speed s' = 0)"
  using assms
  by (auto simp: xbee_ser_open_def xbee_ser_baudrate_def syscall_def xbee_ser_invalid_def Let_def)

text \<open>A port opened on a working terminal that holds some received bytes.\<close>

definition demo_port :: "bytes \<Rightarrow> xbee_serial_t" where
  "demo_port bs = \<lparr>baudrate = 9600, ser_fd = 3, ser_device = replicate 40 0, os_rx = bs, os_tx = [],
     os_speed = 9600, os_cflag = 0, os_modem = TIOCM_CTS, os_brk = False, os_fail = (\<lambda>_. None),
     os_room = (\<lambda>_. 2 ^ 16), os_calls = 0\<rparr>"

theorem xbee_ser_open_correct_witness:
  "case xbee_ser_open (demo_port [1, 2]) 115200 7 of (err, s') \<Rightarrow>
     ser_fd s' = 7 \<and> os_rx s' = [1, 2] \<and> err = 0 \<and> os_speed s' = 115200"
  using xbee_ser_open_correct[of "demo_port [1, 2]" 7 115200]
  by (simp add: demo_port_def split: prod.splits)

end
