(* ===== verification/Xbee_Device.thy ===== *)
theory Xbee_Device
  imports Wpan_Types Xbee_Serial
begin

text \<open>
  \<open>src/Software/lib/XBee/src/xbee/xbee_device.c\<close>: the frame layer between the serial port and
  the rest of the XBee library. Frames start with \<open>0x7E\<close> and a 16-bit length and end with a
  checksum; received ones are handed to the handlers of the application's dispatch table. The
  table is an argument; a handler maps a device and a frame to the device after it, and
  \<open>app\<close> is the application's own state behind the context pointers of the table. A device
  argument is never the null pointer: the tests for it are the only branches left out.
\<close>

section \<open>The device\<close>

datatype xbee_dev_rx_state =
    XBEE_RX_STATE_WAITSTART | XBEE_RX_STATE_LENGTH_MSB | XBEE_RX_STATE_LENGTH_LSB | XBEE_RX_STATE_RXFRAME

datatype xbee_dev_mode =
    XBEE_MODE_UNKNOWN | XBEE_MODE_BOOTLOADER | XBEE_MODE_API | XBEE_MODE_IDLE | XBEE_MODE_PRE_ESCAPE
  | XBEE_MODE_POST_ESCAPE | XBEE_MODE_COMMAND | XBEE_MODE_WAIT_IDLE | XBEE_MODE_WAIT_RESPONSE

abbreviation (input) XBEE_MAX_FRAME_LEN :: nat where "XBEE_MAX_FRAME_LEN \<equiv> 146"
abbreviation (input) XBEE_DEV_MAX_DISPATCH_PER_TICK :: u8 where "XBEE_DEV_MAX_DISPATCH_PER_TICK \<equiv> 5"

abbreviation (input) XBEE_DEV_FLAG_IN_TICK :: u16 where "XBEE_DEV_FLAG_IN_TICK \<equiv> 0x0080"
abbreviation (input) XBEE_DEV_FLAG_USE_FLOWCONTROL :: u16 where "XBEE_DEV_FLAG_USE_FLOWCONTROL \<equiv> 0x8000"

abbreviation (input) WPAN_FLAG_JOINED :: u16 where "WPAN_FLAG_JOINED \<equiv> 0x0001"
abbreviation (input) WPAN_FLAG_AUTHENTICATED :: u16 where "WPAN_FLAG_AUTHENTICATED \<equiv> 0x0002"

abbreviation (input) XBEE_FRAME_MODEM_STATUS :: u8 where "XBEE_FRAME_MODEM_STATUS \<equiv> 0x8A"

text \<open>
  \<open>reset_calls\<close> are the arguments of the calls of the optional reset function so far;
  \<open>endpoint_table\<close> is the pointer kept for the ZigBee layers. The last five fields of the
  structure are there because the build defines \<open>XBEE_DEVICE_ENABLE_ATMODE\<close>.
\<close>

record 'a xbee_dev_t =
  wpan_address :: wpan_address_t
  wpan_payload :: u16
  wpan_flags :: u16
  endpoint_table :: u64
  serport :: xbee_serial_t
  has_reset :: bool
  reset_calls :: "bool list"
  hardware_version :: u16
  firmware_version :: u32
  dev_flags :: u16
  rx_state :: xbee_dev_rx_state
  bytes_in_frame :: u16
  bytes_read :: u16
  frame_data :: bytes
  frame_id :: u8
  mode :: xbee_dev_mode
  mode_timer :: u32
  guard_time :: u16
  idle_timeout :: u16
  escape_char :: u8
  app :: 'a

type_synonym 'a frame_handler = "'a xbee_dev_t \<Rightarrow> bytes \<Rightarrow> 'a xbee_dev_t"

text \<open>An entry of \<open>xbee_frame_handlers\<close>: frame type, frame ID and handler with its context.\<close>

type_synonym 'a dispatch_entry = "u8 \<times> u8 \<times> 'a frame_handler"

definition xbee_next_frame_id :: "'a xbee_dev_t \<Rightarrow> u8 \<times> 'a xbee_dev_t" where
  "xbee_next_frame_id x =
     (let x = x\<lparr>frame_id := frame_id x + 1\<rparr>;
          x = (if frame_id x = 0 then x\<lparr>frame_id := 1\<rparr> else x)
      in (frame_id x, x))"

text \<open>
  \<open>memset\<close> clears the device; \<open>a\<close> is the application's state, \<open>fd\<close> the descriptor the
  system returns.
\<close>

definition xbee_dev_init :: "xbee_serial_t \<Rightarrow> int \<Rightarrow> bool \<Rightarrow> 'a \<Rightarrow> int \<times> 'a xbee_dev_t" where
  "xbee_dev_init ser fd reset a =
     (let (err, s) = xbee_ser_open ser (baudrate ser) fd;
          (err, s) = (if err = 0 then xbee_ser_flowcontrol s True else (err, s))
      in (err,
          \<lparr>wpan_address = \<lparr>ieee = replicate 8 0, network = 0\<rparr>, wpan_payload = 0, wpan_flags = 0,
           endpoint_table = 0,
           serport = s, has_reset = reset, reset_calls = (if reset then [False] else []),
           hardware_version = 0, firmware_version = 0, dev_flags = XBEE_DEV_FLAG_USE_FLOWCONTROL,
           rx_state = XBEE_RX_STATE_WAITSTART, bytes_in_frame = 0, bytes_read = 0,
           frame_data = replicate (XBEE_MAX_FRAME_LEN + 1) 0, frame_id = 0,
           mode = XBEE_MODE_UNKNOWN, mode_timer = 0, guard_time = 1000, idle_timeout = 100,
           escape_char = 0x2B, app = a\<rparr>))"

definition xbee_dev_flowcontrol :: "'a xbee_dev_t \<Rightarrow> bool \<Rightarrow> 'a xbee_dev_t" where
  "xbee_dev_flowcontrol x enabled =
     (if enabled then x\<lparr>dev_flags := dev_flags x OR XBEE_DEV_FLAG_USE_FLOWCONTROL\<rparr>
      else x\<lparr>dev_flags := dev_flags x AND NOT XBEE_DEV_FLAG_USE_FLOWCONTROL\<rparr>)"

text \<open>The wait between the two calls of the reset function changes nothing of the device.\<close>

definition xbee_dev_reset :: "'a xbee_dev_t \<Rightarrow> int \<times> 'a xbee_dev_t" where
  "xbee_dev_reset x =
     (if \<not> has_reset x then (- EIO, x)
      else (0, x\<lparr>reset_calls := reset_calls x @ [True, False], mode := XBEE_MODE_UNKNOWN\<rparr>))"

section \<open>Sending a frame\<close>

text \<open>\<open>length\<close> is a \<open>uint_fast8_t\<close>; \<open>checksum_loop\<close> is the loop over its bytes.\<close>

fun checksum_loop :: "bytes \<Rightarrow> u8 \<Rightarrow> u8" where
  "checksum_loop [] ck = ck"
| "checksum_loop (p # ps) ck = checksum_loop ps (ck - p)"

definition xbee_checksum :: "bytes \<Rightarrow> u8 \<Rightarrow> u8 \<Rightarrow> u8" where
  "xbee_checksum bs len initial = checksum_loop (take (unat len) bs) initial"

text \<open>The first part of \<open>xbee_frame_write\<close>: the state of the CTS line.\<close>

definition frame_cts :: "'a xbee_dev_t \<Rightarrow> int \<times> 'a xbee_dev_t" where
  "frame_cts x =
     (if xbee_ser_invalid (Some (serport x)) then (- EINVAL, x)
      else if dev_flags x AND XBEE_DEV_FLAG_USE_FLOWCONTROL \<noteq> 0 then
        let (c, s) = xbee_ser_get_cts (serport x) in (c, x\<lparr>serport := s\<rparr>)
      else (1, x))"

text \<open>Writing a header or a payload and adding it to the checksum.\<close>

definition frame_part :: "xbee_serial_t \<Rightarrow> bytes option \<Rightarrow> u16 \<Rightarrow> u8 \<Rightarrow> xbee_serial_t \<times> u8" where
  "frame_part s b len ck =
     (if len \<noteq> 0 then (snd (xbee_ser_write s (the b) (uint len)), xbee_checksum (the b) (ucast len) ck)
      else (s, ck))"

definition xbee_frame_write ::
  "'a xbee_dev_t \<Rightarrow> bytes option \<Rightarrow> u16 \<Rightarrow> bytes option \<Rightarrow> u16 \<Rightarrow> int \<times> 'a xbee_dev_t" where
  "xbee_frame_write x header headerlen data datalen =
     (let (cts, x) = frame_cts x
      in if cts = - EINVAL then (- EINVAL, x)
         else
           let headerlen = (if header = None then 0 else headerlen);
               datalen = (if data = None then 0 else datalen)
           in if \<not> (headerlen \<noteq> 0 \<or> datalen \<noteq> 0) then (- ENODATA, x)
              else
                let free = xbee_ser_tx_free (serport x);
                    used = xbee_ser_tx_used (serport x);
                    framesize = uint headerlen + uint datalen + 3 + 1
                in if cts = 0 \<or> free < framesize then
                     (if framesize - free > used then - EMSGSIZE else - EBUSY, x)
                   else
                     let s = snd (xbee_ser_write (serport x) (0x7E # be16_bytes (headerlen + datalen)) 3);
                         (s, ck) = frame_part s header headerlen 0xFF;
                         (s, ck) = frame_part s data datalen ck;
                         s = snd (xbee_ser_write s [ck] 1)
                     in (0, x\<lparr>serport := s\<rparr>))"

section \<open>Dispatching a frame\<close>

definition xbee_dev_modem_status :: "'a xbee_dev_t \<Rightarrow> u8 \<Rightarrow> 'a xbee_dev_t" where
  "xbee_dev_modem_status x status =
     (if status = 0x06 then
        x\<lparr>wpan_address := (wpan_address x)\<lparr>network := WPAN_NET_ADDR_COORDINATOR\<rparr>,
          wpan_flags := wpan_flags x OR (WPAN_FLAG_JOINED OR WPAN_FLAG_AUTHENTICATED)\<rparr>
      else if status = 0x10 then
        x\<lparr>wpan_flags := (wpan_flags x OR WPAN_FLAG_AUTHENTICATED) OR WPAN_FLAG_JOINED\<rparr>
      else if status = 0x02 then x\<lparr>wpan_flags := wpan_flags x OR WPAN_FLAG_JOINED\<rparr>
      else if status = 0x00 \<or> status = 0x01 \<or> status = 0x03 then
        x\<lparr>wpan_flags := wpan_flags x AND NOT (WPAN_FLAG_JOINED OR WPAN_FLAG_AUTHENTICATED),
          wpan_address := (wpan_address x)\<lparr>network := WPAN_NET_ADDR_UNDEFINED\<rparr>\<rparr>
      else x)"

fun dispatch_loop :: "'a dispatch_entry list \<Rightarrow> 'a xbee_dev_t \<Rightarrow> bytes \<Rightarrow> u8 \<Rightarrow> u8 \<Rightarrow> int \<Rightarrow> int \<times> 'a xbee_dev_t" where
  "dispatch_loop [] x frame ty fid n = (n, x)"
| "dispatch_loop ((ety, eid, h) # es) x frame ty fid n =
     (if ety = 0xFF then (n, x)
      else if ety = ty \<and> (eid = 0 \<or> eid = fid)
      then dispatch_loop es (h x frame) frame ty fid (n + 1)
      else dispatch_loop es x frame ty fid n)"

text \<open>A frame given by the receiver has at least two bytes; an empty one is refused.\<close>

definition xbee_frame_dispatch :: "'a dispatch_entry list \<Rightarrow> 'a xbee_dev_t \<Rightarrow> bytes \<Rightarrow> int \<times> 'a xbee_dev_t" where
  "xbee_frame_dispatch tab x frame =
     (if frame = [] then (- EINVAL, x)
      else
        let ty = frame ! 0; fid = frame ! 1;
            x = (if ty = XBEE_FRAME_MODEM_STATUS then xbee_dev_modem_status x fid else x)
        in dispatch_loop tab x frame ty fid 0)"

section \<open>Receiving frames\<close>

text \<open>
  The variable \<open>ch\<close> of \<open>_xbee_frame_load\<close> is not initialised and keeps its value when a
  read fails; it is passed along. A step ends the function with a result (\<open>Inl\<close>) or goes on
  with the loop (\<open>Inr\<close>).
\<close>

type_synonym 'a load_result = "(int \<times> 'a xbee_dev_t) + ('a xbee_dev_t \<times> u8 \<times> u8)"

definition load_rxframe :: "'a dispatch_entry list \<Rightarrow> 'a xbee_dev_t \<Rightarrow> u8 \<Rightarrow> u8 \<Rightarrow> 'a load_result" where
  "load_rxframe tab x ch dispatched =
     (let bytes_left = uint (bytes_in_frame x) - uint (bytes_read x) + 1;
          (rd, bs, s) = xbee_ser_read (serport x) bytes_left;
          x = x\<lparr>serport := s, frame_data := buf_write (frame_data x) (unat (bytes_read x)) bs\<rparr>
      in if rd \<noteq> bytes_left then
           Inl (uint dispatched, if rd > 0 then x\<lparr>bytes_read := bytes_read x + of_int rd\<rparr> else x)
         else
           let x = x\<lparr>rx_state := XBEE_RX_STATE_WAITSTART\<rparr> in
           if xbee_checksum (frame_data x) (ucast (bytes_in_frame x + 1)) 0xFF \<noteq> 0 then Inr (x, ch, dispatched)
           else
             let dispatched = dispatched + 1;
                 x = snd (xbee_frame_dispatch tab x (take (unat (bytes_in_frame x)) (frame_data x)))
             in if dispatched = XBEE_DEV_MAX_DISPATCH_PER_TICK then Inl (uint dispatched, x)
                else Inr (x, ch, dispatched))"

definition load_lsb :: "'a dispatch_entry list \<Rightarrow> 'a xbee_dev_t \<Rightarrow> u8 \<Rightarrow> u8 \<Rightarrow> 'a load_result" where
  "load_lsb tab x ch dispatched =
     (let (rd, bs, s) = xbee_ser_read (serport x) 1;
          x = x\<lparr>serport := s\<rparr>;
          ch = (if bs = [] then ch else hd bs)
      in if rd = 0 then Inl (uint dispatched, x)
         else
           let x = x\<lparr>bytes_in_frame := bytes_in_frame x + ucast ch\<rparr>;
               len = unat (bytes_in_frame x)
           in if len > XBEE_MAX_FRAME_LEN \<or> len < 2 then
                Inr (x\<lparr>rx_state := (if ch = 0x7E then XBEE_RX_STATE_LENGTH_MSB else XBEE_RX_STATE_WAITSTART)\<rparr>,
                     ch, dispatched)
              else load_rxframe tab (x\<lparr>rx_state := XBEE_RX_STATE_RXFRAME, bytes_read := 0\<rparr>) ch dispatched)"

definition load_msb :: "'a dispatch_entry list \<Rightarrow> 'a xbee_dev_t \<Rightarrow> u8 \<Rightarrow> u8 \<Rightarrow> 'a load_result" where
  "load_msb tab x ch dispatched =
     (let (rd, bs, s) = xbee_ser_read (serport x) 1;
          x = x\<lparr>serport := s\<rparr>;
          ch = (if bs = [] then ch else hd bs)
      in if rd = 0 then Inl (uint dispatched, x)
         else if ch = 0x7E then Inr (x, ch, dispatched)
         else load_lsb tab (x\<lparr>bytes_in_frame := push_bit 8 (ucast ch), rx_state := XBEE_RX_STATE_LENGTH_LSB\<rparr>)
                ch dispatched)"

text \<open>The inner loop that looks for the start marker: was it found?\<close>

function load_waitstart :: "xbee_serial_t \<Rightarrow> u8 \<Rightarrow> bool \<times> u8 \<times> xbee_serial_t" where
  "load_waitstart s ch =
     (let (rd, bs, s') = xbee_ser_read s 1;
          ch = (if bs = [] then ch else hd bs)
      in if rd \<noteq> 1 then (False, ch, s')
         else if ch \<noteq> 0x7E then load_waitstart s' ch
         else (True, ch, s'))"
  by pat_completeness auto
termination
proof (relation "measure (\<lambda>(s, _). length (os_rx s))", goal_cases)
  case (2 s ch r rd q bs s' ch')
  then have "xbee_ser_read s 1 = (1, bs, s')" by simp
  from xbee_ser_read_bounds[OF this] show ?case by auto
qed simp

declare load_waitstart.simps [simp del]

definition load_step :: "'a dispatch_entry list \<Rightarrow> 'a xbee_dev_t \<Rightarrow> u8 \<Rightarrow> u8 \<Rightarrow> 'a load_result" where
  "load_step tab x ch dispatched =
     (case rx_state x of
        XBEE_RX_STATE_WAITSTART \<Rightarrow>
          (case load_waitstart (serport x) ch of
             (False, ch, s) \<Rightarrow> Inl (uint dispatched, x\<lparr>serport := s\<rparr>)
           | (True, ch, s) \<Rightarrow>
               load_msb tab (x\<lparr>serport := s, rx_state := XBEE_RX_STATE_LENGTH_MSB\<rparr>) ch dispatched)
      | XBEE_RX_STATE_LENGTH_MSB \<Rightarrow> load_msb tab x ch dispatched
      | XBEE_RX_STATE_LENGTH_LSB \<Rightarrow> load_lsb tab x ch dispatched
      | XBEE_RX_STATE_RXFRAME \<Rightarrow> load_rxframe tab x ch dispatched)"

text \<open>The \<open>for (;;)\<close> loop, with a bound on the number of rounds; \<open>None\<close>: it has not returned.\<close>

fun load_loop :: "nat \<Rightarrow> 'a dispatch_entry list \<Rightarrow> 'a xbee_dev_t \<Rightarrow> u8 \<Rightarrow> u8 \<Rightarrow> (int \<times> 'a xbee_dev_t) option" where
  "load_loop 0 tab x ch dispatched = None"
| "load_loop (Suc n) tab x ch dispatched =
     (case load_step tab x ch dispatched of
        Inl r \<Rightarrow> Some r
      | Inr (x, ch, dispatched) \<Rightarrow> load_loop n tab x ch dispatched)"

definition xbee_frame_load :: "nat \<Rightarrow> 'a dispatch_entry list \<Rightarrow> 'a xbee_dev_t \<Rightarrow> u8 \<Rightarrow> (int \<times> 'a xbee_dev_t) option" where
  "xbee_frame_load fuel tab x ch =
     (if xbee_ser_invalid (Some (serport x)) then Some (- EINVAL, x) else load_loop fuel tab x ch 0)"

definition xbee_dev_tick :: "nat \<Rightarrow> 'a dispatch_entry list \<Rightarrow> 'a xbee_dev_t \<Rightarrow> u8 \<Rightarrow> (int \<times> 'a xbee_dev_t) option" where
  "xbee_dev_tick fuel tab x ch =
     (if dev_flags x AND XBEE_DEV_FLAG_IN_TICK \<noteq> 0 then Some (- EBUSY, x)
      else
        map_option (\<lambda>(frames, x). (frames, x\<lparr>dev_flags := dev_flags x AND NOT XBEE_DEV_FLAG_IN_TICK\<rparr>))
          (xbee_frame_load fuel tab (x\<lparr>dev_flags := dev_flags x OR XBEE_DEV_FLAG_IN_TICK\<rparr>) ch))"

section \<open>Printing the modem status\<close>

definition modem_status_str :: "u8 \<Rightarrow> string" where
  "modem_status_str st =
     (if st = 0x00 then ''hardware reset'' else if st = 0x01 then ''watchdog timeout''
      else if st = 0x02 then ''joined'' else if st = 0x03 then ''disassociated''
      else if st = 0x06 then ''coordinator started'' else if st = 0x07 then ''key updated''
      else if st = 0x0D then ''overvoltage'' else if st = 0x0B then ''woke up''
      else if st = 0x0C then ''sleeping'' else if st = 0x10 then ''key established''
      else if st = 0x11 then ''config change during join'' else if st = 0x80 then ''stack error''
      else ''undefined'')"

text \<open>The status printed and the result; \<open>None\<close> is a null frame.\<close>

definition xbee_frame_dump_modem_status :: "bytes option \<Rightarrow> int \<times> (string \<times> u8) option" where
  "xbee_frame_dump_modem_status payload =
     (case payload of None \<Rightarrow> (- EINVAL, None)
      | Some f \<Rightarrow> (0, Some (modem_status_str (f ! 1), f ! 1)))"

end
