(* ===== verification/Xbee_Frames.thy ===== *)
theory Xbee_Frames
  imports Xbee_Device
begin

text \<open>
  The receiver of \<open>xbee_device.c\<close> against a specification that takes one byte at a time: what
  a byte does to the decoder's state and which payload it completes. \<open>xbee_dev_tick\<close> reads
  blocks, keeps its state over calls and stops after five frames; it is shown to refine the
  specification, always to return on a working port, and to deliver the frames that
  \<open>xbee_frame_write\<close> produces.
\<close>

section \<open>The byte decoder\<close>

datatype rx_spec = Wait | Msb | Lsb u8 | Rx nat bytes

fun decode_step :: "rx_spec \<Rightarrow> u8 \<Rightarrow> rx_spec \<times> bytes list" where
  "decode_step Wait b = (if b = 0x7E then Msb else Wait, [])"
| "decode_step Msb b = (if b = 0x7E then Msb else Lsb b, [])"
| "decode_step (Lsb h) b =
     (let n = 256 * unat h + unat b in
      if n < 2 \<or> XBEE_MAX_FRAME_LEN < n then (if b = 0x7E then Msb else Wait, []) else (Rx n [], []))"
| "decode_step (Rx n acc) b =
     (if length acc < n then (Rx n (acc @ [b]), [])
      else (Wait, if sum_list acc + b = 0xFF then [acc] else []))"

fun decode :: "rx_spec \<Rightarrow> bytes \<Rightarrow> rx_spec \<times> bytes list" where
  "decode a [] = (a, [])"
| "decode a (b # bs) =
     (let (a, fs) = decode_step a b; (a, gs) = decode a bs in (a, fs @ gs))"

lemma decode_append:
  "decode a (bs @ cs) = (let (a, fs) = decode a bs; (a, gs) = decode a cs in (a, fs @ gs))"
  by (induction bs arbitrary: a) (auto simp: split_beta Let_def)

lemma decode_appendI:
  "decode a bs = (a', fs) \<Longrightarrow> decode a' cs = (a'', gs) \<Longrightarrow> decode a (bs @ cs) = (a'', fs @ gs)"
  by (simp add: decode_append)

lemma decode_Wait_noise: "0x7E \<notin> set bs \<Longrightarrow> decode Wait bs = (Wait, [])"
  by (induction bs) auto

lemma decode_Rx_part: "length acc + length bs \<le> n \<Longrightarrow> decode (Rx n acc) bs = (Rx n (acc @ bs), [])"
  by (induction bs arbitrary: acc) auto

lemma decode_Rx_full:
  assumes "length acc + length bs = n + 1" "length acc \<le> n"
  shows "decode (Rx n acc) bs =
     (Wait, if sum_list (acc @ bs) = 0xFF then [take n (acc @ bs)] else [])"
proof -
  from assms obtain cs b where bs: "bs = cs @ [b]" "length acc + length cs = n"
    by (cases bs rule: rev_cases) auto
  then show ?thesis by (simp add: decode_append decode_Rx_part Let_def add.assoc flip: bs(2))
qed

section \<open>The receiver's state\<close>

text \<open>The receiver's fields in a device that stands for a state of the decoder.\<close>

fun rx_rel :: "'a xbee_dev_t \<Rightarrow> rx_spec \<Rightarrow> bool" where
  "rx_rel x Wait \<longleftrightarrow> rx_state x = XBEE_RX_STATE_WAITSTART \<and> length (frame_data x) = 147"
| "rx_rel x Msb \<longleftrightarrow> rx_state x = XBEE_RX_STATE_LENGTH_MSB \<and> length (frame_data x) = 147"
| "rx_rel x (Lsb h) \<longleftrightarrow> rx_state x = XBEE_RX_STATE_LENGTH_LSB \<and> length (frame_data x) = 147 \<and>
     unat (bytes_in_frame x) = 256 * unat h"
| "rx_rel x (Rx n acc) \<longleftrightarrow> rx_state x = XBEE_RX_STATE_RXFRAME \<and> length (frame_data x) = 147 \<and>
     unat (bytes_in_frame x) = n \<and> 2 \<le> n \<and> n \<le> XBEE_MAX_FRAME_LEN \<and>
     unat (bytes_read x) = length acc \<and> length acc \<le> n \<and> take (length acc) (frame_data x) = acc"

text \<open>Handlers that act on the application's state only, and what a frame does to it.\<close>

type_synonym 'a app_table = "(u8 \<times> u8 \<times> ('a \<Rightarrow> bytes \<Rightarrow> 'a)) list"

definition app_entries :: "'a app_table \<Rightarrow> 'a dispatch_entry list" where
  "app_entries gs = map (\<lambda>(ty, fid, g). (ty, fid, \<lambda>x f. x\<lparr>app := g (app x) f\<rparr>)) gs"

definition app_dispatch :: "'a app_table \<Rightarrow> bytes \<Rightarrow> 'a \<Rightarrow> 'a" where
  "app_dispatch gs f =
     fold (\<lambda>(ty, fid, g) a. if ty = f ! 0 \<and> (fid = 0 \<or> fid = f ! 1) then g a f else a)
       (takeWhile (\<lambda>(ty, _). ty \<noteq> 0xFF) gs)"

lemma dispatch_loop_app:
  "\<exists>n'. dispatch_loop (app_entries gs) x f (f ! 0) (f ! 1) n =
        (n', x\<lparr>app := app_dispatch gs f (app x)\<rparr>)"
proof (induction gs arbitrary: x n)
  case (Cons e gs)
  obtain ty fid g where e: "e = (ty, fid, g)" by (cases e)
  show ?case
    using Cons[of "x\<lparr>app := g (app x) f\<rparr>"] Cons[of x]
    by (auto simp: e app_entries_def app_dispatch_def)
qed (simp add: app_entries_def app_dispatch_def)

lemma xbee_frame_dispatch_app:
  assumes "f \<noteq> []"
  shows "\<exists>w fl. snd (xbee_frame_dispatch (app_entries gs) x f) =
     x\<lparr>wpan_address := w, wpan_flags := fl, app := app_dispatch gs f (app x)\<rparr>"
proof -
  have *: "snd (dispatch_loop (app_entries gs) y f (f ! 0) (f ! 1) 0) =
      y\<lparr>app := app_dispatch gs f (app y)\<rparr>" for y
    using dispatch_loop_app[of gs y f 0] by auto
  have "\<exists>w fl. xbee_dev_modem_status x st = x\<lparr>wpan_address := w, wpan_flags := fl\<rparr>" for st
    by (cases x) (auto simp: xbee_dev_modem_status_def)
  then obtain w fl where m: "xbee_dev_modem_status x (f ! 1) = x\<lparr>wpan_address := w, wpan_flags := fl\<rparr>"
    by blast
  show ?thesis
  proof (cases "f ! 0 = XBEE_FRAME_MODEM_STATUS")
    case True
    with assms * [of "xbee_dev_modem_status x (f ! 1)"] show ?thesis
      by (intro exI[of _ w] exI[of _ fl]) (simp add: xbee_frame_dispatch_def m[unfolded One_nat_def] Let_def)
  next
    case False
    with assms show ?thesis
      by (intro exI[of _ "wpan_address x"] exI[of _ "wpan_flags x"])
        (simp add: xbee_frame_dispatch_def *[unfolded One_nat_def] Let_def)
  qed
qed

text \<open>
  From \<open>x\<close>, standing for \<open>a\<close>, to \<open>x'\<close>, standing for \<open>a'\<close>: some bytes were taken from
  the port, the decoder turned them into the payloads \<open>fs\<close>, and these were dispatched.
\<close>

definition received :: "'a app_table \<Rightarrow> 'a xbee_dev_t \<Rightarrow> rx_spec \<Rightarrow> 'a xbee_dev_t \<Rightarrow> rx_spec \<Rightarrow> bytes list \<Rightarrow> bool" where
  "received gs x a x' a' fs \<longleftrightarrow>
     ser_ready (serport x') \<and> rx_rel x' a' \<and>
     app x' = fold (app_dispatch gs) fs (app x) \<and> os_tx (serport x') = os_tx (serport x) \<and>
     dev_flags x' = dev_flags x \<and>
     (\<exists>cs. os_rx (serport x) = cs @ os_rx (serport x') \<and> decode a cs = (a', fs))"

lemma received_trans:
  "received gs x a y b fs \<Longrightarrow> received gs y b z c gs' \<Longrightarrow> received gs x a z c (fs @ gs')"
  unfolding received_def by (auto intro: decode_appendI)

section \<open>One round of the receiver\<close>

lemma checksum_loop_sum: "checksum_loop bs ck = ck - sum_list bs"
  by (induction bs arbitrary: ck) auto

lemma rd1_ready:
  assumes "ser_ready s" "xbee_ser_read s 1 = (r, bs, s')"
  shows "ser_ready s' \<and> os_tx s' = os_tx s \<and>
     (r = 0 \<and> bs = [] \<and> os_rx s = [] \<and> os_rx s' = [] \<or> (\<exists>b. r = 1 \<and> bs = [b] \<and> os_rx s = b # os_rx s'))"
  using port.rd_ready[OF assms(1) _ assms(2)] by (cases "os_rx s") auto

text \<open>
  The outcome of one round, started with \<open>d\<close> frames dispatched: a round that ends the function
  has delivered five frames or emptied the port, one that goes on has taken a byte.
\<close>

fun round_ok :: "'a app_table \<Rightarrow> 'a xbee_dev_t \<Rightarrow> rx_spec \<Rightarrow> u8 \<Rightarrow> 'a load_result \<Rightarrow> bool" where
  "round_ok gs x a d (Inl (n, x')) \<longleftrightarrow>
     (\<exists>a' fs. received gs x a x' a' fs \<and> n = uint d + int (length fs) \<and> n \<le> 5 \<and>
        (n = 5 \<or> os_rx (serport x') = []))"
| "round_ok gs x a d (Inr (x', _, d')) \<longleftrightarrow>
     (\<exists>a' fs. received gs x a x' a' fs \<and> uint d' = uint d + int (length fs) \<and> uint d' < 5 \<and>
        length (os_rx (serport x')) < length (os_rx (serport x)))"

lemma round_ok_trans:
  assumes "received gs x a y b []" "round_ok gs y b d r"
  shows "round_ok gs x a d r"
proof -
  have "length (os_rx (serport y)) \<le> length (os_rx (serport x))"
    using assms(1) by (auto simp: received_def)
  then show ?thesis
    using assms(2)
    by (cases "(gs, x, a, d, r)" rule: round_ok.cases)
      (fastforce dest: received_trans[OF assms(1)])+
qed

text \<open>What the read of a frame's rest yields, with the buffer after it.\<close>

lemma rx_read:
  assumes "ser_ready (serport x)" "rx_rel x (Rx n acc)"
  obtains left r bs s buf where
    "uint (bytes_in_frame x) - uint (bytes_read x) + 1 = left" "left = int (n - length acc + 1)"
    "xbee_ser_read (serport x) left = (r, bs, s)" "r = int (length bs)" "r \<le> left"
    "r = left \<or> os_rx s = []" "ser_ready s" "os_rx (serport x) = bs @ os_rx s"
    "os_tx s = os_tx (serport x)" "buf_write (frame_data x) (length acc) bs = buf"
    "length buf = 147" "take (length acc + length bs) buf = acc @ bs"
proof -
  define left where "left = int (n - length acc + 1)"
  obtain r bs s where rd: "xbee_ser_read (serport x) left = (r, bs, s)" by (metis prod_cases3)
  have left: "uint (bytes_in_frame x) - uint (bytes_read x) + 1 = left" "0 \<le> left"
    using assms(2) by (auto simp: left_def uint_nat)
  have p: "ser_ready s" "r = int (length bs)" "os_rx (serport x) = bs @ os_rx s"
    "os_tx s = os_tx (serport x)" "r \<le> left" "r = left \<or> os_rx s = []"
    using port.rd_ready[OF assms(1) left(2) rd] left(2) by (auto simp: min_def split: if_splits)
  have "length bs \<le> n + 1 - length acc" "length acc \<le> n"
    using p assms(2) by (auto simp: left_def)
  with assms(2) show thesis
    using take_buf_write_end[of "length acc" bs "frame_data x"]
    by (intro that[OF left(1) left_def rd p(2,5,6,1,3,4) refl]) auto
qed

lemma load_rxframe_ok:
  assumes "ser_ready (serport x)" "rx_rel x (Rx n acc)" "uint d < 5"
  shows "round_ok gs x (Rx n acc) d (load_rxframe (app_entries gs) x ch d)"
proof -
  obtain left r bs s buf where left: "uint (bytes_in_frame x) - uint (bytes_read x) + 1 = left"
    "left = int (n - length acc + 1)" and rd: "xbee_ser_read (serport x) left = (r, bs, s)"
    and p: "r = int (length bs)" "r \<le> left" "r = left \<or> os_rx s = []" "ser_ready s"
    "os_rx (serport x) = bs @ os_rx s" "os_tx s = os_tx (serport x)"
    and buf: "buf_write (frame_data x) (length acc) bs = buf" "length buf = 147"
    "take (length acc + length bs) buf = acc @ bs"
    using rx_read[OF assms(1,2)] .
  have len: "length acc \<le> n" "2 \<le> n" "n \<le> 146" "unat (bytes_in_frame x) = n" "unat (bytes_read x) = length acc"
    using assms(2) by auto
  note step = load_rxframe_def left(1) rd Let_def buf(1) len(5) received_def
  show ?thesis
  proof (cases "r = left")
    case False
    then have short: "length acc + length bs \<le> n" using p len left(2) by auto
    have "bytes_read x + of_int r = of_nat (length acc + length bs)"
      using p by (simp flip: len(5))
    then have "unat (bytes_read x + of_int r) = length acc + length bs"
      using short len by (simp add: unat_of_nat del: of_nat_add)
    moreover have "(if r > 0 then y\<lparr>bytes_read := bytes_read x + of_int r\<rparr> else y) =
        y\<lparr>bytes_read := bytes_read x + of_int r\<rparr>" if "y = x\<lparr>serport := s, frame_data := buf\<rparr>" for y
      using p that by (cases x) auto
    ultimately show ?thesis
      using False p buf len short decode_Rx_part[of acc bs n] assms(2,3)
      by (auto simp: step intro!: exI[of _ "Rx n (acc @ bs)"])
  next
    case True
    define y f where "y = x\<lparr>serport := s, frame_data := buf, rx_state := XBEE_RX_STATE_WAITSTART\<rparr>"
      and "f = take n (acc @ bs)"
    have full: "length acc + length bs = n + 1" using p len left(2) True by auto
    have y: "serport y = s" "rx_rel y Wait" "app y = app x" "dev_flags y = dev_flags x"
      using buf by (simp_all add: y_def)
    have dec: "decode (Rx n acc) bs = (Wait, if sum_list (acc @ bs) = 0xFF then [f] else [])"
      using decode_Rx_full[OF full len(1)] by (simp add: f_def)
    have "unat (ucast (bytes_in_frame x + 1) :: u8) = n + 1"
      using len by (simp add: unsigned_ucast_eq unat_word_ariths take_bit_eq_mod)
    then have ck: "xbee_checksum buf (ucast (bytes_in_frame x + 1)) 0xFF = 0 \<longleftrightarrow> sum_list (acc @ bs) = 0xFF"
      using full buf(3) by (simp add: xbee_checksum_def checksum_loop_sum eq_commute[of 255])
    have f: "take n buf = f" "f \<noteq> []"
      using arg_cong[OF buf(3), of "take n"] full len(2) by (auto simp: f_def)
    show ?thesis
    proof (cases "sum_list (acc @ bs) = 0xFF")
      case bad: False
      then show ?thesis
        using True p y assms(3) full len dec
        by (auto simp: step ck simp flip: y_def intro!: exI[of _ Wait] exI[of _ "[]"])
    next
      case good: True
      obtain w fl where "snd (xbee_frame_dispatch (app_entries gs) y f) =
          y\<lparr>wpan_address := w, wpan_flags := fl, app := app_dispatch gs f (app y)\<rparr>"
        using xbee_frame_dispatch_app[OF f(2), of gs y] by auto
      then have "received gs x (Rx n acc) (snd (xbee_frame_dispatch (app_entries gs) y f)) Wait [f]"
        "length (os_rx (serport (snd (xbee_frame_dispatch (app_entries gs) y f)))) < length (os_rx (serport x))"
        using p y good dec full len by (auto simp: received_def)
      moreover have "uint (d + 1) = uint d + 1"
        using assms(3) by (simp add: uint_word_ariths)
      moreover have "d + 1 = 5 \<longleftrightarrow> uint d + 1 = 5"
        using calculation(3) by (auto simp: word_uint_eq_iff)
      ultimately show ?thesis
        using True good len full assms(3)
        by (auto simp: load_rxframe_def left(1) rd Let_def buf(1) ck f simp flip: y_def
            intro!: exI[of _ Wait] exI[of _ "[f]"])
    qed
  qed
qed

lemma load_lsb_ok:
  assumes "ser_ready (serport x)" "rx_rel x (Lsb h)" "uint d < 5"
  shows "round_ok gs x (Lsb h) d (load_lsb (app_entries gs) x ch d)"
proof -
  obtain r bs s where rd: "xbee_ser_read (serport x) 1 = (r, bs, s)" by (metis prod_cases3)
  from rd1_ready[OF assms(1) rd] consider
    "ser_ready s" "os_tx s = os_tx (serport x)" "r = 0" "bs = []" "os_rx (serport x) = []" "os_rx s = []"
  | b where "ser_ready s" "os_tx s = os_tx (serport x)" "r = 1" "bs = [b]" "os_rx (serport x) = b # os_rx s"
    by blast
  then show ?thesis
  proof cases
    case 1
    then show ?thesis
      using assms by (auto simp: load_lsb_def rd received_def intro!: exI[of _ "Lsb h"] exI[of _ "[]"])
  next
    case (2 b)
    let ?n = "256 * unat h + unat b"
    have "?n < 65536" using unat_word_bounds(1)[of h] unat_word_bounds(1)[of b] by linarith
    then have n: "unat (bytes_in_frame x + ucast b) = ?n"
      using assms(2) by (simp add: unat_word_ariths)
    show ?thesis
    proof (cases "?n < 2 \<or> 146 < ?n")
      case True
      then show ?thesis
        using 2 n assms
        by (auto simp: load_lsb_def rd received_def Let_def intro!: exI[of _ "if b = 0x7E then Msb else Wait"]
            exI[of _ "[]"] exI[of _ "[b]"])
    next
      case False
      define y where "y = x\<lparr>serport := s, bytes_in_frame := bytes_in_frame x + ucast b,
        rx_state := XBEE_RX_STATE_RXFRAME, bytes_read := 0\<rparr>"
      have "received gs x (Lsb h) y (Rx ?n []) []"
        using 2 n assms False by (auto simp: received_def y_def Let_def intro!: exI[of _ "[b]"])
      moreover have "round_ok gs y (Rx ?n []) d (load_rxframe (app_entries gs) y b d)"
        using calculation assms(3) by (intro load_rxframe_ok) (auto simp: received_def)
      ultimately have "round_ok gs x (Lsb h) d (load_rxframe (app_entries gs) y b d)"
        by (rule round_ok_trans)
      then show ?thesis using 2 n False by (simp add: load_lsb_def rd Let_def y_def)
    qed
  qed
qed

lemma load_msb_ok:
  assumes "ser_ready (serport x)" "rx_rel x Msb" "uint d < 5"
  shows "round_ok gs x Msb d (load_msb (app_entries gs) x ch d)"
proof -
  obtain r bs s where rd: "xbee_ser_read (serport x) 1 = (r, bs, s)" by (metis prod_cases3)
  from rd1_ready[OF assms(1) rd] consider
    "ser_ready s" "os_tx s = os_tx (serport x)" "r = 0" "bs = []" "os_rx (serport x) = []" "os_rx s = []"
  | b where "ser_ready s" "os_tx s = os_tx (serport x)" "r = 1" "bs = [b]" "os_rx (serport x) = b # os_rx s"
    by blast
  then show ?thesis
  proof cases
    case 1
    then show ?thesis
      using assms by (auto simp: load_msb_def rd received_def intro!: exI[of _ "Msb"] exI[of _ "[]"])
  next
    case (2 b)
    show ?thesis
    proof (cases "b = 0x7E")
      case True
      then show ?thesis
        using 2 assms
        by (auto simp: load_msb_def rd received_def intro!: exI[of _ Msb] exI[of _ "[]"] exI[of _ "[0x7E]"])
    next
      case False
      define y where "y = x\<lparr>serport := s, bytes_in_frame := push_bit 8 (ucast b),
        rx_state := XBEE_RX_STATE_LENGTH_LSB\<rparr>"
      have "256 * unat b < 65536" using unat_word_bounds(1)[of b] by linarith
      then have "unat (push_bit 8 (ucast b) :: u16) = 256 * unat b"
        by (simp add: push_bit_eq_mult unat_word_ariths mult.commute)
      then have "received gs x Msb y (Lsb b) []"
        using 2 assms False by (auto simp: received_def y_def intro!: exI[of _ "[b]"])
      moreover have "round_ok gs y (Lsb b) d (load_lsb (app_entries gs) y b d)"
        using calculation assms(3) by (intro load_lsb_ok) (auto simp: received_def)
      ultimately have "round_ok gs x Msb d (load_lsb (app_entries gs) y b d)"
        by (rule round_ok_trans)
      then show ?thesis using 2 False by (simp add: load_msb_def rd Let_def y_def)
    qed
  qed
qed

lemma load_waitstart_ok:
  "ser_ready s \<Longrightarrow> load_waitstart s ch = (found, ch', s') \<Longrightarrow>
   ser_ready s' \<and> os_tx s' = os_tx s \<and>
   (if found then \<exists>cs. 0x7E \<notin> set cs \<and> os_rx s = cs @ 0x7E # os_rx s'
    else 0x7E \<notin> set (os_rx s) \<and> os_rx s' = [])"
proof (induction s ch rule: load_waitstart.induct)
  case (1 s ch)
  obtain r bs t where rd: "xbee_ser_read s 1 = (r, bs, t)" by (metis prod_cases3)
  from rd1_ready[OF "1.prems"(1) rd] consider
    "ser_ready t" "os_tx t = os_tx s" "r = 0" "bs = []" "os_rx s = []" "os_rx t = []"
  | b where "ser_ready t" "os_tx t = os_tx s" "r = 1" "bs = [b]" "os_rx s = b # os_rx t"
    by blast
  then show ?case
  proof cases
    case 1
    then show ?thesis using "1.prems"(2) by (subst (asm) load_waitstart.simps) (auto simp: rd)
  next
    case (2 b)
    show ?thesis
    proof (cases "b = 0x7E")
      case True
      then show ?thesis
        using 2 "1.prems"(2)
        by (subst (asm) load_waitstart.simps) (auto simp: rd intro!: exI[of _ "[]"])
    next
      case False
      have ih: "load_waitstart t b = (found, ch', s')"
        using "1.prems"(2) 2 False by (subst (asm) load_waitstart.simps) (auto simp: rd)
      have "ser_ready s' \<and> os_tx s' = os_tx t \<and>
         (if found then \<exists>cs. 0x7E \<notin> set cs \<and> os_rx t = cs @ 0x7E # os_rx s'
          else 0x7E \<notin> set (os_rx t) \<and> os_rx s' = [])"
        using "1.IH"[OF refl rd[symmetric] refl refl] 2 False ih by simp
      with 2 False show ?thesis by (auto intro: exI[of _ "b # _"])
    qed
  qed
qed

lemma load_step_ok:
  assumes "ser_ready (serport x)" "rx_rel x a" "uint d < 5"
  shows "round_ok gs x a d (load_step (app_entries gs) x ch d)"
proof (cases a)
  case Wait
  obtain found ch' s where w: "load_waitstart (serport x) ch = (found, ch', s)" by (metis prod_cases3)
  note ok = load_waitstart_ok[OF assms(1) w]
  have rel: "rx_state x = XBEE_RX_STATE_WAITSTART" "length (frame_data x) = 147"
    using assms(2) Wait by auto
  show ?thesis
  proof (cases found)
    case False
    then show ?thesis
      using ok w rel Wait assms(3) decode_Wait_noise[of "os_rx (serport x)"]
      by (auto simp: load_step_def received_def intro!: exI[of _ Wait] exI[of _ "[]"])
  next
    case True
    define y where "y = x\<lparr>serport := s, rx_state := XBEE_RX_STATE_LENGTH_MSB\<rparr>"
    obtain cs where cs: "0x7E \<notin> set cs" "os_rx (serport x) = cs @ 0x7E # os_rx s"
      using ok True by auto
    have "decode Wait (cs @ [0x7E]) = (Msb, [])"
      using decode_Wait_noise[OF cs(1)] by (simp add: decode_append)
    then have "received gs x a y Msb []"
      using ok rel cs Wait by (auto simp: received_def y_def intro!: exI[of _ "cs @ [0x7E]"])
    moreover have "round_ok gs y Msb d (load_msb (app_entries gs) y ch' d)"
      using calculation assms(3) by (intro load_msb_ok) (auto simp: received_def)
    ultimately have "round_ok gs x a d (load_msb (app_entries gs) y ch' d)"
      by (rule round_ok_trans)
    then show ?thesis using True w rel by (simp add: load_step_def y_def)
  qed
next
  case Msb
  with load_msb_ok[OF assms(1) _ assms(3)] assms(2) show ?thesis by (simp add: load_step_def)
next
  case (Lsb h)
  with load_lsb_ok[OF assms(1) _ assms(3)] assms(2) show ?thesis by (simp add: load_step_def)
next
  case (Rx n acc)
  with load_rxframe_ok[OF assms(1) _ assms(3)] assms(2) show ?thesis by (simp add: load_step_def)
qed

text \<open>The loop returns once the fuel exceeds the number of bytes waiting.\<close>

lemma load_loop_ok:
  assumes "ser_ready (serport x)" "rx_rel x a" "uint d < 5" "length (os_rx (serport x)) < fuel"
  shows "\<exists>n x'. load_loop fuel (app_entries gs) x ch d = Some (n, x') \<and> round_ok gs x a d (Inl (n, x'))"
  using assms
proof (induction fuel arbitrary: x a d ch)
  case (Suc fuel)
  note ok = load_step_ok[OF Suc.prems(1-3), of gs ch]
  show ?case
  proof (cases "load_step (app_entries gs) x ch d")
    case (Inl r)
    then show ?thesis using ok by (cases r) auto
  next
    case (Inr r)
    obtain y ch' d' where r: "r = (y, ch', d')" by (cases r)
    with ok Inr obtain b fs where y: "received gs x a y b fs" "uint d' = uint d + int (length fs)"
      "uint d' < 5" "length (os_rx (serport y)) < length (os_rx (serport x))" by auto
    then obtain n x' where n: "load_loop fuel (app_entries gs) y ch' d' = Some (n, x')"
      "round_ok gs y b d' (Inl (n, x'))"
      using Suc.IH[of y b d' ch'] Suc.prems(4) by (auto simp: received_def)
    then obtain c gs' where "received gs y b x' c gs'" "n = uint d' + int (length gs')" "n \<le> 5"
      "n = 5 \<or> os_rx (serport x') = []" by auto
    then have "round_ok gs x a d (Inl (n, x'))"
      using received_trans[OF y(1)] y(2) by fastforce
    then show ?thesis using n(1) by (simp add: Inr r)
  qed
qed simp

section \<open>The tick\<close>

lemma in_tick_cleared:
  assumes "(f :: u16) AND XBEE_DEV_FLAG_IN_TICK = 0"
  shows "(f OR XBEE_DEV_FLAG_IN_TICK) AND NOT XBEE_DEV_FLAG_IN_TICK = f"
proof -
  have "NOT (0x80 :: u16) OR 0x80 = -1" by simp
  have "(f OR 0x80) AND NOT 0x80 = f AND NOT 0x80" by (rule bit_word_eqI) (auto simp: bit_simps)
  also have "\<dots> = (f AND NOT 0x80) OR (f AND 0x80)" using assms by simp
  also have "\<dots> = f" by (rule bit_word_eqI) (auto simp: bit_simps)
  finally show ?thesis .
qed

text \<open>A tick on a working port, in terms of \<open>received\<close>.\<close>

lemma tick_received:
  assumes "ser_ready (serport x)" "rx_rel x a" "dev_flags x AND XBEE_DEV_FLAG_IN_TICK = 0"
    and "length (os_rx (serport x)) < fuel"
  obtains n x' a' fs where "xbee_dev_tick fuel (app_entries gs) x ch = Some (n, x')"
    "received gs x a x' a' fs" "n = int (length fs)" "n \<le> 5" "n < 5 \<longrightarrow> os_rx (serport x') = []"
proof -
  define y where "y = x\<lparr>dev_flags := dev_flags x OR XBEE_DEV_FLAG_IN_TICK\<rparr>"
  have y: "ser_ready (serport y)" "rx_rel y a" "length (os_rx (serport y)) < fuel"
    using assms by (cases a; simp add: y_def)+
  obtain n z where n: "load_loop fuel (app_entries gs) y ch 0 = Some (n, z)"
    "round_ok gs y a 0 (Inl (n, z))"
    using load_loop_ok[OF y(1,2) _ y(3), of 0 gs ch] by auto
  then obtain b fs where z: "received gs y a z b fs" "n = int (length fs)" "n \<le> 5"
    "n < 5 \<longrightarrow> os_rx (serport z) = []" by auto
  let ?x' = "z\<lparr>dev_flags := dev_flags z AND NOT XBEE_DEV_FLAG_IN_TICK\<rparr>"
  have "dev_flags ?x' = dev_flags x"
    using z(1) in_tick_cleared[OF assms(3)] by (simp add: received_def y_def)
  then have "received gs x a ?x' b fs"
    using z(1) by (cases b) (auto simp: received_def y_def)
  moreover have "\<not> xbee_ser_invalid (Some (serport y))"
    using y(1) by (simp add: xbee_ser_invalid_def ser_ready_def)
  then have "xbee_dev_tick fuel (app_entries gs) x ch = Some (n, ?x')"
    using assms(3) n(1) by (simp add: xbee_dev_tick_def xbee_frame_load_def flip: y_def)
  ultimately show thesis using that z by simp
qed

text \<open>
  C1: receiving. On a working port, whatever bytes are waiting and in whatever state the last
  tick left the receiver, a tick returns once the bound exceeds the number of bytes
  waiting. It takes a prefix of these bytes, dispatches in order exactly the payloads the byte
  decoder finds in it, at most five, and returns their number; bytes are left waiting only after
  five payloads, and the device stands for the decoder's new state.
\<close>

theorem xbee_dev_tick_refines:
  assumes "ser_ready (serport x)" "rx_rel x a" "dev_flags x AND XBEE_DEV_FLAG_IN_TICK = 0"
    and "length (os_rx (serport x)) < fuel"
  shows "\<exists>n x' cs a' fs. xbee_dev_tick fuel (app_entries gs) x ch = Some (n, x') \<and>
     os_rx (serport x) = cs @ os_rx (serport x') \<and> decode a cs = (a', fs) \<and>
     rx_rel x' a' \<and> ser_ready (serport x') \<and> dev_flags x' = dev_flags x \<and>
     app x' = fold (app_dispatch gs) fs (app x) \<and>
     n = int (length fs) \<and> n \<le> 5 \<and> (n < 5 \<longrightarrow> os_rx (serport x') = [])"
  using tick_received[OF assms] unfolding received_def by metis

text \<open>A device on a working port whose handlers collect the frames of two types.\<close>

definition demo_dev :: "bytes \<Rightarrow> bytes list xbee_dev_t" where
  "demo_dev bs = snd (xbee_dev_init (demo_port bs) 3 False [])"

definition demo_table :: "bytes list app_table" where
  "demo_table = [(0x8A, 0, \<lambda>a f. a @ [f]), (0x88, 1, \<lambda>a f. a @ [f]), (0xFF, 0, \<lambda>a f. a)]"

lemma demo_dev_ok: "ser_ready (serport (demo_dev bs))" "rx_rel (demo_dev bs) Wait"
  "dev_flags (demo_dev bs) AND XBEE_DEV_FLAG_IN_TICK = 0" "os_rx (serport (demo_dev bs)) = bs"
  "app (demo_dev bs) = []" "os_tx (serport (demo_dev bs)) = []"
  by (simp_all add: demo_dev_def demo_port_def xbee_dev_init_def xbee_ser_open_def xbee_ser_flowcontrol_def
      syscall_def xbee_ser_baudrate_def xbee_ser_invalid_def Let_def ser_ready_def)

theorem xbee_dev_tick_refines_witness:
  "\<exists>n x' cs a' fs. xbee_dev_tick 8 (app_entries demo_table) (demo_dev [1, 0x7E, 0, 2, 0x8A, 6, 0x6F]) 0 =
       Some (n, x') \<and> [1, 0x7E, 0, 2, 0x8A, 6, 0x6F] = cs @ os_rx (serport x') \<and>
     decode Wait cs = (a', fs) \<and> app x' = fold (app_dispatch demo_table) fs [] \<and> n = int (length fs)"
  using xbee_dev_tick_refines[OF demo_dev_ok(1-3), where fuel = 8 and gs = demo_table and ch = 0,
      of "[1, 0x7E, 0, 2, 0x8A, 6, 0x6F]"]
  unfolding demo_dev_ok by fastforce

section \<open>Sending\<close>

text \<open>The bytes of a frame on the line.\<close>

definition wire :: "bytes \<Rightarrow> bytes" where
  "wire p = 0x7E # be16_bytes (of_nat (length p)) @ p @ [0xFF - sum_list p]"

text \<open>The port is open, and the module accepts data when flow control is on.\<close>

definition can_send :: "'a xbee_dev_t \<Rightarrow> bool" where
  "can_send x \<longleftrightarrow> ser_ready (serport x) \<and>
     (dev_flags x AND XBEE_DEV_FLAG_USE_FLOWCONTROL \<noteq> 0 \<longrightarrow> os_modem (serport x) AND TIOCM_CTS \<noteq> 0)"

text \<open>The port after \<open>b\<close> was sent; \<open>k\<close> system calls were made so far.\<close>

definition sent :: "xbee_serial_t \<Rightarrow> bytes \<Rightarrow> nat \<Rightarrow> xbee_serial_t" where
  "sent s b k = s\<lparr>os_tx := os_tx s @ b, os_calls := k\<rparr>"

lemma sent_simps [simp]:
  "os_tx (sent s b k) = os_tx s @ b" "os_rx (sent s b k) = os_rx s" "os_modem (sent s b k) = os_modem s"
  "baudrate (sent s b k) = baudrate s" "ser_ready (sent s b k) = ser_ready s" "ser_fd (sent s b k) = ser_fd s"
  "sent (sent s b j) c k = sent s (b @ c) k" "sent s [] (os_calls s) = s" "os_calls (sent s b k) = k"
  by (simp_all add: sent_def ser_ready_def)

lemma write_sent:
  assumes "ser_ready s" "length bs < 2 ^ 16" "n = int (length bs)"
  shows "snd (xbee_ser_write s bs n) = sent s bs (os_calls s + 1)"
proof -
  have "65536 \<le> os_room s (os_calls s)" using assms(1) by (simp add: ser_ready_def)
  then have "min (length bs) (os_room s (os_calls s)) = length bs" using assms(2) by simp
  with assms show ?thesis
    by (simp add: xbee_ser_write_def xbee_ser_invalid_def os_write_def syscall_def ser_ready_def sent_def Let_def)
qed

lemma wr_ready_snd:
  assumes "ser_ready s" "length bs < 2 ^ 16" "n = int (length bs)"
  shows "ser_ready (snd (xbee_ser_write s bs n)) \<and> os_tx (snd (xbee_ser_write s bs n)) = os_tx s @ bs"
  using write_sent[OF assms] assms(1) by simp

lemma get_cts_ready:
  assumes "ser_ready s" "os_modem s AND TIOCM_CTS \<noteq> 0"
  shows "\<exists>k. xbee_ser_get_cts s = (1, sent s [] k)"
  using assms by (auto simp: xbee_ser_get_cts_def ser_ready_def xbee_ser_invalid_def syscall_def sent_def)

lemma xbee_checksum_small: "length bs < 256 \<Longrightarrow> xbee_checksum bs (ucast (of_nat (length bs) :: u16)) ck = ck - sum_list bs"
  by (simp add: xbee_checksum_def checksum_loop_sum unsigned_ucast_eq unat_of_nat take_bit_eq_mod)

lemma of_nat_u16_zero: "length b < 256 \<Longrightarrow> of_nat (length b) = (0 :: u16) \<longleftrightarrow> b = []"
  by (simp add: word_unat_eq_iff unat_of_nat)

lemma frame_part_ready:
  assumes "ser_ready s" "length b < 256"
  obtains k where "frame_part s (Some b) (of_nat (length b)) ck = (sent s b k, ck - sum_list b)"
proof (cases "b = []")
  case True
  then show thesis using assms by (intro that[of "os_calls s"]) (auto simp: frame_part_def)
next
  case False
  have "uint (of_nat (length b) :: u16) = int (length b)"
    using assms(2) by (simp add: uint_nat unat_of_nat)
  with write_sent[OF assms(1), of b] False assms(2) show thesis
    by (intro that[of "os_calls s + 1"]) (auto simp: frame_part_def of_nat_u16_zero xbee_checksum_small)
qed

lemma frame_cts_ready:
  assumes "can_send x"
  obtains k where "frame_cts x = (1, x\<lparr>serport := sent (serport x) [] k\<rparr>)"
proof (cases "dev_flags x AND XBEE_DEV_FLAG_USE_FLOWCONTROL = 0")
  case True
  then show thesis using assms
    by (intro that[of "os_calls (serport x)"]) (auto simp: frame_cts_def xbee_ser_invalid_def can_send_def ser_ready_def)
next
  case False
  then obtain k where "xbee_ser_get_cts (serport x) = (1, sent (serport x) [] k)"
    using assms get_cts_ready[of "serport x"] by (auto simp: can_send_def)
  then show thesis
    using assms False by (intro that[of k]) (auto simp: frame_cts_def xbee_ser_invalid_def can_send_def ser_ready_def)
qed

lemma xbee_frame_write_wire:
  assumes "can_send x" "h @ d \<noteq> []" "length h < 256" "length d < 256"
  obtains k where
    "xbee_frame_write x (Some h) (of_nat (length h)) (Some d) (of_nat (length d)) =
       (0, x\<lparr>serport := sent (serport x) (wire (h @ d)) k\<rparr>)"
proof -
  obtain j where cts: "frame_cts x = (1, x\<lparr>serport := sent (serport x) [] j\<rparr>)"
    using frame_cts_ready[OF assms(1)] .
  have ready: "ser_ready (serport x)" using assms(1) by (simp add: can_send_def)
  let ?n = "\<lambda>b. of_nat (length b) :: u16" and ?y = "sent (serport x) [] j"
  have u: "uint (?n h) = int (length h)" "uint (?n d) = int (length d)"
    using assms(3,4) by (simp_all add: uint_nat unat_of_nat)
  define m where "m = 0x7E # be16_bytes (?n h + ?n d)"
  define s1 where "s1 = sent (serport x) m (j + 1)"
  have s1: "snd (xbee_ser_write ?y m 3) = s1" "ser_ready s1"
    using write_sent[of ?y m 3] ready by (simp_all add: m_def s1_def)
  obtain k2 where s2: "frame_part s1 (Some h) (?n h) 0xFF = (sent s1 h k2, 0xFF - sum_list h)"
    using frame_part_ready[OF s1(2) assms(3)] .
  let ?s2 = "sent s1 h k2" and ?ck = "0xFF - sum_list h"
  have r2: "ser_ready ?s2" using s1(2) by simp
  obtain k3 where s3: "frame_part ?s2 (Some d) (?n d) ?ck = (sent ?s2 d k3, ?ck - sum_list d)"
    using frame_part_ready[OF r2 assms(4)] .
  have s4: "snd (xbee_ser_write (sent ?s2 d k3) [?ck - sum_list d] 1) = sent (sent ?s2 d k3) [?ck - sum_list d] (k3 + 1)"
    using write_sent[of "sent ?s2 d k3" "[?ck - sum_list d]" 1] r2 by simp
  have "\<not> xbee_ser_invalid (Some ?y)"
    using ready by (simp add: xbee_ser_invalid_def ser_ready_def)
  moreover have "\<not> (?n h = 0 \<and> ?n d = 0)"
    using assms(2-4) by (auto simp: of_nat_u16_zero)
  ultimately have "xbee_frame_write x (Some h) (?n h) (Some d) (?n d) =
      (0, x\<lparr>serport := sent (sent ?s2 d k3) [?ck - sum_list d] (k3 + 1)\<rparr>)"
    using cts s1(1)[unfolded m_def] s2 s3 s4 assms(3,4)
    by (simp add: xbee_frame_write_def xbee_ser_tx_free_def Let_def u del: sent_simps(7))
  moreover have "sent (sent ?s2 d k3) [?ck - sum_list d] (k3 + 1) = sent (serport x) (wire (h @ d)) (k3 + 1)"
    by (simp add: s1_def m_def wire_def diff_diff_eq)
  ultimately show thesis using that by metis
qed

text \<open>Sending a list of frames, each with a header and a payload, and the results of the calls.\<close>

fun send_all :: "'a xbee_dev_t \<Rightarrow> (bytes \<times> bytes) list \<Rightarrow> int list \<times> 'a xbee_dev_t" where
  "send_all x [] = ([], x)"
| "send_all x ((h, d) # ps) =
     (let (r, x) = xbee_frame_write x (Some h) (of_nat (length h)) (Some d) (of_nat (length d));
          (rs, x) = send_all x ps
      in (r # rs, x))"

abbreviation payload :: "bytes \<times> bytes \<Rightarrow> bytes" where
  "payload p \<equiv> fst p @ snd p"

definition payload_ok :: "bytes \<times> bytes \<Rightarrow> bool" where
  "payload_ok p \<longleftrightarrow> 2 \<le> length (payload p) \<and> length (payload p) \<le> XBEE_MAX_FRAME_LEN"

lemma send_all_wire:
  "can_send x \<Longrightarrow> list_all payload_ok ps \<Longrightarrow>
   \<exists>x'. send_all x ps = (replicate (length ps) 0, x') \<and> can_send x' \<and>
     os_tx (serport x') = os_tx (serport x) @ concat (map (wire \<circ> payload) ps)"
proof (induction ps arbitrary: x)
  case (Cons p ps)
  obtain h d where p: "p = (h, d)" by (cases p)
  with Cons.prems have "h @ d \<noteq> []" "length h < 256" "length d < 256" by (auto simp: payload_ok_def)
  from xbee_frame_write_wire[OF Cons.prems(1) this] obtain k where
    k: "xbee_frame_write x (Some h) (of_nat (length h)) (Some d) (of_nat (length d)) =
      (0, x\<lparr>serport := sent (serport x) (wire (h @ d)) k\<rparr>)" .
  let ?y = "x\<lparr>serport := sent (serport x) (wire (h @ d)) k\<rparr>"
  have "can_send ?y" using Cons.prems(1) by (simp add: can_send_def)
  with Cons.IH[OF this] Cons.prems(2) k show ?case by (auto simp: p)
qed simp

lemma decode_wire:
  assumes "2 \<le> length p" "length p \<le> 146"
  shows "decode Wait (wire p) = (Wait, [p])"
proof -
  let ?w = "of_nat (length p) :: u16"
  have "unat (drop_bit 8 ?w) = 0"
    using assms(2) by (simp add: drop_bit_eq_div unat_div unat_of_nat)
  then have hi: "drop_bit 8 ?w = 0" by (simp add: unat_eq_zero)
  have lo: "unat (ucast ?w :: u8) = length p"
    using assms(2) by (simp add: unsigned_ucast_eq unat_of_nat take_bit_eq_mod)
  have "decode (Rx (length p) []) (p @ [0xFF - sum_list p]) = (Wait, [p])"
    using decode_Rx_full[of "[]" "p @ [0xFF - sum_list p]" "length p"] by simp
  with hi lo assms show ?thesis by (simp add: wire_def be16_bytes_def Let_def)
qed

lemma decode_wires:
  "list_all payload_ok ps \<Longrightarrow> decode Wait (concat (map (wire \<circ> payload) ps)) = (Wait, map payload ps)"
proof (induction ps)
  case (Cons p ps)
  have "decode Wait (wire (payload p)) = (Wait, [payload p])"
    using Cons.prems by (intro decode_wire) (auto simp: payload_ok_def)
  with Cons decode_appendI[OF this] show ?case by simp
qed simp

text \<open>
  C2: sending and receiving. Up to five frames with payloads of 2 to 146 bytes are written
  without error; a receiver that gets these bytes, after any noise that holds no start
  marker, dispatches exactly these payloads, in order, in one tick.
\<close>

theorem xbee_frame_write_tick:
  assumes "can_send y" "os_tx (serport y) = []" "list_all payload_ok ps" "length ps \<le> 5"
    and "send_all y ps = (rs, y')"
    and "ser_ready (serport x)" "rx_rel x Wait" "dev_flags x AND XBEE_DEV_FLAG_IN_TICK = 0"
    and "os_rx (serport x) = noise @ os_tx (serport y')" "0x7E \<notin> set noise"
    and "length (os_rx (serport x)) < fuel"
  shows "rs = replicate (length ps) 0 \<and>
    (\<exists>x'. xbee_dev_tick fuel (app_entries gs) x ch = Some (int (length ps), x') \<and>
          app x' = fold (app_dispatch gs) (map payload ps) (app x))"
proof -
  have sent: "rs = replicate (length ps) 0" "os_tx (serport y') = concat (map (wire \<circ> payload) ps)"
    using send_all_wire[OF assms(1,3)] assms(2,5) by auto
  have all: "decode Wait (os_rx (serport x)) = (Wait, map payload ps)"
    using decode_appendI[OF decode_Wait_noise[OF assms(10)] decode_wires[OF assms(3)]] assms(9) sent(2) by simp
  from tick_received[OF assms(6-8,11), of gs ch] obtain n x' a' fs where
    t: "xbee_dev_tick fuel (app_entries gs) x ch = Some (n, x')" "received gs x Wait x' a' fs"
    "n = int (length fs)" "n \<le> 5" "n < 5 \<longrightarrow> os_rx (serport x') = []" .
  then obtain cs where cs: "os_rx (serport x) = cs @ os_rx (serport x')" "decode Wait cs = (a', fs)"
    "app x' = fold (app_dispatch gs) fs (app x)" by (auto simp: received_def)
  obtain c hs where "decode a' (os_rx (serport x')) = (c, hs)" by fastforce
  with all cs(1) decode_appendI[OF cs(2) this] have hs: "map payload ps = fs @ hs" by simp
  have "hs = []"
  proof (cases "n < 5")
    case True
    with t(5) \<open>decode a' (os_rx (serport x')) = (c, hs)\<close> show ?thesis by simp
  next
    case False
    with t(3,4) arg_cong[OF hs, of length] assms(4) show ?thesis by simp
  qed
  with hs have "fs = map payload ps" by simp
  with t(1,3) cs(3) sent(1) show ?thesis by simp
qed

lemma demo_can_send: "can_send (demo_dev [])"
  by (simp add: can_send_def demo_dev_ok(1))
    (simp add: demo_dev_def demo_port_def xbee_dev_init_def xbee_ser_open_def xbee_ser_flowcontrol_def
      syscall_def xbee_ser_baudrate_def xbee_ser_invalid_def Let_def)

definition demo_frames :: "(bytes \<times> bytes) list" where
  "demo_frames = [([0x8A, 6], []), ([0x88, 1], [0x7E, 0xFF])]"

theorem xbee_frame_write_tick_witness:
  "\<exists>x'. xbee_dev_tick 99 (app_entries demo_table)
       (demo_dev ([1, 2] @ os_tx (serport (snd (send_all (demo_dev []) demo_frames))))) 0 = Some (2, x') \<and>
     app x' = fold (app_dispatch demo_table) (map payload demo_frames) []"
proof -
  note demo_can_send
  moreover have "list_all payload_ok demo_frames" by (simp add: demo_frames_def payload_ok_def)
  moreover have "length (os_tx (serport (snd (send_all (demo_dev []) demo_frames)))) < 90"
    using send_all_wire[OF calculation] by (auto simp: demo_dev_ok demo_frames_def wire_def)
  ultimately show ?thesis
    using xbee_frame_write_tick[of "demo_dev []" demo_frames "fst (send_all (demo_dev []) demo_frames)"
        "snd (send_all (demo_dev []) demo_frames)"
        "demo_dev ([1, 2] @ os_tx (serport (snd (send_all (demo_dev []) demo_frames))))" "[1, 2]" 99 demo_table 0]
    by (simp add: demo_dev_ok(1,3-6) demo_dev_ok(2)[simplified] demo_frames_def[THEN arg_cong, of length])
qed

text \<open>
  What \<open>xbee_frame_write\<close> refuses. On an open port it fails with \<open>ENODATA\<close> when there is
  nothing to send and with \<open>EBUSY\<close> when flow control is on and the module does not accept
  data, and a refused frame leaves no byte on the line.
\<close>

theorem xbee_frame_write_refused:
  assumes "ser_ready (serport x)"
    and "\<not> can_send x \<or> (h = None \<or> hl = 0) \<and> (d = None \<or> dl = 0)"
  shows "\<exists>r x'. xbee_frame_write x h hl d dl = (r, x') \<and> os_tx (serport x') = os_tx (serport x) \<and>
     r = (if (h = None \<or> hl = 0) \<and> (d = None \<or> dl = 0) then - ENODATA else - EBUSY)"
proof -
  have inv: "\<not> xbee_ser_invalid (Some (serport x))"
    using assms(1) by (simp add: xbee_ser_invalid_def ser_ready_def)
  have u: "uint n < 65536" for n :: u16 using uint_lt2p[of n] by simp
  have big: "\<not> INT_MAX < uint n + uint m + 4" "\<not> INT_MAX < uint n + 4" for n m :: u16
    using u[of n] u[of m] by linarith+
  note defs = xbee_frame_write_def frame_cts_def Let_def xbee_ser_tx_free_def xbee_ser_tx_used_def
  show ?thesis
  proof (cases "can_send x")
    case True
    then obtain k where "frame_cts x = (1, x\<lparr>serport := sent (serport x) [] k\<rparr>)"
      using frame_cts_ready[OF True] by metis
    then obtain y where y: "frame_cts x = (1, y)" "os_tx (serport y) = os_tx (serport x)" by fastforce
    have "(h = None \<or> hl = 0) \<and> (d = None \<or> dl = 0)" using assms(2) True by blast
    then have "(if h = None then 0 else hl) = 0" "(if d = None then 0 else dl) = 0"
      "(if (h = None \<or> hl = 0) \<and> (d = None \<or> dl = 0) then - ENODATA else - EBUSY) = - ENODATA"
      by auto
    then show ?thesis using y by (simp add: xbee_frame_write_def Let_def)
  next
    case False
    then have "xbee_ser_get_cts (serport x) = (0, (serport x)\<lparr>os_calls := os_calls (serport x) + 1\<rparr>)"
      "dev_flags x AND XBEE_DEV_FLAG_USE_FLOWCONTROL \<noteq> 0"
      using assms(1) by (auto simp: can_send_def xbee_ser_get_cts_def inv syscall_def ser_ready_def)
    moreover have "\<not> xbee_ser_invalid (Some ((serport x)\<lparr>os_calls := os_calls (serport x) + 1\<rparr>))"
      using inv by (simp add: xbee_ser_invalid_def)
    ultimately show ?thesis
      using inv big by (cases h; cases d) (simp_all add: defs)
  qed
qed

theorem xbee_frame_write_refused_witness:
  "\<exists>r x'. xbee_frame_write (demo_dev []) None 7 (Some [1]) 0 = (r, x') \<and> os_tx (serport x') = [] \<and> r = - ENODATA"
  using xbee_frame_write_refused[OF demo_dev_ok(1), of "[]" None 7 "Some [1]" 0] by (auto simp: demo_dev_ok)

section \<open>Frame identifiers\<close>

fun next_ids :: "nat \<Rightarrow> 'a xbee_dev_t \<Rightarrow> u8 list" where
  "next_ids 0 x = []"
| "next_ids (Suc n) x = (let (i, x) = xbee_next_frame_id x in i # next_ids n x)"

lemma next_frame_id_unat:
  "xbee_next_frame_id x = (i, x') \<Longrightarrow> frame_id x' = i \<and> unat i = unat (frame_id x) mod 255 + 1"
proof -
  assume a: "xbee_next_frame_id x = (i, x')"
  show ?thesis
  proof (cases "frame_id x + 1 = 0")
    case True
    then have "frame_id x = - 1" by (simp add: eq_neg_iff_add_eq_0)
    then have "unat (frame_id x) = 255" by (simp add: unsigned_minus_1_eq_mask mask_eq_exp_minus_1)
    with True a show ?thesis by (auto simp: xbee_next_frame_id_def Let_def)
  next
    case False
    have "unat (frame_id x) \<noteq> 255"
    proof
      assume "unat (frame_id x) = 255"
      then have "frame_id x = 255" by (simp add: word_unat_eq_iff)
      with False show False by simp
    qed
    then have "unat (frame_id x) < 255" using unat_word_bounds(1)[of "frame_id x"] by linarith
    moreover have "unat (frame_id x + 1) = unat (frame_id x) + 1" 
      using False by (simp add: unat_word_ariths) (use calculation in simp)
    ultimately show ?thesis using False a by (auto simp: xbee_next_frame_id_def Let_def)
  qed
qed

lemma next_ids_nth:
  "k < n \<Longrightarrow> unat (next_ids n x ! k) = (unat (frame_id x) + k) mod 255 + 1"
proof (induction n arbitrary: x k)
  case (Suc n)
  obtain i x' where i: "xbee_next_frame_id x = (i, x')" by fastforce
  note u = next_frame_id_unat[OF i]
  show ?case
  proof (cases k)
    case (Suc j)
    then have "unat (next_ids (Suc n) x ! k) = (unat (frame_id x) mod 255 + 1 + j) mod 255 + 1"
      using Suc.IH[of j x'] Suc.prems u i by simp
    moreover have "(unat (frame_id x) mod 255 + 1 + j) mod 255 = (unat (frame_id x) + k) mod 255"
      by (metis Suc add.assoc mod_add_left_eq plus_1_eq_Suc)
    ultimately show ?thesis by simp
  qed (use u i in simp)
qed simp

lemma length_next_ids [simp]: "length (next_ids n x) = n"
  by (induction n arbitrary: x) (auto simp: split_beta)

text \<open>
  Frame identifiers. Any 255 consecutive identifiers are different and none is 0, the
  value that asks for no response.
\<close>

theorem xbee_next_frame_id_distinct:
  assumes "n \<le> 255"
  shows "distinct (next_ids n x) \<and> 0 \<notin> set (next_ids n x)"
proof
  show "distinct (next_ids n x)"
  proof (subst distinct_conv_nth, intro allI impI notI)
    fix i j assume ij: "i < length (next_ids n x)" "j < length (next_ids n x)" "i \<noteq> j"
      and eq: "next_ids n x ! i = next_ids n x ! j"
    then have "(unat (frame_id x) + i) mod 255 = (unat (frame_id x) + j) mod 255"
      using next_ids_nth[of i n x] next_ids_nth[of j n x] by simp
    then have "int 255 dvd (int (unat (frame_id x) + i)) - int (unat (frame_id x) + j)"
      by (metis mod_eq_dvd_iff of_nat_mod)
    then have "255 dvd \<bar>int i - int j\<bar>" by simp
    moreover have "0 < \<bar>int i - int j\<bar>" "\<bar>int i - int j\<bar> < 255" using ij assms by simp_all
    ultimately show False using zdvd_not_zless by blast
  qed
  show "0 \<notin> set (next_ids n x)"
    using next_ids_nth[of _ n x] by (fastforce simp: in_set_conv_nth)
qed

theorem xbee_next_frame_id_distinct_witness:
  "distinct (next_ids 255 (demo_dev [])) \<and> 0 \<notin> set (next_ids 255 (demo_dev []))"
  using xbee_next_frame_id_distinct[of 255 "demo_dev []"] by simp

section \<open>Failing reads and long frames\<close>

lemma load_loop_hangs:
  "rx_state x = XBEE_RX_STATE_LENGTH_MSB \<Longrightarrow> ser_fd (serport x) \<ge> 0 \<Longrightarrow>
   \<forall>n \<ge> os_calls (serport x). os_fail (serport x) n = Some (nat EIO) \<Longrightarrow>
   load_loop fuel tab x 0x7E d = None"
proof (induction fuel arbitrary: x)
  case (Suc fuel)
  have "xbee_ser_read (serport x) 1 = (- EIO, [], (serport x)\<lparr>os_calls := os_calls (serport x) + 1\<rparr>)"
    using xbee_ser_read_error[of "serport x" 1 5] Suc.prems by simp
  then have "load_step tab x 0x7E d = Inr (x\<lparr>serport := (serport x)\<lparr>os_calls := os_calls (serport x) + 1\<rparr>\<rparr>, 0x7E, d)"
    using Suc.prems by (simp add: load_step_def load_msb_def)
  with Suc show ?case by simp
qed simp

text \<open>
  A port that fails in the middle of a frame. When the start marker has been read and every
  later read fails, as after the adapter has been unplugged, the tick never returns: the test
  for an empty port does not cover errors, and the stale marker is taken for a new one.
\<close>

theorem xbee_dev_tick_hangs:
  assumes "rx_state x = XBEE_RX_STATE_WAITSTART" "ser_fd (serport x) \<ge> 0"
    and "dev_flags x AND XBEE_DEV_FLAG_IN_TICK = 0" "os_rx (serport x) = 0x7E # rest"
    and "os_fail (serport x) (os_calls (serport x)) = None"
    and "\<forall>n > os_calls (serport x). os_fail (serport x) n = Some (nat EIO)"
  shows "xbee_dev_tick fuel tab x ch = None"
proof -
  define s where "s = (serport x)\<lparr>os_rx := rest, os_calls := os_calls (serport x) + 1\<rparr>"
  have "xbee_ser_read (serport x) 1 = (1, [0x7E], s)"
    using assms by (simp add: xbee_ser_read_def xbee_ser_invalid_def os_read_def syscall_def s_def)
  then have w: "load_waitstart (serport x) ch = (True, 0x7E, s)"
    by (simp add: load_waitstart.simps)
  define y z where "y = x\<lparr>dev_flags := dev_flags x OR XBEE_DEV_FLAG_IN_TICK\<rparr>"
    and "z = y\<lparr>serport := s, rx_state := XBEE_RX_STATE_LENGTH_MSB\<rparr>"
  have "load_step tab y ch 0 = load_step tab z 0x7E 0"
    using w assms(1) by (simp add: load_step_def y_def z_def)
  then have "load_loop fuel tab y ch 0 = load_loop fuel tab z 0x7E 0"
    by (cases fuel) auto
  also have "\<dots> = None"
    using assms(2,6) by (intro load_loop_hangs) (auto simp: z_def s_def)
  finally show ?thesis
    using assms(2,3) by (simp add: xbee_dev_tick_def xbee_frame_load_def xbee_ser_invalid_def y_def)
qed

definition unplugged :: "bytes list xbee_dev_t" where
  "unplugged = (demo_dev [])\<lparr>serport := (demo_port [0x7E])
     \<lparr>os_fail := (\<lambda>n. if n = 0 then None else Some (nat EIO))\<rparr>\<rparr>"

theorem xbee_dev_tick_hangs_witness: "xbee_dev_tick 1000 [] unplugged 0 = None"
  using xbee_dev_tick_hangs[of unplugged "[]"] demo_dev_ok(2,3)[of "[]"]
  by (simp add: unplugged_def demo_port_def)

text \<open>
  The checksum of a payload of 256 bytes. The length is cut to eight bits, so none of the
  bytes is counted and the checksum byte is \<open>0xFF\<close> whatever the payload.
\<close>

theorem xbee_frame_write_checksum_lost:
  assumes "can_send x" "length d = 256"
  shows "\<exists>x'. xbee_frame_write x None 0 (Some d) 256 = (0, x') \<and>
     os_tx (serport x') = os_tx (serport x) @ [0x7E, 1, 0] @ d @ [0xFF]"
proof -
  obtain k where "frame_cts x = (1, x\<lparr>serport := sent (serport x) [] k\<rparr>)"
    using frame_cts_ready[OF assms(1)] .
  then obtain y where cts: "frame_cts x = (1, y)" and y: "ser_ready (serport y)"
    "os_tx (serport y) = os_tx (serport x)" using assms(1) by (auto simp: can_send_def)
  define s1 where "s1 = snd (xbee_ser_write (serport y) (0x7E # be16_bytes 256) 3)"
  define s2 where "s2 = snd (xbee_ser_write s1 d 256)"
  define s3 where "s3 = snd (xbee_ser_write s2 [0xFF] 1)"
  have s1: "ser_ready s1" "os_tx s1 = os_tx (serport x) @ [0x7E, 1, 0]"
    using wr_ready_snd[OF y(1), of "0x7E # be16_bytes 256" 3] y(2) by (auto simp: s1_def be16_bytes_def drop_bit_eq_div)
  have s2: "ser_ready s2" "os_tx s2 = os_tx s1 @ d"
    using wr_ready_snd[OF s1(1), of d 256] assms(2) by (auto simp: s2_def)
  have s3: "os_tx s3 = os_tx s2 @ [0xFF]"
    using wr_ready_snd[OF s2(1), of "[0xFF]" 1] by (auto simp: s3_def)
  have "frame_part s1 (Some d) 256 0xFF = (s2, 0xFF)"
    by (simp add: frame_part_def s2_def xbee_checksum_def)
  moreover have "frame_part s1 None 0 0xFF = (s1, 0xFF)" by (simp add: frame_part_def)
  moreover have "\<not> xbee_ser_invalid (Some (serport y))"
    using y(1) by (simp add: xbee_ser_invalid_def ser_ready_def)
  ultimately have "xbee_frame_write x None 0 (Some d) 256 = (0, y\<lparr>serport := s3\<rparr>)"
    by (simp add: xbee_frame_write_def cts Let_def xbee_ser_tx_free_def s3_def flip: s1_def)
  with s1 s2 s3 show ?thesis by simp
qed

theorem xbee_frame_write_checksum_lost_witness:
  "\<exists>x'. xbee_frame_write (demo_dev []) None 0 (Some (replicate 256 1)) 256 = (0, x') \<and>
     os_tx (serport x') = [0x7E, 1, 0] @ replicate 256 1 @ [0xFF]"
  using xbee_frame_write_checksum_lost[OF demo_can_send, of "replicate 256 1"] unfolding demo_dev_ok by simp

end
