(* ===== verification/Xbee_Atcmd.thy ===== *)
theory Xbee_Atcmd
  imports Xbee_Frames
begin

text \<open>
  \<open>src/Software/lib/XBee/src/xbee/xbee_atcmd.c\<close>, first part: the table of outstanding AT command
  requests, the handles that name its entries, building a request and sending it as a frame.
  One device is attached; the device pointer of an entry is then null or that device. The global
  variables of the file are the state \<open>app\<close> of the device, \<open>user\<close> is what is left to the
  application. The argument \<open>now\<close> is the value of \<open>xbee_seconds_timer\<close> during the call.
\<close>

section \<open>Commands, requests and command lists\<close>

text \<open>The two characters of a command.\<close>

type_synonym at_cmd = "u8 \<times> u8"

definition at_cmd :: "string \<Rightarrow> at_cmd" where
  "at_cmd s = (chr_byte (s ! 0), chr_byte (s ! 1))"

definition cmd_bytes :: "at_cmd \<Rightarrow> bytes" where
  "cmd_bytes c = [fst c, snd c]"

abbreviation (input) XBEE_CMD_REQUEST_TABLESIZE :: nat where "XBEE_CMD_REQUEST_TABLESIZE \<equiv> 4"
abbreviation (input) XBEE_CMD_MAX_PARAM_LENGTH :: nat where "XBEE_CMD_MAX_PARAM_LENGTH \<equiv> 48"
abbreviation (input) XBEE_CMD_REMOTE_TIMEOUT :: u16 where "XBEE_CMD_REMOTE_TIMEOUT \<equiv> 180"
abbreviation (input) XBEE_CMD_LOCAL_TIMEOUT :: u16 where "XBEE_CMD_LOCAL_TIMEOUT \<equiv> 2"

abbreviation (input) XBEE_CMD_FLAG_REMOTE :: u16 where "XBEE_CMD_FLAG_REMOTE \<equiv> 0x0001"
abbreviation (input) XBEE_CMD_FLAG_QUEUE_CHANGE :: u16 where "XBEE_CMD_FLAG_QUEUE_CHANGE \<equiv> 0x0002"
abbreviation (input) XBEE_CMD_FLAG_REUSE_HANDLE :: u16 where "XBEE_CMD_FLAG_REUSE_HANDLE \<equiv> 0x0004"
abbreviation (input) XBEE_CMD_FLAG_USER_MASK :: u16 where "XBEE_CMD_FLAG_USER_MASK \<equiv> 0x0006"

abbreviation (input) XBEE_FRAME_LOCAL_AT_CMD :: u8 where "XBEE_FRAME_LOCAL_AT_CMD \<equiv> 0x08"
abbreviation (input) XBEE_FRAME_LOCAL_AT_CMD_Q :: u8 where "XBEE_FRAME_LOCAL_AT_CMD_Q \<equiv> 0x09"
abbreviation (input) XBEE_FRAME_REMOTE_AT_CMD :: u8 where "XBEE_FRAME_REMOTE_AT_CMD \<equiv> 0x17"
abbreviation (input) XBEE_REMOTE_AT_OPT_QUEUE :: u8 where "XBEE_REMOTE_AT_OPT_QUEUE \<equiv> 0x00"
abbreviation (input) XBEE_REMOTE_AT_OPT_IMMEDIATE :: u8 where "XBEE_REMOTE_AT_OPT_IMMEDIATE \<equiv> 0x02"

text \<open>
  A callback is null, the list processor of the file, or a function of the application; the
  context is the number of a list context (the one of the device query is number 0) or a value of
  the application.
\<close>

datatype xbee_cmd_callback = No_callback | List_callback | User_callback nat

record xbee_cmd_request_t =
  sequence :: u8
  in_use :: bool
  timeout :: u16
  req_flags :: u16
  param :: bytes
  param_length :: u8
  callback :: xbee_cmd_callback
  cb_context :: nat
  req_frame_id :: u8
  address :: wpan_address_t
  command :: at_cmd

datatype xbee_command_list_type =
    XBEE_CLT_NONE | XBEE_CLT_COPY | XBEE_CLT_COPY_BE | XBEE_CLT_SET | XBEE_CLT_SET_STR
  | XBEE_CLT_SET_BE | XBEE_CLT_SET_8 | XBEE_CLT_LAST

datatype reg_callback = Reg_null | Query_handle_eo | Query_handle_ai | Query_handle_end | Reg_user nat

record xbee_atcmd_reg_t =
  reg_command :: at_cmd
  reg_flags :: u8
  reg_type :: xbee_command_list_type
  reg_callback :: reg_callback
  reg_bytes :: u8
  reg_offset :: u16

text \<open>The base of a list is the device structure or an object of the application.\<close>

datatype list_base = Base_xbee | Base_obj nat

record xbee_command_list_context_t =
  clc_list :: "xbee_atcmd_reg_t list"
  clc_base :: list_base
  clc_status :: int
  clc_index :: u16

record 'u at_app =
  request_table :: "xbee_cmd_request_t list"
  create_initialized :: u8
  tick_last_time :: u8
  last_id :: bool
  list_contexts :: "nat \<Rightarrow> xbee_command_list_context_t"
  objects :: "nat \<Rightarrow> bytes"
  user :: 'u

type_synonym 'u at_dev = "'u at_app xbee_dev_t"

abbreviation table :: "'u at_dev \<Rightarrow> xbee_cmd_request_t list" where
  "table x \<equiv> request_table (app x)"

definition upd_request :: "nat \<Rightarrow> (xbee_cmd_request_t \<Rightarrow> xbee_cmd_request_t) \<Rightarrow> 'u at_dev \<Rightarrow> 'u at_dev" where
  "upd_request i f x = x\<lparr>app := (app x)\<lparr>request_table := (table x)[i := f (table x ! i)]\<rparr>\<rparr>"

definition zero_request :: xbee_cmd_request_t where
  "zero_request = \<lparr>sequence = 0, in_use = False, timeout = 0, req_flags = 0,
     param = replicate XBEE_CMD_MAX_PARAM_LENGTH 0, param_length = 0, callback = No_callback, cb_context = 0,
     req_frame_id = 0, address = \<lparr>ieee = replicate 8 0, network = 0\<rparr>, command = (0, 0)\<rparr>"

definition set_timeout_sec :: "u32 \<Rightarrow> u16 \<Rightarrow> u16" where
  "set_timeout_sec now delay = ucast now + delay"

definition check_timeout_sec :: "u32 \<Rightarrow> u16 \<Rightarrow> bool" where
  "check_timeout_sec now t \<longleftrightarrow> 0 \<le> sint (ucast now - t)"

section \<open>Handles\<close>

definition xbee_cmd_handle_to_address :: "'u at_dev \<Rightarrow> int \<Rightarrow> nat option" where
  "xbee_cmd_handle_to_address x handle =
     (if handle < 0 \<or> handle \<ge> int XBEE_CMD_REQUEST_TABLESIZE * 256 then None
      else let i = nat (handle div 256) in
        if uint (sequence (table x ! i)) \<noteq> handle mod 256 then None else Some i)"

definition request_handle :: "'u at_dev \<Rightarrow> nat \<Rightarrow> int" where
  "request_handle x i = int i * 256 + uint (sequence (table x ! i))"

text \<open>\<open>None\<close> is the null pointer.\<close>

definition release_request :: "'u at_dev \<Rightarrow> nat option \<Rightarrow> int \<times> 'u at_dev" where
  "release_request x request =
     (case request of None \<Rightarrow> (- EINVAL, x)
      | Some i \<Rightarrow> (0, upd_request i (\<lambda>r. r\<lparr>in_use := False, sequence := sequence r + 1\<rparr>) x))"

definition xbee_cmd_release_handle :: "'u at_dev \<Rightarrow> int \<Rightarrow> int \<times> 'u at_dev" where
  "xbee_cmd_release_handle x handle = release_request x (xbee_cmd_handle_to_address x handle)"

text \<open>
  The search for a free entry in \<open>xbee_cmd_create\<close>, and how the entry is filled; the
  sequence number is kept.
\<close>

definition free_slot :: "'u at_dev \<Rightarrow> nat option" where
  "free_slot x = find (\<lambda>i. \<not> in_use (table x ! i)) [0..<XBEE_CMD_REQUEST_TABLESIZE]"

definition fill_slot :: "u32 \<Rightarrow> 'u at_dev \<Rightarrow> nat \<Rightarrow> at_cmd \<Rightarrow> int \<times> 'u at_dev" where
  "fill_slot now x i cmd =
     (request_handle x i,
      upd_request i (\<lambda>r. zero_request\<lparr>sequence := sequence r, in_use := True,
        timeout := set_timeout_sec now 2, command := cmd\<rparr>) x)"

section \<open>Building a request\<close>

definition with_request ::
  "'u at_dev \<Rightarrow> int \<Rightarrow> (xbee_cmd_request_t \<Rightarrow> xbee_cmd_request_t) \<Rightarrow> int \<times> 'u at_dev" where
  "with_request x handle f =
     (case xbee_cmd_handle_to_address x handle of None \<Rightarrow> (- EINVAL, x) | Some i \<Rightarrow> (0, upd_request i f x))"

definition xbee_cmd_set_command :: "'u at_dev \<Rightarrow> int \<Rightarrow> at_cmd \<Rightarrow> int \<times> 'u at_dev" where
  "xbee_cmd_set_command x handle cmd = with_request x handle (\<lambda>r. r\<lparr>command := cmd\<rparr>)"

definition xbee_cmd_set_callback :: "'u at_dev \<Rightarrow> int \<Rightarrow> xbee_cmd_callback \<Rightarrow> nat \<Rightarrow> int \<times> 'u at_dev" where
  "xbee_cmd_set_callback x handle cb ctx = with_request x handle (\<lambda>r. r\<lparr>callback := cb, cb_context := ctx\<rparr>)"

definition xbee_cmd_set_target :: "'u at_dev \<Rightarrow> int \<Rightarrow> bytes option \<Rightarrow> u16 \<Rightarrow> int \<times> 'u at_dev" where
  "xbee_cmd_set_target x handle ieee_p net =
     with_request x handle (\<lambda>r.
       case ieee_p of
         None \<Rightarrow> r\<lparr>address := \<lparr>ieee = replicate 8 0, network = 0\<rparr>, req_flags := req_flags r AND NOT XBEE_CMD_FLAG_REMOTE\<rparr>
       | Some a \<Rightarrow> r\<lparr>address := \<lparr>ieee = a, network = net\<rparr>, req_flags := req_flags r OR XBEE_CMD_FLAG_REMOTE\<rparr>)"

text \<open>The bytes stored at the start of the buffer; their number is the result.\<close>

definition xbee_cmd_encode_param :: "u32 \<Rightarrow> bytes" where
  "xbee_cmd_encode_param value =
     (if value AND 0xFFFF0000 \<noteq> 0 then be32_bytes value
      else if (ucast value :: u16) AND 0xFF00 \<noteq> 0 then be16_bytes (ucast value)
      else [ucast value])"

definition xbee_cmd_set_flags :: "'u at_dev \<Rightarrow> int \<Rightarrow> u16 \<Rightarrow> int \<times> 'u at_dev" where
  "xbee_cmd_set_flags x handle f =
     with_request x handle (\<lambda>r. r\<lparr>req_flags := req_flags r OR (f AND XBEE_CMD_FLAG_USER_MASK)\<rparr>)"

definition xbee_cmd_clear_flags :: "'u at_dev \<Rightarrow> int \<Rightarrow> u16 \<Rightarrow> int \<times> 'u at_dev" where
  "xbee_cmd_clear_flags x handle f =
     with_request x handle (\<lambda>r. r\<lparr>req_flags := req_flags r AND NOT (f AND XBEE_CMD_FLAG_USER_MASK)\<rparr>)"

definition store_param :: "bytes \<Rightarrow> xbee_cmd_request_t \<Rightarrow> xbee_cmd_request_t" where
  "store_param bs r = r\<lparr>param := buf_write (param r) 0 bs, param_length := of_nat (length bs)\<rparr>"

definition xbee_cmd_set_param :: "'u at_dev \<Rightarrow> int \<Rightarrow> u32 \<Rightarrow> int \<times> 'u at_dev" where
  "xbee_cmd_set_param x handle value = with_request x handle (store_param (xbee_cmd_encode_param value))"

text \<open>\<open>data\<close> are the \<open>length\<close> bytes the pointer points to.\<close>

definition xbee_cmd_set_param_bytes :: "'u at_dev \<Rightarrow> int \<Rightarrow> bytes \<Rightarrow> int \<times> 'u at_dev" where
  "xbee_cmd_set_param_bytes x handle data =
     (if length data > XBEE_CMD_MAX_PARAM_LENGTH then (- EMSGSIZE, x)
      else with_request x handle (store_param data))"

definition xbee_cmd_set_param_str :: "'u at_dev \<Rightarrow> int \<Rightarrow> bytes \<Rightarrow> int \<times> 'u at_dev" where
  "xbee_cmd_set_param_str x handle str =
     (if length str > XBEE_CMD_MAX_PARAM_LENGTH then (- EMSGSIZE, x)
      else xbee_cmd_set_param_bytes x handle str)"

section \<open>Sending a request\<close>

text \<open>The header of the frame for a request.\<close>

definition request_header :: "xbee_cmd_request_t \<Rightarrow> bytes" where
  "request_header r =
     (if req_flags r AND XBEE_CMD_FLAG_REMOTE \<noteq> 0 then
        [XBEE_FRAME_REMOTE_AT_CMD, req_frame_id r] @ ieee (address r) @ be16_bytes (network (address r)) @
        [if req_flags r AND XBEE_CMD_FLAG_QUEUE_CHANGE \<noteq> 0
         then XBEE_REMOTE_AT_OPT_QUEUE else XBEE_REMOTE_AT_OPT_IMMEDIATE] @ cmd_bytes (command r)
      else
        [if req_flags r AND XBEE_CMD_FLAG_QUEUE_CHANGE \<noteq> 0
         then XBEE_FRAME_LOCAL_AT_CMD_Q else XBEE_FRAME_LOCAL_AT_CMD, req_frame_id r] @ cmd_bytes (command r))"

text \<open>
  A free entry has a null device, for which \<open>xbee_next_frame_id\<close> returns 0 and \<open>xbee_frame_write\<close>
  refuses to send.
\<close>

definition xbee_cmd_send :: "u32 \<Rightarrow> 'u at_dev \<Rightarrow> int \<Rightarrow> int \<times> 'u at_dev" where
  "xbee_cmd_send now x handle =
     (case xbee_cmd_handle_to_address x handle of
        None \<Rightarrow> (- EINVAL, x)
      | Some i \<Rightarrow>
          if \<not> in_use (table x ! i) then (- EINVAL, upd_request i (\<lambda>r. r\<lparr>req_frame_id := 0\<rparr>) x)
          else
          let (fid, x) = (if callback (table x ! i) = No_callback then (0, x) else xbee_next_frame_id x);
              x = upd_request i (\<lambda>r. r\<lparr>req_frame_id := fid\<rparr>) x;
              r = table x ! i;
              (err, x) = xbee_frame_write x (Some (request_header r)) (of_nat (length (request_header r)))
                           (Some (param r)) (ucast (param_length r))
          in if err = 0 then
               (if req_frame_id r \<noteq> 0 then
                  (err, upd_request i (\<lambda>r. r\<lparr>timeout := set_timeout_sec now
                     (if req_flags r AND XBEE_CMD_FLAG_REMOTE \<noteq> 0
                      then XBEE_CMD_REMOTE_TIMEOUT else XBEE_CMD_LOCAL_TIMEOUT)\<rparr>) x)
                else if req_flags r AND XBEE_CMD_FLAG_REUSE_HANDLE = 0 then
                  (err, snd (release_request x (Some i)))
                else (err, x))
             else (err, x))"

definition xbee_cmd_simple :: "'u at_dev \<Rightarrow> at_cmd \<Rightarrow> u32 \<Rightarrow> int \<times> 'u at_dev" where
  "xbee_cmd_simple x cmd value =
     (let request = [XBEE_FRAME_LOCAL_AT_CMD, 0] @ cmd_bytes cmd @ xbee_cmd_encode_param value
      in xbee_frame_write x (Some request) (of_nat (length request)) None 0)"

text \<open>\<open>data\<close> is \<open>None\<close> for a null pointer; then the length is ignored.\<close>

definition xbee_cmd_execute :: "'u at_dev \<Rightarrow> at_cmd \<Rightarrow> bytes option \<Rightarrow> u8 \<Rightarrow> int \<times> 'u at_dev" where
  "xbee_cmd_execute x cmd data len =
     (let (fid, x) = xbee_next_frame_id x;
          request = [XBEE_FRAME_LOCAL_AT_CMD, fid] @ cmd_bytes cmd
      in xbee_frame_write x (Some request) 4 data (ucast len))"

definition xbee_identify :: "'u at_dev \<Rightarrow> bool \<Rightarrow> 'u at_dev" where
  "xbee_identify x identify =
     (if identify \<noteq> last_id (app x) then
        let x = x\<lparr>app := (app x)\<lparr>last_id := identify\<rparr>\<rparr>
        in snd (xbee_cmd_simple x (at_cmd ''LT'') (if last_id (app x) then 10 else 0))
      else x)"

section \<open>The table and its handles\<close>

text \<open>Sizes that every operation keeps.\<close>

definition request_ok :: "xbee_cmd_request_t \<Rightarrow> bool" where
  "request_ok r \<longleftrightarrow> length (param r) = 48 \<and> unat (param_length r) \<le> 48 \<and> length (ieee (address r)) = 8"

definition table_ok :: "'u at_dev \<Rightarrow> bool" where
  "table_ok x \<longleftrightarrow> length (table x) = 4 \<and> (\<forall>i < 4. request_ok (table x ! i))"

lemma upd_request_simps [simp]:
  "table (upd_request i f x) = (table x)[i := f (table x ! i)]"
  "serport (upd_request i f x) = serport x" "dev_flags (upd_request i f x) = dev_flags x"
  "frame_id (upd_request i f x) = frame_id x" "list_contexts (app (upd_request i f x)) = list_contexts (app x)"
  "wpan_address (upd_request i f x) = wpan_address x" "wpan_flags (upd_request i f x) = wpan_flags x"
  "create_initialized (app (upd_request i f x)) = create_initialized (app x)"
  "tick_last_time (app (upd_request i f x)) = tick_last_time (app x)" "can_send (upd_request i f x) = can_send x"
  by (simp_all add: upd_request_def can_send_def)

lemma length_table [simp]: "table_ok x \<Longrightarrow> length (table x) = 4"
  by (simp add: table_ok_def)

lemma table_ok_upd: "table_ok x \<Longrightarrow> (\<And>r. request_ok r \<Longrightarrow> request_ok (f r)) \<Longrightarrow> table_ok (upd_request i f x)"
  by (auto simp: table_ok_def) (metis nth_list_update_eq nth_list_update_neq)

lemma request_ok_zero [simp]: "request_ok zero_request"
  by (simp add: request_ok_def zero_request_def)

lemma request_ok_upds [simp]:
  "request_ok (r\<lparr>sequence := a\<rparr>) = request_ok r" "request_ok (r\<lparr>in_use := b\<rparr>) = request_ok r"
  "request_ok (r\<lparr>timeout := t\<rparr>) = request_ok r" "request_ok (r\<lparr>req_flags := fl\<rparr>) = request_ok r"
  "request_ok (r\<lparr>callback := cb\<rparr>) = request_ok r" "request_ok (r\<lparr>cb_context := c\<rparr>) = request_ok r"
  "request_ok (r\<lparr>req_frame_id := i\<rparr>) = request_ok r" "request_ok (r\<lparr>command := cmd\<rparr>) = request_ok r"
  by (simp_all add: request_ok_def)

lemma handle_div_mod:
  "(int i * 256 + uint (s :: u8)) div 256 = int i" "(int i * 256 + uint s) mod 256 = uint s"
proof -
  have s: "0 \<le> uint s" "uint s < 256" using uint_lt2p[of s] by simp_all
  then show "(int i * 256 + uint s) div 256 = int i" "(int i * 256 + uint s) mod 256 = uint s"
    by (simp_all add: div_add1_eq)
qed

lemma handle_to_address_iff:
  "xbee_cmd_handle_to_address x h = Some i \<longleftrightarrow> i < 4 \<and> h = request_handle x i"
proof
  assume "xbee_cmd_handle_to_address x h = Some i"
  then have h: "0 \<le> h" "h < 1024" "i = nat (h div 256)" "uint (sequence (table x ! i)) = h mod 256"
    by (auto simp: xbee_cmd_handle_to_address_def Let_def split: if_splits)
  then show "i < 4 \<and> h = request_handle x i" by (auto simp: request_handle_def)
next
  assume a: "i < 4 \<and> h = request_handle x i"
  have "0 \<le> uint (sequence (table x ! i))" "uint (sequence (table x ! i)) < 256"
    using uint_lt2p[of "sequence (table x ! i)"] by simp_all
  then have "0 \<le> h" "h < 1024" using a unfolding request_handle_def by linarith+
  moreover have "h div 256 = int i" "h mod 256 = uint (sequence (table x ! i))"
    using a handle_div_mod[of i "sequence (table x ! i)"] by (simp_all only: request_handle_def)
  ultimately show "xbee_cmd_handle_to_address x h = Some i"
    by (simp add: xbee_cmd_handle_to_address_def Let_def)
qed

lemma handle_to_address [simp]: "i < 4 \<Longrightarrow> xbee_cmd_handle_to_address x (request_handle x i) = Some i"
  by (simp add: handle_to_address_iff)

lemma request_handle_nonneg [simp]: "0 \<le> request_handle x i"
  by (simp add: request_handle_def)

lemma with_request_ok: "table_ok x \<Longrightarrow> (\<And>r. request_ok r \<Longrightarrow> request_ok (f r)) \<Longrightarrow> table_ok (snd (with_request x h f))"
  by (simp add: with_request_def table_ok_upd split: option.split)

section \<open>Parameters\<close>

lemma length_encode_param: "length (xbee_cmd_encode_param v) \<in> {1, 2, 4}"
  by (simp add: xbee_cmd_encode_param_def)

lemma store_param_ok: "request_ok r \<Longrightarrow> length bs \<le> 48 \<Longrightarrow> request_ok (store_param bs r)"
  by (simp add: request_ok_def store_param_def unat_of_nat)

text \<open>The parameter a request carries.\<close>

definition param_of :: "xbee_cmd_request_t \<Rightarrow> bytes" where
  "param_of r = take (unat (param_length r)) (param r)"

lemma param_of_store [simp]: "request_ok r \<Longrightarrow> length bs \<le> 48 \<Longrightarrow> param_of (store_param bs r) = bs"
  by (simp add: param_of_def store_param_def unat_of_nat buf_write_def)

section \<open>The frame of a request\<close>

lemma frame_part_take:
  "unat n < 256 \<Longrightarrow> frame_part s (Some p) n ck = frame_part s (Some (take (unat n) p)) n ck"
  by (simp add: frame_part_def xbee_ser_write_def xbee_checksum_def unsigned_ucast_eq take_bit_eq_mod)

lemma frame_write_take:
  assumes "unat dl < 256"
  shows "xbee_frame_write x h hl (Some d) dl = xbee_frame_write x h hl (Some (take (unat dl) d)) dl"
  using frame_part_take[OF assms, of _ d] by (simp add: xbee_frame_write_def Let_def split_beta)

lemma length_request_header: "request_ok r \<Longrightarrow> length (request_header r) \<in> {4, 15}"
  by (simp add: request_header_def request_ok_def cmd_bytes_def)

lemma request_frame_write:
  assumes "can_send x" "request_ok r"
  obtains k where "xbee_frame_write x (Some (request_header r)) (of_nat (length (request_header r)))
      (Some (param r)) (ucast (param_length r)) =
    (0, x\<lparr>serport := sent (serport x) (wire (request_header r @ param_of r)) k\<rparr>)"
proof -
  have l: "length (param_of r) = unat (param_length r)" "unat (param_length r) \<le> 48"
    using assms(2) by (simp_all add: param_of_def request_ok_def)
  then have n: "(ucast (param_length r) :: u16) = of_nat (length (param_of r))"
    by (simp add: word_unat_eq_iff unat_of_nat)
  have "request_header r @ param_of r \<noteq> []" "length (request_header r) < 256" "length (param_of r) < 256"
    using length_request_header[OF assms(2)] l by auto
  from xbee_frame_write_wire[OF assms(1) this] obtain k where
    k: "xbee_frame_write x (Some (request_header r)) (of_nat (length (request_header r))) (Some (param_of r))
        (of_nat (length (param_of r))) =
      (0, x\<lparr>serport := sent (serport x) (wire (request_header r @ param_of r)) k\<rparr>)" .
  have "unat (of_nat (length (param_of r)) :: u16) = unat (param_length r)" using l by (simp add: unat_of_nat)
  with k frame_write_take[of "of_nat (length (param_of r))" x _ _ "param r"] l(2) show thesis
    by (intro that[of k]) (simp add: n param_of_def)
qed

text \<open>The module's reading of a request: target, frame ID, whether the change is queued, command, parameter.\<close>

definition parse_request :: "bytes \<Rightarrow> (wpan_address_t option \<times> u8 \<times> bool \<times> at_cmd \<times> bytes) option" where
  "parse_request f =
     (if length f \<ge> 4 \<and> hd f \<in> {0x08, 0x09} then Some (None, f ! 1, hd f = 0x09, (f ! 2, f ! 3), drop 4 f)
      else if length f \<ge> 15 \<and> hd f = 0x17 then
        Some (Some \<lparr>ieee = take 8 (drop 2 f), network = be16_of (f ! 10) (f ! 11)\<rparr>, f ! 1, f ! 12 = 0,
              (f ! 13, f ! 14), drop 15 f)
      else None)"

definition is_remote :: "xbee_cmd_request_t \<Rightarrow> bool" where
  "is_remote r \<longleftrightarrow> req_flags r AND XBEE_CMD_FLAG_REMOTE \<noteq> 0"

definition is_queued :: "xbee_cmd_request_t \<Rightarrow> bool" where
  "is_queued r \<longleftrightarrow> req_flags r AND XBEE_CMD_FLAG_QUEUE_CHANGE \<noteq> 0"

lemma length8E:
  assumes "length a = 8"
  obtains b0 b1 b2 b3 b4 b5 b6 b7 where "a = [b0, b1, b2, b3, b4, b5, b6, b7]"
  using assms by (auto simp: numeral_eq_Suc length_Suc_conv)

lemma parse_request_header:
  assumes "request_ok r"
  shows "parse_request (request_header r @ p) =
     Some (if is_remote r then Some (address r) else None, req_frame_id r, is_queued r, command r, p)"
proof -
  obtain b0 b1 b2 b3 b4 b5 b6 b7 where a: "ieee (address r) = [b0, b1, b2, b3, b4, b5, b6, b7]"
    using assms by (auto simp: request_ok_def elim: length8E)
  then have "\<lparr>ieee = [b0, b1, b2, b3, b4, b5, b6, b7], network = network (address r)\<rparr> = address r" by simp
  then show ?thesis
    by (simp add: parse_request_def request_header_def is_remote_def is_queued_def cmd_bytes_def a be16_bytes_def byte_simps)
qed

text \<open>The entry after its request went out with frame ID \<open>fid\<close>.\<close>

definition sent_request :: "u32 \<Rightarrow> u8 \<Rightarrow> xbee_cmd_request_t \<Rightarrow> xbee_cmd_request_t" where
  "sent_request now fid r =
     (let r = r\<lparr>req_frame_id := fid\<rparr> in
      if fid \<noteq> 0 then r\<lparr>timeout := set_timeout_sec now
          (if is_remote r then XBEE_CMD_REMOTE_TIMEOUT else XBEE_CMD_LOCAL_TIMEOUT)\<rparr>
      else if req_flags r AND XBEE_CMD_FLAG_REUSE_HANDLE = 0 then r\<lparr>in_use := False, sequence := sequence r + 1\<rparr>
      else r)"

lemma next_frame_id_eq:
  obtains f where "xbee_next_frame_id x = (f, x\<lparr>frame_id := f\<rparr>)" "f \<noteq> 0"
proof (cases "frame_id x + 1 = 0")
  case True
  then show thesis by (intro that[of 1]) (simp_all add: xbee_next_frame_id_def)
next
  case False
  then show thesis by (intro that[of "frame_id x + 1"]) (simp_all add: xbee_next_frame_id_def)
qed

lemma send_request:
  assumes "can_send x" "table_ok x" "i < 4" "in_use (table x ! i)"
  obtains f k where
    "if callback (table x ! i) = No_callback then f = 0 else f = fst (xbee_next_frame_id x) \<and> f \<noteq> 0"
    "xbee_cmd_send now x (request_handle x i) =
       (0, upd_request i (sent_request now f)
          (x\<lparr>frame_id := (if f = 0 then frame_id x else f),
             serport := sent (serport x) (wire (request_header ((table x ! i)\<lparr>req_frame_id := f\<rparr>) @ param_of (table x ! i))) k\<rparr>))"
proof -
  let ?r = "table x ! i"
  define f where "f = (if callback ?r = No_callback then 0 else fst (xbee_next_frame_id x))"
  have f: "(if callback ?r = No_callback then (0, x) else xbee_next_frame_id x) =
      (f, x\<lparr>frame_id := (if f = 0 then frame_id x else f)\<rparr>)" "callback ?r = No_callback \<longleftrightarrow> f = 0"
    by (cases rule: next_frame_id_eq[of x]; simp add: f_def)+
  let ?x = "x\<lparr>frame_id := (if f = 0 then frame_id x else f)\<rparr>" and ?r1 = "?r\<lparr>req_frame_id := f\<rparr>"
  let ?y = "upd_request i (\<lambda>r. r\<lparr>req_frame_id := f\<rparr>) ?x"
  have r1: "table ?y ! i = ?r1" "request_ok ?r1" "param_of ?r1 = param_of ?r"
    using assms(2,3) by (simp_all add: table_ok_def param_of_def)
  have "can_send ?y" using assms(1) by (simp add: can_send_def)
  from request_frame_write[OF this r1(2)] obtain k where
    k: "xbee_frame_write ?y (Some (request_header ?r1)) (of_nat (length (request_header ?r1))) (Some (param ?r1))
        (ucast (param_length ?r1)) = (0, ?y\<lparr>serport := sent (serport x) (wire (request_header ?r1 @ param_of ?r)) k\<rparr>)"
    using r1(3) by auto
  show thesis
  proof (rule that[of f k])
    show "xbee_cmd_send now x (request_handle x i) =
       (0, upd_request i (sent_request now f)
          (x\<lparr>frame_id := (if f = 0 then frame_id x else f),
             serport := sent (serport x) (wire (request_header ?r1 @ param_of ?r)) k\<rparr>))"
      unfolding xbee_cmd_send_def handle_to_address[OF assms(3)] option.case f(1) Let_def case_prod_conv r1(1) k
      using assms(2-4) by (cases "f = 0")
        (simp_all add: sent_request_def release_request_def Let_def is_remote_def upd_request_def)
  qed (use f(2) f_def in auto)
qed

lemma sent_request_ok: "request_ok r \<Longrightarrow> request_ok (sent_request now fid r)"
  by (simp add: sent_request_def Let_def)

text \<open>
  C9: sending a request. On a port that accepts data the request in an entry \<open>i\<close> that is in use goes
  out as one frame, from which the module reads the target, the frame ID, the queue option, the command
  and the parameter of the entry. With a callback the frame ID is not 0 and the entry waits for the
  response; without one it is 0 and the entry is free again, unless its handle is to be reused. The handle of
  a free entry is refused and nothing is sent.
\<close>

theorem xbee_cmd_send_frame:
  assumes "can_send x" "table_ok x" "i < 4" "r = table x ! i"
  shows "if in_use r
    then \<exists>f p x'. xbee_cmd_send now x (request_handle x i) = (0, x') \<and>
      os_tx (serport x') = os_tx (serport x) @ wire p \<and>
      parse_request p = Some (if is_remote r then Some (address r) else None, f, is_queued r, command r, param_of r) \<and>
      (f = 0 \<longleftrightarrow> callback r = No_callback) \<and>
      table x' = (table x)[i := sent_request now f r] \<and> table_ok x' \<and> can_send x'
    else \<exists>x'. xbee_cmd_send now x (request_handle x i) = (- EINVAL, x') \<and> serport x' = serport x \<and>
      table x' = (table x)[i := r\<lparr>req_frame_id := 0\<rparr>]"
proof (cases "in_use r")
  case False
  then show ?thesis using assms(3,4) by (simp add: xbee_cmd_send_def)
next
  case True
  then obtain f k where f: "if callback r = No_callback then f = 0 else f = fst (xbee_next_frame_id x) \<and> f \<noteq> 0"
    and sd: "xbee_cmd_send now x (request_handle x i) =
       (0, upd_request i (sent_request now f)
          (x\<lparr>frame_id := (if f = 0 then frame_id x else f),
             serport := sent (serport x) (wire (request_header (r\<lparr>req_frame_id := f\<rparr>) @ param_of r)) k\<rparr>))"
    using send_request[OF assms(1-3)] assms(4) by blast
  note in_use = True
  let ?y = "x\<lparr>frame_id := (if f = 0 then frame_id x else f),
      serport := sent (serport x) (wire (request_header (r\<lparr>req_frame_id := f\<rparr>) @ param_of r)) k\<rparr>"
  have "request_ok r" "table_ok ?y" "can_send ?y"
    using assms by (simp_all add: table_ok_def can_send_def)
  then have "request_ok (r\<lparr>req_frame_id := f\<rparr>)" "table_ok (upd_request i (sent_request now f) ?y)"
    "can_send (upd_request i (sent_request now f) ?y)"
    by (simp_all add: table_ok_upd sent_request_ok)
  with sd f in_use assms(4) parse_request_header[OF this(1), of "param_of r"] show ?thesis
    by (auto simp: is_remote_def is_queued_def split: if_splits)
qed

section \<open>Stale handles\<close>

lemma no_request_refused:
  assumes "xbee_cmd_handle_to_address x h = None"
  shows "xbee_cmd_send now x h = (- EINVAL, x)" "xbee_cmd_release_handle x h = (- EINVAL, x)"
    "xbee_cmd_set_command x h cmd = (- EINVAL, x)" "xbee_cmd_set_callback x h cb ctx = (- EINVAL, x)"
    "xbee_cmd_set_target x h a net = (- EINVAL, x)" "xbee_cmd_set_param x h v = (- EINVAL, x)"
    "xbee_cmd_set_flags x h fl = (- EINVAL, x)" "xbee_cmd_clear_flags x h fl = (- EINVAL, x)"
    "length bs \<le> 48 \<Longrightarrow> xbee_cmd_set_param_bytes x h bs = (- EINVAL, x)"
    "length bs \<le> 48 \<Longrightarrow> xbee_cmd_set_param_str x h bs = (- EINVAL, x)"
  using assms by (simp_all add: xbee_cmd_send_def xbee_cmd_release_handle_def release_request_def
      xbee_cmd_set_command_def xbee_cmd_set_callback_def xbee_cmd_set_target_def xbee_cmd_set_param_def
      xbee_cmd_set_flags_def xbee_cmd_clear_flags_def xbee_cmd_set_param_bytes_def xbee_cmd_set_param_str_def with_request_def)

text \<open>A device with an open port and four free entries.\<close>

definition demo_app :: "unit at_app" where
  "demo_app = \<lparr>request_table = replicate 4 zero_request, create_initialized = 0, tick_last_time = 0, last_id = False,
     list_contexts = (\<lambda>_. \<lparr>clc_list = [], clc_base = Base_xbee, clc_status = 0, clc_index = 0\<rparr>),
     objects = (\<lambda>_. []), user = ()\<rparr>"

definition demo_cmd :: "unit at_dev" where
  "demo_cmd = snd (xbee_dev_init (demo_port []) 3 False demo_app)"

lemma demo_cmd_ok: "table demo_cmd = replicate 4 zero_request" "table_ok demo_cmd" "can_send demo_cmd"
  "os_tx (serport demo_cmd) = []" "app demo_cmd = demo_app" "request_handle demo_cmd 0 = 0" "request_handle demo_cmd 2 = 512"
proof -
  show 1: "app demo_cmd = demo_app" by (simp add: demo_cmd_def xbee_dev_init_def split_beta)
  then show 2: "table demo_cmd = replicate 4 zero_request" by (simp add: demo_app_def)
  then show "table_ok demo_cmd" by (simp add: table_ok_def)
  show "request_handle demo_cmd 0 = 0" "request_handle demo_cmd 2 = 512"
    by (simp_all add: request_handle_def 2 zero_request_def)
  show "can_send demo_cmd" "os_tx (serport demo_cmd) = []"
    by (simp_all add: demo_cmd_def can_send_def demo_port_def xbee_dev_init_def xbee_ser_open_def xbee_ser_flowcontrol_def
      syscall_def xbee_ser_baudrate_def xbee_ser_invalid_def Let_def ser_ready_def)
qed

text \<open>Entry 2 is in use, with the command \<open>NI\<close>.\<close>

definition demo_used :: "unit at_dev" where
  "demo_used = snd (fill_slot 5 demo_cmd 2 (at_cmd ''NI''))"

theorem xbee_cmd_send_frame_witness:
  "\<exists>f p x'. xbee_cmd_send 7 demo_used 512 = (0, x') \<and> os_tx (serport x') = wire p \<and>
     parse_request p = Some (None, f, False, at_cmd ''NI'', []) \<and> f = 0"
proof -
  have t: "table demo_used = (replicate 4 zero_request)[2 := zero_request\<lparr>in_use := True, timeout := 7, command := at_cmd ''NI''\<rparr>]"
    by (simp add: demo_used_def fill_slot_def demo_cmd_ok(1) set_timeout_sec_def zero_request_def)
  have ok: "table_ok demo_used" unfolding demo_used_def fill_slot_def snd_conv
    by (rule table_ok_upd[OF demo_cmd_ok(2)]) simp
  have d: "can_send demo_used" "request_handle demo_used 2 = 512" "os_tx (serport demo_used) = []"
    using demo_cmd_ok(3,4) by (simp_all add: demo_used_def fill_slot_def request_handle_def demo_cmd_ok(1) zero_request_def)
  show ?thesis
    using xbee_cmd_send_frame[OF d(1) ok _ refl, of 2 7] d(2,3)
    by (simp add: t) (simp add: zero_request_def is_remote_def is_queued_def param_of_def, blast)
qed

end
