(* ===== verification/Xbee_Atcmd_List.thy ===== *)
theory Xbee_Atcmd_List
  imports Xbee_Atcmd "HOL-Library.Monad_Syntax"
begin

text \<open>
  \<open>src/Software/lib/XBee/src/xbee/xbee_atcmd.c\<close>, second part: responses, expired requests,
  command lists, and the list of commands that queries the attached module. The functions call
  each other in a cycle, and every cycle passes through \<open>xbee_cmd_create\<close>: it is the recursive
  definition, with a bound on the depth, and an argument of the others. Functions of the
  application are a record of parameters. The result \<open>None\<close> means that the depth was not enough or
  that an access left an array or the part of the device structure that is modelled.
\<close>

section \<open>Memory of command lists\<close>

text \<open>
  The device structure by its offsets on 64-bit POSIX systems, little-endian: only the fields of
  the model have an address here.
\<close>

definition get_byte :: "'a::len word \<Rightarrow> nat \<Rightarrow> u8" where
  "get_byte w i = ucast (drop_bit (8 * i) w)"

definition set_byte :: "'a::len word \<Rightarrow> nat \<Rightarrow> u8 \<Rightarrow> 'a word" where
  "set_byte w i b = (w AND NOT (push_bit (8 * i) 0xFF)) OR push_bit (8 * i) (ucast b)"

definition dev_load_byte :: "'a xbee_dev_t \<Rightarrow> nat \<Rightarrow> u8 option" where
  "dev_load_byte x i =
     (if 24 \<le> i \<and> i < 32 then Some (ieee (wpan_address x) ! (i - 24))
      else if 32 \<le> i \<and> i < 34 then Some (get_byte (network (wpan_address x)) (i - 32))
      else if 36 \<le> i \<and> i < 38 then Some (get_byte (wpan_payload x) (i - 36))
      else if 38 \<le> i \<and> i < 40 then Some (get_byte (wpan_flags x) (i - 38))
      else if 40 \<le> i \<and> i < 48 then Some (get_byte (endpoint_table x) (i - 40))
      else if 48 \<le> i \<and> i < 52 then Some (get_byte (baudrate (serport x)) (i - 48))
      else if 120 \<le> i \<and> i < 122 then Some (get_byte (hardware_version x) (i - 120))
      else if 124 \<le> i \<and> i < 128 then Some (get_byte (firmware_version x) (i - 124))
      else if 300 \<le> i \<and> i < 302 then Some (get_byte (guard_time x) (i - 300))
      else if 302 \<le> i \<and> i < 304 then Some (get_byte (idle_timeout x) (i - 302))
      else if i = 304 then Some (escape_char x)
      else None)"

definition dev_store_byte :: "'a xbee_dev_t \<Rightarrow> nat \<Rightarrow> u8 \<Rightarrow> 'a xbee_dev_t option" where
  "dev_store_byte x i b =
     (if 24 \<le> i \<and> i < 32 then Some (x\<lparr>wpan_address := (wpan_address x)\<lparr>ieee := (ieee (wpan_address x))[i - 24 := b]\<rparr>\<rparr>)
      else if 32 \<le> i \<and> i < 34 then
        Some (x\<lparr>wpan_address := (wpan_address x)\<lparr>network := set_byte (network (wpan_address x)) (i - 32) b\<rparr>\<rparr>)
      else if 36 \<le> i \<and> i < 38 then Some (x\<lparr>wpan_payload := set_byte (wpan_payload x) (i - 36) b\<rparr>)
      else if 38 \<le> i \<and> i < 40 then Some (x\<lparr>wpan_flags := set_byte (wpan_flags x) (i - 38) b\<rparr>)
      else if 40 \<le> i \<and> i < 48 then Some (x\<lparr>endpoint_table := set_byte (endpoint_table x) (i - 40) b\<rparr>)
      else if 48 \<le> i \<and> i < 52 then
        Some (x\<lparr>serport := (serport x)\<lparr>baudrate := set_byte (baudrate (serport x)) (i - 48) b\<rparr>\<rparr>)
      else if 120 \<le> i \<and> i < 122 then Some (x\<lparr>hardware_version := set_byte (hardware_version x) (i - 120) b\<rparr>)
      else if 124 \<le> i \<and> i < 128 then Some (x\<lparr>firmware_version := set_byte (firmware_version x) (i - 124) b\<rparr>)
      else if 300 \<le> i \<and> i < 302 then Some (x\<lparr>guard_time := set_byte (guard_time x) (i - 300) b\<rparr>)
      else if 302 \<le> i \<and> i < 304 then Some (x\<lparr>idle_timeout := set_byte (idle_timeout x) (i - 302) b\<rparr>)
      else if i = 304 then Some (x\<lparr>escape_char := b\<rparr>)
      else None)"

fun dev_load :: "'a xbee_dev_t \<Rightarrow> nat \<Rightarrow> nat \<Rightarrow> bytes option" where
  "dev_load x i 0 = Some []"
| "dev_load x i (Suc n) = do { b \<leftarrow> dev_load_byte x i; bs \<leftarrow> dev_load x (i + 1) n; Some (b # bs) }"

fun dev_store :: "'a xbee_dev_t \<Rightarrow> nat \<Rightarrow> bytes \<Rightarrow> 'a xbee_dev_t option" where
  "dev_store x i [] = Some x"
| "dev_store x i (b # bs) = do { x \<leftarrow> dev_store_byte x i b; dev_store x (i + 1) bs }"

definition mem_load :: "'u at_dev \<Rightarrow> list_base \<Rightarrow> u16 \<Rightarrow> nat \<Rightarrow> bytes option" where
  "mem_load x base off n =
     (case base of
        Base_xbee \<Rightarrow> dev_load x (unat off) n
      | Base_obj k \<Rightarrow> let m = objects (app x) k in
          if unat off + n \<le> length m then Some (take n (drop (unat off) m)) else None)"

definition mem_store :: "'u at_dev \<Rightarrow> list_base \<Rightarrow> u16 \<Rightarrow> bytes \<Rightarrow> 'u at_dev option" where
  "mem_store x base off bs =
     (case base of
        Base_xbee \<Rightarrow> dev_store x (unat off) bs
      | Base_obj k \<Rightarrow> let m = objects (app x) k in
          if unat off + length bs \<le> length m
          then Some (x\<lparr>app := (app x)\<lparr>objects := (objects (app x))(k := buf_write m (unat off) bs)\<rparr>\<rparr>) else None)"

text \<open>A string in an object; the device structure has none in the model.\<close>

definition mem_string :: "'u at_dev \<Rightarrow> list_base \<Rightarrow> u16 \<Rightarrow> bytes option" where
  "mem_string x base off =
     (case base of
        Base_xbee \<Rightarrow> None
      | Base_obj k \<Rightarrow> let m = drop (unat off) (objects (app x) k) in
          if 0 \<in> set m then Some (cstr_of m) else None)"

definition le16_bytes :: "u16 \<Rightarrow> bytes" where
  "le16_bytes w = rev (be16_bytes w)"

definition le32_bytes :: "u32 \<Rightarrow> bytes" where
  "le32_bytes w = rev (be32_bytes w)"

text \<open>A value in host byte order, from as many bytes as the type has.\<close>

definition le_value :: "bytes \<Rightarrow> u32" where
  "le_value bs = (case rev bs of [a] \<Rightarrow> ucast a | [a, b] \<Rightarrow> ucast (be16_of a b) | [a, b, c, d] \<Rightarrow> be32_of a b c d | _ \<Rightarrow> 0)"

section \<open>Responses and the functions of the application\<close>

abbreviation (input) XBEE_ATCMD_DONE :: int where "XBEE_ATCMD_DONE \<equiv> 0"
abbreviation (input) XBEE_ATCMD_REUSE :: int where "XBEE_ATCMD_REUSE \<equiv> 1"
abbreviation (input) XBEE_CMD_RESP_MASK_STATUS :: u16 where "XBEE_CMD_RESP_MASK_STATUS \<equiv> 0x000F"
abbreviation (input) XBEE_CMD_RESP_FLAG_TIMEOUT :: u16 where "XBEE_CMD_RESP_FLAG_TIMEOUT \<equiv> 0x8000"
abbreviation (input) XBEE_AT_RESP_SUCCESS :: u16 where "XBEE_AT_RESP_SUCCESS \<equiv> 0"

abbreviation (input) XBEE_COMMAND_LIST_RUNNING :: int where "XBEE_COMMAND_LIST_RUNNING \<equiv> - EBUSY"
abbreviation (input) XBEE_COMMAND_LIST_DONE :: int where "XBEE_COMMAND_LIST_DONE \<equiv> 0"
abbreviation (input) XBEE_COMMAND_LIST_TIMEOUT :: int where "XBEE_COMMAND_LIST_TIMEOUT \<equiv> - ETIMEDOUT"
abbreviation (input) XBEE_COMMAND_LIST_ERROR :: int where "XBEE_COMMAND_LIST_ERROR \<equiv> - EIO"

abbreviation (input) XBEE_DEV_FLAG_CMD_INIT :: u16 where "XBEE_DEV_FLAG_CMD_INIT \<equiv> 0x0001"
abbreviation (input) XBEE_DEV_FLAG_QUERY_BEGIN :: u16 where "XBEE_DEV_FLAG_QUERY_BEGIN \<equiv> 0x0002"
abbreviation (input) XBEE_DEV_FLAG_QUERY_DONE :: u16 where "XBEE_DEV_FLAG_QUERY_DONE \<equiv> 0x0004"
abbreviation (input) XBEE_DEV_FLAG_QUERY_ERROR :: u16 where "XBEE_DEV_FLAG_QUERY_ERROR \<equiv> 0x0008"
abbreviation (input) XBEE_DEV_FLAG_QUERY_REFRESH :: u16 where "XBEE_DEV_FLAG_QUERY_REFRESH \<equiv> 0x0010"
abbreviation (input) XBEE_DEV_FLAG_QUERY_INPROGRESS :: u16 where "XBEE_DEV_FLAG_QUERY_INPROGRESS \<equiv> 0x0020"
abbreviation (input) WPAN_FLAG_AUTHENTICATION_ENABLED :: u16 where "WPAN_FLAG_AUTHENTICATION_ENABLED \<equiv> 0x0004"

abbreviation (input) XBEE_FRAME_LOCAL_AT_RESPONSE :: u8 where "XBEE_FRAME_LOCAL_AT_RESPONSE \<equiv> 0x88"
abbreviation (input) XBEE_FRAME_REMOTE_AT_RESPONSE :: u8 where "XBEE_FRAME_REMOTE_AT_RESPONSE \<equiv> 0x97"

text \<open>\<open>value_bytes\<close> is the memory the pointer points to, of which \<open>value_length\<close> bytes belong to the response.\<close>

record xbee_cmd_response_t =
  resp_context :: nat
  handle :: int
  resp_command :: at_cmd
  resp_flags :: u16
  value_length :: u8
  value_bytes :: bytes
  resp_value :: u32
  resp_source :: "wpan_address_t option"

record 'u at_env =
  now :: u32
  user_cb :: "nat \<Rightarrow> xbee_cmd_response_t \<Rightarrow> 'u at_dev \<Rightarrow> (int \<times> 'u at_dev) option"
  user_reg :: "nat \<Rightarrow> xbee_cmd_response_t \<Rightarrow> xbee_atcmd_reg_t option \<Rightarrow> list_base \<Rightarrow> 'u at_dev \<Rightarrow> 'u at_dev option"

type_synonym 'u create_fn = "'u at_dev \<Rightarrow> at_cmd \<Rightarrow> (int \<times> 'u at_dev) option"

definition reg_valid :: "xbee_atcmd_reg_t \<Rightarrow> bool" where
  "reg_valid reg \<longleftrightarrow> reg_command reg \<noteq> (0, 0)"

definition upd_list :: "nat \<Rightarrow> (xbee_command_list_context_t \<Rightarrow> xbee_command_list_context_t) \<Rightarrow> 'u at_dev \<Rightarrow> 'u at_dev" where
  "upd_list c f x = x\<lparr>app := (app x)\<lparr>list_contexts := (list_contexts (app x))(c := f (list_contexts (app x) c))\<rparr>\<rparr>"

abbreviation lists :: "'u at_dev \<Rightarrow> nat \<Rightarrow> xbee_command_list_context_t" where
  "lists x \<equiv> list_contexts (app x)"

section \<open>Issuing the commands of a list\<close>

text \<open>The parameter of the next command.\<close>

definition issue_param :: "'u at_dev \<Rightarrow> int \<Rightarrow> list_base \<Rightarrow> xbee_atcmd_reg_t \<Rightarrow> 'u at_dev option" where
  "issue_param x request base reg =
     (case reg_type reg of
        XBEE_CLT_SET_8 \<Rightarrow> Some (snd (xbee_cmd_set_param x request (ucast (reg_bytes reg))))
      | XBEE_CLT_SET \<Rightarrow> do {
          bs \<leftarrow> mem_load x base (reg_offset reg) (unat (reg_bytes reg));
          Some (snd (xbee_cmd_set_param_bytes x request bs)) }
      | XBEE_CLT_SET_STR \<Rightarrow> do {
          s \<leftarrow> mem_string x base (reg_offset reg);
          Some (snd (xbee_cmd_set_param_str x request s)) }
      | XBEE_CLT_SET_BE \<Rightarrow> do {
          bs \<leftarrow> mem_load x base (reg_offset reg)
                 (if reg_bytes reg = 2 then 2 else if reg_bytes reg = 4 then 4 else 1);
          Some (snd (xbee_cmd_set_param x request (le_value bs))) }
      | _ \<Rightarrow> Some (snd (xbee_cmd_set_param_bytes x request [])))"

definition issue_list :: "'u create_fn \<Rightarrow> 'u at_dev \<Rightarrow> nat \<Rightarrow> int option \<Rightarrow> (int \<times> 'u at_dev) option" where
  "issue_list create x c response = do {
     reg \<leftarrow> nth_opt (clc_list (lists x c)) (unat (clc_index (lists x c)));
     first \<leftarrow> nth_opt (clc_list (lists x c)) 0;
     (request, x) \<leftarrow> (case response of Some h \<Rightarrow> Some (h, x) | None \<Rightarrow> create x (reg_command first));
     if response = None \<and> request < 0 then Some (request, x)
     else do {
       let x = snd (xbee_cmd_set_command x request (reg_command reg));
       x \<leftarrow> issue_param x request (clc_base (lists x c)) reg;
       Some (request, x) } }"

definition xbee_cmd_list_execute ::
  "'u at_env \<Rightarrow> 'u create_fn \<Rightarrow> 'u at_dev \<Rightarrow> nat \<Rightarrow> xbee_atcmd_reg_t list \<Rightarrow> list_base \<Rightarrow> wpan_address_t option \<Rightarrow>
   (int \<times> 'u at_dev) option" where
  "xbee_cmd_list_execute E create x c list base addr = do {
     let x = upd_list c (\<lambda>_. \<lparr>clc_list = list, clc_base = base, clc_status = XBEE_COMMAND_LIST_RUNNING, clc_index = 0\<rparr>) x;
     (request, x) \<leftarrow> issue_list create x c None;
     if request < 0 then Some (request, x)
     else do {
       let x = (case addr of Some a \<Rightarrow> snd (xbee_cmd_set_target x request (Some (ieee a)) (network a)) | None \<Rightarrow> x);
       let (err, x) = xbee_cmd_set_callback x request List_callback c;
       Some (if err \<noteq> 0 then (err, x) else xbee_cmd_send (now E) x request) } }"

definition xbee_cmd_list_status :: "'u at_dev \<Rightarrow> nat \<Rightarrow> int" where
  "xbee_cmd_list_status x c = clc_status (lists x c)"

section \<open>Querying the device\<close>

text \<open>The macro stores the offset of the field in eight bits.\<close>

definition XBEE_ATCMD_REG :: "string \<Rightarrow> xbee_command_list_type \<Rightarrow> nat \<Rightarrow> nat \<Rightarrow> xbee_atcmd_reg_t" where
  "XBEE_ATCMD_REG c ty sz offset =
     \<lparr>reg_command = at_cmd c, reg_flags = 0, reg_type = ty, reg_callback = Reg_null,
      reg_bytes = of_nat sz, reg_offset = ucast (of_nat offset :: u8)\<rparr>"

definition XBEE_ATCMD_REG_CB :: "string \<Rightarrow> reg_callback \<Rightarrow> u8 \<Rightarrow> xbee_atcmd_reg_t" where
  "XBEE_ATCMD_REG_CB c cb fl =
     \<lparr>reg_command = at_cmd c, reg_flags = fl, reg_type = XBEE_CLT_NONE, reg_callback = cb, reg_bytes = 0, reg_offset = 0\<rparr>"

definition XBEE_ATCMD_REG_END_CB :: "reg_callback \<Rightarrow> u8 \<Rightarrow> xbee_atcmd_reg_t" where
  "XBEE_ATCMD_REG_END_CB cb fl =
     \<lparr>reg_command = (0, 0), reg_flags = fl, reg_type = XBEE_CLT_NONE, reg_callback = cb, reg_bytes = 0, reg_offset = 0\<rparr>"

definition query_regs :: "xbee_atcmd_reg_t list" where
  "query_regs =
     [XBEE_ATCMD_REG ''HV'' XBEE_CLT_COPY_BE 2 120, XBEE_ATCMD_REG ''VR'' XBEE_CLT_COPY_BE 4 124,
      XBEE_ATCMD_REG ''SH'' XBEE_CLT_COPY 4 24, XBEE_ATCMD_REG ''SL'' XBEE_CLT_COPY 4 28,
      XBEE_ATCMD_REG ''GT'' XBEE_CLT_COPY_BE 2 300, XBEE_ATCMD_REG ''CT'' XBEE_CLT_COPY_BE 2 302,
      XBEE_ATCMD_REG ''CC'' XBEE_CLT_COPY 1 304,
      XBEE_ATCMD_REG_CB ''EO'' Query_handle_eo 0, XBEE_ATCMD_REG_CB ''AI'' Query_handle_ai 0,
      XBEE_ATCMD_REG ''NP'' XBEE_CLT_COPY_BE 2 36, XBEE_ATCMD_REG ''MY'' XBEE_CLT_COPY_BE 2 32,
      XBEE_ATCMD_REG_END_CB Query_handle_end 0]"

abbreviation (input) XBEE_ATCMD_REG_REFRESH_IDX :: nat where "XBEE_ATCMD_REG_REFRESH_IDX \<equiv> 9"

text \<open>The context of the query is number 0.\<close>

definition xbee_cmd_query_device :: "'u at_env \<Rightarrow> 'u create_fn \<Rightarrow> 'u at_dev \<Rightarrow> bool \<Rightarrow> (int \<times> 'u at_dev) option" where
  "xbee_cmd_query_device E create x refresh = do {
     let x = (if refresh then x\<lparr>dev_flags := dev_flags x OR XBEE_DEV_FLAG_QUERY_REFRESH\<rparr> else x);
     if dev_flags x AND XBEE_DEV_FLAG_QUERY_INPROGRESS \<noteq> 0 then Some (0, x)
     else do {
       (err, x) \<leftarrow> xbee_cmd_list_execute E create x 0
                     (drop (if refresh then XBEE_ATCMD_REG_REFRESH_IDX else 0) query_regs) Base_xbee None;
       Some (err,
         if err = 0 then
           x\<lparr>dev_flags := (dev_flags x OR (XBEE_DEV_FLAG_QUERY_BEGIN OR XBEE_DEV_FLAG_QUERY_INPROGRESS)) AND
               NOT (XBEE_DEV_FLAG_QUERY_ERROR OR XBEE_DEV_FLAG_QUERY_DONE OR XBEE_DEV_FLAG_QUERY_REFRESH)\<rparr>
         else x) } }"

definition xbee_cmd_init_device :: "'u at_env \<Rightarrow> 'u create_fn \<Rightarrow> 'u at_dev \<Rightarrow> (int \<times> 'u at_dev) option" where
  "xbee_cmd_init_device E create x =
     (if dev_flags x AND XBEE_DEV_FLAG_CMD_INIT \<noteq> 0 then Some (0, x)
      else
        let x = x\<lparr>dev_flags := dev_flags x OR XBEE_DEV_FLAG_CMD_INIT\<rparr> in
        if dev_flags x AND XBEE_DEV_FLAG_QUERY_BEGIN = 0 then xbee_cmd_query_device E create x False
        else Some (0, x))"

definition resp_success :: "xbee_cmd_response_t \<Rightarrow> bool" where
  "resp_success response \<longleftrightarrow> resp_flags response AND XBEE_CMD_RESP_MASK_STATUS = XBEE_AT_RESP_SUCCESS"

definition query_handle_eo :: "xbee_cmd_response_t \<Rightarrow> 'u at_dev \<Rightarrow> 'u at_dev" where
  "query_handle_eo response x =
     (if resp_success response then
        (if resp_value response AND 0x08 \<noteq> 0
         then x\<lparr>wpan_flags := wpan_flags x OR WPAN_FLAG_AUTHENTICATION_ENABLED\<rparr>
         else x\<lparr>wpan_flags := wpan_flags x AND NOT WPAN_FLAG_AUTHENTICATION_ENABLED\<rparr>)
      else x)"

definition query_handle_ai :: "xbee_cmd_response_t \<Rightarrow> 'u at_dev \<Rightarrow> 'u at_dev" where
  "query_handle_ai response x =
     (if resp_success response \<and> resp_value response = 0 then
        let x = x\<lparr>wpan_flags := wpan_flags x OR WPAN_FLAG_JOINED\<rparr> in
        if wpan_flags x AND WPAN_FLAG_AUTHENTICATION_ENABLED \<noteq> 0
        then x\<lparr>wpan_flags := wpan_flags x OR WPAN_FLAG_AUTHENTICATED\<rparr> else x
      else x)"

text \<open>The flags of the device when a query has ended.\<close>

definition query_end_flags :: "xbee_cmd_response_t \<Rightarrow> xbee_atcmd_reg_t option \<Rightarrow> 'u at_dev \<Rightarrow> 'u at_dev" where
  "query_end_flags response reg x = (
     let x = x\<lparr>dev_flags := dev_flags x AND NOT XBEE_DEV_FLAG_QUERY_INPROGRESS\<rparr>;
         x = x\<lparr>dev_flags := dev_flags x OR
              (if reg = None \<or> resp_flags response AND XBEE_CMD_RESP_FLAG_TIMEOUT \<noteq> 0
               then XBEE_DEV_FLAG_QUERY_ERROR else XBEE_DEV_FLAG_QUERY_DONE)\<rparr>
     in if dev_flags x AND XBEE_DEV_FLAG_QUERY_ERROR \<noteq> 0 \<and> wpan_flags x AND WPAN_FLAG_JOINED \<noteq> 0 \<and>
           network (wpan_address x) = WPAN_NET_ADDR_UNDEFINED
        then x\<lparr>dev_flags := dev_flags x OR XBEE_DEV_FLAG_QUERY_REFRESH\<rparr> else x)"

definition query_handle_end ::
  "'u at_env \<Rightarrow> 'u create_fn \<Rightarrow> xbee_cmd_response_t \<Rightarrow> xbee_atcmd_reg_t option \<Rightarrow> 'u at_dev \<Rightarrow> 'u at_dev option" where
  "query_handle_end E create response reg x = (
     let x = query_end_flags response reg x
     in if dev_flags x AND XBEE_DEV_FLAG_QUERY_REFRESH \<noteq> 0
        then map_option snd (xbee_cmd_query_device E create x True) else Some x)"

definition call_reg ::
  "'u at_env \<Rightarrow> 'u create_fn \<Rightarrow> reg_callback \<Rightarrow> xbee_cmd_response_t \<Rightarrow> xbee_atcmd_reg_t option \<Rightarrow> list_base \<Rightarrow>
   'u at_dev \<Rightarrow> 'u at_dev option" where
  "call_reg E create cb response reg base x =
     (case cb of
        Reg_null \<Rightarrow> Some x
      | Query_handle_eo \<Rightarrow> Some (query_handle_eo response x)
      | Query_handle_ai \<Rightarrow> Some (query_handle_ai response x)
      | Query_handle_end \<Rightarrow> query_handle_end E create response reg x
      | Reg_user k \<Rightarrow> user_reg E k response reg base x)"

section \<open>The callback of command lists\<close>

definition list_timeout ::
  "'u at_env \<Rightarrow> 'u create_fn \<Rightarrow> xbee_cmd_response_t \<Rightarrow> 'u at_dev \<Rightarrow> (int \<times> 'u at_dev) option" where
  "list_timeout E create response x = do {
     let c = resp_context response;
     let x = upd_list c (\<lambda>l. l\<lparr>clc_status := XBEE_COMMAND_LIST_TIMEOUT\<rparr>) x;
     reg \<leftarrow> nth_opt (dropWhile reg_valid (clc_list (lists x c))) 0;
     x \<leftarrow> call_reg E create (reg_callback reg) response (Some reg) (clc_base (lists x c)) x;
     Some (XBEE_ATCMD_DONE, x) }"

definition list_copy :: "xbee_cmd_response_t \<Rightarrow> xbee_atcmd_reg_t \<Rightarrow> list_base \<Rightarrow> 'u at_dev \<Rightarrow> 'u at_dev option" where
  "list_copy response reg base x =
     (case reg_type reg of
        XBEE_CLT_COPY \<Rightarrow>
          let n = min (unat (value_length response)) (unat (reg_bytes reg)) in
          if n \<le> length (value_bytes response)
          then mem_store x base (reg_offset reg)
                 (take n (value_bytes response) @ replicate (unat (reg_bytes reg) - unat (value_length response)) 0)
          else None
      | XBEE_CLT_COPY_BE \<Rightarrow>
          if reg_bytes reg = 1 then mem_store x base (reg_offset reg) [ucast (resp_value response)]
          else if reg_bytes reg = 2 then mem_store x base (reg_offset reg) (le16_bytes (ucast (resp_value response)))
          else if reg_bytes reg = 4 then mem_store x base (reg_offset reg) (le32_bytes (resp_value response))
          else Some x
      | _ \<Rightarrow> Some x)"

definition list_next ::
  "'u at_env \<Rightarrow> 'u create_fn \<Rightarrow> xbee_cmd_response_t \<Rightarrow> 'u at_dev \<Rightarrow> (int \<times> 'u at_dev) option" where
  "list_next E create response x = do {
     let c = resp_context response;
     let x = upd_list c (\<lambda>l. l\<lparr>clc_index := clc_index l + 1\<rparr>) x;
     reg \<leftarrow> nth_opt (clc_list (lists x c)) (unat (clc_index (lists x c)));
     (go_on, x) \<leftarrow>
       (if reg_valid reg then do {
          (request, x) \<leftarrow> issue_list create x c (Some (handle response));
          let x = snd (xbee_cmd_send (now E) x request);
          Some (if reg_type reg = XBEE_CLT_LAST then (False, snd (xbee_cmd_release_handle x request)) else (True, x)) }
        else Some (False, x));
     if go_on then Some (XBEE_ATCMD_REUSE, x)
     else do {
       let x = upd_list c (\<lambda>l. l\<lparr>clc_status := XBEE_COMMAND_LIST_DONE\<rparr>) x;
       x \<leftarrow> call_reg E create (reg_callback reg) response (Some reg) (clc_base (lists x c)) x;
       Some (XBEE_ATCMD_DONE, x) } }"

definition list_callback ::
  "'u at_env \<Rightarrow> 'u create_fn \<Rightarrow> xbee_cmd_response_t \<Rightarrow> 'u at_dev \<Rightarrow> (int \<times> 'u at_dev) option" where
  "list_callback E create response x = do {
     let c = resp_context response;
     if resp_flags response AND XBEE_CMD_RESP_FLAG_TIMEOUT \<noteq> 0 then list_timeout E create response x
     else do {
       reg \<leftarrow> nth_opt (clc_list (lists x c)) (unat (clc_index (lists x c)));
       if resp_command response = reg_command reg then do {
         x \<leftarrow> (if resp_success response then list_copy response reg (clc_base (lists x c)) x else Some x);
         x \<leftarrow> call_reg E create (reg_callback reg) response (Some reg) (clc_base (lists x c)) x;
         list_next E create response x }
       else do {
         let x = upd_list c (\<lambda>l. l\<lparr>clc_status := XBEE_COMMAND_LIST_ERROR\<rparr>) x;
         x \<leftarrow> call_reg E create (reg_callback reg) response None (clc_base (lists x c)) x;
         Some (XBEE_ATCMD_DONE, x) } } }"

text \<open>Calling the callback of a request that has one.\<close>

definition call_callback ::
  "'u at_env \<Rightarrow> 'u create_fn \<Rightarrow> xbee_cmd_callback \<Rightarrow> xbee_cmd_response_t \<Rightarrow> 'u at_dev \<Rightarrow> (int \<times> 'u at_dev) option" where
  "call_callback E create cb response x =
     (case cb of
        No_callback \<Rightarrow> Some (XBEE_ATCMD_DONE, x)
      | List_callback \<Rightarrow> list_callback E create response x
      | User_callback k \<Rightarrow> user_cb E k response x)"

section \<open>Expired requests\<close>

definition expired_response :: "'u at_dev \<Rightarrow> nat \<Rightarrow> xbee_cmd_response_t" where
  "expired_response x i =
     \<lparr>resp_context = cb_context (table x ! i), handle = request_handle x i, resp_command = command (table x ! i),
      resp_flags = XBEE_CMD_RESP_FLAG_TIMEOUT OR XBEE_CMD_RESP_MASK_STATUS, value_length = 0, value_bytes = [],
      resp_value = 0, resp_source = None\<rparr>"

text \<open>
  Before an entry is released its device is read, and its flags after that: a callback that has released the
  request itself and does not ask to keep it leaves a null pointer there.
\<close>

definition tick_entry :: "'u at_env \<Rightarrow> 'u create_fn \<Rightarrow> nat \<Rightarrow> int \<times> 'u at_dev \<Rightarrow> (int \<times> 'u at_dev) option" where
  "tick_entry E create i p = (
     let (count, x) = p; r = table x ! i in
     if in_use r \<and> check_timeout_sec (now E) (timeout r) then do {
       (reuse, x) \<leftarrow> call_callback E create (callback r) (expired_response x i) x;
       if reuse \<noteq> XBEE_ATCMD_REUSE then if \<not> in_use (table x ! i) then None else do {
         let x = snd (release_request x (Some i));
         if dev_flags x AND XBEE_DEV_FLAG_QUERY_REFRESH \<noteq> 0
         then map_option (\<lambda>(_, x). (count + 1, x)) (xbee_cmd_query_device E create x True)
         else Some (count + 1, x) }
       else Some (count + 1, x) }
     else Some (count, x))"

fun tick_loop :: "'u at_env \<Rightarrow> 'u create_fn \<Rightarrow> nat list \<Rightarrow> int \<times> 'u at_dev \<Rightarrow> (int \<times> 'u at_dev) option" where
  "tick_loop E create [] p = Some p"
| "tick_loop E create (i # is) p = do { p \<leftarrow> tick_entry E create i p; tick_loop E create is p }"

definition cmd_tick :: "'u at_env \<Rightarrow> 'u create_fn \<Rightarrow> 'u at_dev \<Rightarrow> (int \<times> 'u at_dev) option" where
  "cmd_tick E create x =
     (if tick_last_time (app x) = ucast (now E) then Some (0, x)
      else tick_loop E create [0..<XBEE_CMD_REQUEST_TABLESIZE]
             (0, x\<lparr>app := (app x)\<lparr>tick_last_time := ucast (now E)\<rparr>\<rparr>))"

section \<open>Creating a request\<close>

definition set_initialized :: "u8 \<Rightarrow> 'u at_dev \<Rightarrow> 'u at_dev" where
  "set_initialized v x = x\<lparr>app := (app x)\<lparr>create_initialized := v\<rparr>\<rparr>"

definition create_setup :: "'u at_dev \<Rightarrow> 'u at_dev" where
  "create_setup x =
     (if create_initialized (app x) = 0
      then x\<lparr>app := (app x)\<lparr>create_initialized := 1,
             request_table := replicate XBEE_CMD_REQUEST_TABLESIZE zero_request\<rparr>\<rparr>
      else x)"

primrec xbee_cmd_create :: "nat \<Rightarrow> 'u at_env \<Rightarrow> 'u at_dev \<Rightarrow> at_cmd \<Rightarrow> (int \<times> 'u at_dev) option" where
  "xbee_cmd_create 0 E x cmd = None"
| "xbee_cmd_create (Suc n) E x cmd = do {
     let x = create_setup x;
     x \<leftarrow> (if dev_flags x AND XBEE_DEV_FLAG_CMD_INIT = 0
          then map_option snd (xbee_cmd_init_device E (xbee_cmd_create n E) x) else Some x);
     case free_slot x of
       Some i \<Rightarrow> Some (fill_slot (now E) x i cmd)
     | None \<Rightarrow>
         if create_initialized (app x) \<noteq> 2 then do {
           (_, x) \<leftarrow> cmd_tick E (xbee_cmd_create n E) (set_initialized 2 x);
           (h, x) \<leftarrow> xbee_cmd_create n E x cmd;
           Some (h, set_initialized 1 x) }
         else Some (- ENOSPC, x) }"

text \<open>The public functions; three levels of \<open>xbee_cmd_create\<close> are the most that is used.\<close>

definition xbee_cmd_tick :: "'u at_env \<Rightarrow> 'u at_dev \<Rightarrow> (int \<times> 'u at_dev) option" where
  "xbee_cmd_tick E x = cmd_tick E (xbee_cmd_create 3 E) x"

definition xbee_cmd_query_status :: "'u at_env \<Rightarrow> 'u at_dev \<Rightarrow> (int \<times> 'u at_dev) option" where
  "xbee_cmd_query_status E x = do { (_, x) \<leftarrow> xbee_cmd_tick E x; Some (xbee_cmd_list_status x 0, x) }"

section \<open>Frame handlers\<close>

definition response_value :: "u8 \<Rightarrow> bytes \<Rightarrow> u32" where
  "response_value len v =
     (if len = 0 then 0
      else if len = 1 then ucast (v ! 0)
      else if len = 2 then ucast (be16_of (v ! 0) (v ! 1))
      else if len = 4 then be32_of (v ! 0) (v ! 1) (v ! 2) (v ! 3)
      else 0xFFFFFFFF)"

definition matches :: "u8 \<Rightarrow> bool \<Rightarrow> at_cmd \<Rightarrow> xbee_cmd_request_t \<Rightarrow> bool" where
  "matches fid is_local cmd r \<longleftrightarrow>
     in_use r \<and> req_frame_id r = fid \<and> is_local = (req_flags r AND XBEE_CMD_FLAG_REMOTE = 0) \<and> command r = cmd"

text \<open>
  The second half of \<open>_xbee_cmd_handle_response\<close>, after the frame has been taken apart:
  \<open>v\<close> is the memory at the value.
\<close>

definition respond ::
  "'u at_env \<Rightarrow> 'u create_fn \<Rightarrow> 'u at_dev \<Rightarrow> u8 \<Rightarrow> wpan_address_t option \<Rightarrow> at_cmd \<Rightarrow> u8 \<Rightarrow> u8 \<Rightarrow> bytes \<Rightarrow> (int \<times> 'u at_dev) option" where
  "respond E create x fid src cmd status len v =
     (case find (\<lambda>i. matches fid (src = None) cmd (table x ! i)) [0..<XBEE_CMD_REQUEST_TABLESIZE] of
        None \<Rightarrow> Some (0, x)
      | Some i \<Rightarrow> do {
          let r = table x ! i;
          let response = \<lparr>resp_context = cb_context r, handle = request_handle x i, resp_command = command r,
                resp_flags = ucast status, value_length = len, value_bytes = v,
                resp_value = response_value len v, resp_source = src\<rparr>;
          (reuse, x) \<leftarrow> call_callback E create (callback r) response x;
          Some (0, if callback r \<noteq> No_callback \<and> reuse = XBEE_ATCMD_REUSE
                   then upd_request i (\<lambda>r. r\<lparr>timeout := set_timeout_sec (now E) 5\<rparr>) x
                   else snd (release_request x (Some i))) })"

text \<open>
  \<open>raw\<close> is the memory at \<open>rawframe\<close>, \<open>len\<close> the length of the frame. The length of the value is
  reduced to eight bits.
\<close>

definition xbee_cmd_handle_response ::
  "'u at_env \<Rightarrow> 'u at_dev \<Rightarrow> bytes \<Rightarrow> u16 \<Rightarrow> (int \<times> 'u at_dev) option" where
  "xbee_cmd_handle_response E x raw len =
     (if raw ! 0 = XBEE_FRAME_LOCAL_AT_RESPONSE then
        respond E (xbee_cmd_create 3 E) x (raw ! 1) None (raw ! 2, raw ! 3) (raw ! 4) (ucast (len - 5)) (drop 5 raw)
      else if raw ! 0 = XBEE_FRAME_REMOTE_AT_RESPONSE then
        respond E (xbee_cmd_create 3 E) x (raw ! 1)
          (Some \<lparr>ieee = take 8 (drop 2 raw), network = be16_of (raw ! 10) (raw ! 11)\<rparr>)
          (raw ! 12, raw ! 13) (raw ! 14) (ucast (len - 15)) (drop 15 raw)
      else Some (- EINVAL, x))"

definition xbee_cmd_modem_status :: "'u at_env \<Rightarrow> 'u at_dev \<Rightarrow> bytes \<Rightarrow> (int \<times> 'u at_dev) option" where
  "xbee_cmd_modem_status E x frame =
     (if frame ! 1 \<in> {0x10, 0x02, 0x06}
      then map_option (\<lambda>(_, x). (0, x)) (xbee_cmd_query_device E (xbee_cmd_create 3 E) x True)
      else Some (0, x))"

end
