(* ===== verification/Xbee_Atcmd_Inv.thy ===== *)
theory Xbee_Atcmd_Inv
  imports Xbee_Atcmd_List
begin

text \<open>
  The invariant of the AT command layer and that its functions return. The functions call each
  other through \<open>xbee_cmd_create\<close>; the locale \<open>at_callbacks\<close> states what they rely on, and
  their own part is proved in it once. The contract then holds for the levels of
  \<open>xbee_cmd_create\<close>, one after the other.
\<close>

section \<open>What the functions leave alone\<close>

lemma frame_write_only_port: "\<exists>s. snd (xbee_frame_write x h hl d dl) = x\<lparr>serport := s\<rparr>"
proof -
  have id: "x = x\<lparr>serport := serport x\<rparr>" by simp
  have "\<exists>c s. frame_cts x = (c, x\<lparr>serport := s\<rparr>)"
    unfolding frame_cts_def Let_def split_beta by (metis id)
  then obtain c s where c: "frame_cts x = (c, x\<lparr>serport := s\<rparr>)" by blast
  have iff: "(\<exists>s. snd (if b then p else p') = x\<lparr>serport := s\<rparr>) \<longleftrightarrow>
      (if b then \<exists>s. snd p = x\<lparr>serport := s\<rparr> else \<exists>s. snd p' = x\<lparr>serport := s\<rparr>)" for b and p p' :: "int \<times> 'a xbee_dev_t"
    by simp
  have upd: "\<exists>s. snd (e, x\<lparr>serport := s', serport := s''\<rparr>) = x\<lparr>serport := s\<rparr>" "\<exists>s. snd (e, x\<lparr>serport := s'\<rparr>) = x\<lparr>serport := s\<rparr>"
    for e :: int and s' s'' by (simp, rule exI, rule refl)+
  show ?thesis
    unfolding xbee_frame_write_def c Let_def split_beta fst_conv snd_conv[of c] iff
    using upd by (simp only: if_cancel if_True)
qed

lemma dev_store_same: "dev_store x i bs = Some y \<Longrightarrow> app y = app x \<and> dev_flags y = dev_flags x"
proof (induction bs arbitrary: x i)
  case (Cons b bs)
  then obtain z where "dev_store_byte x i b = Some z" "dev_store z (i + 1) bs = Some y"
    by (auto split: bind_splits)
  with Cons.IH[OF this(2)] show ?case by (auto simp: dev_store_byte_def split: if_splits)
qed simp

section \<open>The invariant\<close>

definition list_entry_ok :: "xbee_cmd_request_t \<Rightarrow> bool" where
  "list_entry_ok r \<longleftrightarrow> (callback r = List_callback \<longrightarrow> cb_context r = 0 \<and> command r \<noteq> (0, 0))"

definition query_list_ok :: "xbee_command_list_context_t \<Rightarrow> bool" where
  "query_list_ok l \<longleftrightarrow> clc_base l = Base_xbee \<and> clc_list l \<in> {query_regs, drop 9 query_regs} \<and>
     unat (clc_index l) < length (clc_list l)"

text \<open>
  \<open>v\<close> is the value of the static variable of \<open>xbee_cmd_create\<close>; \<open>q\<close> asks for the list
  context of the query to be set up.
\<close>

definition at_inv :: "u8 \<Rightarrow> bool \<Rightarrow> 'u at_dev \<Rightarrow> bool" where
  "at_inv v q x \<longleftrightarrow> table_ok x \<and> (\<forall>i < 4. list_entry_ok (table x ! i)) \<and>
     ((q \<or> (\<exists>i < 4. callback (table x ! i) = List_callback)) \<longrightarrow> query_list_ok (lists x 0)) \<and>
     bit (dev_flags x) 0 \<and> create_initialized (app x) = v"

lemma cmd_init_bit: "(f :: u16) AND XBEE_DEV_FLAG_CMD_INIT \<noteq> 0 \<longleftrightarrow> bit f 0"
  by (simp add: and_one_eq bit_0 mod2_eq_if)

lemma at_inv_cong:
  assumes "request_table (app y) = request_table (app x)" "lists y 0 = lists x 0"
    "create_initialized (app y) = create_initialized (app x)" "bit (dev_flags y) 0 = bit (dev_flags x) 0"
  shows "at_inv v q y = at_inv v q x"
  using assms by (simp add: at_inv_def table_ok_def)

lemma at_inv_port [simp]: "at_inv v q (x\<lparr>serport := s\<rparr>) = at_inv v q x"
  and at_inv_frame_id [simp]: "at_inv v q (x\<lparr>frame_id := f\<rparr>) = at_inv v q x"
  and at_inv_wpan_flags [simp]: "at_inv v q (x\<lparr>wpan_flags := w\<rparr>) = at_inv v q x"
  and at_inv_flags: "bit fl 0 \<Longrightarrow> at_inv v q x \<Longrightarrow> at_inv v q (x\<lparr>dev_flags := fl\<rparr>)"
  and at_inv_last_time [simp]: "at_inv v q (x\<lparr>app := (app x)\<lparr>tick_last_time := t\<rparr>\<rparr>) = at_inv v q x"
  by (simp_all add: at_inv_def table_ok_def)

lemma at_inv_set_flags: "at_inv v q x \<Longrightarrow> at_inv v q (x\<lparr>dev_flags := dev_flags x OR a\<rparr>)"
  by (rule at_inv_flags) (simp_all add: at_inv_def bit_or_iff)

lemma at_inv_clear_flags: "at_inv v q x \<Longrightarrow> \<not> bit b 0 \<Longrightarrow> at_inv v q (x\<lparr>dev_flags := dev_flags x AND NOT b\<rparr>)"
  by (rule at_inv_flags) (simp_all add: at_inv_def bit_and_iff bit_not_iff)

lemma at_inv_table: "at_inv v q x \<Longrightarrow> table_ok x"
  by (simp add: at_inv_def)

lemma at_inv_upd:
  assumes "at_inv v q x" "\<And>r. request_ok r \<Longrightarrow> request_ok (f r)" "list_entry_ok (f (table x ! i))"
    "callback (f (table x ! i)) = List_callback \<Longrightarrow> q \<or> callback (table x ! i) = List_callback"
  shows "at_inv v q (upd_request i f x)"
proof (cases "i < 4")
  case True
  then show ?thesis
    using assms table_ok_upd[OF at_inv_table[OF assms(1)], of f i]
    by (auto simp: at_inv_def nth_list_update)
next
  case False
  then have "(table x)[i := f (table x ! i)] = table x"
    using at_inv_table[OF assms(1)] by (intro list_update_beyond) simp
  with assms(1) show ?thesis by (simp add: upd_request_def)
qed

lemma at_inv_upd_same:
  assumes "at_inv v q x" "\<And>r. request_ok r \<Longrightarrow> request_ok (f r)"
    "\<And>r. callback (f r) = callback r \<and> cb_context (f r) = cb_context r \<and> (command (f r) = command r \<or> command (f r) \<noteq> (0, 0))"
    "i < 4"
  shows "at_inv v q (upd_request i f x)"
  using assms(1,2,4) assms(3)[of "table x ! i"] by (intro at_inv_upd) (auto simp: at_inv_def list_entry_ok_def)

lemma at_inv_with_request:
  assumes "at_inv v q x" "\<And>r. request_ok r \<Longrightarrow> request_ok (f r)"
    "\<And>r. callback (f r) = callback r \<and> cb_context (f r) = cb_context r \<and> (command (f r) = command r \<or> command (f r) \<noteq> (0, 0))"
  shows "at_inv v q (snd (with_request x h f))"
  using assms by (auto simp: with_request_def handle_to_address_iff split: option.split intro: at_inv_upd_same)

lemma at_inv_release: "at_inv v q x \<Longrightarrow> i < 4 \<Longrightarrow> at_inv v q (snd (release_request x (Some i)))"
  by (auto simp: release_request_def intro!: at_inv_upd_same)

lemma at_inv_release_handle: "at_inv v q x \<Longrightarrow> at_inv v q (snd (xbee_cmd_release_handle x h))"
  by (cases "xbee_cmd_handle_to_address x h")
    (auto simp: xbee_cmd_release_handle_def at_inv_release handle_to_address_iff release_request_def intro!: at_inv_upd_same)

lemma at_inv_send: "at_inv v q x \<Longrightarrow> at_inv v q (snd (xbee_cmd_send t x h))"
proof (cases "xbee_cmd_handle_to_address x h")
  case (Some i)
  assume a: "at_inv v q x"
  have i: "i < 4" using Some by (simp add: handle_to_address_iff)
  show ?thesis
  proof (cases "in_use (table x ! i)")
    case False
    have "at_inv v q (upd_request i (\<lambda>r. r\<lparr>req_frame_id := 0\<rparr>) x)" using a i by (intro at_inv_upd_same) auto
    with False Some show ?thesis by (simp add: xbee_cmd_send_def)
  next
    case True
    obtain f y where y: "(if callback (table x ! i) = No_callback then (0, x) else xbee_next_frame_id x) = (f, y)" by fastforce
    then have ay: "at_inv v q y"
      using a by (cases rule: next_frame_id_eq[of x]) (auto split: if_splits)
    define z where "z = upd_request i (\<lambda>r. r\<lparr>req_frame_id := f\<rparr>) y"
    have az: "at_inv v q z" unfolding z_def using ay i by (intro at_inv_upd_same) auto
    let ?r = "table z ! i"
    let ?w = "xbee_frame_write z (Some (request_header ?r)) (of_nat (length (request_header ?r))) (Some (param ?r)) (ucast (param_length ?r))"
    obtain e w where w: "?w = (e, w)" by fastforce
    have aw: "at_inv v q w"
      using frame_write_only_port[of z "Some (request_header ?r)" "of_nat (length (request_header ?r))" "Some (param ?r)" "ucast (param_length ?r)"]
        w az by auto
    have "at_inv v q (upd_request i (\<lambda>r. r\<lparr>timeout := t' r\<rparr>) w)" for t'
      using aw i by (intro at_inv_upd_same) auto
    with aw at_inv_release[OF aw i] show ?thesis
      unfolding xbee_cmd_send_def Some option.case y Let_def case_prod_conv z_def[symmetric] w using True by auto
  qed
qed (simp add: xbee_cmd_send_def)

lemma at_inv_set_param: "at_inv v q x \<Longrightarrow> at_inv v q (snd (xbee_cmd_set_param x h w))"
  unfolding xbee_cmd_set_param_def
proof (rule at_inv_with_request)
  have "length (xbee_cmd_encode_param w) \<le> 48" using length_encode_param[of w] by auto
  then show "request_ok r \<Longrightarrow> request_ok (store_param (xbee_cmd_encode_param w) r)" for r by (rule store_param_ok[rotated])
qed (auto simp: store_param_def)

lemma at_inv_set_param_bytes: "at_inv v q x \<Longrightarrow> at_inv v q (snd (xbee_cmd_set_param_bytes x h bs))"
  by (auto simp: xbee_cmd_set_param_bytes_def store_param_ok intro!: at_inv_with_request) (simp add: store_param_def)+

lemma at_inv_set_param_str: "at_inv v q x \<Longrightarrow> at_inv v q (snd (xbee_cmd_set_param_str x h bs))"
  by (simp add: xbee_cmd_set_param_str_def at_inv_set_param_bytes)

lemma at_inv_set_command: "at_inv v q x \<Longrightarrow> c \<noteq> (0, 0) \<Longrightarrow> at_inv v q (snd (xbee_cmd_set_command x h c))"
  unfolding xbee_cmd_set_command_def by (rule at_inv_with_request) auto

text \<open>The requests of a list keep a command that is not the end mark.\<close>

definition cmd_nonzero :: "'u at_dev \<Rightarrow> int \<Rightarrow> bool" where
  "cmd_nonzero x h \<longleftrightarrow> (\<forall>i. xbee_cmd_handle_to_address x h = Some i \<longrightarrow> command (table x ! i) \<noteq> (0, 0))"

lemma at_inv_set_callback:
  assumes "at_inv v q x" "query_list_ok (lists x 0)" "cmd_nonzero x h"
  shows "at_inv v q (snd (xbee_cmd_set_callback x h List_callback 0))"
proof (cases "xbee_cmd_handle_to_address x h")
  case (Some i)
  have "at_inv v True x" using assms(1,2) by (simp add: at_inv_def)
  then have "at_inv v True (upd_request i (\<lambda>r. r\<lparr>callback := List_callback, cb_context := 0\<rparr>) x)"
    using assms(3) Some by (intro at_inv_upd) (auto simp: list_entry_ok_def cmd_nonzero_def)
  with Some show ?thesis by (auto simp: xbee_cmd_set_callback_def with_request_def at_inv_def)
qed (simp add: xbee_cmd_set_callback_def with_request_def assms(1))

lemma address_cong:
  assumes "\<And>j. j < 4 \<Longrightarrow> sequence (table y ! j) = sequence (table x ! j)"
  shows "xbee_cmd_handle_to_address y h = xbee_cmd_handle_to_address x h"
proof (cases "h < 0 \<or> h \<ge> 1024")
  case False
  then have "nat (h div 256) < 4" by auto
  with False assms show ?thesis by (simp add: xbee_cmd_handle_to_address_def Let_def)
qed (simp add: xbee_cmd_handle_to_address_def)

lemma with_request_address:
  assumes "\<And>r. sequence (f r) = sequence r" "table_ok x"
  shows "xbee_cmd_handle_to_address (snd (with_request x h f)) h' = xbee_cmd_handle_to_address x h'"
proof (cases "xbee_cmd_handle_to_address x h")
  case (Some i)
  have "sequence (table (upd_request i f x) ! j) = sequence (table x ! j)" if "j < 4" for j
    using that assms by (cases "i = j") simp_all
  from address_cong[of "upd_request i f x", OF this] Some show ?thesis by (simp add: with_request_def)
qed (simp add: with_request_def)

lemma query_reg_param:
  assumes "reg \<in> set query_regs"
  shows "issue_param x h b reg = Some (snd (xbee_cmd_set_param_bytes x h []))"
  using assms by (auto simp: query_regs_def issue_param_def XBEE_ATCMD_REG_def XBEE_ATCMD_REG_CB_def XBEE_ATCMD_REG_END_CB_def)

lemma query_list_nth:
  assumes "query_list_ok l"
  obtains reg where "nth_opt (clc_list l) (unat (clc_index l)) = Some reg" "reg \<in> set query_regs"
    "nth_opt (clc_list l) 0 = Some (clc_list l ! 0)" "clc_list l ! unat (clc_index l) = reg"
proof -
  have "set (clc_list l) \<subseteq> set query_regs" using assms set_drop_subset by (auto simp: query_list_ok_def dest: in_set_dropD)
  moreover have "unat (clc_index l) < length (clc_list l)" using assms by (simp add: query_list_ok_def)
  ultimately show thesis by (intro that[of "clc_list l ! unat (clc_index l)"]) (auto simp: nth_opt_def)
qed

lemma query_regs_valid: "i < 11 \<Longrightarrow> reg_valid (query_regs ! i)" "\<not> reg_valid (query_regs ! 11)" "length query_regs = 12"
proof -
  show "length query_regs = 12" by (simp add: query_regs_def)
  show "\<not> reg_valid (query_regs ! 11)" by (simp add: query_regs_def reg_valid_def XBEE_ATCMD_REG_END_CB_def)
  have "\<forall>r \<in> set (butlast query_regs). reg_valid r"
    by (simp add: query_regs_def reg_valid_def XBEE_ATCMD_REG_def XBEE_ATCMD_REG_CB_def at_cmd_def chr_byte_def)
  moreover have "length (butlast query_regs) = 11" by (simp add: query_regs_def)
  ultimately show "reg_valid (query_regs ! i)" if "i < 11"
    using that by (metis nth_butlast nth_mem)
qed

lemmas reg_macro_defs = XBEE_ATCMD_REG_def XBEE_ATCMD_REG_CB_def XBEE_ATCMD_REG_END_CB_def

lemma query_regs_types:
  assumes "reg \<in> set query_regs"
  shows "reg_type reg \<noteq> XBEE_CLT_LAST" "reg_valid reg \<Longrightarrow> reg_callback reg \<in> {Reg_null, Query_handle_eo, Query_handle_ai}"
    "reg_callback reg \<noteq> Reg_user k"
  using assms by (auto simp: query_regs_def reg_macro_defs reg_valid_def)

lemma query_regs_end:
  "dropWhile reg_valid query_regs = [query_regs ! 11]" "dropWhile reg_valid (drop 9 query_regs) = [query_regs ! 11]"
  by (simp_all add: query_regs_def reg_macro_defs reg_valid_def at_cmd_def chr_byte_def)

lemma nth_opt_Cons: "nth_opt (a # xs) 0 = Some a"
  by (simp add: nth_opt_def)

lemma at_inv_upd_list:
  assumes "at_inv v q x" "query_list_ok (f (lists x 0))"
  shows "at_inv v q (upd_list 0 f x)"
  using assms by (simp add: at_inv_def upd_list_def table_ok_def)

lemma at_inv_query_list: "at_inv v True x \<Longrightarrow> query_list_ok (lists x 0)"
  by (simp add: at_inv_def)

lemma at_inv_weaken: "at_inv v True x \<Longrightarrow> at_inv v q x"
  by (simp add: at_inv_def)

lemma at_inv_strengthen: "at_inv v q x \<Longrightarrow> query_list_ok (lists x 0) \<Longrightarrow> at_inv v True x"
  by (simp add: at_inv_def)

lemma issue_common:
  assumes "at_inv v q x" "reg_valid reg"
    and y_def: "y = snd (xbee_cmd_set_param_bytes (snd (xbee_cmd_set_command x h (reg_command reg))) h [])"
  shows "at_inv v q y \<and> cmd_nonzero y h"
proof -
  let ?z = "snd (xbee_cmd_set_command x h (reg_command reg))"
  have z: "at_inv v q ?z" using assms(1,2) by (simp add: at_inv_set_command reg_valid_def)
  have "cmd_nonzero y h"
  proof (cases "xbee_cmd_handle_to_address x h")
    case None
    then show ?thesis by (simp add: y_def cmd_nonzero_def xbee_cmd_set_command_def xbee_cmd_set_param_bytes_def with_request_def)
  next
    case (Some i)
    note ok = at_inv_table[OF assms(1)] and ok' = at_inv_table[OF z]
    have "i < 4" using Some by (simp add: handle_to_address_iff)
    have a: "xbee_cmd_handle_to_address ?z h = Some i"
      unfolding xbee_cmd_set_command_def using with_request_address[OF _ ok] Some by simp
    have b: "xbee_cmd_handle_to_address y h = Some i"
      unfolding y_def xbee_cmd_set_param_bytes_def using with_request_address[OF _ ok'] a by (simp add: store_param_def)
    have "command (table y ! i) = reg_command reg"
      using Some a \<open>i < 4\<close> ok by (simp add: y_def xbee_cmd_set_param_bytes_def xbee_cmd_set_command_def with_request_def store_param_def)
    with b assms(2) show ?thesis by (simp add: cmd_nonzero_def reg_valid_def)
  qed
  with z show ?thesis by (simp add: y_def at_inv_set_param_bytes)
qed

text \<open>The bytes of the structure that the query writes to.\<close>

definition query_area :: "nat \<Rightarrow> nat \<Rightarrow> bool" where
  "query_area i n \<longleftrightarrow> 24 \<le> i \<and> i + n \<le> 34 \<or> 36 \<le> i \<and> i + n \<le> 52 \<or> 120 \<le> i \<and> i + n \<le> 122 \<or> 124 \<le> i \<and> i + n \<le> 128"

lemma dev_store_byte_area: "query_area i (Suc n) \<Longrightarrow> dev_store_byte x i b \<noteq> None"
proof -
  have "((if c then a else d) = None) = (if c then a = None else d = None)" for c and a d :: "'a xbee_dev_t option" by simp
  then show "query_area i (Suc n) \<Longrightarrow> dev_store_byte x i b \<noteq> None"
    unfolding dev_store_byte_def query_area_def by (simp only: option.distinct) presburger
qed

lemma dev_store_area: "query_area i (length bs) \<Longrightarrow> \<exists>y. dev_store x i bs = Some y"
proof (induction bs arbitrary: x i)
  case (Cons b bs)
  then obtain z where z: "dev_store_byte x i b = Some z" using dev_store_byte_area[of i "length bs" x b] by auto
  have "query_area (i + 1) (length bs)" using Cons.prems by (auto simp: query_area_def)
  from Cons.IH[OF this, of z] z show ?case by simp
qed simp

lemma query_regs_area:
  assumes "reg \<in> set query_regs" "reg_type reg \<in> {XBEE_CLT_COPY, XBEE_CLT_COPY_BE}"
  shows "reg_bytes reg \<in> {1, 2, 4} \<and> query_area (unat (reg_offset reg)) (unat (reg_bytes reg))"
proof -
  have "list_all (\<lambda>reg. reg_type reg \<in> {XBEE_CLT_COPY, XBEE_CLT_COPY_BE} \<longrightarrow>
      reg_bytes reg \<in> {1, 2, 4} \<and> query_area (unat (reg_offset reg)) (unat (reg_bytes reg))) query_regs"
    by (simp add: query_regs_def reg_macro_defs query_area_def)
  with assms show ?thesis unfolding list_all_iff by blast
qed

lemma list_copy_query:
  assumes "reg \<in> set query_regs" "4 \<le> length (value_bytes response)"
  obtains y where "list_copy response reg Base_xbee x = Some y" "app y = app x" "dev_flags y = dev_flags x"
proof (cases "reg_type reg \<in> {XBEE_CLT_COPY, XBEE_CLT_COPY_BE}")
  case True
  note area = query_regs_area[OF assms(1) True, THEN conjunct1] query_regs_area[OF assms(1) True, THEN conjunct2]
  let ?n = "min (unat (value_length response)) (unat (reg_bytes reg))"
  have n: "?n \<le> length (value_bytes response)" using area(1) assms(2) by auto
  have "\<exists>bs. length bs = unat (reg_bytes reg) \<and> list_copy response reg Base_xbee x = dev_store x (unat (reg_offset reg)) bs"
  proof (cases "reg_type reg")
    case XBEE_CLT_COPY
    with n show ?thesis by (auto simp: list_copy_def mem_store_def Let_def min_def intro!: exI)
  next
    case XBEE_CLT_COPY_BE
    with area(1) show ?thesis
      by (auto simp: list_copy_def mem_store_def le16_bytes_def le32_bytes_def
          intro!: exI simp del: dev_store.simps)
  qed (use True in auto)
  then obtain bs where bs: "length bs = unat (reg_bytes reg)"
    "list_copy response reg Base_xbee x = dev_store x (unat (reg_offset reg)) bs" by blast
  moreover obtain y where "dev_store x (unat (reg_offset reg)) bs = Some y"
    using dev_store_area[of "unat (reg_offset reg)" bs x] area(2) bs(1) by auto
  ultimately show thesis using dev_store_same that by metis
next
  case False
  then show thesis by (intro that[of x]) (auto simp: list_copy_def split: xbee_command_list_type.split)
qed

section \<open>During a tick\<close>

text \<open>The tick of this second is under way or done, and the entries in \<open>B\<close> are in use.\<close>

definition busy :: "'u at_env \<Rightarrow> nat set \<Rightarrow> 'u at_dev \<Rightarrow> bool" where
  "busy E B x \<longleftrightarrow> tick_last_time (app x) = ucast (now E) \<and> (\<forall>i \<in> B. i < 4 \<and> in_use (table x ! i))"

lemma busy_simps [simp]:
  "busy E B (x\<lparr>serport := s\<rparr>) = busy E B x" "busy E B (x\<lparr>dev_flags := f\<rparr>) = busy E B x"
  "busy E B (x\<lparr>frame_id := k\<rparr>) = busy E B x" "busy E B (x\<lparr>wpan_flags := w\<rparr>) = busy E B x"
  "busy E B (upd_list c g x) = busy E B x" "busy E B (set_initialized u x) = busy E B x"
  by (simp_all add: busy_def upd_list_def set_initialized_def)

lemma busy_upd:
  assumes "busy E B x" "\<And>r. in_use r \<Longrightarrow> in_use (f r)" "table_ok x"
  shows "busy E B (upd_request i f x)"
proof -
  have "in_use ((table x)[i := f (table x ! i)] ! j)" if "in_use (table x ! j)" "j < 4" for j
    using that assms(2,3) by (cases "i = j") simp_all
  then show ?thesis using assms(1) by (simp add: busy_def)
qed

lemma busy_with_request:
  assumes "busy E B x" "table_ok x" "\<And>r. in_use r \<Longrightarrow> in_use (f r)"
  shows "busy E B (snd (with_request x h f))"
  using busy_upd[OF assms(1,3,2)] assms(1) by (simp add: with_request_def split: option.split)

lemma busy_query_end: "busy E B (query_end_flags response reg x) = busy E B x"
  unfolding query_end_flags_def Let_def by (subst if_split) (simp only: busy_simps simp_thms)

text \<open>A request with a callback is not released when it is sent.\<close>

lemma busy_send:
  assumes "busy E B x" "table_ok x" "\<And>j. xbee_cmd_handle_to_address x h = Some j \<Longrightarrow> callback (table x ! j) \<noteq> No_callback"
  shows "busy E B (snd (xbee_cmd_send t x h))"
proof (cases "xbee_cmd_handle_to_address x h")
  case (Some i)
  then have i: "i < 4" by (simp add: handle_to_address_iff)
  obtain f where f: "xbee_next_frame_id x = (f, x\<lparr>frame_id := f\<rparr>)" "f \<noteq> 0" using next_frame_id_eq .
  define z where "z = upd_request i (\<lambda>r. r\<lparr>req_frame_id := f\<rparr>) (x\<lparr>frame_id := f\<rparr>)"
  have z: "table_ok z" "busy E B z"
    unfolding z_def using assms(1,2) by (intro table_ok_upd busy_upd; simp add: table_ok_def)+
  let ?r = "table z ! i"
  have r: "req_frame_id ?r \<noteq> 0" using i assms(2) f(2) by (simp add: z_def)
  let ?w = "xbee_frame_write z (Some (request_header ?r)) (of_nat (length (request_header ?r))) (Some (param ?r)) (ucast (param_length ?r))"
  obtain e p where w: "?w = (e, z\<lparr>serport := p\<rparr>)"
    using frame_write_only_port[of z "Some (request_header ?r)" "of_nat (length (request_header ?r))" "Some (param ?r)" "ucast (param_length ?r)"]
    by (metis prod.collapse)
  have "busy E B (upd_request i (\<lambda>r. r\<lparr>timeout := t' r\<rparr>) (z\<lparr>serport := p\<rparr>))" for t'
    using z by (intro busy_upd) (simp_all add: table_ok_def)
  moreover have "busy E B (upd_request i (\<lambda>r. r\<lparr>req_frame_id := 0\<rparr>) x)" using assms(1,2) by (intro busy_upd) simp_all
  moreover have n: "(if callback (table x ! i) = No_callback then (0, x) else xbee_next_frame_id x) = (f, x\<lparr>frame_id := f\<rparr>)"
    using f(1) assms(3)[OF Some] by simp
  ultimately show ?thesis
    unfolding xbee_cmd_send_def Some option.case n Let_def case_prod_conv z_def[symmetric] w using r z(2) by simp
qed (use assms(1) in \<open>simp add: xbee_cmd_send_def\<close>)

section \<open>The contract of \<open>xbee_cmd_create\<close> and of callbacks\<close>

text \<open>
  A callback leaves the time of the tick alone, and does not release its own request, except when it
  returns \<open>XBEE_ATCMD_REUSE\<close>. During a tick, \<open>xbee_cmd_create\<close> releases no entry.
\<close>

locale at_callbacks =
  fixes E :: "'u at_env" and create :: "'u create_fn" and v :: u8
  assumes create_inv: "at_inv v q x \<Longrightarrow> \<exists>h x'. create x cmd = Some (h, x') \<and> at_inv v q x'"
    and create_busy: "at_inv v q x \<Longrightarrow> busy E B x \<Longrightarrow> create x cmd = Some (h, x') \<Longrightarrow> busy E B x'"
    and user_inv: "at_inv v q x \<Longrightarrow> \<exists>r x'. user_cb E k resp x = Some (r, x') \<and> at_inv v q x'"
    and user_busy: "at_inv v q x \<Longrightarrow> busy E {i} x \<Longrightarrow> handle resp = request_handle x i \<Longrightarrow> user_cb E k resp x = Some (r, x') \<Longrightarrow>
      busy E {} x' \<and> (r \<noteq> XBEE_ATCMD_REUSE \<longrightarrow> in_use (table x' ! i))"
begin

lemma issue_list_inv:
  assumes "at_inv v True x" "reg_valid (clc_list (lists x 0) ! unat (clc_index (lists x 0)))"
  shows "\<exists>h x'. issue_list create x 0 resp = Some (h, x') \<and> at_inv v True x' \<and> (resp \<noteq> None \<or> 0 \<le> h \<longrightarrow> cmd_nonzero x' h)"
proof -
  obtain reg where reg: "nth_opt (clc_list (lists x 0)) (unat (clc_index (lists x 0))) = Some reg" "reg \<in> set query_regs"
    "nth_opt (clc_list (lists x 0)) 0 = Some (clc_list (lists x 0) ! 0)" "clc_list (lists x 0) ! unat (clc_index (lists x 0)) = reg"
    using query_list_nth[OF at_inv_query_list[OF assms(1)]] .
  define start where "start = (case resp of Some h \<Rightarrow> Some (h, x) | None \<Rightarrow> create x (reg_command (clc_list (lists x 0) ! 0)))"
  have "\<exists>h y. start = Some (h, y) \<and> at_inv v True y"
    using create_inv[OF assms(1), of "reg_command (clc_list (lists x 0) ! 0)"] assms(1) by (cases resp) (simp_all add: start_def)
  then obtain h y where y: "start = Some (h, y)" "at_inv v True y" by blast
  let ?z = "snd (xbee_cmd_set_param_bytes (snd (xbee_cmd_set_command y h (reg_command reg))) h [])"
  have eq: "issue_list create x 0 resp = (if resp = None \<and> h < 0 then Some (h, y) else Some (h, ?z))"
    using reg y(1) by (simp add: issue_list_def start_def Let_def query_reg_param)
  show ?thesis
  proof (cases "resp = None \<and> h < 0")
    case True
    with eq y(2) show ?thesis by simp
  next
    case False
    with eq issue_common[OF y(2) _ refl, of reg h] assms(2) reg(4) show ?thesis by auto
  qed
qed

lemma list_execute_inv:
  assumes "at_inv v q x" "list \<in> {query_regs, drop 9 query_regs}"
  shows "\<exists>r x'. xbee_cmd_list_execute E create x 0 list Base_xbee None = Some (r, x') \<and> at_inv v True x'"
proof -
  define y where "y = upd_list 0 (\<lambda>_. \<lparr>clc_list = list, clc_base = Base_xbee, clc_status = XBEE_COMMAND_LIST_RUNNING, clc_index = 0\<rparr>) x"
  have y: "lists y 0 = \<lparr>clc_list = list, clc_base = Base_xbee, clc_status = XBEE_COMMAND_LIST_RUNNING, clc_index = 0\<rparr>"
    by (simp add: y_def upd_list_def)
  moreover have "query_regs \<noteq> []" by (simp add: query_regs_def)
  ultimately have ok: "query_list_ok (lists y 0)" using assms(2) query_regs_valid(3) by (auto simp: query_list_ok_def)
  have "at_inv v True y"
    using at_inv_strengthen[of v q y] at_inv_upd_list[OF assms(1)] ok y by (simp add: y_def)
  moreover have "reg_valid (clc_list (lists y 0) ! unat (clc_index (lists y 0)))"
    using assms(2) query_regs_valid(1)[of 0] query_regs_valid(1)[of 9] query_regs_valid(3) by (auto simp: y)
  ultimately obtain h z where z: "issue_list create y 0 None = Some (h, z)" "at_inv v True z" "0 \<le> h \<longrightarrow> cmd_nonzero z h"
    using issue_list_inv[of y None] by auto
  show ?thesis
  proof (cases "h < 0")
    case True
    with z show ?thesis by (simp add: xbee_cmd_list_execute_def y_def Let_def)
  next
    case False
    obtain e w where w: "xbee_cmd_set_callback z h List_callback 0 = (e, w)" by fastforce
    have "at_inv v True w"
      using at_inv_set_callback[OF z(2) at_inv_query_list[OF z(2)], of h] z(3) False w by simp
    then have "at_inv v True (snd (if e \<noteq> 0 then (e, w) else xbee_cmd_send (now E) w h))" by (simp add: at_inv_send)
    moreover have "xbee_cmd_list_execute E create x 0 list Base_xbee None = Some (if e \<noteq> 0 then (e, w) else xbee_cmd_send (now E) w h)"
      using z(1) w False by (simp add: xbee_cmd_list_execute_def y_def Let_def)
    ultimately show ?thesis by (metis prod.collapse)
  qed
qed

lemma query_device_inv:
  assumes "at_inv v q x"
  shows "\<exists>r x'. xbee_cmd_query_device E create x b = Some (r, x') \<and> at_inv v q x'"
proof -
  define y where "y = (if b then x\<lparr>dev_flags := dev_flags x OR XBEE_DEV_FLAG_QUERY_REFRESH\<rparr> else x)"
  have y: "at_inv v q y" using at_inv_set_flags[OF assms] assms by (simp add: y_def)
  show ?thesis
  proof (cases "dev_flags y AND XBEE_DEV_FLAG_QUERY_INPROGRESS = 0")
    case False
    with y show ?thesis by (simp add: xbee_cmd_query_device_def y_def Let_def)
  next
    case True
    let ?l = "drop (if b then 9 else 0) query_regs"
    obtain r z where z: "xbee_cmd_list_execute E create y 0 ?l Base_xbee None = Some (r, z)" "at_inv v True z"
      using list_execute_inv[OF y, of ?l] by (cases b) auto
    have "at_inv v q (z\<lparr>dev_flags := (dev_flags z OR (XBEE_DEV_FLAG_QUERY_BEGIN OR XBEE_DEV_FLAG_QUERY_INPROGRESS)) AND
               NOT (XBEE_DEV_FLAG_QUERY_ERROR OR XBEE_DEV_FLAG_QUERY_DONE OR XBEE_DEV_FLAG_QUERY_REFRESH)\<rparr>)"
      using at_inv_clear_flags[OF at_inv_set_flags[OF at_inv_weaken[OF z(2)]], of "0x1C" q "0x22"] by simp
    with True z(1) at_inv_weaken[OF z(2), of q] show ?thesis
      unfolding xbee_cmd_query_device_def y_def[symmetric] by (simp add: Let_def)
  qed
qed

lemma query_handle_end_inv:
  assumes "at_inv v q x"
  shows "\<exists>x'. query_handle_end E create response reg x = Some x' \<and> at_inv v q x'"
proof -
  have "at_inv v q (x\<lparr>dev_flags := dev_flags x AND NOT XBEE_DEV_FLAG_QUERY_INPROGRESS\<rparr>)"
    by (rule at_inv_clear_flags[OF assms]) simp
  note k = at_inv_set_flags[OF this] at_inv_set_flags[OF at_inv_set_flags[OF this]]
  define y where "y = query_end_flags response reg x"
  have y: "at_inv v q y"
    unfolding y_def query_end_flags_def Let_def by (subst if_split, intro conjI impI) (simp_all only: k)
  obtain r z where "xbee_cmd_query_device E create y True = Some (r, z)" "at_inv v q z"
    using query_device_inv[OF y] by blast
  with y show ?thesis by (simp add: query_handle_end_def y_def[symmetric])
qed

lemma call_reg_inv:
  assumes "at_inv v q x" "reg \<in> set query_regs"
  shows "\<exists>x'. call_reg E create (reg_callback reg) response ro b x = Some x' \<and> at_inv v q x'"
  using query_regs_types(3)[OF assms(2)] assms(1) query_handle_end_inv[OF assms(1)]
  by (cases "reg_callback reg") (auto simp: call_reg_def query_handle_eo_def query_handle_ai_def Let_def)

lemma list_timeout_inv:
  assumes "at_inv v True x" "resp_context response = 0"
  shows "\<exists>r x'. list_timeout E create response x = Some (r, x') \<and> at_inv v True x'"
proof -
  let ?y = "upd_list 0 (\<lambda>l. l\<lparr>clc_status := XBEE_COMMAND_LIST_TIMEOUT\<rparr>) x"
  have q: "query_list_ok (lists x 0)" using assms(1) by (rule at_inv_query_list)
  have y: "at_inv v True ?y" using q by (intro at_inv_upd_list[OF assms(1)]) (simp add: query_list_ok_def)
  have "clc_list (lists ?y 0) = clc_list (lists x 0)" by (simp add: upd_list_def)
  then have "nth_opt (dropWhile reg_valid (clc_list (lists ?y 0))) 0 = Some (query_regs ! 11)"
    using q unfolding query_list_ok_def by (auto simp: query_regs_end nth_opt_Cons)
  moreover have "query_regs ! 11 \<in> set query_regs" by (simp add: query_regs_valid(3))
  ultimately show ?thesis
    using call_reg_inv[OF y, of "query_regs ! 11" response "Some (query_regs ! 11)" "clc_base (lists ?y 0)"] assms(2)
    by (auto simp: list_timeout_def Let_def)
qed

lemma list_next_inv:
  assumes "at_inv v True x" "resp_context response = 0"
    and "unat (clc_index (lists x 0)) + 1 < length (clc_list (lists x 0))"
  shows "\<exists>r x'. list_next E create response x = Some (r, x') \<and> at_inv v True x'"
proof -
  define y where "y = upd_list 0 (\<lambda>l. l\<lparr>clc_index := clc_index l + 1\<rparr>) x"
  have q: "query_list_ok (lists x 0)" using assms(1) by (rule at_inv_query_list)
  have "length (clc_list (lists x 0)) \<le> 12" using q query_regs_valid(3) by (auto simp: query_list_ok_def)
  then have i: "unat (clc_index (lists x 0) + 1) = unat (clc_index (lists x 0)) + 1"
    using assms(3) by (simp add: unat_word_ariths)
  have y: "at_inv v True y" unfolding y_def
    using q i assms(3) by (intro at_inv_upd_list[OF assms(1)]) (simp add: query_list_ok_def)
  obtain reg where reg: "nth_opt (clc_list (lists y 0)) (unat (clc_index (lists y 0))) = Some reg" "reg \<in> set query_regs"
    "clc_list (lists y 0) ! unat (clc_index (lists y 0)) = reg"
    using query_list_nth[OF at_inv_query_list[OF y]] by metis
  show ?thesis
  proof (cases "reg_valid reg")
    case True
    then obtain h z where "issue_list create y 0 (Some (handle response)) = Some (h, z)" "at_inv v True z"
      using issue_list_inv[OF y, of "Some (handle response)"] reg(3) by auto
    with True reg(1) query_regs_types(1)[OF reg(2)] assms(2) show ?thesis
      by (auto simp: list_next_def y_def Let_def at_inv_send)
  next
    case False
    let ?w = "upd_list 0 (\<lambda>l. l\<lparr>clc_status := XBEE_COMMAND_LIST_DONE\<rparr>) y"
    have "at_inv v True ?w"
      using at_inv_query_list[OF y] by (intro at_inv_upd_list[OF y]) (simp add: query_list_ok_def)
    from call_reg_inv[OF this reg(2), of response "Some reg" "clc_base (lists ?w 0)"] False reg(1) assms(2) show ?thesis
      by (auto simp: list_next_def y_def Let_def)
  qed
qed

lemma list_callback_inv:
  assumes x: "at_inv v q x" "query_list_ok (lists x 0)" and "resp_context response = 0" "resp_command response \<noteq> (0, 0)"
    and "resp_flags response AND XBEE_CMD_RESP_FLAG_TIMEOUT \<noteq> 0 \<or> 4 \<le> length (value_bytes response)"
  shows "\<exists>r x'. list_callback E create response x = Some (r, x') \<and> at_inv v True x'"
proof (cases "resp_flags response AND XBEE_CMD_RESP_FLAG_TIMEOUT = 0")
  case False
  with list_timeout_inv[OF at_inv_strengthen[OF x] assms(3)] show ?thesis by (simp add: list_callback_def Let_def)
next
  case True
  obtain reg where reg: "nth_opt (clc_list (lists x 0)) (unat (clc_index (lists x 0))) = Some reg" "reg \<in> set query_regs"
    "clc_list (lists x 0) ! unat (clc_index (lists x 0)) = reg"
    using query_list_nth[OF x(2)] by metis
  show ?thesis
  proof (cases "resp_command response = reg_command reg")
    case False
    let ?w = "upd_list 0 (\<lambda>l. l\<lparr>clc_status := XBEE_COMMAND_LIST_ERROR\<rparr>) x"
    have "at_inv v True ?w"
      using x(2) by (intro at_inv_upd_list[OF at_inv_strengthen[OF x]]) (simp add: query_list_ok_def)
    from call_reg_inv[OF this reg(2), of response None "clc_base (lists ?w 0)"] False True reg(1) assms(3) show ?thesis
      by (auto simp: list_callback_def Let_def)
  next
    case same: True
    then have valid: "reg_valid reg" using assms(4) by (simp add: reg_valid_def)
    define copy where "copy = (if resp_success response then list_copy response reg Base_xbee x else Some x)"
    have v4: "4 \<le> length (value_bytes response)" using assms(5) True by simp
    obtain y where y: "copy = Some y" "app y = app x" "dev_flags y = dev_flags x"
    proof (cases "resp_success response")
      case True
      with list_copy_query[OF reg(2) v4, of x] show thesis using that by (metis copy_def)
    qed (simp add: copy_def that)
    have "at_inv v True y"
      using at_inv_strengthen[OF x] at_inv_cong[of y x v True] y(2,3) by simp
    then obtain z where z: "call_reg E create (reg_callback reg) response (Some reg) Base_xbee y = Some z" "at_inv v True z"
      using call_reg_inv[OF _ reg(2)] by blast
    have "lists z 0 = lists x 0"
      using query_regs_types(2)[OF reg(2) valid] z(1) y(2)
      by (auto simp: call_reg_def query_handle_eo_def query_handle_ai_def Let_def split: if_splits)
    moreover have "unat (clc_index (lists x 0)) + 1 < length (clc_list (lists x 0))"
    proof (rule ccontr)
      assume "\<not> ?thesis"
      moreover have "unat (clc_index (lists x 0)) < length (clc_list (lists x 0))" using x(2) by (simp add: query_list_ok_def)
      ultimately have "unat (clc_index (lists x 0)) = length (clc_list (lists x 0)) - 1" by linarith
      then have "reg = query_regs ! 11" using reg(3) x(2) query_regs_valid(3) by (auto simp: query_list_ok_def)
      with valid query_regs_valid(2) show False by simp
    qed
    ultimately obtain r w where "list_next E create response z = Some (r, w)" "at_inv v True w"
      using list_next_inv[OF z(2) assms(3)] by auto
    moreover have base: "clc_base (lists x 0) = Base_xbee" "clc_base (lists y 0) = Base_xbee"
      using x(2) y(2) by (simp_all add: query_list_ok_def)
    have "list_callback E create response x =
        Option.bind copy (\<lambda>x. Option.bind (call_reg E create (reg_callback reg) response (Some reg) (clc_base (lists x 0)) x)
          (list_next E create response))"
      unfolding list_callback_def Let_def assms(3) copy_def base(1) reg(1) using True same by simp
    ultimately show ?thesis using y(1) z(1) base(2) by simp
  qed
qed

lemma call_callback_inv:
  assumes x: "at_inv v q x" and r: "list_entry_ok r" "callback r = List_callback \<Longrightarrow> query_list_ok (lists x 0)"
    and "resp_context response = cb_context r" "resp_command response = command r"
    and "resp_flags response AND XBEE_CMD_RESP_FLAG_TIMEOUT \<noteq> 0 \<or> 4 \<le> length (value_bytes response)"
  shows "\<exists>n x'. call_callback E create (callback r) response x = Some (n, x') \<and> at_inv v q x'"
proof (cases "callback r")
  case List_callback
  then have "resp_context response = 0" "resp_command response \<noteq> (0, 0)" "query_list_ok (lists x 0)"
    using assms by (auto simp: list_entry_ok_def)
  from list_callback_inv[OF x this(3,1,2) assms(6)] List_callback show ?thesis
    by (auto simp: call_callback_def dest: at_inv_weaken)
qed (use x user_inv[OF x] in \<open>simp_all add: call_callback_def\<close>)

lemma entryD:
  assumes "at_inv v q x" "i < 4"
  shows "list_entry_ok (table x ! i)" "callback (table x ! i) = List_callback \<Longrightarrow> query_list_ok (lists x 0)"
  using assms by (auto simp: at_inv_def)

lemma issue_list_busy:
  assumes "at_inv v True x" "busy E B x" "issue_list create x 0 None = Some (h, z)"
  shows "busy E B z"
proof -
  obtain reg where reg: "nth_opt (clc_list (lists x 0)) (unat (clc_index (lists x 0))) = Some reg" "reg \<in> set query_regs"
    "nth_opt (clc_list (lists x 0)) 0 = Some (clc_list (lists x 0) ! 0)" "clc_list (lists x 0) ! unat (clc_index (lists x 0)) = reg"
    using query_list_nth[OF at_inv_query_list[OF assms(1)]] .
  obtain k y where y: "create x (reg_command (clc_list (lists x 0) ! 0)) = Some (k, y)" "at_inv v True y"
    using create_inv[OF assms(1)] by blast
  have b: "busy E B y" using create_busy[OF assms(1,2) y(1)] .
  define w where "w = snd (xbee_cmd_set_command y k (reg_command reg))"
  have "table_ok w" unfolding w_def xbee_cmd_set_command_def using at_inv_table[OF y(2)] by (intro with_request_ok) simp_all
  moreover have "busy E B w" unfolding w_def xbee_cmd_set_command_def using b at_inv_table[OF y(2)] by (intro busy_with_request) simp_all
  ultimately have "busy E B (snd (xbee_cmd_set_param_bytes w k []))"
    by (simp add: xbee_cmd_set_param_bytes_def busy_with_request store_param_def)
  with assms(3) reg y(1) b show ?thesis
    by (auto simp: issue_list_def Let_def query_reg_param w_def split: if_splits)
qed

lemma list_execute_busy:
  assumes "at_inv v q x" "list \<in> {query_regs, drop 9 query_regs}" "busy E B x"
    "xbee_cmd_list_execute E create x 0 list Base_xbee None = Some (r, x')"
  shows "busy E B x'"
proof -
  define y where "y = upd_list 0 (\<lambda>_. \<lparr>clc_list = list, clc_base = Base_xbee, clc_status = XBEE_COMMAND_LIST_RUNNING, clc_index = 0\<rparr>) x"
  have y: "lists y 0 = \<lparr>clc_list = list, clc_base = Base_xbee, clc_status = XBEE_COMMAND_LIST_RUNNING, clc_index = 0\<rparr>"
    by (simp add: y_def upd_list_def)
  have ok: "query_list_ok (lists y 0)" using assms(2) query_regs_valid(3) by (auto simp: query_list_ok_def y query_regs_def)
  have inv: "at_inv v True y" using at_inv_strengthen[of v q y] at_inv_upd_list[OF assms(1)] ok y by (simp add: y_def)
  have valid: "reg_valid (clc_list (lists y 0) ! unat (clc_index (lists y 0)))"
    using assms(2) query_regs_valid(1)[of 0] query_regs_valid(1)[of 9] query_regs_valid(3) by (auto simp: y)
  obtain h z where z: "issue_list create y 0 None = Some (h, z)" "at_inv v True z"
    using issue_list_inv[OF inv valid, of None] by auto
  have bz: "busy E B z" using issue_list_busy[OF inv _ z(1)] assms(3) by (simp add: y_def)
  obtain e w where w: "xbee_cmd_set_callback z h List_callback 0 = (e, w)" by fastforce
  have tz: "table_ok z" using at_inv_table[OF z(2)] .
  have tw: "table_ok w" "busy E B w"
    using with_request_ok[OF tz, of "\<lambda>r. r\<lparr>callback := List_callback, cb_context := 0\<rparr>" h]
      busy_with_request[OF bz tz, of "\<lambda>r. r\<lparr>callback := List_callback, cb_context := 0\<rparr>" h] w
    by (simp_all add: xbee_cmd_set_callback_def)
  have "callback (table w ! j) \<noteq> No_callback" if "xbee_cmd_handle_to_address w h = Some j" "e = 0" for j
  proof -
    have "xbee_cmd_handle_to_address z h = Some j"
      using that(1) w with_request_address[OF _ tz, of "\<lambda>r. r\<lparr>callback := List_callback, cb_context := 0\<rparr>" h h]
      by (simp add: xbee_cmd_set_callback_def)
    with w tz show ?thesis by (auto simp: xbee_cmd_set_callback_def with_request_def handle_to_address_iff)
  qed
  then have "e = 0 \<Longrightarrow> busy E B (snd (xbee_cmd_send (now E) w h))" using busy_send[OF tw(2,1)] by blast
  moreover have "xbee_cmd_list_execute E create x 0 list Base_xbee None =
      Some (if h < 0 then (h, z) else if e \<noteq> 0 then (e, w) else xbee_cmd_send (now E) w h)"
    using z(1) w by (simp add: xbee_cmd_list_execute_def y_def Let_def)
  moreover obtain e' w' where "xbee_cmd_send (now E) w h = (e', w')" by fastforce
  ultimately show ?thesis using assms(4) bz tw(2) by (auto split: if_splits)
qed

lemma query_device_busy:
  assumes "at_inv v q x" "busy E B x" "xbee_cmd_query_device E create x b = Some (r, x')"
  shows "busy E B x'"
proof -
  define y where "y = (if b then x\<lparr>dev_flags := dev_flags x OR XBEE_DEV_FLAG_QUERY_REFRESH\<rparr> else x)"
  have y: "at_inv v q y" "busy E B y" using at_inv_set_flags[OF assms(1)] assms(1,2) by (simp_all add: y_def)
  let ?l = "drop (if b then 9 else 0) query_regs"
  obtain e z where z: "xbee_cmd_list_execute E create y 0 ?l Base_xbee None = Some (e, z)"
    using list_execute_inv[OF y(1), of ?l] by (cases b) auto
  have "busy E B z" using list_execute_busy[OF y(1) _ y(2) z] by (cases b) auto
  with assms(3) y(2) z show ?thesis
    unfolding xbee_cmd_query_device_def y_def[symmetric] by (auto simp: Let_def split: if_splits)
qed

lemma list_timeout_busy:
  assumes "at_inv v True x" "resp_context response = 0" "busy E B x" "list_timeout E create response x = Some (r, x')"
  shows "busy E B x'"
proof -
  let ?y = "upd_list 0 (\<lambda>l. l\<lparr>clc_status := XBEE_COMMAND_LIST_TIMEOUT\<rparr>) x"
  have q: "query_list_ok (lists x 0)" using assms(1) by (rule at_inv_query_list)
  have y: "at_inv v True ?y" using q by (intro at_inv_upd_list[OF assms(1)]) (simp add: query_list_ok_def)
  have "clc_list (lists ?y 0) = clc_list (lists x 0)" by (simp add: upd_list_def)
  then have n: "nth_opt (dropWhile reg_valid (clc_list (lists ?y 0))) 0 = Some (query_regs ! 11)"
    using q unfolding query_list_ok_def by (auto simp: query_regs_end nth_opt_Cons)
  have "at_inv v True (?y\<lparr>dev_flags := dev_flags ?y AND NOT XBEE_DEV_FLAG_QUERY_INPROGRESS\<rparr>)"
    by (rule at_inv_clear_flags[OF y]) simp
  note k = at_inv_set_flags[OF this] at_inv_set_flags[OF at_inv_set_flags[OF this]]
  define w where "w = query_end_flags response (Some (query_regs ! 11)) ?y"
  have w: "at_inv v True w"
    unfolding w_def query_end_flags_def Let_def by (subst if_split, intro conjI impI) (simp_all only: k)
  have bw: "busy E B w" using assms(3) by (simp add: w_def busy_query_end)
  obtain e z where z: "xbee_cmd_query_device E create w True = Some (e, z)" using query_device_inv[OF w] by blast
  have "busy E B z" using query_device_busy[OF w bw z] .
  moreover have "reg_callback (query_regs ! 11) = Query_handle_end" by (simp add: query_regs_def XBEE_ATCMD_REG_END_CB_def)
  ultimately show ?thesis using assms(2,4) n bw z
    by (auto simp: list_timeout_def Let_def call_reg_def query_handle_end_def simp flip: w_def split: if_splits)
qed

lemma expired_busy:
  assumes x: "at_inv v q x" "busy E {i} x" and y: "call_callback E create (callback (table x ! i)) (expired_response x i) x = Some (m, y)"
  shows "busy E {} y" "m \<noteq> XBEE_ATCMD_REUSE \<Longrightarrow> in_use (table y ! i)"
proof -
  have i: "i < 4" using x(2) by (simp add: busy_def)
  have e: "handle (expired_response x i) = request_handle x i" "resp_context (expired_response x i) = cb_context (table x ! i)"
    "resp_flags (expired_response x i) AND XBEE_CMD_RESP_FLAG_TIMEOUT \<noteq> 0"
    by (simp_all add: expired_response_def)
  have "busy E {} y \<and> (m \<noteq> XBEE_ATCMD_REUSE \<longrightarrow> in_use (table y ! i))"
  proof (cases "callback (table x ! i)")
    case No_callback
    with y x(2) show ?thesis by (auto simp: call_callback_def busy_def)
  next
    case List_callback
    have l: "cb_context (table x ! i) = 0" "at_inv v True x"
      using entryD[OF x(1) i] List_callback at_inv_strengthen[OF x(1)] by (auto simp: list_entry_ok_def)
    have "list_timeout E create (expired_response x i) x = Some (m, y)"
      using y List_callback e(3) by (simp add: call_callback_def list_callback_def Let_def)
    from list_timeout_busy[OF l(2) _ x(2) this] e(2) l(1) show ?thesis by (simp add: busy_def)
  next
    case (User_callback k)
    with y user_busy[OF x e(1)] show ?thesis by (simp add: call_callback_def)
  qed
  then show "busy E {} y" "m \<noteq> XBEE_ATCMD_REUSE \<Longrightarrow> in_use (table y ! i)" by blast+
qed

lemma tick_entry_inv:
  assumes x: "at_inv v q x" and b: "busy E {} x" and i: "i < 4"
  shows "\<exists>n' x'. tick_entry E create i (n, x) = Some (n', x') \<and> at_inv v q x' \<and> busy E {} x'"
proof (cases "in_use (table x ! i) \<and> check_timeout_sec (now E) (timeout (table x ! i))")
  case True
  obtain m y where y: "call_callback E create (callback (table x ! i)) (expired_response x i) x = Some (m, y)" "at_inv v q y"
    using call_callback_inv[OF x entryD[OF x i], of "expired_response x i"] by (auto simp: expired_response_def)
  have "busy E {i} x" using True b i by (simp add: busy_def)
  note be = expired_busy[OF x this y(1)]
  let ?z = "snd (release_request y (Some i))"
  have z: "at_inv v q ?z" "busy E {} ?z"
    using at_inv_release[OF y(2) i] be(1) by (simp_all add: release_request_def busy_def)
  obtain e w where w: "xbee_cmd_query_device E create ?z True = Some (e, w)" "at_inv v q w"
    using query_device_inv[OF z(1)] by blast
  have "tick_entry E create i (n, x) =
      (if m \<noteq> XBEE_ATCMD_REUSE then
         if dev_flags ?z AND XBEE_DEV_FLAG_QUERY_REFRESH \<noteq> 0 then Some (n + 1, w) else Some (n + 1, ?z)
       else Some (n + 1, y))"
    unfolding tick_entry_def case_prod_conv Let_def using True y(1) w(1) be(2) by simp
  with y(2) be(1) z w query_device_busy[OF z w(1)] show ?thesis by (auto split: if_split)
qed (use x b in \<open>auto simp: tick_entry_def Let_def\<close>)

lemma tick_loop_inv:
  "at_inv v q x \<Longrightarrow> busy E {} x \<Longrightarrow> \<forall>i \<in> set is. i < 4 \<Longrightarrow>
   \<exists>n' x'. tick_loop E create is (n, x) = Some (n', x') \<and> at_inv v q x'"
proof (induction "is" arbitrary: n x)
  case (Cons i "is")
  then have "i < 4" by simp
  from tick_entry_inv[OF Cons.prems(1,2) this, of n] obtain m y where
    y: "tick_entry E create i (n, x) = Some (m, y)" "at_inv v q y" "busy E {} y" by blast
  with Cons.IH[OF y(2,3), of m] Cons.prems(3) show ?case by simp
qed simp

lemma cmd_tick_inv:
  assumes "at_inv v q x"
  shows "\<exists>n x'. cmd_tick E create x = Some (n, x') \<and> at_inv v q x'"
proof (cases "tick_last_time (app x) = ucast (now E)")
  case False
  let ?y = "x\<lparr>app := (app x)\<lparr>tick_last_time := ucast (now E)\<rparr>\<rparr>"
  have "at_inv v q ?y" "busy E {} ?y" using assms by (simp_all add: busy_def)
  from tick_loop_inv[OF this, of "[0..<4]" 0] False show ?thesis by (simp add: cmd_tick_def)
qed (use assms in \<open>simp add: cmd_tick_def\<close>)

lemma respond_inv:
  assumes x: "at_inv v q x" and "4 \<le> length w"
  shows "\<exists>x'. respond E create x fid src cmd status len w = Some (0, x') \<and> at_inv v q x'"
proof (cases "find (\<lambda>i. matches fid (src = None) cmd (table x ! i)) [0..<4]")
  case (Some i)
  then have i: "i < 4" by (auto simp: find_Some_iff)
  let ?r = "table x ! i"
  define response where "response = \<lparr>resp_context = cb_context ?r, handle = request_handle x i, resp_command = command ?r,
      resp_flags = ucast status, value_length = len, value_bytes = w, resp_value = response_value len w, resp_source = src\<rparr>"
  obtain m y where y: "call_callback E create (callback ?r) response x = Some (m, y)" "at_inv v q y"
    using call_callback_inv[OF x entryD[OF x i], of response] assms(2) by (auto simp: response_def)
  have "at_inv v q (upd_request i (\<lambda>r. r\<lparr>timeout := set_timeout_sec (now E) 5\<rparr>) y)"
    using y(2) i by (intro at_inv_upd_same) auto
  with y at_inv_release[OF y(2) i] Some show ?thesis
    by (simp add: respond_def Let_def flip: response_def)
qed (use x in \<open>simp add: respond_def\<close>)

end

section \<open>The levels of \<open>xbee_cmd_create\<close>\<close>

text \<open>What is asked of the callbacks of the application.\<close>

definition user_ok :: "'u at_env \<Rightarrow> bool" where
  "user_ok E \<longleftrightarrow> (\<forall>v q k resp x. v \<in> {1, 2} \<longrightarrow> at_inv v q x \<longrightarrow>
     (\<exists>r x'. user_cb E k resp x = Some (r, x') \<and> at_inv v q x' \<and> tick_last_time (app x') = tick_last_time (app x) \<and>
        (\<forall>i < 4. in_use (table x ! i) \<and> handle resp = request_handle x i \<and> r \<noteq> XBEE_ATCMD_REUSE \<longrightarrow> in_use (table x' ! i))))"

lemma user_okD:
  assumes "user_ok E" "v \<in> {1, 2}" "at_inv v q x"
  shows "\<exists>r x'. user_cb E k resp x = Some (r, x') \<and> at_inv v q x'"
    and "busy F {i} x \<Longrightarrow> handle resp = request_handle x i \<Longrightarrow> user_cb E k resp x = Some (r, x') \<Longrightarrow>
      busy F {} x' \<and> (r \<noteq> XBEE_ATCMD_REUSE \<longrightarrow> in_use (table x' ! i))"
proof -
  obtain r0 x0 where u: "user_cb E k resp x = Some (r0, x0)" "at_inv v q x0" "tick_last_time (app x0) = tick_last_time (app x)"
    "\<forall>i < 4. in_use (table x ! i) \<and> handle resp = request_handle x i \<and> r0 \<noteq> XBEE_ATCMD_REUSE \<longrightarrow> in_use (table x0 ! i)"
    using assms unfolding user_ok_def by blast
  then show "\<exists>r x'. user_cb E k resp x = Some (r, x') \<and> at_inv v q x'" by blast
  show "busy F {} x' \<and> (r \<noteq> XBEE_ATCMD_REUSE \<longrightarrow> in_use (table x' ! i))"
    if "busy F {i} x" "handle resp = request_handle x i" "user_cb E k resp x = Some (r, x')"
    using that u by (auto simp: busy_def)
qed

lemma create_setup_id [simp]: "create_initialized (app x) \<noteq> 0 \<Longrightarrow> create_setup x = x"
  by (simp add: create_setup_def)

lemma at_inv_fill:
  assumes "at_inv v q x" "i < 4"
  shows "at_inv v q (snd (fill_slot t x i cmd))"
  using assms by (auto simp: fill_slot_def list_entry_ok_def zero_request_def intro!: at_inv_upd)
    (simp add: request_ok_def)

lemma free_slot_less: "free_slot x = Some i \<Longrightarrow> i < 4"
  by (auto simp: free_slot_def find_Some_iff)

text \<open>
  The outcome of \<open>xbee_cmd_create\<close>: the handle of an entry that is ready for use, or no entry, as all are
  in use.
\<close>

definition created :: "'u at_dev \<Rightarrow> int \<Rightarrow> at_cmd \<Rightarrow> bool" where
  "created x h cmd \<longleftrightarrow> h = - ENOSPC \<and> (\<forall>i < 4. in_use (table x ! i)) \<or>
     (\<exists>i < 4. h = request_handle x i \<and> in_use (table x ! i) \<and> command (table x ! i) = cmd \<and>
        callback (table x ! i) = No_callback \<and> param_of (table x ! i) = [])"

lemma created_fill:
  assumes "table_ok x" "i < 4"
  shows "created (snd (fill_slot t x i cmd)) (fst (fill_slot t x i cmd)) cmd"
  using assms by (auto simp: created_def fill_slot_def request_handle_def zero_request_def param_of_def intro!: exI[of _ i])

lemma fill_inv:
  assumes "at_inv v q x" "free_slot x = Some i"
  shows "\<exists>h x'. fill_slot t x i cmd = (h, x') \<and> at_inv v q x' \<and> created x' h cmd"
  using at_inv_fill[OF assms(1) free_slot_less[OF assms(2)]]
    created_fill[OF at_inv_table[OF assms(1)] free_slot_less[OF assms(2)]]
  by (metis prod.collapse)

lemma at_invD: "at_inv v q x \<Longrightarrow> create_initialized (app x) = v" "at_inv v q x \<Longrightarrow> dev_flags x AND XBEE_DEV_FLAG_CMD_INIT \<noteq> 0"
  unfolding cmd_init_bit by (simp_all add: at_inv_def)

lemma create_inv2:
  assumes "at_inv 2 q x"
  shows "\<exists>h x'. xbee_cmd_create (Suc n) E x cmd = Some (h, x') \<and> at_inv 2 q x' \<and> created x' h cmd"
proof (cases "free_slot x")
  case None
  then have "\<forall>i < 4. in_use (table x ! i)" by (auto simp: free_slot_def find_None_iff)
  then show ?thesis using at_invD[OF assms] assms None by (simp add: Let_def created_def)
next
  case (Some i)
  then show ?thesis using at_invD[OF assms] fill_inv[OF assms Some] by (simp add: Let_def)
qed

lemma busy_fill: "busy E B x \<Longrightarrow> table_ok x \<Longrightarrow> free_slot x = Some i \<Longrightarrow> busy E B (snd (fill_slot t x i cmd))"
  unfolding fill_slot_def snd_conv by (rule busy_upd) simp_all

lemma create_busy2:
  assumes "at_inv 2 q x" "busy F B x" "xbee_cmd_create (Suc n) E x cmd = Some (h, x')"
  shows "busy F B x'"
proof (cases "free_slot x")
  case None
  then show ?thesis using at_invD[OF assms(1)] assms(2,3) by (simp add: Let_def)
next
  case (Some i)
  then have "fill_slot (now E) x i cmd = (h, x')" using at_invD[OF assms(1)] assms(3) by (simp add: Let_def)
  with busy_fill[OF assms(2) at_inv_table[OF assms(1)] Some, of "now E" cmd] show ?thesis by simp
qed

lemma create_level2:
  assumes "user_ok E"
  shows "at_callbacks E (xbee_cmd_create (Suc n) E) 2"
proof
  show "at_inv 2 q x \<Longrightarrow> \<exists>h x'. xbee_cmd_create (Suc n) E x cmd = Some (h, x') \<and> at_inv 2 q x'" for q x cmd
    using create_inv2[of q x n E cmd] by blast
  show "at_inv 2 q x \<Longrightarrow> busy E B x \<Longrightarrow> xbee_cmd_create (Suc n) E x cmd = Some (h, x') \<Longrightarrow> busy E B x'" for q x B cmd h x'
    by (rule create_busy2)
qed (use user_okD[OF assms, of 2] in blast)+

lemma at_inv_initialized: "at_inv v q x \<Longrightarrow> at_inv w q (set_initialized w x)"
  by (simp add: at_inv_def set_initialized_def table_ok_def)

lemma created_initialized [simp]: "created (set_initialized w x) h cmd = created x h cmd"
  by (simp add: created_def set_initialized_def request_handle_def)

lemma create_inv1:
  assumes E: "user_ok E" and x: "at_inv 1 q x"
  shows "\<exists>h x'. xbee_cmd_create (Suc (Suc n)) E x cmd = Some (h, x') \<and> at_inv 1 q x' \<and> created x' h cmd"
proof (cases "free_slot x")
  case None
  obtain m y where y: "cmd_tick E (xbee_cmd_create (Suc n) E) (set_initialized 2 x) = Some (m, y)" "at_inv 2 q y"
    using at_callbacks.cmd_tick_inv[OF create_level2[OF E] at_inv_initialized[OF x]] by blast
  obtain h z where z: "xbee_cmd_create (Suc n) E y cmd = Some (h, z)" "at_inv 2 q z" "created z h cmd"
    using create_inv2[OF y(2)] by blast
  have "xbee_cmd_create (Suc (Suc n)) E x cmd = Some (h, set_initialized 1 z)"
    unfolding xbee_cmd_create.simps(2)[of "Suc n"]
    using None at_invD[OF x] y(1) z(1) by (simp add: Let_def del: xbee_cmd_create.simps(2))
  with z(3) at_inv_initialized[OF z(2)] show ?thesis by auto
next
  case (Some i)
  then show ?thesis using at_invD[OF x] fill_inv[OF x Some] by (simp add: Let_def)
qed

lemma create_busy1:
  assumes "at_inv 1 q x" "busy E B x" "xbee_cmd_create (Suc (Suc n)) E x cmd = Some (h, x')"
  shows "busy E B x'"
proof (cases "free_slot x")
  case None
  have t: "cmd_tick E (xbee_cmd_create (Suc n) E) (set_initialized 2 x) = Some (0, set_initialized 2 x)"
    using assms(2) by (simp add: cmd_tick_def busy_def set_initialized_def)
  obtain k z where z: "xbee_cmd_create (Suc n) E (set_initialized 2 x) cmd = Some (k, z)"
    using create_inv2[OF at_inv_initialized[OF assms(1)]] by blast
  have "busy E B z" using create_busy2[OF at_inv_initialized[OF assms(1)] _ z] assms(2) by simp
  moreover have "x' = set_initialized 1 z"
    using assms(3) None at_invD[OF assms(1)] t z unfolding xbee_cmd_create.simps(2)[of "Suc n"]
    by (simp add: Let_def del: xbee_cmd_create.simps(2))
  ultimately show ?thesis by simp
next
  case (Some i)
  then have "fill_slot (now E) x i cmd = (h, x')" using at_invD[OF assms(1)] assms(3) by (simp add: Let_def)
  with busy_fill[OF assms(2) at_inv_table[OF assms(1)] Some, of "now E" cmd] show ?thesis by simp
qed

lemma create_level1:
  assumes "user_ok E"
  shows "at_callbacks E (xbee_cmd_create (Suc (Suc n)) E) 1"
proof
  show "at_inv 1 q x \<Longrightarrow> \<exists>h x'. xbee_cmd_create (Suc (Suc n)) E x cmd = Some (h, x') \<and> at_inv 1 q x'" for q x cmd
    using create_inv1[OF assms, of q x n cmd] by blast
  show "at_inv 1 q x \<Longrightarrow> busy E B x \<Longrightarrow> xbee_cmd_create (Suc (Suc n)) E x cmd = Some (h, x') \<Longrightarrow> busy E B x'" for q x B cmd h x'
    by (rule create_busy1)
qed (use user_okD[OF assms, of 1] in blast)+

section \<open>Starting the layer\<close>

text \<open>A device that was opened, before the first call of the layer.\<close>

definition at_fresh :: "'u at_dev \<Rightarrow> bool" where
  "at_fresh x \<longleftrightarrow> create_initialized (app x) = 0 \<and> dev_flags x AND XBEE_DEV_FLAG_CMD_INIT = 0 \<and>
     dev_flags x AND XBEE_DEV_FLAG_QUERY_BEGIN = 0 \<and> dev_flags x AND XBEE_DEV_FLAG_QUERY_INPROGRESS = 0"

lemma create_setup_idem: "create_setup (create_setup x) = create_setup x"
  by (simp add: create_setup_def)

lemma create_after_setup: "xbee_cmd_create n E (create_setup x) = xbee_cmd_create n E x"
  by (cases n) (simp_all add: create_setup_idem fun_eq_iff)

lemma setup_lists: "upd_list c f (create_setup x) = create_setup (upd_list c f x)" "lists (create_setup x) = lists x"
  "dev_flags (create_setup x) = dev_flags x"
  by (simp_all add: create_setup_def upd_list_def)

lemma issue_after_setup:
  "issue_list (xbee_cmd_create n E) (create_setup x) c None = issue_list (xbee_cmd_create n E) x c None"
  by (simp add: issue_list_def setup_lists create_after_setup)

lemma list_execute_after_setup:
  "xbee_cmd_list_execute E (xbee_cmd_create n E) (create_setup x) c l b a =
   xbee_cmd_list_execute E (xbee_cmd_create n E) x c l b a"
  by (simp only: xbee_cmd_list_execute_def setup_lists Let_def issue_after_setup)

lemma query_after_setup:
  "dev_flags x AND XBEE_DEV_FLAG_QUERY_INPROGRESS = 0 \<Longrightarrow>
   xbee_cmd_query_device E (xbee_cmd_create n E) (create_setup x) False = xbee_cmd_query_device E (xbee_cmd_create n E) x False"
  by (simp add: xbee_cmd_query_device_def list_execute_after_setup setup_lists)

lemma at_inv_setup:
  assumes "create_initialized (app x) = 0" "bit (dev_flags x) 0"
  shows "at_inv 1 False (create_setup x)"
  using assms by (auto simp: at_inv_def create_setup_def table_ok_def list_entry_ok_def zero_request_def request_ok_def)

lemma init_device_inv:
  assumes "user_ok E" "at_fresh x"
  shows "\<exists>r x'. xbee_cmd_init_device E (xbee_cmd_create 3 E) x = Some (r, x') \<and> at_inv 1 False x'"
proof -
  let ?y = "x\<lparr>dev_flags := dev_flags x OR XBEE_DEV_FLAG_CMD_INIT\<rparr>"
  have "bit (dev_flags ?y) 0" "create_initialized (app ?y) = 0" using assms(2) by (simp_all add: bit_or_iff at_fresh_def)
  then have inv: "at_inv 1 False (create_setup ?y)" by (intro at_inv_setup)
  have fl: "(dev_flags x OR 1) AND 2 = dev_flags x AND 2" "(dev_flags x OR 1) AND 32 = dev_flags x AND 32"
    by (auto intro!: bit_word_eqI simp: bit_simps)
  have "xbee_cmd_init_device E (xbee_cmd_create 3 E) x = xbee_cmd_query_device E (xbee_cmd_create 3 E) ?y False"
    using assms(2) fl by (simp add: xbee_cmd_init_device_def at_fresh_def Let_def)
  also have "\<dots> = xbee_cmd_query_device E (xbee_cmd_create 3 E) (create_setup ?y) False"
    using assms(2) fl by (intro query_after_setup[symmetric]) (simp add: at_fresh_def)
  finally show ?thesis
    using at_callbacks.query_device_inv[OF create_level1[OF assms(1), of 1] inv, of False] by (simp add: numeral_3_eq_3)
qed

section \<open>Every use of the layer\<close>

text \<open>
  The calls of an application and of the frame layer, at any times, and what happens on the serial
  port in between. Command lists of the application are left out: the callback of lists is used
  by the query only.
\<close>

inductive at_step :: "'u at_env \<Rightarrow> 'u at_dev \<Rightarrow> 'u at_dev \<Rightarrow> bool" for E where
  "xbee_cmd_create 3 (E\<lparr>now := t\<rparr>) x cmd = Some (h, x') \<Longrightarrow> at_step E x x'"
| "at_step E x (snd (xbee_cmd_send t x h))"
| "at_step E x (snd (xbee_cmd_release_handle x h))"
| "cmd \<noteq> (0, 0) \<Longrightarrow> at_step E x (snd (xbee_cmd_set_command x h cmd))"
| "cb \<noteq> List_callback \<Longrightarrow> at_step E x (snd (xbee_cmd_set_callback x h cb c))"
| "a = None \<or> length (the a) = 8 \<Longrightarrow> at_step E x (snd (xbee_cmd_set_target x h a net))"
| "at_step E x (snd (xbee_cmd_set_param x h v))"
| "at_step E x (snd (xbee_cmd_set_param_bytes x h bs))"
| "at_step E x (snd (xbee_cmd_set_param_str x h bs))"
| "at_step E x (snd (xbee_cmd_set_flags x h fl))"
| "at_step E x (snd (xbee_cmd_clear_flags x h fl))"
| "at_step E x (snd (xbee_cmd_simple x cmd v))"
| "at_step E x (snd (xbee_cmd_execute x cmd d len))"
| "at_step E x (xbee_identify x b)"
| "xbee_cmd_tick (E\<lparr>now := t\<rparr>) x = Some (n, x') \<Longrightarrow> at_step E x x'"
| "xbee_cmd_query_device (E\<lparr>now := t\<rparr>) (xbee_cmd_create 3 (E\<lparr>now := t\<rparr>)) x b = Some (n, x') \<Longrightarrow> at_step E x x'"
| "19 \<le> length raw \<Longrightarrow> xbee_cmd_handle_response (E\<lparr>now := t\<rparr>) x raw len = Some (n, x') \<Longrightarrow> at_step E x x'"
| "xbee_cmd_modem_status (E\<lparr>now := t\<rparr>) x raw = Some (n, x') \<Longrightarrow> at_step E x x'"
| "at_step E x (x\<lparr>serport := s\<rparr>)"

inductive at_reach :: "'u at_env \<Rightarrow> 'u at_dev \<Rightarrow> bool" for E where
  init: "at_fresh x \<Longrightarrow> xbee_cmd_init_device (E\<lparr>now := t\<rparr>) (xbee_cmd_create 3 (E\<lparr>now := t\<rparr>)) x = Some (r, x') \<Longrightarrow> at_reach E x'"
| step: "at_reach E x \<Longrightarrow> at_step E x x' \<Longrightarrow> at_reach E x'"

lemma user_ok_now [simp]: "user_ok (E\<lparr>now := t\<rparr>) = user_ok E"
  by (simp add: user_ok_def)

lemma api_returns:
  assumes E: "user_ok E" and x: "at_inv 1 q x"
  shows "\<exists>h x'. xbee_cmd_create 3 E x cmd = Some (h, x') \<and> at_inv 1 q x' \<and> created x' h cmd"
    and "\<exists>n x'. xbee_cmd_tick E x = Some (n, x') \<and> at_inv 1 q x'"
    and "\<exists>n x'. xbee_cmd_query_device E (xbee_cmd_create 3 E) x b = Some (n, x') \<and> at_inv 1 q x'"
    and "19 \<le> length raw \<Longrightarrow> \<exists>n x'. xbee_cmd_handle_response E x raw len = Some (n, x') \<and> at_inv 1 q x'"
    and "\<exists>n x'. xbee_cmd_modem_status E x raw = Some (n, x') \<and> at_inv 1 q x'"
proof -
  have c: "at_callbacks E (xbee_cmd_create 3 E) 1" using create_level1[OF E, of 1] by (simp add: numeral_3_eq_3)
  show "\<exists>h x'. xbee_cmd_create 3 E x cmd = Some (h, x') \<and> at_inv 1 q x' \<and> created x' h cmd"
    using create_inv1[OF E x, of 1 cmd] by (simp add: numeral_3_eq_3)
  show "\<exists>n x'. xbee_cmd_tick E x = Some (n, x') \<and> at_inv 1 q x'"
    unfolding xbee_cmd_tick_def by (rule at_callbacks.cmd_tick_inv[OF c x])
  show q: "\<exists>n x'. xbee_cmd_query_device E (xbee_cmd_create 3 E) x b = Some (n, x') \<and> at_inv 1 q x'" for b
    by (rule at_callbacks.query_device_inv[OF c x])
  show "\<exists>n x'. xbee_cmd_modem_status E x raw = Some (n, x') \<and> at_inv 1 q x'"
    using q[of True] x by (auto simp: xbee_cmd_modem_status_def)
  show "\<exists>n x'. xbee_cmd_handle_response E x raw len = Some (n, x') \<and> at_inv 1 q x'" if "19 \<le> length raw"
  proof -
    have r: "\<exists>n x'. respond E (xbee_cmd_create 3 E) x fid src cm st l (drop k raw) = Some (n, x') \<and> at_inv 1 q x'"
      if "k \<le> 15" for fid src cm st l k
      using at_callbacks.respond_inv[OF c x, of "drop k raw"] that \<open>19 \<le> length raw\<close> by fastforce
    show ?thesis
      unfolding xbee_cmd_handle_response_def using x by (subst if_split, intro conjI impI r; (subst if_split, intro conjI impI r)?) simp_all
  qed
qed

lemma at_inv_user_callback:
  assumes "at_inv v q x" "cb \<noteq> List_callback"
  shows "at_inv v q (snd (xbee_cmd_set_callback x h cb c))"
  using assms by (auto simp: xbee_cmd_set_callback_def with_request_def list_entry_ok_def split: option.split intro!: at_inv_upd)

lemma at_inv_set_target:
  assumes "at_inv v q x" "a = None \<or> length (the a) = 8"
  shows "at_inv v q (snd (xbee_cmd_set_target x h a net))"
  unfolding xbee_cmd_set_target_def using assms
  by (intro at_inv_with_request) (auto simp: request_ok_def split: option.split)

lemma at_inv_request_flags:
  "at_inv v q x \<Longrightarrow> at_inv v q (snd (xbee_cmd_set_flags x h fl))" "at_inv v q x \<Longrightarrow> at_inv v q (snd (xbee_cmd_clear_flags x h fl))"
  unfolding xbee_cmd_set_flags_def xbee_cmd_clear_flags_def by (auto intro!: at_inv_with_request)

lemma at_inv_frame_write: "at_inv v q x \<Longrightarrow> at_inv v q (snd (xbee_frame_write x h hl d dl))"
  using frame_write_only_port[of x h hl d dl] by auto

lemma at_inv_simple:
  assumes "at_inv v q x"
  shows "at_inv v q (snd (xbee_cmd_simple x cmd w))" "at_inv v q (snd (xbee_cmd_execute x cmd d len))"
    "at_inv v q (xbee_identify x b)"
proof -
  have s: "at_inv v q (snd (xbee_cmd_simple y cmd w))" if "at_inv v q y" for y cmd w
    using that by (simp add: xbee_cmd_simple_def Let_def at_inv_frame_write)
  then show "at_inv v q (snd (xbee_cmd_simple x cmd w))" using assms .
  obtain f where "xbee_next_frame_id x = (f, x\<lparr>frame_id := f\<rparr>)" using next_frame_id_eq .
  then show "at_inv v q (snd (xbee_cmd_execute x cmd d len))"
    using assms by (simp add: xbee_cmd_execute_def Let_def at_inv_frame_write)
  have "at_inv v q (x\<lparr>app := (app x)\<lparr>last_id := c\<rparr>\<rparr>)" for c using assms by (simp add: at_inv_def table_ok_def)
  note id = s[OF this]
  show "at_inv v q (xbee_identify x b)" unfolding xbee_identify_def Let_def using assms by (subst if_split) (blast intro: id)
qed

lemma at_step_inv:
  assumes E: "user_ok E" and "at_inv 1 q x" "at_step E x x'"
  shows "at_inv 1 q x'"
  using assms(3,2)
proof (induction rule: at_step.induct)
  case (1 t x cmd h x')
  from api_returns(1)[of "E\<lparr>now := t\<rparr>" q x cmd] 1 E show ?case by auto
next
  case (15 t x n x')
  from api_returns(2)[of "E\<lparr>now := t\<rparr>" q x] 15 E show ?case by auto
next
  case (16 t x b n x')
  from api_returns(3)[of "E\<lparr>now := t\<rparr>" q x b] 16 E show ?case by auto
next
  case (17 raw t x len n x')
  from api_returns(4)[of "E\<lparr>now := t\<rparr>" q x raw len] 17 E show ?case by auto
next
  case (18 t x raw n x')
  from api_returns(5)[of "E\<lparr>now := t\<rparr>" q x raw] 18 E show ?case by auto
qed (simp_all add: at_inv_send at_inv_release_handle at_inv_set_command at_inv_user_callback at_inv_set_target at_inv_set_param
    at_inv_set_param_bytes at_inv_set_param_str at_inv_request_flags at_inv_simple)

lemma at_reach_inv: "user_ok E \<Longrightarrow> at_reach E x \<Longrightarrow> at_inv 1 False x"
proof (rotate_tac, induction rule: at_reach.induct)
  case (init x t r x')
  then show ?case using init_device_inv[of "E\<lparr>now := t\<rparr>" x] by auto
next
  case (step x x')
  then show ?case using at_step_inv[of E False x x'] by auto
qed


text \<open>An application whose callbacks only look at the response.\<close>

definition observer :: "u32 \<Rightarrow> 'u at_env" where
  "observer t = \<lparr>now = t, user_cb = (\<lambda>_ _ x. Some (XBEE_ATCMD_DONE, x)), user_reg = (\<lambda>_ _ _ _ x. Some x)\<rparr>"

lemma user_ok_observer: "user_ok (observer t)"
  by (simp add: user_ok_def observer_def)

interpretation observed: at_callbacks "observer t" "xbee_cmd_create 3 (observer t)" 1
  using create_level1[OF user_ok_observer, of t 1] by (simp add: numeral_3_eq_3)

section \<open>Stale handles in use\<close>

lemma create_free:
  assumes "at_inv 1 q x" "free_slot x = Some i"
  shows "xbee_cmd_create 3 E x cmd = Some (fill_slot (now E) x i cmd)"
  using assms at_invD[OF assms(1)] by (simp add: numeral_3_eq_3 Let_def)

lemma with_request_sequence:
  assumes "table_ok x" "\<And>r. sequence (f r) = sequence r" "j < 4"
  shows "sequence (table (snd (with_request x h f)) ! j) = sequence (table x ! j)"
proof (cases "xbee_cmd_handle_to_address x h")
  case (Some i)
  then show ?thesis using assms by (cases "i = j") (simp_all add: with_request_def)
qed (simp add: with_request_def)

lemma send_sequence:
  assumes "table_ok x" "j < 4" "xbee_cmd_send t x h = (r, x')"
  shows "sequence (table x' ! j) = sequence (table x ! j) +
    (if xbee_cmd_handle_to_address x h = Some j \<and> in_use (table x ! j) \<and> \<not> in_use (table x' ! j) then 1 else 0)"
proof (cases "xbee_cmd_handle_to_address x h")
  case None
  then show ?thesis using assms(3) by (simp add: xbee_cmd_send_def)
next
  case (Some i)
  then have i: "i < 4" by (simp add: handle_to_address_iff)
  show ?thesis
  proof (cases "in_use (table x ! i)")
    case False
    then show ?thesis using assms i Some by (cases "i = j") (auto simp: xbee_cmd_send_def)
  next
    case True
    obtain k where k: "xbee_next_frame_id x = (k, x\<lparr>frame_id := k\<rparr>)" using next_frame_id_eq .
    obtain f y where y: "(if callback (table x ! i) = No_callback then (0, x) else xbee_next_frame_id x) = (f, y)"
      "table y = table x"
      by (cases "callback (table x ! i) = No_callback") (simp_all add: k)
    define z where "z = upd_request i (\<lambda>r. r\<lparr>req_frame_id := f\<rparr>) y"
    let ?r = "table z ! i"
    obtain e p where w: "xbee_frame_write z (Some (request_header ?r)) (of_nat (length (request_header ?r))) (Some (param ?r))
        (ucast (param_length ?r)) = (e, z\<lparr>serport := p\<rparr>)"
      using frame_write_only_port[of z "Some (request_header ?r)" "of_nat (length (request_header ?r))" "Some (param ?r)" "ucast (param_length ?r)"]
      by (metis prod.collapse)
    have "x' \<in> {upd_request i (\<lambda>r. r\<lparr>timeout := set_timeout_sec t (if req_flags r AND XBEE_CMD_FLAG_REMOTE \<noteq> 0
          then XBEE_CMD_REMOTE_TIMEOUT else XBEE_CMD_LOCAL_TIMEOUT)\<rparr>) (z\<lparr>serport := p\<rparr>),
        snd (release_request (z\<lparr>serport := p\<rparr>) (Some i)), z\<lparr>serport := p\<rparr>}"
      using assms(3) True unfolding xbee_cmd_send_def Some option.case y(1) Let_def case_prod_conv z_def[symmetric] w
      by (auto split: if_splits)
    then show ?thesis using assms(1,2) i True Some y(2)
      by (cases "i = j") (auto simp: z_def release_request_def)
  qed
qed

text \<open>
  An application at work: it creates requests while there is a free entry, builds them, sends them and
  releases them, by whatever handles. \<open>n\<close> counts how often entry \<open>i\<close> was released, on purpose or after sending
  a request that expects no response.
\<close>

inductive handle_run :: "'u at_env \<Rightarrow> nat \<Rightarrow> nat \<Rightarrow> 'u at_dev \<Rightarrow> 'u at_dev \<Rightarrow> bool" for E i where
  start: "handle_run E i 0 x x"
| create: "handle_run E i n x y \<Longrightarrow> free_slot y \<noteq> None \<Longrightarrow> xbee_cmd_create 3 (E\<lparr>now := t\<rparr>) y cmd = Some (h, z) \<Longrightarrow>
    handle_run E i n x z"
| release: "handle_run E i n x y \<Longrightarrow>
    handle_run E i (if xbee_cmd_handle_to_address y h = Some i then Suc n else n) x (snd (xbee_cmd_release_handle y h))"
| send: "handle_run E i n x y \<Longrightarrow> xbee_cmd_send t y h = (r, z) \<Longrightarrow>
    handle_run E i (if xbee_cmd_handle_to_address y h = Some i \<and> in_use (table y ! i) \<and> \<not> in_use (table z ! i) then Suc n else n) x z"
| set_command: "handle_run E i n x y \<Longrightarrow> cmd \<noteq> (0, 0) \<Longrightarrow> handle_run E i n x (snd (xbee_cmd_set_command y h cmd))"
| set_callback: "handle_run E i n x y \<Longrightarrow> cb \<noteq> List_callback \<Longrightarrow> handle_run E i n x (snd (xbee_cmd_set_callback y h cb c))"
| set_target: "handle_run E i n x y \<Longrightarrow> a = None \<or> length (the a) = 8 \<Longrightarrow> handle_run E i n x (snd (xbee_cmd_set_target y h a net))"
| set_param: "handle_run E i n x y \<Longrightarrow> handle_run E i n x (snd (xbee_cmd_set_param y h v))"
| set_param_bytes: "handle_run E i n x y \<Longrightarrow> handle_run E i n x (snd (xbee_cmd_set_param_bytes y h bs))"
| set_param_str: "handle_run E i n x y \<Longrightarrow> handle_run E i n x (snd (xbee_cmd_set_param_str y h bs))"
| set_flags: "handle_run E i n x y \<Longrightarrow> handle_run E i n x (snd (xbee_cmd_set_flags y h fl))"
| clear_flags: "handle_run E i n x y \<Longrightarrow> handle_run E i n x (snd (xbee_cmd_clear_flags y h fl))"

lemma set_sequence:
  assumes "table_ok x" "j < 4"
  shows "sequence (table (snd (xbee_cmd_set_command x h cmd)) ! j) = sequence (table x ! j)"
    "sequence (table (snd (xbee_cmd_set_callback x h cb c)) ! j) = sequence (table x ! j)"
    "sequence (table (snd (xbee_cmd_set_target x h a net)) ! j) = sequence (table x ! j)"
    "sequence (table (snd (xbee_cmd_set_param x h v)) ! j) = sequence (table x ! j)"
    "sequence (table (snd (xbee_cmd_set_param_bytes x h bs)) ! j) = sequence (table x ! j)"
    "sequence (table (snd (xbee_cmd_set_param_str x h bs)) ! j) = sequence (table x ! j)"
    "sequence (table (snd (xbee_cmd_set_flags x h fl)) ! j) = sequence (table x ! j)"
    "sequence (table (snd (xbee_cmd_clear_flags x h fl)) ! j) = sequence (table x ! j)"
  unfolding xbee_cmd_set_command_def xbee_cmd_set_callback_def xbee_cmd_set_target_def xbee_cmd_set_param_def
    xbee_cmd_set_param_bytes_def xbee_cmd_set_param_str_def xbee_cmd_set_flags_def xbee_cmd_clear_flags_def
  using assms by (simp_all add: with_request_sequence store_param_def split: option.split)

lemma handle_run_sequence:
  assumes "handle_run E i n x x'" "at_inv 1 False x" "i < 4"
  shows "at_inv 1 False x' \<and> sequence (table x' ! i) = sequence (table x ! i) + of_nat n"
  using assms
proof (induction rule: handle_run.induct)
  case (create n x y t cmd h z)
  then obtain j where j: "free_slot y = Some j" "j < 4" using free_slot_less by blast
  have y: "at_inv 1 False y" "table_ok y" using create at_inv_table by blast+
  then have "z = snd (fill_slot t y j cmd)" using create_free[OF y(1) j(1), of "E\<lparr>now := t\<rparr>" cmd] create(3) by (cases "fill_slot t y j cmd") simp
  with create j y show ?case
    using at_inv_fill[OF y(1) j(2), of t cmd] by (cases "j = i") (auto simp: fill_slot_def)
next
  case (release n x y h)
  then have y: "at_inv 1 False y" "table_ok y" using at_inv_table by blast+
  have "sequence (table (snd (xbee_cmd_release_handle y h)) ! i) =
      sequence (table y ! i) + (if xbee_cmd_handle_to_address y h = Some i then 1 else 0)"
    using y(2) release(4) by (auto simp: xbee_cmd_release_handle_def release_request_def split: option.split)
  with release at_inv_release_handle[OF y(1), of h] show ?case by simp
next
  case (send n x y t h r z)
  then have y: "at_inv 1 False y" "table_ok y" using at_inv_table by blast+
  from send send_sequence[OF y(2) send(5,2)] at_inv_send[OF y(1), of t h] show ?case by simp
qed (simp_all add: set_sequence[OF at_inv_table[of 1 False]] at_inv_set_command at_inv_user_callback at_inv_set_target at_inv_set_param
    at_inv_set_param_bytes at_inv_set_param_str at_inv_request_flags)

text \<open>
  C10: handles expire. While an application creates requests (there being free entries), builds, sends and
  releases them in any order, let \<open>n\<close> be the number of times entry \<open>i\<close> was released, however often it was
  given out again in between. Then a handle that named the entry at first still does if \<open>n\<close> is a multiple of
  256, as the sequence number has eight bits; else every function refuses it and changes nothing.
\<close>

theorem xbee_cmd_handle_expires:
  assumes "at_inv 1 False x" "i < 4" "h = request_handle x i" "handle_run E i n x x'"
  shows "xbee_cmd_handle_to_address x' h = (if 256 dvd n then Some i else None) \<and>
    (\<not> 256 dvd n \<longrightarrow>
      xbee_cmd_send t x' h = (- EINVAL, x') \<and> xbee_cmd_release_handle x' h = (- EINVAL, x') \<and>
      xbee_cmd_set_command x' h cmd = (- EINVAL, x') \<and> xbee_cmd_set_callback x' h cb ctx = (- EINVAL, x') \<and>
      xbee_cmd_set_target x' h a net = (- EINVAL, x') \<and> xbee_cmd_set_param x' h v = (- EINVAL, x') \<and>
      xbee_cmd_set_flags x' h fl = (- EINVAL, x') \<and> xbee_cmd_clear_flags x' h fl = (- EINVAL, x') \<and>
      (length bs \<le> 48 \<longrightarrow> xbee_cmd_set_param_bytes x' h bs = (- EINVAL, x') \<and> xbee_cmd_set_param_str x' h bs = (- EINVAL, x')))"
proof -
  have seq: "sequence (table x' ! i) = sequence (table x ! i) + of_nat n"
    using handle_run_sequence[OF assms(4,1,2)] by simp
  have zero: "(of_nat n :: u8) = 0 \<longleftrightarrow> 256 dvd n"
    by (simp add: word_of_nat_eq_0_iff)
  have "xbee_cmd_handle_to_address x' h = Some i" if "256 dvd n"
    using that seq zero assms(2,3) by (simp add: handle_to_address_iff request_handle_def)
  moreover have none: "xbee_cmd_handle_to_address x' h = None" if "\<not> 256 dvd n"
  proof (rule ccontr)
    assume "xbee_cmd_handle_to_address x' h \<noteq> None"
    then obtain j where j: "h = request_handle x' j" by (auto simp: handle_to_address_iff)
    then have "int j = int i" "uint (sequence (table x' ! j)) = uint (sequence (table x ! i))"
      using handle_div_mod[of j "sequence (table x' ! j)"] handle_div_mod[of i "sequence (table x ! i)"] assms(3)
      by (simp_all only: request_handle_def)
    then have "sequence (table x' ! i) = sequence (table x ! i)" by (simp add: word_uint_eq_iff)
    with seq zero that show False by simp
  qed
  ultimately show ?thesis using no_request_refused[OF none] by simp
qed

text \<open>Entry 0 is given out, released and given out again: the first handle is refused.\<close>

definition demo_at :: "unit at_dev" where
  "demo_at = demo_cmd\<lparr>dev_flags := 1, app := demo_app\<lparr>create_initialized := 1\<rparr>\<rparr>"

lemma demo_at_ok: "at_inv 1 False demo_at" "free_slot demo_at = Some 0" "request_handle demo_at 0 = 0" "table demo_at = replicate 4 zero_request"
proof -
  show t: "table demo_at = replicate 4 zero_request" by (simp add: demo_at_def demo_app_def)
  then have "table_ok demo_at" by (simp add: table_ok_def)
  then show "at_inv 1 False demo_at"
    using t by (auto simp: at_inv_def list_entry_ok_def zero_request_def) (simp_all add: demo_at_def)
  show "free_slot demo_at = Some 0" "request_handle demo_at 0 = 0"
    by (simp_all add: free_slot_def request_handle_def t zero_request_def upt_rec)
qed

theorem xbee_cmd_handle_expires_witness:
  "\<exists>x1 x3. xbee_cmd_create 3 (observer 0) demo_at (at_cmd ''NI'') = Some (0, x1) \<and>
     xbee_cmd_create 3 (observer 0) (snd (xbee_cmd_release_handle x1 0)) (at_cmd ''SH'') = Some (1, x3) \<and>
     xbee_cmd_handle_to_address x3 0 = None \<and> xbee_cmd_send 0 x3 0 = (- EINVAL, x3)"
proof -
  define x1 where "x1 = snd (fill_slot 0 demo_at 0 (at_cmd ''NI''))"
  have o: "(observer 0)\<lparr>now := 0\<rparr> = (observer 0 :: unit at_env)" "now (observer 0 :: unit at_env) = 0" by (simp_all add: observer_def)
  have c1: "xbee_cmd_create 3 (observer 0) demo_at (at_cmd ''NI'') = Some (0, x1)"
    using create_free[OF demo_at_ok(1,2), of "observer 0" "at_cmd ''NI''"] demo_at_ok(3) by (simp add: x1_def fill_slot_def o)
  define x2 where "x2 = snd (xbee_cmd_release_handle x1 0)"
  have t1: "xbee_cmd_handle_to_address x1 0 = Some 0"
    by (simp add: xbee_cmd_handle_to_address_def x1_def fill_slot_def demo_at_ok(4) zero_request_def)
  have x2: "x2 = upd_request 0 (\<lambda>r. r\<lparr>in_use := False, sequence := sequence r + 1\<rparr>) x1"
    by (simp add: x2_def xbee_cmd_release_handle_def t1 release_request_def)
  have f2: "free_slot x2 = Some 0" "request_handle x2 0 = 1"
    by (simp_all add: x2 x1_def fill_slot_def demo_at_ok(4) free_slot_def request_handle_def zero_request_def upt_rec)
  have r1: "handle_run (observer 0) 0 0 demo_at x1"
    by (rule handle_run.create[OF handle_run.start, where t = 0 and cmd = "at_cmd ''NI''" and h = 0]) (simp_all add: demo_at_ok(2) o c1)
  have r2: "handle_run (observer 0) 0 1 demo_at x2"
    using handle_run.release[OF r1, of 0] t1 by (simp add: x2_def)
  have inv2: "at_inv 1 False x2" using handle_run_sequence[OF r2 demo_at_ok(1)] by simp
  define x3 where "x3 = snd (fill_slot 0 x2 0 (at_cmd ''SH''))"
  have c3: "xbee_cmd_create 3 (observer 0) x2 (at_cmd ''SH'') = Some (1, x3)"
    using create_free[OF inv2 f2(1), of "observer 0" "at_cmd ''SH''"] f2(2) by (simp add: x3_def fill_slot_def o)
  have r3: "handle_run (observer 0) 0 1 demo_at x3"
    by (rule handle_run.create[OF r2, where t = 0 and cmd = "at_cmd ''SH''" and h = 1]) (simp_all add: f2 o c3)
  from xbee_cmd_handle_expires[OF demo_at_ok(1) _ refl r3, of 0] demo_at_ok(3) c1 c3 show ?thesis
    by (auto simp: x2_def)
qed

lemma demo_fresh: "at_fresh demo_cmd"
  by (simp add: at_fresh_def demo_cmd_ok(5) demo_app_def) (simp add: demo_cmd_def xbee_dev_init_def split_beta)


end
