(* ===== verification/Xbee_Io.thy ===== *)
theory Xbee_Io
  imports Xbee_Atcmd_Inv
begin

text \<open>
  \<open>src/Software/lib/XBee/src/xbee/xbee_io.c\<close>: the pins of a module. A structure \<open>xbee_io_t\<close> is a
  shadow of the module's pins: I/O samples update it, and configuring a pin or setting an output
  changes it and sends an AT command. Its registers are read by a command list that stores into the
  structure by offset, so the structure is an object in memory: the number \<open>k\<close> of the object is the
  pointer and \<open>None\<close> the null pointer. The device pointer is never null. The result \<open>None\<close> means
  undefined behaviour: a shift by 32 or more, or a read after the end of the received data.
\<close>

section \<open>The structure\<close>

record xbee_io_t =
  din_enabled :: u16
  dout_enabled :: u16
  din_state :: u16
  dout_state :: u16
  pullup_state :: u16
  pulldown_state :: u16
  analog_enabled :: u8
  adc_sample :: "u16 list"
  sample_rate :: u16
  change_mask :: u16
  config :: bytes
  pullup_enable :: u16
  pullup_direction :: u16
  pwm0_level :: u16
  pwm1_level :: u16
  pwm_timeout :: u8
  tx_samples :: u8

abbreviation (input) XBEE_IO_TYPE_DISABLED :: "'a::len word" where "XBEE_IO_TYPE_DISABLED \<equiv> 0"
abbreviation (input) XBEE_IO_TYPE_SPECIAL :: "'a::len word" where "XBEE_IO_TYPE_SPECIAL \<equiv> 1"
abbreviation (input) XBEE_IO_TYPE_ANALOG_INPUT :: "'a::len word" where "XBEE_IO_TYPE_ANALOG_INPUT \<equiv> 2"
abbreviation (input) XBEE_IO_TYPE_DIGITAL_INPUT :: "'a::len word" where "XBEE_IO_TYPE_DIGITAL_INPUT \<equiv> 3"
abbreviation (input) XBEE_IO_TYPE_DIGITAL_OUTPUT_LOW :: "'a::len word" where "XBEE_IO_TYPE_DIGITAL_OUTPUT_LOW \<equiv> 4"
abbreviation (input) XBEE_IO_TYPE_DIGITAL_OUTPUT_HIGH :: "'a::len word" where "XBEE_IO_TYPE_DIGITAL_OUTPUT_HIGH \<equiv> 5"
abbreviation (input) XBEE_IO_TYPE_TXEN_ACTIVE_HIGH :: "'a::len word" where "XBEE_IO_TYPE_TXEN_ACTIVE_HIGH \<equiv> 7"
abbreviation (input) XBEE_IO_TYPE_MASK :: u32 where "XBEE_IO_TYPE_MASK \<equiv> 0x0F"
abbreviation (input) XBEE_IO_FORCE :: u32 where "XBEE_IO_FORCE \<equiv> 0x80"
abbreviation (input) XBEE_IO_SET_LOW :: u32 where "XBEE_IO_SET_LOW \<equiv> 4"
abbreviation (input) XBEE_IO_SET_HIGH :: u32 where "XBEE_IO_SET_HIGH \<equiv> 5"
abbreviation (input) XBEE_IO_ANALOG_INVALID :: int where "XBEE_IO_ANALOG_INVALID \<equiv> - 32768"
abbreviation (input) XBEE_IO_MIN_SAMPLE_PERIOD :: u16 where "XBEE_IO_MIN_SAMPLE_PERIOD \<equiv> 50"
abbreviation (input) EPERM :: int where "EPERM \<equiv> 1"

text \<open>
  The structure in memory on 64-bit POSIX systems: 24 bytes for the list context, which the model
  keeps apart, the fields from there, and four bytes at the end.
\<close>

definition mem16 :: "bytes \<Rightarrow> nat \<Rightarrow> u16" where
  "mem16 m i = be16_of (m ! (i + 1)) (m ! i)"

definition io_decode :: "bytes \<Rightarrow> xbee_io_t" where
  "io_decode m = \<lparr>din_enabled = mem16 m 24, dout_enabled = mem16 m 26, din_state = mem16 m 28, dout_state = mem16 m 30,
     pullup_state = mem16 m 32, pulldown_state = mem16 m 34, analog_enabled = m ! 36,
     adc_sample = map (\<lambda>i. mem16 m (38 + 2 * i)) [0..<8], sample_rate = mem16 m 54, change_mask = mem16 m 56,
     config = take 16 (drop 58 m), pullup_enable = mem16 m 74, pullup_direction = mem16 m 76,
     pwm0_level = mem16 m 78, pwm1_level = mem16 m 80, pwm_timeout = m ! 82, tx_samples = m ! 83\<rparr>"

definition io_fields :: "u8 \<Rightarrow> xbee_io_t \<Rightarrow> bytes" where
  "io_fields pad io =
     le16_bytes (din_enabled io) @ le16_bytes (dout_enabled io) @ le16_bytes (din_state io) @ le16_bytes (dout_state io) @
     le16_bytes (pullup_state io) @ le16_bytes (pulldown_state io) @ [analog_enabled io, pad] @
     concat (map le16_bytes (adc_sample io)) @ le16_bytes (sample_rate io) @ le16_bytes (change_mask io) @ config io @
     le16_bytes (pullup_enable io) @ le16_bytes (pullup_direction io) @ le16_bytes (pwm0_level io) @
     le16_bytes (pwm1_level io) @ [pwm_timeout io, tx_samples io]"

definition io_encode :: "bytes \<Rightarrow> xbee_io_t \<Rightarrow> bytes" where
  "io_encode m io = take 24 m @ io_fields (m ! 37) io @ drop 84 m"

definition io_read :: "'u at_dev \<Rightarrow> nat \<Rightarrow> xbee_io_t" where
  "io_read x k = io_decode (objects (app x) k)"

definition upd_io :: "nat \<Rightarrow> (xbee_io_t \<Rightarrow> xbee_io_t) \<Rightarrow> 'u at_dev \<Rightarrow> 'u at_dev" where
  "upd_io k f x = x\<lparr>app := (app x)\<lparr>objects := (objects (app x))(k := io_encode (objects (app x) k) (f (io_read x k)))\<rparr>\<rparr>"

section \<open>Samples\<close>

text \<open>A 16-bit load from the received data.\<close>

definition load_be16 :: "bytes \<Rightarrow> (u16 \<times> bytes) option" where
  "load_be16 p = (case p of a # b # rest \<Rightarrow> Some (be16_of a b, rest) | _ \<Rightarrow> None)"

text \<open>The loop over the analog channels; the list has the channels that are left.\<close>

fun adc_loop :: "u8 \<Rightarrow> nat list \<Rightarrow> bytes \<Rightarrow> u16 list \<Rightarrow> u16 list option" where
  "adc_loop en [] p adc = Some adc"
| "adc_loop en (i # is) p adc =
     (if ucast en AND (push_bit i 1 :: u16) \<noteq> 0 then do {
        (w, p) \<leftarrow> load_be16 p;
        adc_loop en is p (adc[i := w]) }
      else adc_loop en is p adc)"

definition xbee_io_response_parse :: "xbee_io_t option \<Rightarrow> bytes option \<Rightarrow> (int \<times> xbee_io_t option) option" where
  "xbee_io_response_parse parsed source =
     (case (parsed, source) of
        (Some io, Some p) \<Rightarrow> do {
          n \<leftarrow> nth_opt p 0;
          if n \<noteq> 1 then Some (- EINVAL, Some io)
          else do {
            (dmask, p) \<leftarrow> load_be16 (tl p);
            let io = io\<lparr>din_enabled := dmask AND NOT (dout_enabled io)\<rparr>;
            en \<leftarrow> nth_opt p 0;
            let p = tl p;
            let io = io\<lparr>analog_enabled := en\<rparr>;
            let amask = NOT (ucast (analog_enabled io) AND 0x0F);
            let io = io\<lparr>dout_enabled := dout_enabled io AND amask\<rparr>;
            let io = io\<lparr>din_enabled := din_enabled io AND amask\<rparr>;
            (io, p) \<leftarrow>
              (if dmask \<noteq> 0 then do {
                 (dsamp, p) \<leftarrow> load_be16 p;
                 let io = io\<lparr>din_state := din_state io AND NOT (din_enabled io)\<rparr>;
                 let io = io\<lparr>din_state := din_state io OR (din_enabled io AND dsamp)\<rparr>;
                 let io = io\<lparr>dout_state := dout_state io AND NOT (dout_enabled io)\<rparr>;
                 let io = io\<lparr>dout_state := dout_state io OR (dout_enabled io AND dsamp)\<rparr>;
                 Some (io, p) }
               else Some (io, p));
            if analog_enabled io \<noteq> 0 then do {
              adc \<leftarrow> adc_loop (analog_enabled io) [0..<8] p (adc_sample io);
              Some (0, Some (io\<lparr>adc_sample := adc\<rparr>)) }
            else Some (0, Some io) } }
      | _ \<Rightarrow> Some (- EINVAL, parsed))"

section \<open>Reading the shadow\<close>

text \<open>\<open>uint16_t m = 1u << index\<close>: the shift is undefined from 32 on, and the mask is 0 from 16 on.\<close>

definition pin_mask :: "u8 \<Rightarrow> u16 option" where
  "pin_mask index = (if index < 32 then Some (ucast (push_bit (unat index) 1 :: u32)) else None)"

definition xbee_io_get_digital_input :: "xbee_io_t option \<Rightarrow> u8 \<Rightarrow> int option" where
  "xbee_io_get_digital_input io index = do {
     m \<leftarrow> pin_mask index;
     Some (case io of
         Some io \<Rightarrow> if m AND din_enabled io \<noteq> 0 then of_bool (m AND din_state io \<noteq> 0) else - EINVAL
       | None \<Rightarrow> - EINVAL) }"

definition xbee_io_get_digital_output :: "xbee_io_t option \<Rightarrow> u8 \<Rightarrow> int option" where
  "xbee_io_get_digital_output io index = do {
     m \<leftarrow> pin_mask index;
     Some (case io of
         Some io \<Rightarrow> if m AND dout_enabled io \<noteq> 0 then of_bool (m AND dout_state io \<noteq> 0) else - EINVAL
       | None \<Rightarrow> - EINVAL) }"

definition xbee_io_get_analog_input :: "xbee_io_t option \<Rightarrow> u8 \<Rightarrow> int option" where
  "xbee_io_get_analog_input io index = do {
     m \<leftarrow> pin_mask index;
     Some (case io of
         Some io \<Rightarrow> if m AND ucast (analog_enabled io) \<noteq> 0 then sint (push_bit 5 (adc_sample io ! unat index))
                    else XBEE_IO_ANALOG_INVALID
       | None \<Rightarrow> XBEE_IO_ANALOG_INVALID) }"

section \<open>Changing pins\<close>

definition xbee_io_cmd_by_index :: "at_cmd list" where
  "xbee_io_cmd_by_index = map at_cmd [''D0'', ''D1'', ''D2'', ''D3'', ''D4'', ''D5''] @ [(0, 0), (0, 0)] @
     [at_cmd ''D8'', (0, 0)] @ map at_cmd [''P0'', ''P1'', ''P2'', ''P3''] @ [(0, 0), (0, 0)]"

text \<open>The steps that every function takes to send a command; the results of all but the first are ignored.\<close>

definition io_command :: "'u at_env \<Rightarrow> 'u at_dev \<Rightarrow> at_cmd \<Rightarrow> u32 \<Rightarrow> wpan_address_t option \<Rightarrow> (int \<times> 'u at_dev) option" where
  "io_command E x cmd value addr = do {
     (request, x) \<leftarrow> xbee_cmd_create 3 E x cmd;
     if request < 0 then Some (request, x)
     else do {
       let x = snd (xbee_cmd_set_param x request value);
       let x = (case addr of Some a \<Rightarrow> snd (xbee_cmd_set_target x request (Some (ieee a)) (network a)) | None \<Rightarrow> x);
       let x = snd (xbee_cmd_send (now E) x request);
       Some (request, x) } }"

definition xbee_io_set_digital_output ::
  "'u at_env \<Rightarrow> 'u at_dev \<Rightarrow> nat option \<Rightarrow> u8 \<Rightarrow> u32 \<Rightarrow> wpan_address_t option \<Rightarrow> (int \<times> 'u at_dev) option" where
  "xbee_io_set_digital_output E x io index state addr = do {
     m \<leftarrow> pin_mask index;
     let force = state AND XBEE_IO_FORCE \<noteq> 0;
     let state = state AND XBEE_IO_TYPE_MASK;
     case io of
       None \<Rightarrow> Some (- EINVAL, x)
     | Some k \<Rightarrow>
         if m = 0 \<or> (state \<noteq> XBEE_IO_SET_LOW \<and> state \<noteq> XBEE_IO_SET_HIGH) then Some (- EINVAL, x)
         else do {
           let cmd = xbee_io_cmd_by_index ! unat index;
           if cmd = (0, 0) \<or> (\<not> force \<and> dout_enabled (io_read x k) AND m = 0) then Some (- EINVAL, x)
           else do {
             let next_state = dout_state (io_read x k) AND NOT m;
             let next_state = (if state = XBEE_IO_SET_HIGH then next_state OR m else next_state);
             (request, x) \<leftarrow>
               (if force \<or> dout_state (io_read x k) \<noteq> next_state then do {
                  (request, x) \<leftarrow> io_command E x cmd state addr;
                  Some (request, if request < 0 then x
                     else upd_io k (\<lambda>io. io\<lparr>config := (config io)[unat index := ucast state]\<rparr>) x) }
                else Some (0, x));
             Some (if request < 0 then (request, x)
                   else (of_bool (state = XBEE_IO_SET_HIGH),
                         upd_io k (\<lambda>io. io\<lparr>dout_state := next_state, dout_enabled := dout_enabled io OR m\<rparr>) x)) } } }"

text \<open>The shadow after a pin has been configured.\<close>

definition configure_shadow :: "u8 \<Rightarrow> u16 \<Rightarrow> u32 \<Rightarrow> xbee_io_t \<Rightarrow> xbee_io_t" where
  "configure_shadow index m type io = (
     let io = io\<lparr>config := (config io)[unat index := ucast type]\<rparr>;
         not_m = NOT m;
         io = io\<lparr>din_enabled := din_enabled io AND not_m, dout_enabled := dout_enabled io AND not_m,
                 analog_enabled := ucast (ucast (analog_enabled io) AND not_m), dout_state := dout_state io AND not_m\<rparr>
     in if type = XBEE_IO_TYPE_ANALOG_INPUT then io\<lparr>analog_enabled := ucast (ucast (analog_enabled io) OR m)\<rparr>
        else if type = XBEE_IO_TYPE_DIGITAL_INPUT then io\<lparr>din_enabled := din_enabled io OR m\<rparr>
        else if type = XBEE_IO_TYPE_DIGITAL_OUTPUT_LOW then io\<lparr>dout_enabled := dout_enabled io OR m\<rparr>
        else if type = XBEE_IO_TYPE_DIGITAL_OUTPUT_HIGH then
          io\<lparr>dout_enabled := dout_enabled io OR m, dout_state := dout_state io OR m\<rparr>
        else io)"

definition xbee_io_configure ::
  "'u at_env \<Rightarrow> 'u at_dev \<Rightarrow> nat option \<Rightarrow> u8 \<Rightarrow> u32 \<Rightarrow> wpan_address_t option \<Rightarrow> (int \<times> 'u at_dev) option" where
  "xbee_io_configure E x io index type addr = do {
     m \<leftarrow> pin_mask index;
     let force = type AND XBEE_IO_FORCE \<noteq> 0;
     let type = type AND XBEE_IO_TYPE_MASK;
     case io of
       None \<Rightarrow> Some (- EINVAL, x)
     | Some k \<Rightarrow>
         if m = 0 then Some (- EINVAL, x)
         else if type > XBEE_IO_TYPE_TXEN_ACTIVE_HIGH \<or> (type > XBEE_IO_TYPE_DIGITAL_OUTPUT_HIGH \<and> index \<noteq> 7) \<or>
           (type = XBEE_IO_TYPE_ANALOG_INPUT \<and> index \<ge> 4) \<or>
           (type = XBEE_IO_TYPE_SPECIAL \<and> (index \<ge> 11 \<or> (index \<ge> 1 \<and> index < 5)))
         then Some (- EPERM, x)
         else do {
           let cmd = xbee_io_cmd_by_index ! unat index;
           if cmd = (0, 0) then Some (- EINVAL, x)
           else if force \<or> ucast (config (io_read x k) ! unat index) \<noteq> type then do {
             (request, x) \<leftarrow> io_command E x cmd type addr;
             Some (if request < 0 then (request, x) else (0, upd_io k (configure_shadow index m type) x)) }
           else Some (0, x) } }"

definition xbee_io_set_options ::
  "'u at_env \<Rightarrow> 'u at_dev \<Rightarrow> nat option \<Rightarrow> u16 \<Rightarrow> u16 \<Rightarrow> wpan_address_t option \<Rightarrow> (int \<times> 'u at_dev) option" where
  "xbee_io_set_options E x io rate changes addr =
     (case io of
        None \<Rightarrow> Some (- EINVAL, x)
      | Some k \<Rightarrow>
          if rate \<noteq> 0 \<and> rate < XBEE_IO_MIN_SAMPLE_PERIOD then Some (- EPERM, x)
          else do {
            (request, x) \<leftarrow>
              (if rate \<noteq> sample_rate (io_read x k) then do {
                 (request, x) \<leftarrow> io_command E x (at_cmd ''IR'') (ucast rate) addr;
                 Some (request, if request < 0 then x else upd_io k (\<lambda>io. io\<lparr>sample_rate := rate\<rparr>) x) }
               else Some (0, x));
            if request < 0 then Some (request, x)
            else if changes \<noteq> change_mask (io_read x k) then do {
              (request, x) \<leftarrow> io_command E x (at_cmd ''IC'') (ucast changes) addr;
              Some (if request < 0 then (request, x) else (0, upd_io k (\<lambda>io. io\<lparr>change_mask := changes\<rparr>) x)) }
            else Some (0, x) })"

section \<open>Querying the pins\<close>

definition pullup_atcmd_to_iomask :: "u16 list" where
  "pullup_atcmd_to_iomask = [push_bit 4 1, push_bit 3 1, push_bit 2 1, push_bit 1 1, push_bit 0 1, push_bit 6 1, push_bit 8 1, 0,
     push_bit 5 1, push_bit 9 1, push_bit 12 1, push_bit 10 1, push_bit 11 1, push_bit 7 1, 0, 0]"

definition pullup_step :: "u16 \<Rightarrow> xbee_io_t \<Rightarrow> nat \<Rightarrow> xbee_io_t" where
  "pullup_step value io i = (
     let pmask = pullup_atcmd_to_iomask ! i in
     if pmask \<noteq> 0 then
       (if value AND push_bit i 1 \<noteq> 0 then io\<lparr>pullup_state := pullup_state io OR pmask\<rparr>
        else io\<lparr>pullup_state := pullup_state io AND NOT pmask\<rparr>)
     else io)"

definition io_query_handle_pr :: "xbee_cmd_response_t \<Rightarrow> xbee_io_t \<Rightarrow> xbee_io_t" where
  "io_query_handle_pr response io = foldl (pullup_step (ucast (resp_value response))) io [0..<16]"

definition config_step :: "xbee_io_t \<Rightarrow> nat \<Rightarrow> xbee_io_t" where
  "config_step io i = (
     let imask = push_bit i 1 :: u16;
         nimask = NOT imask;
         io = io\<lparr>din_enabled := din_enabled io AND nimask, dout_enabled := dout_enabled io AND nimask,
                 analog_enabled := ucast (ucast (analog_enabled io) AND nimask)\<rparr>;
         c = config io ! i
     in if c = XBEE_IO_TYPE_ANALOG_INPUT then io\<lparr>analog_enabled := ucast (ucast (analog_enabled io) OR imask)\<rparr>
        else if c = XBEE_IO_TYPE_DIGITAL_INPUT then io\<lparr>din_enabled := din_enabled io OR imask\<rparr>
        else if c = XBEE_IO_TYPE_DIGITAL_OUTPUT_LOW then
          io\<lparr>dout_enabled := dout_enabled io OR imask, dout_state := dout_state io AND nimask\<rparr>
        else if c = XBEE_IO_TYPE_DIGITAL_OUTPUT_HIGH then
          io\<lparr>dout_enabled := dout_enabled io OR imask, dout_state := dout_state io OR imask\<rparr>
        else io)"

definition io_query_handle_end :: "xbee_io_t \<Rightarrow> xbee_io_t" where
  "io_query_handle_end io = foldl config_step io [0..<16]"

text \<open>The two callbacks of the list, as functions of the application with the numbers 0 and 1.\<close>

definition io_user_reg ::
  "nat \<Rightarrow> xbee_cmd_response_t \<Rightarrow> xbee_atcmd_reg_t option \<Rightarrow> list_base \<Rightarrow> 'u at_dev \<Rightarrow> 'u at_dev option" where
  "io_user_reg cb response reg base x =
     (case base of
        Base_obj k \<Rightarrow> Some (if cb = 0 then upd_io k (io_query_handle_pr response) x else upd_io k io_query_handle_end x)
      | Base_xbee \<Rightarrow> None)"

definition io_query_regs :: "xbee_atcmd_reg_t list" where
  "io_query_regs =
     [XBEE_ATCMD_REG ''D0'' XBEE_CLT_COPY 1 58, XBEE_ATCMD_REG ''D1'' XBEE_CLT_COPY 1 59,
      XBEE_ATCMD_REG ''D2'' XBEE_CLT_COPY 1 60, XBEE_ATCMD_REG ''D3'' XBEE_CLT_COPY 1 61,
      XBEE_ATCMD_REG ''D4'' XBEE_CLT_COPY 1 62, XBEE_ATCMD_REG ''D5'' XBEE_CLT_COPY 1 63,
      XBEE_ATCMD_REG ''D6'' XBEE_CLT_COPY 1 64, XBEE_ATCMD_REG ''D7'' XBEE_CLT_COPY 1 65,
      XBEE_ATCMD_REG ''P0'' XBEE_CLT_COPY 1 68, XBEE_ATCMD_REG ''P1'' XBEE_CLT_COPY 1 69,
      XBEE_ATCMD_REG ''P2'' XBEE_CLT_COPY 1 70, XBEE_ATCMD_REG_CB ''PR'' (Reg_user 0) 0,
      XBEE_ATCMD_REG ''IR'' XBEE_CLT_COPY_BE 2 54, XBEE_ATCMD_REG ''IC'' XBEE_CLT_COPY_BE 2 56,
      XBEE_ATCMD_REG_END_CB (Reg_user 1) 0]"

text \<open>The list context at the start of object \<open>k\<close> has number \<open>k + 1\<close>.\<close>

definition xbee_io_query_status :: "'u at_env \<Rightarrow> 'u at_dev \<Rightarrow> nat option \<Rightarrow> (int \<times> 'u at_dev) option" where
  "xbee_io_query_status E x io =
     (case io of
        None \<Rightarrow> Some (- EINVAL, x)
      | Some k \<Rightarrow> do { (_, x) \<leftarrow> xbee_cmd_tick E x; Some (xbee_cmd_list_status x (k + 1), x) })"

definition xbee_io_query :: "'u at_env \<Rightarrow> 'u at_dev \<Rightarrow> nat option \<Rightarrow> wpan_address_t option \<Rightarrow> (int \<times> 'u at_dev) option" where
  "xbee_io_query E x io addr =
     (case io of
        None \<Rightarrow> Some (- EINVAL, x)
      | Some k \<Rightarrow> do {
          (st, x) \<leftarrow> xbee_io_query_status E x (Some k);
          if st = - EBUSY then Some (- EBUSY, x)
          else xbee_cmd_list_execute E (xbee_cmd_create 3 E) x (k + 1) io_query_regs (Base_obj k) addr })"

section \<open>The structure in memory\<close>

definition io_wf :: "xbee_io_t \<Rightarrow> bool" where
  "io_wf io \<longleftrightarrow> length (adc_sample io) = 8 \<and> length (config io) = 16"

lemma length16_cases:
  assumes "length xs = 8"
  obtains a b c d e f g h where "xs = [a, b, c, d, e, f, g, h]"
  using assms by (auto simp: numeral_eq_Suc length_Suc_conv)

lemma length_io_encode [simp]: "length m = 88 \<Longrightarrow> io_wf io \<Longrightarrow> length (io_encode m io) = 88"
  by (auto simp: io_encode_def io_fields_def io_wf_def le16_bytes_def length_concat comp_def sum_list_triv)

lemma nth_skip: "length xs = n \<Longrightarrow> n \<le> i \<Longrightarrow> (xs @ ys) ! i = ys ! (i - n)"
  by (simp add: nth_append)

lemma io_decode_encode [simp]:
  assumes "length m = 88" "io_wf io"
  shows "io_decode (io_encode m io) = io"
proof -
  obtain a b c d e f g h where "adc_sample io = [a, b, c, d, e, f, g, h]"
    using assms(2) by (auto simp: io_wf_def elim: length16_cases)
  then show ?thesis using assms
    by (cases io) (simp add: io_decode_def io_encode_def io_fields_def io_wf_def mem16_def le16_bytes_def be16_bytes_def
      nth_skip upt_rec byte_simps)
qed

lemma io_wf_decode [simp]: "length m = 88 \<Longrightarrow> io_wf (io_decode m)"
  by (simp add: io_wf_def io_decode_def)

text \<open>Object \<open>k\<close> has the size of the structure.\<close>

definition io_obj :: "'u at_dev \<Rightarrow> nat \<Rightarrow> bool" where
  "io_obj x k \<longleftrightarrow> length (objects (app x) k) = 88"

lemma io_wf_read [simp]: "io_obj x k \<Longrightarrow> io_wf (io_read x k)"
  by (simp add: io_obj_def io_read_def)

lemma io_read_upd [simp]:
  "io_obj x k \<Longrightarrow> io_wf (f (io_read x k)) \<Longrightarrow> io_read (upd_io k f x) k = f (io_read x k)"
  "j \<noteq> k \<Longrightarrow> io_read (upd_io k f x) j = io_read x j"
  by (simp_all add: io_obj_def io_read_def upd_io_def)

lemma io_obj_upd [simp]: "io_obj x k \<Longrightarrow> io_wf (f (io_read x k)) \<Longrightarrow> io_obj (upd_io k f x) j = io_obj x j"
  by (simp add: io_obj_def upd_io_def)

lemma upd_io_simps [simp]:
  "table (upd_io k f x) = table x" "serport (upd_io k f x) = serport x" "dev_flags (upd_io k f x) = dev_flags x"
  "lists (upd_io k f x) = lists x" "create_initialized (app (upd_io k f x)) = create_initialized (app x)"
  "can_send (upd_io k f x) = can_send x"
  by (simp_all add: upd_io_def can_send_def)

section \<open>Pins as bits\<close>

lemma and_pin_bit: "(w :: 'a::len word) AND push_bit i 1 \<noteq> 0 \<longleftrightarrow> bit w i" "push_bit i 1 AND w \<noteq> 0 \<longleftrightarrow> bit w i"
  by (simp_all add: bit_iff_and_push_bit_not_eq_0 and.commute)

lemma pin_mask_less: "i < 16 \<Longrightarrow> pin_mask i = Some (push_bit (unat i) 1)"
proof -
  assume i: "i < 16"
  then have "i < 32" by (rule order_less_trans) simp
  moreover have "(ucast (push_bit (unat i) 1 :: u32) :: u16) = push_bit (unat i) 1"
    using i by (intro bit_word_eqI) (auto simp: bit_simps)
  ultimately show ?thesis by (simp add: pin_mask_def)
qed

lemma pin_mask_big: "16 \<le> i \<Longrightarrow> i < 32 \<Longrightarrow> pin_mask i = Some 0"
proof -
  assume i: "16 \<le> i" "i < 32"
  then have "16 \<le> unat i" by (simp add: word_le_nat_alt)
  then have "(ucast (push_bit (unat i) 1 :: u32) :: u16) = 0" by (intro bit_word_eqI) (auto simp: bit_simps)
  then show ?thesis using i by (simp add: pin_mask_def)
qed

section \<open>The sample of a module\<close>

text \<open>
  The data of an I/O sample as the module sends it: one sample, the digital pins that are sampled,
  the analog channels, the states of the digital pins if there are any, and a reading for every
  analog channel.
\<close>

definition io_sample :: "u16 \<Rightarrow> u16 \<Rightarrow> u8 \<Rightarrow> (nat \<Rightarrow> u16) \<Rightarrow> bytes" where
  "io_sample dmask dsamp en a = 1 # be16_bytes dmask @ [en] @ (if dmask \<noteq> 0 then be16_bytes dsamp else []) @
     concat (map (\<lambda>i. if bit en i then be16_bytes (a i) else []) [0..<8])"

lemma load_be16 [simp]: "load_be16 (be16_bytes w @ p) = Some (w, p)"
  by (simp add: load_be16_def be16_bytes_def byte_simps)

lemma adc_loop_reads:
  assumes "distinct is" "\<forall>i \<in> set is. i < length adc"
  shows "\<exists>adc'. adc_loop en is (concat (map (\<lambda>i. if bit en i then be16_bytes (a i) else []) is) @ p) adc = Some adc' \<and>
    length adc' = length adc \<and> (\<forall>i. adc' ! i = (if i \<in> set is \<and> bit en i then a i else adc ! i))"
  using assms
proof (induction "is" arbitrary: adc)
  case (Cons i "is")
  have b: "(ucast en :: u16) AND push_bit i 1 \<noteq> 0 \<longleftrightarrow> bit en i"
    unfolding and_pin_bit by (auto simp: bit_simps dest: bit_word_lt)
  let ?adc = "if bit en i then adc[i := a i] else adc"
  have "distinct is" "\<forall>j \<in> set is. j < length ?adc" using Cons.prems by auto
  from Cons.IH[OF this] obtain adc' where
    r: "adc_loop en is (concat (map (\<lambda>i. if bit en i then be16_bytes (a i) else []) is) @ p) ?adc = Some adc'"
    "length adc' = length ?adc" "\<forall>j. adc' ! j = (if j \<in> set is \<and> bit en j then a j else ?adc ! j)" by blast
  have "\<forall>j. adc' ! j = (if j \<in> set (i # is) \<and> bit en j then a j else adc ! j)"
    using r(3) Cons.prems by (auto simp: nth_list_update)
  then show ?case using r(1,2) b by (intro exI[of _ adc']) (auto simp: and_pin_bit split: if_splits)
qed simp

lemma io_sample_parse:
  assumes "io_wf io"
  shows "\<exists>io'. xbee_io_response_parse (Some io) (Some (io_sample dmask dsamp en a @ rest)) = Some (0, Some io') \<and> io_wf io' \<and>
    din_enabled io' = dmask AND NOT (dout_enabled io) AND NOT (ucast en AND 0x0F) \<and>
    dout_enabled io' = dout_enabled io AND NOT (ucast en AND 0x0F) \<and> analog_enabled io' = en \<and>
    (dmask \<noteq> 0 \<longrightarrow> din_state io' = (din_state io AND NOT (din_enabled io')) OR (din_enabled io' AND dsamp) \<and>
       dout_state io' = (dout_state io AND NOT (dout_enabled io')) OR (dout_enabled io' AND dsamp)) \<and>
    (dmask = 0 \<longrightarrow> din_state io' = din_state io \<and> dout_state io' = dout_state io) \<and>
    (\<forall>i < 8. adc_sample io' ! i = (if bit en i then a i else adc_sample io ! i)) \<and> config io' = config io"
proof -
  obtain adc where adc: "adc_loop en [0..<8] (concat (map (\<lambda>i. if bit en i then be16_bytes (a i) else []) [0..<8]) @ rest)
      (adc_sample io) = Some adc" "length adc = 8"
    "\<forall>i. adc ! i = (if i \<in> set [0..<8] \<and> bit en i then a i else adc_sample io ! i)"
    using adc_loop_reads[of "[0..<8]" "adc_sample io" en a rest] assms by (auto simp: io_wf_def)
  show ?thesis
  proof (cases "en = 0")
    case True
    then show ?thesis using assms
      by (auto simp: xbee_io_response_parse_def io_sample_def nth_opt_def Let_def io_wf_def and.assoc)
  next
    case False
    then show ?thesis using assms adc
      by (auto simp: xbee_io_response_parse_def io_sample_def nth_opt_def Let_def io_wf_def and.assoc simp del: upt_rec_numeral)
  qed
qed

lemma pin_mask_and:
  assumes "i < 32"
  shows "\<exists>m. pin_mask i = Some m \<and> (\<forall>w. m AND w \<noteq> 0 \<longleftrightarrow> bit w (unat i))"
proof (cases "i < 16")
  case True
  then show ?thesis using and_pin_bit(2) by (intro exI conjI allI) (rule pin_mask_less, assumption+)
next
  case False
  then have "16 \<le> unat i" by (simp add: word_le_nat_alt not_less)
  then show ?thesis using False assms by (simp add: pin_mask_big not_bit_beyond not_less)
qed

lemma digital_readings:
  assumes "i < 32"
  shows "xbee_io_get_digital_input (Some io) i =
      Some (if bit (din_enabled io) (unat i) then of_bool (bit (din_state io) (unat i)) else - EINVAL)"
    "xbee_io_get_digital_output (Some io) i =
      Some (if bit (dout_enabled io) (unat i) then of_bool (bit (dout_state io) (unat i)) else - EINVAL)"
    "xbee_io_get_analog_input (Some io) i =
      Some (if bit (analog_enabled io) (unat i) then sint (push_bit 5 (adc_sample io ! unat i)) else XBEE_IO_ANALOG_INVALID)"
proof -
  obtain m where m: "pin_mask i = Some m" "\<forall>w. m AND w \<noteq> 0 \<longleftrightarrow> bit w (unat i)"
    using pin_mask_and[OF assms] by blast
  have "bit (ucast (analog_enabled io) :: u16) (unat i) = bit (analog_enabled io) (unat i)"
    by (auto simp: bit_simps dest: bit_word_lt)
  with m show "xbee_io_get_digital_input (Some io) i =
      Some (if bit (din_enabled io) (unat i) then of_bool (bit (din_state io) (unat i)) else - EINVAL)"
    "xbee_io_get_digital_output (Some io) i =
      Some (if bit (dout_enabled io) (unat i) then of_bool (bit (dout_state io) (unat i)) else - EINVAL)"
    "xbee_io_get_analog_input (Some io) i =
      Some (if bit (analog_enabled io) (unat i) then sint (push_bit 5 (adc_sample io ! unat i)) else XBEE_IO_ANALOG_INVALID)"
    by (simp_all add: xbee_io_get_digital_input_def xbee_io_get_digital_output_def xbee_io_get_analog_input_def)
qed

lemma shared_bits: "bit (NOT (ucast (en :: u8) AND 0x0F) :: u16) n \<longleftrightarrow> n < 16 \<and> \<not> (n < 4 \<and> bit en n)"
proof -
  have "bit (0x0F :: u16) n \<longleftrightarrow> n < 4"
    using bit_mask_iff[where 'a = u16, of 4 n] by (auto simp: mask_eq_exp_minus_1 dest: bit_word_lt)
  then show ?thesis unfolding bit_not_iff bit_and_iff bit_unsigned_iff by (auto simp: possible_bit_def)
qed

lemma adc_scaled: "(w :: u16) < 1024 \<Longrightarrow> sint (push_bit 5 w) = 32 * uint w"
proof -
  assume "w < 1024"
  then have w: "uint w < 1024" by (simp add: word_less_def)
  then have "uint (push_bit 5 w) = 32 * uint w" by (simp add: push_bit_eq_mult uint_word_ariths)
  then show ?thesis using w using uint_lt2p[of w] by (simp add: sint_uint, subst signed_take_bit_int_eq_self) (simp_all add: order_trans[of _ 0])
qed

text \<open>
  C20: reading a sample. The data a module sends for sampled digital pins \<open>dmask\<close> with the states
  \<open>dsamp\<close> and analog channels \<open>en\<close> with ten-bit readings \<open>a\<close> is accepted, and the three functions
  that read the structure then give: for a sampled pin that is neither an output in the shadow nor
  one of the four pins shared with an analog channel in use, the state sent; for an output, the state
  sent if any digital pin is sampled and else the old one; for a channel, the reading on the scale of
  0 to 32767; and the error value for all others.
\<close>

theorem io_sample_readings:
  assumes "io_wf io" "\<forall>n < 8. a n < 1024"
  shows "\<exists>io'. xbee_io_response_parse (Some io) (Some (io_sample dmask dsamp en a @ rest)) = Some (0, Some io') \<and>
    (\<forall>i < 32. let n = unat i; shared = (n < 4 \<and> bit en n) in
      xbee_io_get_digital_input (Some io') i =
        Some (if bit dmask n \<and> \<not> bit (dout_enabled io) n \<and> \<not> shared then of_bool (bit dsamp n) else - EINVAL) \<and>
      xbee_io_get_digital_output (Some io') i =
        Some (if bit (dout_enabled io) n \<and> \<not> shared
              then of_bool (bit (if dmask \<noteq> 0 then dsamp else dout_state io) n) else - EINVAL) \<and>
      xbee_io_get_analog_input (Some io') i = Some (if bit en n then 32 * uint (a n) else XBEE_IO_ANALOG_INVALID))"
proof -
  obtain io' where p: "xbee_io_response_parse (Some io) (Some (io_sample dmask dsamp en a @ rest)) = Some (0, Some io')"
    and d: "din_enabled io' = dmask AND NOT (dout_enabled io) AND NOT (ucast en AND 0x0F)"
    "dout_enabled io' = dout_enabled io AND NOT (ucast en AND 0x0F)" "analog_enabled io' = en"
    and st: "dmask \<noteq> 0 \<longrightarrow> din_state io' = (din_state io AND NOT (din_enabled io')) OR (din_enabled io' AND dsamp) \<and>
       dout_state io' = (dout_state io AND NOT (dout_enabled io')) OR (dout_enabled io' AND dsamp)"
    "dmask = 0 \<longrightarrow> din_state io' = din_state io \<and> dout_state io' = dout_state io"
    and an: "\<forall>i < 8. adc_sample io' ! i = (if bit en i then a i else adc_sample io ! i)"
    using io_sample_parse[OF assms(1), of dmask dsamp en a rest] by blast
  have en: "bit en n \<Longrightarrow> n < 8" for n by (drule bit_word_lt) simp
  have lt: "bit w n \<Longrightarrow> n < 16" for w :: u16 and n by (drule bit_word_lt) simp
  have bits: "bit (din_enabled io') n \<longleftrightarrow> bit dmask n \<and> \<not> bit (dout_enabled io) n \<and> \<not> (n < 4 \<and> bit en n)"
    "bit (dout_enabled io') n \<longleftrightarrow> bit (dout_enabled io) n \<and> \<not> (n < 4 \<and> bit en n)" for n
    using lt unfolding d bit_and_iff shared_bits by (auto simp: bit_not_iff possible_bit_def)
  have s1: "bit (din_state io') n = bit dsamp n" if "bit (din_enabled io') n" for n
  proof -
    have "dmask \<noteq> 0" using that d(1) by auto
    then show ?thesis using that st(1) by (simp add: bit_simps)
  qed
  have s2: "bit (dout_state io') n = bit (if dmask \<noteq> 0 then dsamp else dout_state io) n" if "bit (dout_enabled io') n" for n
    using that st by (cases "dmask = 0") (simp_all add: bit_simps)
  have s3: "sint (push_bit 5 (adc_sample io' ! n)) = 32 * uint (a n)" if "bit en n" for n
    using that an en[OF that] assms(2) by (simp add: adc_scaled)
  show ?thesis
  proof (intro exI[of _ io'] conjI p allI impI)
    fix i :: u8 assume i: "i < 32"
    show "let n = unat i; shared = (n < 4 \<and> bit en n) in
      xbee_io_get_digital_input (Some io') i =
        Some (if bit dmask n \<and> \<not> bit (dout_enabled io) n \<and> \<not> shared then of_bool (bit dsamp n) else - EINVAL) \<and>
      xbee_io_get_digital_output (Some io') i =
        Some (if bit (dout_enabled io) n \<and> \<not> shared
              then of_bool (bit (if dmask \<noteq> 0 then dsamp else dout_state io) n) else - EINVAL) \<and>
      xbee_io_get_analog_input (Some io') i = Some (if bit en n then 32 * uint (a n) else XBEE_IO_ANALOG_INVALID)"
      unfolding Let_def digital_readings[OF i] d(3)
      using s1[of "unat i"] s2[of "unat i"] s3[of "unat i"] bits[of "unat i"] by (intro conjI) (simp_all only: if_True if_False simp_thms split: if_split, auto)
  qed
qed

text \<open>A structure as it is before anything is known.\<close>

definition io_zero :: xbee_io_t where
  "io_zero = io_decode (replicate 88 0)"

text \<open>Pins 3 and 12 are sampled, of which 12 is high, and channel 1 reads 513.\<close>

theorem io_sample_readings_witness:
  "\<exists>io'. xbee_io_response_parse (Some io_zero) (Some [1, 0x10, 0x08, 0x02, 0x10, 0x00, 0x02, 0x01]) = Some (0, Some io') \<and>
    xbee_io_get_digital_input (Some io') 3 = Some 0 \<and> xbee_io_get_digital_input (Some io') 12 = Some 1 \<and>
    xbee_io_get_digital_input (Some io') 4 = Some (- 22) \<and> xbee_io_get_analog_input (Some io') 1 = Some 16416 \<and>
    xbee_io_get_analog_input (Some io') 3 = Some (- 32768)"
proof -
  have e: "io_sample 0x1008 0x1000 0x02 (\<lambda>_. 513) @ [] = [1, 0x10, 0x08, 0x02, 0x10, 0x00, 0x02, 0x01]"
    by (simp add: io_sample_def be16_bytes_def upt_rec)
  have z: "io_wf io_zero" "dout_enabled io_zero = 0" by (simp_all add: io_zero_def io_decode_def io_wf_def mem16_def be16_of_def)
  from io_sample_readings[OF z(1), of "\<lambda>_. 513" "0x1008" "0x1000" "0x02" "[]"] obtain io' where
    p: "xbee_io_response_parse (Some io_zero) (Some [1, 0x10, 0x08, 0x02, 0x10, 0x00, 0x02, 0x01]) = Some (0, Some io')"
    and g: "\<And>i. i < 32 \<Longrightarrow> xbee_io_get_digital_input (Some io') i =
        Some (if bit (0x1008 :: u16) (unat i) \<and> \<not> (unat i < 4 \<and> bit (0x02 :: u8) (unat i)) then of_bool (bit (0x1000 :: u16) (unat i)) else - EINVAL)"
      "\<And>i. i < 32 \<Longrightarrow> xbee_io_get_analog_input (Some io') i = Some (if bit (0x02 :: u8) (unat i) then 32 * uint (513 :: u16) else - 32768)"
    unfolding e by (auto simp: Let_def z(2))
  show ?thesis using p g(1)[of 3] g(1)[of 12] g(1)[of 4] g(2)[of 1] g(2)[of 3] by (intro exI[of _ io']) simp
qed

end
