(* ===== verification/Xbee_Io_Shadow.thy ===== *)
theory Xbee_Io_Shadow
  imports Xbee_Io
begin

text \<open>
  What the functions that change pins do, when an entry of the request table is free and the port
  accepts data: the commands they send, and the shadow compared with the registers of the module.
\<close>

section \<open>Sending a command\<close>

lemma upd_request_twice:
  "i < length (table x) \<Longrightarrow> upd_request i g (upd_request i f x) = upd_request i (\<lambda>r. g (f r)) x"
  by (simp add: upd_request_def)

lemma upd_request_objects [simp]: "objects (app (upd_request i f x)) = objects (app x)"
  by (simp add: upd_request_def)

lemma with_request_entry:
  "i < 4 \<Longrightarrow> sequence (table x ! i) = s \<Longrightarrow> with_request x (int i * 256 + uint s) f = (0, upd_request i f x)"
  using handle_to_address[of i x] by (simp add: with_request_def request_handle_def)

text \<open>A device on which a command can be sent at once, with the structure \<open>k\<close> in memory.\<close>

definition io_ready :: "nat \<Rightarrow> 'u at_dev \<Rightarrow> bool" where
  "io_ready k x \<longleftrightarrow> at_inv 1 False x \<and> can_send x \<and> free_slot x \<noteq> None \<and> io_obj x k"

definition addr_ok :: "wpan_address_t option \<Rightarrow> bool" where
  "addr_ok addr \<longleftrightarrow> (case addr of None \<Rightarrow> True | Some a \<Rightarrow> length (ieee a) = 8)"

lemma free_slot_exists: "i < 4 \<Longrightarrow> \<not> in_use (table x ! i) \<Longrightarrow> free_slot x \<noteq> None"
  by (auto simp: free_slot_def find_None_iff)

text \<open>The entry of a request that is ready to be sent.\<close>

definition io_entry :: "u8 \<Rightarrow> u16 \<Rightarrow> at_cmd \<Rightarrow> u32 \<Rightarrow> wpan_address_t option \<Rightarrow> xbee_cmd_request_t" where
  "io_entry s t cmd v addr = (
     let r = store_param (xbee_cmd_encode_param v) (zero_request\<lparr>sequence := s, in_use := True, timeout := t, command := cmd\<rparr>)
     in case addr of None \<Rightarrow> r | Some a \<Rightarrow> r\<lparr>address := a, req_flags := req_flags r OR XBEE_CMD_FLAG_REMOTE\<rparr>)"

lemma io_entry_simps:
  assumes "addr_ok addr"
  shows "sequence (io_entry s t cmd v addr) = s" "command (io_entry s t cmd v addr) = cmd"
    "callback (io_entry s t cmd v addr) = No_callback" "is_queued (io_entry s t cmd v addr) = False"
    "is_remote (io_entry s t cmd v addr) = (addr \<noteq> None)" "addr \<noteq> None \<Longrightarrow> address (io_entry s t cmd v addr) = the addr"
    "param_of (io_entry s t cmd v addr) = xbee_cmd_encode_param v" "request_ok (io_entry s t cmd v addr)"
    "in_use (sent_request n 0 (io_entry s t cmd v addr)) = False"
proof -
  have l: "length (xbee_cmd_encode_param v) \<le> 48" using length_encode_param[of v] by auto
  let ?z = "zero_request\<lparr>sequence := s, in_use := True, timeout := t, command := cmd\<rparr>"
  have z: "request_ok ?z" by simp
  show "param_of (io_entry s t cmd v addr) = xbee_cmd_encode_param v"
    using param_of_store[OF z l] by (cases addr) (simp_all add: io_entry_def Let_def param_of_def)
  show "request_ok (io_entry s t cmd v addr)"
    using store_param_ok[OF z l] assms by (cases addr) (simp_all add: io_entry_def Let_def request_ok_def addr_ok_def)
qed (cases addr; simp add: io_entry_def Let_def store_param_def zero_request_def is_queued_def is_remote_def sent_request_def)+

lemma io_command_build:
  assumes "io_ready k x" "free_slot x = Some i"
  shows "io_command E x cmd v addr =
    (let y = upd_request i (\<lambda>r. io_entry (sequence r) (set_timeout_sec (now E) 2) cmd v addr) x
     in Some (request_handle y i, snd (xbee_cmd_send (now E) y (request_handle y i))))"
proof -
  have t: "at_inv 1 False x" "i < 4" "i < length (table x)"
    using assms by (auto simp: io_ready_def free_slot_less length_table at_inv_table)
  let ?h = "int i * 256 + uint (sequence (table x ! i))"
  have eta: "\<lparr>ieee = ieee a, network = network a\<rparr> = a" for a :: wpan_address_t by simp
  have "\<not> ?h < 0" by (simp add: not_less)
  with t show ?thesis
    by (cases addr) (simp_all add: io_command_def create_free[OF t(1) assms(2)] fill_slot_def request_handle_def Let_def
      xbee_cmd_set_param_def xbee_cmd_set_target_def with_request_entry upd_request_twice store_param_def io_entry_def eta)
qed

lemma io_command_sends:
  assumes "io_ready k x" "addr_ok addr"
  shows "\<exists>p h x'. io_command E x cmd v addr = Some (h, x') \<and> 0 \<le> h \<and> io_ready k x' \<and>
    os_tx (serport x') = os_tx (serport x) @ wire p \<and>
    parse_request p = Some (addr, 0, False, cmd, xbee_cmd_encode_param v) \<and>
    objects (app x') = objects (app x)"
proof -
  obtain i where i: "free_slot x = Some i" "i < 4" using assms(1) free_slot_less by (auto simp: io_ready_def)
  have x: "at_inv 1 False x" "can_send x" "i < length (table x)"
    using assms(1) i(2) length_table[OF at_inv_table, of 1 False x] by (auto simp: io_ready_def)
  let ?r = "io_entry (sequence (table x ! i)) (set_timeout_sec (now E) 2) cmd v addr"
  let ?y = "upd_request i (\<lambda>r. io_entry (sequence r) (set_timeout_sec (now E) 2) cmd v addr) x"
  note r = io_entry_simps[OF assms(2)]
  have y: "at_inv 1 False ?y" by (intro at_inv_upd) (use x i r in \<open>auto simp: list_entry_ok_def\<close>)
  have e: "table ?y ! i = ?r" using x(3) by simp
  have used: "in_use ?r" by (cases addr) (simp_all add: io_entry_def Let_def store_param_def)
  obtain f m where f: "if callback ?r = No_callback then f = 0 else f = fst (xbee_next_frame_id ?y) \<and> f \<noteq> 0"
    and s: "xbee_cmd_send (now E) ?y (request_handle ?y i) = (0, upd_request i (sent_request (now E) f)
          (?y\<lparr>frame_id := (if f = 0 then frame_id ?y else f),
             serport := sent (serport ?y) (wire (request_header (?r\<lparr>req_frame_id := f\<rparr>) @ param_of ?r)) m\<rparr>))"
    using send_request[OF _ at_inv_table[OF y] i(2), of "now E"] x(2) used unfolding e by auto
  have f0: "f = 0" using f r(3) by simp
  define x' where "x' = snd (xbee_cmd_send (now E) ?y (request_handle ?y i))"
  have c: "io_command E x cmd v addr = Some (request_handle ?y i, x')"
    unfolding io_command_build[OF assms(1) i(1)] Let_def x'_def ..
  have x': "at_inv 1 False x'" unfolding x'_def by (rule at_inv_send[OF y])
  have "free_slot x' \<noteq> None"
    using x(3) r(9) unfolding x'_def s f0 by (intro free_slot_exists[OF i(2)]) simp
  moreover have "can_send x'" "objects (app x') = objects (app x)"
    "os_tx (serport x') = os_tx (serport x) @ wire (request_header (?r\<lparr>req_frame_id := f\<rparr>) @ param_of ?r)"
    using x(2) unfolding x'_def s by (simp_all add: can_send_def)
  moreover have "parse_request (request_header (?r\<lparr>req_frame_id := f\<rparr>) @ param_of ?r) =
      Some (addr, 0, False, cmd, xbee_cmd_encode_param v)"
    using parse_request_header[of "?r\<lparr>req_frame_id := f\<rparr>"] r by (simp add: is_remote_def is_queued_def f0)
  ultimately show ?thesis using c x' assms(1) by (auto simp: io_ready_def io_obj_def)
qed

section \<open>What each function does\<close>

text \<open>One command was sent, and the structure is \<open>io'\<close> now.\<close>

definition io_sent :: "wpan_address_t option \<Rightarrow> nat \<Rightarrow> 'u at_dev \<Rightarrow> at_cmd \<Rightarrow> u32 \<Rightarrow> xbee_io_t \<Rightarrow> 'u at_dev \<Rightarrow> bool" where
  "io_sent addr k x cmd v io' x' \<longleftrightarrow> io_ready k x' \<and> io_read x' k = io' \<and>
     (\<exists>p. os_tx (serport x') = os_tx (serport x) @ wire p \<and>
        parse_request p = Some (addr, 0, False, cmd, xbee_cmd_encode_param v))"

lemma io_ready_upd: "io_ready k x \<Longrightarrow> io_wf (f (io_read x k)) \<Longrightarrow> io_ready k (upd_io k f x)"
  using at_inv_cong[of x "upd_io k f x" 1 False] by (simp add: io_ready_def free_slot_def)

lemma io_command_upd:
  assumes "io_ready k x" "addr_ok addr" "io_wf (f (io_read x k))"
  shows "\<exists>h x'. io_command E x cmd v addr = Some (h, x') \<and> 0 \<le> h \<and> io_read x' k = io_read x k \<and>
    io_sent addr k x cmd v (f (io_read x k)) (upd_io k f x')"
proof -
  obtain p h x' where c: "io_command E x cmd v addr = Some (h, x')" "0 \<le> h" "io_ready k x'"
    "os_tx (serport x') = os_tx (serport x) @ wire p"
    "parse_request p = Some (addr, 0, False, cmd, xbee_cmd_encode_param v)" "objects (app x') = objects (app x)"
    using io_command_sends[OF assms(1,2)] by blast
  have r: "io_read x' k = io_read x k" using c(6) by (simp add: io_read_def)
  have "io_obj x' k" using c(3) by (simp add: io_ready_def)
  then show ?thesis using c r assms(3) io_ready_upd[of k x' f] by (auto simp: io_sent_def)
qed

definition configurable :: "u8 \<Rightarrow> u32 \<Rightarrow> bool" where
  "configurable index type \<longleftrightarrow> type \<le> 7 \<and> (5 < type \<longrightarrow> index = 7) \<and> (type = 2 \<longrightarrow> index < 4) \<and>
     (type = 1 \<longrightarrow> index < 11 \<and> \<not> (1 \<le> index \<and> index < 5))"

lemma io_wf_configure [simp]: "io_wf (configure_shadow index m type io) = io_wf io"
  by (simp add: configure_shadow_def io_wf_def Let_def)

abbreviation pin_cmd :: "u8 \<Rightarrow> at_cmd" where
  "pin_cmd index \<equiv> xbee_io_cmd_by_index ! unat index"

lemma pin_mask_nonzero [simp]: "(index :: u8) < 16 \<Longrightarrow> (push_bit (unat index) 1 :: u16) \<noteq> 0"
proof -
  assume "index < 16"
  then have "unat index < 16" by (simp add: word_less_nat_alt)
  then have "bit (push_bit (unat index) 1 :: u16) (unat index)" by (simp add: bit_simps)
  then show ?thesis by (metis bit_0_eq bot_apply bot_bool_def)
qed

lemma not_configurable:
  "7 < t \<or> (5 < t \<and> index \<noteq> 7) \<or> (t = 2 \<and> 4 \<le> index) \<or> (t = 1 \<and> (11 \<le> index \<or> (1 \<le> index \<and> index < 5)))
   \<longleftrightarrow> \<not> configurable index t"
  unfolding configurable_def not_le[symmetric] by blast

lemma configure_eq:
  assumes "index < 16" "t = type AND 0x0F" "m = push_bit (unat index) 1"
  shows "xbee_io_configure E x (Some k) index type addr =
    (if \<not> configurable index t then Some (- EPERM, x)
     else if pin_cmd index = (0, 0) then Some (- EINVAL, x)
     else if type AND 0x80 \<noteq> 0 \<or> ucast (config (io_read x k) ! unat index) \<noteq> t then do {
       (request, x) \<leftarrow> io_command E x (pin_cmd index) t addr;
       Some (if request < 0 then (request, x) else (0, upd_io k (configure_shadow index m t) x)) }
     else Some (0, x))"
  using pin_mask_nonzero[OF assms(1)]
  unfolding xbee_io_configure_def pin_mask_less[OF assms(1)] bind.bind_lunit Let_def option.case assms(2,3)[symmetric] not_configurable
  by (simp only: if_False)

lemma configure_none: "16 \<le> index \<Longrightarrow> index < 32 \<Longrightarrow> xbee_io_configure E x (Some k) index type addr = Some (- EINVAL, x)"
  by (simp add: xbee_io_configure_def pin_mask_big Let_def)

lemma configure_sends:
  assumes "io_ready k x" "addr_ok addr" "index < 16" "t = type AND 0x0F" "configurable index t" "pin_cmd index \<noteq> (0, 0)"
    "type AND 0x80 \<noteq> 0 \<or> ucast (config (io_read x k) ! unat index) \<noteq> t"
  shows "\<exists>x'. xbee_io_configure E x (Some k) index type addr = Some (0, x') \<and>
    io_sent addr k x (pin_cmd index) t (configure_shadow index (push_bit (unat index) 1) t (io_read x k)) x'"
proof -
  have "io_wf (configure_shadow index (push_bit (unat index) 1) t (io_read x k))"
    using assms(1) by (simp add: io_ready_def)
  from io_command_upd[OF assms(1,2), of "configure_shadow index (push_bit (unat index) 1) t", OF this, of E "pin_cmd index" t]
  obtain h x' where c: "io_command E x (pin_cmd index) t addr = Some (h, x')" "0 \<le> h"
    "io_sent addr k x (pin_cmd index) t (configure_shadow index (push_bit (unat index) 1) t (io_read x k))
      (upd_io k (configure_shadow index (push_bit (unat index) 1) t) x')" by blast
  show ?thesis
    unfolding configure_eq[OF assms(3,4) refl] using assms(5,6,7) c by (simp add: not_less)
qed

lemma io_encode_twice:
  assumes "length m = 88" "io_wf a"
  shows "io_encode (io_encode m a) b = io_encode m b"
proof -
  have "length (io_fields (m ! 37) a) = 60"
    using assms(2) by (simp add: io_fields_def io_wf_def le16_bytes_def length_concat comp_def sum_list_triv)
  moreover have "io_fields (m ! 37) a ! 13 = m ! 37" by (simp add: io_fields_def le16_bytes_def be16_bytes_def)
  ultimately show ?thesis using assms(1) by (simp add: io_encode_def nth_append)
qed

lemma upd_io_twice:
  assumes "io_obj x k" "io_wf (f (io_read x k))"
  shows "upd_io k g (upd_io k f x) = upd_io k (\<lambda>io. g (f io)) x"
  using assms io_read_upd(1)[of x k f] io_encode_twice[of "objects (app x) k" "f (io_read x k)"]
  by (simp add: upd_io_def io_obj_def)

text \<open>The shadow after an output has been set to the state \<open>s\<close>.\<close>

definition output_shadow :: "u8 \<Rightarrow> u16 \<Rightarrow> u32 \<Rightarrow> xbee_io_t \<Rightarrow> xbee_io_t" where
  "output_shadow index m s io = io\<lparr>config := (config io)[unat index := ucast s],
     dout_state := (if s = 5 then (dout_state io AND NOT m) OR m else dout_state io AND NOT m),
     dout_enabled := dout_enabled io OR m\<rparr>"

lemma io_wf_output [simp]: "io_wf (output_shadow index m s io) = io_wf io"
  by (simp add: output_shadow_def io_wf_def)

lemma output_none:
  assumes "index < 32" "16 \<le> index \<or> state AND 0x0F \<notin> {4, 5} \<or> pin_cmd index = (0, 0) \<or>
    (state AND 0x80 = 0 \<and> \<not> bit (dout_enabled (io_read x k)) (unat index))"
  shows "xbee_io_set_digital_output E x (Some k) index state addr = Some (- EINVAL, x)"
proof (cases "index < 16")
  case True
  then show ?thesis using assms and_pin_bit(1)[of "dout_enabled (io_read x k)" "unat index"]
    by (auto simp: xbee_io_set_digital_output_def pin_mask_less Let_def)
next
  case False
  then show ?thesis using assms by (simp add: xbee_io_set_digital_output_def pin_mask_big Let_def not_less)
qed

lemma output_sets:
  assumes "io_ready k x" "addr_ok addr" "index < 16" "s = state AND 0x0F" "s \<in> {4, 5}" "pin_cmd index \<noteq> (0, 0)"
    "state AND 0x80 \<noteq> 0 \<or> bit (dout_enabled (io_read x k)) (unat index)" "m = push_bit (unat index) 1"
  shows "\<exists>x'. xbee_io_set_digital_output E x (Some k) index state addr = Some (of_bool (s = 5), x') \<and>
    (io_sent addr k x (pin_cmd index) s (output_shadow index m s (io_read x k)) x' \<or>
     io_ready k x' \<and> os_tx (serport x') = os_tx (serport x) \<and> io_read x' k = io_read x k \<and>
     bit (dout_state (io_read x k)) (unat index) = (s = 5) \<and> state AND 0x80 = 0)"
proof -
  let ?io = "io_read x k"
  let ?next = "if s = 5 then (dout_state ?io AND NOT m) OR m else dout_state ?io AND NOT m"
  let ?g = "\<lambda>io. io\<lparr>dout_state := ?next, dout_enabled := dout_enabled io OR m\<rparr>"
  let ?f = "\<lambda>io. io\<lparr>config := (config io)[unat index := ucast s]\<rparr>"
  have wf: "io_wf ?io" using assms(1) by (simp add: io_ready_def)
  have go: "\<not> (pin_cmd index = (0, 0) \<or> state AND 0x80 = 0 \<and> dout_enabled ?io AND m = 0)"
    using assms(6,7) and_pin_bit(1)[of "dout_enabled ?io" "unat index"] unfolding assms(8) by blast
  have st: "\<not> (m = 0 \<or> s \<noteq> 4 \<and> s \<noteq> 5)" using assms(3,5) pin_mask_nonzero[of index] unfolding assms(8) by blast
  have eq: "xbee_io_set_digital_output E x (Some k) index state addr = do {
      (request, x) \<leftarrow> (if state AND 0x80 \<noteq> 0 \<or> dout_state ?io \<noteq> ?next then do {
         (request, x) \<leftarrow> io_command E x (pin_cmd index) s addr;
         Some (request, if request < 0 then x else upd_io k ?f x) } else Some (0, x));
      Some (if request < 0 then (request, x) else (of_bool (s = 5), upd_io k ?g x)) }"
    unfolding xbee_io_set_digital_output_def pin_mask_less[OF assms(3)] bind.bind_lunit Let_def option.case
      assms(4,8)[symmetric] not_not using st go by (simp only: if_False)
  show ?thesis
  proof (cases "state AND 0x80 \<noteq> 0 \<or> dout_state ?io \<noteq> ?next")
    case True
    have gf: "?g (?f ?io) = output_shadow index m s ?io" by (simp add: output_shadow_def)
    then have w: "io_wf (?g (?f ?io))" using wf by simp
    obtain h x' where c: "io_command E x (pin_cmd index) s addr = Some (h, x')" "0 \<le> h" "io_read x' k = ?io"
      "io_sent addr k x (pin_cmd index) s (?g (?f ?io)) (upd_io k (\<lambda>io. ?g (?f io)) x')"
      using io_command_upd[OF assms(1,2), of "\<lambda>io. ?g (?f io)", OF w] by blast
    from io_command_sends[OF assms(1,2), of E "pin_cmd index" s] c(1) have "io_obj x' k" by (auto simp: io_ready_def)
    then have "upd_io k ?g (upd_io k ?f x') = upd_io k (\<lambda>io. ?g (?f io)) x'"
      using wf c(3) by (intro upd_io_twice) (simp_all add: io_wf_def)
    then show ?thesis using c(4) c(2) unfolding eq if_P[OF True] c(1) gf by (auto simp: not_less)
  next
    case False
    then have f: "state AND 0x80 = 0" and n: "dout_state ?io = ?next" by blast+
    have "bit (dout_enabled ?io) (unat index)" using assms(7) f by blast
    then have "dout_enabled ?io OR m = dout_enabled ?io" unfolding assms(8)
      by (intro bit_word_eqI) (auto simp: bit_simps)
    then have g: "?g ?io = ?io" using n by simp
    have "unat index < 16" using assms(3) by (simp add: word_less_nat_alt)
    then have "bit ?next (unat index) = (s = 5)" unfolding assms(8) by (auto simp: bit_simps)
    then have "bit (dout_state ?io) (unat index) = (s = 5)" using n by argo
    moreover have "io_obj x k" "io_wf (?g ?io)" using assms(1) wf g by (simp_all add: io_ready_def)
    ultimately show ?thesis
      using f io_read_upd(1)[of x k ?g] io_ready_upd[OF assms(1), of ?g] g unfolding eq if_not_P[OF False] by auto
  qed
qed

section \<open>The registers of the module\<close>

text \<open>
  A module with the address \<open>addr\<close> that holds the last parameter of every command. A frame for
  another module does not change it.
\<close>

type_synonym registers = "at_cmd \<Rightarrow> bytes"

definition module_write :: "wpan_address_t option \<Rightarrow> registers \<Rightarrow> bytes \<Rightarrow> registers" where
  "module_write addr regs p =
     (case parse_request p of
        Some (to, _, _, cmd, v) \<Rightarrow> if to = addr then regs(cmd := v) else regs
      | None \<Rightarrow> regs)"

definition mirrors :: "registers \<Rightarrow> xbee_io_t \<Rightarrow> bool" where
  "mirrors regs io \<longleftrightarrow> (\<forall>i < 16. xbee_io_cmd_by_index ! i \<noteq> (0, 0) \<longrightarrow> regs (xbee_io_cmd_by_index ! i) = [config io ! i]) \<and>
     regs (at_cmd ''IR'') = xbee_cmd_encode_param (ucast (sample_rate io)) \<and>
     regs (at_cmd ''IC'') = xbee_cmd_encode_param (ucast (change_mask io))"

text \<open>What was sent from \<open>x\<close> to \<open>x'\<close> keeps the registers equal to the shadow.\<close>

definition io_tracks :: "wpan_address_t option \<Rightarrow> nat \<Rightarrow> 'u at_dev \<Rightarrow> 'u at_dev \<Rightarrow> bool" where
  "io_tracks addr k x x' \<longleftrightarrow> io_ready k x' \<and>
     (\<exists>ps. os_tx (serport x') = os_tx (serport x) @ concat (map wire ps) \<and>
        (\<forall>regs. mirrors regs (io_read x k) \<longrightarrow> mirrors (foldl (module_write addr) regs ps) (io_read x' k)))"

lemma io_tracks_trans:
  assumes "io_tracks addr k x y" "io_tracks addr k y z"
  shows "io_tracks addr k x z"
proof -
  obtain ps where ps: "os_tx (serport y) = os_tx (serport x) @ concat (map wire ps)"
    "\<forall>regs. mirrors regs (io_read x k) \<longrightarrow> mirrors (foldl (module_write addr) regs ps) (io_read y k)"
    using assms(1) by (auto simp: io_tracks_def)
  obtain qs where qs: "os_tx (serport z) = os_tx (serport y) @ concat (map wire qs)" "io_ready k z"
    "\<forall>regs. mirrors regs (io_read y k) \<longrightarrow> mirrors (foldl (module_write addr) regs qs) (io_read z k)"
    using assms(2) by (auto simp: io_tracks_def)
  show ?thesis unfolding io_tracks_def using ps qs by (intro conjI exI[of _ "ps @ qs"]) auto
qed

lemma io_tracks_quiet:
  assumes "io_ready k x'" "os_tx (serport x') = os_tx (serport x)" "config (io_read x' k) = config (io_read x k)"
    "sample_rate (io_read x' k) = sample_rate (io_read x k)" "change_mask (io_read x' k) = change_mask (io_read x k)"
  shows "io_tracks addr k x x'"
  unfolding io_tracks_def using assms by (intro conjI exI[of _ "[]"]) (simp_all add: mirrors_def)

lemma io_tracks_sent:
  assumes "io_sent addr k x cmd v io' x'"
    "\<And>regs. mirrors regs (io_read x k) \<Longrightarrow> mirrors (regs(cmd := xbee_cmd_encode_param v)) io'"
  shows "io_tracks addr k x x'"
proof -
  obtain p where p: "os_tx (serport x') = os_tx (serport x) @ wire p" "io_ready k x'" "io_read x' k = io'"
    "parse_request p = Some (addr, 0, False, cmd, xbee_cmd_encode_param v)"
    using assms(1) by (auto simp: io_sent_def)
  show ?thesis unfolding io_tracks_def using p assms(2) by (intro conjI exI[of _ "[p]"]) (simp_all add: module_write_def)
qed

lemma pin_cmds_distinct:
  "list_all (\<lambda>i. xbee_io_cmd_by_index ! i \<noteq> at_cmd ''IR'' \<and> xbee_io_cmd_by_index ! i \<noteq> at_cmd ''IC'' \<and>
     list_all (\<lambda>j. xbee_io_cmd_by_index ! i = xbee_io_cmd_by_index ! j \<longrightarrow> xbee_io_cmd_by_index ! i \<noteq> (0, 0) \<longrightarrow> i = j)
       [0..<16]) [0..<16]" "at_cmd ''IR'' \<noteq> at_cmd ''IC''"
  by code_simp+

lemma pin_cmd_eq:
  assumes "i < 16" "xbee_io_cmd_by_index ! i \<noteq> (0, 0)"
  shows "xbee_io_cmd_by_index ! i \<noteq> at_cmd ''IR''" "xbee_io_cmd_by_index ! i \<noteq> at_cmd ''IC''"
    "j < 16 \<Longrightarrow> xbee_io_cmd_by_index ! j = xbee_io_cmd_by_index ! i \<longleftrightarrow> j = i"
  using pin_cmds_distinct(1) assms unfolding list_all_iff by auto

lemma encode_small: "(t :: u32) \<le> 7 \<Longrightarrow> xbee_cmd_encode_param t = [ucast t]"
proof -
  assume "t \<le> 7"
  then have "unat t \<in> {0, 1, 2, 3, 4, 5, 6, 7}" by (auto simp: word_le_nat_alt)
  then have "t \<in> {0, 1, 2, 3, 4, 5, 6, 7}" by (auto simp: word_unat_eq_iff)
  then show ?thesis by (auto simp: xbee_cmd_encode_param_def)
qed

lemma mirrors_pin:
  assumes "mirrors regs io" "index < 16" "pin_cmd index \<noteq> (0, 0)" "t \<le> 7" "io_wf io"
    "config io' = (config io)[unat index := ucast t]" "sample_rate io' = sample_rate io" "change_mask io' = change_mask io"
  shows "mirrors (regs(pin_cmd index := xbee_cmd_encode_param t)) io'"
proof -
  have i: "unat index < 16" using assms(2) by (simp add: word_less_nat_alt)
  note eq = pin_cmd_eq[OF i assms(3)]
  show ?thesis using assms(1,5,6,7,8) i eq unfolding mirrors_def encode_small[OF assms(4)] io_wf_def
    by (auto simp: nth_list_update eq(1,2)[symmetric])
qed

lemma type_le: "t = type AND (0x0F :: u32) \<Longrightarrow> configurable index t \<Longrightarrow> t \<le> 7"
  by (simp add: configurable_def)

lemma configure_tracks:
  assumes "io_ready k x" "addr_ok addr" "xbee_io_configure E x (Some k) index type addr = Some (r, x')"
  shows "io_tracks addr k x x'"
proof -
  have wf: "io_wf (io_read x k)" using assms(1) by (simp add: io_ready_def)
  have same: ?thesis if "x' = x" using that assms(1) by (simp add: io_tracks_quiet)
  consider "32 \<le> index" | "16 \<le> index" "index < 32" | "index < 16" by (metis not_le)
  then show ?thesis
  proof cases
    case 1
    then show ?thesis using assms(3) by (simp add: xbee_io_configure_def pin_mask_def flip: not_less)
  next
    case 2
    then show ?thesis using configure_none[OF 2, of E x k type addr] assms(3) same by simp
  next
    case 3
    let ?t = "type AND 0x0F"
    show ?thesis
    proof (cases "configurable index ?t \<and> pin_cmd index \<noteq> (0, 0) \<and> (type AND 0x80 \<noteq> 0 \<or> ucast (config (io_read x k) ! unat index) \<noteq> ?t)")
      case True
      then obtain y where y: "xbee_io_configure E x (Some k) index type addr = Some (0, y)"
        "io_sent addr k x (pin_cmd index) ?t (configure_shadow index (push_bit (unat index) 1) ?t (io_read x k)) y"
        using configure_sends[OF assms(1,2) 3 refl] by blast
      have "io_tracks addr k x y"
      proof (rule io_tracks_sent[OF y(2)])
        show "mirrors (regs(pin_cmd index := xbee_cmd_encode_param ?t))
            (configure_shadow index (push_bit (unat index) 1) ?t (io_read x k))" if "mirrors regs (io_read x k)" for regs
          by (rule mirrors_pin[OF that 3 _ _ wf]) (use True in \<open>auto simp: configurable_def configure_shadow_def Let_def\<close>)
      qed
      then show ?thesis using y(1) assms(3) by simp
    next
      case False
      then show ?thesis using assms(3) same unfolding configure_eq[OF 3 refl refl] by (auto split: if_splits)
    qed
  qed
qed

lemma output_tracks:
  assumes "io_ready k x" "addr_ok addr" "xbee_io_set_digital_output E x (Some k) index state addr = Some (r, x')"
  shows "io_tracks addr k x x'"
proof -
  have wf: "io_wf (io_read x k)" using assms(1) by (simp add: io_ready_def)
  let ?s = "state AND 0x0F"
  show ?thesis
  proof (cases "index < 32")
    case False
    then show ?thesis using assms(3) by (simp add: xbee_io_set_digital_output_def pin_mask_def)
  next
    case True
    show ?thesis
    proof (cases "16 \<le> index \<or> ?s \<notin> {4, 5} \<or> pin_cmd index = (0, 0) \<or>
        (state AND 0x80 = 0 \<and> \<not> bit (dout_enabled (io_read x k)) (unat index))")
      case c: True
      then have "x' = x" using output_none[OF True c, of E addr] assms(3) by simp
      then show ?thesis using assms(1) by (simp add: io_tracks_quiet)
    next
      case False
      then have i: "index < 16" and s: "?s \<in> {4, 5}" "?s \<le> 7" and c: "pin_cmd index \<noteq> (0, 0)"
        and o: "state AND 0x80 \<noteq> 0 \<or> bit (dout_enabled (io_read x k)) (unat index)" by (auto simp: not_le)
      obtain y where y: "xbee_io_set_digital_output E x (Some k) index state addr = Some (of_bool (?s = 5), y)"
        "io_sent addr k x (pin_cmd index) ?s (output_shadow index (push_bit (unat index) 1) ?s (io_read x k)) y \<or>
         io_ready k y \<and> os_tx (serport y) = os_tx (serport x) \<and> io_read y k = io_read x k"
        using output_sets[OF assms(1,2) i refl s(1) c o refl, of E] by blast
      have "io_tracks addr k x y" using y(2)
      proof
        assume sent: "io_sent addr k x (pin_cmd index) ?s (output_shadow index (push_bit (unat index) 1) ?s (io_read x k)) y"
        show ?thesis
        proof (rule io_tracks_sent[OF sent])
          show "mirrors (regs(pin_cmd index := xbee_cmd_encode_param ?s))
              (output_shadow index (push_bit (unat index) 1) ?s (io_read x k))" if "mirrors regs (io_read x k)" for regs
            by (rule mirrors_pin[OF that i c s(2) wf]) (simp_all add: output_shadow_def)
        qed
      qed (simp add: io_tracks_quiet)
      then show ?thesis using y(1) assms(3) by simp
    qed
  qed
qed

lemma mirrors_option:
  assumes "mirrors regs io"
  shows "mirrors (regs(at_cmd ''IR'' := xbee_cmd_encode_param (ucast w))) (io\<lparr>sample_rate := w\<rparr>)"
    "mirrors (regs(at_cmd ''IC'' := xbee_cmd_encode_param (ucast w))) (io\<lparr>change_mask := w\<rparr>)"
  using assms pin_cmd_eq(1,2) pin_cmds_distinct(2) by (auto simp: mirrors_def)

lemma options_tracks:
  assumes "io_ready k x" "addr_ok addr"
  shows "\<exists>r x'. xbee_io_set_options E x (Some k) rate changes addr = Some (r, x') \<and> io_tracks addr k x x' \<and>
    (if rate \<noteq> 0 \<and> rate < 50 then r = - EPERM \<and> x' = x
     else r = 0 \<and> io_read x' k = (io_read x k)\<lparr>sample_rate := rate, change_mask := changes\<rparr>)"
proof (cases "rate \<noteq> 0 \<and> rate < 50")
  case True
  then show ?thesis using assms(1) by (auto simp: xbee_io_set_options_def io_tracks_quiet)
next
  case False
  let ?f = "\<lambda>io. io\<lparr>sample_rate := rate\<rparr>" and ?g = "\<lambda>io. io\<lparr>change_mask := changes\<rparr>"
  have wf: "io_wf (io_read x k)" using assms(1) by (simp add: io_ready_def)
  obtain r y where y: "(if rate \<noteq> sample_rate (io_read x k) then do {
                 (request, x) \<leftarrow> io_command E x (at_cmd ''IR'') (ucast rate) addr;
                 Some (request, if request < 0 then x else upd_io k ?f x) }
               else Some (0, x)) = Some (r, y)" "0 \<le> r" "io_tracks addr k x y" "io_read y k = ?f (io_read x k)"
  proof (cases "rate = sample_rate (io_read x k)")
    case True
    then show thesis by (intro that[of 0 x]) (use assms(1) in \<open>simp_all add: io_tracks_quiet\<close>)
  next
    case False
    obtain h z where z: "io_command E x (at_cmd ''IR'') (ucast rate) addr = Some (h, z)" "0 \<le> h"
      "io_sent addr k x (at_cmd ''IR'') (ucast rate) (?f (io_read x k)) (upd_io k ?f z)"
      using io_command_upd[OF assms, of ?f E "at_cmd ''IR''" "ucast rate"] wf by (auto simp: io_wf_def)
    show thesis
    proof (rule that[of h "upd_io k ?f z"])
      show "io_tracks addr k x (upd_io k ?f z)" by (rule io_tracks_sent[OF z(3) mirrors_option(1)])
      show "io_read (upd_io k ?f z) k = ?f (io_read x k)" using z(3) by (simp add: io_sent_def)
    qed (use False z(1,2) in \<open>simp_all add: not_less\<close>)
  qed
  have ry: "io_ready k y" using y(3) by (simp add: io_tracks_def)
  have wy: "io_wf (io_read y k)" using ry by (simp add: io_ready_def)
  obtain x' where x': "(if changes \<noteq> change_mask (io_read y k) then do {
              (request, x) \<leftarrow> io_command E y (at_cmd ''IC'') (ucast changes) addr;
              Some (if request < 0 then (request, x) else (0, upd_io k ?g x)) }
            else Some (0, y)) = Some (0, x')" "io_tracks addr k y x'" "io_read x' k = ?g (io_read y k)"
  proof (cases "changes = change_mask (io_read y k)")
    case True
    then show thesis by (intro that[of y]) (use ry in \<open>simp_all add: io_tracks_quiet\<close>)
  next
    case False
    obtain h z where z: "io_command E y (at_cmd ''IC'') (ucast changes) addr = Some (h, z)" "0 \<le> h"
      "io_sent addr k y (at_cmd ''IC'') (ucast changes) (?g (io_read y k)) (upd_io k ?g z)"
      using io_command_upd[OF ry assms(2), of ?g E "at_cmd ''IC''" "ucast changes"] wy by (auto simp: io_wf_def)
    show thesis
    proof (rule that[of "upd_io k ?g z"])
      show "io_tracks addr k y (upd_io k ?g z)" by (rule io_tracks_sent[OF z(3) mirrors_option(2)])
      show "io_read (upd_io k ?g z) k = ?g (io_read y k)" using z(3) by (simp add: io_sent_def)
    qed (use False z(1,2) in \<open>simp_all add: not_less\<close>)
  qed
  have "xbee_io_set_options E x (Some k) rate changes addr = Some (0, x')"
    unfolding xbee_io_set_options_def option.case if_not_P[OF False] y(1) bind.bind_lunit case_prod_conv
    using y(2) x'(1) by (simp add: not_less)
  then show ?thesis using False io_tracks_trans[OF y(3) x'(2)] x'(3) y(4) by auto
qed

lemma length_adc_loop: "adc_loop en is p adc = Some adc' \<Longrightarrow> length adc' = length adc"
  by (induction en "is" p adc rule: adc_loop.induct) (auto split: if_splits bind_splits)

lemma parse_keeps:
  assumes "xbee_io_response_parse (Some io) (Some src) = Some (r, Some io')" "io_wf io"
  shows "io_wf io'" "config io' = config io" "sample_rate io' = sample_rate io" "change_mask io' = change_mask io"
  using assms by (auto simp: xbee_io_response_parse_def io_wf_def Let_def length_adc_loop split: if_splits bind_splits)

text \<open>
  The calls of an application for one module, at any times, and the samples that arrive.
\<close>

inductive io_call :: "'u at_env \<Rightarrow> wpan_address_t option \<Rightarrow> nat \<Rightarrow> 'u at_dev \<Rightarrow> 'u at_dev \<Rightarrow> bool" for E addr k where
  configure: "xbee_io_configure (E\<lparr>now := t\<rparr>) x (Some k) index type addr = Some (r, x') \<Longrightarrow> io_call E addr k x x'"
| set_output: "xbee_io_set_digital_output (E\<lparr>now := t\<rparr>) x (Some k) index state addr = Some (r, x') \<Longrightarrow> io_call E addr k x x'"
| options: "xbee_io_set_options (E\<lparr>now := t\<rparr>) x (Some k) rate changes addr = Some (r, x') \<Longrightarrow> io_call E addr k x x'"
| sample: "xbee_io_response_parse (Some (io_read x k)) (Some src) = Some (r, Some io') \<Longrightarrow>
    io_call E addr k x (upd_io k (\<lambda>_. io') x)"

lemma io_call_tracks:
  assumes "io_call E addr k x x'" "io_ready k x" "addr_ok addr"
  shows "io_tracks addr k x x'"
  using assms
proof cases
  case (configure t index type r)
  then show ?thesis using configure_tracks assms by blast
next
  case (set_output t index state r)
  then show ?thesis using output_tracks assms by blast
next
  case (options t rate changes r)
  then show ?thesis using options_tracks[OF assms(2,3), of "E\<lparr>now := t\<rparr>" rate changes] by auto
next
  case (sample src r io')
  have "io_obj x k" "io_wf (io_read x k)" using assms(2) by (simp_all add: io_ready_def)
  with parse_keeps[OF sample(2)] show ?thesis unfolding sample(1)
    by (intro io_tracks_quiet io_ready_upd[OF assms(2)]) simp_all
qed

lemma io_calls_track:
  assumes "(io_call E addr k)\<^sup>*\<^sup>* x x'" "io_ready k x" "addr_ok addr"
  shows "io_tracks addr k x x'"
  using assms(1)
proof (induction rule: rtranclp_induct)
  case base
  then show ?case using assms(2) by (simp add: io_tracks_quiet)
next
  case (step y z)
  moreover from this have "io_ready k y" by (simp add: io_tracks_def)
  ultimately show ?case using io_call_tracks[OF step(2) _ assms(3)] io_tracks_trans by blast
qed

text \<open>
  C11: the shadow and the module. Let the shadow agree with the registers of the module \<open>addr\<close>: the
  function of every pin that has a command, the sampling period and the pins that trigger a sample. After
  any calls that configure pins, set outputs (forced or not) or set sampling options, with samples
  arriving in between, the frames that were sent for that module bring its registers to a state that the
  shadow agrees with again.
\<close>

theorem io_shadow_mirrors:
  assumes "io_ready k x" "addr_ok addr" "mirrors regs (io_read x k)" "(io_call E addr k)\<^sup>*\<^sup>* x x'"
  shows "\<exists>ps. os_tx (serport x') = os_tx (serport x) @ concat (map wire ps) \<and>
    mirrors (foldl (module_write addr) regs ps) (io_read x' k)"
  using io_calls_track[OF assms(4,1,2)] assms(3) by (auto simp: io_tracks_def)

section \<open>The functions of pins\<close>

text \<open>The masks of pin \<open>i\<close> say what its configuration says.\<close>

definition pin_agrees :: "xbee_io_t \<Rightarrow> nat \<Rightarrow> bool" where
  "pin_agrees io i \<longleftrightarrow> (bit (din_enabled io) i \<longleftrightarrow> config io ! i = 3) \<and> (bit (dout_enabled io) i \<longleftrightarrow> config io ! i \<in> {4, 5}) \<and>
     (bit (analog_enabled io) i \<longleftrightarrow> i < 8 \<and> config io ! i = 2) \<and>
     (config io ! i \<in> {4, 5} \<longrightarrow> (bit (dout_state io) i \<longleftrightarrow> config io ! i = 5))"

definition io_consistent :: "xbee_io_t \<Rightarrow> bool" where
  "io_consistent io \<longleftrightarrow> (\<forall>i < 16. pin_agrees io i)"

lemma config_step_config [simp]: "config (config_step io i) = config io"
  by (simp add: config_step_def Let_def)

text \<open>Clearing and setting the bit of one pin.\<close>

lemma pin_other:
  assumes "m = (push_bit i 1 :: u16)" "j \<noteq> i"
  shows "bit (w AND NOT m) j = bit w j" "bit (w OR m) j = bit w j"
    "bit (ucast (ucast (a :: u8) AND NOT m) :: u8) j = bit a j" "bit (ucast (ucast a OR m) :: u8) j = bit a j"
  using assms(2) unfolding assms(1) by (auto simp: bit_simps dest: bit_word_lt)

lemma pin_this:
  assumes "m = (push_bit i 1 :: u16)" "i < 16"
  shows "bit (w AND NOT m) i = False" "bit (w OR m) i = True"
    "bit (ucast (ucast (a :: u8) AND NOT m) :: u8) i = False" "bit (ucast (ucast a OR m) :: u8) i = (i < 8)"
  using assms(2) unfolding assms(1) by (auto simp: bit_simps dest: bit_word_lt)

lemma config_step_other:
  assumes "j \<noteq> i"
  shows "pin_agrees (config_step io i) j = pin_agrees io j"
proof -
  define m where "m = (push_bit i 1 :: u16)"
  show ?thesis unfolding pin_agrees_def config_step_def Let_def m_def[symmetric]
    by (simp add: pin_other[OF m_def assms] split del: if_split) (simp add: pin_other[OF m_def assms])
qed

lemma config_step_this:
  assumes "i < 16"
  shows "pin_agrees (config_step io i) i"
proof -
  define m where "m = (push_bit i 1 :: u16)"
  show ?thesis unfolding pin_agrees_def config_step_def Let_def m_def[symmetric]
    by (simp add: pin_this[OF m_def assms])
qed

lemma handle_end_consistent: "io_consistent (io_query_handle_end io)"
proof -
  have "n \<le> 16 \<Longrightarrow> \<forall>i < n. pin_agrees (foldl config_step io [0..<n]) i" for n
    by (induction n) (auto simp: less_Suc_eq config_step_other config_step_this)
  from this[of 16] show ?thesis by (simp add: io_consistent_def io_query_handle_end_def)
qed

lemma small_types: "(t :: u32) \<le> 7 \<Longrightarrow> t \<in> {0, 1, 2, 3, 4, 5, 6, 7}"
proof -
  assume "t \<le> 7"
  then have "unat t \<in> {0, 1, 2, 3, 4, 5, 6, 7}" by (auto simp: word_le_nat_alt)
  then show ?thesis by (auto simp: word_unat_eq_iff)
qed

lemma shadow_other:
  assumes "m = push_bit (unat index) 1" "j \<noteq> unat index"
  shows "pin_agrees (configure_shadow index m t io) j = pin_agrees io j" "pin_agrees (output_shadow index m t io) j = pin_agrees io j"
  using assms(2) unfolding pin_agrees_def configure_shadow_def output_shadow_def Let_def
  by (simp_all add: pin_other[OF assms] split del: if_split) (simp_all add: pin_other[OF assms])

lemma configure_consistent:
  assumes "io_consistent io" "io_wf io" "index < 16" "configurable index t"
  shows "io_consistent (configure_shadow index (push_bit (unat index) 1) t io)"
proof -
  define m where "m = (push_bit (unat index) 1 :: u16)"
  have i: "unat index < 16" using assms(3) by (simp add: word_less_nat_alt)
  have t: "t \<in> {0, 1, 2, 3, 4, 5, 6, 7}" "t = 2 \<Longrightarrow> unat index < 8"
    using assms(4) small_types[of t] by (auto simp: configurable_def word_less_nat_alt)
  have "pin_agrees (configure_shadow index m t io) (unat index)"
    using t i assms(2) unfolding pin_agrees_def configure_shadow_def Let_def io_wf_def
    by (auto simp: pin_this[OF m_def i])
  with assms(1) show ?thesis unfolding io_consistent_def m_def[symmetric] by (metis shadow_other(1)[OF m_def])
qed

lemma output_consistent:
  assumes "io_consistent io" "io_wf io" "index < 16" "s \<in> {4, 5}" "bit (dout_enabled io) (unat index)"
  shows "io_consistent (output_shadow index (push_bit (unat index) 1) s io)"
proof -
  define m where "m = (push_bit (unat index) 1 :: u16)"
  have i: "unat index < 16" using assms(3) by (simp add: word_less_nat_alt)
  then have "pin_agrees io (unat index)" using assms(1) by (simp add: io_consistent_def)
  then have "pin_agrees (output_shadow index m s io) (unat index)"
    using assms(2,4,5) i unfolding pin_agrees_def output_shadow_def io_wf_def by (auto simp: pin_this[OF m_def i])
  with assms(1) show ?thesis unfolding io_consistent_def m_def[symmetric] by (metis shadow_other(2)[OF m_def])
qed

text \<open>
  A sample of a module whose pins are configured as the shadow says: it reports all digital inputs and
  perhaps outputs, exactly the analog inputs, and outputs at the level they are configured to.
\<close>

definition sample_agrees :: "xbee_io_t \<Rightarrow> bytes \<Rightarrow> bool" where
  "sample_agrees io src \<longleftrightarrow> (\<exists>dmask en rest. src = 1 # be16_bytes dmask @ en # rest \<and>
     (\<forall>i < 16. (config io ! i = 3 \<longrightarrow> bit dmask i) \<and> (bit dmask i \<longrightarrow> config io ! i \<in> {3, 4, 5}) \<and>
        (bit en i \<longleftrightarrow> i < 8 \<and> config io ! i = 2)) \<and>
     (dmask \<noteq> 0 \<longrightarrow> (\<exists>dsamp adc. rest = be16_bytes dsamp @ adc \<and>
        (\<forall>i < 16. config io ! i \<in> {4, 5} \<longrightarrow> (bit dsamp i \<longleftrightarrow> config io ! i = 5)))))"

lemma load_be16_bytes: "load_be16 (be16_bytes w @ r) = Some (w, r)"
  by (simp add: load_be16_def be16_bytes_def byte_simps)

lemma sample_masks:
  assumes "xbee_io_response_parse (Some io) (Some (1 # be16_bytes dmask @ en # rest)) = Some (r, Some io')"
  shows "analog_enabled io' = en" "config io' = config io"
    "dout_enabled io' = dout_enabled io AND NOT (ucast en AND 0x0F)"
    "din_enabled io' = (dmask AND NOT (dout_enabled io)) AND NOT (ucast en AND 0x0F)"
    "dmask = 0 \<Longrightarrow> dout_state io' = dout_state io"
    "dmask \<noteq> 0 \<Longrightarrow> rest = be16_bytes dsamp @ adc \<Longrightarrow>
       dout_state io' = (dout_state io AND NOT (dout_enabled io') OR dout_enabled io' AND dsamp)"
  using assms unfolding xbee_io_response_parse_def
  by (auto simp: nth_opt_def load_be16_bytes Let_def split: if_splits bind_splits)

lemma bit_low4: "bit (NOT (ucast (en :: u8) AND 0x0F) :: u16) i \<longleftrightarrow> i < 16 \<and> \<not> (bit en i \<and> i < 4)"
proof -
  have m: "(0x0F :: u16) = mask 4" by (simp add: mask_eq_exp_minus_1)
  show ?thesis unfolding m by (auto simp: bit_simps dest: bit_word_lt)
qed

lemma bit_not_word: "bit (NOT (w :: u16)) i \<longleftrightarrow> i < 16 \<and> \<not> bit w i"
  by (simp add: bit_not_iff)

lemma sample_consistent:
  assumes "io_consistent io" "sample_agrees io src"
    "xbee_io_response_parse (Some io) (Some src) = Some (r, Some io')"
  shows "io_consistent io'"
  unfolding io_consistent_def
proof (intro allI impI)
  fix i :: nat assume i: "i < 16"
  obtain dmask en rest where src: "src = 1 # be16_bytes dmask @ en # rest" and
    c: "config io ! i = 3 \<longrightarrow> bit dmask i" "bit dmask i \<longrightarrow> config io ! i \<in> {3, 4, 5}" "bit en i \<longleftrightarrow> i < 8 \<and> config io ! i = 2" and
    l: "dmask \<noteq> 0 \<longrightarrow> (\<exists>dsamp adc. rest = be16_bytes dsamp @ adc \<and> (config io ! i \<in> {4, 5} \<longrightarrow> (bit dsamp i \<longleftrightarrow> config io ! i = 5)))"
    using assms(2) i unfolding sample_agrees_def by metis
  define L where "L = (NOT (ucast en AND 0x0F) :: u16)"
  have L: "bit L i \<longleftrightarrow> \<not> (bit en i \<and> i < 4)" unfolding L_def bit_low4 using i by simp
  note masks = sample_masks[OF assms(3)[unfolded src], folded L_def]
  have p: "pin_agrees io i" using assms(1) i by (simp add: io_consistent_def)
  have d: "bit (dout_enabled io') i = bit (dout_enabled io) i" "bit (din_enabled io') i = bit (din_enabled io) i"
    unfolding masks(3,4) bit_and_iff bit_not_word L using p c i by (auto simp: pin_agrees_def)
  have "config io ! i \<in> {4, 5} \<longrightarrow> bit (dout_state io') i = bit (dout_state io) i"
  proof (cases "dmask = 0")
    case False
    then obtain dsamp adc where s: "rest = be16_bytes dsamp @ adc" "config io ! i \<in> {4, 5} \<longrightarrow> (bit dsamp i \<longleftrightarrow> config io ! i = 5)"
      using l by blast
    show ?thesis unfolding masks(6)[OF False s(1)] bit_and_iff bit_or_iff bit_not_word using p s(2) d(1) i
      by (auto simp: pin_agrees_def)
  qed (simp add: masks)
  then show "pin_agrees io' i" using p d c(3) i unfolding pin_agrees_def masks(1,2) by blast
qed

text \<open>Calls that do not force an output, and samples of the module in between.\<close>

inductive io_plain_call :: "'u at_env \<Rightarrow> wpan_address_t option \<Rightarrow> nat \<Rightarrow> 'u at_dev \<Rightarrow> 'u at_dev \<Rightarrow> bool" for E addr k where
  configure: "xbee_io_configure (E\<lparr>now := t\<rparr>) x (Some k) index type addr = Some (r, x') \<Longrightarrow> io_plain_call E addr k x x'"
| set_output: "xbee_io_set_digital_output (E\<lparr>now := t\<rparr>) x (Some k) index state addr = Some (r, x') \<Longrightarrow>
    state AND XBEE_IO_FORCE = 0 \<Longrightarrow> io_plain_call E addr k x x'"
| options: "xbee_io_set_options (E\<lparr>now := t\<rparr>) x (Some k) rate changes addr = Some (r, x') \<Longrightarrow> io_plain_call E addr k x x'"
| sample: "xbee_io_response_parse (Some (io_read x k)) (Some src) = Some (r, Some io') \<Longrightarrow> sample_agrees (io_read x k) src \<Longrightarrow>
    io_plain_call E addr k x (upd_io k (\<lambda>_. io') x)"

lemma plain_call_configure:
  assumes "io_ready k x" "addr_ok addr" "io_consistent (io_read x k)"
    "xbee_io_configure E x (Some k) index type addr = Some (r, x')"
  shows "io_consistent (io_read x' k)"
proof (cases "index < 16")
  case True
  let ?t = "type AND 0x0F"
  have wf: "io_wf (io_read x k)" using assms(1) by (simp add: io_ready_def)
  show ?thesis
  proof (cases "configurable index ?t \<and> pin_cmd index \<noteq> (0, 0) \<and> (type AND 0x80 \<noteq> 0 \<or> ucast (config (io_read x k) ! unat index) \<noteq> ?t)")
    case c: True
    then have "io_read x' k = configure_shadow index (push_bit (unat index) 1) ?t (io_read x k)"
      using configure_sends[OF assms(1,2) True refl, where E = E and type = type] assms(4) by (auto simp: io_sent_def)
    with configure_consistent[OF assms(3) wf True] c show ?thesis by simp
  next
    case False
    then show ?thesis using assms(3,4) unfolding configure_eq[OF True refl refl] by (auto split: if_splits)
  qed
next
  case False
  then have "index < 32 \<Longrightarrow> x' = x" "\<not> index < 32 \<Longrightarrow> False"
    using configure_none[of index E x k type addr] assms(4) by (auto simp: not_less[symmetric] xbee_io_configure_def pin_mask_def)
  then show ?thesis using assms(3) by blast
qed

lemma plain_call_output:
  assumes "io_ready k x" "addr_ok addr" "io_consistent (io_read x k)"
    "xbee_io_set_digital_output E x (Some k) index state addr = Some (r, x')" "state AND 0x80 = 0"
  shows "io_consistent (io_read x' k)"
proof (cases "index < 16 \<and> state AND 0x0F \<in> {4, 5} \<and> pin_cmd index \<noteq> (0, 0) \<and> bit (dout_enabled (io_read x k)) (unat index)")
  case True
  have wf: "io_wf (io_read x k)" using assms(1) by (simp add: io_ready_def)
  from True have "io_read x' k = output_shadow index (push_bit (unat index) 1) (state AND 0x0F) (io_read x k) \<or> io_read x' k = io_read x k"
    using output_sets[OF assms(1,2) _ refl _ _ _ refl, of index state E] assms(4) by (auto simp: io_sent_def)
  with output_consistent[OF assms(3) wf] True assms(3) show ?thesis by auto
next
  case False
  then have "index < 32 \<Longrightarrow> x' = x" "\<not> index < 32 \<Longrightarrow> False"
    using output_none[of index state x k E addr] assms(4,5)
    by (auto simp: not_less[symmetric] xbee_io_set_digital_output_def pin_mask_def)
  then show ?thesis using assms(3) by blast
qed

lemma plain_calls_consistent:
  assumes "(io_plain_call E addr k)\<^sup>*\<^sup>* x x'" "io_ready k x" "addr_ok addr" "io_consistent (io_read x k)"
  shows "io_ready k x' \<and> io_consistent (io_read x' k)"
  using assms(1)
proof (induction rule: rtranclp_induct)
  case (step y z)
  then have y: "io_ready k y" "io_consistent (io_read y k)" by simp_all
  from step(2) show ?case
  proof cases
    case (configure t index type r)
    then show ?thesis using plain_call_configure[OF y(1) assms(3) y(2)] configure_tracks[OF y(1) assms(3)]
      by (auto simp: io_tracks_def)
  next
    case (set_output t index state r)
    then show ?thesis using plain_call_output[OF y(1) assms(3) y(2)] output_tracks[OF y(1) assms(3)]
      by (auto simp: io_tracks_def)
  next
    case (options t rate changes r)
    then show ?thesis using options_tracks[OF y(1) assms(3), of "E\<lparr>now := t\<rparr>" rate changes] y
      by (auto simp: io_tracks_def io_consistent_def pin_agrees_def split: if_splits)
  next
    case (sample src r io')
    have o: "io_obj y k" "io_wf (io_read y k)" using y(1) by (simp_all add: io_ready_def)
    have "io_wf io'" using parse_keeps[OF sample(2) o(2)] by simp
    then have "io_read z k = io'" "io_ready k z" unfolding sample(1) using o io_ready_upd[OF y(1)] by simp_all
    then show ?thesis using sample_consistent[OF y(2) sample(3,2)] by simp
  qed
qed (use assms in simp_all)

text \<open>
  C19: one function for every pin. When the query of a module has ended, and after any calls that
  configure pins, set sampling options or set outputs without \<open>XBEE_IO_FORCE\<close>, with samples arriving in
  between of a module whose pins are configured as the shadow says, the three functions that read the shadow
  agree with the configured function \<open>c\<close> of each of the 16 pins: only a digital input has an input
  state, an output has the state it was configured or set to, and only an analog input has a reading. (A
  forced output on an input pin breaks this: see \<open>forced_output_keeps_input\<close>.)
\<close>

theorem io_pin_functions:
  assumes "io_ready k x" "addr_ok addr" "io_read x k = io_query_handle_end io0" "(io_plain_call E addr k)\<^sup>*\<^sup>* x x'"
    "index < 16" "io = io_read x' k" "c = config io ! unat index"
  shows "xbee_io_get_digital_input (Some io) index =
      Some (if c = XBEE_IO_TYPE_DIGITAL_INPUT then of_bool (bit (din_state io) (unat index)) else - EINVAL) \<and>
    xbee_io_get_digital_output (Some io) index =
      Some (if c = XBEE_IO_TYPE_DIGITAL_OUTPUT_HIGH then 1 else if c = XBEE_IO_TYPE_DIGITAL_OUTPUT_LOW then 0 else - EINVAL) \<and>
    xbee_io_get_analog_input (Some io) index =
      Some (if c = XBEE_IO_TYPE_ANALOG_INPUT \<and> index < 8 then sint (push_bit 5 (adc_sample io ! unat index)) else XBEE_IO_ANALOG_INVALID)"
proof -
  have i: "unat index < 16" "index < 32" "index < 8 \<longleftrightarrow> unat index < 8"
    using assms(5) by (auto simp: word_less_nat_alt)
  have "io_consistent io" using plain_calls_consistent[OF assms(4,1,2)] handle_end_consistent assms(3,6) by metis
  then have "pin_agrees io (unat index)" using i(1) by (simp add: io_consistent_def)
  then show ?thesis unfolding digital_readings[OF i(2)] i(3) assms(7) pin_agrees_def by auto
qed

section \<open>An example\<close>

text \<open>A device after the first calls, with a structure in memory of which nothing is known.\<close>

definition demo_io :: "unit at_dev" where
  "demo_io = demo_cmd\<lparr>dev_flags := 1, app := demo_app\<lparr>create_initialized := 1, objects := (\<lambda>_. replicate 88 0)\<rparr>\<rparr>"

lemma demo_io_ready: "io_ready k demo_io" "io_read demo_io k = io_zero" "os_tx (serport demo_io) = []"
proof -
  have t: "table demo_io = replicate 4 zero_request" by (simp add: demo_io_def demo_app_def)
  then have "table_ok demo_io" by (simp add: table_ok_def)
  then have "at_inv 1 False demo_io"
    using t by (auto simp: at_inv_def list_entry_ok_def zero_request_def) (simp_all add: demo_io_def demo_app_def)
  moreover have "free_slot demo_io \<noteq> None" by (rule free_slot_exists[of 0]) (simp_all add: t zero_request_def)
  moreover have "can_send demo_io" using demo_cmd_ok(3) by (simp add: can_send_def demo_io_def)
  ultimately show "io_ready k demo_io" by (simp add: io_ready_def io_obj_def demo_io_def)
  show "io_read demo_io k = io_zero" by (simp add: io_read_def io_zero_def demo_io_def)
  show "os_tx (serport demo_io) = []" using demo_cmd_ok(4) by (simp add: demo_io_def)
qed

lemma io_zero_fields:
  "config io_zero = replicate 16 0" "din_enabled io_zero = 0" "dout_enabled io_zero = 0" "analog_enabled io_zero = 0"
  "sample_rate io_zero = 0" "change_mask io_zero = 0"
  by (simp_all add: io_zero_def io_decode_def mem16_def be16_of_def)

lemma io_zero_end: "io_query_handle_end io_zero = io_zero"
proof -
  have s: "config_step io_zero i = io_zero" if "i < 16" for i
    using that by (simp add: config_step_def Let_def io_zero_fields)
  have "\<forall>i \<in> set is. i < 16 \<Longrightarrow> foldl config_step io_zero is = io_zero" for "is"
    by (induction "is") (simp_all add: s)
  from this[of "[0..<16]"] show ?thesis by (simp add: io_query_handle_end_def)
qed

lemma observer_now [simp]: "(observer t)\<lparr>now := t'\<rparr> = observer t'"
  by (simp add: observer_def)

text \<open>Pin 2 becomes an output that is high.\<close>

lemma demo_configure:
  obtains x' where "xbee_io_configure (observer 1) demo_io (Some 0) 2 5 None = Some (0, x')"
    "config (io_read x' 0) ! 2 = 5"
proof -
  have "configurable 2 (5 :: u32)" by (simp add: configurable_def)
  moreover have "pin_cmd 2 \<noteq> (0, 0)" by code_simp
  ultimately obtain x' where "xbee_io_configure (observer 1) demo_io (Some 0) 2 5 None = Some (0, x')"
    "io_sent None 0 demo_io (pin_cmd 2) 5 (configure_shadow 2 (push_bit (unat (2 :: u8)) 1) 5 io_zero) x'"
    using configure_sends[OF demo_io_ready(1), where addr = None and index = 2 and type = 5 and t = 5 and E = "observer 1"]
    by (auto simp: addr_ok_def io_zero_fields demo_io_ready(2))
  then show thesis
    by (intro that[of x']) (auto simp: io_sent_def configure_shadow_def Let_def io_zero_fields)
qed

theorem io_shadow_mirrors_witness:
  "\<exists>x' ps. xbee_io_configure (observer 1) demo_io (Some 0) 2 5 None = Some (0, x') \<and>
     os_tx (serport x') = concat (map wire ps) \<and> config (io_read x' 0) ! 2 = 5 \<and>
     mirrors (foldl (module_write None) (\<lambda>_. [0]) ps) (io_read x' 0)"
proof -
  obtain x' where c: "xbee_io_configure (observer 1) demo_io (Some 0) 2 5 None = Some (0, x')"
    "config (io_read x' 0) ! 2 = 5" by (rule demo_configure)
  then have call: "(io_call (observer 0) None 0)\<^sup>*\<^sup>* demo_io x'"
    by (intro r_into_rtranclp io_call.configure[where t = 1]) simp
  have z: "mirrors (\<lambda>_. [0]) (io_read demo_io 0)"
    by (simp add: mirrors_def demo_io_ready(2) io_zero_fields xbee_cmd_encode_param_def)
  from io_shadow_mirrors[OF demo_io_ready(1) _ z call] c demo_io_ready(3) show ?thesis
    by (auto simp: addr_ok_def)
qed

theorem io_pin_functions_witness:
  "\<exists>x'. xbee_io_configure (observer 1) demo_io (Some 0) 2 5 None = Some (0, x') \<and>
     xbee_io_get_digital_output (Some (io_read x' 0)) 2 = Some 1 \<and>
     xbee_io_get_digital_input (Some (io_read x' 0)) 2 = Some (- 22)"
proof -
  obtain x' where c: "xbee_io_configure (observer 1) demo_io (Some 0) 2 5 None = Some (0, x')"
    "config (io_read x' 0) ! 2 = 5" by (rule demo_configure)
  then have call: "(io_plain_call (observer 0) None 0)\<^sup>*\<^sup>* demo_io x'"
    by (intro r_into_rtranclp io_plain_call.configure[where t = 1]) simp
  from io_pin_functions[OF demo_io_ready(1) _ _ call, of io_zero 2] c show ?thesis
    by (auto simp: addr_ok_def io_zero_end demo_io_ready(2))
qed

text \<open>
  Forcing an output on a pin that the shadow has as an input leaves it an input as well.
\<close>

lemma forced_output_keeps_input:
  assumes "io_ready k x" "addr_ok addr" "index < 16" "pin_cmd index \<noteq> (0, 0)" "bit (din_enabled (io_read x k)) (unat index)"
  shows "\<exists>x'. xbee_io_set_digital_output E x (Some k) index 0x85 addr = Some (1, x') \<and>
    bit (din_enabled (io_read x' k)) (unat index) \<and> bit (dout_enabled (io_read x' k)) (unat index)"
proof -
  obtain x' where x': "xbee_io_set_digital_output E x (Some k) index 0x85 addr = Some (1, x')"
    "io_sent addr k x (pin_cmd index) 5 (output_shadow index (push_bit (unat index) 1) 5 (io_read x k)) x'"
    using output_sets[OF assms(1,2,3) _ _ assms(4) _ refl, of 5 "0x85" E] by auto
  have i: "unat index < 16" using assms(3) by (simp add: word_less_nat_alt)
  from x' show ?thesis using assms(5) pin_this(2)[OF refl i] by (auto simp: io_sent_def output_shadow_def)
qed

end
