(* ===== verification/Wpan_Aps.thy ===== *)
theory Wpan_Aps
  imports Prelude "HOL-Library.Monad_Syntax"
begin

text \<open>
  \<open>src/Software/lib/XBee/src/wpan/wpan_aps.c\<close>, first part: the tables of endpoints and clusters, the
  conversations of an endpoint, and envelopes. One device is attached. A pointer into the endpoint
  table is an index; functions of the application have numbers and their behaviour is a parameter.
  Pointers to structures are not null except where a result or an argument may be (\<open>option\<close>). The
  outer \<open>None\<close> of a result means that an access left an array, or that a walk over the endpoints by a
  function of the application did not end.
\<close>

section \<open>Tables, conversations, envelopes\<close>

abbreviation (input) WPAN_CLUSTER_END_OF_LIST :: u16 where "WPAN_CLUSTER_END_OF_LIST \<equiv> 0xFFFF"
abbreviation (input) WPAN_ENDPOINT_END_OF_LIST :: u8 where "WPAN_ENDPOINT_END_OF_LIST \<equiv> 0xFF"
abbreviation (input) WPAN_ENDPOINT_BROADCAST :: u8 where "WPAN_ENDPOINT_BROADCAST \<equiv> 0xFF"
abbreviation (input) WPAN_APS_PROFILE_ANY :: u16 where "WPAN_APS_PROFILE_ANY \<equiv> 0xFFFF"
abbreviation (input) WPAN_CLUST_FLAG_INOUT :: u8 where "WPAN_CLUST_FLAG_INOUT \<equiv> 0x03"
abbreviation (input) WPAN_CLUST_FLAG_ENCRYPT :: "'a::len word" where "WPAN_CLUST_FLAG_ENCRYPT \<equiv> 0x10"
abbreviation (input) WPAN_CLUST_FLAG_ENCRYPT_UNICAST :: u8 where "WPAN_CLUST_FLAG_ENCRYPT_UNICAST \<equiv> 0x20"
abbreviation (input) WPAN_CLUST_FLAG_NOT_ZCL :: u8 where "WPAN_CLUST_FLAG_NOT_ZCL \<equiv> 0x80"
abbreviation (input) WPAN_ENVELOPE_CLUSTER_FLAGS :: u16 where "WPAN_ENVELOPE_CLUSTER_FLAGS \<equiv> 0x00FF"
abbreviation (input) WPAN_ENVELOPE_BROADCAST_ADDR :: u16 where "WPAN_ENVELOPE_BROADCAST_ADDR \<equiv> 0x0100"
abbreviation (input) WPAN_ENVELOPE_BROADCAST_EP :: u16 where "WPAN_ENVELOPE_BROADCAST_EP \<equiv> 0x0200"
abbreviation (input) WPAN_ENVELOPE_RX_APS_ENCRYPT :: u16 where "WPAN_ENVELOPE_RX_APS_ENCRYPT \<equiv> 0x0400"
abbreviation (input) WPAN_SEND_FLAG_NONE :: u16 where "WPAN_SEND_FLAG_NONE \<equiv> 0"
abbreviation (input) WPAN_SEND_FLAG_ENCRYPTED :: u16 where "WPAN_SEND_FLAG_ENCRYPTED \<equiv> 1"
abbreviation (input) WPAN_MAX_CONVERSATIONS :: nat where "WPAN_MAX_CONVERSATIONS \<equiv> 3"
abbreviation (input) WPAN_CONVERSATION_END :: int where "WPAN_CONVERSATION_END \<equiv> 1"
abbreviation (input) ENOENT :: int where "ENOENT \<equiv> 2"

record wpan_cluster_table_entry_t =
  clust_id :: u16
  clust_handler :: "nat option"
  clust_context :: nat
  clust_flags :: u8

record wpan_endpoint_table_entry_t =
  endpoint :: u8
  ep_profile_id :: u16
  ep_handler :: "nat option"
  ep_state :: "nat option"
  device_id :: u16
  device_version :: u8
  cluster_table :: "wpan_cluster_table_entry_t list option"

record wpan_conversation_t =
  transaction_id :: u8
  conv_context :: nat
  conv_timeout :: u16
  conv_handler :: "nat option"

record wpan_ep_state_t =
  last_transaction :: u8
  conversations :: "wpan_conversation_t list"

text \<open>\<open>env_payload\<close> is the memory the pointer points to.\<close>

record wpan_envelope_t =
  env_ieee :: bytes
  env_network :: u16
  profile_id :: u16
  cluster_id :: u16
  source_endpoint :: u8
  dest_endpoint :: u8
  env_options :: u16
  env_payload :: bytes
  env_length :: u16

text \<open>
  The state: the endpoint table with its terminator, the states of endpoints, the variables of the
  application by number, and the layer below.
\<close>

record ('v, 's) aps =
  ep_table :: "wpan_endpoint_table_entry_t list option"
  ep_states :: "nat \<Rightarrow> wpan_ep_state_t"
  vars :: 'v
  link :: 's

text \<open>
  What the device and the application provide: the clock during a call, sending of an envelope, the
  tick of the device, an own walk over the endpoint table, and handlers for clusters, endpoints and
  conversations (which get the state and the index of the conversation, and no envelope on a timeout).
\<close>

record ('v, 's) aps_env =
  aps_now :: u32
  endpoint_send :: "(wpan_envelope_t \<Rightarrow> u16 \<Rightarrow> 's \<Rightarrow> int \<times> 's) option"
  dev_tick :: "(('v, 's) aps \<Rightarrow> int \<times> ('v, 's) aps) option"
  endpoint_get_next :: "(nat option \<Rightarrow> nat option) option"
  clust_fn :: "nat \<Rightarrow> wpan_envelope_t \<Rightarrow> nat \<Rightarrow> ('v, 's) aps \<Rightarrow> (int \<times> ('v, 's) aps) option"
  ep_fn :: "nat \<Rightarrow> wpan_envelope_t \<Rightarrow> nat option \<Rightarrow> ('v, 's) aps \<Rightarrow> (int \<times> ('v, 's) aps) option"
  conv_fn :: "nat \<Rightarrow> nat \<times> nat \<Rightarrow> wpan_envelope_t option \<Rightarrow> ('v, 's) aps \<Rightarrow> int \<times> ('v, 's) aps"

section \<open>Searching the tables\<close>

fun cluster_search :: "u16 \<Rightarrow> u8 \<Rightarrow> wpan_cluster_table_entry_t list \<Rightarrow> wpan_cluster_table_entry_t option option" where
  "cluster_search match flags [] = None"
| "cluster_search match flags (entry # rest) =
     (if clust_id entry = WPAN_CLUSTER_END_OF_LIST then Some None
      else if clust_id entry = match \<and> flags AND clust_flags entry \<noteq> 0 then Some (Some entry)
      else cluster_search match flags rest)"

definition wpan_cluster_match ::
  "u16 \<Rightarrow> u8 \<Rightarrow> wpan_cluster_table_entry_t list option \<Rightarrow> wpan_cluster_table_entry_t option option" where
  "wpan_cluster_match match flags entry = (case entry of None \<Rightarrow> Some None | Some es \<Rightarrow> cluster_search match flags es)"

definition wpan_endpoint_get_next :: "('v, 's) aps_env \<Rightarrow> ('v, 's) aps \<Rightarrow> nat option \<Rightarrow> nat option option" where
  "wpan_endpoint_get_next E d ep =
     (case endpoint_get_next E of
        Some f \<Rightarrow> Some (f ep)
      | None \<Rightarrow>
          case ep of
            None \<Rightarrow> Some (case ep_table d of None \<Rightarrow> None | Some _ \<Rightarrow> Some 0)
          | Some i \<Rightarrow> do {
              t \<leftarrow> ep_table d;
              e \<leftarrow> nth_opt t (i + 1);
              Some (if endpoint e = WPAN_ENDPOINT_END_OF_LIST then None else Some (i + 1)) })"

text \<open>The entry a pointer points to.\<close>

definition ep_entry :: "('v, 's) aps \<Rightarrow> nat \<Rightarrow> wpan_endpoint_table_entry_t option" where
  "ep_entry d i = do { t \<leftarrow> ep_table d; nth_opt t i }"

text \<open>The loop of the search functions, with a bound on its rounds; the condition may fail to be computed.\<close>

fun endpoint_search ::
  "nat \<Rightarrow> ('v, 's) aps_env \<Rightarrow> ('v, 's) aps \<Rightarrow> (wpan_endpoint_table_entry_t \<Rightarrow> bool option) \<Rightarrow> nat option \<Rightarrow> nat option option" where
  "endpoint_search 0 E d P ep = None"
| "endpoint_search (Suc n) E d P ep = do {
     next \<leftarrow> wpan_endpoint_get_next E d ep;
     case next of
       None \<Rightarrow> Some None
     | Some i \<Rightarrow> do {
         e \<leftarrow> ep_entry d i;
         found \<leftarrow> P e;
         if found then Some (Some i) else endpoint_search n E d P (Some i) } }"

text \<open>More rounds than there are entries.\<close>

definition walk_bound :: "('v, 's) aps \<Rightarrow> nat" where
  "walk_bound d = (case ep_table d of None \<Rightarrow> 1 | Some t \<Rightarrow> Suc (length t))"

definition wpan_endpoint_match :: "('v, 's) aps_env \<Rightarrow> ('v, 's) aps \<Rightarrow> u8 \<Rightarrow> u16 \<Rightarrow> nat option option" where
  "wpan_endpoint_match E d ep profile = (
     let matchany = profile = WPAN_APS_PROFILE_ANY in
     endpoint_search (walk_bound d) E d (\<lambda>e. Some (ep = endpoint e \<and> (matchany \<or> profile = ep_profile_id e))) None)"

definition wpan_endpoint_of_envelope :: "('v, 's) aps_env \<Rightarrow> ('v, 's) aps \<Rightarrow> wpan_envelope_t option \<Rightarrow> nat option option" where
  "wpan_endpoint_of_envelope E d env =
     (case env of None \<Rightarrow> Some None | Some env \<Rightarrow> wpan_endpoint_match E d (source_endpoint env) (profile_id env))"

definition wpan_endpoint_of_cluster :: "('v, 's) aps_env \<Rightarrow> ('v, 's) aps \<Rightarrow> u16 \<Rightarrow> u16 \<Rightarrow> u8 \<Rightarrow> nat option option" where
  "wpan_endpoint_of_cluster E d profile cluster flags = (
     let matchany = profile = WPAN_APS_PROFILE_ANY in
     endpoint_search (walk_bound d) E d
       (\<lambda>e. if matchany \<or> profile = ep_profile_id e
            then map_option (\<lambda>c. c \<noteq> None) (wpan_cluster_match cluster flags (cluster_table e)) else Some False) None)"

section \<open>Conversations\<close>

definition zero_conversation :: wpan_conversation_t where
  "zero_conversation = \<lparr>transaction_id = 0, conv_context = 0, conv_timeout = 0, conv_handler = None\<rparr>"

text \<open>The time at which a new conversation expires; 0 is never.\<close>

definition expiry :: "u32 \<Rightarrow> u16 \<Rightarrow> u16" where
  "expiry now timeout =
     (if timeout \<noteq> 0 then let t = timeout + ucast now in if t = 0 then 1 else t else timeout)"

definition wpan_conversation_register ::
  "u32 \<Rightarrow> wpan_ep_state_t option \<Rightarrow> nat option \<Rightarrow> nat \<Rightarrow> u16 \<Rightarrow> int \<times> wpan_ep_state_t option" where
  "wpan_conversation_register now state handler c timeout =
     (case state of
        None \<Rightarrow> (- EINVAL, None)
      | Some s \<Rightarrow>
          let next = last_transaction s + 1 in
          case handler of
            None \<Rightarrow> (uint next, Some (s\<lparr>last_transaction := next\<rparr>))
          | Some h \<Rightarrow>
              case find (\<lambda>i. conv_handler (conversations s ! i) = None) [0..<WPAN_MAX_CONVERSATIONS] of
                None \<Rightarrow> (- ENOSPC, Some s)
              | Some i \<Rightarrow>
                  (uint next, Some (s\<lparr>last_transaction := next, conversations := (conversations s)[i :=
                     \<lparr>transaction_id = next, conv_context = c, conv_timeout = expiry now timeout, conv_handler = Some h\<rparr>]\<rparr>)))"

text \<open>The conversation with index \<open>i\<close> of endpoint state \<open>s\<close>.\<close>

definition upd_state :: "nat \<Rightarrow> (wpan_ep_state_t \<Rightarrow> wpan_ep_state_t) \<Rightarrow> ('v, 's) aps \<Rightarrow> ('v, 's) aps" where
  "upd_state s f d = d\<lparr>ep_states := (ep_states d)(s := f (ep_states d s))\<rparr>"

abbreviation conversation :: "('v, 's) aps \<Rightarrow> nat \<Rightarrow> nat \<Rightarrow> wpan_conversation_t" where
  "conversation d s i \<equiv> conversations (ep_states d s) ! i"

definition wpan_conversation_delete :: "nat \<times> nat \<Rightarrow> ('v, 's) aps \<Rightarrow> ('v, 's) aps" where
  "wpan_conversation_delete p d = (case p of (s, i) \<Rightarrow>
     upd_state s (\<lambda>st. st\<lparr>conversations := (conversations st)[i := zero_conversation]\<rparr>) d)"

definition expired :: "u16 \<Rightarrow> wpan_conversation_t \<Rightarrow> bool" where
  "expired now c \<longleftrightarrow> conv_handler c \<noteq> None \<and> conv_timeout c \<noteq> 0 \<and> 0 \<le> sint (now - conv_timeout c)"

definition expire_one :: "('v, 's) aps_env \<Rightarrow> nat \<Rightarrow> ('v, 's) aps \<Rightarrow> nat \<Rightarrow> ('v, 's) aps" where
  "expire_one E s d i =
     (if expired (ucast (aps_now E)) (conversation d s i)
      then wpan_conversation_delete (s, i) (snd (conv_fn E (the (conv_handler (conversation d s i))) (s, i) None d))
      else d)"

definition wpan_endpoint_expire_conversations :: "('v, 's) aps_env \<Rightarrow> nat option \<Rightarrow> ('v, 's) aps \<Rightarrow> ('v, 's) aps" where
  "wpan_endpoint_expire_conversations E state d =
     (case state of None \<Rightarrow> d | Some s \<Rightarrow> foldl (expire_one E s) d [0..<WPAN_MAX_CONVERSATIONS])"

text \<open>The result of the search is the first conversation with the transaction ID that has a handler.\<close>

definition wpan_conversation_response ::
  "('v, 's) aps_env \<Rightarrow> nat option \<Rightarrow> u8 \<Rightarrow> wpan_envelope_t \<Rightarrow> ('v, 's) aps \<Rightarrow> (int \<times> ('v, 's) aps) option" where
  "wpan_conversation_response E state tid env d = do {
     found \<leftarrow>
       (case state of
          Some s \<Rightarrow> Some (Some s)
        | None \<Rightarrow> do {
            ep \<leftarrow> wpan_endpoint_match E d (dest_endpoint env) (profile_id env);
            case ep of
              None \<Rightarrow> Some None
            | Some i \<Rightarrow> do { e \<leftarrow> ep_entry d i; s \<leftarrow> ep_state e; Some (Some s) } });
     case found of
       None \<Rightarrow> Some (- EINVAL, d)
     | Some s \<Rightarrow>
         (case find (\<lambda>i. transaction_id (conversation d s i) = tid \<and> conv_handler (conversation d s i) \<noteq> None)
                 [0..<WPAN_MAX_CONVERSATIONS] of
            None \<Rightarrow> Some (- EINVAL, d)
          | Some i \<Rightarrow>
              let (retval, d) = conv_fn E (the (conv_handler (conversation d s i))) (s, i) (Some env) d;
                  d = (if retval = WPAN_CONVERSATION_END then wpan_conversation_delete (s, i) d else d)
              in Some (if retval < 0 then retval else 0, d)) }"

definition wpan_endpoint_next_trans :: "wpan_endpoint_table_entry_t option \<Rightarrow> ('v, 's) aps \<Rightarrow> u8 \<times> ('v, 's) aps" where
  "wpan_endpoint_next_trans ep d =
     (case ep of
        None \<Rightarrow> (0, d)
      | Some e \<Rightarrow>
          case ep_state e of
            None \<Rightarrow> (0, d)
          | Some s \<Rightarrow>
              let n = last_transaction (ep_states d s) + 1
              in (n, upd_state s (\<lambda>st. st\<lparr>last_transaction := n\<rparr>) d))"

section \<open>Envelopes\<close>

definition wpan_envelope_create :: "bytes \<Rightarrow> u16 \<Rightarrow> wpan_envelope_t" where
  "wpan_envelope_create ieee network_addr =
     \<lparr>env_ieee = ieee, env_network = network_addr, profile_id = 0, cluster_id = 0, source_endpoint = 0,
      dest_endpoint = 0, env_options = 0, env_payload = [], env_length = 0\<rparr>"

text \<open>The reply is another object than the original.\<close>

definition wpan_envelope_reply :: "wpan_envelope_t \<Rightarrow> wpan_envelope_t" where
  "wpan_envelope_reply original =
     \<lparr>env_ieee = env_ieee original, env_network = env_network original, profile_id = profile_id original,
      cluster_id = cluster_id original, source_endpoint = dest_endpoint original,
      dest_endpoint = source_endpoint original,
      env_options = (if env_options original AND WPAN_ENVELOPE_RX_APS_ENCRYPT \<noteq> 0 then WPAN_CLUST_FLAG_ENCRYPT else 0),
      env_payload = [], env_length = 0\<rparr>"

definition wpan_envelope_send :: "('v, 's) aps_env \<Rightarrow> wpan_envelope_t \<Rightarrow> ('v, 's) aps \<Rightarrow> int \<times> ('v, 's) aps" where
  "wpan_envelope_send E env d =
     (case endpoint_send E of
        None \<Rightarrow> (- EINVAL, d)
      | Some send \<Rightarrow>
          let (r, l) = send env (if env_options env AND WPAN_CLUST_FLAG_ENCRYPT \<noteq> 0
                                 then WPAN_SEND_FLAG_ENCRYPTED else WPAN_SEND_FLAG_NONE) (link d)
          in (r, d\<lparr>link := l\<rparr>))"

section \<open>The tick\<close>

fun tick_walk :: "nat \<Rightarrow> ('v, 's) aps_env \<Rightarrow> nat option \<Rightarrow> ('v, 's) aps \<Rightarrow> ('v, 's) aps option" where
  "tick_walk 0 E ep d = None"
| "tick_walk (Suc n) E ep d = do {
     next \<leftarrow> wpan_endpoint_get_next E d ep;
     case next of
       None \<Rightarrow> Some d
     | Some i \<Rightarrow> do {
         e \<leftarrow> ep_entry d i;
         tick_walk n E (Some i) (wpan_endpoint_expire_conversations E (ep_state e) d) } }"

definition wpan_tick :: "('v, 's) aps_env \<Rightarrow> ('v, 's) aps \<Rightarrow> (int \<times> ('v, 's) aps) option" where
  "wpan_tick E d = do {
     let (retval, d) = (case dev_tick E of Some f \<Rightarrow> f d | None \<Rightarrow> (- EINVAL, d));
     d \<leftarrow> tick_walk (walk_bound d) E None d;
     Some (retval, d) }"

section \<open>Endpoint tables\<close>

text \<open>A table with at least one endpoint, walked by the functions of the library.\<close>

definition table_of_eps :: "('v, 's) aps_env \<Rightarrow> ('v, 's) aps \<Rightarrow> wpan_endpoint_table_entry_t list \<Rightarrow> bool" where
  "table_of_eps E d es \<longleftrightarrow> endpoint_get_next E = None \<and> es \<noteq> [] \<and> (\<forall>e \<in> set es. endpoint e \<noteq> 0xFF) \<and>
     (\<exists>t rest. ep_table d = Some (es @ t # rest) \<and> endpoint t = 0xFF)"

lemma get_next_table:
  assumes "table_of_eps E d es"
  shows "wpan_endpoint_get_next E d None = Some (Some 0)"
    "i < length es \<Longrightarrow> wpan_endpoint_get_next E d (Some i) = Some (if i + 1 < length es then Some (i + 1) else None)"
    "i < length es \<Longrightarrow> ep_entry d i = Some (es ! i)" "length es < walk_bound d"
proof -
  obtain t rest where t: "ep_table d = Some (es @ t # rest)" "endpoint t = 0xFF" "endpoint_get_next E = None"
    and es: "\<forall>e \<in> set es. endpoint e \<noteq> 0xFF" using assms by (auto simp: table_of_eps_def)
  show "wpan_endpoint_get_next E d None = Some (Some 0)" by (simp add: wpan_endpoint_get_next_def t)
  show "ep_entry d i = Some (es ! i)" if "i < length es" using that by (simp add: ep_entry_def t nth_opt_def nth_append)
  show "length es < walk_bound d" by (simp add: walk_bound_def t)
  show "wpan_endpoint_get_next E d (Some i) = Some (if i + 1 < length es then Some (i + 1) else None)" if "i < length es"
  proof (cases "Suc i < length es")
    case True
    then have "endpoint (es ! Suc i) \<noteq> 0xFF" using es nth_mem by blast
    with True show ?thesis by (simp add: wpan_endpoint_get_next_def t nth_opt_def nth_append)
  next
    case False
    then have "Suc i = length es" using that by simp
    then show ?thesis using t(2) by (simp add: wpan_endpoint_get_next_def t nth_opt_def nth_append)
  qed
qed

lemma endpoint_search_from:
  assumes "table_of_eps E d es" "i \<le> length es" "length es - i < n" "i = 0 \<and> p = None \<or> (\<exists>j. i = Suc j \<and> p = Some j)"
  shows "endpoint_search n E d (\<lambda>e. Some (P e)) p = Some (find (\<lambda>i. P (es ! i)) [i..<length es])"
  using assms(2-)
proof (induction n arbitrary: i p)
  case (Suc n)
  have ne: "0 < length es" using assms(1) by (simp add: table_of_eps_def)
  have step: "wpan_endpoint_get_next E d p = Some (if i < length es then Some i else None)"
    using Suc.prems(3) get_next_table[OF assms(1)] Suc.prems(1) ne by auto
  show ?case
  proof (cases "i < length es")
    case True
    have "endpoint_search n E d (\<lambda>e. Some (P e)) (Some i) = Some (find (\<lambda>i. P (es ! i)) [Suc i..<length es])"
      using True Suc.prems by (intro Suc.IH) auto
    then show ?thesis using True by (simp add: step get_next_table(3)[OF assms(1)] upt_conv_Cons)
  next
    case False
    then show ?thesis using Suc.prems(1) by (simp add: step)
  qed
qed simp

definition ep_matches :: "u8 \<Rightarrow> u16 \<Rightarrow> wpan_endpoint_table_entry_t \<Rightarrow> bool" where
  "ep_matches ep profile e \<longleftrightarrow> endpoint e = ep \<and> (profile = 0xFFFF \<or> ep_profile_id e = profile)"

lemma endpoint_match_first:
  assumes "table_of_eps E d es"
  shows "wpan_endpoint_match E d ep profile = Some (find (\<lambda>i. ep_matches ep profile (es ! i)) [0..<length es])"
proof -
  have "(\<lambda>e. Some (ep = endpoint e \<and> (profile = 0xFFFF \<or> profile = ep_profile_id e))) = (\<lambda>e. Some (ep_matches ep profile e))"
    by (auto simp: ep_matches_def)
  then show ?thesis
    using endpoint_search_from[OF assms, of 0 "walk_bound d" None "ep_matches ep profile"] get_next_table(4)[OF assms]
    by (simp add: wpan_endpoint_match_def)
qed

section \<open>The life of a conversation\<close>

definition ep_state_ok :: "wpan_ep_state_t \<Rightarrow> bool" where
  "ep_state_ok st \<longleftrightarrow> length (conversations st) = 3"

text \<open>No active conversation has the given transaction ID.\<close>

definition unused_id :: "wpan_ep_state_t \<Rightarrow> u8 \<Rightarrow> bool" where
  "unused_id st t \<longleftrightarrow> (\<forall>i < 3. conv_handler (conversations st ! i) \<noteq> None \<longrightarrow> transaction_id (conversations st ! i) \<noteq> t)"

lemma find_some_free:
  assumes "find (\<lambda>i. P i) [0..<n] = Some i"
  shows "i < n" "P i" "\<And>j. j < i \<Longrightarrow> \<not> P j"
  using assms by (auto simp: find_Some_iff)

lemma find_unique:
  assumes "i < n" "P i" "\<And>j. j < n \<Longrightarrow> P j \<Longrightarrow> j = i"
  shows "find P [0..<n] = Some i"
proof -
  have "\<not> P j" if "j < i" for j using that assms(1) assms(3)[of j] by auto
  then show ?thesis using assms(1,2) unfolding find_Some_iff by (intro exI[of _ i]) simp
qed

lemma register_free:
  assumes "ep_state_ok st" "conv_handler (conversations st ! j) = None" "j < 3"
  shows "\<exists>i st'. wpan_conversation_register now (Some st) (Some h) c t = (uint (last_transaction st + 1), Some st') \<and> i < 3 \<and>
    conv_handler (conversations st ! i) = None \<and>
    st' = st\<lparr>last_transaction := last_transaction st + 1, conversations := (conversations st)[i :=
      \<lparr>transaction_id = last_transaction st + 1, conv_context = c, conv_timeout = expiry now t, conv_handler = Some h\<rparr>]\<rparr>"
proof -
  obtain i where i: "find (\<lambda>i. conv_handler (conversations st ! i) = None) [0..<3] = Some i"
    using assms(2,3) by (cases "find (\<lambda>i. conv_handler (conversations st ! i) = None) [0..<3]") (auto simp: find_None_iff)
  with find_some_free[OF i] show ?thesis
    by (auto simp: wpan_conversation_register_def Let_def simp del: upt_rec_numeral)
qed

text \<open>
  C30: a response finds its conversation. Registering a handler in a state with a free entry returns a
  transaction ID. Unless an active conversation still has this ID, which takes 256 registrations while it
  is open, a response with the ID calls this handler with the entry that holds its context, and
  no other; when the handler ends the conversation the entry is free again. A response with an ID that no
  active conversation has is refused and changes nothing.
\<close>

theorem conversation_response_routed:
  assumes "ep_state_ok st" "j < 3" "conv_handler (conversations st ! j) = None" "unused_id st (last_transaction st + 1)"
    "wpan_conversation_register now (Some st) (Some h) c t = (r, Some st')" "ep_states d s = st'"
  shows "\<exists>i < 3. conv_context (conversation d s i) = c \<and> uint (transaction_id (conversation d s i)) = r \<and>
    (\<forall>q. q \<noteq> i \<longrightarrow> conversation d s q = conversations st ! q) \<and>
    (\<forall>env x d'. conv_fn E h (s, i) (Some env) d = (x, d') \<longrightarrow>
       wpan_conversation_response E (Some s) (of_int r) env d =
         Some (if x < 0 then x else 0, if x = WPAN_CONVERSATION_END then wpan_conversation_delete (s, i) d' else d')) \<and>
    (\<forall>env u. unused_id st u \<and> uint u \<noteq> r \<longrightarrow> wpan_conversation_response E (Some s) u env d = Some (- EINVAL, d))"
proof -
  let ?n = "last_transaction st + 1"
  obtain i where i: "i < 3" "conv_handler (conversations st ! i) = None" and r: "r = uint ?n"
    and st': "st' = st\<lparr>last_transaction := ?n, conversations := (conversations st)[i :=
      \<lparr>transaction_id = ?n, conv_context = c, conv_timeout = expiry now t, conv_handler = Some h\<rparr>]\<rparr>"
    using register_free[OF assms(1,3,2), of now h c t] assms(5) by auto
  have l: "length (conversations st) = 3" using assms(1) by (simp add: ep_state_ok_def)
  have here: "conversation d s i = \<lparr>transaction_id = ?n, conv_context = c, conv_timeout = expiry now t, conv_handler = Some h\<rparr>"
    and other: "q \<noteq> i \<Longrightarrow> conversation d s q = conversations st ! q" for q
    using l i(1) by (simp_all add: assms(6) st')
  let ?P = "\<lambda>u q. transaction_id (conversation d s q) = u \<and> conv_handler (conversation d s q) \<noteq> None"
  have hit: "find (?P ?n) [0..<3] = Some i"
  proof (rule find_unique)
    show "q = i" if "q < 3" "?P ?n q" for q
      using that other[of q] assms(4) by (cases "q = i") (auto simp: unused_id_def)
  qed (use i(1) here in simp_all)
  have miss: "find (?P u) [0..<3] = None" if "unused_id st u" "uint u \<noteq> r" for u
  proof -
    have "\<not> ?P u q" if "q < 3" for q
      using that \<open>unused_id st u\<close> \<open>uint u \<noteq> r\<close> here other by (cases "q = i") (auto simp: unused_id_def r)
    then show ?thesis unfolding find_None_iff by auto
  qed
  show ?thesis
    using i(1) here other hit miss unfolding r
    by (intro exI[of _ i] conjI allI impI) (auto simp: wpan_conversation_response_def Let_def simp del: upt_rec_numeral)
qed

lemma ucast_add_down: "(ucast (a + of_nat k :: u32) :: u16) = ucast a + of_nat k"
proof -
  have u: "(ucast w :: u16) = of_nat (unat w)" for w :: u32 by (simp add: word_unat_eq_iff unat_of_nat unsigned_ucast_eq take_bit_eq_mod)
  have "unat (a + of_nat k) = (unat a + k) mod 2 ^ 32" by (simp add: unat_word_ariths unat_of_nat mod_simps)
  moreover have "(of_nat ((unat a + k) mod 2 ^ 32) :: u16) = of_nat (unat a + k)"
    by (simp add: word_unat_eq_iff unat_of_nat mod_mod_cancel del: of_nat_add)
  ultimately have "(of_nat (unat (a + of_nat k)) :: u16) = of_nat (unat a + k)" by presburger
  then show ?thesis unfolding u of_nat_add .
qed

text \<open>
  When a conversation expires. It was registered at the time \<open>now\<close> with a timeout of \<open>t\<close>
  seconds, at most 32767. While the clock has advanced by \<open>k\<close> seconds, less than 32768, it has
  expired exactly from \<open>k = t\<close> on; one second later if the sum is a multiple of 65536, as 0 means
  never. With the timeout 0 it never expires.
\<close>

theorem conversation_expires:
  assumes "t \<le> 32767" "k < 32768" "conv_handler c \<noteq> None" "conv_timeout c = expiry now (of_nat t)"
  shows "expired (ucast (now + of_nat k)) c \<longleftrightarrow>
    t \<noteq> 0 \<and> (if (ucast now + of_nat t :: u16) = 0 then t < k else t \<le> k)"
proof (cases "t = 0")
  case True
  then show ?thesis using assms(4) by (simp add: expired_def expiry_def)
next
  case False
  have nz: "(of_nat t :: u16) \<noteq> 0" using False assms(1) by (simp add: word_of_nat_eq_0_iff nat_dvd_not_less)
  have n: "(ucast (now + of_nat k) :: u16) = ucast now + of_nat k"
    by (rule ucast_add_down)
  have diff: "sint (of_nat a - of_nat b :: u16) = int a - int b" if "a < 32768" "b \<le> 32768" for a b
  proof -
    have "(of_nat a - of_nat b :: u16) = of_int (int a - int b)" by simp
    moreover have "sint (of_int (int a - int b) :: u16) = int a - int b"
      using that by (subst sint_sbintrunc') (simp_all add: signed_take_bit_int_eq_self)
    ultimately show ?thesis by presburger
  qed
  show ?thesis
  proof (cases "(ucast now + of_nat t :: u16) = 0")
    case True
    then have u: "(ucast now :: u16) = - of_nat t" by (simp add: eq_neg_iff_add_eq_0)
    have e: "conv_timeout c = 1" using assms(4) True nz by (simp add: expiry_def add.commute)
    have "(ucast now + of_nat k - 1 :: u16) = of_nat k - of_nat (t + 1)" by (simp add: u)
    then have "sint (ucast now + of_nat k - 1 :: u16) = int k - int (t + 1)" using diff[of k "t + 1"] assms(1,2) by presburger
    then show ?thesis using False True assms(3) e by (auto simp: expired_def n)
  next
    case f: False
    then have e: "conv_timeout c = of_nat t + ucast now" using assms(4) nz by (simp add: expiry_def Let_def add.commute)
    have "(ucast now + of_nat k - (of_nat t + ucast now) :: u16) = of_nat k - of_nat t" by simp
    then have "sint (ucast now + of_nat k - (of_nat t + ucast now) :: u16) = int k - int t" using diff[of k t] assms(1,2) by presburger
    then show ?thesis using False f assms(3) e by (auto simp: expired_def n add.commute)
  qed
qed

text \<open>An endpoint state without conversations, whose counter is about to wrap, and an application that ends every one.\<close>

definition demo_ep_state :: wpan_ep_state_t where
  "demo_ep_state = \<lparr>last_transaction = 255, conversations = replicate 3 zero_conversation\<rparr>"

definition demo_env :: "(unit, unit) aps_env" where
  "demo_env = \<lparr>aps_now = 0, endpoint_send = None, dev_tick = None, endpoint_get_next = None,
     clust_fn = (\<lambda>_ _ _ d. Some (0, d)), ep_fn = (\<lambda>_ _ _ d. Some (0, d)), conv_fn = (\<lambda>_ _ _ d. (1, d))\<rparr>"

definition demo_aps :: "(unit, unit) aps" where
  "demo_aps = \<lparr>ep_table = None, ep_states = (\<lambda>_. the (snd (wpan_conversation_register 100 (Some demo_ep_state) (Some 7) 42 30))),
     vars = (), link = ()\<rparr>"

theorem conversation_response_routed_witness:
  "\<exists>i < 3. conv_context (conversation demo_aps 0 i) = 42 \<and> transaction_id (conversation demo_aps 0 i) = 0 \<and>
     wpan_conversation_response demo_env (Some 0) 0 (wpan_envelope_create [] 0) demo_aps =
       Some (0, wpan_conversation_delete (0, i) demo_aps)"
proof -
  let ?st = "the (snd (wpan_conversation_register 100 (Some demo_ep_state) (Some 7) 42 30))"
  have ok: "ep_state_ok demo_ep_state" "conv_handler (conversations demo_ep_state ! 0) = None"
    "unused_id demo_ep_state (last_transaction demo_ep_state + 1)"
    by (simp_all add: ep_state_ok_def demo_ep_state_def unused_id_def zero_conversation_def)
  have r: "wpan_conversation_register 100 (Some demo_ep_state) (Some 7) 42 30 = (0, Some ?st)"
    using register_free[OF ok(1,2), of 100 7 42 30] by (auto simp: demo_ep_state_def)
  have s: "ep_states demo_aps 0 = ?st" by (simp add: demo_aps_def)
  obtain i where "i < 3" "conv_context (conversation demo_aps 0 i) = 42" "uint (transaction_id (conversation demo_aps 0 i)) = 0"
    "\<forall>env x d'. conv_fn demo_env 7 (0, i) (Some env) demo_aps = (x, d') \<longrightarrow>
       wpan_conversation_response demo_env (Some 0) (of_int 0) env demo_aps =
         Some (if x < 0 then x else 0, if x = 1 then wpan_conversation_delete (0, i) d' else d')"
    using conversation_response_routed[OF ok(1) _ ok(2,3) r s, of demo_env] by auto
  moreover have "conv_fn demo_env 7 (0, i) (Some (wpan_envelope_create [] 0)) demo_aps = (1, demo_aps)"
    by (simp add: demo_env_def)
  ultimately show ?thesis by (auto simp: uint_0_iff)
qed

theorem conversation_expires_witness:
  "let c = \<lparr>transaction_id = 1, conv_context = 0, conv_timeout = expiry 0xFFF0 30, conv_handler = Some 0\<rparr> in
   \<not> expired (ucast (0xFFF0 + 29 :: u32)) c \<and> expired (ucast (0xFFF0 + 30 :: u32)) c"
  using conversation_expires[of 30 29 "\<lparr>transaction_id = 1, conv_context = 0, conv_timeout = expiry 0xFFF0 30, conv_handler = Some 0\<rparr>" "0xFFF0"]
    conversation_expires[of 30 30 "\<lparr>transaction_id = 1, conv_context = 0, conv_timeout = expiry 0xFFF0 30, conv_handler = Some 0\<rparr>" "0xFFF0"]
  by simp

end
