(* ===== verification/Zcl_Types.thy ===== *)
theory Zcl_Types
  imports Prelude
begin

text \<open>
  \<open>src/Software/lib/XBee/src/zigbee/zcl_types.c\<close>: the data types of the ZigBee cluster library.
\<close>

abbreviation (input) ZCL_T_INVALID :: u8 where "ZCL_T_INVALID \<equiv> 0x0F"
abbreviation (input) ZCL_T_DISCRETE :: u8 where "ZCL_T_DISCRETE \<equiv> 0x80"
abbreviation (input) ZCL_T_ANALOG :: u8 where "ZCL_T_ANALOG \<equiv> 0x20"
abbreviation (input) ZCL_T_SIGNED :: u8 where "ZCL_T_SIGNED \<equiv> 0x40"
abbreviation (input) ZCL_T_FLOAT :: u8 where "ZCL_T_FLOAT \<equiv> 0x10"
abbreviation (input) ZCL_T_SIZE_MASK :: u8 where "ZCL_T_SIZE_MASK \<equiv> 0x0F"
abbreviation (input) ZCL_T_SIZE_SHORT :: u8 where "ZCL_T_SIZE_SHORT \<equiv> 0x0E"
abbreviation (input) ZCL_T_SIZE_LONG :: u8 where "ZCL_T_SIZE_LONG \<equiv> 0x0D"
abbreviation (input) ZCL_T_SIZE_128BIT :: u8 where "ZCL_T_SIZE_128BIT \<equiv> 0x0C"
abbreviation (input) ZCL_T_SIZE_VARIABLE :: u8 where "ZCL_T_SIZE_VARIABLE \<equiv> 0x0B"
abbreviation (input) ZCL_SIZE_SHORT :: int where "ZCL_SIZE_SHORT \<equiv> - 1"
abbreviation (input) ZCL_SIZE_LONG :: int where "ZCL_SIZE_LONG \<equiv> - 2"
abbreviation (input) ZCL_SIZE_VARIABLE :: int where "ZCL_SIZE_VARIABLE \<equiv> - 3"
abbreviation (input) ZCL_SIZE_INVALID :: int where "ZCL_SIZE_INVALID \<equiv> - 127"

abbreviation (input) ZCL_TYPE_NO_DATA :: u8 where "ZCL_TYPE_NO_DATA \<equiv> 0x00"
abbreviation (input) ZCL_TYPE_GENERAL_24BIT :: u8 where "ZCL_TYPE_GENERAL_24BIT \<equiv> 0x0A"
abbreviation (input) ZCL_TYPE_LOGICAL_BOOLEAN :: u8 where "ZCL_TYPE_LOGICAL_BOOLEAN \<equiv> 0x10"
abbreviation (input) ZCL_TYPE_BITMAP_24BIT :: u8 where "ZCL_TYPE_BITMAP_24BIT \<equiv> 0x1A"
abbreviation (input) ZCL_TYPE_UNSIGNED_24BIT :: u8 where "ZCL_TYPE_UNSIGNED_24BIT \<equiv> 0x22"
abbreviation (input) ZCL_TYPE_SIGNED_24BIT :: u8 where "ZCL_TYPE_SIGNED_24BIT \<equiv> 0x2A"
abbreviation (input) ZCL_TYPE_STRING_CHAR :: u8 where "ZCL_TYPE_STRING_CHAR \<equiv> 0x42"
abbreviation (input) ZCL_TYPE_ARRAY :: u8 where "ZCL_TYPE_ARRAY \<equiv> 0x48"
abbreviation (input) ZCL_TYPE_STRUCT :: u8 where "ZCL_TYPE_STRUCT \<equiv> 0x4C"
abbreviation (input) ZCL_TYPE_SET :: u8 where "ZCL_TYPE_SET \<equiv> 0x50"
abbreviation (input) ZCL_TYPE_BAG :: u8 where "ZCL_TYPE_BAG \<equiv> 0x51"
abbreviation (input) ZCL_TYPE_UNKNOWN :: u8 where "ZCL_TYPE_UNKNOWN \<equiv> 0xFF"

definition zcl_type_info :: "u8 list" where
  "zcl_type_info =
     [0] @ replicate 7 ZCL_T_INVALID @
     map (\<lambda>n. n OR ZCL_T_DISCRETE) [1, 2, 3, 4, 5, 6, 7, 8] @
     [1 OR ZCL_T_DISCRETE] @ replicate 7 ZCL_T_INVALID @
     map (\<lambda>n. n OR ZCL_T_DISCRETE) [1, 2, 3, 4, 5, 6, 7, 8] @
     map (\<lambda>n. n OR ZCL_T_ANALOG) [1, 2, 3, 4, 5, 6, 7, 8] @
     map (\<lambda>n. n OR ZCL_T_ANALOG OR ZCL_T_SIGNED) [1, 2, 3, 4, 5, 6, 7, 8] @
     map (\<lambda>n. n OR ZCL_T_DISCRETE) [1, 2] @ replicate 6 ZCL_T_INVALID @
     map (\<lambda>n. n OR ZCL_T_FLOAT OR ZCL_T_ANALOG OR ZCL_T_SIGNED) [2, 4, 8] @ replicate 5 ZCL_T_INVALID @
     [ZCL_T_INVALID, ZCL_T_SIZE_SHORT, ZCL_T_SIZE_SHORT, ZCL_T_SIZE_LONG, ZCL_T_SIZE_LONG] @ replicate 3 ZCL_T_INVALID @
     [ZCL_T_SIZE_VARIABLE] @ replicate 3 ZCL_T_INVALID @ [ZCL_T_SIZE_VARIABLE] @ replicate 3 ZCL_T_INVALID @
     [ZCL_T_SIZE_VARIABLE, ZCL_T_SIZE_VARIABLE] @ replicate 6 ZCL_T_INVALID @ replicate 8 ZCL_T_INVALID @
     concat (replicate 8 (replicate 16 ZCL_T_INVALID)) @
     map (\<lambda>n. n OR ZCL_T_ANALOG) [4, 4, 4] @ replicate 5 ZCL_T_INVALID @
     map (\<lambda>n. n OR ZCL_T_DISCRETE) [2, 2, 4] @ replicate 5 ZCL_T_INVALID @
     [8 OR ZCL_T_DISCRETE, ZCL_T_SIZE_128BIT OR ZCL_T_DISCRETE] @ replicate 6 ZCL_T_INVALID @
     replicate 7 ZCL_T_INVALID @ [0]"

abbreviation type_info :: "u8 \<Rightarrow> u8" where
  "type_info t \<equiv> zcl_type_info ! unat t"

definition ZCL_TYPE_IS_INVALID :: "u8 \<Rightarrow> bool" where
  "ZCL_TYPE_IS_INVALID t \<longleftrightarrow> type_info t = ZCL_T_INVALID"

definition zcl_sizeof_type :: "u8 \<Rightarrow> int" where
  "zcl_sizeof_type type = (
     let size = type_info type AND ZCL_T_SIZE_MASK in
     if size = ZCL_T_SIZE_SHORT then ZCL_SIZE_SHORT
     else if size = ZCL_T_SIZE_LONG then ZCL_SIZE_LONG
     else if size = ZCL_T_SIZE_VARIABLE then ZCL_SIZE_VARIABLE
     else if size = ZCL_T_INVALID AND ZCL_T_SIZE_MASK then ZCL_SIZE_INVALID
     else if size = ZCL_T_SIZE_128BIT then 16
     else uint size)"

section \<open>The table\<close>

lemma length_zcl_type_info: "length zcl_type_info = 256"
  by (simp add: zcl_type_info_def length_concat sum_list_replicate)

lemma sizeof_range: "zcl_sizeof_type t \<in> {- 127, - 3, - 2, - 1} \<union> {0..16}"
proof -
  have "uint (type_info t AND 0x0F) \<le> 15"
    using word_and_le1[of "type_info t" "0x0F"] by (simp add: word_le_def)
  then show ?thesis by (auto simp: zcl_sizeof_type_def Let_def)
qed

lemma sizeof_invalid: "ZCL_TYPE_IS_INVALID t \<Longrightarrow> zcl_sizeof_type t = - 127"
  by (simp add: ZCL_TYPE_IS_INVALID_def zcl_sizeof_type_def)

lemma sizeof_24bit: "t \<in> {0x0A, 0x1A, 0x22, 0x2A} \<Longrightarrow> zcl_sizeof_type t = 3 \<and> \<not> ZCL_TYPE_IS_INVALID t"
  by (elim insertE emptyE; hypsubst; code_simp)

lemma sizeof_special:
  "zcl_sizeof_type 0x42 = - 1" "zcl_sizeof_type 0x10 = 1" "zcl_sizeof_type 0x00 = 0" "zcl_sizeof_type 0xFF = 0"
  "zcl_sizeof_type 0x48 = - 3" "zcl_sizeof_type 0x4C = - 3" "zcl_sizeof_type 0x50 = - 3" "zcl_sizeof_type 0x51 = - 3"
  by code_simp+

end
