(* ===== verification/Zcl.thy ===== *)
theory Zcl
  imports Wpan_Aps Zcl_Types
begin

text \<open>
  \<open>src/Software/lib/XBee/src/zigbee/zigbee_zcl.c\<close>: the attributes of clusters and the commands that
  read, write and list them, on a little-endian host. A pointer to a variable is the number of an object
  in memory and an offset; arrays and structures of the cluster library are kept by pointer. A pointer
  into an attribute table is the rest of the table from there, with its terminator. Functions of the
  application that refresh or store attributes are a parameter. Pointers are not null except where
  an argument may be (\<open>option\<close>). The result \<open>None\<close> means that an access left an array or an object,
  or that a bound on nested arrays was not enough.
\<close>

section \<open>Attributes\<close>

abbreviation (input) ZCL_ATTRIBUTE_END_OF_LIST :: u16 where "ZCL_ATTRIBUTE_END_OF_LIST \<equiv> 0xFFFF"
abbreviation (input) ZCL_ATTRIB_FLAG_WRITEONLY :: u8 where "ZCL_ATTRIB_FLAG_WRITEONLY \<equiv> 0x01"
abbreviation (input) ZCL_ATTRIB_FLAG_READONLY :: u8 where "ZCL_ATTRIB_FLAG_READONLY \<equiv> 0x02"
abbreviation (input) ZCL_ATTRIB_FLAG_HAS_MIN :: u8 where "ZCL_ATTRIB_FLAG_HAS_MIN \<equiv> 0x04"
abbreviation (input) ZCL_ATTRIB_FLAG_HAS_MAX :: u8 where "ZCL_ATTRIB_FLAG_HAS_MAX \<equiv> 0x08"
abbreviation (input) ZCL_ATTRIB_FLAG_RAW :: u8 where "ZCL_ATTRIB_FLAG_RAW \<equiv> 0x40"
abbreviation (input) ZCL_ATTRIB_FLAG_FULL :: u8 where "ZCL_ATTRIB_FLAG_FULL \<equiv> 0x80"
abbreviation (input) ZCL_ATTR_WRITE_FLAG_NONE :: u8 where "ZCL_ATTR_WRITE_FLAG_NONE \<equiv> 0x00"
abbreviation (input) ZCL_ATTR_WRITE_FLAG_ASSIGN :: u8 where "ZCL_ATTR_WRITE_FLAG_ASSIGN \<equiv> 0x01"
abbreviation (input) ZCL_ATTR_WRITE_FLAG_READ_RESP :: u8 where "ZCL_ATTR_WRITE_FLAG_READ_RESP \<equiv> 0x02"
abbreviation (input) ZCL_MFG_NONE :: u16 where "ZCL_MFG_NONE \<equiv> 0"

abbreviation (input) ZCL_STATUS_SUCCESS :: u8 where "ZCL_STATUS_SUCCESS \<equiv> 0x00"
abbreviation (input) ZCL_STATUS_FAILURE :: u8 where "ZCL_STATUS_FAILURE \<equiv> 0x01"
abbreviation (input) ZCL_STATUS_MALFORMED_COMMAND :: u8 where "ZCL_STATUS_MALFORMED_COMMAND \<equiv> 0x80"
abbreviation (input) ZCL_STATUS_UNSUP_GENERAL_COMMAND :: u8 where "ZCL_STATUS_UNSUP_GENERAL_COMMAND \<equiv> 0x82"
abbreviation (input) ZCL_STATUS_UNSUP_MANUF_GENERAL_COMMAND :: u8 where "ZCL_STATUS_UNSUP_MANUF_GENERAL_COMMAND \<equiv> 0x84"
abbreviation (input) ZCL_STATUS_UNSUPPORTED_ATTRIBUTE :: u8 where "ZCL_STATUS_UNSUPPORTED_ATTRIBUTE \<equiv> 0x86"
abbreviation (input) ZCL_STATUS_INVALID_VALUE :: u8 where "ZCL_STATUS_INVALID_VALUE \<equiv> 0x87"
abbreviation (input) ZCL_STATUS_READ_ONLY :: u8 where "ZCL_STATUS_READ_ONLY \<equiv> 0x88"
abbreviation (input) ZCL_STATUS_INSUFFICIENT_SPACE :: u8 where "ZCL_STATUS_INSUFFICIENT_SPACE \<equiv> 0x89"
abbreviation (input) ZCL_STATUS_INVALID_DATA_TYPE :: u8 where "ZCL_STATUS_INVALID_DATA_TYPE \<equiv> 0x8D"
abbreviation (input) ZCL_STATUS_WRITE_ONLY :: u8 where "ZCL_STATUS_WRITE_ONLY \<equiv> 0x8F"
abbreviation (input) ZCL_STATUS_DEFINED_OUT_OF_BAND :: u8 where "ZCL_STATUS_DEFINED_OUT_OF_BAND \<equiv> 0x91"

type_synonym ptr = "nat \<times> nat"

record zcl_attribute_full_t =
  full_min :: u32
  full_max :: u32
  full_read :: "nat option"
  full_write :: "nat option"

record zcl_attribute_base_t =
  attr_id :: u16
  attr_flags :: u8
  attr_type :: u8
  attr_value :: "ptr option"
  attr_full :: "zcl_attribute_full_t option"

record zcl_array_t =
  max_count :: u16
  current_count :: u16
  element_size :: u16
  array_type :: u8
  array_value :: "ptr option"

record zcl_struct_t =
  base_address :: ptr
  elements :: "(u8 \<times> u16) list"

record 'u zcl_vars =
  objs :: "nat \<Rightarrow> bytes"
  arrays :: "ptr \<Rightarrow> zcl_array_t option"
  structs :: "ptr \<Rightarrow> zcl_struct_t option"
  zuser :: 'u

type_synonym ('u, 's) zdev = "('u zcl_vars, 's) aps"

text \<open>\<open>wr_buffer\<close> is the memory at the pointer, \<open>wr_buflen\<close> the number of bytes left of the request.\<close>

record zcl_attribute_write_rec_t =
  wr_buffer :: bytes
  wr_buflen :: int
  wr_flags :: u8
  wr_status :: u8

record ('u, 's) zcl_fns =
  attr_read :: "nat \<Rightarrow> zcl_attribute_base_t \<Rightarrow> ('u, 's) zdev \<Rightarrow> (u8 \<times> ('u, 's) zdev) option"
  attr_write :: "nat \<Rightarrow> zcl_attribute_base_t \<Rightarrow> zcl_attribute_write_rec_t \<Rightarrow> ('u, 's) zdev \<Rightarrow>
    (int \<times> zcl_attribute_write_rec_t \<times> ('u, 's) zdev) option"

definition var_load :: "('u, 's) zdev \<Rightarrow> ptr \<Rightarrow> nat \<Rightarrow> bytes option" where
  "var_load d p n = (let m = objs (vars d) (fst p) in
     if snd p + n \<le> length m then Some (take n (drop (snd p) m)) else None)"

definition var_store :: "('u, 's) zdev \<Rightarrow> ptr \<Rightarrow> bytes \<Rightarrow> ('u, 's) zdev option" where
  "var_store d p bs = (let m = objs (vars d) (fst p) in
     if snd p + length bs \<le> length m
     then Some (d\<lparr>vars := (vars d)\<lparr>objs := (objs (vars d))(fst p := buf_write m (snd p) bs)\<rparr>\<rparr>) else None)"

definition var_string :: "('u, 's) zdev \<Rightarrow> ptr \<Rightarrow> bytes option" where
  "var_string d p = (let m = drop (snd p) (objs (vars d) (fst p)) in if 0 \<in> set m then Some (cstr_of m) else None)"

definition le16 :: "u8 \<Rightarrow> u8 \<Rightarrow> u16" where
  "le16 a b = be16_of b a"

definition le16_put :: "u16 \<Rightarrow> bytes" where
  "le16_put w = [ucast w, ucast (drop_bit 8 w)]"

text \<open>The size of an entry in the table is the one its flag says.\<close>

definition layout_ok :: "zcl_attribute_base_t \<Rightarrow> bool" where
  "layout_ok e \<longleftrightarrow> (attr_flags e AND ZCL_ATTRIB_FLAG_FULL \<noteq> 0) = (attr_full e \<noteq> None)"

definition zcl_attribute_get_next :: "zcl_attribute_base_t list \<Rightarrow> zcl_attribute_base_t list option" where
  "zcl_attribute_get_next es =
     (case es of
        [] \<Rightarrow> None
      | e # rest \<Rightarrow> if attr_id e = ZCL_ATTRIBUTE_END_OF_LIST then Some es else if layout_ok e then Some rest else None)"

text \<open>The loop that goes to the first attribute whose ID is not smaller.\<close>

fun attr_skip :: "zcl_attribute_base_t list \<Rightarrow> u16 \<Rightarrow> zcl_attribute_base_t list option" where
  "attr_skip [] search = None"
| "attr_skip (e # rest) search =
     (if attr_id e < search then do { _ \<leftarrow> zcl_attribute_get_next (e # rest); attr_skip rest search } else Some (e # rest))"

definition zcl_find_attribute :: "zcl_attribute_base_t list option \<Rightarrow> u16 \<Rightarrow> zcl_attribute_base_t option option" where
  "zcl_find_attribute entry search =
     (case entry of
        None \<Rightarrow> Some None
      | Some es \<Rightarrow> do {
          r \<leftarrow> attr_skip es search;
          e \<leftarrow> nth_opt r 0;
          Some (if attr_id e = search then Some e else None) })"

section \<open>Writing an attribute\<close>

definition le_word :: "bytes \<Rightarrow> u32" where
  "le_word bs = foldr (\<lambda>b w. push_bit 8 w OR ucast b) bs 0"

definition zcl_check_minmax :: "zcl_attribute_base_t \<Rightarrow> bytes \<Rightarrow> int option" where
  "zcl_check_minmax entry buffer =
     (if attr_flags entry AND (ZCL_ATTRIB_FLAG_HAS_MIN OR ZCL_ATTRIB_FLAG_HAS_MAX) \<noteq> 0 then
        let size = zcl_sizeof_type (attr_type entry); typeinfo = type_info (attr_type entry) in
        if size < 1 \<or> size > 4 then Some 0
        else if typeinfo AND ZCL_T_FLOAT \<noteq> 0 then Some 0
        else if length buffer < nat size then None
        else do {
          full \<leftarrow> attr_full entry;
          let value = le_word (take (nat size) buffer);
          Some (
            if typeinfo AND ZCL_T_SIGNED \<noteq> 0 then
              let value = (if size < 4 \<and> buffer ! (nat size - 1) AND 0x80 \<noteq> 0
                           then value OR push_bit (nat size) 0xFFFFFFFF else value)
              in if attr_flags entry AND ZCL_ATTRIB_FLAG_HAS_MIN \<noteq> 0 \<and> sint (full_min full) > sint value then 1
                 else if attr_flags entry AND ZCL_ATTRIB_FLAG_HAS_MAX \<noteq> 0 \<and> sint (full_max full) < sint value then 2
                 else 0
            else
              if attr_flags entry AND ZCL_ATTRIB_FLAG_HAS_MIN \<noteq> 0 \<and> full_min full > value then 1
              else if attr_flags entry AND ZCL_ATTRIB_FLAG_HAS_MAX \<noteq> 0 \<and> full_max full < value then 2
              else 0) }
      else Some 0)"

text \<open>The four bytes of the result in memory.\<close>

definition zcl_convert_24bit :: "bytes \<Rightarrow> bool \<Rightarrow> bytes" where
  "zcl_convert_24bit b extend_sign =
     [b ! 0, b ! 1, b ! 2, if b ! 2 AND 0x80 \<noteq> 0 \<and> extend_sign then 0xFF else 0x00]"

definition is_24bit :: "u8 \<Rightarrow> bool" where
  "is_24bit t \<longleftrightarrow> t \<in> {ZCL_TYPE_GENERAL_24BIT, ZCL_TYPE_BITMAP_24BIT, ZCL_TYPE_UNSIGNED_24BIT, ZCL_TYPE_SIGNED_24BIT}"

text \<open>The cases of the type: bytes consumed, new status and the variables.\<close>

definition decode_24bit ::
  "zcl_attribute_base_t \<Rightarrow> bytes \<Rightarrow> bool \<Rightarrow> u8 \<Rightarrow> ('u, 's) zdev \<Rightarrow> (int \<times> u8 \<times> ('u, 's) zdev) option" where
  "decode_24bit entry buffer assign newstatus d =
     (if assign then do {
        p \<leftarrow> attr_value entry;
        if length buffer < 3 then None
        else do {
          d \<leftarrow> var_store d p (if attr_flags entry AND ZCL_ATTRIB_FLAG_RAW \<noteq> 0 then take 3 buffer
                               else zcl_convert_24bit buffer (attr_type entry = ZCL_TYPE_SIGNED_24BIT));
          Some (3, newstatus, d) } }
      else Some (3, newstatus, d))"

definition decode_string ::
  "zcl_attribute_base_t \<Rightarrow> bytes \<Rightarrow> int \<Rightarrow> bool \<Rightarrow> u8 \<Rightarrow> ('u, 's) zdev \<Rightarrow> (int \<times> u8 \<times> ('u, 's) zdev) option" where
  "decode_string entry buffer buflen assign newstatus d = do {
     n \<leftarrow> nth_opt buffer 0;
     let len = uint n;
     if len + 1 > buflen then Some (buflen, ZCL_STATUS_MALFORMED_COMMAND, d)
     else if (case attr_full entry of
                Some full \<Rightarrow> attr_flags entry AND ZCL_ATTRIB_FLAG_FULL \<noteq> 0 \<and> sint (full_max full) \<noteq> 0 \<and> len > sint (full_max full)
              | None \<Rightarrow> False)
     then Some (len + 1, ZCL_STATUS_INVALID_VALUE, d)
     else if assign then do {
       p \<leftarrow> attr_value entry;
       if length buffer < unat n + 1 then None
       else do {
         d \<leftarrow> var_store d p (take (unat n) (tl buffer) @ [0]);
         Some (len + 1, newstatus, d) } }
     else Some (len + 1, newstatus, d) }"

definition decode_default ::
  "zcl_attribute_base_t \<Rightarrow> bytes \<Rightarrow> bool \<Rightarrow> u8 \<Rightarrow> ('u, 's) zdev \<Rightarrow> (int \<times> u8 \<times> ('u, 's) zdev) option" where
  "decode_default entry buffer assign newstatus d = (
     let size = zcl_sizeof_type (attr_type entry) in
     if ZCL_TYPE_IS_INVALID (attr_type entry) then Some (0, ZCL_STATUS_UNSUPPORTED_ATTRIBUTE, d)
     else if size > 0 then
       (if assign then do {
          p \<leftarrow> attr_value entry;
          if length buffer < nat size then None
          else do { d \<leftarrow> var_store d p (take (nat size) buffer); Some (size, newstatus, d) } }
        else Some (size, newstatus, d))
     else Some (0, newstatus, d))"

definition decode_type ::
  "zcl_attribute_base_t \<Rightarrow> zcl_attribute_write_rec_t \<Rightarrow> bool \<Rightarrow> u8 \<Rightarrow> ('u, 's) zdev \<Rightarrow> (int \<times> u8 \<times> ('u, 's) zdev) option" where
  "decode_type entry rec assign newstatus d =
     (if is_24bit (attr_type entry) then decode_24bit entry (wr_buffer rec) assign newstatus d
      else if attr_type entry = ZCL_TYPE_STRING_CHAR
      then decode_string entry (wr_buffer rec) (wr_buflen rec) assign newstatus d
      else if attr_type entry = ZCL_TYPE_NO_DATA \<or> attr_type entry = ZCL_TYPE_UNKNOWN
      then Some (0, ZCL_STATUS_INVALID_DATA_TYPE, d)
      else if attr_type entry = ZCL_TYPE_LOGICAL_BOOLEAN then do {
        b \<leftarrow> nth_opt (wr_buffer rec) 0;
        if b AND 0xFE \<noteq> 0 then decode_default entry (wr_buffer rec) False ZCL_STATUS_INVALID_VALUE d
        else decode_default entry (wr_buffer rec) assign newstatus d }
      else decode_default entry (wr_buffer rec) assign newstatus d)"

definition zcl_decode_attribute ::
  "zcl_attribute_base_t \<Rightarrow> zcl_attribute_write_rec_t \<Rightarrow> ('u, 's) zdev \<Rightarrow>
   (int \<times> zcl_attribute_write_rec_t \<times> ('u, 's) zdev) option" where
  "zcl_decode_attribute entry rec d = do {
     let assign = wr_flags rec AND ZCL_ATTR_WRITE_FLAG_ASSIGN \<noteq> 0;
     let ghost = (assign \<and> attr_value entry = None);
     let newstatus = (if ghost then ZCL_STATUS_DEFINED_OUT_OF_BAND else wr_status rec);
     let assign = (assign \<and> \<not> ghost);
     (retval, newstatus, d) \<leftarrow> decode_type entry rec assign newstatus d;
     Some (retval, if wr_status rec = ZCL_STATUS_SUCCESS then rec\<lparr>wr_status := newstatus\<rparr> else rec, d) }"

text \<open>The status of a record whose header is complete: the checks before the value is decoded.\<close>

definition record_status :: "zcl_attribute_base_t option \<Rightarrow> u8 \<Rightarrow> zcl_attribute_write_rec_t \<Rightarrow> u8 option" where
  "record_status entry type rec = do {
     let st = (case entry of
         None \<Rightarrow> ZCL_STATUS_UNSUPPORTED_ATTRIBUTE
       | Some e \<Rightarrow>
           if attr_type e \<noteq> type then
             (if ZCL_TYPE_IS_INVALID type then ZCL_STATUS_MALFORMED_COMMAND else ZCL_STATUS_INVALID_DATA_TYPE)
           else if attr_flags e AND ZCL_ATTRIB_FLAG_READONLY \<noteq> 0 then ZCL_STATUS_READ_ONLY
           else if zcl_sizeof_type type \<ge> 0 \<and> wr_buflen rec < zcl_sizeof_type type then ZCL_STATUS_MALFORMED_COMMAND
           else wr_status rec);
     case entry of
       Some e \<Rightarrow>
         if st = ZCL_STATUS_SUCCESS then do {
           r \<leftarrow> zcl_check_minmax e (wr_buffer rec);
           Some (if r \<noteq> 0 then ZCL_STATUS_INVALID_VALUE else st) }
         else Some st
     | None \<Rightarrow> Some st }"

definition fake_attribute :: "u16 \<Rightarrow> u8 \<Rightarrow> zcl_attribute_base_t" where
  "fake_attribute attribute type =
     \<lparr>attr_id = attribute, attr_flags = 0, attr_type = type, attr_value = None, attr_full = None\<rparr>"

text \<open>Decoding the value, by the function of the attribute if it has one.\<close>

definition record_value ::
  "('u, 's) zcl_fns \<Rightarrow> zcl_attribute_base_t \<Rightarrow> zcl_attribute_write_rec_t \<Rightarrow> ('u, 's) zdev \<Rightarrow>
   (int \<times> zcl_attribute_write_rec_t \<times> ('u, 's) zdev) option" where
  "record_value Z entry rec d =
     (case (if attr_flags entry AND ZCL_ATTRIB_FLAG_FULL \<noteq> 0 then attr_full entry else None) of
        Some full \<Rightarrow>
          (case full_write full of
             Some k \<Rightarrow> attr_write Z k entry rec d
           | None \<Rightarrow> zcl_decode_attribute entry rec d)
      | None \<Rightarrow> zcl_decode_attribute entry rec d)"

definition zcl_parse_attribute_record ::
  "('u, 's) zcl_fns \<Rightarrow> zcl_attribute_base_t list option \<Rightarrow> zcl_attribute_write_rec_t \<Rightarrow> ('u, 's) zdev \<Rightarrow>
   (int \<times> zcl_attribute_write_rec_t \<times> ('u, 's) zdev) option" where
  "zcl_parse_attribute_record Z table rec d = do {
     a \<leftarrow> nth_opt (wr_buffer rec) 0;
     b \<leftarrow> nth_opt (wr_buffer rec) 1;
     let attribute = le16 a b;
     let response = wr_flags rec AND ZCL_ATTR_WRITE_FLAG_READ_RESP \<noteq> 0;
     failed \<leftarrow> (if response then map_option (\<lambda>s. s \<noteq> ZCL_STATUS_SUCCESS) (nth_opt (wr_buffer rec) 2) else Some False);
     if failed then Some (3, rec\<lparr>wr_buffer := drop 3 (wr_buffer rec)\<rparr>, d)
     else do {
       let value_offset = (if response then 4 else 3);
       let start_buflen = wr_buflen rec;
       (rec, entry, type) \<leftarrow>
         (if start_buflen < int value_offset
          then Some (rec\<lparr>wr_status := ZCL_STATUS_MALFORMED_COMMAND\<rparr>, None, 0)
          else do {
            type \<leftarrow> nth_opt (wr_buffer rec) (value_offset - 1);
            let rec = rec\<lparr>wr_buffer := drop value_offset (wr_buffer rec), wr_buflen := wr_buflen rec - int value_offset\<rparr>;
            entry \<leftarrow> zcl_find_attribute table attribute;
            st \<leftarrow> record_status entry type rec;
            Some (rec\<lparr>wr_status := st\<rparr>, entry, type) });
       if wr_status rec = ZCL_STATUS_MALFORMED_COMMAND
       then Some (start_buflen, rec\<lparr>wr_buflen := 0\<rparr>, d)
       else do {
         let rec = (if wr_status rec \<noteq> ZCL_STATUS_SUCCESS
                    then rec\<lparr>wr_flags := wr_flags rec AND NOT ZCL_ATTR_WRITE_FLAG_ASSIGN\<rparr> else rec);
         e \<leftarrow> (if wr_status rec \<noteq> ZCL_STATUS_SUCCESS then Some (fake_attribute attribute type) else entry);
         (bytes_read, rec, d) \<leftarrow> record_value Z e rec d;
         let rec = rec\<lparr>wr_buffer := drop (nat bytes_read) (wr_buffer rec), wr_buflen := wr_buflen rec - bytes_read\<rparr>;
         Some (start_buflen - wr_buflen rec, rec, d) } } }"

section \<open>Encoding an attribute\<close>

text \<open>
  \<open>Inl\<close> is a negative status, \<open>Inr\<close> the bytes written, which can be more than \<open>bufsize\<close>: the length byte of an empty
  string is written even if there is no space. An error after bytes were written behind the space is
  \<open>None\<close>. First the types that are not composed of others.
\<close>

definition encode_scalar :: "('u, 's) zdev \<Rightarrow> int \<Rightarrow> u8 \<Rightarrow> bool \<Rightarrow> ptr \<Rightarrow> (int + bytes) option" where
  "encode_scalar d bufsize type raw p = (
     let size = zcl_sizeof_type type in
     if size \<ge> 0 \<and> bufsize < size then Some (Inl (- uint ZCL_STATUS_INSUFFICIENT_SPACE))
     else if size \<ge> 0 \<and> raw then map_option Inr (var_load d p (nat size))
     else if type = ZCL_TYPE_LOGICAL_BOOLEAN then
       map_option (\<lambda>bs. Inr [if bs ! 0 \<noteq> 0 then 1 else 0]) (var_load d p 1)
     else if type = ZCL_TYPE_STRING_CHAR then do {
       s \<leftarrow> var_string d p;
       if s = [] then Some (Inr [0])
       else if bufsize \<le> int (length s) then Some (Inl (- uint ZCL_STATUS_INSUFFICIENT_SPACE))
       else Some (Inr (of_nat (length s) # s)) }
     else if ZCL_TYPE_IS_INVALID type then Some (Inl (- uint ZCL_STATUS_FAILURE))
     else if size > 0 then map_option Inr (var_load d p (nat size))
     else Some (Inr []))"

text \<open>The loops over the elements; \<open>acc\<close> are the bytes written so far, \<open>f\<close> encodes one value.\<close>

fun array_loop ::
  "(int \<Rightarrow> ptr option \<Rightarrow> (int + bytes) option) \<Rightarrow> int \<Rightarrow> nat \<Rightarrow> nat \<Rightarrow> ptr option \<Rightarrow> bytes \<Rightarrow> (int + bytes) option" where
  "array_loop f bufsize 0 esize v acc = Some (Inr acc)"
| "array_loop f bufsize (Suc n) esize v acc = do {
     r \<leftarrow> f (bufsize - int (length acc)) v;
     case r of
       Inl e \<Rightarrow> if bufsize < int (length acc) then None else Some (Inl e)
     | Inr bs \<Rightarrow> array_loop f bufsize n esize (map_option (\<lambda>(m, i). (m, i + esize)) v) (acc @ bs) }"

fun struct_loop ::
  "(int \<Rightarrow> u8 \<Rightarrow> ptr option \<Rightarrow> (int + bytes) option) \<Rightarrow> int \<Rightarrow> ptr \<Rightarrow> (u8 \<times> u16) list \<Rightarrow> bytes \<Rightarrow> (int + bytes) option" where
  "struct_loop f bufsize base [] acc = Some (Inr acc)"
| "struct_loop f bufsize base ((t, offset) # elems) acc =
     (if int (length acc) = bufsize then Some (Inl (- uint ZCL_STATUS_INSUFFICIENT_SPACE))
      else do {
        r \<leftarrow> f (bufsize - int (length acc) - 1) t (Some (fst base, snd base + unat offset));
        case r of
          Inl e \<Rightarrow> if bufsize < int (length acc) then None else Some (Inl e)
        | Inr bs \<Rightarrow> struct_loop f bufsize base elems (acc @ t # bs) })"

definition zcl_encode_array_value ::
  "(int \<Rightarrow> u8 \<Rightarrow> ptr option \<Rightarrow> (int + bytes) option) \<Rightarrow> int \<Rightarrow> zcl_array_t \<Rightarrow> (int + bytes) option" where
  "zcl_encode_array_value f bufsize array =
     (if bufsize < 3 then Some (Inl (- uint ZCL_STATUS_INSUFFICIENT_SPACE))
      else array_loop (\<lambda>n. f n (array_type array)) bufsize (unat (current_count array)) (unat (element_size array))
        (array_value array) (array_type array # le16_put (current_count array)))"

definition zcl_encode_struct_value ::
  "(int \<Rightarrow> u8 \<Rightarrow> ptr option \<Rightarrow> (int + bytes) option) \<Rightarrow> int \<Rightarrow> zcl_struct_t \<Rightarrow> (int + bytes) option" where
  "zcl_encode_struct_value f bufsize str =
     (if bufsize < 2 then Some (Inl (- uint ZCL_STATUS_INSUFFICIENT_SPACE))
      else struct_loop f bufsize (base_address str) (elements str) (le16_put (of_nat (length (elements str)))))"

text \<open>
  An attribute without read function (so are elements of arrays and structures). The first argument
  bounds the nesting; every level needs at least two bytes of the buffer.
\<close>

fun encode_value ::
  "nat \<Rightarrow> ('u, 's) zdev \<Rightarrow> bool \<Rightarrow> int \<Rightarrow> u8 \<Rightarrow> ptr option \<Rightarrow> (int + bytes) option" where
  "encode_value 0 d raw bufsize type v = None"
| "encode_value (Suc n) d raw bufsize type v =
     (if zcl_sizeof_type type = 0 then Some (Inr [])
      else case v of
        None \<Rightarrow> Some (Inl (- uint ZCL_STATUS_DEFINED_OUT_OF_BAND))
      | Some p \<Rightarrow>
          if type = ZCL_TYPE_ARRAY \<or> type = ZCL_TYPE_SET \<or> type = ZCL_TYPE_BAG then do {
            a \<leftarrow> arrays (vars d) p;
            zcl_encode_array_value (encode_value n d False) bufsize a }
          else if type = ZCL_TYPE_STRUCT then do {
            s \<leftarrow> structs (vars d) p;
            zcl_encode_struct_value (encode_value n d False) bufsize s }
          else encode_scalar d bufsize type raw p)"

definition zcl_encode_attribute_value ::
  "('u, 's) zcl_fns \<Rightarrow> int \<Rightarrow> zcl_attribute_base_t \<Rightarrow> ('u, 's) zdev \<Rightarrow> ((int + bytes) \<times> ('u, 's) zdev) option" where
  "zcl_encode_attribute_value Z bufsize entry d = do {
     (status, d) \<leftarrow>
       (if zcl_sizeof_type (attr_type entry) = 0 \<or> attr_value entry = None \<or> attr_flags entry AND ZCL_ATTRIB_FLAG_FULL = 0
        then Some (ZCL_STATUS_SUCCESS, d)
        else case attr_full entry of
          None \<Rightarrow> Some (ZCL_STATUS_SUCCESS, d)
        | Some full \<Rightarrow> (case full_read full of None \<Rightarrow> Some (ZCL_STATUS_SUCCESS, d) | Some k \<Rightarrow> attr_read Z k entry d));
     if status \<noteq> ZCL_STATUS_SUCCESS then Some (Inl (- uint status), d)
     else map_option (\<lambda>r. (r, d))
       (encode_value (Suc (nat bufsize)) d (attr_flags entry AND ZCL_ATTRIB_FLAG_RAW \<noteq> 0) bufsize (attr_type entry) (attr_value entry)) }"

section \<open>Commands and responses\<close>

abbreviation (input) EBADMSG :: int where "EBADMSG \<equiv> 74"
abbreviation (input) ZCL_FRAME_TYPE_MASK :: u8 where "ZCL_FRAME_TYPE_MASK \<equiv> 0x03"
abbreviation (input) ZCL_FRAME_TYPE_PROFILE :: u8 where "ZCL_FRAME_TYPE_PROFILE \<equiv> 0x00"
abbreviation (input) ZCL_FRAME_TYPE_CLUSTER :: u8 where "ZCL_FRAME_TYPE_CLUSTER \<equiv> 0x01"
abbreviation (input) ZCL_FRAME_MFG_SPECIFIC :: u8 where "ZCL_FRAME_MFG_SPECIFIC \<equiv> 0x04"
abbreviation (input) ZCL_FRAME_DIRECTION :: u8 where "ZCL_FRAME_DIRECTION \<equiv> 0x08"
abbreviation (input) ZCL_FRAME_CLIENT_TO_SERVER :: u8 where "ZCL_FRAME_CLIENT_TO_SERVER \<equiv> 0x00"
abbreviation (input) ZCL_FRAME_DISABLE_DEF_RESP :: u8 where "ZCL_FRAME_DISABLE_DEF_RESP \<equiv> 0x10"
abbreviation (input) ZCL_CMD_READ_ATTRIB :: u8 where "ZCL_CMD_READ_ATTRIB \<equiv> 0x00"
abbreviation (input) ZCL_CMD_READ_ATTRIB_RESP :: u8 where "ZCL_CMD_READ_ATTRIB_RESP \<equiv> 0x01"
abbreviation (input) ZCL_CMD_WRITE_ATTRIB :: u8 where "ZCL_CMD_WRITE_ATTRIB \<equiv> 0x02"
abbreviation (input) ZCL_CMD_WRITE_ATTRIB_UNDIV :: u8 where "ZCL_CMD_WRITE_ATTRIB_UNDIV \<equiv> 0x03"
abbreviation (input) ZCL_CMD_WRITE_ATTRIB_RESP :: u8 where "ZCL_CMD_WRITE_ATTRIB_RESP \<equiv> 0x04"
abbreviation (input) ZCL_CMD_WRITE_ATTRIB_NORESP :: u8 where "ZCL_CMD_WRITE_ATTRIB_NORESP \<equiv> 0x05"
abbreviation (input) ZCL_CMD_DEFAULT_RESP :: u8 where "ZCL_CMD_DEFAULT_RESP \<equiv> 0x0B"
abbreviation (input) ZCL_CMD_DISCOVER_ATTRIB :: u8 where "ZCL_CMD_DISCOVER_ATTRIB \<equiv> 0x0C"
abbreviation (input) ZCL_CMD_DISCOVER_ATTRIB_RESP :: u8 where "ZCL_CMD_DISCOVER_ATTRIB_RESP \<equiv> 0x0D"
abbreviation (input) ZCL_CMD_WRITE_STRUCT_ATTRIB_RESP :: u8 where "ZCL_CMD_WRITE_STRUCT_ATTRIB_RESP \<equiv> 0x10"
abbreviation (input) ZCL_DISCOVER_ATTRIB_MAX :: nat where "ZCL_DISCOVER_ATTRIB_MAX \<equiv> 20"

record zcl_attribute_tree_t =
  manufacturer_id :: u16
  server :: "zcl_attribute_base_t list option"
  client :: "zcl_attribute_base_t list option"

record zcl_command_t =
  cmd_envelope :: wpan_envelope_t
  frame_control :: u8
  mfg_code :: u16
  sequence :: u8
  command :: u8
  attributes :: "zcl_attribute_base_t list option"
  zcl_payload :: bytes
  cmd_length :: int

definition zcl_send_response ::
  "('u zcl_vars, 's) aps_env \<Rightarrow> zcl_command_t \<Rightarrow> bytes \<Rightarrow> ('u, 's) zdev \<Rightarrow> int \<times> ('u, 's) zdev" where
  "zcl_send_response E request response d =
     wpan_envelope_send E
       ((wpan_envelope_reply (cmd_envelope request))\<lparr>env_payload := response, env_length := of_nat (length response)\<rparr>) d"

text \<open>The header that is sent, from the offset the function returns on; \<open>cmd\<close> is the command of the response.\<close>

definition zcl_build_header :: "zcl_command_t \<Rightarrow> u8 \<Rightarrow> bytes" where
  "zcl_build_header request cmd = (
     let fc = (ZCL_FRAME_DISABLE_DEF_RESP OR ZCL_FRAME_DIRECTION)
                XOR (frame_control request AND (ZCL_FRAME_DIRECTION OR ZCL_FRAME_TYPE_MASK))
     in if frame_control request AND ZCL_FRAME_MFG_SPECIFIC \<noteq> 0
        then (fc OR ZCL_FRAME_MFG_SPECIFIC) # le16_put (mfg_code request) @ [sequence request, cmd]
        else [fc, sequence request, cmd])"

definition zcl_default_response ::
  "('u zcl_vars, 's) aps_env \<Rightarrow> zcl_command_t \<Rightarrow> u8 \<Rightarrow> ('u, 's) zdev \<Rightarrow> int \<times> ('u, 's) zdev" where
  "zcl_default_response E request status d =
     (if status = ZCL_STATUS_SUCCESS \<and> frame_control request AND ZCL_FRAME_DISABLE_DEF_RESP \<noteq> 0 then (0, d)
      else if env_options (cmd_envelope request) AND (WPAN_ENVELOPE_BROADCAST_ADDR OR WPAN_ENVELOPE_BROADCAST_EP) \<noteq> 0 then (0, d)
      else if frame_control request AND ZCL_FRAME_TYPE_MASK = ZCL_FRAME_TYPE_PROFILE \<and> command request = ZCL_CMD_DEFAULT_RESP
      then (0, d)
      else
        let header = zcl_build_header request ZCL_CMD_DEFAULT_RESP;
            header = header[0 := header ! 0 AND NOT ZCL_FRAME_TYPE_MASK]
        in zcl_send_response E request (header @ [command request, status]) d)"

section \<open>The general commands\<close>

text \<open>
  The inner loop of the write command, with a bound on its rounds. The identifier of a record is stored before
  its status is known, in an array of 25 entries of three bytes.
\<close>

fun write_loop ::
  "nat \<Rightarrow> ('u, 's) zcl_fns \<Rightarrow> zcl_attribute_base_t list option \<Rightarrow> bool \<Rightarrow> zcl_attribute_write_rec_t \<Rightarrow> bytes list \<Rightarrow>
   ('u, 's) zdev \<Rightarrow> (bytes list \<times> ('u, 's) zdev) option" where
  "write_loop 0 Z table assign rec recs d = None"
| "write_loop (Suc n) Z table assign rec recs d =
     (if wr_buflen rec \<le> 0 then Some (recs, d)
      else do {
        a \<leftarrow> nth_opt (wr_buffer rec) 0;
        b \<leftarrow> nth_opt (wr_buffer rec) 1;
        if 25 \<le> length recs then None
        else do {
          (_, rec, d) \<leftarrow> zcl_parse_attribute_record Z table
             (rec\<lparr>wr_flags := (if assign then ZCL_ATTR_WRITE_FLAG_ASSIGN else ZCL_ATTR_WRITE_FLAG_NONE),
                 wr_status := ZCL_STATUS_SUCCESS\<rparr>) d;
          write_loop n Z table assign rec
            (if wr_status rec \<noteq> ZCL_STATUS_SUCCESS then recs @ [[wr_status rec, a, b]] else recs) d } })"

definition write_pass ::
  "('u, 's) zcl_fns \<Rightarrow> zcl_command_t \<Rightarrow> bool \<Rightarrow> ('u, 's) zdev \<Rightarrow> (bytes list \<times> ('u, 's) zdev) option" where
  "write_pass Z cmd assign d = write_loop (Suc (nat (cmd_length cmd))) Z (attributes cmd) assign
     \<lparr>wr_buffer = zcl_payload cmd, wr_buflen = cmd_length cmd, wr_flags = 0, wr_status = 0\<rparr> [] d"

definition zcl_write_attributes ::
  "('u zcl_vars, 's) aps_env \<Rightarrow> ('u, 's) zcl_fns \<Rightarrow> zcl_command_t \<Rightarrow> ('u, 's) zdev \<Rightarrow> (int \<times> ('u, 's) zdev) option" where
  "zcl_write_attributes E Z cmd d = do {
     (recs, d) \<leftarrow>
       (if command cmd = ZCL_CMD_WRITE_ATTRIB_UNDIV then do {
          (recs, d) \<leftarrow> write_pass Z cmd False d;
          if recs = [] then write_pass Z cmd True d else Some (recs, d) }
        else write_pass Z cmd True d);
     if command cmd = ZCL_CMD_WRITE_ATTRIB_NORESP then Some (0, d)
     else Some (zcl_send_response E cmd
       (zcl_build_header cmd ZCL_CMD_WRITE_ATTRIB_RESP @ (if recs = [] then [ZCL_STATUS_SUCCESS] else concat recs)) d) }"

text \<open>The loop over the identifiers to read; the response has 80 bytes after its header.\<close>

fun read_loop ::
  "('u, 's) zcl_fns \<Rightarrow> zcl_attribute_base_t list option \<Rightarrow> nat \<Rightarrow> bytes \<Rightarrow> bytes \<Rightarrow> ('u, 's) zdev \<Rightarrow>
   (bytes \<times> ('u, 's) zdev) option" where
  "read_loop Z table 0 ids acc d = Some (acc, d)"
| "read_loop Z table (Suc requests) ids acc d =
     (if 80 - int (length acc) < 3 then Some (acc, d)
      else do {
        a \<leftarrow> nth_opt ids 0;
        b \<leftarrow> nth_opt ids 1;
        let acc = acc @ [a, b];
        entry \<leftarrow> zcl_find_attribute table (le16 a b);
        case entry of
          None \<Rightarrow> read_loop Z table requests (drop 2 ids) (acc @ [ZCL_STATUS_UNSUPPORTED_ATTRIBUTE]) d
        | Some e \<Rightarrow>
            if attr_flags e AND ZCL_ATTRIB_FLAG_WRITEONLY \<noteq> 0
            then read_loop Z table requests (drop 2 ids) (acc @ [ZCL_STATUS_WRITE_ONLY]) d
            else do {
              (r, d) \<leftarrow> zcl_encode_attribute_value Z (80 - int (length acc) - 2) e d;
              case r of
                Inl byteswritten \<Rightarrow> Some (acc @ [of_int (- byteswritten)], d)
              | Inr bs \<Rightarrow>
                  let acc = acc @ [ZCL_STATUS_SUCCESS, attr_type e] @ bs in
                  if 80 < length acc then None else read_loop Z table requests (drop 2 ids) acc d } })"

definition zcl_read_attributes ::
  "('u zcl_vars, 's) aps_env \<Rightarrow> ('u, 's) zcl_fns \<Rightarrow> zcl_command_t \<Rightarrow> ('u, 's) zdev \<Rightarrow> (int \<times> ('u, 's) zdev) option" where
  "zcl_read_attributes E Z cmd d =
     (if cmd_length cmd mod 2 = 1 then Some (zcl_default_response E cmd ZCL_STATUS_MALFORMED_COMMAND d)
      else do {
        (response, d) \<leftarrow> read_loop Z (attributes cmd) (nat (cmd_length cmd) div 2) (zcl_payload cmd) [] d;
        Some (zcl_send_response E cmd (zcl_build_header cmd ZCL_CMD_READ_ATTRIB_RESP @ response) d) })"

text \<open>The byte \<open>complete\<close> and the records of the response.\<close>

fun discover_loop :: "zcl_attribute_base_t list \<Rightarrow> nat \<Rightarrow> bytes \<Rightarrow> (u8 \<times> bytes) option" where
  "discover_loop [] remaining acc = None"
| "discover_loop (e # rest) remaining acc =
     (if attr_id e = ZCL_ATTRIBUTE_END_OF_LIST then Some (1, acc)
      else if remaining = 0 then Some (0, acc)
      else do {
        _ \<leftarrow> zcl_attribute_get_next (e # rest);
        discover_loop rest (remaining - 1) (acc @ le16_put (attr_id e) @ [attr_type e]) })"

definition zcl_discover_attributes ::
  "('u zcl_vars, 's) aps_env \<Rightarrow> zcl_command_t \<Rightarrow> ('u, 's) zdev \<Rightarrow> (int \<times> ('u, 's) zdev) option" where
  "zcl_discover_attributes E cmd d = do {
     (complete, attribs) \<leftarrow>
       (case attributes cmd of
          None \<Rightarrow> Some (1, [])
        | Some table \<Rightarrow> do {
            a \<leftarrow> nth_opt (zcl_payload cmd) 0;
            b \<leftarrow> nth_opt (zcl_payload cmd) 1;
            max_return_count \<leftarrow> nth_opt (zcl_payload cmd) 2;
            table \<leftarrow> attr_skip table (le16 a b);
            discover_loop table (min (unat max_return_count) ZCL_DISCOVER_ATTRIB_MAX) [] });
     Some (zcl_send_response E cmd (zcl_build_header cmd ZCL_CMD_DISCOVER_ATTRIB_RESP @ complete # attribs) d) }"

section \<open>Dispatching a command\<close>

fun tree_search :: "zcl_attribute_tree_t list \<Rightarrow> u16 \<Rightarrow> bool \<Rightarrow> zcl_attribute_base_t list option option" where
  "tree_search [] mfg to_server = None"
| "tree_search (t # rest) mfg to_server =
     (if manufacturer_id t = mfg then Some (if to_server then server t else client t)
      else if manufacturer_id t = ZCL_MFG_NONE then Some None
      else tree_search rest mfg to_server)"

text \<open>\<open>Inl\<close> is a negative error; the command in memory is then not used.\<close>

definition zcl_command_build ::
  "wpan_envelope_t \<Rightarrow> zcl_attribute_tree_t list option \<Rightarrow> (int + zcl_command_t) option" where
  "zcl_command_build env tree = do {
     let p = env_payload env;
     fc \<leftarrow> nth_opt p 0;
     let mfg = fc AND ZCL_FRAME_MFG_SPECIFIC \<noteq> 0;
     mfg_code \<leftarrow> (if mfg then do { a \<leftarrow> nth_opt p 1; b \<leftarrow> nth_opt p 2; Some (le16 a b) } else Some ZCL_MFG_NONE);
     let common = (if mfg then 3 else 1);
     let len = sint (env_length env - of_nat (common + 2));
     if len < 0 then Some (Inl (- EBADMSG))
     else do {
       seq \<leftarrow> nth_opt p common;
       cmd \<leftarrow> nth_opt p (common + 1);
       attrs \<leftarrow> (case tree of
           None \<Rightarrow> Some None
         | Some t \<Rightarrow> tree_search t mfg_code (fc AND ZCL_FRAME_DIRECTION = ZCL_FRAME_CLIENT_TO_SERVER));
       Some (Inr \<lparr>cmd_envelope = env, frame_control = fc, mfg_code = mfg_code, sequence = seq, command = cmd,
         attributes = attrs, zcl_payload = drop (common + 2) p, cmd_length = len\<rparr>) } }"

definition zcl_invalid_cluster ::
  "('u zcl_vars, 's) aps_env \<Rightarrow> wpan_envelope_t \<Rightarrow> ('u, 's) zdev \<Rightarrow> (int \<times> ('u, 's) zdev) option" where
  "zcl_invalid_cluster E env d = do {
     r \<leftarrow> zcl_command_build env None;
     case r of
       Inl e \<Rightarrow> Some (e, d)
     | Inr zcl \<Rightarrow> Some (zcl_default_response E zcl ZCL_STATUS_FAILURE d) }"

definition zcl_invalid_command ::
  "('u zcl_vars, 's) aps_env \<Rightarrow> wpan_envelope_t \<Rightarrow> ('u, 's) zdev \<Rightarrow> (int \<times> ('u, 's) zdev) option" where
  "zcl_invalid_command E env d = do {
     r \<leftarrow> zcl_command_build env None;
     case r of
       Inl e \<Rightarrow> Some (e, d)
     | Inr zcl \<Rightarrow>
         let status = (if frame_control zcl AND ZCL_FRAME_MFG_SPECIFIC \<noteq> 0 then ZCL_STATUS_UNSUP_MANUF_GENERAL_COMMAND
                       else ZCL_STATUS_UNSUP_GENERAL_COMMAND);
             status = (if frame_control zcl AND ZCL_FRAME_TYPE_MASK = ZCL_FRAME_TYPE_CLUSTER then status - 1 else status)
         in Some (zcl_default_response E zcl status d) }"

definition zcl_general_command ::
  "('u zcl_vars, 's) aps_env \<Rightarrow> ('u, 's) zcl_fns \<Rightarrow> wpan_envelope_t \<Rightarrow> zcl_attribute_tree_t list option \<Rightarrow>
   ('u, 's) zdev \<Rightarrow> (int \<times> ('u, 's) zdev) option" where
  "zcl_general_command E Z env tree d = do {
     r \<leftarrow> zcl_command_build env tree;
     case r of
       Inl e \<Rightarrow> Some (e, d)
     | Inr zcl \<Rightarrow>
         if frame_control zcl AND ZCL_FRAME_TYPE_MASK \<noteq> ZCL_FRAME_TYPE_PROFILE then zcl_invalid_command E env d
         else if command zcl = ZCL_CMD_DISCOVER_ATTRIB then zcl_discover_attributes E zcl d
         else if command zcl = ZCL_CMD_READ_ATTRIB then zcl_read_attributes E Z zcl d
         else if command zcl \<in> {ZCL_CMD_WRITE_ATTRIB, ZCL_CMD_WRITE_ATTRIB_UNDIV, ZCL_CMD_WRITE_ATTRIB_NORESP}
         then zcl_write_attributes E Z zcl d
         else if command zcl \<in> {ZCL_CMD_DEFAULT_RESP, ZCL_CMD_READ_ATTRIB_RESP, ZCL_CMD_WRITE_ATTRIB_RESP,
                                ZCL_CMD_DISCOVER_ATTRIB_RESP, ZCL_CMD_WRITE_STRUCT_ATTRIB_RESP}
         then do {
           (conversation, d) \<leftarrow> wpan_conversation_response E None (sequence zcl) env d;
           if conversation \<ge> 0 then Some (conversation, d) else zcl_invalid_command E env d }
         else zcl_invalid_command E env d }"

end
