(* ===== verification/Zcl_Write.thy ===== *)
theory Zcl_Write
  imports Zcl
begin

text \<open>
  Writing attributes: lookup in a table, progress of the parser, termination of the loops, the
  all-or-nothing promise of undivided writes, and the effect of a valid request.
\<close>

section \<open>Lookup\<close>

text \<open>A table of attributes in ascending order of their identifiers, with its terminator.\<close>

definition attr_table :: "zcl_attribute_base_t list \<Rightarrow> zcl_attribute_base_t list \<Rightarrow> bool" where
  "attr_table t es \<longleftrightarrow> sorted_wrt (\<lambda>a b. attr_id a < attr_id b) es \<and> (\<forall>e \<in> set es. layout_ok e \<and> attr_id e \<noteq> 0xFFFF) \<and>
     (\<exists>z rest. t = es @ z # rest \<and> attr_id z = 0xFFFF)"

lemma attr_skip_table:
  assumes "attr_table t es"
  shows "\<exists>e rest. attr_skip t k = Some (e # rest) \<and>
    (attr_id e = k \<and> k \<noteq> 0xFFFF \<longrightarrow> e \<in> set es) \<and> (attr_id e \<noteq> k \<longrightarrow> k \<notin> attr_id ` set es)"
  using assms
proof (induction es arbitrary: t)
  case Nil
  then obtain z rest where "t = z # rest" "attr_id z = 0xFFFF" by (auto simp: attr_table_def)
  moreover have "unat k < 65536" by simp
  then have "unat k \<le> 65535" by linarith
  then have "\<not> (0xFFFF :: u16) < k" by (simp add: word_less_nat_alt)
  ultimately show ?case by auto
next
  case (Cons a es)
  then obtain t' where t: "t = a # t'" "attr_table t' es" "layout_ok a" "attr_id a \<noteq> 0xFFFF"
    "\<forall>b \<in> set es. attr_id a < attr_id b" by (auto simp: attr_table_def)
  show ?case
  proof (cases "attr_id a < k")
    case True
    then show ?thesis using Cons.IH[OF t(2)] t(1,3,4) by (force simp: zcl_attribute_get_next_def)
  next
    case False
    then show ?thesis using t(1,5) by fastforce
  qed
qed

lemma find_attribute_table:
  assumes "attr_table t es" "k \<noteq> 0xFFFF"
  shows "zcl_find_attribute (Some t) k = Some (find (\<lambda>e. attr_id e = k) es)"
proof -
  obtain e rest where s: "attr_skip t k = Some (e # rest)" "attr_id e = k \<longrightarrow> e \<in> set es" "attr_id e \<noteq> k \<longrightarrow> k \<notin> attr_id ` set es"
    using attr_skip_table[OF assms(1), of k] assms(2) by blast
  have uniq: "x = y" if "x \<in> set es" "y \<in> set es" "attr_id x = attr_id y" for x y
    using assms(1) that unfolding attr_table_def sorted_wrt_iff_nth_less in_set_conv_nth by (metis less_irrefl nat_neq_iff)
  show ?thesis
  proof (cases "attr_id e = k")
    case True
    then have "find (\<lambda>e. attr_id e = k) es = Some e"
      using s(2) uniq by (cases "find (\<lambda>e. attr_id e = k) es") (auto simp: find_None_iff find_Some_iff dest: nth_mem)
    then show ?thesis using True s(1) by (simp add: zcl_find_attribute_def nth_opt_def)
  next
    case False
    then have "find (\<lambda>e. attr_id e = k) es = None" using s(3) by (auto simp: find_None_iff)
    then show ?thesis using False s(1) by (simp add: zcl_find_attribute_def nth_opt_def)
  qed
qed

section \<open>What the functions of attributes promise\<close>

text \<open>The default function: it moves nothing of the record but its status, and without the flag to assign it stores nothing.\<close>

lemma decode_24bit_laws:
  assumes "decode_24bit e b assign st d = Some (n, st', d')"
  shows "n = 3 \<and> st' = st \<and> (\<not> assign \<longrightarrow> d' = d) \<and> link d' = link d"
  using assms by (auto simp: decode_24bit_def var_store_def Let_def split: if_splits Option.bind_splits)

lemma decode_string_laws:
  assumes "decode_string e b l assign st d = Some (n, st', d')" "0 \<le> l"
  shows "0 \<le> n \<and> n \<le> l \<and> (\<not> assign \<longrightarrow> d' = d) \<and> link d' = link d"
  using assms by (auto simp: decode_string_def var_store_def Let_def split: if_splits Option.bind_splits option.splits)

lemma decode_default_laws:
  assumes "decode_default e b assign st d = Some (n, st', d')"
  shows "n = max 0 (zcl_sizeof_type (attr_type e)) \<and> (\<not> assign \<longrightarrow> d' = d) \<and> link d' = link d"
  using assms sizeof_invalid[of "attr_type e"]
  by (auto simp: decode_default_def var_store_def Let_def split: if_splits Option.bind_splits)

text \<open>
  The contract of a function that stores an attribute: it consumes a number of bytes that it returns and leaves
  moving the buffer to its caller, without the flag to assign it changes nothing, and it sends nothing.
\<close>

definition write_laws ::
  "zcl_attribute_write_rec_t \<Rightarrow> ('u, 's) zdev \<Rightarrow> int \<times> zcl_attribute_write_rec_t \<times> ('u, 's) zdev \<Rightarrow> bool" where
  "write_laws r d x = (case x of (n, r', d') \<Rightarrow>
     0 \<le> n \<and> wr_buffer r' = wr_buffer r \<and> wr_buflen r' = wr_buflen r \<and> (wr_flags r AND 1 = 0 \<longrightarrow> d' = d) \<and> link d' = link d)"

lemma decode_type_laws:
  assumes "decode_type e r assign st d = Some (n, st', d')" "0 \<le> wr_buflen r"
  shows "0 \<le> n \<and> (\<not> assign \<longrightarrow> d' = d) \<and> link d' = link d"
  using assms(1)
  by (auto simp: decode_type_def split: Option.bind_splits if_splits
      dest!: decode_24bit_laws decode_string_laws[OF _ assms(2)] decode_default_laws)

lemma decode_laws:
  assumes "zcl_decode_attribute e r d = Some x" "0 \<le> wr_buflen r"
  shows "write_laws r d x"
  using assms by (auto simp: zcl_decode_attribute_def write_laws_def Let_def split: Option.bind_splits dest!: decode_type_laws)

lemma records_left:
  assumes "b1 \<le> max 0 (b - 3)" "0 < b"
  shows "(max 0 b1 + 2) div 3 + 1 \<le> (max 0 b + 2) div (3 :: int)"
proof (cases "b \<le> 3")
  case True
  then have "max 0 b1 = 0" using assms by auto
  then show ?thesis using zdiv_mono1[of 3 "b + 2" 3] assms(2) by simp
next
  case False
  then show ?thesis using zdiv_mono1[of "max 0 b1 + 5" "b + 2" 3] assms by (auto simp: max_def)
qed

abbreviation write_rec :: "bool \<Rightarrow> zcl_attribute_write_rec_t \<Rightarrow> zcl_attribute_write_rec_t" where
  "write_rec assign r \<equiv> r\<lparr>wr_flags := (if assign then 1 else 0), wr_status := 0\<rparr>"

locale attr_functions =
  fixes Z :: "('u, 's) zcl_fns"
  assumes write_fn: "attr_write Z k e r d = Some x \<Longrightarrow> 0 \<le> wr_buflen r \<Longrightarrow> write_laws r d x"
    and read_fn: "attr_read Z k e d = Some (st, d') \<Longrightarrow> link d' = link d"
begin

lemma record_value_laws:
  assumes "record_value Z e r d = Some x" "0 \<le> wr_buflen r"
  shows "write_laws r d x"
  using assms by (auto simp: record_value_def split: if_splits option.splits dest: write_fn decode_laws)

text \<open>One record of a write request: at least three bytes are consumed, or the rest of a malformed request.\<close>

lemma parse_laws:
  assumes "zcl_parse_attribute_record Z table r d = Some (n, r', d')" "0 < wr_buflen r" "wr_flags r AND 2 = 0"
  shows "wr_buflen r' \<le> max 0 (wr_buflen r - 3) \<and> (wr_flags r AND 1 = 0 \<longrightarrow> d' = d) \<and> link d' = link d"
proof (cases "wr_buflen r < 3")
  case True
  then show ?thesis using assms by (auto simp: zcl_parse_attribute_record_def Let_def split: Option.bind_splits if_splits)
next
  case False
  have and0: "(x AND - 2) AND 1 = 0" for x :: u8 by (simp add: and.assoc)
  show ?thesis using False assms
    by (auto simp: zcl_parse_attribute_record_def Let_def write_laws_def and0 split: Option.bind_splits if_splits
        dest!: record_value_laws)
qed

lemma parse_write:
  assumes "zcl_parse_attribute_record Z table (write_rec assign r) d = Some (n, r', d')" "0 < wr_buflen r"
  shows "wr_buflen r' \<le> max 0 (wr_buflen r - 3) \<and> (\<not> assign \<longrightarrow> d' = d) \<and> link d' = link d"
  using parse_laws[OF assms(1)] assms(2) by (cases assign) simp_all

text \<open>The bound on the rounds does not matter once it is above the length.\<close>

lemma write_loop_bound:
  assumes "nat (wr_buflen r) < n" "nat (wr_buflen r) < m"
  shows "write_loop n Z table assign r recs d = write_loop m Z table assign r recs d"
  using assms
proof (induction n arbitrary: m r recs d)
  case (Suc n)
  then obtain m' where m: "m = Suc m'" by (cases m) auto
  show ?case
  proof (cases "wr_buflen r \<le> 0")
    case False
    have "write_loop n Z table assign r' recs' d' = write_loop m' Z table assign r' recs' d'"
      if "zcl_parse_attribute_record Z table (write_rec assign r) d = Some (k, r', d')" for k r' d' recs'
      using parse_write[OF that] False Suc.prems by (intro Suc.IH) (auto simp: m)
    then show ?thesis by (cases "zcl_parse_attribute_record Z table (write_rec assign r) d") (auto simp: m cong: if_cong)
  qed (simp add: m)
qed simp

lemma write_loop_laws:
  assumes "write_loop n Z table assign r recs d = Some (recs', d')"
  shows "(\<not> assign \<longrightarrow> d' = d) \<and> link d' = link d"
  using assms
proof (induction n arbitrary: r recs d)
  case (Suc n)
  show ?case
  proof (cases "wr_buflen r \<le> 0")
    case False
    then obtain k r1 d1 recs1 where p: "zcl_parse_attribute_record Z table (write_rec assign r) d = Some (k, r1, d1)"
      "write_loop n Z table assign r1 recs1 d1 = Some (recs', d')"
      using Suc.prems by (auto split: Option.bind_splits if_splits)
    show ?thesis using parse_write[OF p(1)] Suc.IH[OF p(2)] False by auto
  qed (use Suc.prems in simp)
qed simp

text \<open>A record needs three bytes, so a request of up to 75 bytes has no more records than the array of the response.\<close>

lemma write_loop_fits:
  assumes "write_loop n Z table assign r recs d = Some (recs', d')"
  shows "int (length recs') \<le> int (length recs) + (max 0 (wr_buflen r) + 2) div 3"
  using assms
proof (induction n arbitrary: r recs d)
  case (Suc n)
  show ?case
  proof (cases "wr_buflen r \<le> 0")
    case False
    then obtain k r1 d1 recs1 where p: "zcl_parse_attribute_record Z table (write_rec assign r) d = Some (k, r1, d1)"
      "write_loop n Z table assign r1 recs1 d1 = Some (recs', d')" "length recs1 \<le> length recs + 1"
      using Suc.prems by (auto split: Option.bind_splits if_splits)
    show ?thesis using records_left[of "wr_buflen r1" "wr_buflen r"] parse_write[OF p(1)] Suc.IH[OF p(2)] p(3) False by linarith
  qed (use Suc.prems in simp)
qed simp

end

section \<open>Undivided writes\<close>

text \<open>
  A table whose attributes, up to the terminator, have variables and no write functions. There a record is judged
  the same whether it is to be assigned or not. The terminator is \<open>{ ZCL_ATTRIBUTE_END_OF_LIST }\<close>, with zero for the
  members that are not given; the lookup finds it for the identifier 0xFFFF, and a record of that identifier is refused.
\<close>

definition plain_attr :: "zcl_attribute_base_t \<Rightarrow> bool" where
  "plain_attr e \<longleftrightarrow> attr_value e \<noteq> None \<and>
     (attr_flags e AND 0x80 = 0 \<or> (case attr_full e of Some f \<Rightarrow> full_write f = None | None \<Rightarrow> True))"

definition terminator :: zcl_attribute_base_t where
  "terminator = \<lparr>attr_id = ZCL_ATTRIBUTE_END_OF_LIST, attr_flags = 0, attr_type = ZCL_TYPE_NO_DATA, attr_value = None, attr_full = None\<rparr>"

definition live_attrs :: "zcl_attribute_base_t list \<Rightarrow> zcl_attribute_base_t list" where
  "live_attrs t = takeWhile (\<lambda>e. attr_id e \<noteq> ZCL_ATTRIBUTE_END_OF_LIST) t"

definition plain_table :: "zcl_attribute_base_t list option \<Rightarrow> bool" where
  "plain_table table \<longleftrightarrow> (case table of
     None \<Rightarrow> True
   | Some t \<Rightarrow> (\<forall>e \<in> set (live_attrs t). plain_attr e) \<and> take 1 (drop (length (live_attrs t)) t) = [terminator])"

lemma attr_skip_live:
  "attr_skip t k = Some (e # r) \<Longrightarrow> e \<in> set (live_attrs t) \<or> take 1 (drop (length (live_attrs t)) t) = [e]"
proof (induction t k rule: attr_skip.induct)
  case (2 a rest k)
  have "unat k < 65536" by simp
  then have "unat k \<le> 65535" by linarith
  then have "\<not> (0xFFFF :: u16) < k" by (simp add: word_less_nat_alt)
  with 2 show ?case by (auto simp: live_attrs_def split: if_splits Option.bind_splits)
qed simp

lemma find_attribute_in:
  assumes "zcl_find_attribute (Some t) k = Some (Some e)" "plain_table (Some t)"
  shows "e \<in> set (live_attrs t) \<or> e = terminator"
proof -
  obtain r where "attr_skip t k = Some (e # r)"
    using assms(1) by (auto simp: zcl_find_attribute_def nth_opt_def neq_Nil_conv split: Option.bind_splits if_splits)
  from attr_skip_live[OF this] assms(2) show ?thesis by (auto simp: plain_table_def)
qed

text \<open>The bytes consumed and the status do not depend on the variables.\<close>

lemma decode_type_status:
  assumes "decode_type e r a st d = Some (n, st', d')" "decode_type e r a1 st d1 = Some (n1, st1, d1')"
  shows "n1 = n \<and> st1 = st'"
proof -
  have d24: "decode_24bit e b a st d = Some (n, st', d') \<Longrightarrow> decode_24bit e b a1 st d1 = Some (n1, st1, d1') \<Longrightarrow> n1 = n \<and> st1 = st'"
    for b by (auto simp: decode_24bit_def split: if_splits Option.bind_splits)
  have dstr: "decode_string e b l a st d = Some (n, st', d') \<Longrightarrow> decode_string e b l a1 st d1 = Some (n1, st1, d1') \<Longrightarrow>
      n1 = n \<and> st1 = st'" for b l
    by (auto simp: decode_string_def Let_def split: if_splits Option.bind_splits option.splits)
  have ddef: "decode_default e b a st d = Some (n, st', d') \<Longrightarrow> decode_default e b a1 st d1 = Some (n1, st1, d1') \<Longrightarrow>
      n1 = n \<and> st1 = st'" for b a a1 st
    by (auto simp: decode_default_def Let_def split: if_splits Option.bind_splits)
  show ?thesis
    using assms d24 dstr ddef unfolding decode_type_def
    by (cases "nth_opt (wr_buffer r) 0") (simp_all split: if_splits)
qed

lemma decode_assign_status:
  assumes "zcl_decode_attribute e (r\<lparr>wr_flags := 0\<rparr>) d = Some (n, r0, d0)"
    "zcl_decode_attribute e (r\<lparr>wr_flags := f\<rparr>) d1 = Some (m, r1, d1')" "f = 0 \<or> f = 1 \<and> (attr_value e \<noteq> None \<or> attr_type e = 0)"
  shows "m = n \<and> wr_buffer r1 = wr_buffer r0 \<and> wr_buflen r1 = wr_buflen r0 \<and> wr_status r1 = wr_status r0"
proof (cases "attr_type e = 0")
  case True
  then show ?thesis using assms(1,2) by (auto simp: zcl_decode_attribute_def decode_type_def is_24bit_def Let_def)
next
  case False
  have flags: "decode_type e (r\<lparr>wr_flags := f\<rparr>) = decode_type e r" for f
    by (simp add: decode_type_def fun_eq_iff cong: if_cong)
  have form: "\<exists>st. decode_type e r (g = 1) (wr_status r) d = Some (n, st, d') \<and>
      r' = (if wr_status r = 0 then r\<lparr>wr_flags := g, wr_status := st\<rparr> else r\<lparr>wr_flags := g\<rparr>)"
    if "zcl_decode_attribute e (r\<lparr>wr_flags := g\<rparr>) d = Some (n, r', d')" "g = 0 \<or> g = 1 \<and> attr_value e \<noteq> None" for g d n r' d'
    using that by (auto simp: zcl_decode_attribute_def Let_def flags split: Option.bind_splits)
  from form[OF assms(1)] form[OF assms(2)] assms(3) False decode_type_status[of e r _ _ _ n _ d0 _ _ m _ d1'] show ?thesis by fastforce
qed

text \<open>Both passes of an undivided write go through the request in step.\<close>

lemma record_status_flags: "record_status e t (r\<lparr>wr_flags := f\<rparr>) = record_status e t r"
  by (simp add: record_status_def Let_def cong: option.case_cong if_cong)

text \<open>The status of a record of a write request before its value is decoded, and the attribute that decodes it.\<close>

definition judge :: "zcl_attribute_base_t list option \<Rightarrow> bytes \<Rightarrow> int \<Rightarrow> (u8 \<times> zcl_attribute_base_t) option" where
  "judge table buffer buflen = do {
     a \<leftarrow> nth_opt buffer 0;
     b \<leftarrow> nth_opt buffer 1;
     if buflen < 3 then Some (0x80, fake_attribute (le16 a b) 0)
     else do {
       type \<leftarrow> nth_opt buffer 2;
       entry \<leftarrow> zcl_find_attribute table (le16 a b);
       st \<leftarrow> record_status entry type \<lparr>wr_buffer = drop 3 buffer, wr_buflen = buflen - 3, wr_flags = 0, wr_status = 0\<rparr>;
       e \<leftarrow> (if st \<noteq> 0 then Some (fake_attribute (le16 a b) type) else entry);
       Some (st, e) } }"

lemma parse_judge:
  fixes r :: zcl_attribute_write_rec_t
  shows "zcl_parse_attribute_record Z table (write_rec assign r) d = do {
     (st, e) \<leftarrow> judge table (wr_buffer r) (wr_buflen r);
     if st = 0x80
     then Some (wr_buflen r, \<lparr>wr_buffer = (if wr_buflen r < 3 then wr_buffer r else drop 3 (wr_buffer r)), wr_buflen = 0,
                              wr_flags = (if assign then 1 else 0), wr_status = 0x80\<rparr>, d)
     else do {
       (k, r', d') \<leftarrow> record_value Z e \<lparr>wr_buffer = drop 3 (wr_buffer r), wr_buflen = wr_buflen r - 3,
                          wr_flags = (if assign \<and> st = 0 then 1 else 0), wr_status = st\<rparr> d;
       Some (wr_buflen r - (wr_buflen r' - k), r'\<lparr>wr_buffer := drop (nat k) (wr_buffer r'), wr_buflen := wr_buflen r' - k\<rparr>, d') } }"
  (is "?l = ?r")
proof -
  have st: "record_status e t \<lparr>wr_buffer = x, wr_buflen = l, wr_flags = 1, wr_status = s\<rparr> =
      record_status e t \<lparr>wr_buffer = x, wr_buflen = l, wr_flags = 0, wr_status = s\<rparr>" for e t x l s
    using record_status_flags[where r = "\<lparr>wr_buffer = x, wr_buflen = l, wr_flags = 0, wr_status = s\<rparr>" and f = 1] by simp
  obtain b l f s where r: "r = \<lparr>wr_buffer = b, wr_buflen = l, wr_flags = f, wr_status = s\<rparr>" by (cases r)
  show ?thesis
    by (cases assign; simp add: r zcl_parse_attribute_record_def judge_def Let_def st cong: if_cong;
        auto split: Option.bind_split)
qed

lemma judge_plain:
  assumes "judge table b l = Some (st, e)" "plain_table table"
  shows "record_value Z e r d = zcl_decode_attribute e r d \<and> (st = 0 \<longrightarrow> attr_value e \<noteq> None \<or> e = terminator)"
proof -
  consider k t where "e = fake_attribute k t" "st \<noteq> 0" | k where "zcl_find_attribute table k = Some (Some e)"
    using assms(1) by (auto simp: judge_def split: Option.bind_splits if_splits)
  then show ?thesis
  proof cases
    case 1
    then show ?thesis by (simp add: record_value_def fake_attribute_def)
  next
    case 2
    then obtain t where t: "table = Some t" "e \<in> set (live_attrs t) \<or> e = terminator"
      using find_attribute_in assms(2) by (cases table) (auto simp: zcl_find_attribute_def)
    show ?thesis
    proof (cases "e = terminator")
      case True
      then show ?thesis by (simp add: record_value_def terminator_def)
    next
      case False
      then have "plain_attr e" using assms(2) t by (simp add: plain_table_def)
      then show ?thesis by (auto simp: plain_attr_def record_value_def split: option.splits)
    qed
  qed
qed

lemma parse_assign_status:
  assumes "zcl_parse_attribute_record Z table (write_rec False r) d = Some (n, r0, d0)"
    "zcl_parse_attribute_record Z table (write_rec True r) d1 = Some (m, r1, d1')" "plain_table table"
  shows "wr_buffer r1 = wr_buffer r0 \<and> wr_buflen r1 = wr_buflen r0 \<and> wr_status r1 = wr_status r0"
proof -
  obtain st e where j: "judge table (wr_buffer r) (wr_buflen r) = Some (st, e)"
    using assms(1)[unfolded parse_judge] by (cases "judge table (wr_buffer r) (wr_buflen r)") auto
  show ?thesis
  proof (cases "st = 0x80")
    case True
    then show ?thesis using assms(1,2)[unfolded parse_judge] by (auto simp: j)
  next
    case False
    let ?r = "\<lparr>wr_buffer = drop 3 (wr_buffer r), wr_buflen = wr_buflen r - 3, wr_flags = 0, wr_status = st\<rparr>"
    obtain k q where 0: "zcl_decode_attribute e (?r\<lparr>wr_flags := 0\<rparr>) d = Some (k, q, d0)"
      "r0 = q\<lparr>wr_buffer := drop (nat k) (wr_buffer q), wr_buflen := wr_buflen q - k\<rparr>"
      using assms(1)[unfolded parse_judge] False by (auto simp: j judge_plain[OF j assms(3)] split: Option.bind_splits)
    obtain k' q' where 1: "zcl_decode_attribute e (?r\<lparr>wr_flags := if st = 0 then 1 else 0\<rparr>) d1 = Some (k', q', d1')"
      "r1 = q'\<lparr>wr_buffer := drop (nat k') (wr_buffer q'), wr_buflen := wr_buflen q' - k'\<rparr>"
      using assms(2)[unfolded parse_judge] False by (auto simp: j judge_plain[OF j assms(3)] split: Option.bind_splits)
    show ?thesis
      using decode_assign_status[OF 0(1) 1(1)] judge_plain[OF j assms(3), of undefined undefined undefined]
      by (auto simp: 0(2) 1(2) terminator_def)
  qed
qed

lemma write_loop_grows:
  assumes "write_loop n Z table assign r recs d = Some (recs', d')"
  shows "length recs \<le> length recs'"
  using assms
proof (induction n arbitrary: r recs d)
  case (Suc n)
  then show ?case
    by (fastforce split: if_splits Option.bind_splits dest: Suc.IH)
qed simp

lemma write_loop_step:
  assumes "write_loop (Suc n) Z table assign r recs d = Some (recs', d')" "0 < wr_buflen r"
  obtains k r1 d1 x where "zcl_parse_attribute_record Z table (write_rec assign r) d = Some (k, r1, d1)"
    "write_loop n Z table assign r1 (if wr_status r1 \<noteq> 0 then recs @ [x] else recs) d1 = Some (recs', d')"
  using assms by (auto split: Option.bind_splits if_splits)

text \<open>Where the first pass found nothing to report, the second one finds nothing.\<close>

lemma write_loop_in_step:
  assumes "write_loop n Z table False r recs d = Some (recs, d0)" "write_loop n Z table True r' recs d1 = Some (recs1, d1')"
    "plain_table table" "wr_buffer r' = wr_buffer r" "wr_buflen r' = wr_buflen r"
  shows "recs1 = recs"
  using assms(1,2,4,5)
proof (induction n arbitrary: r r' d d1)
  case (Suc n)
  show ?case
  proof (cases "wr_buflen r \<le> 0")
    case True
    then show ?thesis using Suc.prems by simp
  next
    case False
    have same: "write_rec True r' = write_rec True r" using Suc.prems by (cases r; cases r') simp
    obtain k q e x where 0: "zcl_parse_attribute_record Z table (write_rec False r) d = Some (k, q, e)"
      "write_loop n Z table False q (if wr_status q \<noteq> 0 then recs @ [x] else recs) e = Some (recs, d0)"
      by (rule write_loop_step[OF Suc.prems(1)]) (use False in auto)
    obtain k1 q1 e1 y where 1: "zcl_parse_attribute_record Z table (write_rec True r) d1 = Some (k1, q1, e1)"
      "write_loop n Z table True q1 (if wr_status q1 \<noteq> 0 then recs @ [y] else recs) e1 = Some (recs1, d1')"
      by (rule write_loop_step[OF Suc.prems(2), unfolded same]) (use Suc.prems(4) False in auto)
    have s0: "wr_status q = 0" using write_loop_grows[OF 0(2)] by (auto split: if_splits)
    have st: "wr_buffer q1 = wr_buffer q" "wr_buflen q1 = wr_buflen q" "wr_status q1 = 0"
      using parse_assign_status[OF 0(1) 1(1) assms(3)] s0 by simp_all
    show ?thesis by (rule Suc.IH[of q e q1 e1]) (use 0(2) 1(2) s0 st in simp_all)
  qed
qed simp

lemma write_pass_dry:
  assumes "attr_functions Z" "write_pass Z cmd False d = Some (recs, d')"
  shows "d' = d"
  using attr_functions.write_loop_laws[OF assms(1) assms(2)[unfolded write_pass_def]] by simp

text \<open>
  C13: an undivided write is all or nothing. Where every attribute of the table has a variable and none
  has a write function, and the table ends in \<open>{ ZCL_ATTRIBUTE_END_OF_LIST }\<close>, a Write Attributes Undivided request that is processed either assigns every
  record and answers with the single status of success, or assigns nothing, and the answer lists the records
  that were refused.
\<close>

theorem undivided_all_or_nothing:
  assumes "attr_functions Z" "plain_table (attributes cmd)" "command cmd = ZCL_CMD_WRITE_ATTRIB_UNDIV"
    "zcl_write_attributes E Z cmd d = Some (x, d')"
  shows "(\<exists>d1. write_pass Z cmd True d = Some ([], d1) \<and>
       (x, d') = zcl_send_response E cmd (zcl_build_header cmd ZCL_CMD_WRITE_ATTRIB_RESP @ [ZCL_STATUS_SUCCESS]) d1) \<or>
     (\<exists>recs. recs \<noteq> [] \<and> write_pass Z cmd False d = Some (recs, d) \<and>
       (x, d') = zcl_send_response E cmd (zcl_build_header cmd ZCL_CMD_WRITE_ATTRIB_RESP @ concat recs) d)"
proof -
  obtain recs d0 where dry: "write_pass Z cmd False d = Some (recs, d0)"
    using assms(3,4) by (auto simp: zcl_write_attributes_def split: Option.bind_splits)
  have d0: "d0 = d" by (rule write_pass_dry[OF assms(1) dry])
  show ?thesis
  proof (cases "recs = []")
    case True
    then obtain recs1 d1 where wet: "write_pass Z cmd True d = Some (recs1, d1)"
      using assms(3,4) dry d0 by (auto simp: zcl_write_attributes_def split: Option.bind_splits)
    have "recs1 = []"
      using write_loop_in_step[OF dry[unfolded write_pass_def True] wet[unfolded write_pass_def] assms(2)] by simp
    then show ?thesis using True assms(3,4) dry d0 wet by (auto simp: zcl_write_attributes_def)
  next
    case False
    then show ?thesis using assms(3,4) dry d0 by (auto simp: zcl_write_attributes_def)
  qed
qed

section \<open>A valid request\<close>

text \<open>
  One write of the request: an attribute and the bytes of its new value. The attribute may be written and has no
  limits and a type of fixed size; a 24-bit attribute is stored as it is sent (flag \<open>RAW\<close>).
\<close>

definition valid_write :: "zcl_attribute_base_t \<Rightarrow> bytes \<Rightarrow> bool" where
  "valid_write e v \<longleftrightarrow> plain_attr e \<and> attr_flags e AND 0x0E = 0 \<and> 0 < zcl_sizeof_type (attr_type e) \<and>
     length v = nat (zcl_sizeof_type (attr_type e)) \<and> (is_24bit (attr_type e) \<longrightarrow> attr_flags e AND 0x40 \<noteq> 0) \<and>
     (attr_type e = 0x10 \<longrightarrow> v ! 0 AND 0xFE = 0)"

definition write_record :: "zcl_attribute_base_t \<times> bytes \<Rightarrow> bytes" where
  "write_record w = le16_put (attr_id (fst w)) @ attr_type (fst w) # snd w"

text \<open>The specification: the values are stored one after the other.\<close>

fun store_all :: "(zcl_attribute_base_t \<times> bytes) list \<Rightarrow> ('u, 's) zdev \<Rightarrow> ('u, 's) zdev option" where
  "store_all [] d = Some d"
| "store_all ((e, v) # ws) d = do { p \<leftarrow> attr_value e; d \<leftarrow> var_store d p v; store_all ws d }"

lemma and_sub_zero: "a AND m = 0 \<Longrightarrow> n AND m = n \<Longrightarrow> a AND n = (0 :: u8)"
  by (metis and.assoc and.commute and_zero_eq)

lemma find_attribute_member:
  assumes "attr_table t es" "e \<in> set es"
  shows "zcl_find_attribute (Some t) (attr_id e) = Some (Some e)"
proof -
  have e: "layout_ok e" "attr_id e \<noteq> 0xFFFF" using assms(1,2) by (auto simp: attr_table_def)
  have uniq: "x = y" if "x \<in> set es" "y \<in> set es" "attr_id x = attr_id y" for x y
    using assms(1) that unfolding attr_table_def sorted_wrt_iff_nth_less in_set_conv_nth by (metis less_irrefl nat_neq_iff)
  have "find (\<lambda>x. attr_id x = attr_id e) es = Some e"
    using assms(2) uniq by (cases "find (\<lambda>x. attr_id x = attr_id e) es") (auto simp: find_None_iff find_Some_iff dest: nth_mem)
  then show "zcl_find_attribute (Some t) (attr_id e) = Some (Some e)" using find_attribute_table[OF assms(1) e(2)] by simp
qed

lemma judge_valid:
  assumes "attr_table t es" "e \<in> set es" "valid_write e v" "b = write_record (e, v) @ rest" "3 + int (length v) \<le> l"
  shows "judge (Some t) b l = Some (0, e)"
proof -
  have f: "zcl_find_attribute (Some t) (attr_id e) = Some (Some e)" by (rule find_attribute_member[OF assms(1,2)])
  have fl: "attr_flags e AND 2 = 0" "attr_flags e AND 12 = 0"
    using assms(3) by (auto simp: valid_write_def intro: and_sub_zero[of _ "0x0E"])
  have "record_status (Some e) (attr_type e) \<lparr>wr_buffer = v @ rest, wr_buflen = l - 3, wr_flags = 0, wr_status = 0\<rparr> = Some 0"
    using assms(3,5) fl by (simp add: record_status_def valid_write_def zcl_check_minmax_def)
  then show ?thesis
    using assms(5) f by (simp add: judge_def assms(4) write_record_def le16_put_def nth_opt_def le16_def be16_roundtrip)
qed

lemma decode_valid:
  assumes "valid_write e v" "attr_value e = Some p"
  shows "zcl_decode_attribute e \<lparr>wr_buffer = v @ rest, wr_buflen = l, wr_flags = (if assign then 1 else 0), wr_status = 0\<rparr> d = do {
    d \<leftarrow> (if assign then var_store d p v else Some d);
    Some (int (length v), \<lparr>wr_buffer = v @ rest, wr_buflen = l, wr_flags = (if assign then 1 else 0), wr_status = 0\<rparr>, d) }"
proof -
  have ne: "attr_type e \<noteq> 0x42" "attr_type e \<noteq> 0" "attr_type e \<noteq> 0xFF" "\<not> ZCL_TYPE_IS_INVALID (attr_type e)"
    using assms(1) sizeof_special sizeof_invalid[of "attr_type e"] by (auto simp: valid_write_def)
  have "decode_type e \<lparr>wr_buffer = v @ rest, wr_buflen = l, wr_flags = f, wr_status = 0\<rparr> assign 0 d = do {
      d \<leftarrow> (if assign then var_store d p v else Some d); Some (int (length v), 0, d) }" for f
  proof (cases "is_24bit (attr_type e)")
    case True
    then have "zcl_sizeof_type (attr_type e) = 3" using sizeof_24bit[of "attr_type e"] by (auto simp: is_24bit_def)
    then show ?thesis using True assms by (simp add: decode_type_def decode_24bit_def valid_write_def)
  next
    case False
    have h: "nth_opt (v @ rest) 0 = Some (v ! 0)" "attr_type e = 0x10 \<Longrightarrow> v ! 0 AND 0xFE = 0"
      using assms(1) by (auto simp: valid_write_def nth_opt_def nth_append)
    have "decode_type e \<lparr>wr_buffer = v @ rest, wr_buflen = l, wr_flags = f, wr_status = 0\<rparr> assign 0 d = decode_default e (v @ rest) assign 0 d"
      using False ne h by (simp add: decode_type_def)
    moreover have "decode_default e (v @ rest) assign 0 d =
        do { d \<leftarrow> (if assign then var_store d p v else Some d); Some (int (length v), 0, d) }"
      using assms ne by (simp add: decode_default_def valid_write_def Let_def)
    ultimately show ?thesis by presburger
  qed
  then show ?thesis using assms by (cases assign) (simp_all add: zcl_decode_attribute_def)
qed

lemma write_record_pair:
  "write_record (e, v) = ucast (attr_id e) # ucast (drop_bit 8 (attr_id e)) # attr_type e # v"
  by (simp add: write_record_def le16_put_def)

lemma write_loop_valid:
  assumes "attr_table t es" "\<forall>(e, v) \<in> set ws. e \<in> set es \<and> valid_write e v" "length recs < 25"
    "wr_buffer r = concat (map write_record ws) @ rest" "wr_buflen r = int (length (concat (map write_record ws)))"
    "length ws < n" "if assign then store_all ws d = Some d1 else d1 = d"
  shows "write_loop n Z (Some t) assign r recs d = Some (recs, d1)"
  using assms(2,4-)
proof (induction ws arbitrary: n r d)
  case Nil
  then show ?case by (cases n) (auto split: if_splits)
next
  case (Cons w ws)
  obtain e v where w: "w = (e, v)" by (cases w)
  obtain m where n: "n = Suc m" using Cons.prems(4) by (cases n) auto
  have ok: "e \<in> set es" "valid_write e v" using Cons.prems(1) by (auto simp: w)
  then obtain p where p: "attr_value e = Some p" by (auto simp: valid_write_def plain_attr_def)
  obtain d2 where d2: "(if assign then var_store d p v else Some d) = Some d2" "if assign then store_all ws d2 = Some d1 else d1 = d2"
    using Cons.prems(5) by (auto simp: w p split: Option.bind_splits if_splits)
  let ?b = "concat (map write_record ws) @ rest" and ?l = "int (length (concat (map write_record ws)))"
  let ?r = "\<lparr>wr_buffer = ?b, wr_buflen = ?l, wr_flags = (if assign then 1 else 0), wr_status = 0\<rparr>"
  have len: "wr_buflen r = 3 + int (length v) + ?l" using Cons.prems(3) by (simp add: w write_record_pair)
  have j: "judge (Some t) (wr_buffer r) (wr_buflen r) = Some (0, e)"
    by (rule judge_valid[OF assms(1) ok, of _ ?b]) (use Cons.prems(2) len in \<open>simp_all add: w\<close>)
  have dr: "drop 3 (wr_buffer r) = v @ ?b" using Cons.prems(2) by (simp add: w write_record_pair)
  have rv: "record_value Z e r' d' = zcl_decode_attribute e r' d'" for r' d'
    using ok(2) by (auto simp: record_value_def valid_write_def plain_attr_def split: option.splits)
  have parse: "zcl_parse_attribute_record Z (Some t) (write_rec assign r) d = Some (3 + int (length v), ?r, d2)"
    unfolding parse_judge j using d2(1) decode_valid[OF ok(2) p, of ?b "int (length v) + ?l" assign d]
    by (cases assign) (simp_all add: rv dr len)
  have b: "nth_opt (wr_buffer r) 0 \<noteq> None" "nth_opt (wr_buffer r) 1 \<noteq> None"
    using Cons.prems(2) by (simp_all add: w write_record_pair nth_opt_def)
  have "write_loop m Z (Some t) assign ?r recs d2 = Some (recs, d1)"
    by (rule Cons.IH) (use Cons.prems d2(2) in \<open>simp_all add: n\<close>)
  then show ?case using b assms(3) len parse by (auto simp: n)
qed

text \<open>
  C15: a valid write takes effect. The request is a sequence of records of writable attributes of the table, with
  values of the right length. Each of the three write commands stores every value, in order; the
  two that have an answer answer with the single status of success.
\<close>

theorem write_attributes_apply:
  assumes "attributes cmd = Some t" "attr_table t es" "\<forall>(e, v) \<in> set ws. e \<in> set es \<and> valid_write e v"
    "zcl_payload cmd = concat (map write_record ws) @ rest" "cmd_length cmd = int (length (concat (map write_record ws)))"
    "store_all ws d = Some d1" "command cmd \<in> {ZCL_CMD_WRITE_ATTRIB, ZCL_CMD_WRITE_ATTRIB_UNDIV, ZCL_CMD_WRITE_ATTRIB_NORESP}"
  shows "zcl_write_attributes E Z cmd d =
    Some (if command cmd = ZCL_CMD_WRITE_ATTRIB_NORESP then (0, d1)
          else zcl_send_response E cmd (zcl_build_header cmd ZCL_CMD_WRITE_ATTRIB_RESP @ [ZCL_STATUS_SUCCESS]) d1)"
proof -
  have "length ws \<le> length (concat (map write_record ws))" by (induction ws) (auto simp: write_record_def)
  then have n: "length ws < Suc (nat (cmd_length cmd))" using assms(5) by simp
  have pass: "write_pass Z cmd assign d = Some ([], d')" if "if assign then store_all ws d = Some d' else d' = d" for assign d'
    unfolding write_pass_def assms(1) by (rule write_loop_valid[OF assms(2,3) _ _ _ n that]) (simp_all add: assms(4,5))
  show ?thesis using assms(6,7) pass[of False] pass[of True] by (auto simp: zcl_write_attributes_def)
qed

section \<open>No request leaves an array\<close>

text \<open>The variable of an attribute is large enough for every value that is stored there, and limits come with a full entry.\<close>

definition attr_need :: "zcl_attribute_base_t \<Rightarrow> nat" where
  "attr_need e =
     (if is_24bit (attr_type e) then (if attr_flags e AND 0x40 \<noteq> 0 then 3 else 4)
      else if attr_type e = 0x42 then 256
      else nat (zcl_sizeof_type (attr_type e)))"

definition attr_room :: "('u, 's) zdev \<Rightarrow> zcl_attribute_base_t \<Rightarrow> bool" where
  "attr_room d e \<longleftrightarrow> (\<exists>p. attr_value e = Some p \<and> snd p + attr_need e \<le> length (objs (vars d) (fst p))) \<and>
     (attr_flags e AND 0x0C \<noteq> 0 \<longrightarrow> attr_full e \<noteq> None)"

definition same_sizes :: "('u, 's) zdev \<Rightarrow> ('u, 's) zdev \<Rightarrow> bool" where
  "same_sizes d d' \<longleftrightarrow> (\<forall>i. length (objs (vars d') i) = length (objs (vars d) i))"

lemma var_store_fits:
  assumes "snd p + length bs \<le> length (objs (vars d) (fst p))"
  shows "\<exists>d'. var_store d p bs = Some d' \<and> same_sizes d d'"
  using assms by (auto simp: var_store_def same_sizes_def Let_def)

lemma same_sizes_refl: "same_sizes d d"
  by (simp add: same_sizes_def)

lemma decode_type_safe:
  assumes "nat (wr_buflen r) < length (wr_buffer r)" "0 \<le> wr_buflen r"
    "assign \<Longrightarrow> attr_room d e \<and> zcl_sizeof_type (attr_type e) \<le> wr_buflen r"
  shows "\<exists>n st d'. decode_type e r assign st0 d = Some (n, st, d') \<and> same_sizes d d'"
proof -
  have ne: "wr_buffer r \<noteq> []" using assms(1) by auto
  have room: "\<exists>p. attr_value e = Some p \<and> snd p + attr_need e \<le> length (objs (vars d) (fst p))" if assign
    using assms(3)[OF that] by (auto simp: attr_room_def)
  have dd: "\<exists>n st d'. decode_default e (wr_buffer r) assign st0 d = Some (n, st, d') \<and> same_sizes d d'"
    if ty: "\<not> is_24bit (attr_type e)" "attr_type e \<noteq> 0x42"
  proof (cases "assign \<and> 0 < zcl_sizeof_type (attr_type e)")
    case True
    then obtain p where p: "attr_value e = Some p" "snd p + nat (zcl_sizeof_type (attr_type e)) \<le> length (objs (vars d) (fst p))"
      using room ty by (auto simp: attr_need_def)
    have l: "nat (zcl_sizeof_type (attr_type e)) < length (wr_buffer r)" using assms(1) assms(3) True by linarith
    obtain d' where "var_store d p (take (nat (zcl_sizeof_type (attr_type e))) (wr_buffer r)) = Some d'" "same_sizes d d'"
      using var_store_fits[of p "take (nat (zcl_sizeof_type (attr_type e))) (wr_buffer r)" d] p(2) l by auto
    then show ?thesis using True p(1) l by (auto simp: decode_default_def Let_def same_sizes_refl)
  next
    case False
    then show ?thesis by (auto simp: decode_default_def Let_def same_sizes_refl)
  qed
  have d24: "\<exists>n st d'. decode_24bit e (wr_buffer r) assign st0 d = Some (n, st, d') \<and> same_sizes d d'"
    if "is_24bit (attr_type e)"
  proof (cases assign)
    case True
    then have l: "3 < length (wr_buffer r)"
      using assms(1) assms(3) sizeof_24bit[of "attr_type e"] that by (auto simp: is_24bit_def)
    let ?v = "if attr_flags e AND 0x40 \<noteq> 0 then take 3 (wr_buffer r) else zcl_convert_24bit (wr_buffer r) (attr_type e = 0x2A)"
    have "length ?v = attr_need e" using that l by (simp add: attr_need_def zcl_convert_24bit_def)
    then show ?thesis using room[OF True] True l var_store_fits[of _ ?v d] by (fastforce simp: decode_24bit_def)
  qed (simp add: decode_24bit_def same_sizes_refl)
  have ds: "\<exists>n st d'. decode_string e (wr_buffer r) (wr_buflen r) assign st0 d = Some (n, st, d') \<and> same_sizes d d'"
    if ty: "attr_type e = 0x42" "\<not> is_24bit (attr_type e)"
  proof -
    obtain n b where b: "wr_buffer r = n # b" using ne by (cases "wr_buffer r") auto
    show ?thesis
    proof (cases "assign \<and> uint n + 1 \<le> wr_buflen r")
      case True
      then obtain p where p: "attr_value e = Some p" "snd p + 256 \<le> length (objs (vars d) (fst p))"
        using room ty by (auto simp: attr_need_def)
      have u: "int (unat n) = uint n" by simp
      have l: "unat n \<le> length b" using True assms(1) unfolding b list.size using u by linarith
      have "unat n < 256" by simp
      then have "unat n \<le> 255" by linarith
      then have "length (take (unat n) b @ [0]) \<le> 256" by (simp add: min.coboundedI2)
      then obtain d' where "var_store d p (take (unat n) b @ [0]) = Some d'" "same_sizes d d'"
        using var_store_fits[of p "take (unat n) b @ [0]" d] p(2) by fastforce
      then show ?thesis using True p(1) l
        by (auto simp: decode_string_def Let_def b nth_opt_def same_sizes_refl split: option.splits)
    next
      case False
      then show ?thesis by (auto simp: decode_string_def Let_def b nth_opt_def same_sizes_refl split: option.splits)
    qed
  qed
  have d0: "\<exists>n st d'. decode_default e (wr_buffer r) False st1 d = Some (n, st, d') \<and> same_sizes d d'" for st1
    by (simp add: decode_default_def Let_def same_sizes_refl)
  show ?thesis
    using dd d24 ds ne d0[of "0x87"] by (auto simp: decode_type_def nth_opt_def same_sizes_refl)
qed

text \<open>Every attribute before the terminator has a variable with room.\<close>

definition safe_table :: "('u, 's) zdev \<Rightarrow> zcl_attribute_base_t list \<Rightarrow> bool" where
  "safe_table d t \<longleftrightarrow> attr_table t (live_attrs t) \<and> plain_table (Some t) \<and> (\<forall>e \<in> set (live_attrs t). attr_room d e)"

lemma safe_table_store: "safe_table d t \<Longrightarrow> same_sizes d d' \<Longrightarrow> safe_table d' t"
  by (simp add: safe_table_def attr_room_def same_sizes_def)

lemma minmax_safe:
  assumes "attr_room d e \<or> e = terminator" "nat (zcl_sizeof_type (attr_type e)) \<le> length b"
  shows "\<exists>k. zcl_check_minmax e b = Some k"
  using assms by (auto simp: zcl_check_minmax_def attr_room_def terminator_def Let_def)

lemma judge_safe:
  assumes "safe_table d t" "nat l < length b" "0 < l"
  shows "\<exists>st e. judge (Some t) b l = Some (st, e) \<and>
    (st = 0 \<longrightarrow> e = terminator \<or> attr_room d e \<and> zcl_sizeof_type (attr_type e) \<le> l - 3) \<and> (l < 3 \<longrightarrow> st = 0x80)"
proof -
  have t: "attr_table t (live_attrs t)" "plain_table (Some t)" "\<forall>e \<in> set (live_attrs t). attr_room d e"
    using assms(1) by (auto simp: safe_table_def)
  have n: "nth_opt b 0 = Some (b ! 0)" "nth_opt b 1 = Some (b ! 1)" using assms(2,3) by (auto simp: nth_opt_def)
  show ?thesis
  proof (cases "l < 3")
    case True
    then show ?thesis using n by (simp add: judge_def)
  next
    case False
    then have n2: "nth_opt b 2 = Some (b ! 2)" using assms(2) by (auto simp: nth_opt_def)
    obtain y where f: "zcl_find_attribute (Some t) (le16 (b ! 0) (b ! 1)) = Some y"
      using attr_skip_table[OF t(1), of "le16 (b ! 0) (b ! 1)"] by (auto simp: zcl_find_attribute_def nth_opt_def)
    let ?r = "\<lparr>wr_buffer = drop 3 b, wr_buflen = l - 3, wr_flags = 0, wr_status = 0\<rparr>"
    show ?thesis
    proof (cases y)
      case None
      then show ?thesis using False n n2 f by (simp add: judge_def record_status_def)
    next
      case (Some e)
      have e: "attr_room d e \<or> e = terminator" using find_attribute_in[OF f[unfolded Some] t(2)] t(3) by auto
      have "\<exists>st. record_status (Some e) (b ! 2) ?r = Some st \<and> (st = 0 \<longrightarrow> zcl_sizeof_type (attr_type e) \<le> l - 3)"
      proof (cases "attr_type e = b ! 2 \<and> attr_flags e AND 2 = 0 \<and> zcl_sizeof_type (attr_type e) \<le> l - 3")
        case True
        then obtain k where "zcl_check_minmax e (drop 3 b) = Some k"
          using minmax_safe[OF e, of "drop 3 b"] assms(2) False by force
        then show ?thesis using True by (auto simp: record_status_def)
      qed (use False in \<open>auto simp: record_status_def Let_def\<close>)
      then obtain st where "record_status (Some e) (b ! 2) ?r = Some st" "st = 0 \<longrightarrow> zcl_sizeof_type (attr_type e) \<le> l - 3" by auto
      then show ?thesis using False n n2 f Some e by (auto simp: judge_def)
    qed
  qed
qed

lemma parse_safe:
  fixes r :: zcl_attribute_write_rec_t
  assumes "safe_table d t" "nat (wr_buflen r) < length (wr_buffer r)" "0 < wr_buflen r"
  shows "\<exists>n r' d'. zcl_parse_attribute_record Z (Some t) (write_rec assign r) d = Some (n, r', d') \<and> same_sizes d d' \<and>
    (0 < wr_buflen r' \<longrightarrow> nat (wr_buflen r') < length (wr_buffer r'))"
proof -
  obtain st e where j: "judge (Some t) (wr_buffer r) (wr_buflen r) = Some (st, e)"
    and e: "st = 0 \<Longrightarrow> e = terminator \<or> attr_room d e \<and> zcl_sizeof_type (attr_type e) \<le> wr_buflen r - 3" "wr_buflen r < 3 \<Longrightarrow> st = 0x80"
    using judge_safe[OF assms] by auto
  show ?thesis
  proof (cases "st = 0x80")
    case True
    then show ?thesis unfolding parse_judge j using assms by (simp add: same_sizes_refl)
  next
    case False
    let ?r = "\<lparr>wr_buffer = drop 3 (wr_buffer r), wr_buflen = wr_buflen r - 3,
        wr_flags = (if assign \<and> st = 0 then 1 else 0), wr_status = st\<rparr>"
    have ge: "3 \<le> wr_buflen r" using e(2) False by fastforce
    have rv: "record_value Z e ?r d = zcl_decode_attribute e ?r d" "st = 0 \<Longrightarrow> attr_value e \<noteq> None \<or> e = terminator"
      using judge_plain[OF j, of Z ?r d] assms(1) by (simp_all add: safe_table_def)
    have "\<exists>n r' d'. zcl_decode_attribute e ?r d = Some (n, r', d') \<and> same_sizes d d' \<and> 0 \<le> n \<and>
        wr_buffer r' = wr_buffer ?r \<and> wr_buflen r' = wr_buflen ?r"
    proof (cases "e = terminator")
      case True
      then show ?thesis by (simp add: zcl_decode_attribute_def decode_type_def is_24bit_def terminator_def Let_def same_sizes_refl)
    next
      case nt: False
      have "\<exists>n st' d'. decode_type e ?r (assign \<and> st = 0) st d = Some (n, st', d') \<and> same_sizes d d'"
        by (rule decode_type_safe) (use e ge assms nt in auto)
      then obtain n st' d' where dt: "decode_type e ?r (assign \<and> st = 0) st d = Some (n, st', d')" "same_sizes d d'" by auto
      have "zcl_decode_attribute e ?r d = Some (n, if st = 0 then ?r\<lparr>wr_status := st'\<rparr> else ?r, d')"
        using dt(1) rv(2) nt by (auto simp: zcl_decode_attribute_def Let_def)
      then show ?thesis using dt(2) decode_type_laws[OF dt(1)] ge by simp
    qed
    then obtain n r' d' where dc: "zcl_decode_attribute e ?r d = Some (n, r', d')" "same_sizes d d'" "0 \<le> n"
      "wr_buffer r' = wr_buffer ?r" "wr_buflen r' = wr_buflen ?r" by blast
    then show ?thesis unfolding parse_judge j using False assms(2) rv(1) by auto
  qed
qed

lemma write_loop_safe:
  assumes "attr_functions Z" "safe_table d t" "0 < wr_buflen r \<longrightarrow> nat (wr_buflen r) < length (wr_buffer r)" "nat (wr_buflen r) < n"
    "int (length recs) + (max 0 (wr_buflen r) + 2) div 3 \<le> 25"
  shows "\<exists>recs' d'. write_loop n Z (Some t) assign r recs d = Some (recs', d') \<and> same_sizes d d'"
  using assms(2-)
proof (induction n arbitrary: r recs d)
  case (Suc n)
  show ?case
  proof (cases "wr_buflen r \<le> 0")
    case True
    then show ?thesis by (simp add: same_sizes_refl)
  next
    case False
    then obtain k q e where p: "zcl_parse_attribute_record Z (Some t) (write_rec assign r) d = Some (k, q, e)" "same_sizes d e"
      "0 < wr_buflen q \<longrightarrow> nat (wr_buflen q) < length (wr_buffer q)"
      using parse_safe[of d t r Z assign] Suc.prems by auto
    have l: "wr_buflen q \<le> max 0 (wr_buflen r - 3)" using attr_functions.parse_write[OF assms(1) p(1)] False by simp
    have c: "int (length recs) + ((max 0 (wr_buflen q) + 2) div 3 + 1) \<le> 25" "0 \<le> (max 0 (wr_buflen q) + 2) div 3"
      using records_left[OF l] False Suc.prems(4) by auto
    have b: "nth_opt (wr_buffer r) 0 = Some (wr_buffer r ! 0)" "nth_opt (wr_buffer r) 1 = Some (wr_buffer r ! 1)"
      using False Suc.prems(2) by (auto simp: nth_opt_def)
    let ?x = "if wr_status q \<noteq> 0 then recs @ [[wr_status q, wr_buffer r ! 0, wr_buffer r ! 1]] else recs"
    have "\<exists>recs' d'. write_loop n Z (Some t) assign q ?x e = Some (recs', d') \<and> same_sizes e d'"
      by (rule Suc.IH[OF safe_table_store[OF Suc.prems(1) p(2)] p(3)]) (use False l c Suc.prems(3) in auto)
    then show ?thesis using False p(1,2) b c by (auto simp: same_sizes_def)
  qed
qed simp

text \<open>
  C16: a write request is handled without leaving an array. Whatever the bytes of the request are, up to 75 of them: where
  every attribute of the table has a variable large enough, each write command comes to its end; no value leaves its
  variable and no status leaves the array of the response. An identifier, the length of a string and a boolean
  are read before the length of the rest is checked, so that a request that breaks off there is read by one byte behind its end;
  nothing else is read outside the request. The sizes of all variables stay the same.
\<close>

theorem write_attributes_safe:
  assumes "attr_functions Z" "safe_table d t" "attributes cmd = Some t" "cmd_length cmd \<le> 75" "0 \<le> cmd_length cmd"
    "nat (cmd_length cmd) < length (zcl_payload cmd)"
  shows "\<exists>x d'. zcl_write_attributes E Z cmd d = Some (x, d') \<and> same_sizes d d'"
proof -
  have "(max 0 (cmd_length cmd) + 2) div 3 \<le> 25" using assms(4) zdiv_mono1[of "max 0 (cmd_length cmd) + 2" 77 3] by simp
  then have pass: "\<exists>recs d'. write_pass Z cmd assign d = Some (recs, d') \<and> same_sizes d d'" for assign
    unfolding write_pass_def assms(3) by (intro write_loop_safe[OF assms(1,2)]) (use assms in auto)
  have send: "same_sizes d1 (snd (zcl_send_response E cmd b d1))" for b and d1 :: "('a, 'b) zdev"
    by (auto simp: zcl_send_response_def wpan_envelope_send_def same_sizes_def Let_def split: option.splits prod.splits)
  have resp: "\<exists>x d'. Some (zcl_send_response E cmd b d1) = Some (x, d') \<and> same_sizes d d'" if "same_sizes d d1" for b d1
    using send[of d1 b] that by (cases "zcl_send_response E cmd b d1") (auto simp: same_sizes_def)
  obtain recs0 where 0: "write_pass Z cmd False d = Some (recs0, d)"
    using pass[of False] write_pass_dry[OF assms(1)] by fast
  obtain recs1 d1 where 1: "write_pass Z cmd True d = Some (recs1, d1)" "same_sizes d d1" using pass[of True] by blast
  show ?thesis
    using 0 1 resp[OF 1(2)] resp[OF same_sizes_refl] by (simp add: zcl_write_attributes_def same_sizes_refl)
qed

text \<open>The first 25 records of attributes that do not exist fill the array.\<close>

lemma write_loop_overflow:
  assumes "wr_buffer r = concat (replicate k [a, b, 0]) @ rest" "wr_buflen r = 3 * int k" "25 < length recs + k" "k \<noteq> 0"
    "length recs \<le> 25"
  shows "write_loop n Z None assign r recs d = None"
  using assms
proof (induction n arbitrary: k r recs)
  case (Suc n)
  then obtain k' where k: "k = Suc k'" by (cases k) auto
  have ju: "judge None (wr_buffer r) (wr_buflen r) = Some (0x86, fake_attribute (le16 a b) 0)"
    using Suc.prems by (simp add: judge_def nth_opt_def k zcl_find_attribute_def record_status_def)
  have parse: "zcl_parse_attribute_record Z None (write_rec assign r) d =
      Some (3, \<lparr>wr_buffer = concat (replicate k' [a, b, 0]) @ rest, wr_buflen = 3 * int k', wr_flags = 0, wr_status = 0x86\<rparr>, d)"
    unfolding parse_judge ju using Suc.prems
    by (simp add: record_value_def fake_attribute_def zcl_decode_attribute_def decode_type_def is_24bit_def k)
  have b: "nth_opt (wr_buffer r) 0 = Some a" "nth_opt (wr_buffer r) 1 = Some b" using Suc.prems(1) by (simp_all add: k nth_opt_def)
  show ?case
  proof (cases "25 \<le> length recs")
    case False
    have "write_loop n Z None assign \<lparr>wr_buffer = concat (replicate k' [a, b, 0]) @ rest, wr_buflen = 3 * int k', wr_flags = 0, wr_status = 0x86\<rparr>
        (recs @ [[0x86, a, b]]) d = None"
      by (rule Suc.IH) (use Suc.prems False in \<open>auto simp: k\<close>)
    then show ?thesis using Suc.prems(2,4) parse b by simp
  qed (use Suc.prems b in simp)
qed simp

text \<open>
  The status array can overflow. A write request of 26 or more records for a cluster without attributes makes
  the handler write behind the array of 25 status records.
\<close>

theorem write_status_overflow:
  assumes "attributes cmd = None" "zcl_payload cmd = concat (replicate k [a, b, ZCL_TYPE_NO_DATA]) @ rest"
    "cmd_length cmd = 3 * int k" "25 < k" "command cmd \<in> {ZCL_CMD_WRITE_ATTRIB, ZCL_CMD_WRITE_ATTRIB_UNDIV, ZCL_CMD_WRITE_ATTRIB_NORESP}"
  shows "zcl_write_attributes E Z cmd d = None"
proof -
  have "write_pass Z cmd assign d = None" for assign
    unfolding write_pass_def assms(1) by (rule write_loop_overflow[of _ k a b rest]) (use assms in auto)
  then show ?thesis by (simp add: zcl_write_attributes_def)
qed

section \<open>Witnesses\<close>

text \<open>An application that stores attributes with the default function. A device with one attribute of type unsigned 8-bit.\<close>

definition default_fns :: "('u, 's) zcl_fns" where
  "default_fns = \<lparr>attr_read = (\<lambda>_ _ d. Some (0, d)), attr_write = (\<lambda>_. zcl_decode_attribute)\<rparr>"

interpretation default: attr_functions default_fns
  by unfold_locales (auto simp: default_fns_def intro: decode_laws)

definition demo_attr :: zcl_attribute_base_t where
  "demo_attr = \<lparr>attr_id = 5, attr_flags = 0, attr_type = 0x20, attr_value = Some (0, 0), attr_full = None\<rparr>"

definition demo_table :: "zcl_attribute_base_t list" where
  "demo_table = [demo_attr, terminator]"

definition demo_zdev :: "(unit, wpan_envelope_t list) zdev" where
  "demo_zdev = \<lparr>ep_table = None, ep_states = (\<lambda>_. \<lparr>last_transaction = 0, conversations = []\<rparr>),
     vars = \<lparr>objs = (\<lambda>i. if i = 0 then [7] else []), arrays = (\<lambda>_. None), structs = (\<lambda>_. None), zuser = ()\<rparr>, link = []\<rparr>"

definition demo_zenv :: "(unit zcl_vars, wpan_envelope_t list) aps_env" where
  "demo_zenv = \<lparr>aps_now = 0, endpoint_send = Some (\<lambda>env _ sent. (0, sent @ [env])), dev_tick = None, endpoint_get_next = None,
     clust_fn = (\<lambda>_ _ _ d. Some (0, d)), ep_fn = (\<lambda>_ _ _ d. Some (0, d)), conv_fn = (\<lambda>_ _ _ d. (1, d))\<rparr>"

definition demo_cmd :: "u8 \<Rightarrow> bytes \<Rightarrow> zcl_command_t" where
  "demo_cmd c p = \<lparr>cmd_envelope = wpan_envelope_create [] 0, frame_control = 0, mfg_code = 0, sequence = 9, command = c,
     attributes = Some demo_table, zcl_payload = p @ [0], cmd_length = int (length p)\<rparr>"

lemma demo_sizeof: "zcl_sizeof_type 0x20 = 1" "\<not> ZCL_TYPE_IS_INVALID 0x20"
  by code_simp+

lemma demo_attr_table: "attr_table demo_table [demo_attr]"
  by (simp add: attr_table_def demo_table_def demo_attr_def layout_ok_def terminator_def)

lemma demo_live: "live_attrs demo_table = [demo_attr]"
  by (simp add: live_attrs_def demo_table_def demo_attr_def terminator_def)

lemma demo_safe: "safe_table demo_zdev demo_table"
proof -
  have "attr_need demo_attr = 1" by (simp add: attr_need_def demo_attr_def is_24bit_def demo_sizeof)
  moreover have "take 1 (drop 1 demo_table) = [terminator]" by (simp add: demo_table_def)
  ultimately show ?thesis using demo_attr_table
    by (auto simp: safe_table_def attr_room_def demo_zdev_def plain_attr_def plain_table_def demo_live) (simp_all add: demo_attr_def)
qed

theorem write_attributes_safe_witness:
  "\<exists>x d'. zcl_write_attributes demo_zenv default_fns (demo_cmd 0x02 [5, 0, 0x20, 9, 5]) demo_zdev = Some (x, d')"
  using write_attributes_safe[OF default.attr_functions_axioms demo_safe, of "demo_cmd 0x02 [5, 0, 0x20, 9, 5]" demo_zenv]
  by (auto simp: demo_cmd_def)

theorem write_attributes_apply_witness:
  "\<exists>d1. store_all [(demo_attr, [9])] demo_zdev = Some d1 \<and> objs (vars d1) 0 = [9] \<and>
    zcl_write_attributes demo_zenv default_fns (demo_cmd 0x05 [5, 0, 0x20, 9]) demo_zdev = Some (0, d1)"
proof -
  have v: "valid_write demo_attr [9]" by (simp add: valid_write_def demo_attr_def demo_sizeof plain_attr_def is_24bit_def)
  have r: "concat (map write_record [(demo_attr, [9])]) = [5, 0, 0x20, 9]" by (simp add: write_record_pair demo_attr_def)
  obtain d1 where d1: "store_all [(demo_attr, [9])] demo_zdev = Some d1" "objs (vars d1) 0 = [9]"
    by (simp add: demo_attr_def demo_zdev_def var_store_def buf_write_def)
  show ?thesis
    using write_attributes_apply[of "demo_cmd 0x05 [5, 0, 0x20, 9]" demo_table "[demo_attr]" "[(demo_attr, [9])]" "[0]" demo_zdev d1 demo_zenv default_fns]
      demo_attr_table v r d1 by (simp add: demo_cmd_def)
qed

theorem undivided_all_or_nothing_witness:
  "\<exists>x d'. zcl_write_attributes demo_zenv default_fns (demo_cmd 0x03 [5, 0, 0x20, 9, 6, 0, 0x20, 1]) demo_zdev = Some (x, d') \<and>
    objs (vars d') 0 = [7] \<and> map env_payload (link d') = [[0x18, 9, 0x04, 0x86, 6, 0]]"
proof -
  let ?c = "demo_cmd 0x03 [5, 0, 0x20, 9, 6, 0, 0x20, 1]"
  have recs: "map_option fst (write_pass default_fns ?c True demo_zdev) = Some [[0x86, 6, 0]]"
    "map_option fst (write_pass default_fns ?c False demo_zdev) = Some [[0x86, 6, 0]]" by code_simp+
  have pl: "plain_table (attributes ?c)" using demo_safe by (simp add: demo_cmd_def safe_table_def)
  obtain x d' where x: "zcl_write_attributes demo_zenv default_fns ?c demo_zdev = Some (x, d')"
    using write_attributes_safe[OF default.attr_functions_axioms demo_safe, of ?c demo_zenv] by (auto simp: demo_cmd_def)
  have "(x, d') = zcl_send_response demo_zenv ?c (zcl_build_header ?c 4 @ [0x86, 6, 0]) demo_zdev"
    using undivided_all_or_nothing[OF default.attr_functions_axioms pl _ x] recs by (auto simp: demo_cmd_def)
  then show ?thesis
    using x by (simp add: zcl_send_response_def wpan_envelope_send_def demo_zenv_def demo_zdev_def zcl_build_header_def demo_cmd_def)
qed

theorem write_status_overflow_witness:
  "zcl_write_attributes demo_zenv default_fns ((demo_cmd 0x02 (concat (replicate 26 [1, 0, 0])))\<lparr>attributes := None\<rparr>) demo_zdev = None"
  by (rule write_status_overflow[of _ 26 1 0 "[0]"]) (simp_all add: demo_cmd_def length_concat sum_list_replicate)

end
