(* ===== verification/Zcl_Read.thy ===== *)
theory Zcl_Read
  imports Zcl_Write
begin

text \<open>
  Reading attributes: what is encoded fits the buffer, the nesting of arrays and structures is bounded by it, a
  record of a response gives the value back to the client, and where the handler of the read command fails.
\<close>

section \<open>The size of an encoded value\<close>

text \<open>The pointer to an element of an array.\<close>

abbreviation elem_ptr :: "ptr option \<Rightarrow> nat \<Rightarrow> ptr option" where
  "elem_ptr v k \<equiv> map_option (\<lambda>(m, i). (m, i + k)) v"

lemma elem_ptr_first: "elem_ptr v (0 * k) = v"
  by (cases v) auto

lemma elem_ptr_next: "elem_ptr (elem_ptr v k) (i * k) = elem_ptr v (Suc i * k)"
  by (cases v) (auto simp: algebra_simps)

lemma array_loop_fits:
  assumes "array_loop f bufsize n esize v acc = Some (Inr bs)" "int (length acc) \<le> bufsize"
    "\<And>b x i. i < n \<Longrightarrow> f b (elem_ptr v (i * esize)) = Some (Inr x) \<Longrightarrow> int (length x) \<le> max 0 b"
  shows "int (length bs) \<le> bufsize"
  using assms
proof (induction n arbitrary: v acc)
  case (Suc n)
  obtain x where x: "f (bufsize - int (length acc)) v = Some (Inr x)"
    "array_loop f bufsize n esize (elem_ptr v esize) (acc @ x) = Some (Inr bs)"
    using Suc.prems(1) by (auto split: Option.bind_splits sum.splits if_splits)
  have "int (length x) \<le> max 0 (bufsize - int (length acc))"
    by (rule Suc.prems(3)[of 0, unfolded elem_ptr_first, OF _ x(1)]) simp
  then have "int (length (acc @ x)) \<le> bufsize" using Suc.prems(2) by (simp add: max_def split: if_splits)
  then show ?case using Suc.IH[OF x(2), unfolded elem_ptr_next] Suc.prems(3) Suc_less_eq by blast
qed simp

lemma struct_loop_fits:
  assumes "struct_loop f bufsize base es acc = Some (Inr bs)" "int (length acc) \<le> bufsize"
    "\<And>b t off x. (t, off) \<in> set es \<Longrightarrow> f b t (Some (fst base, snd base + unat off)) = Some (Inr x) \<Longrightarrow> int (length x) \<le> max 0 b"
  shows "int (length bs) \<le> bufsize"
  using assms
proof (induction es arbitrary: acc)
  case (Cons a es)
  obtain t off where a: "a = (t, off)" by (cases a)
  obtain x where x: "int (length acc) \<noteq> bufsize" "f (bufsize - int (length acc) - 1) t (Some (fst base, snd base + unat off)) = Some (Inr x)"
    "struct_loop f bufsize base es (acc @ t # x) = Some (Inr bs)"
    using Cons.prems(1) by (auto simp: a split: Option.bind_splits sum.splits if_splits)
  show ?case by (rule Cons.IH[OF x(3)]) (use Cons.prems(2,3) Cons.prems(3)[OF _ x(2)] x(1) a in auto)
qed simp

text \<open>Only an empty string is written where there is no space.\<close>

lemma encode_scalar_fits:
  assumes "encode_scalar d bufsize t raw p = Some (Inr bs)"
  shows "int (length bs) \<le> max 0 bufsize \<or> bufsize \<le> 0 \<and> t = 0x42 \<and> var_string d p = Some [] \<and> bs = [0]"
proof -
  have "length x = n" if "var_load d p n = Some x" for n x using that by (auto simp: var_load_def Let_def split: if_splits)
  then show ?thesis using assms sizeof_special
    by (auto simp: encode_scalar_def Let_def split: if_splits Option.bind_splits)
qed

definition empty_string :: "('u, 's) zdev \<Rightarrow> u8 \<Rightarrow> ptr option \<Rightarrow> bool" where
  "empty_string d t v \<longleftrightarrow> t = ZCL_TYPE_STRING_CHAR \<and> (case v of None \<Rightarrow> False | Some p \<Rightarrow> var_string d p = Some [])"

text \<open>No element of an array or a structure is an empty string.\<close>

definition no_empty_elements :: "('u, 's) zdev \<Rightarrow> bool" where
  "no_empty_elements d \<longleftrightarrow>
     (\<forall>p a i. arrays (vars d) p = Some a \<and> i < unat (current_count a) \<longrightarrow>
        \<not> empty_string d (array_type a) (elem_ptr (array_value a) (i * unat (element_size a)))) \<and>
     (\<forall>p s t off. structs (vars d) p = Some s \<and> (t, off) \<in> set (elements s) \<longrightarrow>
        \<not> empty_string d t (Some (fst (base_address s), snd (base_address s) + unat off)))"

lemma encode_value_fits:
  assumes "no_empty_elements d"
  shows "encode_value n d raw bufsize t v = Some (Inr bs) \<Longrightarrow>
    int (length bs) \<le> max 0 bufsize \<or> bufsize \<le> 0 \<and> empty_string d t v \<and> bs = [0]"
proof (induction n arbitrary: raw bufsize t v bs)
  case (Suc n)
  have IH: "int (length x) \<le> max 0 b" if "encode_value n d False b t' v' = Some (Inr x)" "\<not> empty_string d t' v'" for b t' v' x
    using Suc.IH[OF that(1)] that(2) by blast
  have arr: "int (length bs) \<le> max 0 bufsize"
    if "zcl_encode_array_value (encode_value n d False) bufsize a = Some (Inr bs)" "arrays (vars d) p = Some a" for a p
  proof -
    have "int (length x) \<le> max 0 b" if "i < unat (current_count a)"
      "encode_value n d False b (array_type a) (elem_ptr (array_value a) (i * unat (element_size a))) = Some (Inr x)" for b x i
      by (rule IH[OF that(2)]) (use assms that(1) \<open>arrays (vars d) p = Some a\<close> in \<open>unfold no_empty_elements_def, blast\<close>)
    then show ?thesis
      using that(1) array_loop_fits[where f = "\<lambda>n'. encode_value n d False n' (array_type a)" and bufsize = bufsize]
      by (fastforce simp: zcl_encode_array_value_def le16_put_def split: if_splits)
  qed
  have str: "int (length bs) \<le> max 0 bufsize"
    if "zcl_encode_struct_value (encode_value n d False) bufsize s = Some (Inr bs)" "structs (vars d) p = Some s" for s p
  proof -
    have "int (length x) \<le> max 0 b" if "(t', off) \<in> set (elements s)"
      "encode_value n d False b t' (Some (fst (base_address s), snd (base_address s) + unat off)) = Some (Inr x)" for b t' off x
      by (rule IH[OF that(2)]) (use assms that(1) \<open>structs (vars d) p = Some s\<close> in \<open>unfold no_empty_elements_def, blast\<close>)
    then show ?thesis
      using that(1) struct_loop_fits[where f = "encode_value n d False" and bufsize = bufsize]
      by (fastforce simp: zcl_encode_struct_value_def le16_put_def split: if_splits)
  qed
  show ?case
  proof (cases v)
    case None
    then show ?thesis using Suc.prems by (simp split: if_splits)
  next
    case (Some p)
    consider "bs = []" | a where "arrays (vars d) p = Some a" "zcl_encode_array_value (encode_value n d False) bufsize a = Some (Inr bs)"
      | s where "structs (vars d) p = Some s" "zcl_encode_struct_value (encode_value n d False) bufsize s = Some (Inr bs)"
      | "encode_scalar d bufsize t raw p = Some (Inr bs)"
      using Suc.prems Some by (fastforce simp del: encode_value.simps simp: encode_value.simps(2) split: if_splits Option.bind_splits)
    then show ?thesis
    proof cases
      case 4
      from encode_scalar_fits[OF this] show ?thesis by (auto simp: empty_string_def Some)
    qed (use arr str in auto)
  qed
qed simp

text \<open>An array of empty strings is written behind the space, one byte for each of them.\<close>

lemma array_loop_overrun:
  assumes "\<And>b i. i < n \<Longrightarrow> f b (elem_ptr v (i * esize)) = Some (Inr [0])"
  shows "array_loop f bufsize n esize v acc = Some (Inr (acc @ replicate n 0))"
  using assms
proof (induction n arbitrary: v acc)
  case (Suc n)
  have "f b v = Some (Inr [0])" for b using Suc.prems[of 0 b, unfolded elem_ptr_first] by simp
  moreover have "array_loop f bufsize n esize (elem_ptr v esize) (acc @ [0]) = Some (Inr ((acc @ [0]) @ replicate n 0))"
    by (rule Suc.IH, unfold elem_ptr_next, rule Suc.prems, simp)
  ultimately show ?case by simp
qed simp

lemma empty_strings_overrun:
  assumes "arrays (vars d) p = Some a" "array_type a = ZCL_TYPE_STRING_CHAR" "3 \<le> bufsize"
    "\<And>i. i < unat (current_count a) \<Longrightarrow> empty_string d (array_type a) (elem_ptr (array_value a) (i * unat (element_size a)))"
  shows "encode_value (Suc (Suc n)) d raw bufsize ZCL_TYPE_ARRAY (Some p) =
    Some (Inr (ZCL_TYPE_STRING_CHAR # le16_put (current_count a) @ replicate (unat (current_count a)) 0))"
proof -
  have "encode_value (Suc n) d False b 0x42 (elem_ptr (array_value a) (i * unat (element_size a))) = Some (Inr [0])"
    if "i < unat (current_count a)" for b i
    using assms(4)[OF that] sizeof_special by (auto simp: empty_string_def encode_scalar_def split: option.splits)
  then have "array_loop (\<lambda>b. encode_value (Suc n) d False b 0x42) bufsize (unat (current_count a)) (unat (element_size a)) (array_value a) acc =
      Some (Inr (acc @ replicate (unat (current_count a)) 0))" for acc
    by (intro array_loop_overrun)
  then show ?thesis using assms(1-3) sizeof_special unfolding encode_value.simps(2)[of "Suc n"]
    by (simp add: zcl_encode_array_value_def del: encode_value.simps)
qed

section \<open>The depth of nesting\<close>

lemma array_loop_cong:
  assumes "\<And>b v. b \<le> bufsize - k \<Longrightarrow> f b v = g b v" "k \<le> int (length acc)"
  shows "array_loop f bufsize n esize v acc = array_loop g bufsize n esize v acc"
  using assms(2)
proof (induction n arbitrary: v acc)
  case (Suc n)
  have "f (bufsize - int (length acc)) v = g (bufsize - int (length acc)) v" using Suc.prems by (intro assms(1)) simp
  then show ?case using Suc by (auto split: Option.bind_split sum.split)
qed simp

lemma struct_loop_cong:
  assumes "\<And>b t v. b \<le> bufsize - k \<Longrightarrow> f b t v = g b t v" "k \<le> int (length acc)"
  shows "struct_loop f bufsize base es acc = struct_loop g bufsize base es acc"
  using assms(2)
proof (induction es arbitrary: acc)
  case (Cons a es)
  obtain t off where a: "a = (t, off)" by (cases a)
  have "f (bufsize - int (length acc) - 1) t v = g (bufsize - int (length acc) - 1) t v" for v
    using Cons.prems by (intro assms(1)) simp
  then show ?case using Cons by (auto simp: a split: Option.bind_split sum.split)
qed simp

text \<open>Every level takes two bytes, so a bound above the size of the buffer is as good as any larger one.\<close>

lemma encode_value_bound:
  assumes "nat bufsize < n" "nat bufsize < m"
  shows "encode_value n d raw bufsize t v = encode_value m d raw bufsize t v"
  using assms
proof (induction n arbitrary: m raw bufsize t v)
  case (Suc n)
  then obtain m' where m: "m = Suc m'" by (cases m) auto
  have eq: "encode_value n d False b t' v' = encode_value m' d False b t' v'" if "b \<le> bufsize - 2" "2 \<le> bufsize" for b t' v'
    using that Suc.prems by (intro Suc.IH) (auto simp: m)
  have arr: "zcl_encode_array_value (encode_value n d False) bufsize a = zcl_encode_array_value (encode_value m' d False) bufsize a" for a
    unfolding zcl_encode_array_value_def using eq
    by (auto simp: le16_put_def intro!: array_loop_cong[where k = 2])
  have str: "zcl_encode_struct_value (encode_value n d False) bufsize a = zcl_encode_struct_value (encode_value m' d False) bufsize a" for a
    unfolding zcl_encode_struct_value_def using eq
    by (auto simp: le16_put_def intro!: struct_loop_cong[where k = 2])
  have "zcl_encode_array_value (encode_value n d False) bufsize = zcl_encode_array_value (encode_value m' d False) bufsize"
    "zcl_encode_struct_value (encode_value n d False) bufsize = zcl_encode_struct_value (encode_value m' d False) bufsize"
    using arr str by auto
  then show ?case by (cases v) (simp_all add: m cong: if_cong)
qed simp

text \<open>
  C36: an encoded attribute fits the buffer, but for an empty string that has no space. Where no element of an array or a
  structure is an empty string, \<open>zcl_encode_attribute_value\<close> writes no more bytes than the buffer has,
  unless the attribute is an empty string and the buffer has no byte: then one byte is written, its length. The
  nesting of arrays and structures is bounded by the buffer, even where an array contains itself: every bound
  above the size of the buffer gives the same result.
\<close>

theorem encode_attribute_fits:
  assumes "zcl_encode_attribute_value Z bufsize e d = Some (r, d')" "no_empty_elements d'"
  shows "(\<forall>bs. r = Inr bs \<longrightarrow> int (length bs) \<le> max 0 bufsize \<or>
       bufsize \<le> 0 \<and> empty_string d' (attr_type e) (attr_value e) \<and> bs = [0]) \<and>
    (\<forall>n > nat bufsize. (\<exists>bs. r = Inr bs) \<longrightarrow>
       encode_value n d' (attr_flags e AND 0x40 \<noteq> 0) bufsize (attr_type e) (attr_value e) = Some r)"
proof -
  have ok: "encode_value (Suc (nat bufsize)) d' (attr_flags e AND 0x40 \<noteq> 0) bufsize (attr_type e) (attr_value e) = Some r"
    if "r = Inr bs" for bs
    using assms(1) that by (auto simp: zcl_encode_attribute_value_def Let_def split: if_splits Option.bind_splits option.splits)
  show ?thesis
  proof (intro conjI allI impI)
    show "int (length bs) \<le> max 0 bufsize \<or> bufsize \<le> 0 \<and> empty_string d' (attr_type e) (attr_value e) \<and> bs = [0]"
      if "r = Inr bs" for bs
      by (rule encode_value_fits[OF assms(2) ok[OF that, unfolded that]])
    show "encode_value n d' (attr_flags e AND 0x40 \<noteq> 0) bufsize (attr_type e) (attr_value e) = Some r"
      if "nat bufsize < n" "\<exists>bs. r = Inr bs" for n
      using that(2) ok encode_value_bound[OF that(1), of "Suc (nat bufsize)" d' "attr_flags e AND 0x40 \<noteq> 0" "attr_type e" "attr_value e"]
      by (auto simp del: encode_value.simps)
  qed
qed

theorem encode_attribute_fits_witness:
  "zcl_encode_attribute_value default_fns 3 demo_attr demo_zdev = Some (Inr [7], demo_zdev) \<and>
   encode_value 9 demo_zdev False 3 0x20 (Some (0, 0)) = Some (Inr [7])"
proof -
  have v: "encode_value (Suc k) demo_zdev False 3 0x20 (Some (0, 0)) = Some (Inr [7])" for k
    by (simp add: demo_sizeof encode_scalar_def var_load_def demo_zdev_def)
  have e: "zcl_encode_attribute_value default_fns 3 demo_attr demo_zdev = Some (Inr [7], demo_zdev)"
    using v[of 3] by (simp add: zcl_encode_attribute_value_def demo_attr_def del: encode_value.simps)
  moreover have "no_empty_elements demo_zdev" by (simp add: no_empty_elements_def demo_zdev_def)
  ultimately show ?thesis using encode_attribute_fits[OF e] by (simp add: demo_attr_def del: encode_value.simps)
qed

section \<open>A record of a response\<close>

text \<open>
  The attribute of the client that takes the value: the same type, writable, without limits, and with room. The types are
  those that are copied, and strings.
\<close>

definition copied_type :: "u8 \<Rightarrow> bool" where
  "copied_type t \<longleftrightarrow> 0 < zcl_sizeof_type t \<and> \<not> is_24bit t \<and> t \<noteq> 0x10 \<or> t = 0x42"

definition client_attr :: "('u, 's) zdev \<Rightarrow> zcl_attribute_base_t \<Rightarrow> bool" where
  "client_attr d e \<longleftrightarrow> plain_attr e \<and> attr_room d e \<and> attr_flags e AND 0x8E = 0"

definition attr_image :: "('u, 's) zdev \<Rightarrow> zcl_attribute_base_t \<Rightarrow> bytes option" where
  "attr_image d e = do { p \<leftarrow> attr_value e;
     if attr_type e = 0x42 then var_string d p else var_load d p (nat (zcl_sizeof_type (attr_type e))) }"

lemma var_store_load:
  assumes "var_store d p bs = Some d'"
  shows "var_load d' p (length bs) = Some bs"
  using assms by (auto simp: var_store_def var_load_def Let_def buf_write_def split: if_splits)

lemma var_store_string:
  assumes "var_store d p (s @ [0]) = Some d'" "0 \<notin> set s"
  shows "var_string d' p = Some s"
  using assms by (auto simp: var_store_def var_string_def Let_def buf_write_def cstr_of_terminated split: if_splits)

lemma encode_copied:
  assumes "zcl_encode_attribute_value Z bufsize e d = Some (Inr bs, d1)" "copied_type (attr_type e)" "bufsize \<le> 256"
  shows "\<exists>v. attr_image d1 e = Some v \<and> bs = (if attr_type e = 0x42 then of_nat (length v) # v else v) \<and>
    (attr_type e = 0x42 \<longrightarrow> length v < 256 \<and> 0 \<notin> set v) \<and> (attr_type e \<noteq> 0x42 \<longrightarrow> length v = nat (zcl_sizeof_type (attr_type e)))"
proof -
  have len: "length x = n" if "var_load d1 p n = Some x" for p n x using that by (auto simp: var_load_def Let_def split: if_splits)
  have ns: "attr_type e \<notin> {0x48, 0x50, 0x51, 0x4C}" "zcl_sizeof_type (attr_type e) \<noteq> 0"
    using assms(2) sizeof_special by (auto simp: copied_type_def)
  obtain p where p: "attr_value e = Some p" "encode_scalar d1 bufsize (attr_type e) (attr_flags e AND 0x40 \<noteq> 0) p = Some (Inr bs)"
    using assms(1) ns
    by (auto simp: zcl_encode_attribute_value_def Let_def split: if_splits Option.bind_splits option.splits)
  show ?thesis
  proof (cases "attr_type e = 0x42")
    case True
    then obtain s where s: "var_string d1 p = Some s" "bs = of_nat (length s) # s" "int (length s) < max 1 bufsize"
      using p(2) sizeof_special by (auto simp: encode_scalar_def Let_def split: if_splits Option.bind_splits)
    moreover have "0 \<notin> set s" using s(1) by (auto simp: var_string_def Let_def cstr_of_def split: if_splits dest: set_takeWhileD)
    ultimately show ?thesis using True p(1) assms(3) by (auto simp: attr_image_def)
  next
    case False
    then have "0 < zcl_sizeof_type (attr_type e)" "attr_type e \<noteq> 0x10" using assms(2) by (auto simp: copied_type_def)
    then show ?thesis using False p len sizeof_invalid[of "attr_type e"]
      by (auto simp: encode_scalar_def Let_def attr_image_def split: if_splits)
  qed
qed

text \<open>The value of a response is accepted: the bytes are consumed and the attribute has the image.\<close>

lemma decode_copied:
  assumes "client_attr d e" "copied_type (attr_type e)" "attr_type e = 0x42 \<Longrightarrow> length v < 256 \<and> 0 \<notin> set v"
    "attr_type e \<noteq> 0x42 \<Longrightarrow> length v = nat (zcl_sizeof_type (attr_type e))"
    "bs = (if attr_type e = 0x42 then of_nat (length v) # v else v)" "int (length bs) \<le> l" "f AND 1 \<noteq> 0"
  shows "\<exists>d'. zcl_decode_attribute e \<lparr>wr_buffer = bs @ rest, wr_buflen = l, wr_flags = f, wr_status = 0\<rparr> d =
    Some (int (length bs), \<lparr>wr_buffer = bs @ rest, wr_buflen = l, wr_flags = f, wr_status = 0\<rparr>, d') \<and> attr_image d' e = Some v"
proof -
  obtain p where p: "attr_value e = Some p" "snd p + attr_need e \<le> length (objs (vars d) (fst p))"
    using assms(1) by (auto simp: client_attr_def attr_room_def)
  have full: "attr_flags e AND 0x80 = 0" using assms(1) by (auto simp: client_attr_def intro: and_sub_zero[of _ "0x8E"])
  have ne: "attr_type e \<noteq> 0" "attr_type e \<noteq> 0xFF" "\<not> is_24bit (attr_type e)" "attr_type e \<noteq> 0x10"
    using assms(2) sizeof_special by (auto simp: copied_type_def is_24bit_def)
  show ?thesis
  proof (cases "attr_type e = 0x42")
    case True
    have n: "unat (of_nat (length v) :: u8) = length v" using assms(3)[OF True] by (simp add: unat_of_nat)
    then have u: "uint (of_nat (length v) :: u8) = int (length v)" by (metis uint_nat)
    obtain d' where d': "var_store d p (v @ [0]) = Some d'"
      using var_store_fits[of p "v @ [0]" d] p(2) assms(3)[OF True] True ne by (auto simp: attr_need_def)
    have "decode_type e \<lparr>wr_buffer = bs @ rest, wr_buflen = l, wr_flags = f, wr_status = 0\<rparr> True 0 d = Some (int (length bs), 0, d')"
      using True ne assms(5,6) n u d' p full
      by (simp add: decode_type_def decode_string_def nth_opt_def Let_def split: option.splits)
    then show ?thesis using p(1) assms(7) var_store_string[OF d'] assms(3) True
      by (simp add: zcl_decode_attribute_def attr_image_def)
  next
    case False
    have sz: "0 < zcl_sizeof_type (attr_type e)" "\<not> ZCL_TYPE_IS_INVALID (attr_type e)"
      using assms(2) False sizeof_invalid[of "attr_type e"] by (auto simp: copied_type_def)
    obtain d' where d': "var_store d p v = Some d'"
      using var_store_fits[of p v d] p(2) assms(4)[OF False] False ne by (auto simp: attr_need_def)
    have "decode_type e \<lparr>wr_buffer = bs @ rest, wr_buflen = l, wr_flags = f, wr_status = 0\<rparr> True 0 d = Some (int (length bs), 0, d')"
      using False ne assms(4,5) d' p(1) sz by (simp add: decode_type_def decode_default_def Let_def)
    then show ?thesis using p(1) assms(4,7) var_store_load[OF d'] False
      by (simp add: zcl_decode_attribute_def attr_image_def)
  qed
qed

text \<open>
  C29: what a server encodes, a client reads. A server encodes an attribute whose value is copied or a string, for a
  response; the record of the response, parsed by a client that has the attribute in its table
  with the same type and with room, is consumed to its last byte without an error, and the variable of the client then has the
  value that the variable of the server has.
\<close>

theorem read_record_roundtrip:
  assumes "zcl_encode_attribute_value Z bufsize e d = Some (Inr bs, d1)" "copied_type (attr_type e)" "bufsize \<le> 256"
    "attr_table t es" "e' \<in> set es" "attr_id e' = attr_id e" "attr_type e' = attr_type e" "client_attr c e'"
    "r = \<lparr>wr_buffer = le16_put (attr_id e) @ [ZCL_STATUS_SUCCESS, attr_type e] @ bs @ rest, wr_buflen = 4 + int (length bs) + int k,
      wr_flags = ZCL_ATTR_WRITE_FLAG_READ_RESP OR ZCL_ATTR_WRITE_FLAG_ASSIGN, wr_status = 0\<rparr>"
  shows "\<exists>c'. zcl_parse_attribute_record Z' (Some t) r c =
      Some (4 + int (length bs), r\<lparr>wr_buffer := rest, wr_buflen := int k\<rparr>, c') \<and> attr_image c' e' = attr_image d1 e"
proof -
  obtain v where v: "attr_image d1 e = Some v" "bs = (if attr_type e = 0x42 then of_nat (length v) # v else v)"
    "attr_type e = 0x42 \<Longrightarrow> length v < 256 \<and> 0 \<notin> set v" "attr_type e \<noteq> 0x42 \<Longrightarrow> length v = nat (zcl_sizeof_type (attr_type e))"
    using encode_copied[OF assms(1-3)] by blast
  have f: "zcl_find_attribute (Some t) (attr_id e) = Some (Some e')" using find_attribute_member[OF assms(4,5)] assms(6) by simp
  have fl: "attr_flags e' AND 2 = 0" "attr_flags e' AND 12 = 0" "attr_flags e' AND 0x80 = 0"
    using assms(8) by (auto simp: client_attr_def intro: and_sub_zero[of _ "0x8E"])
  have sz: "zcl_sizeof_type (attr_type e) \<le> int (length bs) + int k"
    using v(2,4) sizeof_special by (cases "attr_type e = 0x42") auto
  let ?r = "\<lparr>wr_buffer = bs @ rest, wr_buflen = int (length bs) + int k, wr_flags = 3, wr_status = 0\<rparr>"
  have st: "record_status (Some e') (attr_type e) ?r = Some 0"
    using sz fl by (simp add: record_status_def assms(7) zcl_check_minmax_def)
  obtain c' where c': "zcl_decode_attribute e' ?r c = Some (int (length bs), ?r, c')" "attr_image c' e' = Some v"
    using decode_copied[of c e' v bs "int (length bs) + int k" 3 rest] v(2-4) assms(2,7,8) by auto
  have rv: "record_value Z' e' ?r c = zcl_decode_attribute e' ?r c" using fl(3) by (simp add: record_value_def)
  show ?thesis
    using f st c' rv v(1) unfolding assms(9)
    by (simp add: zcl_parse_attribute_record_def nth_opt_def le16_put_def le16_def be16_roundtrip)
qed

theorem read_record_roundtrip_witness:
  "\<exists>c'. zcl_parse_attribute_record default_fns (Some demo_table) \<lparr>wr_buffer = [5, 0, 0, 0x20, 7, 1], wr_buflen = 6, wr_flags = 3, wr_status = 0\<rparr>
      demo_zdev = Some (5, \<lparr>wr_buffer = [1], wr_buflen = 1, wr_flags = 3, wr_status = 0\<rparr>, c') \<and> attr_image c' demo_attr = Some [7]"
proof -
  have v: "encode_value (Suc k) demo_zdev False 3 0x20 (Some (0, 0)) = Some (Inr [7])" for k
    by (simp add: demo_sizeof encode_scalar_def var_load_def demo_zdev_def)
  have e: "zcl_encode_attribute_value default_fns 3 demo_attr demo_zdev = Some (Inr [7], demo_zdev)"
    using v[of 3] by (simp add: zcl_encode_attribute_value_def demo_attr_def del: encode_value.simps)
  have a: "demo_attr \<in> set [demo_attr]" "copied_type (attr_type demo_attr)" "client_attr demo_zdev demo_attr"
    using demo_safe demo_live
    by (auto simp: copied_type_def client_attr_def safe_table_def plain_table_def) (simp_all add: demo_attr_def is_24bit_def demo_sizeof)
  have r: "\<lparr>wr_buffer = [5, 0, 0, 0x20, 7, 1], wr_buflen = 6, wr_flags = 3, wr_status = 0\<rparr> =
    \<lparr>wr_buffer = le16_put (attr_id demo_attr) @ [0, attr_type demo_attr] @ [7] @ [1], wr_buflen = 4 + int (length [7 :: u8]) + int 1,
      wr_flags = 2 OR 1, wr_status = 0\<rparr>" by (simp add: demo_attr_def le16_put_def)
  have im: "attr_image demo_zdev demo_attr = Some [7]"
    by (simp add: attr_image_def demo_attr_def demo_zdev_def var_load_def demo_sizeof)
  from read_record_roundtrip[OF e a(2) _ demo_attr_table a(1) refl refl a(3) r, of default_fns] im show ?thesis by simp
qed

section \<open>Limits\<close>

lemma int_or_neg:
  fixes x :: int
  shows "- (2 ^ n) \<le> x OR - (2 ^ n)" "x OR - (2 ^ n) < 0"
proof -
  have "NOT (x OR - (2 ^ n)) = NOT x AND (2 ^ n - 1)"
    unfolding bit.de_Morgan_disj by (simp add: not_int_def)
  moreover have "0 \<le> NOT x AND (2 ^ n - 1)" "NOT x AND (2 ^ n - 1) \<le> 2 ^ n - 1"
    by (simp_all add: AND_upper2)
  moreover have "NOT (x OR - (2 ^ n)) = - (x OR - (2 ^ n)) - 1" by (simp add: not_int_def)
  ultimately show "- (2 ^ n) \<le> x OR - (2 ^ n)" "x OR - (2 ^ n) < 0" by linarith+
qed

lemma sint_or_high:
  assumes "n < 4"
  shows "sint (w OR push_bit n 0xFFFFFFFF :: u32) = sint w OR - (2 ^ n)"
proof -
  consider "n = 0" | "n = 1" | "n = 2" | "n = 3" using assms by linarith
  then show ?thesis by cases (simp_all add: signed_or_eq push_bit_eq_mult)
qed

text \<open>The numbers that little-endian bytes stand for, without and with a sign.\<close>

fun le_value :: "bytes \<Rightarrow> int" where
  "le_value [] = 0"
| "le_value (b # bs) = uint b + 256 * le_value bs"

definition le_signed :: "bytes \<Rightarrow> int" where
  "le_signed bs = (if 2 * le_value bs < 256 ^ length bs then le_value bs else le_value bs - 256 ^ length bs)"

lemma le_value_range: "0 \<le> le_value bs \<and> le_value bs < 256 ^ length bs"
proof (induction bs)
  case (Cons b bs)
  have "uint b < 256" by (rule uint_bounded[of b, simplified])
  with Cons show ?case by auto
qed simp

lemma le_word_value:
  assumes "length bs \<le> 4"
  shows "uint (le_word bs) = le_value bs"
  using assms
proof (induction bs)
  case (Cons b bs)
  have u: "uint b < 256" by (rule uint_bounded[of b, simplified])
  have "push_bit 8 (le_word bs) AND ucast b = (0 :: u32)"
    by (rule bit_word_eqI) (auto simp: bit_simps dest: bit_imp_le_length)
  then have w: "le_word (b # bs) = push_bit 8 (le_word bs) + ucast b"
    using word_plus_and_or[of "push_bit 8 (le_word bs)" "ucast b"] by (simp add: le_word_def)
  have "(256 :: int) ^ length bs \<le> 256 ^ 3" using Cons.prems by (intro power_increasing) auto
  then have v: "le_value bs < 2 ^ 24" using le_value_range[of bs] by simp
  have "uint (ucast b :: u32) = uint b" using u by (simp add: unsigned_ucast_eq take_bit_int_eq_self)
  moreover have "uint (push_bit 8 (le_word bs)) = 256 * le_value bs"
    using Cons v le_value_range[of bs] by (simp only: unsigned_push_bit_eq) (simp add: take_bit_int_eq_self push_bit_eq_mult)
  ultimately show ?case
    unfolding w using u v le_value_range[of bs] by (simp add: uint_plus_if_size word_size)
qed (simp add: le_word_def)

lemma le_value_top:
  assumes "bs \<noteq> []" "2 * le_value bs < 256 ^ length bs"
  shows "uint (last bs) < 128"
  using assms
proof (induction bs)
  case (Cons b bs)
  show ?case
  proof (cases "bs = []")
    case False
    then have "2 * le_value bs < 256 ^ length bs" using Cons.prems(2) by (simp add: algebra_simps) (use uint_ge_0[of b] in linarith)
    then show ?thesis using Cons.IH False by simp
  qed (use Cons.prems in simp)
qed simp

lemma small_top_bit:
  assumes "uint (b :: u8) < 128"
  shows "b AND 0x80 = 0"
proof -
  have "bit b 7 = bit (uint b) 7" by (simp add: bit_uint_iff)
  then have "\<not> bit b 7" using assms by (simp only: bit_iff_odd) simp
  then show ?thesis using and_exp_eq_0_iff_not_bit[of b 7] by simp
qed

lemma sint_le_word:
  assumes "length bs = 4"
  shows "sint (le_word bs) = le_signed bs"
proof -
  have "sint (le_word bs) = signed_take_bit 31 (le_value bs)" using le_word_value[of bs] assms by (simp add: sint_uint)
  moreover have "(le_value bs + 2147483648) mod 4294967296 = le_value bs - 2147483648" if "2147483648 \<le> le_value bs"
    using mod_add_self2[of "le_value bs - 2147483648" 4294967296] that le_value_range[of bs] assms by (simp add: add.commute)
  ultimately show ?thesis using le_value_range[of bs] assms
    by (auto simp: le_signed_def signed_take_bit_eq_take_bit_shift take_bit_eq_mod)
qed

text \<open>
  C37: the limits of an attribute. The value of an integer type of one to four bytes is compared with the limits the attribute has, as a
  signed or unsigned number as the type says, and refused exactly if it is outside; this holds for
  every value but the negative ones of signed types of one to three bytes.
\<close>

theorem check_minmax_exact:
  assumes "zcl_sizeof_type (attr_type e) = int n" "0 < n" "n \<le> 4" "type_info (attr_type e) AND ZCL_T_FLOAT = 0"
    "attr_full e = Some full" "n \<le> length b" "sg \<longleftrightarrow> type_info (attr_type e) AND ZCL_T_SIGNED \<noteq> 0"
    "v = (if sg then le_signed (take n b) else le_value (take n b))" "sg \<and> n < 4 \<longrightarrow> 0 \<le> v"
    "lo = (if sg then sint (full_min full) else uint (full_min full))"
    "hi = (if sg then sint (full_max full) else uint (full_max full))"
  shows "zcl_check_minmax e b = Some
    (if attr_flags e AND ZCL_ATTRIB_FLAG_HAS_MIN \<noteq> 0 \<and> v < lo then 1
     else if attr_flags e AND ZCL_ATTRIB_FLAG_HAS_MAX \<noteq> 0 \<and> hi < v then 2 else 0)"
proof -
  have len: "length (take n b) = n" using assms(6) by simp
  have none: "attr_flags e AND 12 = 0 \<Longrightarrow> attr_flags e AND 4 = 0 \<and> attr_flags e AND 8 = 0"
    using and_sub_zero[of "attr_flags e" 12 4] and_sub_zero[of "attr_flags e" 12 8] by auto
  have u: "uint (le_word (take n b)) = le_value (take n b)" using le_word_value[of "take n b"] assms(3) by simp
  show ?thesis
  proof (cases sg)
    case False
    then show ?thesis using assms none u by (auto simp: zcl_check_minmax_def Let_def word_less_def)
  next
    case True
    have "sint (le_word (take n b)) = v \<and> (n < 4 \<longrightarrow> b ! (n - 1) AND 0x80 = 0)"
    proof (cases "n < 4")
      case short: True
      then have small: "2 * le_value (take n b) < 256 ^ n" "v = le_value (take n b)"
        using assms(8,9) True le_value_range[of "take n b"] len by (auto simp: le_signed_def split: if_splits)
      have "last (take n b) = b ! (n - 1)" using assms(2,6) len by (subst last_conv_nth) auto
      then have "b ! (n - 1) AND 0x80 = 0" using le_value_top[of "take n b"] small(1) len assms(2) small_top_bit by fastforce
      moreover have "le_value (take n b) < 256 ^ 3"
        using le_value_range[of "take n b"] len short power_increasing[of n 3 "256 :: int"] by auto
      then have "sint (le_word (take n b)) = le_value (take n b)"
        using u le_value_range[of "take n b"] by (simp add: sint_uint signed_take_bit_int_eq_self)
      ultimately show ?thesis using small(2) by simp
    next
      case False
      then show ?thesis using assms(3,8) True sint_le_word[of "take n b"] len by auto
    qed
    then show ?thesis using True assms none by (auto simp: zcl_check_minmax_def Let_def)
  qed
qed

text \<open>A signed 8-bit attribute with the limits -100 and 100 refuses 101.\<close>

theorem check_minmax_exact_witness:
  "zcl_check_minmax \<lparr>attr_id = 1, attr_flags = 0x8C, attr_type = 0x28, attr_value = None,
     attr_full = Some \<lparr>full_min = - 100, full_max = 100, full_read = None, full_write = None\<rparr>\<rparr> [101] = Some 2"
proof -
  let ?f = "\<lparr>full_min = - 100, full_max = 100, full_read = None, full_write = None\<rparr> :: zcl_attribute_full_t"
  let ?e = "\<lparr>attr_id = 1, attr_flags = 0x8C, attr_type = 0x28, attr_value = None, attr_full = Some ?f\<rparr> :: zcl_attribute_base_t"
  have t: "zcl_sizeof_type 0x28 = int 1" "type_info 0x28 AND 0x40 \<noteq> 0" "type_info 0x28 AND 0x10 = 0" by code_simp+
  have b: "le_signed (take 1 [101]) = 101" "sint (- 100 :: u32) = - 100" "sint (100 :: u32) = 100" by (simp_all add: le_signed_def)
  have "zcl_check_minmax ?e [101] = Some (if attr_flags ?e AND 4 \<noteq> 0 \<and> (101 :: int) < - 100 then 1
      else if attr_flags ?e AND 8 \<noteq> 0 \<and> (100 :: int) < 101 then 2 else 0)"
    by (rule check_minmax_exact[where n = 1 and full = ?f and sg = True]) (simp_all only: zcl_attribute_base_t.simps zcl_attribute_full_t.simps t b, simp_all)
  then show ?thesis by simp
qed

text \<open>
  Negative values of shorter types: the sign is extended by bytes where it should be by bits. Every negative
  value of \<open>n\<close> bytes is taken for one of the numbers from \<open>-2\<^sup>n\<close> to \<open>-1\<close>: with a
  minimum of at most \<open>-2\<^sup>n\<close> all of them are accepted, whatever the minimum, and with a positive minimum
  all are refused.
\<close>

theorem check_minmax_negative:
  assumes "zcl_sizeof_type (attr_type e) = int n" "0 < n" "n < 4" "type_info (attr_type e) AND ZCL_T_SIGNED \<noteq> 0"
    "type_info (attr_type e) AND ZCL_T_FLOAT = 0" "attr_full e = Some full" "n \<le> length b" "b ! (n - 1) AND 0x80 \<noteq> 0"
    "attr_flags e AND ZCL_ATTRIB_FLAG_HAS_MIN \<noteq> 0" "attr_flags e AND ZCL_ATTRIB_FLAG_HAS_MAX = 0"
  shows "(sint (full_min full) \<le> - (2 ^ n) \<longrightarrow> zcl_check_minmax e b = Some 0) \<and>
    (0 \<le> sint (full_min full) \<longrightarrow> zcl_check_minmax e b = Some 1)"
proof -
  let ?v = "le_word (take n b) OR push_bit n 0xFFFFFFFF"
  have "- (2 ^ n) \<le> sint ?v" "sint ?v < 0"
    unfolding sint_or_high[OF assms(3)] by (rule int_or_neg)+
  moreover have "attr_flags e AND (0x04 OR 0x08) \<noteq> 0"
    using assms(9) and_sub_zero[of "attr_flags e" "0x04 OR 0x08" "0x04"] by auto
  then have "zcl_check_minmax e b = Some (if sint (full_min full) > sint ?v then 1 else 0)"
    using assms by (simp add: zcl_check_minmax_def Let_def)
  ultimately show ?thesis by auto
qed

text \<open>A signed 8-bit attribute with the minimum -100 accepts -128.\<close>

theorem check_minmax_negative_witness:
  "zcl_check_minmax \<lparr>attr_id = 1, attr_flags = 0x84, attr_type = 0x28, attr_value = None,
     attr_full = Some \<lparr>full_min = - 100, full_max = 0, full_read = None, full_write = None\<rparr>\<rparr> [0x80] = Some 0"
proof -
  let ?e = "\<lparr>attr_id = 1, attr_flags = 0x84, attr_type = 0x28, attr_value = None,
     attr_full = Some \<lparr>full_min = - 100, full_max = 0, full_read = None, full_write = None\<rparr>\<rparr> :: zcl_attribute_base_t"
  have t: "zcl_sizeof_type 0x28 = int 1" "type_info 0x28 AND 0x40 \<noteq> 0" "type_info 0x28 AND 0x10 = 0" by code_simp+
  show ?thesis using check_minmax_negative[of ?e 1 _ "[0x80]"] t by simp
qed

section \<open>The answer to a read request\<close>

text \<open>
  The specification of one record of the answer: the identifier, and the status, with type and value if the attribute can be read.
\<close>

definition answer_record :: "('u, 's) zcl_fns \<Rightarrow> zcl_attribute_base_t list \<Rightarrow> u16 \<Rightarrow> ('u, 's) zdev \<Rightarrow> (bytes \<times> ('u, 's) zdev) option" where
  "answer_record Z es k d =
     (case find (\<lambda>e. attr_id e = k) es of
        None \<Rightarrow> Some (le16_put k @ [0x86], d)
      | Some e \<Rightarrow>
          if attr_flags e AND 1 \<noteq> 0 then Some (le16_put k @ [0x8F], d)
          else case zcl_encode_attribute_value Z 76 e d of
            Some (Inr bs, d') \<Rightarrow> Some (le16_put k @ [0, attr_type e] @ bs, d')
          | _ \<Rightarrow> None)"

fun answer :: "('u, 's) zcl_fns \<Rightarrow> zcl_attribute_base_t list \<Rightarrow> u16 list \<Rightarrow> ('u, 's) zdev \<Rightarrow> (bytes \<times> ('u, 's) zdev) option" where
  "answer Z es [] d = Some ([], d)"
| "answer Z es (k # ks) d = do { (r, d) \<leftarrow> answer_record Z es k d; (rs, d) \<leftarrow> answer Z es ks d; Some (r @ rs, d) }"

lemma encode_scalar_shrink:
  assumes "encode_scalar d b t raw p = Some (Inr bs)" "int (length bs) \<le> b'" "b' \<le> b"
  shows "encode_scalar d b' t raw p = Some (Inr bs)"
proof -
  have "length x = n" if "var_load d p n = Some x" for n x using that by (auto simp: var_load_def Let_def split: if_splits)
  then show ?thesis using assms sizeof_special
    by (fastforce simp: encode_scalar_def Let_def split: if_splits Option.bind_splits)
qed

lemma encode_shrink:
  assumes "zcl_encode_attribute_value Z b e d = Some (Inr bs, d')" "attr_type e \<notin> {0x48, 0x4C, 0x50, 0x51}"
    "int (length bs) \<le> b'" "b' \<le> b"
  shows "zcl_encode_attribute_value Z b' e d = Some (Inr bs, d')"
  using assms encode_scalar_shrink[of d' b "attr_type e" "attr_flags e AND 0x40 \<noteq> 0" _ bs b']
  by (auto simp: zcl_encode_attribute_value_def Let_def split: if_splits Option.bind_splits option.splits)

lemma read_loop_answer:
  assumes "attr_table t es" "\<forall>e \<in> set es. attr_type e \<notin> {0x48, 0x4C, 0x50, 0x51}" "0xFFFF \<notin> set ks"
    "answer Z es ks d = Some (resp, d')" "length acc + length resp \<le> 80"
  shows "read_loop Z (Some t) (length ks) (concat (map le16_put ks) @ rest) acc d = Some (acc @ resp, d')"
  using assms(3-)
proof (induction ks arbitrary: acc d resp)
  case (Cons k ks)
  obtain r d1 rs where a: "answer_record Z es k d = Some (r, d1)" "answer Z es ks d1 = Some (rs, d')" "resp = r @ rs"
    using Cons.prems(2) by (auto split: Option.bind_splits)
  have IH: "read_loop Z (Some t) (length ks) (concat (map le16_put ks) @ rest) (acc @ r) d1 = Some (acc @ resp, d')"
    using Cons.IH[of d1 rs "acc @ r"] Cons.prems(1,3) a(2,3) by simp
  have ids: "nth_opt (x # xs) 0 = Some x" "nth_opt (x # y # xs) (Suc 0) = Some y" for x y :: u8 and xs
    by (simp_all add: nth_opt_def)
  have k: "le16 (ucast k) (ucast (drop_bit 8 k)) = k" "le16_put k = [ucast k, ucast (drop_bit 8 k)]"
    by (simp_all add: le16_def be16_roundtrip le16_put_def)
  have f: "zcl_find_attribute (Some t) k = Some (find (\<lambda>e. attr_id e = k) es)"
    using find_attribute_table[OF assms(1)] Cons.prems(1) by simp
  have l3: "3 \<le> length r" using a(1) by (auto simp: answer_record_def le16_put_def split: option.splits if_splits sum.splits)
  then have room: "\<not> 80 - int (length acc) < 3" using Cons.prems(3) a(3) by simp
  note step = read_loop.simps(2) ids k f Let_def
  show ?case
  proof (cases "find (\<lambda>e. attr_id e = k) es")
    case None
    then show ?thesis using IH a(1) room by (simp add: step answer_record_def)
  next
    case (Some e)
    have e: "attr_type e \<notin> {0x48, 0x4C, 0x50, 0x51}" using Some assms(2) by (auto simp: find_Some_iff)
    show ?thesis
    proof (cases "attr_flags e AND 1 \<noteq> 0")
      case True
      then show ?thesis using IH a(1) room Some by (simp add: step answer_record_def)
    next
      case False
      then obtain bs where bs: "zcl_encode_attribute_value Z 76 e d = Some (Inr bs, d1)" "r = le16_put k @ [0, attr_type e] @ bs"
        using a(1) Some by (auto simp: answer_record_def split: option.splits sum.splits)
      have b: "length acc + 4 + length bs \<le> 80" using Cons.prems(3) a(3) bs(2) by (simp add: k)
      have "zcl_encode_attribute_value Z (80 - int (length (acc @ [ucast k, ucast (drop_bit 8 k)])) - 2) e d = Some (Inr bs, d1)"
        by (rule encode_shrink[OF bs(1) e]) (use b in auto)
      then show ?thesis using False IH b bs(2) room Some by (simp add: step)
    qed
  qed
qed simp

text \<open>With more space the same bytes are written.\<close>

lemma encode_scalar_grow:
  assumes "encode_scalar d b t raw p = Some (Inr bs)" "b \<le> b'"
  shows "encode_scalar d b' t raw p = Some (Inr bs)"
  using assms by (fastforce simp: encode_scalar_def Let_def split: if_splits Option.bind_splits)

lemma encode_grow:
  assumes "zcl_encode_attribute_value Z b e d = Some (Inr bs, d')" "attr_type e \<notin> {0x48, 0x4C, 0x50, 0x51}" "b \<le> b'"
  shows "zcl_encode_attribute_value Z b' e d = Some (Inr bs, d')"
  using assms encode_scalar_grow[of d' b "attr_type e" "attr_flags e AND 0x40 \<noteq> 0" _ bs b']
  by (auto simp: zcl_encode_attribute_value_def Let_def split: if_splits Option.bind_splits option.splits)

text \<open>
  The end of an answer that has records for the first identifiers only, \<open>resp\<close>: the rest of the answer and of the identifiers.
  There were no more identifiers; or there are fewer than three bytes left; or the next attribute
  cannot be encoded in the space that is left, and the last record is its identifier with the reason.
\<close>

definition answer_end ::
  "('u, 's) zcl_fns \<Rightarrow> zcl_attribute_base_t list \<Rightarrow> bytes \<Rightarrow> u16 list \<Rightarrow> ('u, 's) zdev \<Rightarrow> bytes \<Rightarrow> ('u, 's) zdev \<Rightarrow> bool" where
  "answer_end Z es resp ks d tail d' \<longleftrightarrow> (case ks of
     [] \<Rightarrow> tail = [] \<and> d' = d
   | k # _ \<Rightarrow>
       77 < length resp \<and> tail = [] \<and> d' = d \<or>
       (case find (\<lambda>e. attr_id e = k) es of
          None \<Rightarrow> False
        | Some e \<Rightarrow> attr_flags e AND ZCL_ATTRIB_FLAG_WRITEONLY = 0 \<and>
            (case zcl_encode_attribute_value Z (76 - int (length resp)) e d of
               Some (Inl status, d1) \<Rightarrow> tail = le16_put k @ [of_int (- status)] \<and> d' = d1
             | _ \<Rightarrow> False)))"

lemma read_loop_end:
  assumes "attr_table t es" "\<forall>e \<in> set es. attr_type e \<notin> {0x48, 0x4C, 0x50, 0x51}" "0xFFFF \<notin> set ks" "length acc \<le> 80"
    "read_loop Z (Some t) (length ks) (concat (map le16_put ks) @ rest) acc d = Some (resp, d')"
  shows "\<exists>n r d1 tail. n \<le> length ks \<and> answer Z es (take n ks) d = Some (r, d1) \<and> resp = acc @ r @ tail \<and> length resp \<le> 80 \<and>
    answer_end Z es (acc @ r) (drop n ks) d1 tail d'"
  using assms(3-)
proof (induction ks arbitrary: acc d)
  case Nil
  then show ?case by (auto simp: answer_end_def)
next
  case (Cons k ks)
  have ids: "nth_opt (x # xs) 0 = Some x" "nth_opt (x # y # xs) (Suc 0) = Some y" for x y :: u8 and xs
    by (simp_all add: nth_opt_def)
  have k: "le16 (ucast k) (ucast (drop_bit 8 k)) = k" "le16_put k = [ucast k, ucast (drop_bit 8 k)]"
    by (simp_all add: le16_def be16_roundtrip le16_put_def)
  have f: "zcl_find_attribute (Some t) k = Some (find (\<lambda>e. attr_id e = k) es)"
    using find_attribute_table[OF assms(1)] Cons.prems(1) by simp
  note step = read_loop.simps(2) ids k f Let_def
  have more: ?case if rec: "answer_record Z es k d = Some (rk, dk)" and len: "length (acc @ rk) \<le> 80"
    and loop: "read_loop Z (Some t) (length ks) (concat (map le16_put ks) @ rest) (acc @ rk) dk = Some (resp, d')" for rk dk
  proof -
    obtain n r d1 tail where IH: "n \<le> length ks" "answer Z es (take n ks) dk = Some (r, d1)" "resp = (acc @ rk) @ r @ tail"
      "length resp \<le> 80" "answer_end Z es ((acc @ rk) @ r) (drop n ks) d1 tail d'"
      using Cons.IH[OF _ len loop] Cons.prems(1) by auto
    have "answer Z es (take (Suc n) (k # ks)) d = Some (rk @ r, d1)" using rec IH(2) by simp
    then show ?case using IH by (intro exI[of _ "Suc n"] exI[of _ "rk @ r"] exI[of _ d1] exI[of _ tail]) simp
  qed
  have stop: ?case if "resp = acc @ tail" "length resp \<le> 80" "answer_end Z es acc (k # ks) d tail d'" for tail
    using that by (intro exI[of _ 0] exI[of _ "[]"] exI[of _ d] exI[of _ tail]) simp
  show ?case
  proof (cases "80 - int (length acc) < 3")
    case True
    then show ?thesis using Cons.prems(2,3) by (intro stop[of "[]"]) (auto simp: step answer_end_def)
  next
    case False
    note L = Cons.prems(3)
    show ?thesis
    proof (cases "find (\<lambda>e. attr_id e = k) es")
      case None
      then show ?thesis using L False by (intro more[of "le16_put k @ [0x86]" d]) (simp_all add: step answer_record_def)
    next
      case (Some e)
      have e: "attr_type e \<notin> {0x48, 0x4C, 0x50, 0x51}" using Some assms(2) by (auto simp: find_Some_iff)
      show ?thesis
      proof (cases "attr_flags e AND 1 \<noteq> 0")
        case True
        then show ?thesis using L False Some by (intro more[of "le16_put k @ [0x8F]" d]) (simp_all add: step answer_record_def)
      next
        case readable: False
        have room: "80 - int (length (acc @ [ucast k, ucast (drop_bit 8 k) :: u8])) - 2 = 76 - int (length acc)" by simp
        obtain x dx where x: "zcl_encode_attribute_value Z (76 - int (length acc)) e d = Some (x, dx)"
          using L False Some readable room by (auto simp: step split: Option.bind_splits)
        show ?thesis
        proof (cases x)
          case (Inl st)
          then show ?thesis using L False Some readable x room
            by (intro stop[of "le16_put k @ [of_int (- st)]"]) (auto simp: step answer_end_def)
        next
          case (Inr bs)
          have "answer_record Z es k d = Some (le16_put k @ [0, attr_type e] @ bs, dx)"
            using encode_grow[OF x[unfolded Inr] e, of 76] Some readable by (simp add: answer_record_def)
          then show ?thesis using L False Some readable x room Inr
            by (intro more[of "le16_put k @ [0, attr_type e] @ bs" dx]) (auto simp: step split: if_splits)
        qed
      qed
    qed
  qed
qed

text \<open>
  C17: a read request is answered record by record. The request is a list of identifiers, none of them 0xFFFF, for a table without arrays
  and structures. If the handler comes to its end without leaving its memory, it has sent the header and records in the order of the identifiers,
  at most 80 bytes. For each of the first \<open>n\<close> identifiers there is a record: not found, write-only, or the type and the value.
  Either these are all; or less than three bytes are left and the other identifiers are dropped; or the next
  attribute could not be encoded in the space that is left, its record with the reason is the last one, and the others are dropped. If
  all attributes can be encoded and the records have at most 80 bytes, the handler comes to its end and all are answered.
\<close>

theorem read_attributes_answer:
  assumes "attributes cmd = Some t" "attr_table t es" "\<forall>e \<in> set es. attr_type e \<notin> {0x48, 0x4C, 0x50, 0x51}" "0xFFFF \<notin> set ks"
    "zcl_payload cmd = concat (map le16_put ks) @ rest" "cmd_length cmd = 2 * int (length ks)"
  shows "(\<forall>x. zcl_read_attributes E Z cmd d = Some x \<longrightarrow>
      (\<exists>n r d1 tail d2. n \<le> length ks \<and> answer Z es (take n ks) d = Some (r, d1) \<and> length (r @ tail) \<le> 80 \<and>
         answer_end Z es r (drop n ks) d1 tail d2 \<and>
         x = zcl_send_response E cmd (zcl_build_header cmd ZCL_CMD_READ_ATTRIB_RESP @ r @ tail) d2)) \<and>
    (\<forall>resp d'. answer Z es ks d = Some (resp, d') \<and> length resp \<le> 80 \<longrightarrow>
       zcl_read_attributes E Z cmd d = Some (zcl_send_response E cmd (zcl_build_header cmd ZCL_CMD_READ_ATTRIB_RESP @ resp) d'))"
proof (intro conjI allI impI)
  fix x
  assume "zcl_read_attributes E Z cmd d = Some x"
  then obtain resp d2 where loop: "read_loop Z (Some t) (length ks) (concat (map le16_put ks) @ rest) [] d = Some (resp, d2)"
    and x: "x = zcl_send_response E cmd (zcl_build_header cmd ZCL_CMD_READ_ATTRIB_RESP @ resp) d2"
    using assms(1,5,6) by (auto simp: zcl_read_attributes_def nat_mult_distrib split: Option.bind_splits)
  obtain n r d1 tail where "n \<le> length ks" "answer Z es (take n ks) d = Some (r, d1)" "resp = r @ tail" "length resp \<le> 80"
    "answer_end Z es r (drop n ks) d1 tail d2"
    using read_loop_end[OF assms(2-4) _ loop] by auto
  with x show "\<exists>n r d1 tail d2. n \<le> length ks \<and> answer Z es (take n ks) d = Some (r, d1) \<and> length (r @ tail) \<le> 80 \<and>
      answer_end Z es r (drop n ks) d1 tail d2 \<and> x = zcl_send_response E cmd (zcl_build_header cmd ZCL_CMD_READ_ATTRIB_RESP @ r @ tail) d2"
    by blast
next
  fix resp d'
  assume "answer Z es ks d = Some (resp, d') \<and> length resp \<le> 80"
  then show "zcl_read_attributes E Z cmd d = Some (zcl_send_response E cmd (zcl_build_header cmd ZCL_CMD_READ_ATTRIB_RESP @ resp) d')"
    using read_loop_answer[OF assms(2-4), of Z d resp d' "[]" rest] assms(1,5,6) by (simp add: zcl_read_attributes_def nat_mult_distrib)
qed

theorem read_attributes_answer_witness:
  "zcl_read_attributes demo_zenv default_fns (demo_cmd 0x00 [5, 0, 6, 0]) demo_zdev =
    Some (zcl_send_response demo_zenv (demo_cmd 0x00 [5, 0, 6, 0]) [0x18, 9, 0x01, 5, 0, 0, 0x20, 7, 6, 0, 0x86] demo_zdev)"
proof -
  have v: "encode_value (Suc k) demo_zdev False 76 0x20 (Some (0, 0)) = Some (Inr [7])" for k
    by (simp add: demo_sizeof encode_scalar_def var_load_def demo_zdev_def)
  have e: "zcl_encode_attribute_value default_fns 76 demo_attr demo_zdev = Some (Inr [7], demo_zdev)"
    using v[of 76] by (simp add: zcl_encode_attribute_value_def demo_attr_def del: encode_value.simps)
  have a: "attr_id demo_attr = 5" "attr_type demo_attr = 0x20" "attr_flags demo_attr = 0" by (simp_all add: demo_attr_def)
  have "answer default_fns [demo_attr] [5, 6] demo_zdev = Some ([5, 0, 0, 0x20, 7, 6, 0, 0x86], demo_zdev)"
    using e a by (simp add: answer_record_def le16_put_def)
  with read_attributes_answer[of "demo_cmd 0x00 [5, 0, 6, 0]" demo_table "[demo_attr]" "[5, 6]" "[0]" demo_zenv default_fns demo_zdev, OF _ demo_attr_table]
  show ?thesis by (simp add: demo_cmd_def demo_attr_def le16_put_def zcl_build_header_def)
qed

text \<open>With 76 bytes in the response an attribute that is an empty string is written one byte behind its end.\<close>

lemma read_empty_string_overflow:
  assumes "attr_table t es" "e \<in> set es" "attr_type e = 0x42" "attr_flags e AND 0x81 = 0" "attr_value e = Some p"
    "var_string d p = Some []" "length acc = 76"
  shows "read_loop Z (Some t) (Suc n) (le16_put (attr_id e) @ rest) acc d = None"
proof -
  have fl: "attr_flags e AND 1 = 0" "attr_flags e AND 0x80 = 0"
    using assms(4) by (auto intro: and_sub_zero[of _ "0x81"])
  have "zcl_encode_attribute_value Z 0 e d = Some (Inr [0], d)"
    using assms(3,5,6) fl sizeof_special by (simp add: zcl_encode_attribute_value_def encode_scalar_def)
  then show ?thesis using assms(7) fl find_attribute_member[OF assms(1,2)]
    by (simp add: le16_put_def nth_opt_def le16_def be16_roundtrip)
qed

end
