(* ===== verification/Zcl_Cmd.thy ===== *)
theory Zcl_Cmd
  imports Zcl_Read
begin

text \<open>
  Requests and replies: what the header of a reply says, and that a general command leads to at most one reply, addressed to the
  sender.
\<close>

section \<open>The header of a reply\<close>

text \<open>
  A reply to a request: the endpoints are swapped, and the header has the number of the request, the other direction, no
  default response, and the code of the manufacturer if the request has one.
\<close>

definition reply_to :: "zcl_command_t \<Rightarrow> wpan_envelope_t \<Rightarrow> bool" where
  "reply_to cmd env \<longleftrightarrow> (let p = env_payload env; mfg = frame_control cmd AND ZCL_FRAME_MFG_SPECIFIC \<noteq> 0 in
     env\<lparr>env_payload := [], env_length := 0\<rparr> = wpan_envelope_reply (cmd_envelope cmd) \<and> env_length env = of_nat (length p) \<and>
     (if mfg then 5 else 3) \<le> length p \<and>
     (p ! 0 AND ZCL_FRAME_DIRECTION = 0) = (frame_control cmd AND ZCL_FRAME_DIRECTION \<noteq> 0) \<and>
     p ! 0 AND ZCL_FRAME_DISABLE_DEF_RESP \<noteq> 0 \<and> (p ! 0 AND ZCL_FRAME_MFG_SPECIFIC \<noteq> 0) = mfg \<and>
     p ! (if mfg then 3 else 1) = sequence cmd \<and> (mfg \<longrightarrow> le16 (p ! 1) (p ! 2) = mfg_code cmd))"

lemma and_bit:
  "(x AND 4 = 0) = (\<not> bit x 2)" "(x AND 8 = 0) = (\<not> bit x 3)" "(x AND 16 = 0) = (\<not> bit x 4)" for x :: u8
  using and_exp_eq_0_iff_not_bit[of x 2] and_exp_eq_0_iff_not_bit[of x 3] and_exp_eq_0_iff_not_bit[of x 4] by simp_all

lemma header_bits:
  fixes f :: u8
  defines "c \<equiv> 0x18 XOR (f AND 0x0B)"
  shows "bit c 2 = False" "bit c 3 = (\<not> bit f 3)" "bit c 4" "bit (c OR 4) 2" "bit (c OR 4) 3 = (\<not> bit f 3)" "bit (c OR 4) 4"
    "bit (c AND NOT 3) 2 = False" "bit (c AND NOT 3) 3 = (\<not> bit f 3)" "bit (c AND NOT 3) 4"
    "bit ((c OR 4) AND NOT 3) 2" "bit ((c OR 4) AND NOT 3) 3 = (\<not> bit f 3)" "bit ((c OR 4) AND NOT 3) 4"
  unfolding c_def by (simp_all add: bit_simps bit_numeral_rec)

lemma header_reply:
  assumes "h = zcl_build_header cmd c \<or> h = (zcl_build_header cmd c)[0 := zcl_build_header cmd c ! 0 AND NOT 3]"
  shows "reply_to cmd ((wpan_envelope_reply (cmd_envelope cmd))\<lparr>env_payload := h @ body, env_length := of_nat (length (h @ body))\<rparr>)"
  using assms header_bits[of "frame_control cmd"]
  by (elim disjE; simp add: reply_to_def zcl_build_header_def Let_def and_bit le16_put_def le16_def be16_roundtrip wpan_envelope_reply_def)

section \<open>At most one reply\<close>

text \<open>The result of a handler when nothing was sent, or one reply as its last action.\<close>

definition one_reply :: "('u zcl_vars, 's) aps_env \<Rightarrow> zcl_command_t \<Rightarrow> 's \<Rightarrow> int \<times> ('u, 's) zdev \<Rightarrow> bool" where
  "one_reply E cmd l x \<longleftrightarrow> link (snd x) = l \<or>
     (\<exists>env d1. reply_to cmd env \<and> length (env_payload env) \<le> 85 \<and> link d1 = l \<and> x = wpan_envelope_send E env d1)"

lemma header_length: "length (zcl_build_header cmd c) \<le> 5"
  by (simp add: zcl_build_header_def Let_def le16_put_def)

lemma send_response_one:
  assumes "link d = l" "h = zcl_build_header cmd c \<or> h = (zcl_build_header cmd c)[0 := zcl_build_header cmd c ! 0 AND NOT 3]"
    "length body \<le> 80"
  shows "one_reply E cmd l (zcl_send_response E cmd (h @ body) d)"
proof -
  have "length h \<le> 5" using assms(2) header_length[of cmd c] by auto
  then have "length (env_payload ((wpan_envelope_reply (cmd_envelope cmd))\<lparr>env_payload := h @ body, env_length := of_nat (length (h @ body))\<rparr>)) \<le> 85"
    using assms(3) by simp
  then show ?thesis using header_reply[OF assms(2), of body] assms(1) unfolding one_reply_def zcl_send_response_def by blast
qed

lemma default_response_one:
  assumes "link d = l"
  shows "one_reply E cmd l (zcl_default_response E cmd st d)"
  using send_response_one[OF assms, of _ cmd "ZCL_CMD_DEFAULT_RESP" "[command cmd, st]" E] assms
  by (auto simp: zcl_default_response_def Let_def) (simp_all add: one_reply_def)

lemma invalid_command_one:
  assumes "zcl_invalid_command E env d = Some x" "zcl_command_build env tree = Some (Inr cmd)" "link d = l"
  shows "one_reply E cmd l x"
proof -
  have b: "zcl_command_build env None = Some (Inr (cmd\<lparr>attributes := None\<rparr>))"
    using assms(2) by (auto simp: zcl_command_build_def Let_def split: Option.bind_splits if_splits)
  have same: "reply_to (cmd\<lparr>attributes := None\<rparr>) = reply_to cmd" by (simp add: fun_eq_iff reply_to_def)
  show ?thesis using assms(1) default_response_one[OF assms(3), of E "cmd\<lparr>attributes := None\<rparr>"]
    by (auto simp: zcl_invalid_command_def b one_reply_def same Let_def)
qed

context attr_functions
begin

lemma encode_link:
  assumes "zcl_encode_attribute_value Z b e d = Some (r, d')"
  shows "link d' = link d"
proof -
  show ?thesis using assms
    by (auto simp: zcl_encode_attribute_value_def Let_def split: if_splits Option.bind_splits option.splits dest: read_fn)
qed

lemma read_loop_link: "read_loop Z table n ids acc d = Some (resp, d') \<Longrightarrow> length acc \<le> 80 \<Longrightarrow> link d' = link d \<and> length resp \<le> 80"
proof (induction n arbitrary: ids acc d)
  case (Suc n)
  show ?case using Suc.prems
    by (auto simp: Let_def split: if_splits Option.bind_splits option.splits sum.splits dest!: Suc.IH encode_link)
qed simp

lemma write_pass_link: "write_pass Z cmd assign d = Some (recs, d') \<Longrightarrow> link d' = link d"
  unfolding write_pass_def using write_loop_laws by blast

lemma write_loop_length:
  assumes "write_loop n Z table assign r recs d = Some (recs', d')" "length recs \<le> 25" "\<forall>x \<in> set recs. length x = 3"
  shows "length (concat recs') \<le> 75"
  using assms
proof (induction n arbitrary: r recs d)
  case (Suc n)
  show ?case
  proof (cases "wr_buflen r \<le> 0")
    case True
    have "length (concat recs) = 3 * length recs" using Suc.prems(3) by (induction recs) auto
    then show ?thesis using True Suc.prems by auto
  next
    case False
    then obtain r1 d1 x where "write_loop n Z table assign r1 (if wr_status r1 \<noteq> 0 then recs @ [x] else recs) d1 = Some (recs', d')"
      "length x = 3" "length recs < 25"
      using Suc.prems(1) by (auto split: Option.bind_splits if_splits)
    then show ?thesis using Suc.IH[of r1 "if wr_status r1 \<noteq> 0 then recs @ [x] else recs" d1] Suc.prems(3) by auto
  qed
qed simp

lemma write_pass_length: "write_pass Z cmd assign d = Some (recs, d') \<Longrightarrow> length (concat recs) \<le> 75"
  unfolding write_pass_def using write_loop_length by fastforce

lemma write_attributes_one:
  assumes "zcl_write_attributes E Z cmd d = Some x"
  shows "one_reply E cmd (link d) x"
proof -
  define w where "w = (if command cmd = 3 then do {
      (recs, d) \<leftarrow> write_pass Z cmd False d;
      if recs = [] then write_pass Z cmd True d else Some (recs, d) } else write_pass Z cmd True d)"
  have x: "do { (recs, d) \<leftarrow> w;
      if command cmd = 5 then Some (0, d)
      else Some (zcl_send_response E cmd (zcl_build_header cmd 4 @ (if recs = [] then [0] else concat recs)) d) } = Some x"
    using assms by (simp add: zcl_write_attributes_def w_def)
  then obtain recs d1 where w: "w = Some (recs, d1)" by (cases w) auto
  then have l: "link d1 = link d" by (auto simp: w_def split: if_splits Option.bind_splits dest!: write_pass_link)
  have b: "length (concat recs) \<le> 75" using w by (auto simp: w_def split: if_splits Option.bind_splits dest!: write_pass_length)
  show ?thesis
    using x send_response_one[OF l, of "zcl_build_header cmd 4" cmd 4 "if recs = [] then [0] else concat recs" E] l b
    by (auto simp: w one_reply_def split: if_splits)
qed

lemma read_attributes_one:
  assumes "zcl_read_attributes E Z cmd d = Some x"
  shows "one_reply E cmd (link d) x"
proof (cases "cmd_length cmd mod 2 = 1")
  case True
  then show ?thesis using assms default_response_one[of d "link d" E cmd] by (auto simp: zcl_read_attributes_def)
next
  case False
  then obtain resp d1 where r: "read_loop Z (attributes cmd) (nat (cmd_length cmd) div 2) (zcl_payload cmd) [] d = Some (resp, d1)"
    "x = zcl_send_response E cmd (zcl_build_header cmd 1 @ resp) d1"
    using assms by (auto simp: zcl_read_attributes_def split: Option.bind_splits)
  show ?thesis using read_loop_link[OF r(1)] r(2) send_response_one[of d1 "link d" "zcl_build_header cmd 1" cmd 1 resp E] by simp
qed

end

lemma discover_loop_length:
  "discover_loop es n acc = Some (c, bs) \<Longrightarrow> length bs \<le> length acc + 3 * n"
  by (induction es n acc rule: discover_loop.induct) (fastforce simp: le16_put_def split: if_splits Option.bind_splits)+

lemma discover_attributes_one:
  assumes "zcl_discover_attributes E cmd d = Some x"
  shows "one_reply E cmd (link d) x"
proof -
  obtain c bs where x: "x = zcl_send_response E cmd (zcl_build_header cmd 0x0D @ c # bs) d" "length bs \<le> 60"
    using assms
    by (fastforce simp: zcl_discover_attributes_def split: if_splits Option.bind_splits option.splits dest!: discover_loop_length)
  then show ?thesis using send_response_one[of d "link d" "zcl_build_header cmd 0x0D" cmd "0x0D" "c # bs" E] by simp
qed

lemma general_command_one:
  assumes "attr_functions Z" "zcl_command_build env tree = Some (Inr cmd)" "command cmd \<notin> {0x0B, 0x01, 0x04, 0x0D, 0x10}"
    "zcl_general_command E Z env tree d = Some x"
  shows "one_reply E cmd (link d) x"
  using assms(3,4)
  by (auto simp: zcl_general_command_def assms(2) split: if_splits
      intro: attr_functions.write_attributes_one[OF assms(1)] attr_functions.read_attributes_one[OF assms(1)]
        discover_attributes_one invalid_command_one[OF _ assms(2) refl])

text \<open>
  C18: a general command is answered at most once, and to its sender. Whatever the request, if it is not a response, the
  handler sends nothing or one envelope, as its last action; that envelope goes to the address, the endpoint
  and the cluster that the request came from, and its header has the number of the request and the
  opposite direction. It has at most 85 bytes.
\<close>

theorem general_command_one_reply:
  assumes "attr_functions Z" "zcl_command_build env tree = Some (Inr cmd)"
    "command cmd \<notin> {ZCL_CMD_DEFAULT_RESP, ZCL_CMD_READ_ATTRIB_RESP, ZCL_CMD_WRITE_ATTRIB_RESP,
       ZCL_CMD_DISCOVER_ATTRIB_RESP, ZCL_CMD_WRITE_STRUCT_ATTRIB_RESP}"
    "zcl_general_command E Z env tree d = Some x"
  shows "link (snd x) = link d \<or>
    (\<exists>renv d1. reply_to cmd renv \<and> length (env_payload renv) \<le> 85 \<and> link d1 = link d \<and> x = wpan_envelope_send E renv d1)"
  using general_command_one[OF assms] by (simp add: one_reply_def)

text \<open>
  Errors are not answered with errors. A default response that belongs to no conversation, and any command that is not
  understood and came by broadcast, leave the state as it was: two devices cannot keep answering each other.
\<close>

theorem default_response_not_answered:
  assumes "zcl_command_build env tree = Some (Inr cmd)"
    "frame_control cmd AND ZCL_FRAME_TYPE_MASK = ZCL_FRAME_TYPE_PROFILE \<and> command cmd = ZCL_CMD_DEFAULT_RESP \<or>
     env_options env AND (WPAN_ENVELOPE_BROADCAST_ADDR OR WPAN_ENVELOPE_BROADCAST_EP) \<noteq> 0"
  shows "zcl_invalid_command E env d = Some (0, d) \<and> zcl_invalid_cluster E env d = Some (0, d) \<and>
    (\<forall>r. command cmd = ZCL_CMD_DEFAULT_RESP \<and> r < 0 \<and> wpan_conversation_response E None (sequence cmd) env d = Some (r, d) \<longrightarrow>
       zcl_general_command E Z env tree d = Some (0, d))"
proof -
  have b: "zcl_command_build env None = Some (Inr (cmd\<lparr>attributes := None\<rparr>))" and env: "cmd_envelope cmd = env"
    using assms(1) by (auto simp: zcl_command_build_def Let_def split: Option.bind_splits if_splits)
  have i: "zcl_invalid_command E env d = Some (0, d)" "zcl_invalid_cluster E env d = Some (0, d)"
    using assms(2) by (auto simp: zcl_invalid_command_def zcl_invalid_cluster_def b zcl_default_response_def env Let_def)
  then show ?thesis by (auto simp: zcl_general_command_def assms(1))
qed

text \<open>A read request for the attribute 5, from endpoint 2 to endpoint 1 of the device with one attribute.\<close>

definition demo_request :: "u16 \<Rightarrow> bytes \<Rightarrow> wpan_envelope_t" where
  "demo_request options p = (wpan_envelope_create [1, 2, 3, 4, 5, 6, 7, 8] 0x1234)\<lparr>source_endpoint := 2, dest_endpoint := 1,
     env_options := options, env_payload := p, env_length := of_nat (length p)\<rparr>"

definition demo_tree :: "zcl_attribute_tree_t list" where
  "demo_tree = [\<lparr>manufacturer_id = 0, server = Some demo_table, client = None\<rparr>]"

theorem general_command_one_reply_witness:
  "\<exists>cmd x d'. zcl_command_build (demo_request 0 [0, 9, 0, 5, 0]) (Some demo_tree) = Some (Inr cmd) \<and>
     zcl_general_command demo_zenv default_fns (demo_request 0 [0, 9, 0, 5, 0]) (Some demo_tree) demo_zdev = Some (x, d') \<and>
     (link d' = [] \<or> (\<exists>renv d1. reply_to cmd renv \<and> link d1 = [] \<and> (x, d') = wpan_envelope_send demo_zenv renv d1))"
proof -
  let ?e = "demo_request 0 [0, 9, 0, 5, 0]"
  obtain cmd where c: "zcl_command_build ?e (Some demo_tree) = Some (Inr cmd)" "command cmd = 0"
    by (simp add: zcl_command_build_def demo_request_def demo_tree_def nth_opt_def)
  have "map_option fst (zcl_general_command demo_zenv default_fns ?e (Some demo_tree) demo_zdev) = Some 0" by code_simp
  then obtain x d' where x: "zcl_general_command demo_zenv default_fns ?e (Some demo_tree) demo_zdev = Some (x, d')" by auto
  have "link demo_zdev = []" by (simp add: demo_zdev_def)
  then show ?thesis
    using general_command_one_reply[OF default.attr_functions_axioms c(1) _ x] c x by auto
qed

theorem default_response_not_answered_witness:
  "zcl_invalid_command demo_zenv (demo_request 0x0100 [1, 9, 0x42]) demo_zdev = Some (0, demo_zdev)"
proof -
  obtain cmd where c: "zcl_command_build (demo_request 0x0100 [1, 9, 0x42]) None = Some (Inr cmd)"
    by (simp add: zcl_command_build_def demo_request_def nth_opt_def)
  show ?thesis using default_response_not_answered[OF c, of demo_zenv demo_zdev default_fns] by (simp add: demo_request_def)
qed

end
