(* ===== verification/Zcl_Clusters.thy ===== *)
theory Zcl_Clusters
  imports Zcl_Cmd
begin

text \<open>
  The clusters of \<open>src/Software/lib/XBee/src/zigbee\<close> that come with the library: Identify (\<open>zcl_identify.c\<close>), Time
  (\<open>zcl_time.c\<close>), On/Off (\<open>zcl_onoff.c\<close>) and Basic (\<open>zcl_basic.c\<close>), for a POSIX host. The global variables that
  attributes point to are the objects 0 (\<open>zcl_identify_time\<close>), 1 (\<open>zcl_time_time\<close>) and 2 (\<open>zcl_time_timestatus\<close>); the
  other two are a record. \<open>now\<close> is \<open>xbee_seconds_timer()\<close> during a call.
\<close>

section \<open>Variables\<close>

abbreviation (input) ZCL_TYPE_UNSIGNED_16BIT :: u8 where "ZCL_TYPE_UNSIGNED_16BIT \<equiv> 0x21"
abbreviation (input) ZCL_TYPE_BITMAP_8BIT :: u8 where "ZCL_TYPE_BITMAP_8BIT \<equiv> 0x18"
abbreviation (input) ZCL_TYPE_TIME_UTCTIME :: u8 where "ZCL_TYPE_TIME_UTCTIME \<equiv> 0xE2"
abbreviation (input) ZCL_UTCTIME_INVALID :: u32 where "ZCL_UTCTIME_INVALID \<equiv> 0xFFFFFFFF"
abbreviation (input) ZCL_TIME_EPOCH_DELTA :: u32 where "ZCL_TIME_EPOCH_DELTA \<equiv> (30 * 365 + 7) * 24 * 60 * 60"
abbreviation (input) ZCL_TIME_STATUS_MASTER :: u8 where "ZCL_TIME_STATUS_MASTER \<equiv> 0x01"
abbreviation (input) ZCL_TIME_STATUS_SYNCHRONIZED :: u8 where "ZCL_TIME_STATUS_SYNCHRONIZED \<equiv> 0x02"
abbreviation (input) ZCL_IDENTIFY_CMD_IDENTIFY :: u8 where "ZCL_IDENTIFY_CMD_IDENTIFY \<equiv> 0x00"
abbreviation (input) ZCL_IDENTIFY_CMD_QUERY :: u8 where "ZCL_IDENTIFY_CMD_QUERY \<equiv> 0x01"
abbreviation (input) ZCL_IDENTIFY_CMD_QUERY_RESPONSE :: u8 where "ZCL_IDENTIFY_CMD_QUERY_RESPONSE \<equiv> 0x00"
abbreviation (input) ZCL_BASIC_CMD_FACTORY_DEFAULTS :: u8 where "ZCL_BASIC_CMD_FACTORY_DEFAULTS \<equiv> 0x00"
abbreviation (input) ZCL_STATUS_UNSUP_CLUSTER_COMMAND :: u8 where "ZCL_STATUS_UNSUP_CLUSTER_COMMAND \<equiv> 0x81"
abbreviation (input) ZCL_TIME_ATTR_TIME :: u16 where "ZCL_TIME_ATTR_TIME \<equiv> 0"
abbreviation (input) ZCL_TIME_ATTR_TIME_STATUS :: u16 where "ZCL_TIME_ATTR_TIME_STATUS \<equiv> 1"

record clusters_t =
  zcl_identify_end :: u32
  zcl_time_skew :: u32

type_synonym 's cdev = "(clusters_t, 's) zdev"

abbreviation (input) "identify_time_ptr \<equiv> (0, 0) :: ptr"
abbreviation (input) "time_time_ptr \<equiv> (1, 0) :: ptr"
abbreviation (input) "time_status_ptr \<equiv> (2, 0) :: ptr"

definition load16 :: "('u, 's) zdev \<Rightarrow> ptr \<Rightarrow> u16 option" where
  "load16 d p = map_option (\<lambda>b. le16 (b ! 0) (b ! 1)) (var_load d p 2)"

definition le32_put :: "u32 \<Rightarrow> bytes" where
  "le32_put w = [ucast w, ucast (drop_bit 8 w), ucast (drop_bit 16 w), ucast (drop_bit 24 w)]"

definition load32 :: "('u, 's) zdev \<Rightarrow> ptr \<Rightarrow> u32 option" where
  "load32 d p = map_option le_word (var_load d p 4)"

definition load8 :: "('u, 's) zdev \<Rightarrow> ptr \<Rightarrow> u8 option" where
  "load8 d p = map_option (\<lambda>b. b ! 0) (var_load d p 1)"

definition set_identify_end :: "u32 \<Rightarrow> 's cdev \<Rightarrow> 's cdev" where
  "set_identify_end t d = d\<lparr>vars := (vars d)\<lparr>zuser := (zuser (vars d))\<lparr>zcl_identify_end := t\<rparr>\<rparr>\<rparr>"

definition set_time_skew :: "u32 \<Rightarrow> 's cdev \<Rightarrow> 's cdev" where
  "set_time_skew t d = d\<lparr>vars := (vars d)\<lparr>zuser := (zuser (vars d))\<lparr>zcl_time_skew := t\<rparr>\<rparr>\<rparr>"

text \<open>A general, client-to-server command of the cluster, and so on.\<close>

definition ZCL_CMD_MATCH :: "u8 \<Rightarrow> u8 \<Rightarrow> u8 \<Rightarrow> u8 \<Rightarrow> bool" where
  "ZCL_CMD_MATCH fc mfg dir type \<longleftrightarrow>
     fc AND (ZCL_FRAME_MFG_SPECIFIC OR ZCL_FRAME_DIRECTION OR ZCL_FRAME_TYPE_MASK) = mfg OR dir OR type"

section \<open>Identify\<close>

definition zcl_identify_isactive :: "u32 \<Rightarrow> 's cdev \<Rightarrow> (u16 \<times> 's cdev) option" where
  "zcl_identify_isactive now d = do {
     t \<leftarrow> load16 d identify_time_ptr;
     if t \<noteq> 0 then do {
       let delta = sint (zcl_identify_end (zuser (vars d)) - now);
       let t = (if delta \<le> 0 then 0 else of_int delta);
       d \<leftarrow> var_store d identify_time_ptr (le16_put t);
       Some (t, d) }
     else Some (t, d) }"

text \<open>The call without a record sets the end from the time that was stored.\<close>

definition identify_time_start :: "u32 \<Rightarrow> 's cdev \<Rightarrow> 's cdev option" where
  "identify_time_start now d = do {
     t \<leftarrow> load16 d identify_time_ptr;
     Some (set_identify_end (now + ucast t) d) }"

definition zcl_identify_time_set ::
  "u32 \<Rightarrow> zcl_attribute_base_t \<Rightarrow> zcl_attribute_write_rec_t \<Rightarrow> 's cdev \<Rightarrow> (int \<times> zcl_attribute_write_rec_t \<times> 's cdev) option" where
  "zcl_identify_time_set now attribute rec d = do {
     (bytes_read, rec, d) \<leftarrow> zcl_decode_attribute attribute rec d;
     if wr_flags rec AND ZCL_ATTR_WRITE_FLAG_ASSIGN = 0 then Some (bytes_read, rec, d)
     else do {
       d \<leftarrow> identify_time_start now d;
       Some (bytes_read, rec, d) } }"

definition zcl_identify_time_get :: "u32 \<Rightarrow> 's cdev \<Rightarrow> (u8 \<times> 's cdev) option" where
  "zcl_identify_time_get now d = do {
     (_, d) \<leftarrow> zcl_identify_isactive now d;
     Some (ZCL_STATUS_SUCCESS, d) }"

section \<open>Time\<close>

definition time_skew_update :: "u32 \<Rightarrow> 's cdev \<Rightarrow> 's cdev option" where
  "time_skew_update now d = do {
     t \<leftarrow> load32 d time_time_ptr;
     Some (set_time_skew (t - (now - ZCL_TIME_EPOCH_DELTA)) d) }"

definition zcl_time_time_set ::
  "u32 \<Rightarrow> zcl_attribute_base_t \<Rightarrow> zcl_attribute_write_rec_t \<Rightarrow> 's cdev \<Rightarrow> (int \<times> zcl_attribute_write_rec_t \<times> 's cdev) option" where
  "zcl_time_time_set now attribute rec d = do {
     status \<leftarrow> load8 d time_status_ptr;
     if status AND ZCL_TIME_STATUS_MASTER \<noteq> 0
     then Some (4, rec\<lparr>wr_status := ZCL_STATUS_READ_ONLY, wr_buffer := drop 4 (wr_buffer rec)\<rparr>, d)
     else do {
       (bytes_read, rec, d) \<leftarrow> zcl_decode_attribute attribute rec d;
       if wr_flags rec AND ZCL_ATTR_WRITE_FLAG_ASSIGN = 0 then Some (bytes_read, rec, d)
       else do {
         d \<leftarrow> time_skew_update now d;
         Some (bytes_read, rec, d) } } }"

definition zcl_time_time_get :: "u32 \<Rightarrow> 's cdev \<Rightarrow> (u8 \<times> 's cdev) option" where
  "zcl_time_time_get now d = do {
     let skew = zcl_time_skew (zuser (vars d));
     d \<leftarrow> var_store d time_time_ptr (le32_put
       (if skew = 0 \<and> now < ZCL_TIME_EPOCH_DELTA then ZCL_UTCTIME_INVALID else skew + (now - ZCL_TIME_EPOCH_DELTA)));
     Some (ZCL_STATUS_SUCCESS, d) }"

definition zcl_time_timestatus_set ::
  "zcl_attribute_write_rec_t \<Rightarrow> 's cdev \<Rightarrow> (int \<times> zcl_attribute_write_rec_t \<times> 's cdev) option" where
  "zcl_time_timestatus_set rec d =
     (if wr_flags rec AND ZCL_ATTR_WRITE_FLAG_ASSIGN \<noteq> 0 then do {
        time_status \<leftarrow> nth_opt (wr_buffer rec) 0;
        old \<leftarrow> load8 d time_status_ptr;
        if old AND ZCL_TIME_STATUS_MASTER = 0 then do {
          d \<leftarrow> var_store d time_status_ptr
            [if time_status AND ZCL_TIME_STATUS_SYNCHRONIZED \<noteq> 0 then old OR ZCL_TIME_STATUS_SYNCHRONIZED
             else old AND NOT ZCL_TIME_STATUS_SYNCHRONIZED];
          Some (1, rec, d) }
        else Some (1, rec, d) }
      else Some (1, rec, d))"

definition zcl_time_now :: "u32 \<Rightarrow> 's cdev \<Rightarrow> (u32 \<times> 's cdev) option" where
  "zcl_time_now now d = do {
     status \<leftarrow> load8 d time_status_ptr;
     if status AND (ZCL_TIME_STATUS_MASTER OR ZCL_TIME_STATUS_SYNCHRONIZED) \<noteq> 0 then do {
       (_, d) \<leftarrow> zcl_time_time_get now d;
       t \<leftarrow> load32 d time_time_ptr;
       Some (t, d) }
     else Some (ZCL_UTCTIME_INVALID, d) }"

section \<open>The functions of the attributes and their tables\<close>

definition identify_fns :: "u32 \<Rightarrow> (clusters_t, 's) zcl_fns" where
  "identify_fns now = \<lparr>attr_read = (\<lambda>_ _ d. zcl_identify_time_get now d), attr_write = (\<lambda>_ e r d. zcl_identify_time_set now e r d)\<rparr>"

text \<open>Numbers of the functions: 0 for the time, 1 for its status.\<close>

definition time_fns :: "u32 \<Rightarrow> (clusters_t, 's) zcl_fns" where
  "time_fns now = \<lparr>attr_read = (\<lambda>_ _ d. zcl_time_time_get now d),
     attr_write = (\<lambda>k e r d. if k = 0 then zcl_time_time_set now e r d else zcl_time_timestatus_set r d)\<rparr>"

definition full_attr :: "u16 \<Rightarrow> u8 \<Rightarrow> ptr \<Rightarrow> nat option \<Rightarrow> nat option \<Rightarrow> zcl_attribute_base_t" where
  "full_attr k t p rd wr = \<lparr>attr_id = k, attr_flags = ZCL_ATTRIB_FLAG_FULL, attr_type = t, attr_value = Some p,
     attr_full = Some \<lparr>full_min = 0, full_max = 0, full_read = rd, full_write = wr\<rparr>\<rparr>"

definition end_of_list :: zcl_attribute_base_t where
  "end_of_list = \<lparr>attr_id = ZCL_ATTRIBUTE_END_OF_LIST, attr_flags = 0, attr_type = 0, attr_value = None, attr_full = None\<rparr>"

definition zcl_identify_attr :: "zcl_attribute_base_t list" where
  "zcl_identify_attr = [full_attr 0 ZCL_TYPE_UNSIGNED_16BIT identify_time_ptr (Some 0) (Some 0), end_of_list]"

definition zcl_identify_attribute_tree :: "zcl_attribute_tree_t list" where
  "zcl_identify_attribute_tree = [\<lparr>manufacturer_id = ZCL_MFG_NONE, server = Some zcl_identify_attr, client = None\<rparr>]"

definition zcl_time_attr :: "zcl_attribute_base_t list" where
  "zcl_time_attr = [full_attr ZCL_TIME_ATTR_TIME ZCL_TYPE_TIME_UTCTIME time_time_ptr (Some 0) (Some 0),
     full_attr ZCL_TIME_ATTR_TIME_STATUS ZCL_TYPE_BITMAP_8BIT time_status_ptr None (Some 1), end_of_list]"

definition zcl_time_attribute_tree :: "zcl_attribute_tree_t list" where
  "zcl_time_attribute_tree = [\<lparr>manufacturer_id = ZCL_MFG_NONE, server = Some zcl_time_attr, client = None\<rparr>]"

section \<open>The handlers\<close>

definition zcl_identify_command ::
  "(clusters_t zcl_vars, 's) aps_env \<Rightarrow> wpan_envelope_t \<Rightarrow> zcl_attribute_tree_t list option \<Rightarrow> 's cdev \<Rightarrow> (int \<times> 's cdev) option" where
  "zcl_identify_command E env tree d = (
     let now = aps_now E; general = zcl_general_command E (identify_fns now) env tree d in do {
     r \<leftarrow> zcl_command_build env tree;
     case r of
       Inl _ \<Rightarrow> general
     | Inr zcl \<Rightarrow>
         if \<not> ZCL_CMD_MATCH (frame_control zcl) 0 ZCL_FRAME_CLIENT_TO_SERVER ZCL_FRAME_TYPE_CLUSTER then general
         else if command zcl = ZCL_IDENTIFY_CMD_IDENTIFY then
           (if cmd_length zcl \<ge> 2 then do {
              a \<leftarrow> nth_opt (zcl_payload zcl) 0;
              b \<leftarrow> nth_opt (zcl_payload zcl) 1;
              d \<leftarrow> var_store d identify_time_ptr [a, b];
              d \<leftarrow> identify_time_start now d;
              Some (zcl_default_response E zcl ZCL_STATUS_SUCCESS d) }
            else Some (zcl_default_response E zcl ZCL_STATUS_MALFORMED_COMMAND d))
         else if command zcl = ZCL_IDENTIFY_CMD_QUERY then do {
           (_, d) \<leftarrow> zcl_identify_time_get now d;
           t \<leftarrow> load16 d identify_time_ptr;
           if t \<noteq> 0
           then Some (zcl_send_response E zcl (zcl_build_header zcl ZCL_IDENTIFY_CMD_QUERY_RESPONSE @ le16_put t) d)
           else Some (zcl_default_response E zcl ZCL_STATUS_SUCCESS d) }
         else general })"

definition zcl_onoff_handler ::
  "('u zcl_vars, 's) aps_env \<Rightarrow> ('u, 's) zcl_fns \<Rightarrow> wpan_envelope_t \<Rightarrow> zcl_attribute_tree_t list option \<Rightarrow> ('u, 's) zdev \<Rightarrow>
   (int \<times> ('u, 's) zdev) option" where
  "zcl_onoff_handler E Z env tree d = do {
     r \<leftarrow> zcl_command_build env tree;
     case r of
       Inl _ \<Rightarrow> zcl_general_command E Z env tree d
     | Inr zcl \<Rightarrow>
         if ZCL_CMD_MATCH (frame_control zcl) 0 ZCL_FRAME_CLIENT_TO_SERVER ZCL_FRAME_TYPE_CLUSTER
         then Some (zcl_default_response E zcl ZCL_STATUS_UNSUP_CLUSTER_COMMAND d)
         else zcl_general_command E Z env tree d }"

text \<open>The function that resets to the defaults of the factory belongs to the application.\<close>

definition zcl_basic_server ::
  "('u zcl_vars, 's) aps_env \<Rightarrow> ('u, 's) zcl_fns \<Rightarrow> (('u, 's) zdev \<Rightarrow> ('u, 's) zdev) \<Rightarrow> wpan_envelope_t \<Rightarrow>
   zcl_attribute_tree_t list option \<Rightarrow> ('u, 's) zdev \<Rightarrow> (int \<times> ('u, 's) zdev) option" where
  "zcl_basic_server E Z factory_reset env tree d = do {
     r \<leftarrow> zcl_command_build env tree;
     case r of
       Inl _ \<Rightarrow> zcl_general_command E Z env tree d
     | Inr zcl \<Rightarrow>
         if ZCL_CMD_MATCH (frame_control zcl) 0 ZCL_FRAME_CLIENT_TO_SERVER ZCL_FRAME_TYPE_CLUSTER \<and>
            command zcl = ZCL_BASIC_CMD_FACTORY_DEFAULTS
         then Some (zcl_default_response E zcl ZCL_STATUS_SUCCESS (factory_reset d))
         else zcl_general_command E Z env tree d }"

text \<open>The walk over the records of a response: the position, and the status of the walk, the time and the status of the time so far.\<close>

fun time_walk :: "nat \<Rightarrow> bytes \<Rightarrow> nat \<Rightarrow> nat \<Rightarrow> u8 \<times> u32 \<times> u8 \<Rightarrow> (u8 \<times> u32 \<times> u8) option" where
  "time_walk 0 p endp i s = None"
| "time_walk (Suc n) p endp i (response, time, time_status) =
     (if response = ZCL_STATUS_SUCCESS \<and> i < endp then do {
        a \<leftarrow> nth_opt p i;
        b \<leftarrow> nth_opt p (i + 1);
        st \<leftarrow> nth_opt p (i + 2);
        if st \<noteq> ZCL_STATUS_SUCCESS then time_walk n p endp (i + 3) (response, time, time_status)
        else do {
          ty \<leftarrow> nth_opt p (i + 3);
          if le16 a b = ZCL_TIME_ATTR_TIME then
            (if ty \<noteq> ZCL_TYPE_TIME_UTCTIME then time_walk n p endp (i + 4) (ZCL_STATUS_INVALID_DATA_TYPE, time, time_status)
             else if length p < i + 8 then None
             else time_walk n p endp (i + 8) (response, le_word (take 4 (drop (i + 4) p)), time_status))
          else if le16 a b = ZCL_TIME_ATTR_TIME_STATUS then
            (if ty \<noteq> ZCL_TYPE_BITMAP_8BIT then time_walk n p endp (i + 4) (ZCL_STATUS_INVALID_DATA_TYPE, time, time_status)
             else do {
               ts \<leftarrow> nth_opt p (i + 4);
               time_walk n p endp (i + 5) (response, time, ts) })
          else time_walk n p endp (i + 4) (ZCL_STATUS_UNSUPPORTED_ATTRIBUTE, time, time_status) } }
      else Some (response, time, time_status))"

definition zcl_time_client ::
  "(clusters_t zcl_vars, 's) aps_env \<Rightarrow> wpan_envelope_t \<Rightarrow> zcl_attribute_tree_t list option \<Rightarrow> 's cdev \<Rightarrow> (int \<times> 's cdev) option" where
  "zcl_time_client E env tree d = (
     let now = aps_now E; general = zcl_general_command E (time_fns now) env tree d in do {
     r \<leftarrow> zcl_command_build env tree;
     case r of
       Inl _ \<Rightarrow> general
     | Inr zcl \<Rightarrow>
         if command zcl = ZCL_CMD_READ_ATTRIB_RESP \<and> ZCL_CMD_MATCH (frame_control zcl) 0 ZCL_FRAME_DIRECTION ZCL_FRAME_TYPE_PROFILE
         then do {
           (response, time, time_status) \<leftarrow> time_walk (Suc (unat (env_length env))) (env_payload env) (unat (env_length env)) 3 (0, 0, 0);
           let response = (if response = ZCL_STATUS_SUCCESS \<and> time = 0 then ZCL_STATUS_FAILURE else response);
           d \<leftarrow> (if response = ZCL_STATUS_SUCCESS \<and> time \<noteq> ZCL_UTCTIME_INVALID \<and>
                      time_status AND (ZCL_TIME_STATUS_MASTER OR ZCL_TIME_STATUS_SYNCHRONIZED) \<noteq> 0 then do {
                   d \<leftarrow> var_store d time_time_ptr (le32_put time);
                   d \<leftarrow> time_skew_update now d;
                   old \<leftarrow> load8 d time_status_ptr;
                   var_store d time_status_ptr [old OR ZCL_TIME_STATUS_SYNCHRONIZED] }
                 else Some d);
           Some (zcl_default_response E zcl response d) }
         else general })"

section \<open>The contract of write functions\<close>

lemma decode_keeps_flags:
  assumes "zcl_decode_attribute e r d = Some (n, r', d')"
  shows "wr_flags r' = wr_flags r"
  using assms by (auto simp: zcl_decode_attribute_def Let_def split: Option.bind_splits)

lemma var_store_link: "var_store d p bs = Some d' \<Longrightarrow> link d' = link d"
  by (auto simp: var_store_def Let_def split: if_splits)

lemma identify_isactive_link: "zcl_identify_isactive now d = Some (t, d') \<Longrightarrow> link d' = link d"
  by (auto simp: zcl_identify_isactive_def Let_def split: if_splits Option.bind_splits dest: var_store_link)

interpretation ident: attr_functions "identify_fns now" for now
proof
  fix k e r d x
  assume a: "attr_write (identify_fns now) k e r d = Some x" "0 \<le> wr_buflen r"
  obtain n r' d' where x: "x = (n, r', d')" by (cases x)
  obtain d1 where d1: "zcl_decode_attribute e r d = Some (n, r', d1)"
    "if wr_flags r AND 1 = 0 then d' = d1 else identify_time_start now d1 = Some d'"
    using a(1) decode_keeps_flags by (fastforce simp: identify_fns_def x zcl_identify_time_set_def split: Option.bind_splits if_splits)
  show "write_laws r d x"
    using decode_laws[OF d1(1) a(2)] d1(2)
    by (auto simp: x write_laws_def identify_time_start_def set_identify_end_def split: if_splits Option.bind_splits)
next
  fix k e d st d'
  show "attr_read (identify_fns now) k e d = Some (st, d') \<Longrightarrow> link d' = link d"
    by (auto simp: identify_fns_def zcl_identify_time_get_def split: Option.bind_splits dest: identify_isactive_link)
qed

section \<open>The time to identify\<close>

lemma le16_roundtrip: "le16 (ucast w) (ucast (drop_bit 8 w)) = w"
  by (simp add: le16_def be16_roundtrip)

lemma load16_store: "var_store d p (le16_put w) = Some d' \<Longrightarrow> load16 d' p = Some w"
  using var_store_load[of d p "le16_put w" d'] by (simp add: load16_def le16_put_def le16_roundtrip numeral_2_eq_2)

definition identify_var_ok :: "'s cdev \<Rightarrow> bool" where
  "identify_var_ok d \<longleftrightarrow> length (objs (vars d) 0) = 2"

lemma var_store_identify:
  assumes "identify_var_ok d"
  shows "\<exists>d'. var_store d identify_time_ptr (le16_put w) = Some d' \<and> identify_var_ok d' \<and> zuser (vars d') = zuser (vars d)"
  using assms by (auto simp: var_store_def identify_var_ok_def le16_put_def Let_def)

text \<open>Identification was started at \<open>start\<close> for \<open>t\<close> seconds, and no query has seen its end.\<close>

definition identifying :: "u32 \<Rightarrow> nat \<Rightarrow> 's cdev \<Rightarrow> bool" where
  "identifying start t d \<longleftrightarrow> identify_var_ok d \<and> zcl_identify_end (zuser (vars d)) = start + of_nat t \<and> t < 65536 \<and>
     (\<exists>w. load16 d identify_time_ptr = Some w \<and> w \<noteq> 0)"

lemma sint_diff:
  assumes "t < 65536" "k < 2 ^ 31"
  shows "sint (of_nat t - of_nat k :: u32) = int t - int k"
proof -
  have "(of_nat t - of_nat k :: u32) = of_int (int t - int k)" by simp
  moreover have "sint (of_int (int t - int k) :: u32) = int t - int k"
    using assms by (subst sint_sbintrunc') (simp_all add: signed_take_bit_int_eq_self)
  ultimately show ?thesis by presburger
qed

lemma identify_query:
  assumes "identifying start t d" "k < 2 ^ 31"
  shows "\<exists>d'. zcl_identify_isactive (start + of_nat k) d = Some (of_nat (t - k), d') \<and>
    (if k < t then identifying start t d' else \<forall>now. zcl_identify_isactive now d' = Some (0, d'))"
proof -
  obtain w where i: "identify_var_ok d" "zcl_identify_end (zuser (vars d)) = start + of_nat t" "t < 65536"
    "load16 d identify_time_ptr = Some w" "w \<noteq> 0" using assms(1) by (auto simp: identifying_def)
  have "zcl_identify_end (zuser (vars d)) - (start + of_nat k) = of_nat t - of_nat k" by (simp add: i(2))
  then have delta: "sint (zcl_identify_end (zuser (vars d)) - (start + of_nat k)) = int t - int k"
    using sint_diff[OF i(3) assms(2)] by presburger
  have new: "(if int t - int k \<le> 0 then 0 else of_int (int t - int k)) = (of_nat (t - k) :: u16)" by (auto simp: of_nat_diff)
  obtain d' where d': "var_store d identify_time_ptr (le16_put (of_nat (t - k))) = Some d'" "identify_var_ok d'"
    "zuser (vars d') = zuser (vars d)" using var_store_identify[OF i(1)] by blast
  have l: "load16 d' identify_time_ptr = Some (of_nat (t - k))" by (rule load16_store[OF d'(1)])
  have r: "zcl_identify_isactive (start + of_nat k) d = Some (of_nat (t - k), d')"
    using i(4,5) d'(1) new by (simp add: zcl_identify_isactive_def delta Let_def)
  have "(of_nat (t - k) :: u16) \<noteq> 0" if "k < t" unfolding word_of_nat_eq_0_iff using that i(3) by (auto dest: dvd_imp_le)
  then show ?thesis using r l d' i by (auto simp: identifying_def zcl_identify_isactive_def)
qed

text \<open>
  C38: identification ends when its time is over. An Identify command of \<open>t\<close> seconds is received. When \<open>k\<close> seconds have passed,
  up to 2147483647, the time left is \<open>t - k\<close>, and 0 from \<open>k = t\<close> on, whether the clock wraps or not; asking does not
  change later answers, and once 0 was answered it stays 0.
\<close>

theorem identify_counts_down:
  assumes "identify_var_ok d" "zcl_command_build env tree = Some (Inr cmd)"
    "ZCL_CMD_MATCH (frame_control cmd) 0 ZCL_FRAME_CLIENT_TO_SERVER ZCL_FRAME_TYPE_CLUSTER" "command cmd = ZCL_IDENTIFY_CMD_IDENTIFY"
    "2 \<le> cmd_length cmd" "zcl_payload cmd = le16_put (of_nat t) @ rest" "0 < t" "t < 65536"
  shows "\<exists>x d1. zcl_identify_command E env tree d = Some (x, d1) \<and>
    (\<forall>k < 2 ^ 31. \<exists>d2. zcl_identify_isactive (aps_now E + of_nat k) d1 = Some (of_nat (t - k), d2) \<and>
       (if k < t then \<forall>m < 2 ^ 31. \<exists>d3. zcl_identify_isactive (aps_now E + of_nat m) d2 = Some (of_nat (t - m), d3)
        else \<forall>now. zcl_identify_isactive now d2 = Some (0, d2)))"
proof -
  obtain d1 where d1: "var_store d identify_time_ptr (le16_put (of_nat t)) = Some d1" "identify_var_ok d1"
    using var_store_identify[OF assms(1)] by blast
  have l: "load16 d1 identify_time_ptr = Some (of_nat t)" by (rule load16_store[OF d1(1)])
  have nz: "(of_nat t :: u16) \<noteq> 0" "(ucast (of_nat t :: u16) :: u32) = of_nat t"
    using assms(7,8) by (simp_all add: word_of_nat_eq_0_iff nat_dvd_not_less unsigned_ucast_eq word_unat_eq_iff unat_of_nat)
  let ?d = "set_identify_end (aps_now E + of_nat t) d1"
  have "zcl_identify_command E env tree d = Some (zcl_default_response E cmd 0 ?d)"
    using assms(2-6) d1(1) l nz(2) unfolding zcl_identify_command_def
    by (simp add: Let_def le16_put_def nth_opt_def identify_time_start_def)
  moreover have v: "vars (snd (zcl_default_response E cmd 0 ?d)) = vars ?d"
    by (auto simp: zcl_default_response_def zcl_send_response_def wpan_envelope_send_def Let_def split: option.splits prod.splits)
  have "identifying (aps_now E) t (snd (zcl_default_response E cmd 0 ?d))"
    using d1(2) l nz(1) assms(8) v by (simp add: identifying_def identify_var_ok_def set_identify_end_def load16_def var_load_def)
  ultimately show ?thesis
    using identify_query by (metis prod.collapse)
qed

section \<open>The time\<close>

lemma le_word_put: "le_word (le32_put w) = w"
proof (rule bit_word_eqI)
  fix n
  assume "n < LENGTH(32)"
  then consider "n < 8" | "8 \<le> n" "n < 16" | "16 \<le> n" "n < 24" | "24 \<le> n" "n < 32" by fastforce
  then show "bit (le_word (le32_put w)) n = bit w n"
    by cases (auto simp: le_word_def le32_put_def bit_simps)
qed

lemma load32_store: "var_store d p (le32_put w) = Some d' \<Longrightarrow> load32 d' p = Some w"
  using var_store_load[of d p "le32_put w" d'] le_word_put[of w] by (auto simp: load32_def le32_put_def numeral_eq_Suc)

definition time_vars_ok :: "'s cdev \<Rightarrow> bool" where
  "time_vars_ok d \<longleftrightarrow> length (objs (vars d) 1) = 4 \<and> length (objs (vars d) 2) = 1"

text \<open>A response with the time and the status of a server that is a master or synchronised.\<close>

definition time_response :: "u32 \<Rightarrow> u8 \<Rightarrow> bytes" where
  "time_response t st = [0, 0, 0, ZCL_TYPE_TIME_UTCTIME] @ le32_put t @ [1, 0, 0, ZCL_TYPE_BITMAP_8BIT, st]"

lemma time_walk_response:
  assumes "p = h @ time_response t st @ rest" "length h = 3" "4 \<le> n" "t \<noteq> 0"
  shows "time_walk n p 16 3 (0, 0, 0) = Some (0, t, st)"
proof -
  have "n = Suc (Suc (Suc (n - 3)))" using assms(3) by simp
  then obtain m where n: "n = Suc (Suc (Suc m))" by blast
  obtain a b c where h: "h = [a, b, c]" using assms(2) by (auto simp: numeral_3_eq_3 length_Suc_conv)
  have t: "le_word (take 4 (drop 7 p)) = t" by (simp add: assms(1) h time_response_def le32_put_def le_word_put[unfolded le32_put_def])
  show ?thesis using t by (simp add: n assms(1) h nth_opt_def time_response_def le32_put_def le16_def be16_of_def)
qed

text \<open>What the client keeps of a response: the difference to its own clock, and that it is synchronised.\<close>

definition time_set :: "u32 \<Rightarrow> u32 \<Rightarrow> 's cdev \<Rightarrow> bool" where
  "time_set now t d \<longleftrightarrow> time_vars_ok d \<and> zcl_time_skew (zuser (vars d)) = t - (now - ZCL_TIME_EPOCH_DELTA) \<and>
     (\<exists>st. load8 d time_status_ptr = Some st \<and> st AND (ZCL_TIME_STATUS_MASTER OR ZCL_TIME_STATUS_SYNCHRONIZED) \<noteq> 0)"

lemma time_set_vars: "vars d' = vars d \<Longrightarrow> time_set now t d' = time_set now t d"
  by (simp add: time_set_def time_vars_ok_def load8_def var_load_def)

lemma var_store_time:
  assumes "time_vars_ok d"
  shows "\<exists>d'. var_store d time_time_ptr (le32_put w) = Some d' \<and> time_vars_ok d' \<and> zuser (vars d') = zuser (vars d) \<and>
      load32 d' time_time_ptr = Some w \<and> load8 d' time_status_ptr = load8 d time_status_ptr"
    "\<exists>d'. var_store d time_status_ptr [b] = Some d' \<and> time_vars_ok d' \<and> zuser (vars d') = zuser (vars d) \<and>
      load8 d' time_status_ptr = Some b"
    "\<exists>st. load8 d time_status_ptr = Some st"
proof -
  obtain d' where "var_store d time_time_ptr (le32_put w) = Some d'" "time_vars_ok d'" "zuser (vars d') = zuser (vars d)"
      "load8 d' time_status_ptr = load8 d time_status_ptr"
    using assms by (auto simp: var_store_def time_vars_ok_def le32_put_def Let_def load8_def var_load_def)
  then show "\<exists>d'. var_store d time_time_ptr (le32_put w) = Some d' \<and> time_vars_ok d' \<and> zuser (vars d') = zuser (vars d) \<and>
      load32 d' time_time_ptr = Some w \<and> load8 d' time_status_ptr = load8 d time_status_ptr" using load32_store by blast
  show "\<exists>d'. var_store d time_status_ptr [b] = Some d' \<and> time_vars_ok d' \<and> zuser (vars d') = zuser (vars d) \<and>
      load8 d' time_status_ptr = Some b" "\<exists>st. load8 d time_status_ptr = Some st"
    using assms by (auto simp: var_store_def time_vars_ok_def Let_def load8_def var_load_def buf_write_def)
qed

lemma time_now_set:
  assumes "time_set now t d" "t \<noteq> now - ZCL_TIME_EPOCH_DELTA \<or> ZCL_TIME_EPOCH_DELTA \<le> now + of_nat k"
  shows "\<exists>d'. zcl_time_now (now + of_nat k) d = Some (t + of_nat k, d') \<and> time_set now t d'"
proof -
  have skew: "zcl_time_skew (zuser (vars d)) = t - (now - ZCL_TIME_EPOCH_DELTA)" and ok: "time_vars_ok d"
    using assms(1) by (auto simp: time_set_def)
  obtain st where st: "load8 d time_status_ptr = Some st" "st AND (ZCL_TIME_STATUS_MASTER OR ZCL_TIME_STATUS_SYNCHRONIZED) \<noteq> 0"
    using assms(1) by (auto simp: time_set_def)
  have "\<not> (zcl_time_skew (zuser (vars d)) = 0 \<and> now + of_nat k < ZCL_TIME_EPOCH_DELTA)" using assms(2) by (auto simp: skew)
  moreover have "zcl_time_skew (zuser (vars d)) + (now + of_nat k - ZCL_TIME_EPOCH_DELTA) = t + of_nat k" by (simp add: skew)
  ultimately have get: "zcl_time_time_get (now + of_nat k) d = do { d \<leftarrow> var_store d time_time_ptr (le32_put (t + of_nat k)); Some (0, d) }"
    unfolding zcl_time_time_get_def Let_def by presburger
  obtain d' where "var_store d time_time_ptr (le32_put (t + of_nat k)) = Some d'" "time_vars_ok d'" "zuser (vars d') = zuser (vars d)"
    "load32 d' time_time_ptr = Some (t + of_nat k)" "load8 d' time_status_ptr = load8 d time_status_ptr"
    using var_store_time(1)[OF ok] by blast
  then show ?thesis using st skew by (auto simp: zcl_time_now_def get time_set_def)
qed

text \<open>
  C39: a client follows the clock of its server. It receives a response with the time \<open>t\<close>, valid and not 0, and the status of
  a master or a synchronised server. When \<open>k\<close> seconds have passed on its own clock, the time it reports is
  \<open>t + k\<close>, and asking does not change that. (Where its own clock already shows \<open>t\<close>, the clock must be past the
  year 2000: a difference of 0 counts as unknown otherwise.)
\<close>

theorem time_client_follows:
  fixes d :: "'s cdev"
  assumes "time_vars_ok d" "zcl_command_build env tree = Some (Inr cmd)" "command cmd = ZCL_CMD_READ_ATTRIB_RESP"
    "ZCL_CMD_MATCH (frame_control cmd) 0 ZCL_FRAME_DIRECTION ZCL_FRAME_TYPE_PROFILE"
    "env_payload env = h @ time_response t st @ rest" "length h = 3" "env_length env = 16"
    "t \<noteq> 0" "t \<noteq> ZCL_UTCTIME_INVALID" "st AND (ZCL_TIME_STATUS_MASTER OR ZCL_TIME_STATUS_SYNCHRONIZED) \<noteq> 0"
  shows "\<exists>x d1. zcl_time_client E env tree d = Some (x, d1) \<and> time_set (aps_now E) t d1 \<and>
    (\<forall>k (d2 :: 's cdev). time_set (aps_now E) t d2 \<and> (t \<noteq> aps_now E - ZCL_TIME_EPOCH_DELTA \<or> ZCL_TIME_EPOCH_DELTA \<le> aps_now E + of_nat k) \<longrightarrow>
       (\<exists>d3. zcl_time_now (aps_now E + of_nat k) d2 = Some (t + of_nat k, d3) \<and> time_set (aps_now E) t d3))"
proof -
  have w: "time_walk (Suc (unat (env_length env))) (env_payload env) (unat (env_length env)) 3 (0, 0, 0) = Some (0, t, st)"
    using time_walk_response[OF assms(5,6) _ assms(8), of 17] by (simp add: assms(7))
  obtain d1 where d1: "var_store d time_time_ptr (le32_put t) = Some d1" "time_vars_ok d1" "load32 d1 time_time_ptr = Some t"
    using var_store_time(1)[OF assms(1)] by blast
  let ?d = "set_time_skew (t - (aps_now E - ZCL_TIME_EPOCH_DELTA)) d1"
  have ok: "time_vars_ok ?d" using d1(2) by (simp add: time_vars_ok_def set_time_skew_def)
  obtain old where old: "load8 ?d time_status_ptr = Some old" using var_store_time(3)[OF ok] by blast
  obtain d2 where d2: "var_store ?d time_status_ptr [old OR 2] = Some d2" "time_vars_ok d2" "zuser (vars d2) = zuser (vars ?d)"
    "load8 d2 time_status_ptr = Some (old OR 2)" using var_store_time(2)[OF ok] by blast
  have v: "vars (snd (zcl_default_response E cmd 0 d2)) = vars d2"
    by (auto simp: zcl_default_response_def zcl_send_response_def wpan_envelope_send_def Let_def split: option.splits prod.splits)
  have "bit ((old OR 2) AND 3) (Suc 0)" by (simp add: bit_and_iff bit_or_iff bit_numeral_rec)
  then have "(old OR 2) AND 3 \<noteq> 0" by (metis bit_0_eq bot_apply bot_bool_def)
  then have "time_set (aps_now E) t d2" using d2 by (auto simp: time_set_def set_time_skew_def)
  then have ts: "time_set (aps_now E) t (snd (zcl_default_response E cmd 0 d2))"
    using time_set_vars[OF v] by blast
  have "zcl_time_client E env tree d = Some (zcl_default_response E cmd 0 d2)"
    using assms(2-4,8-10) d1(1,3) old d2(1) w unfolding zcl_time_client_def
    by (simp add: Let_def time_skew_update_def)
  then show ?thesis using ts time_now_set by (metis prod.collapse)
qed

section \<open>Where the time cluster does not keep the contract\<close>

text \<open>
  A device that is a master refuses to set the time: the write function moves the buffer by four bytes, and its caller does so again, while the
  number of bytes left goes down by four. The record after it is then read from the wrong place.
\<close>

theorem time_master_skips:
  assumes "load8 d time_status_ptr = Some st" "st AND ZCL_TIME_STATUS_MASTER \<noteq> 0"
    "wr_buffer r = [0, 0, ZCL_TYPE_TIME_UTCTIME] @ v @ rest" "length v = 4" "7 \<le> wr_buflen r"
  shows "\<exists>n r'. zcl_parse_attribute_record (time_fns now) (Some zcl_time_attr) (write_rec assign r) d = Some (n, r', d) \<and>
    wr_status r' = ZCL_STATUS_READ_ONLY \<and> wr_buffer r' = drop 4 rest \<and> wr_buflen r' = wr_buflen r - 7"
proof -
  have sz: "zcl_sizeof_type 0xE2 = 4" by code_simp
  let ?e = "full_attr 0 0xE2 time_time_ptr (Some 0) (Some 0)"
  have f: "zcl_find_attribute (Some zcl_time_attr) 0 = Some (Some ?e)"
    by (simp add: zcl_find_attribute_def zcl_time_attr_def full_attr_def nth_opt_def)
  have st: "record_status (Some ?e) 0xE2 \<lparr>wr_buffer = v @ rest, wr_buflen = wr_buflen r - 3, wr_flags = 0, wr_status = 0\<rparr> = Some 0"
    using assms(5) by (simp add: record_status_def full_attr_def sz zcl_check_minmax_def)
  have j: "judge (Some zcl_time_attr) (wr_buffer r) (wr_buflen r) = Some (0, ?e)"
    using assms(3,5) f st by (simp add: judge_def nth_opt_def le16_def be16_of_def)
  have "record_value (time_fns now) ?e r' d = Some (4, r'\<lparr>wr_status := ZCL_STATUS_READ_ONLY, wr_buffer := drop 4 (wr_buffer r')\<rparr>, d)" for r'
    using assms(1,2) by (simp add: record_value_def full_attr_def time_fns_def zcl_time_time_set_def)
  then show ?thesis unfolding parse_judge j using assms(3,4) by simp
qed

section \<open>Witnesses\<close>

definition demo_cdev :: "u8 \<Rightarrow> wpan_envelope_t list cdev" where
  "demo_cdev st = \<lparr>ep_table = None, ep_states = (\<lambda>_. \<lparr>last_transaction = 0, conversations = []\<rparr>),
     vars = \<lparr>objs = (\<lambda>i. if i = 0 then [0, 0] else if i = 1 then [0, 0, 0, 0] else [st]), arrays = (\<lambda>_. None), structs = (\<lambda>_. None),
       zuser = \<lparr>zcl_identify_end = 0, zcl_time_skew = 0\<rparr>\<rparr>, link = []\<rparr>"

definition demo_cenv :: "u32 \<Rightarrow> (clusters_t zcl_vars, wpan_envelope_t list) aps_env" where
  "demo_cenv now = \<lparr>aps_now = now, endpoint_send = Some (\<lambda>env _ sent. (0, sent @ [env])), dev_tick = None, endpoint_get_next = None,
     clust_fn = (\<lambda>_ _ _ d. Some (0, d)), ep_fn = (\<lambda>_ _ _ d. Some (0, d)), conv_fn = (\<lambda>_ _ _ d. (1, d))\<rparr>"

text \<open>Ten seconds, from six seconds before the clock wraps.\<close>

theorem identify_counts_down_witness:
  "\<exists>x d1 d2. zcl_identify_command (demo_cenv (- 6)) (demo_request 0 [1, 9, 0, 10, 0]) None (demo_cdev 0) = Some (x, d1) \<and>
     zcl_identify_isactive 1 d1 = Some (3, d2)"
proof -
  obtain cmd where c: "zcl_command_build (demo_request 0 [1, 9, 0, 10, 0]) None = Some (Inr cmd)" "command cmd = 0"
    "frame_control cmd = 1" "cmd_length cmd = 2" "zcl_payload cmd = le16_put (of_nat 10) @ []"
    by (simp add: zcl_command_build_def demo_request_def nth_opt_def le16_put_def)
  have "identify_var_ok (demo_cdev 0)" by (simp add: identify_var_ok_def demo_cdev_def)
  from identify_counts_down[OF this c(1) _ c(2) _ c(5), of "demo_cenv (- 6)"] c(3,4)
  obtain x d1 where r: "zcl_identify_command (demo_cenv (- 6)) (demo_request 0 [1, 9, 0, 10, 0]) None (demo_cdev 0) = Some (x, d1)"
    "\<forall>k < 2 ^ 31. \<exists>d2. zcl_identify_isactive (aps_now (demo_cenv (- 6)) + of_nat k) d1 = Some (of_nat (10 - k), d2)"
    by (fastforce simp: ZCL_CMD_MATCH_def)
  from r(2)[rule_format, of 7] r(1) show ?thesis by (auto simp: demo_cenv_def)
qed

theorem time_client_follows_witness:
  "\<exists>x d1 d2. zcl_time_client (demo_cenv 1000) (demo_request 0 ([0x18, 9, 1] @ time_response 500000000 1)) None (demo_cdev 0) = Some (x, d1) \<and>
     zcl_time_now 1060 d1 = Some (500000060, d2)"
proof -
  let ?env = "demo_request 0 ([0x18, 9, 1] @ time_response 500000000 1)"
  obtain cmd where c: "zcl_command_build ?env None = Some (Inr cmd)" "command cmd = 1" "frame_control cmd = 0x18"
    by (simp add: zcl_command_build_def demo_request_def nth_opt_def time_response_def le32_put_def)
  have e: "env_payload ?env = [0x18, 9, 1] @ time_response 500000000 1 @ []" "env_length ?env = 16"
    by (simp_all add: demo_request_def time_response_def le32_put_def)
  have ok: "time_vars_ok (demo_cdev 0)" by (simp add: time_vars_ok_def demo_cdev_def)
  obtain x d1 where r: "zcl_time_client (demo_cenv 1000) ?env None (demo_cdev 0) = Some (x, d1)" "time_set 1000 500000000 d1"
    "\<forall>k (d2 :: wpan_envelope_t list cdev). time_set 1000 500000000 d2 \<and> ((500000000 :: u32) \<noteq> 1000 - (30 * 365 + 7) * 24 * 60 * 60 \<or> (30 * 365 + 7) * 24 * 60 * 60 \<le> (1000 :: u32) + of_nat k) \<longrightarrow>
       (\<exists>d3. zcl_time_now (1000 + of_nat k) d2 = Some (500000000 + of_nat k, d3) \<and> time_set 1000 500000000 d3)"
    using time_client_follows[OF ok c(1,2) _ e(1) _ e(2), of "demo_cenv 1000"] c(3) by (auto simp: ZCL_CMD_MATCH_def demo_cenv_def)
  from r(3)[rule_format, of d1 60] r(1,2) show ?thesis by auto
qed

theorem time_master_skips_witness:
  "\<exists>n r'. zcl_parse_attribute_record (time_fns 0) (Some zcl_time_attr)
      (write_rec True \<lparr>wr_buffer = [0, 0, 0xE2, 1, 2, 3, 4, 1, 0, 0x18, 2, 9, 9], wr_buflen = 11, wr_flags = 0, wr_status = 0\<rparr>) (demo_cdev 1) =
    Some (n, r', demo_cdev 1) \<and> wr_buffer r' = [9, 9] \<and> wr_buflen r' = 4"
proof -
  have "load8 (demo_cdev 1) time_status_ptr = Some 1" by (simp add: load8_def var_load_def demo_cdev_def)
  from time_master_skips[OF this, of "\<lparr>wr_buffer = [0, 0, 0xE2, 1, 2, 3, 4, 1, 0, 0x18, 2, 9, 9], wr_buflen = 11, wr_flags = 0, wr_status = 0\<rparr>"
    "[1, 2, 3, 4]" "[1, 0, 0x18, 2, 9, 9]" 0 True] show ?thesis by auto
qed

end
