(* ===== verification/Xbee_Wpan.thy ===== *)
theory Xbee_Wpan
  imports Zcl_Clusters Xbee_Frames
begin

text \<open>
  The rest of \<open>src/Software/lib/XBee/src/wpan/wpan_aps.c\<close>, the dispatching of envelopes, and
  \<open>src/Software/lib/XBee/src/xbee/xbee_wpan.c\<close>, which connects it to the frame layer: explicit receive frames become envelopes, envelopes
  become explicit transmit frames.
\<close>

section \<open>Dispatching an envelope\<close>

text \<open>The envelope is changed as well: the flags of the cluster become options.\<close>

definition wpan_endpoint_dispatch ::
  "('u zcl_vars, 's) aps_env \<Rightarrow> wpan_envelope_t \<Rightarrow> nat \<Rightarrow> ('u, 's) zdev \<Rightarrow> (int \<times> wpan_envelope_t \<times> ('u, 's) zdev) option" where
  "wpan_endpoint_dispatch E env i d = do {
     ep \<leftarrow> ep_entry d i;
     clust \<leftarrow> wpan_cluster_match (cluster_id env) WPAN_CLUST_FLAG_INOUT (cluster_table ep);
     let default = (\<lambda>env. case ep_handler ep of
           Some h \<Rightarrow> map_option (\<lambda>(r, d). (r, env, d)) (ep_fn E h env (ep_state ep) d)
         | None \<Rightarrow> Some (- ENOENT, env, d));
     case clust of
       None \<Rightarrow> default env
     | Some c \<Rightarrow>
         if env_options env AND WPAN_ENVELOPE_RX_APS_ENCRYPT = 0 \<and> clust_flags c AND WPAN_CLUST_FLAG_NOT_ZCL = 0 \<and>
            (clust_flags c AND WPAN_CLUST_FLAG_ENCRYPT \<noteq> 0 \<or>
             clust_flags c AND WPAN_CLUST_FLAG_ENCRYPT_UNICAST \<noteq> 0 \<and> env_options env AND WPAN_ENVELOPE_BROADCAST_ADDR = 0)
         then map_option (\<lambda>(r, d). (r, env, d)) (zcl_invalid_cluster E env d)
         else
           let env = env\<lparr>env_options := env_options env OR ucast (clust_flags c)\<rparr> in
           case clust_handler c of
             None \<Rightarrow> default env
           | Some h \<Rightarrow> map_option (\<lambda>(r, d). (r, env, d)) (clust_fn E h env (clust_context c) d) }"

text \<open>The loop over the endpoints for a frame to the broadcast endpoint, with a bound on its rounds.\<close>

fun broadcast_walk ::
  "nat \<Rightarrow> ('u zcl_vars, 's) aps_env \<Rightarrow> wpan_envelope_t \<Rightarrow> nat option \<Rightarrow> int \<Rightarrow> ('u, 's) zdev \<Rightarrow> (int \<times> ('u, 's) zdev) option" where
  "broadcast_walk 0 E env ep retval d = None"
| "broadcast_walk (Suc n) E env ep retval d = do {
     next \<leftarrow> wpan_endpoint_get_next E d ep;
     case next of
       None \<Rightarrow> Some (retval, d)
     | Some i \<Rightarrow> do {
         e \<leftarrow> ep_entry d i;
         if profile_id env = ep_profile_id e then do {
           (r, env, d) \<leftarrow> wpan_endpoint_dispatch E
              (env\<lparr>dest_endpoint := endpoint e, env_options := env_options env AND NOT WPAN_ENVELOPE_CLUSTER_FLAGS\<rparr>) i d;
           broadcast_walk n E env (Some i) (if r = 0 then 0 else retval) d }
         else broadcast_walk n E env (Some i) retval d } }"

definition wpan_envelope_dispatch ::
  "('u zcl_vars, 's) aps_env \<Rightarrow> wpan_envelope_t \<Rightarrow> ('u, 's) zdev \<Rightarrow> (int \<times> ('u, 's) zdev) option" where
  "wpan_envelope_dispatch E env d =
     (if dest_endpoint env = WPAN_ENDPOINT_BROADCAST
      then broadcast_walk (walk_bound d) E (env\<lparr>env_options := env_options env OR WPAN_ENVELOPE_BROADCAST_EP\<rparr>) None (- ENOENT) d
      else do {
        ep \<leftarrow> wpan_endpoint_match E d (dest_endpoint env) (profile_id env);
        case ep of
          Some i \<Rightarrow> map_option (\<lambda>(r, _, d). (r, d)) (wpan_endpoint_dispatch E env i d)
        | None \<Rightarrow> Some (- ENOENT, d) })"

section \<open>Frames\<close>

abbreviation (input) XBEE_FRAME_TRANSMIT_EXPLICIT :: u8 where "XBEE_FRAME_TRANSMIT_EXPLICIT \<equiv> 0x11"
abbreviation (input) XBEE_RX_OPT_BROADCAST :: u8 where "XBEE_RX_OPT_BROADCAST \<equiv> 0x02"
abbreviation (input) XBEE_RX_OPT_APS_ENCRYPT :: u8 where "XBEE_RX_OPT_APS_ENCRYPT \<equiv> 0x20"
abbreviation (input) XBEE_TX_OPT_APS_ENCRYPT :: u8 where "XBEE_TX_OPT_APS_ENCRYPT \<equiv> 0x20"

text \<open>The fields of \<open>xbee_frame_receive_explicit_t\<close>; the frame has at least the 18 bytes before the payload.\<close>

definition explicit_envelope :: "bytes \<Rightarrow> u16 \<Rightarrow> wpan_envelope_t" where
  "explicit_envelope f len =
     \<lparr>env_ieee = take 8 (drop 1 f), env_network = be16_of (f ! 9) (f ! 10), profile_id = be16_of (f ! 15) (f ! 16),
      cluster_id = be16_of (f ! 13) (f ! 14), source_endpoint = f ! 11, dest_endpoint = f ! 12,
      env_options = (if f ! 17 AND XBEE_RX_OPT_BROADCAST \<noteq> 0 then WPAN_ENVELOPE_BROADCAST_ADDR else 0) OR
                    (if f ! 17 AND XBEE_RX_OPT_APS_ENCRYPT \<noteq> 0 then WPAN_ENVELOPE_RX_APS_ENCRYPT else 0),
      env_payload = drop 18 f, env_length = len - 18\<rparr>"

definition xbee_handle_receive_explicit ::
  "('u zcl_vars, 's) aps_env \<Rightarrow> bytes option \<Rightarrow> u16 \<Rightarrow> ('u, 's) zdev \<Rightarrow> (int \<times> ('u, 's) zdev) option" where
  "xbee_handle_receive_explicit E raw len d =
     (case raw of
        None \<Rightarrow> Some (- EINVAL, d)
      | Some f \<Rightarrow>
          if len < 18 then Some (- EBADMSG, d)
          else if length f < 18 then None
          else wpan_envelope_dispatch E (explicit_envelope f len) d)"

definition transmit_header :: "u8 \<Rightarrow> wpan_envelope_t \<Rightarrow> u8 \<Rightarrow> bytes" where
  "transmit_header k env opts =
     [XBEE_FRAME_TRANSMIT_EXPLICIT, k] @ env_ieee env @ be16_bytes (env_network env) @ [source_endpoint env, dest_endpoint env] @
     be16_bytes (cluster_id env) @ be16_bytes (profile_id env) @ [0, opts]"

definition xbee_endpoint_send :: "wpan_envelope_t \<Rightarrow> u16 \<Rightarrow> 'a xbee_dev_t \<Rightarrow> int \<times> 'a xbee_dev_t" where
  "xbee_endpoint_send env flags xbee = (
     let (k, xbee) = xbee_next_frame_id xbee;
         header = transmit_header k env (if flags AND WPAN_SEND_FLAG_ENCRYPTED \<noteq> 0 then XBEE_TX_OPT_APS_ENCRYPT else 0)
     in xbee_frame_write xbee (Some header) (of_nat (length header)) (Some (env_payload env)) (env_length env))"

text \<open>\<open>tick\<close> is \<open>_xbee_wpan_tick\<close>, the tick of the frame layer on this device.\<close>

definition xbee_wpan_init ::
  "(('v, 'a xbee_dev_t) aps \<Rightarrow> int \<times> ('v, 'a xbee_dev_t) aps) \<Rightarrow> wpan_endpoint_table_entry_t list option \<Rightarrow>
   ('v, 'a xbee_dev_t) aps_env \<times> ('v, 'a xbee_dev_t) aps \<Rightarrow>
   int \<times> ('v, 'a xbee_dev_t) aps_env \<times> ('v, 'a xbee_dev_t) aps" where
  "xbee_wpan_init tick table s =
     (case table of
        None \<Rightarrow> (- EINVAL, s)
      | Some t \<Rightarrow> (0, (fst s)\<lparr>dev_tick := Some tick, endpoint_send := Some xbee_endpoint_send\<rparr>, (snd s)\<lparr>ep_table := Some t\<rparr>))"

definition xbee_handle_transmit_status :: "bytes \<Rightarrow> u16 \<Rightarrow> 'd \<Rightarrow> int \<times> 'd" where
  "xbee_handle_transmit_status raw len d = (0, d)"

section \<open>An envelope as a frame\<close>

lemma next_frame_id_serport:
  "serport (snd (xbee_next_frame_id x)) = serport x" "dev_flags (snd (xbee_next_frame_id x)) = dev_flags x"
  by (simp_all add: xbee_next_frame_id_def Let_def)

lemma endpoint_send_wire:
  assumes "can_send x" "length (env_ieee env) = 8" "length (env_payload env) < 256" "env_length env = of_nat (length (env_payload env))"
  shows "\<exists>k x'. xbee_endpoint_send env flags x = (0, x') \<and> can_send x' \<and>
    os_tx (serport x') = os_tx (serport x) @
      wire (transmit_header k env (if flags AND 1 \<noteq> 0 then XBEE_TX_OPT_APS_ENCRYPT else 0) @ env_payload env)"
proof -
  obtain k y where y: "xbee_next_frame_id x = (k, y)" by fastforce
  have s: "serport y = serport x" "dev_flags y = dev_flags x" using next_frame_id_serport[of x] by (simp_all add: y)
  then have c: "can_send y" using assms(1) by (simp add: can_send_def)
  let ?h = "transmit_header k env (if flags AND 1 \<noteq> 0 then XBEE_TX_OPT_APS_ENCRYPT else 0)"
  have h: "length ?h = 20" using assms(2) by (simp add: transmit_header_def be16_bytes_def)
  then have h': "?h @ env_payload env \<noteq> []" "length ?h < 256" by (auto simp del: if_split)
  obtain n where "xbee_frame_write y (Some ?h) (of_nat (length ?h)) (Some (env_payload env)) (of_nat (length (env_payload env))) =
      (0, y\<lparr>serport := sent (serport y) (wire (?h @ env_payload env)) n\<rparr>)"
    using xbee_frame_write_wire[OF c h' assms(3)] .
  moreover have "can_send (y\<lparr>serport := sent (serport y) (wire (?h @ env_payload env)) n\<rparr>)" using c by (simp add: can_send_def)
  ultimately show ?thesis using assms(4) s by (auto simp: xbee_endpoint_send_def y Let_def)
qed

section \<open>A request and its answer on the line\<close>

text \<open>A receive frame.\<close>

definition receive_frame :: "bytes \<Rightarrow> u16 \<Rightarrow> u8 \<Rightarrow> u8 \<Rightarrow> u16 \<Rightarrow> u16 \<Rightarrow> u8 \<Rightarrow> bytes \<Rightarrow> bytes" where
  "receive_frame addr net src dst cluster profile opts p =
     0x91 # addr @ be16_bytes net @ [src, dst] @ be16_bytes cluster @ be16_bytes profile @ opts # p"

lemma receive_frame_envelope:
  assumes "length addr = 8" "f = receive_frame addr net src dst cluster profile opts p" "length p < 65000"
  shows "explicit_envelope f (of_nat (length f)) = \<lparr>env_ieee = addr, env_network = net, profile_id = profile, cluster_id = cluster,
      source_endpoint = src, dest_endpoint = dst,
      env_options = (if opts AND 2 \<noteq> 0 then 0x0100 else 0) OR (if opts AND 0x20 \<noteq> 0 then 0x0400 else 0),
      env_payload = p, env_length = of_nat (length p)\<rparr>"
    "\<not> (of_nat (length f) :: u16) < 18" "\<not> length f < 18"
proof -
  obtain a b c d e g h k where addr: "addr = [a, b, c, d, e, g, h, k]"
    using assms(1) by (auto simp: numeral_eq_Suc length_Suc_conv)
  show "explicit_envelope f (of_nat (length f)) = \<lparr>env_ieee = addr, env_network = net, profile_id = profile, cluster_id = cluster,
      source_endpoint = src, dest_endpoint = dst,
      env_options = (if opts AND 2 \<noteq> 0 then 0x0100 else 0) OR (if opts AND 0x20 \<noteq> 0 then 0x0400 else 0),
      env_payload = p, env_length = of_nat (length p)\<rparr>"
    by (simp add: explicit_envelope_def assms(2) receive_frame_def addr be16_bytes_def be16_roundtrip)
  have l: "length f = 18 + length p" by (simp add: assms(2) receive_frame_def addr be16_bytes_def)
  then have "unat (of_nat (length f) :: u16) = length f" using assms(3) unfolding unat_of_nat by simp
  then show "\<not> (of_nat (length f) :: u16) < 18" "\<not> length f < 18" using l by (simp_all add: word_less_nat_alt)
qed

text \<open>
  The device is set up: its envelopes go out as frames, and the first endpoint that matches has a cluster that accepts frames
  without encryption and whose handler is the one for general commands.
\<close>

definition serves ::
  "('u zcl_vars, 'a xbee_dev_t) aps_env \<Rightarrow> ('u, 'a xbee_dev_t) zcl_fns \<Rightarrow> zcl_attribute_tree_t list option \<Rightarrow> u8 \<Rightarrow> u16 \<Rightarrow> u16 \<Rightarrow>
   ('u, 'a xbee_dev_t) zdev \<Rightarrow> bool" where
  "serves E Z tree dst cluster profile d \<longleftrightarrow> endpoint_send E = Some xbee_endpoint_send \<and> dst \<noteq> 0xFF \<and>
     (\<exists>es i c h. table_of_eps E d es \<and> find (\<lambda>i. ep_matches dst profile (es ! i)) [0..<length es] = Some i \<and>
        wpan_cluster_match cluster 3 (cluster_table (es ! i)) = Some (Some c) \<and> clust_flags c AND 0x30 = 0 \<and>
        clust_handler c = Some h \<and> (\<forall>env d. clust_fn E h env (clust_context c) d = zcl_general_command E Z env tree d))"

lemma dispatch_serves:
  assumes "serves E Z tree dst cluster profile d" "dest_endpoint env = dst" "cluster_id env = cluster" "profile_id env = profile"
  shows "\<exists>f. wpan_envelope_dispatch E env d = zcl_general_command E Z (env\<lparr>env_options := env_options env OR f\<rparr>) tree d"
proof -
  obtain es i c h where s: "table_of_eps E d es" "find (\<lambda>i. ep_matches dst profile (es ! i)) [0..<length es] = Some i"
      "wpan_cluster_match cluster 3 (cluster_table (es ! i)) = Some (Some c)" "clust_flags c AND 0x30 = 0"
      "clust_handler c = Some h" "\<And>env d. clust_fn E h env (clust_context c) d = zcl_general_command E Z env tree d" "dst \<noteq> 0xFF"
    using assms(1) by (auto simp: serves_def)
  have i: "i < length es" using s(2) by (auto simp: find_Some_iff)
  have fl: "clust_flags c AND 0x10 = 0" "clust_flags c AND 0x20 = 0" using s(4) by (auto intro: and_sub_zero[of _ "0x30"])
  have "wpan_endpoint_match E d dst profile = Some (Some i)" using endpoint_match_first[OF s(1)] s(2) by simp
  moreover have "wpan_endpoint_dispatch E env i d =
      map_option (\<lambda>(r, d). (r, env\<lparr>env_options := env_options env OR ucast (clust_flags c)\<rparr>, d))
        (zcl_general_command E Z (env\<lparr>env_options := env_options env OR ucast (clust_flags c)\<rparr>) tree d)"
    using s(3,5,6) assms(3) fl by (simp add: wpan_endpoint_dispatch_def get_next_table(3)[OF s(1) i] Let_def)
  ultimately show ?thesis using s(7) assms(2,4)
    by (intro exI[of _ "ucast (clust_flags c)"])
      (cases "zcl_general_command E Z (env\<lparr>env_options := env_options env OR ucast (clust_flags c)\<rparr>) tree d",
       auto simp: wpan_envelope_dispatch_def)
qed

text \<open>
  C12: a request is answered on the line, to the node it came from. A receive frame carries a command, other than a response, to an endpoint and a
  cluster that the handler of general commands serves. When the frame has been handled, the port has sent nothing more than
  before, or exactly one transmit frame: to the 64-bit and 16-bit addresses that the request came from,
  with the endpoints swapped, the same cluster and profile, and a body of at most 85 bytes that has the number of the request.
\<close>

theorem request_answered_on_wire:
  fixes d :: "('u, 'a xbee_dev_t) zdev"
  assumes "serves E Z tree dst cluster profile d" "attr_functions Z" "can_send (link d)" "length addr = 8" "length p < 65000"
    "f = receive_frame addr net src dst cluster profile opts p"
    "zcl_command_build (explicit_envelope f (of_nat (length f))) tree = Some (Inr cmd)"
    "command cmd \<notin> {ZCL_CMD_DEFAULT_RESP, ZCL_CMD_READ_ATTRIB_RESP, ZCL_CMD_WRITE_ATTRIB_RESP,
       ZCL_CMD_DISCOVER_ATTRIB_RESP, ZCL_CMD_WRITE_STRUCT_ATTRIB_RESP}"
    "xbee_handle_receive_explicit E (Some f) (of_nat (length f)) d = Some (x, d')"
  shows "link d' = link d \<or>
    (\<exists>k topts body. x = 0 \<and> length body \<le> 85 \<and> body ! (if frame_control cmd AND ZCL_FRAME_MFG_SPECIFIC \<noteq> 0 then 3 else 1) = sequence cmd \<and>
       os_tx (serport (link d')) = os_tx (serport (link d)) @
         wire ([0x11, k] @ addr @ be16_bytes net @ [dst, src] @ be16_bytes cluster @ be16_bytes profile @ [0, topts] @ body))"
proof -
  let ?env = "explicit_envelope f (of_nat (length f))"
  note env = receive_frame_envelope[OF assms(4,6,5)]
  obtain fl where g: "wpan_envelope_dispatch E ?env d = zcl_general_command E Z (?env\<lparr>env_options := env_options ?env OR fl\<rparr>) tree d"
    using dispatch_serves[OF assms(1), of ?env] by (auto simp: env(1))
  let ?e = "?env\<lparr>env_options := env_options ?env OR fl\<rparr>"
  have x: "zcl_general_command E Z ?e tree d = Some (x, d')"
    using assms(9) env(2,3) g by (simp add: xbee_handle_receive_explicit_def)
  have b: "zcl_command_build ?e tree = Some (Inr (cmd\<lparr>cmd_envelope := ?e\<rparr>))"
    using assms(7) by (auto simp: zcl_command_build_def Let_def split: Option.bind_splits if_splits)
  let ?c = "cmd\<lparr>cmd_envelope := ?e\<rparr>"
  have "one_reply E ?c (link d) (x, d')" using general_command_one[OF assms(2) b _ x] assms(8) by simp
  then consider "link d' = link d" | renv d1 where "reply_to ?c renv" "length (env_payload renv) \<le> 85" "link d1 = link d"
      "(x, d') = wpan_envelope_send E renv d1" by (auto simp: one_reply_def)
  then show ?thesis
  proof cases
    case 2
    have r: "renv\<lparr>env_payload := [], env_length := 0\<rparr> = wpan_envelope_reply ?e" "env_length renv = of_nat (length (env_payload renv))"
      "env_payload renv ! (if frame_control cmd AND 4 \<noteq> 0 then 3 else 1) = sequence cmd"
      using 2(1) by (auto simp: reply_to_def Let_def)
    have f: "env_ieee renv = addr" "env_network renv = net" "profile_id renv = profile" "cluster_id renv = cluster"
        "source_endpoint renv = dst" "dest_endpoint renv = src"
      using r(1) by (cases renv; simp add: wpan_envelope_reply_def env(1))+
    have "endpoint_send E = Some xbee_endpoint_send" using assms(1) by (simp add: serves_def)
    then obtain fl where s: "xbee_endpoint_send renv fl (link d1) = (x, link d')"
      using 2(4) by (auto simp: wpan_envelope_send_def Let_def split: prod.splits)
    obtain k x' where "xbee_endpoint_send renv fl (link d1) = (0, x')" "os_tx (serport x') = os_tx (serport (link d1)) @
        wire (transmit_header k renv (if fl AND 1 \<noteq> 0 then 0x20 else 0) @ env_payload renv)"
      using endpoint_send_wire[of "link d1" renv fl] assms(3,4) 2(2,3) r(2) f(1) by auto
    then show ?thesis using s 2(2,3) r(3) f
      by (intro disjI2 exI[of _ k] exI[of _ "if fl AND 1 \<noteq> 0 then 0x20 else 0"] exI[of _ "env_payload renv"])
        (simp add: transmit_header_def)
  qed simp
qed

section \<open>Encryption\<close>

lemma default_response_state: "zcl_default_response E cmd st d = (x, d') \<Longrightarrow> vars d' = vars d \<and> ep_states d' = ep_states d"
  by (auto simp: zcl_default_response_def zcl_send_response_def wpan_envelope_send_def Let_def split: if_splits option.splits prod.splits)

text \<open>The clusters whose flags ask for encryption, of all frames or of those that are not broadcast; other protocols than the cluster library are exempt.\<close>

definition needs_encryption :: "bool \<Rightarrow> wpan_cluster_table_entry_t \<Rightarrow> bool" where
  "needs_encryption unicast c \<longleftrightarrow> clust_flags c AND WPAN_CLUST_FLAG_NOT_ZCL = 0 \<and>
     (clust_flags c AND WPAN_CLUST_FLAG_ENCRYPT \<noteq> 0 \<or> clust_flags c AND WPAN_CLUST_FLAG_ENCRYPT_UNICAST \<noteq> 0 \<and> unicast)"

text \<open>A handler that only clusters of this kind have, and the handler of an endpoint for which the cluster \<open>k\<close> is of this kind.\<close>

definition locked_handler :: "bool \<Rightarrow> ('v, 's) aps \<Rightarrow> nat \<Rightarrow> bool" where
  "locked_handler unicast d h \<longleftrightarrow>
     (\<forall>i ep k c. ep_entry d i = Some ep \<and> wpan_cluster_match k WPAN_CLUST_FLAG_INOUT (cluster_table ep) = Some (Some c) \<and>
        clust_handler c = Some h \<longrightarrow> needs_encryption unicast c)"

definition locked_endpoint :: "bool \<Rightarrow> ('v, 's) aps \<Rightarrow> nat \<Rightarrow> u16 \<Rightarrow> bool" where
  "locked_endpoint unicast d h k \<longleftrightarrow>
     (\<forall>i ep. ep_entry d i = Some ep \<and> ep_handler ep = Some h \<longrightarrow>
        (\<exists>c. wpan_cluster_match k WPAN_CLUST_FLAG_INOUT (cluster_table ep) = Some (Some c) \<and> needs_encryption unicast c))"

text \<open>The same application, but for what those handlers do.\<close>

definition change_locked ::
  "bool \<Rightarrow> ('v, 's) aps_env \<Rightarrow> (nat \<Rightarrow> wpan_envelope_t \<Rightarrow> nat \<Rightarrow> ('v, 's) aps \<Rightarrow> (int \<times> ('v, 's) aps) option) \<Rightarrow>
   (nat \<Rightarrow> wpan_envelope_t \<Rightarrow> nat option \<Rightarrow> ('v, 's) aps \<Rightarrow> (int \<times> ('v, 's) aps) option) \<Rightarrow> ('v, 's) aps_env" where
  "change_locked unicast E F G = E\<lparr>
     clust_fn := (\<lambda>h env x d. if locked_handler unicast d h then F h env x d else clust_fn E h env x d),
     ep_fn := (\<lambda>h env x d. if locked_endpoint unicast d h (cluster_id env) then G h env x d else ep_fn E h env x d)\<rparr>"

lemma change_locked_calls:
  "zcl_invalid_cluster (change_locked u E F G) = zcl_invalid_cluster E"
  "wpan_endpoint_get_next (change_locked u E F G) = wpan_endpoint_get_next E"
  "wpan_endpoint_match (change_locked u E F G) = wpan_endpoint_match E"
proof -
  have "wpan_envelope_send (change_locked u E F G) = wpan_envelope_send E" by (simp add: wpan_envelope_send_def change_locked_def fun_eq_iff)
  then have r: "zcl_default_response (change_locked u E F G) = zcl_default_response E"
    by (simp add: zcl_default_response_def zcl_send_response_def fun_eq_iff)
  show "zcl_invalid_cluster (change_locked u E F G) = zcl_invalid_cluster E"
    by (intro ext, unfold zcl_invalid_cluster_def r, rule refl)
  show n: "wpan_endpoint_get_next (change_locked u E F G) = wpan_endpoint_get_next E"
    by (intro ext) (simp add: wpan_endpoint_get_next_def change_locked_def)
  have "endpoint_search k (change_locked u E F G) d P ep = endpoint_search k E d P ep" for k d P ep
    by (induction k arbitrary: ep) (auto simp: n split: Option.bind_split option.split)
  then show "wpan_endpoint_match (change_locked u E F G) = wpan_endpoint_match E" by (intro ext) (simp add: wpan_endpoint_match_def)
qed

text \<open>A frame that was not encrypted; the two bits stay as they are.\<close>

definition plain_frame :: "bool \<Rightarrow> wpan_envelope_t \<Rightarrow> bool" where
  "plain_frame unicast env \<longleftrightarrow> \<not> bit (env_options env) 10 \<and> unicast = (\<not> bit (env_options env) 8)"

lemma plain_frame_bits:
  "plain_frame u env \<longleftrightarrow> env_options env AND WPAN_ENVELOPE_RX_APS_ENCRYPT = 0 \<and> u = (env_options env AND WPAN_ENVELOPE_BROADCAST_ADDR = 0)"
  using and_exp_eq_0_iff_not_bit[of "env_options env" 10] and_exp_eq_0_iff_not_bit[of "env_options env" 8] by (simp add: plain_frame_def)

lemma plain_frame_flags:
  "plain_frame u (env\<lparr>env_options := env_options env OR ucast (fl :: u8)\<rparr>) = plain_frame u env"
  "plain_frame u (env\<lparr>dest_endpoint := e, env_options := env_options env AND NOT WPAN_ENVELOPE_CLUSTER_FLAGS\<rparr>) = plain_frame u env"
  "plain_frame u (env\<lparr>env_options := env_options env OR WPAN_ENVELOPE_BROADCAST_EP\<rparr>) = plain_frame u env"
  by (auto simp: plain_frame_def bit_simps bit_numeral_rec dest: bit_imp_le_length)

lemma dispatch_locked:
  assumes "plain_frame u env"
  shows "wpan_endpoint_dispatch (change_locked u E F G) env i d = wpan_endpoint_dispatch E env i d"
    "wpan_endpoint_dispatch E env i d = Some (r, env', d') \<Longrightarrow> plain_frame u env'"
proof -
  show "plain_frame u env'" if "wpan_endpoint_dispatch E env i d = Some (r, env', d')"
    using that assms by (auto simp: wpan_endpoint_dispatch_def Let_def plain_frame_flags split: Option.bind_splits option.splits if_splits)
  show "wpan_endpoint_dispatch (change_locked u E F G) env i d = wpan_endpoint_dispatch E env i d"
  proof (cases "ep_entry d i")
    case (Some ep)
    show ?thesis
    proof (cases "wpan_cluster_match (cluster_id env) 3 (cluster_table ep)")
      case match: (Some m)
      have free: "\<not> locked_endpoint u d h (cluster_id env)" if "ep_handler ep = Some h" "\<And>c. m = Some c \<Longrightarrow> \<not> needs_encryption u c" for h
        unfolding locked_endpoint_def using Some match that by fastforce
      show ?thesis
      proof (cases m)
        case None
        then show ?thesis using Some match free
          by (auto simp: wpan_endpoint_dispatch_def change_locked_def Let_def split: option.splits)
      next
        case (Some c)
        have open_h: "\<not> locked_handler u d h" if "clust_handler c = Some h" "\<not> needs_encryption u c" for h
          unfolding locked_handler_def using \<open>ep_entry d i = Some ep\<close> match Some that by blast
        have gate: "env_options env AND 0x0400 = 0 \<and> clust_flags c AND 0x80 = 0 \<and>
            (clust_flags c AND 0x10 \<noteq> 0 \<or> clust_flags c AND 0x20 \<noteq> 0 \<and> env_options env AND 0x0100 = 0) \<longleftrightarrow> needs_encryption u c"
          using assms by (auto simp: plain_frame_bits needs_encryption_def)
        show ?thesis
        proof (cases "needs_encryption u c")
          case True
          then show ?thesis
            unfolding wpan_endpoint_dispatch_def \<open>ep_entry d i = Some ep\<close> bind.bind_lunit Let_def match Some option.case gate
            by (simp only: if_True change_locked_calls)
        next
          case False
          then show ?thesis using Some free open_h
            unfolding wpan_endpoint_dispatch_def \<open>ep_entry d i = Some ep\<close> bind.bind_lunit Let_def match Some option.case gate
            by (auto simp: change_locked_def split: option.splits)
        qed
      qed
    qed (simp add: wpan_endpoint_dispatch_def Some)
  qed (simp add: wpan_endpoint_dispatch_def)
qed

lemma broadcast_locked:
  "plain_frame u env \<Longrightarrow> broadcast_walk n (change_locked u E F G) env ep retval d = broadcast_walk n E env ep retval d"
proof (induction n arbitrary: env ep retval d)
  case (Suc n)
  have "wpan_endpoint_dispatch (change_locked u E F G) (env\<lparr>dest_endpoint := e, env_options := env_options env AND NOT WPAN_ENVELOPE_CLUSTER_FLAGS\<rparr>) i d \<bind>
      (\<lambda>(r, env, d). broadcast_walk n (change_locked u E F G) env (Some i) (if r = 0 then 0 else retval) d) =
    wpan_endpoint_dispatch E (env\<lparr>dest_endpoint := e, env_options := env_options env AND NOT WPAN_ENVELOPE_CLUSTER_FLAGS\<rparr>) i d \<bind>
      (\<lambda>(r, env, d). broadcast_walk n E env (Some i) (if r = 0 then 0 else retval) d)" for e i
  proof -
    define env1 where "env1 = env\<lparr>dest_endpoint := e, env_options := env_options env AND NOT WPAN_ENVELOPE_CLUSTER_FLAGS\<rparr>"
    have p: "plain_frame u env1" using Suc.prems plain_frame_flags(2) by (simp add: env1_def)
    show ?thesis unfolding env1_def[symmetric] dispatch_locked(1)[OF p]
      using dispatch_locked(2)[OF p, of E i d] Suc.IH by (cases "wpan_endpoint_dispatch E env1 i d") auto
  qed
  then show ?case using Suc.IH[OF Suc.prems]
    by (auto simp: change_locked_calls split: Option.bind_split option.split)
qed simp

lemma receive_locked:
  assumes "length addr = 8" "length p < 65000" "opts AND 0x20 = 0" "f = receive_frame addr net src dst cluster profile opts p"
  shows "xbee_handle_receive_explicit (change_locked (opts AND 2 = 0) E F G) (Some f) (of_nat (length f)) d =
    xbee_handle_receive_explicit E (Some f) (of_nat (length f)) d"
proof -
  let ?env = "explicit_envelope f (of_nat (length f))"
  note env = receive_frame_envelope[OF assms(1,4,2)]
  have p: "plain_frame (opts AND 2 = 0) ?env" using assms(3) by (simp add: plain_frame_bits env(1))
  have "wpan_envelope_dispatch (change_locked (opts AND 2 = 0) E F G) ?env d = wpan_envelope_dispatch E ?env d"
    unfolding wpan_envelope_dispatch_def change_locked_calls dispatch_locked(1)[OF p]
      broadcast_locked[OF plain_frame_flags(3)[THEN iffD2, OF p]] by (rule refl)
  then show ?thesis by (simp add: xbee_handle_receive_explicit_def)
qed

lemma unencrypted_invalid_cluster:
  assumes "table_of_eps E d es" "find (\<lambda>i. ep_matches dst profile (es ! i)) [0..<length es] = Some i" "dst \<noteq> 0xFF"
    "wpan_cluster_match cluster 3 (cluster_table (es ! i)) = Some (Some c)" "needs_encryption (opts AND 2 = 0) c"
    "length addr = 8" "length p < 65000" "opts AND 0x20 = 0" "f = receive_frame addr net src dst cluster profile opts p"
  shows "xbee_handle_receive_explicit E (Some f) (of_nat (length f)) d = zcl_invalid_cluster E (explicit_envelope f (of_nat (length f))) d"
proof -
  let ?env = "explicit_envelope f (of_nat (length f))"
  note env = receive_frame_envelope[OF assms(6,9,7)]
  have i: "i < length es" using assms(2) by (auto simp: find_Some_iff)
  have opt: "env_options ?env AND 0x0400 = 0" "(env_options ?env AND 0x0100 = 0) = (opts AND 2 = 0)" using assms(8) by (simp_all add: env(1))
  have "wpan_endpoint_match E d dst profile = Some (Some i)" using endpoint_match_first[OF assms(1)] assms(2) by simp
  moreover have "wpan_endpoint_dispatch E ?env i d = map_option (\<lambda>(r, d). (r, ?env, d)) (zcl_invalid_cluster E ?env d)"
    using assms(4,5) opt env(1) by (simp add: wpan_endpoint_dispatch_def get_next_table(3)[OF assms(1) i] needs_encryption_def)
  ultimately show ?thesis
    using assms(3) env by (cases "zcl_invalid_cluster E ?env d") (auto simp: xbee_handle_receive_explicit_def wpan_envelope_dispatch_def)
qed

text \<open>
  C14: a cluster of the cluster library that requires encryption does not see frames without. A frame arrives that was not encrypted, for one endpoint or for
  all. What the handlers of clusters do whose flags ask for encryption, and the handlers of endpoints for such clusters, does not
  matter to what happens: they are not called. If the frame is for one endpoint and such a cluster, it changes neither the variables of the application
  nor the conversations. Clusters with the flag for other protocols (\<open>NOT_ZCL\<close>) are exempt, as in the code.
\<close>

theorem unencrypted_frame_refused:
  assumes "length addr = 8" "length p < 65000" "opts AND XBEE_RX_OPT_APS_ENCRYPT = 0"
    "f = receive_frame addr net src dst cluster profile opts p" "unicast \<longleftrightarrow> opts AND XBEE_RX_OPT_BROADCAST = 0"
  shows "xbee_handle_receive_explicit (change_locked unicast E F G) (Some f) (of_nat (length f)) d =
      xbee_handle_receive_explicit E (Some f) (of_nat (length f)) d \<and>
    (\<forall>es i c x d'. table_of_eps E d es \<and> find (\<lambda>i. ep_matches dst profile (es ! i)) [0..<length es] = Some i \<and> dst \<noteq> WPAN_ENDPOINT_BROADCAST \<and>
       wpan_cluster_match cluster WPAN_CLUST_FLAG_INOUT (cluster_table (es ! i)) = Some (Some c) \<and> needs_encryption unicast c \<and>
       xbee_handle_receive_explicit E (Some f) (of_nat (length f)) d = Some (x, d') \<longrightarrow>
       vars d' = vars d \<and> ep_states d' = ep_states d)"
proof (intro conjI allI impI)
  show "xbee_handle_receive_explicit (change_locked unicast E F G) (Some f) (of_nat (length f)) d =
      xbee_handle_receive_explicit E (Some f) (of_nat (length f)) d"
    unfolding assms(5) by (rule receive_locked[OF assms(1-4)])
next
  fix es i c x d'
  assume *: "table_of_eps E d es \<and> find (\<lambda>i. ep_matches dst profile (es ! i)) [0..<length es] = Some i \<and> dst \<noteq> WPAN_ENDPOINT_BROADCAST \<and>
       wpan_cluster_match cluster WPAN_CLUST_FLAG_INOUT (cluster_table (es ! i)) = Some (Some c) \<and> needs_encryption unicast c \<and>
       xbee_handle_receive_explicit E (Some f) (of_nat (length f)) d = Some (x, d')"
  then have "zcl_invalid_cluster E (explicit_envelope f (of_nat (length f))) d = Some (x, d')"
    using unencrypted_invalid_cluster[of E d es dst profile i cluster c opts addr p f net src] assms by simp
  then show "vars d' = vars d" "ep_states d' = ep_states d"
    by (auto simp: zcl_invalid_cluster_def split: Option.bind_splits sum.splits dest: default_response_state)
qed

text \<open>A cluster with both flags, as the ones of \<open>ota_server.h\<close>, gets frames that were not encrypted.\<close>

lemma unencrypted_not_zcl_delivered:
  assumes "table_of_eps E d es" "find (\<lambda>i. ep_matches dst profile (es ! i)) [0..<length es] = Some i" "dst \<noteq> 0xFF"
    "wpan_cluster_match (cluster_id env) 3 (cluster_table (es ! i)) = Some (Some c)" "clust_flags c AND WPAN_CLUST_FLAG_NOT_ZCL \<noteq> 0"
    "clust_handler c = Some h" "dest_endpoint env = dst" "profile_id env = profile"
  shows "wpan_envelope_dispatch E env d = clust_fn E h (env\<lparr>env_options := env_options env OR ucast (clust_flags c)\<rparr>) (clust_context c) d"
proof -
  have i: "i < length es" using assms(2) by (auto simp: find_Some_iff)
  have "wpan_endpoint_match E d dst profile = Some (Some i)" using endpoint_match_first[OF assms(1)] assms(2) by simp
  then show ?thesis using assms(3-)
    by (cases "clust_fn E h (env\<lparr>env_options := env_options env OR ucast (clust_flags c)\<rparr>) (clust_context c) d")
      (auto simp: wpan_envelope_dispatch_def wpan_endpoint_dispatch_def get_next_table(3)[OF assms(1) i] Let_def)
qed

section \<open>A witness\<close>

lemma endpoint_search_clust: "endpoint_search n (E\<lparr>clust_fn := f\<rparr>) d P ep = endpoint_search n E d P ep"
  by (induction n arbitrary: ep) (auto simp: wpan_endpoint_get_next_def split: Option.bind_split option.split)

lemma general_command_clust: "zcl_general_command (E\<lparr>clust_fn := f\<rparr>) Z env tree d = zcl_general_command E Z env tree d"
proof -
  have "wpan_envelope_send (E\<lparr>clust_fn := f\<rparr>) = wpan_envelope_send E" by (simp add: wpan_envelope_send_def fun_eq_iff)
  then have s: "zcl_send_response (E\<lparr>clust_fn := f\<rparr>) = zcl_send_response E" by (simp add: zcl_send_response_def fun_eq_iff)
  then have r: "zcl_default_response (E\<lparr>clust_fn := f\<rparr>) = zcl_default_response E" by (simp add: zcl_default_response_def fun_eq_iff)
  have "wpan_endpoint_match (E\<lparr>clust_fn := f\<rparr>) = wpan_endpoint_match E"
    by (simp add: wpan_endpoint_match_def fun_eq_iff endpoint_search_clust)
  then have c: "wpan_conversation_response (E\<lparr>clust_fn := f\<rparr>) = wpan_conversation_response E"
    by (intro ext) (simp add: wpan_conversation_response_def cong: option.case_cong)
  have "zcl_invalid_command (E\<lparr>clust_fn := f\<rparr>) = zcl_invalid_command E" "zcl_discover_attributes (E\<lparr>clust_fn := f\<rparr>) = zcl_discover_attributes E"
      "zcl_read_attributes (E\<lparr>clust_fn := f\<rparr>) = zcl_read_attributes E" "zcl_write_attributes (E\<lparr>clust_fn := f\<rparr>) = zcl_write_attributes E"
    by (intro ext; unfold zcl_invalid_command_def zcl_discover_attributes_def zcl_read_attributes_def zcl_write_attributes_def s r; rule refl)+
  then show ?thesis unfolding zcl_general_command_def c by presburger
qed

text \<open>A device whose endpoint 1 has the cluster 6 with one attribute, on the port of the frame layer.\<close>

definition wire_dev :: "(unit, bytes list xbee_dev_t) zdev" where
  "wire_dev = \<lparr>ep_table = Some
      [\<lparr>endpoint = 1, ep_profile_id = 0x0104, ep_handler = None, ep_state = None, device_id = 0, device_version = 0,
        cluster_table = Some [\<lparr>clust_id = 6, clust_handler = Some 0, clust_context = 0, clust_flags = 2\<rparr>]\<rparr>,
       \<lparr>endpoint = 0xFF, ep_profile_id = 0, ep_handler = None, ep_state = None, device_id = 0, device_version = 0, cluster_table = None\<rparr>],
     ep_states = (\<lambda>_. \<lparr>last_transaction = 0, conversations = []\<rparr>),
     vars = \<lparr>objs = (\<lambda>i. if i = 0 then [7] else []), arrays = (\<lambda>_. None), structs = (\<lambda>_. None), zuser = ()\<rparr>, link = demo_dev []\<rparr>"

definition wire_env :: "(unit zcl_vars, bytes list xbee_dev_t) aps_env" where
  "wire_env = \<lparr>aps_now = 0, endpoint_send = Some xbee_endpoint_send, dev_tick = None, endpoint_get_next = None,
     clust_fn = (\<lambda>_ _ _ d. Some (0, d)), ep_fn = (\<lambda>_ _ _ d. Some (0, d)), conv_fn = (\<lambda>_ _ _ d. (1, d))\<rparr>"

definition wire_app :: "(unit zcl_vars, bytes list xbee_dev_t) aps_env" where
  "wire_app = wire_env\<lparr>clust_fn := (\<lambda>_ env _ d. zcl_general_command wire_env default_fns env (Some demo_tree) d)\<rparr>"

lemma wire_serves: "serves wire_app default_fns (Some demo_tree) 1 6 0x0104 wire_dev"
proof -
  define c :: wpan_cluster_table_entry_t where "c = \<lparr>clust_id = 6, clust_handler = Some 0, clust_context = 0, clust_flags = 2\<rparr>"
  define es :: "wpan_endpoint_table_entry_t list" where
    "es = [\<lparr>endpoint = 1, ep_profile_id = 0x0104, ep_handler = None, ep_state = None, device_id = 0, device_version = 0, cluster_table = Some [c]\<rparr>]"
  have "table_of_eps wire_app wire_dev es" by (simp add: table_of_eps_def wire_app_def wire_env_def wire_dev_def es_def c_def)
  moreover have "find (\<lambda>i. ep_matches 1 0x0104 (es ! i)) [0..<length es] = Some 0" by (simp add: ep_matches_def es_def)
  moreover have "wpan_cluster_match 6 3 (cluster_table (es ! 0)) = Some (Some c)" by (simp add: wpan_cluster_match_def es_def c_def)
  moreover have "clust_fn wire_app 0 env (clust_context c) d = zcl_general_command wire_app default_fns env (Some demo_tree) d" for env d
    unfolding wire_app_def general_command_clust by simp
  moreover have "clust_flags c AND 0x30 = 0" "clust_handler c = Some 0" by (simp_all add: c_def)
  moreover have "endpoint_send wire_app = Some xbee_endpoint_send" by (simp add: wire_app_def wire_env_def)
  ultimately show ?thesis unfolding serves_def by fastforce
qed

lemma wire_request_handled:
  "xbee_handle_receive_explicit wire_app (Some (receive_frame [1, 2, 3, 4, 5, 6, 7, 8] 0x1234 2 1 6 0x0104 1 [0, 9, 0, 5, 0])) 23 wire_dev \<noteq> None"
proof -
  let ?f = "receive_frame [1, 2, 3, 4, 5, 6, 7, 8] 0x1234 2 1 6 0x0104 1 [0, 9, 0, 5, 0]"
  have l: "length ?f = 23" by (simp add: receive_frame_def be16_bytes_def)
  define env where "env = explicit_envelope ?f 23"
  have e: "env_payload env = [0, 9, 0, 5, 0]" "env_length env = 5" "dest_endpoint env = 1" "cluster_id env = 6" "profile_id env = 0x0104"
    using receive_frame_envelope(1)[of "[1, 2, 3, 4, 5, 6, 7, 8]" ?f, OF _ refl] by (simp_all add: env_def l)
  obtain fl where g: "wpan_envelope_dispatch wire_app env wire_dev =
      zcl_general_command wire_app default_fns (env\<lparr>env_options := env_options env OR fl\<rparr>) (Some demo_tree) wire_dev"
    using dispatch_serves[OF wire_serves e(3-5)] by blast
  obtain cmd where c: "zcl_command_build (env\<lparr>env_options := env_options env OR fl\<rparr>) (Some demo_tree) = Some (Inr cmd)" "command cmd = 0"
      "frame_control cmd = 0" "attributes cmd = Some Zcl_Write.demo_table" "zcl_payload cmd = [5, 0]" "cmd_length cmd = 2"
    by (simp add: zcl_command_build_def nth_opt_def demo_tree_def e)
  have v: "encode_value (Suc k) wire_dev False 76 0x20 (Some (0, 0)) = Some (Inr [7])" for k
    by (simp add: demo_sizeof encode_scalar_def var_load_def wire_dev_def)
  have "zcl_encode_attribute_value default_fns 76 demo_attr wire_dev = Some (Inr [7], wire_dev)"
    using v[of 76] by (simp add: zcl_encode_attribute_value_def demo_attr_def del: encode_value.simps)
  then have a: "answer default_fns [demo_attr] [5] wire_dev = Some ([5, 0, 0, 0x20, 7], wire_dev)"
    by (simp add: answer_record_def le16_put_def) (simp add: demo_attr_def)
  have "read_loop default_fns (Some Zcl_Write.demo_table) 1 [5, 0] [] wire_dev = Some ([5, 0, 0, 0x20, 7], wire_dev)"
    using read_loop_answer[OF demo_attr_table _ _ a, of "[]" "[]"] by (simp add: le16_put_def demo_attr_def)
  then have "zcl_read_attributes wire_app default_fns cmd wire_dev \<noteq> None" using c by (simp add: zcl_read_attributes_def)
  then show ?thesis
    using g c(1-3) l by (simp add: xbee_handle_receive_explicit_def env_def[symmetric] zcl_general_command_def)
qed

theorem request_answered_on_wire_witness:
  "\<exists>x d'. xbee_handle_receive_explicit wire_app (Some (receive_frame [1, 2, 3, 4, 5, 6, 7, 8] 0x1234 2 1 6 0x0104 1 [0, 9, 0, 5, 0])) 23 wire_dev = Some (x, d') \<and>
     (link d' = link wire_dev \<or> (\<exists>k topts body. x = 0 \<and> length body \<le> 85 \<and> body ! 1 = 9 \<and>
       os_tx (serport (link d')) = wire ([0x11, k] @ [1, 2, 3, 4, 5, 6, 7, 8] @ be16_bytes 0x1234 @ [1, 2] @ be16_bytes 6 @ be16_bytes 0x0104 @ [0, topts] @ body)))"
proof -
  let ?f = "receive_frame [1, 2, 3, 4, 5, 6, 7, 8] 0x1234 2 1 6 0x0104 1 [0, 9, 0, 5, 0]"
  have l: "length ?f = 23" by (simp add: receive_frame_def be16_bytes_def)
  obtain cmd where c: "zcl_command_build (explicit_envelope ?f (of_nat (length ?f))) (Some demo_tree) = Some (Inr cmd)" "command cmd = 0"
    "sequence cmd = 9" "frame_control cmd = 0"
    unfolding receive_frame_envelope(1)[OF _ refl, of "[1, 2, 3, 4, 5, 6, 7, 8]" "[0, 9, 0, 5, 0]", simplified]
    by (simp add: zcl_command_build_def nth_opt_def demo_tree_def)
  obtain x d' where x: "xbee_handle_receive_explicit wire_app (Some ?f) 23 wire_dev = Some (x, d')"
    using wire_request_handled by (cases "xbee_handle_receive_explicit wire_app (Some ?f) 23 wire_dev") auto
  have cs: "can_send (link wire_dev)" "os_tx (serport (link wire_dev)) = []" using demo_can_send by (simp_all add: wire_dev_def demo_dev_ok)
  from request_answered_on_wire[OF wire_serves default.attr_functions_axioms cs(1) _ _ refl c(1) _, of x d'] x c cs(2) l
  show ?thesis by auto
qed

text \<open>The same device with a cluster 7 that requires encryption.\<close>

definition locked_dev :: "(unit, bytes list xbee_dev_t) zdev" where
  "locked_dev = wire_dev\<lparr>ep_table := Some
      [\<lparr>endpoint = 1, ep_profile_id = 0x0104, ep_handler = None, ep_state = None, device_id = 0, device_version = 0,
        cluster_table = Some [\<lparr>clust_id = 7, clust_handler = Some 0, clust_context = 0, clust_flags = 0x12\<rparr>]\<rparr>,
       \<lparr>endpoint = 0xFF, ep_profile_id = 0, ep_handler = None, ep_state = None, device_id = 0, device_version = 0, cluster_table = None\<rparr>]\<rparr>"

theorem unencrypted_frame_refused_witness:
  "let f = receive_frame [1, 2, 3, 4, 5, 6, 7, 8] 0x1234 2 1 7 0x0104 1 [0, 9, 0, 5, 0] in
   \<exists>x d'. xbee_handle_receive_explicit wire_app (Some f) (of_nat (length f)) locked_dev = Some (x, d') \<and> vars d' = vars locked_dev \<and>
     xbee_handle_receive_explicit (change_locked True wire_app (\<lambda>_ _ _ _. None) (\<lambda>_ _ _ _. None)) (Some f) (of_nat (length f)) locked_dev = Some (x, d')"
proof -
  define f where "f = receive_frame [1, 2, 3, 4, 5, 6, 7, 8] 0x1234 2 1 7 0x0104 1 [0, 9, 0, 5, 0]"
  define c :: wpan_cluster_table_entry_t where "c = \<lparr>clust_id = 7, clust_handler = Some 0, clust_context = 0, clust_flags = 0x12\<rparr>"
  define es :: "wpan_endpoint_table_entry_t list" where
    "es = [\<lparr>endpoint = 1, ep_profile_id = 0x0104, ep_handler = None, ep_state = None, device_id = 0, device_version = 0, cluster_table = Some [c]\<rparr>]"
  have t: "table_of_eps wire_app locked_dev es" by (simp add: table_of_eps_def wire_app_def wire_env_def locked_dev_def es_def c_def)
  have m: "find (\<lambda>i. ep_matches 1 0x0104 (es ! i)) [0..<length es] = Some 0" by (simp add: ep_matches_def es_def)
  have cl: "wpan_cluster_match 7 3 (cluster_table (es ! 0)) = Some (Some c)" "needs_encryption u c" for u
    by (simp_all add: wpan_cluster_match_def needs_encryption_def es_def c_def)
  have "env_payload (explicit_envelope f (of_nat (length f))) = [0, 9, 0, 5, 0]" "env_length (explicit_envelope f (of_nat (length f))) = 5"
    using receive_frame_envelope(1)[OF _ f_def] by simp_all
  then have "zcl_invalid_cluster wire_app (explicit_envelope f (of_nat (length f))) locked_dev \<noteq> None"
    by (simp add: zcl_invalid_cluster_def zcl_command_build_def nth_opt_def)
  then obtain x d' where x: "xbee_handle_receive_explicit wire_app (Some f) (of_nat (length f)) locked_dev = Some (x, d')"
    using unencrypted_invalid_cluster[OF t m _ cl _ _ _ f_def] by auto
  show ?thesis
    using unencrypted_frame_refused[where E = wire_app and d = locked_dev and unicast = True, OF _ _ _ f_def] t m cl x
    unfolding f_def[symmetric] Let_def by fastforce
qed

end
