(* ===== verification/Xbee_Xmodem.thy ===== *)
theory Xbee_Xmodem
  imports Util Xbee_Serial
begin

text \<open>
  \<open>src/Software/lib/XBee/src/xbee/xbee_xmodem.c\<close>: the sending side of the XMODEM protocol,
  used to update the firmware of an XBee module. The functions that read the file and talk to
  the target are supplied by the caller and kept in the state with their contexts; those for a
  serial port are the ones of the library. One call of \<open>xbee_xmodem_tx_tick\<close> makes at most one
  step of the protocol; the value of the millisecond timer during the call is an argument.
\<close>

section \<open>State\<close>

datatype xbee_xmodem_state =
    XBEE_XMODEM_STATE_FLUSH | XBEE_XMODEM_STATE_START | XBEE_XMODEM_STATE_SEND
  | XBEE_XMODEM_STATE_RESEND | XBEE_XMODEM_STATE_SENDING | XBEE_XMODEM_STATE_WAIT_ACK
  | XBEE_XMODEM_STATE_EOF | XBEE_XMODEM_STATE_FINAL_ACK | XBEE_XMODEM_STATE_SUCCESS
  | XBEE_XMODEM_STATE_FAILURE

abbreviation (input) XMODEM_NAK :: int where "XMODEM_NAK \<equiv> 0x15"
abbreviation (input) XMODEM_CRC :: int where "XMODEM_CRC \<equiv> 0x43"
abbreviation (input) XMODEM_ACK :: int where "XMODEM_ACK \<equiv> 0x06"
abbreviation (input) XMODEM_SOH :: u8 where "XMODEM_SOH \<equiv> 0x01"
abbreviation (input) XMODEM_STX :: u8 where "XMODEM_STX \<equiv> 0x02"
abbreviation (input) XMODEM_CAN :: u8 where "XMODEM_CAN \<equiv> 0x18"
abbreviation (input) XMODEM_EOT :: u8 where "XMODEM_EOT \<equiv> 0x04"

abbreviation (input) XBEE_XMODEM_FLAG_CHECKSUM :: u16 where "XBEE_XMODEM_FLAG_CHECKSUM \<equiv> 0x0001"
abbreviation (input) XBEE_XMODEM_FLAG_CRC :: u16 where "XBEE_XMODEM_FLAG_CRC \<equiv> 0x0002"
abbreviation (input) XBEE_XMODEM_FLAG_FORCE_CRC :: u16 where "XBEE_XMODEM_FLAG_FORCE_CRC \<equiv> 0x0008"
abbreviation (input) XBEE_XMODEM_MASK_BLOCKSIZE :: u16 where "XBEE_XMODEM_MASK_BLOCKSIZE \<equiv> 0x0300"
abbreviation (input) XBEE_XMODEM_FLAG_64 :: u16 where "XBEE_XMODEM_FLAG_64 \<equiv> 0x0100"
abbreviation (input) XBEE_XMODEM_FLAG_1K :: u16 where "XBEE_XMODEM_FLAG_1K \<equiv> 0x0200"
abbreviation (input) XBEE_XMODEM_FLAG_USER :: u16 where "XBEE_XMODEM_FLAG_USER \<equiv> 0x0308"

text \<open>
  A read function gets its context and a number of bytes and returns a result, the bytes stored
  at the start of the buffer and the context after the call.
\<close>

type_synonym 'c xbee_xmodem_read_fn = "'c \<Rightarrow> int \<Rightarrow> int \<times> bytes \<times> 'c"
type_synonym 'c xbee_xmodem_write_fn = "'c \<Rightarrow> bytes \<Rightarrow> int \<Rightarrow> int \<times> 'c"

record ('f, 's) xbee_xmodem_state_t =
  xm_flags :: u16
  packet_num :: u16
  timer :: u16
  xm_state :: xbee_xmodem_state
  tries :: u8
  offset :: int
  buffer :: "bytes option"
  file_read :: "'f xbee_xmodem_read_fn"
  file_context :: 'f
  stream_read :: "'s xbee_xmodem_read_fn"
  stream_write :: "'s xbee_xmodem_write_fn"
  stream_context :: 's

section \<open>Set-up\<close>

text \<open>\<open>None\<close> is the null pointer.\<close>

definition xbee_xmodem_set_stream ::
  "('f, 's) xbee_xmodem_state_t \<Rightarrow> 's xbee_xmodem_read_fn option \<Rightarrow> 's xbee_xmodem_write_fn option \<Rightarrow> 's \<Rightarrow>
   int \<times> ('f, 's) xbee_xmodem_state_t" where
  "xbee_xmodem_set_stream m rd wr ctx =
     (if rd = None \<or> wr = None then (- EINVAL, m)
      else (0, m\<lparr>stream_read := the rd, stream_write := the wr, stream_context := ctx\<rparr>))"

definition xbee_xmodem_ser_read :: "xbee_serial_t xbee_xmodem_read_fn" where
  "xbee_xmodem_ser_read ctx bytes = xbee_ser_read ctx bytes"

definition xbee_xmodem_ser_write :: "xbee_serial_t xbee_xmodem_write_fn" where
  "xbee_xmodem_ser_write ctx buf bytes = xbee_ser_write ctx buf bytes"

definition xbee_xmodem_use_serport ::
  "('f, xbee_serial_t) xbee_xmodem_state_t \<Rightarrow> xbee_serial_t \<Rightarrow> int \<times> ('f, xbee_serial_t) xbee_xmodem_state_t" where
  "xbee_xmodem_use_serport m ser =
     xbee_xmodem_set_stream m (Some xbee_xmodem_ser_read) (Some xbee_xmodem_ser_write) ser"

definition xbee_xmodem_set_source ::
  "('f, 's) xbee_xmodem_state_t \<Rightarrow> bytes option \<Rightarrow> 'f xbee_xmodem_read_fn option \<Rightarrow> 'f \<Rightarrow>
   int \<times> ('f, 's) xbee_xmodem_state_t" where
  "xbee_xmodem_set_source m buf rd ctx =
     (if buf = None \<or> rd = None then (- EINVAL, m)
      else (0, m\<lparr>buffer := buf, file_read := the rd, file_context := ctx\<rparr>))"

definition xbee_xmodem_tx_init :: "('f, 's) xbee_xmodem_state_t \<Rightarrow> u16 \<Rightarrow> int \<times> ('f, 's) xbee_xmodem_state_t" where
  "xbee_xmodem_tx_init m flags =
     (0, m\<lparr>xm_flags := flags AND XBEE_XMODEM_FLAG_USER, packet_num := 0, xm_state := XBEE_XMODEM_STATE_START\<rparr>)"

section \<open>Single bytes\<close>

definition xbee_xmodem_getchar :: "('f, 's) xbee_xmodem_state_t \<Rightarrow> int \<times> ('f, 's) xbee_xmodem_state_t" where
  "xbee_xmodem_getchar m =
     (let (retval, bs, c) = stream_read m (stream_context m) 1;
          m = m\<lparr>stream_context := c\<rparr>
      in if retval \<noteq> 1 then (if retval \<noteq> 0 then retval else - ENODATA, m) else (uint (hd bs), m))"

definition xbee_xmodem_putchar :: "('f, 's) xbee_xmodem_state_t \<Rightarrow> u8 \<Rightarrow> int \<times> ('f, 's) xbee_xmodem_state_t" where
  "xbee_xmodem_putchar m ch =
     (let (retval, c) = stream_write m (stream_context m) [ch] 1;
          m = m\<lparr>stream_context := c\<rparr>
      in if retval = 1 then (0, m) else if retval = 0 then (- ENOSPC, m) else (retval, m))"

section \<open>Packets\<close>

text \<open>
  The buffer is at least 5 bytes larger than a block. Reading one byte to see whether the file
  ends goes to a local variable and is not seen again.
\<close>

definition block_size :: "('f, 's) xbee_xmodem_state_t \<Rightarrow> nat" where
  "block_size m =
     (let f = xm_flags m AND XBEE_XMODEM_MASK_BLOCKSIZE in
      if f = XBEE_XMODEM_FLAG_64 then 64 else if f = XBEE_XMODEM_FLAG_1K then 1024 else 128)"

definition append_check :: "u16 \<Rightarrow> nat \<Rightarrow> bytes \<Rightarrow> bytes" where
  "append_check flags bsize buf =
     (let blk = take bsize (drop 3 buf) in
      if flags AND XBEE_XMODEM_FLAG_CRC \<noteq> 0 then
        let checksum = crc16_calc blk 0 in
        buf[3 + bsize := ucast (drop_bit 8 checksum), 4 + bsize := ucast (checksum AND 0x00FF)]
      else buf[3 + bsize := fold (\<lambda>p checksum. checksum + p) blk 0])"

definition assemble_packet :: "('f, 's) xbee_xmodem_state_t \<Rightarrow> nat \<Rightarrow> int \<times> ('f, 's) xbee_xmodem_state_t" where
  "assemble_packet m bsize =
     (let num = ucast (packet_num m) :: u8;
          start = (if xm_flags m AND XBEE_XMODEM_FLAG_1K \<noteq> 0 then XMODEM_STX else XMODEM_SOH);
          buf = (the (buffer m))[0 := start, 1 := num, 2 := NOT num];
          (err, bs, fc) = file_read m (file_context m) (int bsize);
          buf = buf_write buf 3 bs;
          m = m\<lparr>tries := 3, buffer := Some buf, file_context := fc\<rparr>
      in if err = - ENODATA \<or> err = 0 then (1, m\<lparr>xm_state := XBEE_XMODEM_STATE_EOF\<rparr>)
         else if err < 0 then (err, m)
         else if err < int bsize then
           let (one, _, fc) = file_read m (file_context m) 1;
               m = m\<lparr>file_context := fc\<rparr>
           in if one = 1 then (- EIO, m)
              else
                let buf = buf_write buf (3 + nat err) (replicate (bsize - nat err) 0xFF)
                in (0, m\<lparr>buffer := Some (append_check (xm_flags m) bsize buf)\<rparr>)
         else (0, m\<lparr>buffer := Some (append_check (xm_flags m) bsize buf)\<rparr>))"

section \<open>The state machine\<close>

text \<open>
  The loops that empty the receive side go on as long as the target's read function delivers;
  they are bounded by \<open>fuel\<close>, and \<open>None\<close> stands for a loop that has not ended.
\<close>

fun flush_stream :: "nat \<Rightarrow> ('f, 's) xbee_xmodem_state_t \<Rightarrow> ('f, 's) xbee_xmodem_state_t option" where
  "flush_stream 0 m = None"
| "flush_stream (Suc n) m =
     (let (r, bs, c) = stream_read m (stream_context m) 64;
          m = m\<lparr>stream_context := c, buffer := Some (buf_write (the (buffer m)) 0 bs)\<rparr>
      in if r > 0 then flush_stream n m else Some m)"

fun flush_chars :: "nat \<Rightarrow> ('f, 's) xbee_xmodem_state_t \<Rightarrow> ('f, 's) xbee_xmodem_state_t option" where
  "flush_chars 0 m = None"
| "flush_chars (Suc n) m =
     (let (ch, m) = xbee_xmodem_getchar m in
      if ch \<noteq> - ENODATA then flush_chars n m else Some m)"

definition tx_failure :: "('f, 's) xbee_xmodem_state_t \<Rightarrow> int \<Rightarrow> int \<times> ('f, 's) xbee_xmodem_state_t" where
  "tx_failure m err =
     (let (_, c) = stream_write m (stream_context m) [XMODEM_CAN, XMODEM_CAN] 2
      in (err, m\<lparr>stream_context := c, xm_state := XBEE_XMODEM_STATE_FAILURE\<rparr>))"

definition tx_sending :: "('f, 's) xbee_xmodem_state_t \<Rightarrow> u32 \<Rightarrow> int \<times> ('f, 's) xbee_xmodem_state_t" where
  "tx_sending m now =
     (let packet_size = int (block_size m) + (if xm_flags m AND XBEE_XMODEM_FLAG_CRC \<noteq> 0 then 5 else 4);
          (sent, c) = stream_write m (stream_context m) (drop (nat (offset m)) (the (buffer m)))
                        (packet_size - offset m);
          m = m\<lparr>stream_context := c\<rparr>
      in if sent < 0 then tx_failure m sent
         else
           let m = m\<lparr>offset := offset m + sent\<rparr> in
           (0, if offset m = packet_size
               then m\<lparr>xm_state := XBEE_XMODEM_STATE_WAIT_ACK, timer := ucast now\<rparr> else m))"

definition tx_resend :: "('f, 's) xbee_xmodem_state_t \<Rightarrow> u32 \<Rightarrow> int \<times> ('f, 's) xbee_xmodem_state_t" where
  "tx_resend m now = tx_sending (m\<lparr>offset := 0\<rparr>) now"

definition tx_send :: "nat \<Rightarrow> ('f, 's) xbee_xmodem_state_t \<Rightarrow> u32 \<Rightarrow> (int \<times> ('f, 's) xbee_xmodem_state_t) option" where
  "tx_send fuel m now =
     (let (retval, m) = assemble_packet m (block_size m) in
      if retval < 0 then Some (tx_failure m retval)
      else if retval > 0 then Some (0, m)
      else (case flush_chars fuel m of None \<Rightarrow> None | Some m \<Rightarrow> Some (tx_resend m now)))"

definition tx_start :: "nat \<Rightarrow> ('f, 's) xbee_xmodem_state_t \<Rightarrow> u32 \<Rightarrow> (int \<times> ('f, 's) xbee_xmodem_state_t) option" where
  "tx_start fuel m now =
     (let (ch, m) = xbee_xmodem_getchar m;
          go = (\<lambda>m. tx_send fuel (m\<lparr>xm_state := XBEE_XMODEM_STATE_SEND, packet_num := 1\<rparr>) now)
      in if ch = XMODEM_NAK \<and> xm_flags m AND XBEE_XMODEM_FLAG_FORCE_CRC = 0 then
           go (m\<lparr>xm_flags := xm_flags m OR XBEE_XMODEM_FLAG_CHECKSUM\<rparr>)
         else if ch = XMODEM_CRC then go (m\<lparr>xm_flags := xm_flags m OR XBEE_XMODEM_FLAG_CRC\<rparr>)
         else Some (0, m))"

text \<open>The timer's low word and the stored one are promoted to \<open>int\<close> before the subtraction.\<close>

definition tx_wait_ack :: "('f, 's) xbee_xmodem_state_t \<Rightarrow> u32 \<Rightarrow> int \<times> ('f, 's) xbee_xmodem_state_t" where
  "tx_wait_ack m now =
     (let (ch, m) = xbee_xmodem_getchar m in
      if ch = XMODEM_ACK then (0, m\<lparr>packet_num := packet_num m + 1, xm_state := XBEE_XMODEM_STATE_SEND\<rparr>)
      else if ch < 0 \<and> uint (ucast now :: u16) - uint (timer m) < 10000 then (0, m)
      else
        let m = m\<lparr>tries := tries m - 1\<rparr> in
        if tries m \<noteq> 0 then (0, m\<lparr>xm_state := XBEE_XMODEM_STATE_RESEND\<rparr>)
        else tx_failure m (- ETIMEDOUT))"

definition tx_eof :: "('f, 's) xbee_xmodem_state_t \<Rightarrow> u32 \<Rightarrow> int \<times> ('f, 's) xbee_xmodem_state_t" where
  "tx_eof m now =
     (let m = snd (xbee_xmodem_putchar m XMODEM_EOT)
      in (0, m\<lparr>xm_state := XBEE_XMODEM_STATE_FINAL_ACK, timer := ucast now\<rparr>))"

definition tx_final_ack :: "('f, 's) xbee_xmodem_state_t \<Rightarrow> u32 \<Rightarrow> int \<times> ('f, 's) xbee_xmodem_state_t" where
  "tx_final_ack m now =
     (let (ch, m) = xbee_xmodem_getchar m in
      if ch = XMODEM_ACK then (1, m\<lparr>xm_state := XBEE_XMODEM_STATE_SUCCESS\<rparr>)
      else if ch < 0 \<and> uint (ucast now :: u16) - uint (timer m) < 3000 then (0, m)
      else
        let m = m\<lparr>tries := tries m - 1\<rparr> in
        if tries m \<noteq> 0 then (0, m\<lparr>xm_state := XBEE_XMODEM_STATE_EOF\<rparr>)
        else tx_failure m (- ETIMEDOUT))"

definition xbee_xmodem_tx_tick ::
  "nat \<Rightarrow> ('f, 's) xbee_xmodem_state_t \<Rightarrow> u32 \<Rightarrow> (int \<times> ('f, 's) xbee_xmodem_state_t) option" where
  "xbee_xmodem_tx_tick fuel m now =
     (if buffer m = None then Some (- EINVAL, m)
      else
        (case xm_state m of
           XBEE_XMODEM_STATE_FLUSH \<Rightarrow>
             (case flush_stream fuel m of None \<Rightarrow> None
              | Some m \<Rightarrow> tx_start fuel (m\<lparr>xm_state := XBEE_XMODEM_STATE_START\<rparr>) now)
         | XBEE_XMODEM_STATE_START \<Rightarrow> tx_start fuel m now
         | XBEE_XMODEM_STATE_SEND \<Rightarrow> tx_send fuel m now
         | XBEE_XMODEM_STATE_RESEND \<Rightarrow> Some (tx_resend m now)
         | XBEE_XMODEM_STATE_SENDING \<Rightarrow> Some (tx_sending m now)
         | XBEE_XMODEM_STATE_WAIT_ACK \<Rightarrow> Some (tx_wait_ack m now)
         | XBEE_XMODEM_STATE_EOF \<Rightarrow> Some (tx_eof m now)
         | XBEE_XMODEM_STATE_FINAL_ACK \<Rightarrow> Some (tx_final_ack m now)
         | XBEE_XMODEM_STATE_SUCCESS \<Rightarrow> Some (1, m)
         | XBEE_XMODEM_STATE_FAILURE \<Rightarrow> Some (- ETIMEDOUT, m)))"

end
