(* ===== verification/Xbee_Xmodem_Protocol.thy ===== *)
theory Xbee_Xmodem_Protocol
  imports Xbee_Xmodem
begin

text \<open>
  The XMODEM sender of \<open>xbee_xmodem.c\<close> over any target that takes bytes and any source that
  delivers blocks: what it has put on the line in every state it can reach, however the
  target answers and time passes, and that a transfer which ends in success has delivered the
  whole file.
\<close>

section \<open>What is on the line\<close>

definition xm_block_size :: "u16 \<Rightarrow> nat" where
  "xm_block_size fl =
     (if fl AND XBEE_XMODEM_MASK_BLOCKSIZE = XBEE_XMODEM_FLAG_64 then 64
      else if fl AND XBEE_XMODEM_MASK_BLOCKSIZE = XBEE_XMODEM_FLAG_1K then 1024 else 128)"

definition xm_packet :: "u16 \<Rightarrow> u16 \<Rightarrow> bytes \<Rightarrow> bytes" where
  "xm_packet fl num blk =
     (let b = blk @ replicate (xm_block_size fl - length blk) 0xFF in
      [if fl AND XBEE_XMODEM_FLAG_1K \<noteq> 0 then XMODEM_STX else XMODEM_SOH, ucast num, NOT (ucast num)] @ b @
      (if fl AND XBEE_XMODEM_FLAG_CRC \<noteq> 0 then be16_bytes (crc16_calc b 0) else [sum_list b]))"

text \<open>The packets of the blocks of a file, the \<open>i\<close>-th of them sent \<open>rs ! i\<close> times in a row.\<close>

fun xm_runs :: "u16 \<Rightarrow> u16 \<Rightarrow> bytes \<Rightarrow> nat list \<Rightarrow> bytes" where
  "xm_runs fl num c [] = []"
| "xm_runs fl num c (r # rs) =
     concat (replicate r (xm_packet fl num (take (xm_block_size fl) c))) @
     xm_runs fl (num + 1) (drop (xm_block_size fl) c) rs"

lemma xm_runs_snoc:
  "xm_runs fl num c (rs @ [r]) = xm_runs fl num c rs @
     concat (replicate r (xm_packet fl (num + of_nat (length rs))
       (take (xm_block_size fl) (drop (length rs * xm_block_size fl) c))))"
  by (induction rs arbitrary: num c) (auto simp: add_ac)

lemma xm_block_size_range: "xm_block_size fl \<in> {64, 128, 1024}"
  by (simp add: xm_block_size_def)

lemma block_size_flags [simp]: "block_size m = xm_block_size (xm_flags m)"
  by (simp add: block_size_def xm_block_size_def Let_def)

lemma xm_block_size_or [simp]:
  "xm_block_size (fl OR XBEE_XMODEM_FLAG_CHECKSUM) = xm_block_size fl"
  "xm_block_size (fl OR XBEE_XMODEM_FLAG_CRC) = xm_block_size fl"
  by (simp_all add: xm_block_size_def bit.conj_disj_distrib2)

abbreviation bsize :: "('f, 's) xbee_xmodem_state_t \<Rightarrow> nat" where
  "bsize m \<equiv> xm_block_size (xm_flags m)"

abbreviation packet_len :: "u16 \<Rightarrow> nat" where
  "packet_len fl \<equiv> xm_block_size fl + (if fl AND XBEE_XMODEM_FLAG_CRC \<noteq> 0 then 5 else 4)"

lemma fold_sum_u8: "fold (\<lambda>p c. c + p) bs (a :: u8) = a + sum_list bs"
  by (induction bs arbitrary: a) (auto simp: add_ac)

lemma ucast_and_ff: "ucast (w AND 0x00FF :: u16) = (ucast w :: u8)"
  unfolding byte_masks by (rule bit_word_eqI) (auto simp: bit_simps)

section \<open>Transfers\<close>

text \<open>
  A transfer from the state \<open>m0\<close>: bytes from the target arrive and the sender ticks, in any order
  and at any time. The second argument collects the bytes that have arrived.
\<close>

inductive xm_run :: "('s \<Rightarrow> bytes \<Rightarrow> 's) \<Rightarrow> ('f, 's) xbee_xmodem_state_t \<Rightarrow> bytes \<Rightarrow> ('f, 's) xbee_xmodem_state_t \<Rightarrow> bool"
  for feed m0 where
  run_start: "xm_run feed m0 [] m0"
| run_arrive: "xm_run feed m0 i m \<Longrightarrow> xm_run feed m0 (i @ bs) (m\<lparr>stream_context := feed (stream_context m) bs\<rparr>)"
| run_tick: "xm_run feed m0 i m \<Longrightarrow> xbee_xmodem_tx_tick fuel m now = Some (r, m') \<Longrightarrow> xm_run feed m0 i m'"

text \<open>
  A target that cooperates: it asks for the file with CRC, and acknowledges each packet and the
  end of the file when the sender waits for it.
\<close>

definition answer :: "xbee_xmodem_state \<Rightarrow> bytes" where
  "answer st = (if st = XBEE_XMODEM_STATE_START then [0x43]
     else if st = XBEE_XMODEM_STATE_WAIT_ACK \<or> st = XBEE_XMODEM_STATE_FINAL_ACK then [6] else [])"

definition coop_step ::
  "('s \<Rightarrow> bytes \<Rightarrow> 's) \<Rightarrow> nat \<Rightarrow> u32 \<Rightarrow> ('f, 's) xbee_xmodem_state_t \<Rightarrow> ('f, 's) xbee_xmodem_state_t option" where
  "coop_step feed fuel now m =
     map_option snd (xbee_xmodem_tx_tick fuel (m\<lparr>stream_context := feed (stream_context m) (answer (xm_state m))\<rparr>) now)"

fun coop ::
  "('s \<Rightarrow> bytes \<Rightarrow> 's) \<Rightarrow> nat \<Rightarrow> u32 list \<Rightarrow> ('f, 's) xbee_xmodem_state_t \<Rightarrow> ('f, 's) xbee_xmodem_state_t option" where
  "coop feed fuel [] m = Some m"
| "coop feed fuel (t # ts) m = Option.bind (coop_step feed fuel t m) (coop feed fuel ts)"

text \<open>A larger bound on the loops does not change a result.\<close>

lemma flush_chars_mono: "flush_chars n m = Some m' \<Longrightarrow> n \<le> k \<Longrightarrow> flush_chars k m = Some m'"
proof (induction n arbitrary: m k)
  case (Suc n)
  then show ?case by (cases k) (auto split: prod.splits if_splits)
qed simp

lemma flush_stream_mono: "flush_stream n m = Some m' \<Longrightarrow> n \<le> k \<Longrightarrow> flush_stream k m = Some m'"
proof (induction n arbitrary: m k)
  case (Suc n)
  then show ?case by (cases k) (auto simp: Let_def split: prod.splits if_splits)
qed simp

lemma tx_send_mono:
  assumes "tx_send n m now = Some x" "n \<le> k"
  shows "tx_send k m now = Some x"
proof -
  obtain r m1 where a: "assemble_packet m (block_size m) = (r, m1)" by fastforce
  then show ?thesis
    using assms flush_chars_mono[OF _ assms(2), of m1]
    by (cases "flush_chars n m1") (auto simp: tx_send_def split: if_splits)
qed

lemma tx_start_mono:
  assumes "tx_start n m now = Some x" "n \<le> k"
  shows "tx_start k m now = Some x"
proof -
  obtain ch m1 where a: "xbee_xmodem_getchar m = (ch, m1)" by fastforce
  show ?thesis
    using assms(1) tx_send_mono[OF _ assms(2)]
    by (cases x) (auto simp: tx_start_def a Let_def split: if_splits)
qed

lemma tick_mono:
  assumes "xbee_xmodem_tx_tick n m now = Some x" "n \<le> k"
  shows "xbee_xmodem_tx_tick k m now = Some x"
proof (cases "xm_state m")
  case XBEE_XMODEM_STATE_FLUSH
  then show ?thesis
    using assms flush_stream_mono[OF _ assms(2), of m] tx_start_mono[OF _ assms(2)]
    by (cases x; cases "flush_stream n m") (auto simp: xbee_xmodem_tx_tick_def)
next
  case XBEE_XMODEM_STATE_START
  with assms(1) show ?thesis
    by (auto simp: xbee_xmodem_tx_tick_def intro: tx_start_mono[OF _ assms(2)] split: if_splits)
next
  case XBEE_XMODEM_STATE_SEND
  with assms(1) show ?thesis
    by (auto simp: xbee_xmodem_tx_tick_def intro: tx_send_mono[OF _ assms(2)] split: if_splits)
qed (use assms in \<open>auto simp: xbee_xmodem_tx_tick_def split: if_splits\<close>)

section \<open>Assembling a packet\<close>

lemma buf_prefix:
  assumes "3 + length bs \<le> length buf"
  shows "take (3 + length bs) (buf_write (buf[0 := a, 1 := b, 2 := c]) 3 bs) = [a, b, c] @ bs"
proof -
  obtain x y z r where "buf = x # y # z # r"
    using assms by (cases buf rule: remdups_adj.cases; cases "tl (tl buf)") auto
  then show ?thesis using take_buf_write_end[of 3 bs "buf[0 := a, 1 := b, 2 := c]"] assms
    by (simp add: numeral_3_eq_3)
qed

lemma append_check_packet:
  assumes "take (3 + bsz) buf = hdr @ b" "length hdr = 3" "length b = bsz" "bsz + 5 \<le> length buf"
  shows "take (bsz + (if fl AND XBEE_XMODEM_FLAG_CRC \<noteq> 0 then 5 else 4)) (append_check fl bsz buf) =
      hdr @ b @ (if fl AND XBEE_XMODEM_FLAG_CRC \<noteq> 0 then be16_bytes (crc16_calc b 0) else [sum_list b])"
    and "length (append_check fl bsz buf) = length buf"
proof -
  have blk: "take bsz (drop 3 buf) = b"
    using arg_cong[OF assms(1), of "drop 3"] assms(2) by (simp add: drop_take)
  obtain r where "buf = (hdr @ b) @ r" using assms(1) by (metis append_take_drop_id)
  moreover from this assms obtain x y t where "r = x # y # t"
    by (cases r rule: remdups_adj.cases) auto
  ultimately have buf: "buf = hdr @ b @ x # y # t" by simp
  show "take (bsz + (if fl AND XBEE_XMODEM_FLAG_CRC \<noteq> 0 then 5 else 4)) (append_check fl bsz buf) =
      hdr @ b @ (if fl AND XBEE_XMODEM_FLAG_CRC \<noteq> 0 then be16_bytes (crc16_calc b 0) else [sum_list b])"
    using assms(2,3)
    by (simp add: append_check_def blk Let_def fold_sum_u8 be16_bytes_def ucast_and_ff)
       (simp add: buf list_update_append take_append)
  show "length (append_check fl bsz buf) = length buf" by (simp add: append_check_def Let_def)
qed

section \<open>Sources and targets\<close>

text \<open>
  A source of blocks: \<open>rest\<close> is what is left of the file. A read delivers as many bytes as asked
  for unless the file ends, and 0 or \<open>ENODATA\<close> at its end.
\<close>

locale block_source =
  fixes fr :: "'f xbee_xmodem_read_fn" and rest :: "'f \<Rightarrow> bytes" and okf :: "'f \<Rightarrow> bool"
  assumes fr: "okf f \<Longrightarrow> 0 < n \<Longrightarrow> n < 2 ^ 15 \<Longrightarrow> fr f n = (r, bs, f') \<Longrightarrow>
      okf f' \<and> bs = take (nat n) (rest f) \<and> rest f' = drop (nat n) (rest f) \<and>
      (if rest f = [] then r = 0 \<or> r = - ENODATA else r = int (length bs))"

text \<open>A transfer: a source, a target, and the arrival of bytes from the target.\<close>

locale xmodem_link = byte_port rd wr inp outp ready + block_source fr rest okf
  for rd :: "'s \<Rightarrow> int \<Rightarrow> int \<times> bytes \<times> 's" and wr :: "'s \<Rightarrow> bytes \<Rightarrow> int \<Rightarrow> int \<times> 's"
    and inp :: "'s \<Rightarrow> bytes" and outp :: "'s \<Rightarrow> bytes" and ready :: "'s \<Rightarrow> bool"
    and fr :: "'f xbee_xmodem_read_fn" and rest :: "'f \<Rightarrow> bytes" and okf :: "'f \<Rightarrow> bool" +
  fixes feed :: "'s \<Rightarrow> bytes \<Rightarrow> 's"
  assumes feed: "inp (feed p bs) = inp p @ bs" "outp (feed p bs) = outp p" "ready p \<Longrightarrow> ready (feed p bs)"
begin

text \<open>The parts of the state a transfer relies on and never changes the nature of.\<close>

definition xm_ok :: "('f, 's) xbee_xmodem_state_t \<Rightarrow> bool" where
  "xm_ok m \<longleftrightarrow> file_read m = fr \<and> stream_read m = rd \<and> stream_write m = wr \<and>
     okf (file_context m) \<and> ready (stream_context m) \<and>
     (\<exists>buf. buffer m = Some buf \<and> bsize m + 5 \<le> length buf)"

lemma getchar_ok:
  assumes "xm_ok m"
  obtains ch p where "xbee_xmodem_getchar m = (ch, m\<lparr>stream_context := p\<rparr>)" "ready p"
    "outp p = outp (stream_context m)"
    "ch = - ENODATA \<and> inp (stream_context m) = [] \<and> inp p = [] \<or>
     (\<exists>b. ch = uint b \<and> inp (stream_context m) = b # inp p)"
proof -
  obtain r bs p where r: "rd (stream_context m) 1 = (r, bs, p)" by (metis prod_cases3)
  have m: "ready (stream_context m)" "stream_read m = rd" using assms by (auto simp: xm_ok_def)
  note q = rd_ready[OF m(1) _ r]
  show thesis
  proof (cases "inp (stream_context m)")
    case Nil
    with q m r show thesis by (intro that[of "- ENODATA" p]) (auto simp: xbee_xmodem_getchar_def)
  next
    case (Cons b bs')
    with q m r show thesis by (intro that[of "uint b" p]) (auto simp: xbee_xmodem_getchar_def)
  qed
qed

text \<open>The same, with the bytes \<open>u\<close> taken from the target.\<close>

lemma answer_ok:
  assumes "xm_ok m"
  obtains ch p u where "xbee_xmodem_getchar m = (ch, m\<lparr>stream_context := p\<rparr>)" "ready p"
    "outp p = outp (stream_context m)" "inp (stream_context m) = u @ inp p" "ch \<noteq> XMODEM_ACK \<or> u = [6]"
    "u = [] \<and> ch = - ENODATA \<and> inp p = [] \<or> (\<exists>b. u = [b] \<and> ch = uint b)"
proof -
  obtain ch p where g: "xbee_xmodem_getchar m = (ch, m\<lparr>stream_context := p\<rparr>)" "ready p"
    "outp p = outp (stream_context m)"
    "ch = - ENODATA \<and> inp (stream_context m) = [] \<and> inp p = [] \<or>
     (\<exists>b. ch = uint b \<and> inp (stream_context m) = b # inp p)"
    using getchar_ok[OF assms] .
  then consider "ch = - ENODATA" "inp (stream_context m) = inp p" "inp p = []"
    | b where "ch = uint b" "inp (stream_context m) = b # inp p" by fastforce
  then show thesis
    using that[OF g(1-3), of "[]"] that[OF g(1-3), of "[_]"]
    by cases (auto simp: word_uint_eq_iff)
qed

lemma xm_ok_stream [simp]: "ready p \<Longrightarrow> xm_ok m \<Longrightarrow> xm_ok (m\<lparr>stream_context := p\<rparr>)"
  by (auto simp: xm_ok_def)

lemma flush_chars_ok:
  "xm_ok m \<Longrightarrow> length (inp (stream_context m)) < fuel \<Longrightarrow>
   \<exists>p. flush_chars fuel m = Some (m\<lparr>stream_context := p\<rparr>) \<and> ready p \<and>
     outp p = outp (stream_context m) \<and> inp p = []"
proof (induction fuel arbitrary: m)
  case (Suc fuel)
  obtain ch p where g: "xbee_xmodem_getchar m = (ch, m\<lparr>stream_context := p\<rparr>)" "ready p"
    "outp p = outp (stream_context m)"
    "ch = - ENODATA \<and> inp (stream_context m) = [] \<and> inp p = [] \<or>
     (\<exists>b. ch = uint b \<and> inp (stream_context m) = b # inp p)"
    using getchar_ok[OF Suc.prems(1)] .
  show ?case
  proof (cases "ch = - ENODATA")
    case False
    then have "length (inp p) < fuel" using g(4) Suc.prems(2) by auto
    then show ?thesis
      using Suc.IH[of "m\<lparr>stream_context := p\<rparr>"] Suc.prems(1) g False by auto
  next
    case True
    moreover have "uint b \<noteq> - ENODATA" for b :: u8 using uint_nonnegative[of b] by linarith
    ultimately show ?thesis using g by auto
  qed
qed simp

lemma flush_stream_ok:
  "xm_ok m \<Longrightarrow> length (inp (stream_context m)) < fuel \<Longrightarrow>
   \<exists>p buf. flush_stream fuel m = Some (m\<lparr>stream_context := p, buffer := Some buf\<rparr>) \<and>
     xm_ok (m\<lparr>stream_context := p, buffer := Some buf\<rparr>) \<and>
     outp p = outp (stream_context m) \<and> inp p = []"
proof (induction fuel arbitrary: m)
  case (Suc fuel)
  obtain r bs p where r: "rd (stream_context m) 64 = (r, bs, p)" by (metis prod_cases3)
  obtain buf where m: "ready (stream_context m)" "stream_read m = rd" "buffer m = Some buf"
    "bsize m + 5 \<le> length buf"
    using Suc.prems(1) by (auto simp: xm_ok_def)
  have q: "ready p" "bs = take 64 (inp (stream_context m))" "r = int (length bs)"
    "inp p = drop 64 (inp (stream_context m))" "outp p = outp (stream_context m)"
    using rd_ready[OF m(1) _ r] by auto
  have "length bs \<le> length buf"
    using m(4) q(2) xm_block_size_range[of "xm_flags m"] by auto
  then have buf: "length (buf_write buf 0 bs) = length buf" by simp
  define m' where "m' = m\<lparr>stream_context := p, buffer := Some (buf_write buf 0 bs)\<rparr>"
  have m': "xm_ok m'" using Suc.prems(1) q m(3,4) buf by (auto simp: m'_def xm_ok_def)
  show ?case
  proof (cases "r > 0")
    case True
    then have "length (inp p) < fuel" using Suc.prems(2) q by (cases "inp (stream_context m)") auto
    with Suc.IH[OF m'] True q(5) show ?thesis
      by (auto simp: r m m'_def)
  next
    case False
    then have "inp (stream_context m) = []" using q by auto
    with False m' q show ?thesis
      by (auto simp: r m m'_def)
  qed
qed simp

lemma assemble_ok:
  assumes "xm_ok m" "assemble_packet m (bsize m) = (r, m')"
  obtains buf f where
    "rest (file_context m) = [] \<Longrightarrow> r = 1 \<and> m' = m\<lparr>tries := 3, file_context := f, buffer := Some buf, xm_state := XBEE_XMODEM_STATE_EOF\<rparr>"
    "rest (file_context m) \<noteq> [] \<Longrightarrow> r = 0 \<and> m' = m\<lparr>tries := 3, file_context := f, buffer := Some buf\<rparr> \<and>
      take (packet_len (xm_flags m)) buf =
        xm_packet (xm_flags m) (packet_num m) (take (bsize m) (rest (file_context m)))"
    "xm_ok m'" "rest f = drop (bsize m) (rest (file_context m))"
proof -
  let ?bsz = "bsize m" and ?c = "rest (file_context m)"
  obtain buf0 where m: "buffer m = Some buf0" "?bsz + 5 \<le> length buf0" "okf (file_context m)" "file_read m = fr"
    using assms(1) by (auto simp: xm_ok_def)
  obtain e bs f where e: "fr (file_context m) (int ?bsz) = (e, bs, f)" by (metis prod_cases3)
  have bsz: "0 < int ?bsz" "int ?bsz < 2 ^ 15"
    using xm_block_size_range[of "xm_flags m"] by auto
  have f: "okf f" "bs = take ?bsz ?c" "rest f = drop ?bsz ?c"
    "if ?c = [] then e = 0 \<or> e = - ENODATA else e = int (length bs)"
    using fr[OF m(3) bsz e] by auto
  let ?num = "ucast (packet_num m) :: u8"
  let ?st = "if xm_flags m AND XBEE_XMODEM_FLAG_1K \<noteq> 0 then XMODEM_STX else XMODEM_SOH"
  define buf where "buf = buf_write (buf0[0 := ?st, 1 := ?num, 2 := NOT ?num]) 3 bs"
  have buf: "length buf = length buf0" "take (3 + length bs) buf = [?st, ?num, NOT ?num] @ bs"
    using m(2) f(2) buf_prefix[of bs buf0 ?st ?num "NOT ?num"] by (auto simp: buf_def)
  define m1 where "m1 = m\<lparr>tries := 3, file_context := f, buffer := Some buf\<rparr>"
  define b where "b = buf_write buf (3 + nat e) (replicate (?bsz - nat e) 0xFF)"
  have step: "assemble_packet m ?bsz =
     (if e = - ENODATA \<or> e = 0 then (1, m1\<lparr>xm_state := XBEE_XMODEM_STATE_EOF\<rparr>)
      else if e < 0 then (e, m1)
      else if e < int ?bsz then
        (case fr f 1 of (one, _, fc) \<Rightarrow>
           if one = 1 then (- EIO, m1\<lparr>file_context := fc\<rparr>)
           else (0, m1\<lparr>file_context := fc, buffer := Some (append_check (xm_flags m) ?bsz b)\<rparr>))
      else (0, m1\<lparr>buffer := Some (append_check (xm_flags m) ?bsz buf)\<rparr>))"
    unfolding assemble_packet_def m(1,4) e Let_def option.sel prod.case buf_def[symmetric] b_def m1_def
    by (cases m) (use m(4) in \<open>auto split: prod.splits\<close>)
  show thesis
  proof (cases "?c = []")
    case True
    then have "assemble_packet m ?bsz =
        (1, m\<lparr>tries := 3, file_context := f, buffer := Some buf, xm_state := XBEE_XMODEM_STATE_EOF\<rparr>)"
      using f(4) by (auto simp: step m1_def)
    with True assms f m(2) buf(1) show thesis
      by (intro that[of buf f]) (auto simp: xm_ok_def)
  next
    case False
    then have e': "e = int (length bs)" "0 < length bs" "length bs \<le> ?bsz" using f bsz by auto
    let ?b = "append_check (xm_flags m) ?bsz b"
    have "\<exists>f'. assemble_packet m ?bsz = (0, m\<lparr>tries := 3, file_context := f', buffer := Some ?b\<rparr>) \<and>
       okf f' \<and> rest f' = drop ?bsz ?c"
    proof (cases "length bs < ?bsz")
      case True
      obtain one bs' f' where one: "fr f 1 = (one, bs', f')" by (metis prod_cases3)
      have "rest f = []" using True f(2,3) by auto
      with fr[OF f(1) _ _ one] have "okf f'" "rest f' = []" "one \<noteq> 1" by auto
      with \<open>rest f = []\<close> True e' f(3) one show ?thesis
        by (auto simp: step m1_def)
    next
      case full: False
      then have "b = buf" using e' m(2) buf(1) by (simp add: b_def)
      with full e' f show ?thesis by (auto simp: step m1_def)
    qed
    then obtain f' where f': "assemble_packet m ?bsz = (0, m\<lparr>tries := 3, file_context := f', buffer := Some ?b\<rparr>)"
      "okf f'" "rest f' = drop ?bsz ?c" by blast
    have b: "take (3 + ?bsz) b = [?st, ?num, NOT ?num] @ (bs @ replicate (?bsz - length bs) 0xFF)" "length b = length buf0"
      using take_buf_write_end[of "3 + length bs" "replicate (?bsz - length bs) 0xFF" buf] buf e' m(2)
      by (simp_all add: b_def)
    have "take (packet_len (xm_flags m)) ?b = xm_packet (xm_flags m) (packet_num m) (take ?bsz ?c)" "length ?b = length buf0"
      using append_check_packet[OF b(1), of "xm_flags m"] b(2) e'(3) m(2) f(2)
      by (simp_all add: xm_packet_def Let_def)
    with f' False assms m(2) show thesis
      by (intro that[of ?b f']) (auto simp: xm_ok_def)
  qed
qed

lemma resend_ok:
  assumes "xm_ok m" "buffer m = Some buf"
  obtains p where "tx_resend m now = (0, m\<lparr>offset := int (packet_len (xm_flags m)), stream_context := p,
      xm_state := XBEE_XMODEM_STATE_WAIT_ACK, timer := ucast now\<rparr>)"
    "ready p" "outp p = outp (stream_context m) @ take (packet_len (xm_flags m)) buf"
    "inp p = inp (stream_context m)"
proof -
  let ?n = "packet_len (xm_flags m)"
  obtain r p where w: "wr (stream_context m) buf (int ?n) = (r, p)" by fastforce
  have m: "ready (stream_context m)" "stream_write m = wr" "bsize m + 5 \<le> length buf"
    using assms by (auto simp: xm_ok_def)
  have "int ?n < 2 ^ 16" "int ?n \<le> int (length buf)"
    using m(3) xm_block_size_range[of "xm_flags m"] by auto
  note q = wr_ready[OF m(1) _ this w]
  have size: "int (bsize m) + (if xm_flags m AND XBEE_XMODEM_FLAG_CRC \<noteq> 0 then 5 else 4) = int ?n"
    by simp
  have "block_size (m\<lparr>offset := 0\<rparr>) = bsize m" by simp
  then have "tx_resend m now = (0, m\<lparr>offset := int ?n, stream_context := p,
      xm_state := XBEE_XMODEM_STATE_WAIT_ACK, timer := ucast now\<rparr>)"
    using w q size m(2) assms(2) by (cases m) (simp add: tx_resend_def tx_sending_def Let_def)
  moreover have "outp p = outp (stream_context m) @ take ?n buf" using q by (simp only: nat_int)
  ultimately show thesis using q by (intro that[of p]) auto
qed

text \<open>
  The invariant, for a transfer of \<open>c\<close> over a line that held \<open>o0\<close> before and has brought
  \<open>i\<close> from the target so far: in every state, which packets were sent how often, that the packet
  at hand is in the buffer, and that every block but the current one was acknowledged.
\<close>

definition acked :: "bytes \<Rightarrow> ('f, 's) xbee_xmodem_state_t \<Rightarrow> nat \<Rightarrow> bool" where
  "acked i m k \<longleftrightarrow> (\<exists>used. i = used @ inp (stream_context m) \<and> k \<le> count_list used 6)"

definition line :: "bytes \<Rightarrow> bytes \<Rightarrow> ('f, 's) xbee_xmodem_state_t \<Rightarrow> nat list \<Rightarrow> bytes \<Rightarrow> bool" where
  "line o0 c m rs t \<longleftrightarrow> outp (stream_context m) = o0 @ xm_runs (xm_flags m) 1 c rs @ t \<and> set rs \<subseteq> {1..3}"

definition at_block :: "bytes \<Rightarrow> bytes \<Rightarrow> ('f, 's) xbee_xmodem_state_t \<Rightarrow> nat list \<Rightarrow> bool" where
  "at_block i c m rs \<longleftrightarrow> acked i m (length rs) \<and> packet_num m = 1 + of_nat (length rs) \<and>
     (\<forall>j < length rs. drop (j * bsize m) c \<noteq> [])"

definition packet_at :: "bytes \<Rightarrow> ('f, 's) xbee_xmodem_state_t \<Rightarrow> nat list \<Rightarrow> bool" where
  "packet_at c m rs \<longleftrightarrow> drop (length rs * bsize m) c \<noteq> [] \<and>
     rest (file_context m) = drop (Suc (length rs) * bsize m) c \<and>
     take (packet_len (xm_flags m)) (the (buffer m)) =
       xm_packet (xm_flags m) (packet_num m) (take (bsize m) (drop (length rs * bsize m) c))"

definition xm_inv :: "bytes \<Rightarrow> bytes \<Rightarrow> bytes \<Rightarrow> ('f, 's) xbee_xmodem_state_t \<Rightarrow> bool" where
  "xm_inv o0 c i m \<longleftrightarrow> xm_ok m \<and>
     (case xm_state m of
        XBEE_XMODEM_STATE_FLUSH \<Rightarrow> line o0 c m [] [] \<and> rest (file_context m) = c \<and> acked i m 0
      | XBEE_XMODEM_STATE_START \<Rightarrow> line o0 c m [] [] \<and> rest (file_context m) = c \<and> acked i m 0
      | XBEE_XMODEM_STATE_SEND \<Rightarrow> (\<exists>rs. at_block i c m rs \<and> line o0 c m rs [] \<and>
          rest (file_context m) = drop (length rs * bsize m) c)
      | XBEE_XMODEM_STATE_RESEND \<Rightarrow> (\<exists>rs. at_block i c m rs \<and> packet_at c m rs \<and>
          tries m \<in> {1, 2} \<and> line o0 c m (rs @ [3 - unat (tries m)]) [])
      | XBEE_XMODEM_STATE_SENDING \<Rightarrow> False
      | XBEE_XMODEM_STATE_WAIT_ACK \<Rightarrow> (\<exists>rs. at_block i c m rs \<and> packet_at c m rs \<and>
          tries m \<in> {1, 2, 3} \<and> line o0 c m (rs @ [4 - unat (tries m)]) [])
      | XBEE_XMODEM_STATE_EOF \<Rightarrow> (\<exists>rs. at_block i c m rs \<and> drop (length rs * bsize m) c = [] \<and>
          tries m \<in> {1, 2, 3} \<and> line o0 c m rs (replicate (3 - unat (tries m)) XMODEM_EOT))
      | XBEE_XMODEM_STATE_FINAL_ACK \<Rightarrow> (\<exists>rs. at_block i c m rs \<and> drop (length rs * bsize m) c = [] \<and>
          tries m \<in> {1, 2, 3} \<and> line o0 c m rs (replicate (4 - unat (tries m)) XMODEM_EOT))
      | XBEE_XMODEM_STATE_SUCCESS \<Rightarrow> (\<exists>rs e. at_block i c m rs \<and> drop (length rs * bsize m) c = [] \<and>
          acked i m (Suc (length rs)) \<and> e \<in> {1..3} \<and> line o0 c m rs (replicate e XMODEM_EOT))
      | XBEE_XMODEM_STATE_FAILURE \<Rightarrow> (\<exists>rs e. e \<le> 3 \<and>
          line o0 c m rs (replicate e XMODEM_EOT @ [XMODEM_CAN, XMODEM_CAN])))"

lemma acked_used:
  assumes "acked i m k" "inp (stream_context m) = u @ inp (stream_context m')"
  shows "acked i m' (k + count_list u 6)"
proof -
  from assms obtain used where "i = (used @ u) @ inp (stream_context m')" "k \<le> count_list used 6"
    by (auto simp: acked_def)
  then show ?thesis unfolding acked_def by (intro exI[of _ "used @ u"]) simp
qed

text \<open>Where the send state leads: to the end of the file, or to waiting for an answer.\<close>

definition after_send :: "bytes \<Rightarrow> nat \<Rightarrow> ('f, 's) xbee_xmodem_state_t \<Rightarrow> bool" where
  "after_send c n m \<longleftrightarrow> bsize m = n \<and> inp (stream_context m) = [] \<and>
     (if c = [] then xm_state m = XBEE_XMODEM_STATE_EOF
      else xm_state m = XBEE_XMODEM_STATE_WAIT_ACK \<and> rest (file_context m) = drop n c)"

lemma send_inv:
  assumes "xm_ok m" "at_block i c m rs" "line o0 c m rs []"
    and "rest (file_context m) = drop (length rs * bsize m) c"
    and "length (inp (stream_context m)) < fuel"
  shows "\<exists>m'. tx_send fuel m now = Some (0, m') \<and> xm_inv o0 c i m' \<and>
     (inp (stream_context m) = [] \<longrightarrow> after_send (rest (file_context m)) (bsize m) m')"
proof -
  obtain r m1 where a: "assemble_packet m (bsize m) = (r, m1)" by fastforce
  let ?c = "rest (file_context m)"
  show ?thesis
  proof (cases "?c = []")
    case True
    obtain buf f where m1: "r = 1" "m1 = m\<lparr>tries := 3, file_context := f, buffer := Some buf,
        xm_state := XBEE_XMODEM_STATE_EOF\<rparr>" "xm_ok m1"
      using assemble_ok[OF assms(1) a] True by metis
    then have "xm_inv o0 c i m1"
      using assms(2-4) True by (auto simp: xm_inv_def at_block_def line_def acked_def)
    moreover have "inp (stream_context m) = [] \<longrightarrow> after_send ?c (bsize m) m1"
      using m1(2) True by (simp add: after_send_def)
    ultimately show ?thesis using m1(1) by (simp add: tx_send_def a)
  next
    case False
    obtain buf f where m1: "r = 0" "m1 = m\<lparr>tries := 3, file_context := f, buffer := Some buf\<rparr>"
      "take (packet_len (xm_flags m)) buf = xm_packet (xm_flags m) (packet_num m) (take (bsize m) ?c)"
      "xm_ok m1" "rest f = drop (bsize m) ?c"
      using assemble_ok[OF assms(1) a] False by metis
    have "length (inp (stream_context m1)) < fuel" using assms(5) m1(2) by simp
    from flush_chars_ok[OF m1(4) this] obtain p where
      p: "flush_chars fuel m1 = Some (m1\<lparr>stream_context := p\<rparr>)" "ready p"
      "outp p = outp (stream_context m)" "inp p = []" using m1(2) by auto
    have m2: "xm_ok (m1\<lparr>stream_context := p\<rparr>)" "buffer (m1\<lparr>stream_context := p\<rparr>) = Some buf"
      using p(2) m1(2,4) by simp_all
    obtain q where q: "tx_resend (m1\<lparr>stream_context := p\<rparr>) now =
        (0, m1\<lparr>offset := int (packet_len (xm_flags m)), stream_context := q,
          xm_state := XBEE_XMODEM_STATE_WAIT_ACK, timer := ucast now\<rparr>)"
      "ready q" "outp q = outp p @ take (packet_len (xm_flags m)) buf" "inp q = []"
      using resend_ok[OF m2, of now] m1(2) p(4) by auto
    let ?m = "m1\<lparr>offset := int (packet_len (xm_flags m)), stream_context := q,
          xm_state := XBEE_XMODEM_STATE_WAIT_ACK, timer := ucast now\<rparr>"
    have "at_block i c ?m rs"
      using assms(2) q(4) acked_used[of i m "length rs" "inp (stream_context m)" ?m]
      by (auto simp: at_block_def m1(2) acked_def intro: add_leD1)
    moreover have "packet_at c ?m rs"
      using m1(3,5) assms(4) False by (simp add: packet_at_def m1(2) add.commute)
    moreover have "line o0 c ?m (rs @ [4 - unat (tries ?m)]) []"
      using assms(2-4) q(3) p(3) m1(3) by (simp add: line_def m1(2) xm_runs_snoc at_block_def)
    moreover have "xm_ok ?m" using m1(4) q(2) by (simp add: xm_ok_def m1(2))
    ultimately have "xm_inv o0 c i ?m" using m1(2) by (auto simp: xm_inv_def)
    moreover have "after_send ?c (bsize m) ?m" using m1(2,5) False q(4) by (simp add: after_send_def)
    ultimately show ?thesis using q(1) p(1) m1(1) by (simp add: tx_send_def a)
  qed
qed

lemma start_inv:
  assumes "xm_inv o0 c i m" "xm_state m = XBEE_XMODEM_STATE_START" "length (inp (stream_context m)) < fuel"
  shows "\<exists>m'. tx_start fuel m now = Some (0, m') \<and> xm_inv o0 c i m' \<and>
     (inp (stream_context m) = [0x43] \<longrightarrow> after_send c (bsize m) m')"
proof -
  have m: "xm_ok m" "line o0 c m [] []" "rest (file_context m) = c" "acked i m 0"
    using assms by (auto simp: xm_inv_def)
  obtain ch p u where g: "xbee_xmodem_getchar m = (ch, m\<lparr>stream_context := p\<rparr>)" "ready p"
    "outp p = outp (stream_context m)" and u: "inp (stream_context m) = u @ inp p" "ch \<noteq> XMODEM_ACK \<or> u = [6]"
    "u = [] \<and> ch = - ENODATA \<and> inp p = [] \<or> (\<exists>b. u = [b] \<and> ch = uint b)"
    using answer_ok[OF m(1)] .
  have ack: "acked i (m\<lparr>stream_context := p\<rparr>) 0"
    using acked_used[OF m(4), of u "m\<lparr>stream_context := p\<rparr>"] u by (auto simp: acked_def)
  have go: "\<exists>m'. tx_send fuel (m\<lparr>stream_context := p, xm_flags := fl, xm_state := XBEE_XMODEM_STATE_SEND,
      packet_num := 1\<rparr>) now = Some (0, m') \<and> xm_inv o0 c i m' \<and> (inp p = [] \<longrightarrow> after_send c (bsize m) m')"
    if "xm_block_size fl = bsize m" for fl
    using send_inv[of "m\<lparr>stream_context := p, xm_flags := fl, xm_state := XBEE_XMODEM_STATE_SEND,
      packet_num := 1\<rparr>" i c "[]" o0 fuel now] m g ack that assms(3) u(1)
    by (auto simp: xm_ok_def at_block_def line_def acked_def)
  have "xm_inv o0 c i (m\<lparr>stream_context := p\<rparr>)"
    using m g ack assms(2) by (auto simp: xm_inv_def line_def)
  moreover have "inp p = [] \<and> ch = XMODEM_CRC" if "inp (stream_context m) = [0x43]"
    using u(1,3) that by auto
  ultimately show ?thesis
    using go[of "xm_flags m OR XBEE_XMODEM_FLAG_CHECKSUM"] go[of "xm_flags m OR XBEE_XMODEM_FLAG_CRC"]
    by (fastforce simp: tx_start_def g(1) Let_def)
qed

lemma failure_inv:
  assumes "xm_ok m" "line o0 c m rs (replicate e XMODEM_EOT)" "e \<le> 3"
  shows "\<exists>m'. tx_failure m err = (err, m') \<and> xm_inv o0 c i m' \<and> xm_state m' = XBEE_XMODEM_STATE_FAILURE"
proof -
  obtain r p where w: "wr (stream_context m) [XMODEM_CAN, XMODEM_CAN] 2 = (r, p)" by fastforce
  have m: "ready (stream_context m)" "stream_write m = wr" using assms(1) by (auto simp: xm_ok_def)
  note q = wr_ready[OF m(1) _ _ _ w]
  have "line o0 c (m\<lparr>stream_context := p, xm_state := XBEE_XMODEM_STATE_FAILURE\<rparr>) rs
     (replicate e XMODEM_EOT @ [XMODEM_CAN, XMODEM_CAN])"
    using q assms(2) by (auto simp: line_def)
  moreover have "xm_ok (m\<lparr>stream_context := p, xm_state := XBEE_XMODEM_STATE_FAILURE\<rparr>)"
    using q assms(1) by (auto simp: xm_ok_def)
  ultimately show ?thesis using assms(3) w m(2) by (auto simp: tx_failure_def xm_inv_def)
qed

lemma tries_dec:
  "t \<in> {1, 2, 3 :: u8} \<Longrightarrow> t - 1 \<noteq> 0 \<Longrightarrow> t - 1 \<in> {1, 2} \<and> 3 - unat (t - 1) = 4 - unat t"
  by auto

text \<open>Waiting for an answer: one byte is read, or the port is empty.\<close>

lemma resend_inv:
  assumes "xm_inv o0 c i m" "xm_state m = XBEE_XMODEM_STATE_RESEND"
  shows "\<exists>m'. tx_resend m now = (0, m') \<and> xm_inv o0 c i m'"
proof -
  obtain rs where m: "xm_ok m" "at_block i c m rs" "packet_at c m rs" "tries m \<in> {1, 2}"
    "line o0 c m (rs @ [3 - unat (tries m)]) []"
    using assms by (auto simp: xm_inv_def)
  obtain buf where b: "buffer m = Some buf" using m(1) by (auto simp: xm_ok_def)
  let ?m = "\<lambda>p. m\<lparr>offset := int (packet_len (xm_flags m)), stream_context := p,
      xm_state := XBEE_XMODEM_STATE_WAIT_ACK, timer := ucast now\<rparr>"
  obtain p where p: "tx_resend m now = (0, ?m p)" "ready p" "inp p = inp (stream_context m)"
    "outp p = outp (stream_context m) @ take (packet_len (xm_flags m)) buf"
    using resend_ok[OF m(1) b] by metis
  have n: "unat (tries m) \<in> {1, 2}" using m(4) by auto
  then have "line o0 c (?m p) (rs @ [4 - unat (tries m)]) []"
    using m(2,3,5) b p by (auto simp: line_def xm_runs_snoc packet_at_def at_block_def numeral_eq_Suc)
  moreover have "at_block i c (?m p) rs" "packet_at c (?m p) rs" "xm_ok (?m p)"
    using m(1-3) p(2,3) by (simp_all add: at_block_def packet_at_def acked_def xm_ok_def)
  ultimately show ?thesis using p(1) m(4) by (auto simp: xm_inv_def)
qed

lemma wait_ack_inv:
  assumes "xm_inv o0 c i m" "xm_state m = XBEE_XMODEM_STATE_WAIT_ACK"
  shows "\<exists>r m'. tx_wait_ack m now = (r, m') \<and> xm_inv o0 c i m' \<and> r \<noteq> 1"
proof -
  obtain rs where m: "xm_ok m" "at_block i c m rs" "packet_at c m rs" "tries m \<in> {1, 2, 3}"
    "line o0 c m (rs @ [4 - unat (tries m)]) []"
    using assms by (auto simp: xm_inv_def)
  obtain ch p u where g: "xbee_xmodem_getchar m = (ch, m\<lparr>stream_context := p\<rparr>)" "ready p"
    "outp p = outp (stream_context m)" and u: "inp (stream_context m) = u @ inp p" "ch \<noteq> XMODEM_ACK \<or> u = [6]"
    "u = [] \<and> ch = - ENODATA \<and> inp p = [] \<or> (\<exists>b. u = [b] \<and> ch = uint b)"
    using answer_ok[OF m(1)] .
  have ack: "acked i m' (length rs + count_list u 6)" if "stream_context m' = p" for m'
    using acked_used[of i m "length rs" u m'] m(2) u that by (simp add: at_block_def)
  let ?m = "m\<lparr>stream_context := p\<rparr>"
  have ok: "xm_ok ?m" using m(1) g(2) by simp
  show ?thesis
  proof (cases "ch = XMODEM_ACK")
    case True
    then have "u = [6]" using u(2) by simp
    let ?m' = "?m\<lparr>packet_num := packet_num m + 1, xm_state := XBEE_XMODEM_STATE_SEND\<rparr>"
    have "at_block i c ?m' (rs @ [4 - unat (tries m)])"
      using m(2,3) ack[of ?m'] \<open>u = [6]\<close> by (auto simp: at_block_def packet_at_def less_Suc_eq)
    moreover have "xm_ok ?m'" using ok by (simp add: xm_ok_def)
    moreover have "line o0 c ?m' (rs @ [4 - unat (tries m)]) []" using m(5) g(3) by (simp add: line_def)
    ultimately have "xm_inv o0 c i ?m'" 
      using m(3) by (auto simp: xm_inv_def packet_at_def intro!: exI[of _ "rs @ [4 - unat (tries m)]"])
    with True g show ?thesis by (simp add: tx_wait_ack_def)
  next
    case False
    show ?thesis
    proof (cases "ch < 0 \<and> uint (ucast now :: u16) - uint (timer m) < 10000")
      case True
      have "xm_inv o0 c i ?m" 
        using m ok g(3) ack[of ?m] assms(2)
        by (auto simp: xm_inv_def at_block_def packet_at_def line_def acked_def intro!: exI[of _ rs])
      with True False g show ?thesis by (simp add: tx_wait_ack_def)
    next
      case late: False
      let ?m' = "?m\<lparr>tries := tries m - 1\<rparr>"
      have ok': "xm_ok ?m'" "line o0 c ?m' (rs @ [4 - unat (tries m)]) []"
        using ok m(5) g(3) by (simp_all add: xm_ok_def line_def)
      show ?thesis
      proof (cases "tries m - 1 = 0")
        case True
        then show ?thesis
          using failure_inv[of ?m' o0 c "rs @ [4 - unat (tries m)]" 0 "- ETIMEDOUT" i] ok' False late g
          by (auto simp: tx_wait_ack_def Let_def)
      next
        case again: False
        have "xm_inv o0 c i (?m'\<lparr>xm_state := XBEE_XMODEM_STATE_RESEND\<rparr>)"
          using m ok' tries_dec[OF m(4) again] ack[of "?m'\<lparr>xm_state := XBEE_XMODEM_STATE_RESEND\<rparr>"]
          by (auto simp: xm_inv_def at_block_def packet_at_def line_def acked_def xm_ok_def intro!: exI[of _ rs])
        with False late again g show ?thesis by (auto simp: tx_wait_ack_def Let_def)
      qed
    qed
  qed
qed

lemma eof_inv:
  assumes "xm_inv o0 c i m" "xm_state m = XBEE_XMODEM_STATE_EOF"
  shows "\<exists>m'. tx_eof m now = (0, m') \<and> xm_inv o0 c i m'"
proof -
  obtain rs where m: "xm_ok m" "at_block i c m rs" "drop (length rs * bsize m) c = []" "tries m \<in> {1, 2, 3}"
    "line o0 c m rs (replicate (3 - unat (tries m)) XMODEM_EOT)"
    using assms by (auto simp: xm_inv_def)
  obtain r p where w: "wr (stream_context m) [XMODEM_EOT] 1 = (r, p)" by fastforce
  have m': "ready (stream_context m)" "stream_write m = wr" using m(1) by (auto simp: xm_ok_def)
  have q: "ready p" "r = 1" "outp p = outp (stream_context m) @ [XMODEM_EOT]" "inp p = inp (stream_context m)"
    using wr_ready[OF m'(1) _ _ _ w] by auto
  let ?m = "m\<lparr>stream_context := p, xm_state := XBEE_XMODEM_STATE_FINAL_ACK, timer := ucast now\<rparr>"
  have "unat (tries m) \<in> {1, 2, 3}" using m(4) by auto
  then have "replicate (4 - unat (tries m)) XMODEM_EOT = replicate (3 - unat (tries m)) XMODEM_EOT @ [XMODEM_EOT]"
    by (auto simp: numeral_eq_Suc)
  then have "line o0 c ?m rs (replicate (4 - unat (tries m)) XMODEM_EOT)"
    using m(5) q by (simp add: line_def)
  then have "xm_inv o0 c i ?m"
    using m(1-4) q by (auto simp: xm_inv_def xm_ok_def at_block_def acked_def)
  then show ?thesis using w m'(2) q(2) by (simp add: tx_eof_def xbee_xmodem_putchar_def)
qed

lemma final_ack_inv:
  assumes "xm_inv o0 c i m" "xm_state m = XBEE_XMODEM_STATE_FINAL_ACK"
  shows "\<exists>r m'. tx_final_ack m now = (r, m') \<and> xm_inv o0 c i m' \<and>
     (r = 1 \<longrightarrow> xm_state m' = XBEE_XMODEM_STATE_SUCCESS)"
proof -
  obtain rs where m: "xm_ok m" "at_block i c m rs" "drop (length rs * bsize m) c = []" "tries m \<in> {1, 2, 3}"
    "line o0 c m rs (replicate (4 - unat (tries m)) XMODEM_EOT)"
    using assms by (auto simp: xm_inv_def)
  obtain ch p u where g: "xbee_xmodem_getchar m = (ch, m\<lparr>stream_context := p\<rparr>)" "ready p"
    "outp p = outp (stream_context m)" and u: "inp (stream_context m) = u @ inp p" "ch \<noteq> XMODEM_ACK \<or> u = [6]"
    "u = [] \<and> ch = - ENODATA \<and> inp p = [] \<or> (\<exists>b. u = [b] \<and> ch = uint b)"
    using answer_ok[OF m(1)] .
  have ack: "acked i m' (length rs + count_list u 6)" if "stream_context m' = p" for m'
    using acked_used[of i m "length rs" u m'] m(2) u that by (simp add: at_block_def)
  have n: "unat (tries m) \<in> {1, 2, 3}" using m(4) by auto
  let ?m = "m\<lparr>stream_context := p\<rparr>"
  have ok: "xm_ok ?m" using m(1) g(2) by simp
  note inv = xm_inv_def at_block_def line_def acked_def xm_ok_def
  show ?thesis
  proof (cases "ch = XMODEM_ACK")
    case True
    let ?m' = "?m\<lparr>xm_state := XBEE_XMODEM_STATE_SUCCESS\<rparr>"
    have "acked i ?m' (Suc (length rs))" "acked i ?m' (length rs)"
      using ack[of ?m'] True u(2) by (auto simp: acked_def)
    moreover have "xm_ok ?m'" "line o0 c ?m' rs (replicate (4 - unat (tries m)) XMODEM_EOT)"
      "4 - unat (tries m) \<in> {1..3}"
      using ok m(5) g(3) n by (auto simp: xm_ok_def line_def)
    ultimately have "xm_inv o0 c i ?m'" using m(2,3) by (auto simp: xm_inv_def at_block_def)
    with True g show ?thesis by (simp add: tx_final_ack_def)
  next
    case False
    show ?thesis
    proof (cases "ch < 0 \<and> uint (ucast now :: u16) - uint (timer m) < 3000")
      case True
      have "xm_inv o0 c i ?m"
        using m ok g(3) ack[of ?m] assms(2) by (auto simp: inv intro!: exI[of _ rs])
      with True False g show ?thesis by (simp add: tx_final_ack_def)
    next
      case late: False
      let ?m' = "?m\<lparr>tries := tries m - 1\<rparr>"
      have ok': "xm_ok ?m'" "line o0 c ?m' rs (replicate (4 - unat (tries m)) XMODEM_EOT)" "4 - unat (tries m) \<le> 3"
        using ok m(5) g(3) n by (auto simp: xm_ok_def line_def)
      show ?thesis
      proof (cases "tries m - 1 = 0")
        case True
        then show ?thesis
          using failure_inv[OF ok', of "- ETIMEDOUT" i] False late g
          by (auto simp: tx_final_ack_def Let_def)
      next
        case again: False
        have "xm_inv o0 c i (?m'\<lparr>xm_state := XBEE_XMODEM_STATE_EOF\<rparr>)"
          using m ok' tries_dec[OF m(4) again] ack[of "?m'\<lparr>xm_state := XBEE_XMODEM_STATE_EOF\<rparr>"]
          by (auto simp: inv intro!: exI[of _ rs])
        with False late again g show ?thesis by (auto simp: tx_final_ack_def Let_def)
      qed
    qed
  qed
qed

text \<open>A tick returns once the bound exceeds the number of bytes waiting, and keeps the invariant.\<close>

lemma tick_inv:
  assumes "xm_inv o0 c i m" "length (inp (stream_context m)) < fuel"
  obtains r m' where "xbee_xmodem_tx_tick fuel m now = Some (r, m')" "xm_inv o0 c i m'"
    "r = 1 \<longrightarrow> xm_state m' = XBEE_XMODEM_STATE_SUCCESS"
proof -
  have buf: "buffer m \<noteq> None" using assms(1) by (auto simp: xm_inv_def xm_ok_def)
  have flush: "\<exists>m'. xbee_xmodem_tx_tick fuel m now = Some (0, m') \<and> xm_inv o0 c i m'"
    if st: "xm_state m = XBEE_XMODEM_STATE_FLUSH"
  proof -
    have m: "xm_ok m" "line o0 c m [] []" "rest (file_context m) = c" "acked i m 0"
      using assms st by (auto simp: xm_inv_def)
    obtain p b where p: "flush_stream fuel m = Some (m\<lparr>stream_context := p, buffer := Some b\<rparr>)"
      "xm_ok (m\<lparr>stream_context := p, buffer := Some b\<rparr>)" "outp p = outp (stream_context m)" "inp p = []"
      using flush_stream_ok[OF m(1) assms(2)] by blast
    let ?m = "m\<lparr>stream_context := p, buffer := Some b, xm_state := XBEE_XMODEM_STATE_START\<rparr>"
    have "xm_inv o0 c i ?m"
      using m(2-4) p(2-4) by (auto simp: xm_inv_def xm_ok_def line_def acked_def)
    from start_inv[OF this] assms(2) p buf st show ?thesis by (auto simp: xbee_xmodem_tx_tick_def)
  qed
  have "\<exists>r m'. xbee_xmodem_tx_tick fuel m now = Some (r, m') \<and> xm_inv o0 c i m' \<and>
      (r = 1 \<longrightarrow> xm_state m' = XBEE_XMODEM_STATE_SUCCESS)"
  proof (cases "xm_state m")
    case XBEE_XMODEM_STATE_FLUSH then show ?thesis using flush by fastforce
  next
    case XBEE_XMODEM_STATE_START
    with start_inv[OF assms(1) this assms(2), of now] buf show ?thesis by (auto simp: xbee_xmodem_tx_tick_def)
  next
    case XBEE_XMODEM_STATE_SEND
    with assms obtain rs where "xm_ok m" "at_block i c m rs" "line o0 c m rs []"
      "rest (file_context m) = drop (length rs * bsize m) c" by (auto simp: xm_inv_def)
    from send_inv[OF this assms(2), of now] XBEE_XMODEM_STATE_SEND buf
    show ?thesis by (auto simp: xbee_xmodem_tx_tick_def)
  next
    case XBEE_XMODEM_STATE_RESEND
    with resend_inv[OF assms(1) this, of now] buf show ?thesis by (auto simp: xbee_xmodem_tx_tick_def)
  next
    case XBEE_XMODEM_STATE_WAIT_ACK
    with wait_ack_inv[OF assms(1) this, of now] buf show ?thesis by (auto simp: xbee_xmodem_tx_tick_def)
  next
    case XBEE_XMODEM_STATE_EOF
    with eof_inv[OF assms(1) this, of now] buf show ?thesis by (auto simp: xbee_xmodem_tx_tick_def)
  next
    case XBEE_XMODEM_STATE_FINAL_ACK
    with final_ack_inv[OF assms(1) this, of now] buf show ?thesis by (auto simp: xbee_xmodem_tx_tick_def)
  qed (use assms(1) buf in \<open>auto simp: xbee_xmodem_tx_tick_def xm_inv_def\<close>)
  then show thesis using that by blast
qed

lemma arrive_inv:
  "xm_inv o0 c i m \<Longrightarrow> xm_inv o0 c (i @ bs) (m\<lparr>stream_context := feed (stream_context m) bs\<rparr>)"
  by (cases "xm_state m")
    (auto simp: xm_inv_def xm_ok_def line_def at_block_def packet_at_def acked_def feed intro!: exI)

lemma tick_inv_any:
  assumes "xm_inv o0 c i m" "xbee_xmodem_tx_tick fuel m now = Some (r, m')"
  shows "xm_inv o0 c i m' \<and> (r = 1 \<longrightarrow> xm_state m' = XBEE_XMODEM_STATE_SUCCESS)"
proof -
  let ?k = "max fuel (Suc (length (inp (stream_context m))))"
  obtain r1 m1 where "xbee_xmodem_tx_tick ?k m now = Some (r1, m1)" "xm_inv o0 c i m1"
    "r1 = 1 \<longrightarrow> xm_state m1 = XBEE_XMODEM_STATE_SUCCESS"
    by (rule tick_inv[OF assms(1), of ?k now]) auto
  moreover have "xbee_xmodem_tx_tick ?k m now = Some (r, m')" using tick_mono[OF assms(2)] by simp
  ultimately show ?thesis by simp
qed

lemma run_inv:
  "xm_run feed m0 i m \<Longrightarrow> xm_inv o0 c [] m0 \<Longrightarrow> xm_inv o0 c i m"
  by (induction rule: xm_run.induct) (auto intro: arrive_inv dest: tick_inv_any)

lemma inv_line: "xm_inv o0 c i m \<Longrightarrow> \<exists>ext. outp (stream_context m) = o0 @ ext"
  by (cases "xm_state m") (auto simp: xm_inv_def line_def)

text \<open>With a cooperating target every round comes closer to the end.\<close>

definition todo :: "('f, 's) xbee_xmodem_state_t \<Rightarrow> nat" where
  "todo m = (if xm_state m = XBEE_XMODEM_STATE_SUCCESS then 0
     else if xm_state m = XBEE_XMODEM_STATE_FINAL_ACK then 1
     else if xm_state m = XBEE_XMODEM_STATE_EOF then 2
     else if xm_state m = XBEE_XMODEM_STATE_SEND then 2 * length (rest (file_context m)) + 3
     else 2 * length (rest (file_context m)) + 4)"

definition coop_ok :: "bytes \<Rightarrow> bytes \<Rightarrow> ('f, 's) xbee_xmodem_state_t \<Rightarrow> bool" where
  "coop_ok o0 c m \<longleftrightarrow> inp (stream_context m) = [] \<and> (\<exists>i. xm_inv o0 c i m) \<and>
     xm_state m \<in> {XBEE_XMODEM_STATE_START, XBEE_XMODEM_STATE_SEND, XBEE_XMODEM_STATE_WAIT_ACK,
       XBEE_XMODEM_STATE_EOF, XBEE_XMODEM_STATE_FINAL_ACK, XBEE_XMODEM_STATE_SUCCESS}"

lemma after_send_todo:
  "after_send c n m \<Longrightarrow> 0 < n \<Longrightarrow> todo m < 2 * length c + 3"
  by (cases c) (auto simp: after_send_def todo_def)

lemma take_answer:
  assumes "xm_ok m" "inp (stream_context m) = [6]"
  obtains p where "xbee_xmodem_getchar m = (XMODEM_ACK, m\<lparr>stream_context := p\<rparr>)" "inp p = []"
    "ready p" "outp p = outp (stream_context m)"
proof -
  obtain ch p u where g: "xbee_xmodem_getchar m = (ch, m\<lparr>stream_context := p\<rparr>)" "ready p"
    "outp p = outp (stream_context m)" "inp (stream_context m) = u @ inp p" "ch \<noteq> XMODEM_ACK \<or> u = [6]"
    "u = [] \<and> ch = - ENODATA \<and> inp p = [] \<or> (\<exists>b. u = [b] \<and> ch = uint b)"
    using answer_ok[OF assms(1)] .
  with assms(2) have "ch = XMODEM_ACK" "inp p = []" by auto
  with g(1-3) that show thesis by simp
qed

lemma eof_keeps:
  assumes "xm_ok m" "inp (stream_context m) = []" "tx_eof m now = (r, m')"
  shows "xm_state m' = XBEE_XMODEM_STATE_FINAL_ACK \<and> inp (stream_context m') = []"
proof -
  obtain r1 p where w: "wr (stream_context m) [XMODEM_EOT] 1 = (r1, p)" by fastforce
  have "ready (stream_context m)" "stream_write m = wr" using assms(1) by (auto simp: xm_ok_def)
  with wr_ready[OF this(1) _ _ _ w] w assms(2,3) show ?thesis
    by (auto simp: tx_eof_def xbee_xmodem_putchar_def)
qed

lemma coop_step_ok:
  assumes "coop_ok o0 c m" "2 \<le> fuel"
  obtains m' where
    "xbee_xmodem_tx_tick fuel (m\<lparr>stream_context := feed (stream_context m) (answer (xm_state m))\<rparr>) now =
       Some (if xm_state m' = XBEE_XMODEM_STATE_SUCCESS then 1 else 0, m')"
    "coop_ok o0 c m'" "todo m' < todo m \<or> todo m' = 0"
proof -
  define m1 where "m1 = m\<lparr>stream_context := feed (stream_context m) (answer (xm_state m))\<rparr>"
  obtain i where inv: "xm_inv o0 c i m1"
    using assms(1) arrive_inv unfolding coop_ok_def m1_def by blast
  have m1: "inp (stream_context m1) = answer (xm_state m)" "xm_state m1 = xm_state m"
    "file_context m1 = file_context m" "length (inp (stream_context m1)) < fuel" "xm_flags m1 = xm_flags m"
    using assms by (auto simp: m1_def feed coop_ok_def answer_def)
  have ok: "xm_ok m1" and buf: "buffer m1 \<noteq> None"
    using inv by (auto simp: xm_inv_def xm_ok_def)
  have pos: "0 < bsize m1" using xm_block_size_range[of "xm_flags m1"] by auto
  note fin0 = that
  have fin: thesis if that': "xbee_xmodem_tx_tick fuel m1 now =
       Some (if xm_state m' = XBEE_XMODEM_STATE_SUCCESS then 1 else 0, m')"
    "coop_ok o0 c m'" "todo m' < todo m \<or> todo m' = 0" for m'
    by (rule fin0[of m']) (use that' in \<open>simp_all only: m1_def\<close>)
  note [simp] = xbee_xmodem_tx_tick_def
  consider "xm_state m = XBEE_XMODEM_STATE_START" | "xm_state m = XBEE_XMODEM_STATE_SEND"
    | "xm_state m = XBEE_XMODEM_STATE_WAIT_ACK" | "xm_state m = XBEE_XMODEM_STATE_EOF"
    | "xm_state m = XBEE_XMODEM_STATE_FINAL_ACK" | "xm_state m = XBEE_XMODEM_STATE_SUCCESS"
    using assms(1) by (auto simp: coop_ok_def)
  then show thesis
  proof cases
    case 1
    obtain m' where m': "tx_start fuel m1 now = Some (0, m')" "xm_inv o0 c i m'" "after_send c (bsize m1) m'"
      using start_inv[OF inv _ m1(4), of now] 1 m1 by (auto simp: answer_def)
    have "c = rest (file_context m)" using inv 1 m1 by (auto simp: xm_inv_def)
    then have "todo m' < todo m" using after_send_todo[OF m'(3) pos] 1 by (simp add: todo_def)
    then show thesis
      using m' 1 m1 buf by (intro fin[of m']) (auto simp: coop_ok_def after_send_def split: if_splits)
  next
    case 2
    obtain rs where "at_block i c m1 rs" "line o0 c m1 rs []" "rest (file_context m1) = drop (length rs * bsize m1) c"
      using inv 2 m1 by (auto simp: xm_inv_def)
    from send_inv[OF ok this m1(4), of now] obtain m' where
      m': "tx_send fuel m1 now = Some (0, m')" "xm_inv o0 c i m'" "after_send (rest (file_context m1)) (bsize m1) m'"
      using 2 m1 by (auto simp: answer_def)
    have "todo m' < todo m" using after_send_todo[OF m'(3) pos] 2 m1(3) by (simp add: todo_def)
    then show thesis
      using m' 2 m1 buf by (intro fin[of m']) (auto simp: coop_ok_def after_send_def split: if_splits)
  next
    case 3
    then obtain p where p: "xbee_xmodem_getchar m1 = (XMODEM_ACK, m1\<lparr>stream_context := p\<rparr>)" "inp p = []"
      using take_answer[OF ok] m1 by (auto simp: answer_def)
    let ?m = "m1\<lparr>stream_context := p, packet_num := packet_num m1 + 1, xm_state := XBEE_XMODEM_STATE_SEND\<rparr>"
    have "tx_wait_ack m1 now = (0, ?m)" using p by (simp add: tx_wait_ack_def)
    with wait_ack_inv[OF inv, of now] 3 m1 p buf show thesis
      by (intro fin[of ?m]) (auto simp: coop_ok_def todo_def)
  next
    case 4
    obtain m' where m': "tx_eof m1 now = (0, m')" "xm_inv o0 c i m'"
      using eof_inv[OF inv, of now] 4 m1 by auto
    with eof_keeps[OF ok _ m'(1)] 4 m1 buf show thesis
      by (intro fin[of m']) (auto simp: coop_ok_def todo_def answer_def)
  next
    case 5
    then obtain p where p: "xbee_xmodem_getchar m1 = (XMODEM_ACK, m1\<lparr>stream_context := p\<rparr>)" "inp p = []"
      using take_answer[OF ok] m1 by (auto simp: answer_def)
    let ?m = "m1\<lparr>stream_context := p, xm_state := XBEE_XMODEM_STATE_SUCCESS\<rparr>"
    have "tx_final_ack m1 now = (1, ?m)" using p by (simp add: tx_final_ack_def)
    with final_ack_inv[OF inv, of now] 5 m1 p buf show thesis
      by (intro fin[of ?m]) (auto simp: coop_ok_def todo_def)
  next
    case 6
    then show thesis using inv m1 buf
      by (intro fin[of m1]) (auto simp: coop_ok_def todo_def answer_def)
  qed
qed

lemma coop_succeeds:
  "coop_ok o0 c m \<Longrightarrow> 2 \<le> fuel \<Longrightarrow> todo m \<le> length ts \<Longrightarrow>
   \<exists>m'. coop feed fuel ts m = Some m' \<and> coop_ok o0 c m' \<and> todo m' = 0"
proof (induction ts arbitrary: m)
  case (Cons t ts)
  obtain m1 where m1: "coop_step feed fuel t m = Some m1" "coop_ok o0 c m1" "todo m1 < todo m \<or> todo m1 = 0"
    by (rule coop_step_ok[OF Cons.prems(1,2), of t]) (auto simp: coop_step_def)
  with Cons.IH[OF m1(2) Cons.prems(2)] Cons.prems(3) show ?case by fastforce
qed auto

end

end
