(* ===== verification/Xbee_Firmware.thy ===== *)
theory Xbee_Firmware
  imports Xbee_Device Xbee_Xmodem_Protocol
begin

text \<open>
  \<open>src/Software/lib/XBee/src/xbee/xbee_firmware.c\<close>: installing a firmware image. The part for
  \<open>.EBL\<close> files (and the \<open>.bin\<close> files of programmable modules) resets the module into its
  boot loader and sends the image with XMODEM. The image comes from functions of the caller; the
  library's own ones read it from memory. The XMODEM state of the source works on the device's
  port, the source's buffer and the source's context through pointers; they are kept in one
  place each and lent to it for the call.
\<close>

section \<open>Images in memory\<close>

record xbee_fw_buffer_t =
  fw_length :: u32
  fw_address :: bytes
  fw_offset :: u32

definition xbee_fw_buffer_seek :: "xbee_fw_buffer_t \<Rightarrow> u32 \<Rightarrow> int \<times> xbee_fw_buffer_t" where
  "xbee_fw_buffer_seek fw offs =
     (if offs > fw_length fw then (- EINVAL, fw) else (0, fw\<lparr>fw_offset := offs\<rparr>))"

text \<open>\<open>bytes\<close> is an \<open>int16_t\<close>; comparing it with \<open>bytes_left\<close> converts it to 32 bits unsigned.\<close>

definition xbee_fw_buffer_read :: "xbee_fw_buffer_t xbee_xmodem_read_fn" where
  "xbee_fw_buffer_read fw bytes =
     (let file_offset = fw_offset fw;
          bytes_left = fw_length fw - file_offset
      in if bytes_left = 0 then (- ENODATA, [], fw)
         else
           let n = (if (of_int bytes :: u32) > bytes_left then sint (ucast bytes_left :: u16) else bytes)
           in (n, take (nat n) (drop (unat file_offset) (fw_address fw)),
               fw\<lparr>fw_offset := fw_offset fw + of_int n\<rparr>))"

text \<open>The address is \<open>None\<close> for a null pointer.\<close>

definition xbee_fw_buffer_init :: "xbee_fw_buffer_t \<Rightarrow> u32 \<Rightarrow> bytes option \<Rightarrow> int \<times> xbee_fw_buffer_t" where
  "xbee_fw_buffer_init fw len address =
     (if len = 0 \<or> address = None then (- EINVAL, fw)
      else (0, fw\<lparr>fw_length := len, fw_address := the address, fw_offset := 0\<rparr>))"

section \<open>Installing an image\<close>

datatype xbee_fw_state =
    XBEE_FW_STATE_INIT | XBEE_FW_STATE_RESET | XBEE_FW_STATE_TOGGLE | XBEE_FW_STATE_BREAK
  | XBEE_FW_STATE_PROMPT | XBEE_FW_STATE_XMODEM_WAIT | XBEE_FW_STATE_XMODEM_SEND | XBEE_FW_STATE_XMODEM_DONE
  | XBEE_FW_STATE_FINAL_PROMPT
  | XBEE_FW_STATE_CMD_PENDING | XBEE_FW_STATE_CMD | XBEE_FW_STATE_PARSE_RESPONSE | XBEE_FW_STATE_CMD_HV
  | XBEE_FW_STATE_CMD_COMPAT | XBEE_FW_STATE_CMD_VR | XBEE_FW_STATE_CMD_CF1 | XBEE_FW_STATE_CMD_SL
  | XBEE_FW_STATE_CMD_PROG | XBEE_FW_STATE_CMD_FR | XBEE_FW_STATE_BOOTLOADER | XBEE_FW_STATE_TX_START
  | XBEE_FW_STATE_TX_BLOCK | XBEE_FW_STATE_SENDING | XBEE_FW_STATE_RX_BLOCK | XBEE_FW_STATE_RX_FAIL
  | XBEE_FW_STATE_DONE | XBEE_FW_STATE_FAILURE | XBEE_FW_STATE_SUCCESS

text \<open>
  An installation uses one member of the union \<open>u\<close>, by the kind of the file; both are kept, and
  neither part of the code reads the other's.
\<close>

record xbee_fw_oem_state_t =
  firmware_length :: u32
  block_offset :: u32
  cur_offset :: u32
  block_length :: u16

record ('a, 'f) xbee_fw_source_t =
  fw_xbee :: "'a xbee_dev_t"
  fw_state :: xbee_fw_state
  fw_next_state :: xbee_fw_state
  fw_tries :: int
  bootloader_cmd :: u8
  fw_timer :: u32
  xbxm :: "('f, xbee_serial_t) xbee_xmodem_state_t"
  oem :: xbee_fw_oem_state_t
  fw_buffer :: bytes
  fw_seek :: "'f \<Rightarrow> u32 \<Rightarrow> int \<times> 'f"
  fw_read :: "'f xbee_xmodem_read_fn"
  fw_context :: 'f

abbreviation (input) EBADMSG :: int where "EBADMSG \<equiv> 74"

abbreviation (input) XBEE_FW_LOAD_TIMEOUT :: u32 where "XBEE_FW_LOAD_TIMEOUT \<equiv> 5000"

text \<open>\<open>target\<close> says whether an address of a remote module is given.\<close>

definition xbee_fw_install_init ::
  "'a xbee_dev_t \<Rightarrow> bool \<Rightarrow> ('a, 'f) xbee_fw_source_t \<Rightarrow> int \<times> ('a, 'f) xbee_fw_source_t" where
  "xbee_fw_install_init x target s =
     (if target then (- EINVAL, s)
      else if \<not> has_reset x then (- EIO, s)
      else (0, s\<lparr>fw_xbee := x, fw_state := XBEE_FW_STATE_INIT, bootloader_cmd := 0x31\<rparr>))"

abbreviation fw_port :: "('a, 'f) xbee_fw_source_t \<Rightarrow> xbee_serial_t" where
  "fw_port s \<equiv> serport (fw_xbee s)"

definition set_port :: "xbee_serial_t \<Rightarrow> ('a, 'f) xbee_fw_source_t \<Rightarrow> ('a, 'f) xbee_fw_source_t" where
  "set_port p s = s\<lparr>fw_xbee := (fw_xbee s)\<lparr>serport := p\<rparr>\<rparr>"

definition time_elapsed :: "('a, 'f) xbee_fw_source_t \<Rightarrow> u32 \<Rightarrow> u32 \<Rightarrow> bool" where
  "time_elapsed s now x \<longleftrightarrow> now - fw_timer s > x"

text \<open>The timeout at the end of the function.\<close>

definition ebl_timeout :: "('a, 'f) xbee_fw_source_t \<Rightarrow> u32 \<Rightarrow> int \<times> ('a, 'f) xbee_fw_source_t" where
  "ebl_timeout s now =
     (if time_elapsed s now XBEE_FW_LOAD_TIMEOUT then
        let s = s\<lparr>fw_tries := fw_tries s + 1\<rparr> in
        if fw_tries s < 3 then (0, s\<lparr>fw_state := XBEE_FW_STATE_RESET, fw_timer := now\<rparr>)
        else (- ETIMEDOUT, s)
      else (0, s))"

definition ebl_reset :: "('a, 'f) xbee_fw_source_t \<Rightarrow> u32 \<Rightarrow> int \<Rightarrow> int \<times> ('a, 'f) xbee_fw_source_t" where
  "ebl_reset s now fd =
     (let x = fw_xbee s;
          x = x\<lparr>reset_calls := reset_calls x @ [False]\<rparr>;
          p = snd (xbee_ser_open (serport x) 115200 fd);
          p = snd (xbee_ser_flowcontrol p True);
          p = snd (xbee_ser_set_rts p False);
          p = snd (xbee_ser_break p True);
          x = snd (xbee_dev_reset (x\<lparr>serport := p\<rparr>))
      in ebl_timeout (s\<lparr>fw_xbee := x, fw_timer := now, fw_state := XBEE_FW_STATE_BREAK\<rparr>) now)"

definition ebl_break :: "('a, 'f) xbee_fw_source_t \<Rightarrow> u32 \<Rightarrow> int \<times> ('a, 'f) xbee_fw_source_t" where
  "ebl_break s now =
     (if time_elapsed s now 150 then
        let p = snd (xbee_ser_break (fw_port s) False);
            p = snd (xbee_ser_flowcontrol p True);
            p = snd (xbee_ser_set_rts p True);
            p = snd (xbee_ser_putchar p 0x0D)
        in ebl_timeout ((set_port p s)\<lparr>fw_timer := now, fw_state := XBEE_FW_STATE_PROMPT\<rparr>) now
      else ebl_timeout s now)"

definition ebl_prompt :: "('a, 'f) xbee_fw_source_t \<Rightarrow> u32 \<Rightarrow> int \<times> ('a, 'f) xbee_fw_source_t" where
  "ebl_prompt s now =
     (let (ch, p) = xbee_ser_getchar (fw_port s) in
      if ch = 0x3E then
        let p = snd (xbee_ser_putchar p (bootloader_cmd s))
        in ebl_timeout ((set_port p s)\<lparr>fw_timer := now, fw_state := XBEE_FW_STATE_XMODEM_WAIT\<rparr>) now
      else ebl_timeout (set_port p s) now)"

definition ebl_xmodem_wait :: "('a, 'f) xbee_fw_source_t \<Rightarrow> u32 \<Rightarrow> int \<times> ('a, 'f) xbee_fw_source_t" where
  "ebl_xmodem_wait s now =
     (let (ch, p) = xbee_ser_getchar (fw_port s);
          s = set_port p s
      in if ch = 0x43 then
           let m = snd (xbee_xmodem_use_serport (xbxm s) p);
               m = snd (xbee_xmodem_set_source m (Some (fw_buffer s)) (Some (fw_read s)) (fw_context s));
               (result, m) = xbee_xmodem_tx_init m XBEE_XMODEM_FLAG_FORCE_CRC
           in (result, s\<lparr>xbxm := m,
                 fw_state := (if result \<noteq> 0 then XBEE_FW_STATE_FAILURE else XBEE_FW_STATE_XMODEM_SEND)\<rparr>)
         else ebl_timeout s now)"

text \<open>Lending the port, the buffer and the context to the XMODEM state, and taking them back.\<close>

definition fw_lend :: "('a, 'f) xbee_fw_source_t \<Rightarrow> ('f, xbee_serial_t) xbee_xmodem_state_t" where
  "fw_lend s = (xbxm s)\<lparr>stream_context := fw_port s, file_context := fw_context s, buffer := Some (fw_buffer s)\<rparr>"

definition fw_return :: "('f, xbee_serial_t) xbee_xmodem_state_t \<Rightarrow> ('a, 'f) xbee_fw_source_t \<Rightarrow> ('a, 'f) xbee_fw_source_t" where
  "fw_return m s =
     (set_port (stream_context m) s)\<lparr>xbxm := m, fw_buffer := the (buffer m), fw_context := file_context m\<rparr>"

definition ebl_xmodem_send ::
  "nat \<Rightarrow> ('a, 'f) xbee_fw_source_t \<Rightarrow> u32 \<Rightarrow> (int \<times> ('a, 'f) xbee_fw_source_t) option" where
  "ebl_xmodem_send fuel s now =
     map_option (\<lambda>(result, m).
         let s = fw_return m s in
         if result = 1 then (0, s\<lparr>fw_state := XBEE_FW_STATE_XMODEM_DONE, fw_timer := now\<rparr>)
         else if result \<noteq> 0 then (result, s\<lparr>fw_state := XBEE_FW_STATE_FAILURE\<rparr>)
         else (result, s))
       (xbee_xmodem_tx_tick fuel (fw_lend s) now)"

definition ebl_final_prompt :: "('a, 'f) xbee_fw_source_t \<Rightarrow> u32 \<Rightarrow> int \<times> ('a, 'f) xbee_fw_source_t" where
  "ebl_final_prompt s now =
     (let (ch, p) = xbee_ser_getchar (fw_port s) in
      if ch \<noteq> 0x3E then ebl_timeout (set_port p s) now
      else
        let p = snd (xbee_ser_putchar p 0x32)
        in (1, (set_port p s)\<lparr>fw_timer := now, fw_state := XBEE_FW_STATE_SUCCESS\<rparr>))"

definition ebl_xmodem_done :: "('a, 'f) xbee_fw_source_t \<Rightarrow> u32 \<Rightarrow> int \<times> ('a, 'f) xbee_fw_source_t" where
  "ebl_xmodem_done s now =
     (if \<not> time_elapsed s now 3000 then (0, s)
      else
        let p = snd (xbee_ser_putchar (fw_port s) 0x0D)
        in ebl_final_prompt ((set_port p s)\<lparr>fw_timer := now, fw_state := XBEE_FW_STATE_FINAL_PROMPT\<rparr>) now)"

text \<open>\<open>fd\<close> is the descriptor the system returns when the port is opened again.\<close>

definition xbee_fw_install_ebl_tick ::
  "nat \<Rightarrow> ('a, 'f) xbee_fw_source_t \<Rightarrow> u32 \<Rightarrow> int \<Rightarrow> (int \<times> ('a, 'f) xbee_fw_source_t) option" where
  "xbee_fw_install_ebl_tick fuel s now fd =
     (case fw_state s of
        XBEE_FW_STATE_INIT \<Rightarrow> Some (ebl_reset (s\<lparr>fw_tries := 0\<rparr>) now fd)
      | XBEE_FW_STATE_RESET \<Rightarrow> Some (ebl_reset s now fd)
      | XBEE_FW_STATE_BREAK \<Rightarrow> Some (ebl_break s now)
      | XBEE_FW_STATE_PROMPT \<Rightarrow> Some (ebl_prompt s now)
      | XBEE_FW_STATE_XMODEM_WAIT \<Rightarrow> Some (ebl_xmodem_wait s now)
      | XBEE_FW_STATE_XMODEM_SEND \<Rightarrow> ebl_xmodem_send fuel s now
      | XBEE_FW_STATE_XMODEM_DONE \<Rightarrow> Some (ebl_xmodem_done s now)
      | XBEE_FW_STATE_FINAL_PROMPT \<Rightarrow> Some (ebl_final_prompt s now)
      | XBEE_FW_STATE_SUCCESS \<Rightarrow> Some (1, s)
      | XBEE_FW_STATE_FAILURE \<Rightarrow> Some (- EIO, s)
      | _ \<Rightarrow> Some (- EBADMSG, s))"

definition xbee_fw_install_hcs08_tick ::
  "nat \<Rightarrow> ('a, 'f) xbee_fw_source_t \<Rightarrow> u32 \<Rightarrow> int \<Rightarrow> (int \<times> ('a, 'f) xbee_fw_source_t) option" where
  "xbee_fw_install_hcs08_tick fuel s now fd =
     (let s = (if fw_state s = XBEE_FW_STATE_INIT then s\<lparr>bootloader_cmd := 0x46\<rparr> else s) in
      map_option (\<lambda>(result, s).
          if result \<ge> 0 \<and> fw_state s = XBEE_FW_STATE_FINAL_PROMPT
          then (1, s\<lparr>fw_state := XBEE_FW_STATE_SUCCESS\<rparr>) else (result, s))
        (xbee_fw_install_ebl_tick fuel s now fd))"

section \<open>Progress shown to the user\<close>

text \<open>The numbers of the states in the source's enumeration.\<close>

fun fw_state_num :: "xbee_fw_state \<Rightarrow> nat" where
  "fw_state_num XBEE_FW_STATE_INIT = 0"
| "fw_state_num XBEE_FW_STATE_RESET = 1"
| "fw_state_num XBEE_FW_STATE_TOGGLE = 2"
| "fw_state_num XBEE_FW_STATE_BREAK = 3"
| "fw_state_num XBEE_FW_STATE_PROMPT = 4"
| "fw_state_num XBEE_FW_STATE_XMODEM_WAIT = 5"
| "fw_state_num XBEE_FW_STATE_XMODEM_SEND = 6"
| "fw_state_num XBEE_FW_STATE_XMODEM_DONE = 7"
| "fw_state_num XBEE_FW_STATE_FINAL_PROMPT = 8"
| "fw_state_num XBEE_FW_STATE_CMD_PENDING = 9"
| "fw_state_num XBEE_FW_STATE_CMD = 10"
| "fw_state_num XBEE_FW_STATE_PARSE_RESPONSE = 11"
| "fw_state_num XBEE_FW_STATE_CMD_HV = 12"
| "fw_state_num XBEE_FW_STATE_CMD_COMPAT = 13"
| "fw_state_num XBEE_FW_STATE_CMD_VR = 14"
| "fw_state_num XBEE_FW_STATE_CMD_CF1 = 15"
| "fw_state_num XBEE_FW_STATE_CMD_SL = 16"
| "fw_state_num XBEE_FW_STATE_CMD_PROG = 17"
| "fw_state_num XBEE_FW_STATE_CMD_FR = 18"
| "fw_state_num XBEE_FW_STATE_BOOTLOADER = 19"
| "fw_state_num XBEE_FW_STATE_TX_START = 20"
| "fw_state_num XBEE_FW_STATE_TX_BLOCK = 21"
| "fw_state_num XBEE_FW_STATE_SENDING = 22"
| "fw_state_num XBEE_FW_STATE_RX_BLOCK = 23"
| "fw_state_num XBEE_FW_STATE_RX_FAIL = 24"
| "fw_state_num XBEE_FW_STATE_DONE = 25"
| "fw_state_num XBEE_FW_STATE_FAILURE = 26"
| "fw_state_num XBEE_FW_STATE_SUCCESS = 27"

definition xbee_fw_install_ebl_state :: "('a, 'f) xbee_fw_source_t \<Rightarrow> u32" where
  "xbee_fw_install_ebl_state s =
     push_bit 6 (ucast (packet_num (xbxm s))) OR of_nat (fw_state_num (fw_state s))"

fun dec_digits :: "nat \<Rightarrow> string" where
  "dec_digits n = (if n < 10 then [] else dec_digits (n div 10)) @ [char_of (48 + n mod 10)]"

declare dec_digits.simps [simp del]

definition xbee_fw_status_ebl :: "('a, 'f) xbee_fw_source_t \<Rightarrow> string" where
  "xbee_fw_status_ebl s =
     (case fw_state s of
        XBEE_FW_STATE_SUCCESS \<Rightarrow> ''Install successful.''
      | XBEE_FW_STATE_DONE \<Rightarrow> ''Install successful.''
      | XBEE_FW_STATE_FAILURE \<Rightarrow> ''Install failed.''
      | XBEE_FW_STATE_INIT \<Rightarrow> ''Starting update.''
      | XBEE_FW_STATE_RESET \<Rightarrow> ''Starting update.''
      | XBEE_FW_STATE_BREAK \<Rightarrow> ''Generating serial break on transmit pin.''
      | XBEE_FW_STATE_PROMPT \<Rightarrow> ''Waiting for response from bootloader.''
      | XBEE_FW_STATE_XMODEM_WAIT \<Rightarrow> ''Waiting to start XMODEM send.''
      | XBEE_FW_STATE_XMODEM_SEND \<Rightarrow>
          let packet = ''XMODEM Packet '' @ dec_digits (unat (packet_num (xbxm s))) in
          (case xm_state (xbxm s) of
             XBEE_XMODEM_STATE_FLUSH \<Rightarrow> ''XMODEM: Starting transfer...''
           | XBEE_XMODEM_STATE_START \<Rightarrow> ''XMODEM: Starting transfer...''
           | XBEE_XMODEM_STATE_SEND \<Rightarrow> packet @ '': data.''
           | XBEE_XMODEM_STATE_RESEND \<Rightarrow> packet @ '': data.''
           | XBEE_XMODEM_STATE_SENDING \<Rightarrow> packet @ '': data.''
           | XBEE_XMODEM_STATE_WAIT_ACK \<Rightarrow> packet @ '': data, checksum, ACK.''
           | XBEE_XMODEM_STATE_EOF \<Rightarrow> ''XMODEM: done sending, wait for final ACK.''
           | XBEE_XMODEM_STATE_FINAL_ACK \<Rightarrow> ''XMODEM: done sending, wait for final ACK.''
           | XBEE_XMODEM_STATE_SUCCESS \<Rightarrow> ''XMODEM: transfer successful.''
           | XBEE_XMODEM_STATE_FAILURE \<Rightarrow> ''XMODEM: transfer failed.'')
      | XBEE_FW_STATE_XMODEM_DONE \<Rightarrow> ''Update complete, rebooting into new firmware.''
      | XBEE_FW_STATE_FINAL_PROMPT \<Rightarrow> ''Update complete, rebooting into new firmware.''
      | st \<Rightarrow> ''Invalid state '' @ dec_digits (fw_state_num st) @ ''.'')"

section \<open>Memory images and serial ports as ends of a transfer\<close>

definition fw_ok :: "xbee_fw_buffer_t \<Rightarrow> bool" where
  "fw_ok fw \<longleftrightarrow> fw_offset fw \<le> fw_length fw \<and> unat (fw_length fw) \<le> length (fw_address fw)"

definition fw_rest :: "xbee_fw_buffer_t \<Rightarrow> bytes" where
  "fw_rest fw = drop (unat (fw_offset fw)) (take (unat (fw_length fw)) (fw_address fw))"

definition ser_feed :: "xbee_serial_t \<Rightarrow> bytes \<Rightarrow> xbee_serial_t" where
  "ser_feed s bs = s\<lparr>os_rx := os_rx s @ bs\<rparr>"

lemma sint_ucast_small:
  assumes "unat (w :: u32) < 2 ^ 15"
  shows "sint (ucast w :: u16) = int (unat w)"
proof -
  have "unat (ucast w :: u16) = unat w"
    using assms by (simp add: unsigned_ucast_eq take_bit_eq_mod)
  then have u: "uint (ucast w :: u16) = int (unat w)" by (simp only: uint_nat)
  have "signed_take_bit 15 (int k) = int k" if "k < 2 ^ 15" for k
    using that by (intro signed_take_bit_int_eq_self) simp_all
  from this[OF assms] show ?thesis unfolding sint_uint u by simp
qed

text \<open>A read that is not at the end, in terms of natural numbers.\<close>

lemma fw_buffer_read_min:
  assumes "fw_ok fw" "0 < N" "N < 2 ^ 15"
  defines "k \<equiv> min N (unat (fw_length fw) - unat (fw_offset fw))"
  assumes "fw_offset fw \<noteq> fw_length fw"
  shows "xbee_fw_buffer_read fw (int N) =
     (int k, take k (drop (unat (fw_offset fw)) (fw_address fw)), fw\<lparr>fw_offset := fw_offset fw + of_nat k\<rparr>)"
proof -
  let ?left = "fw_length fw - fw_offset fw"
  have left: "unat ?left = unat (fw_length fw) - unat (fw_offset fw)"
    using assms(1) by (simp add: fw_ok_def unat_sub)
  have N: "unat (of_nat N :: u32) = N" using assms(3) by (simp add: unat_of_nat)
  have "(if (of_nat N :: u32) > ?left then sint (ucast ?left :: u16) else int N) = int k"
    using sint_ucast_small[of ?left] left N assms(3) by (auto simp: k_def word_less_nat_alt)
  then show ?thesis
    using assms(5) by (simp add: xbee_fw_buffer_read_def Let_def)
qed

lemma fw_buffer_read_block:
  assumes "fw_ok fw" "0 < n" "n < 2 ^ 15" "xbee_fw_buffer_read fw n = (r, bs, fw')"
  shows "fw_ok fw' \<and> bs = take (nat n) (fw_rest fw) \<and> fw_rest fw' = drop (nat n) (fw_rest fw) \<and>
     (if fw_rest fw = [] then r = 0 \<or> r = - ENODATA else r = int (length bs))"
proof (cases "fw_offset fw = fw_length fw")
  case True
  then have "fw_rest fw = []" by (simp add: fw_rest_def)
  then show ?thesis using assms(1,4) True by (auto simp: xbee_fw_buffer_read_def Let_def)
next
  case False
  define L F k where "L = unat (fw_length fw)" and "F = unat (fw_offset fw)" and "k = min (nat n) (L - F)"
  have addr: "F < L" "L \<le> length (fw_address fw)"
    using assms(1) False by (auto simp: fw_ok_def L_def F_def word_le_nat_alt word_unat_eq_iff)
  have rd: "r = int k" "bs = take k (drop F (fw_address fw))" "fw' = fw\<lparr>fw_offset := fw_offset fw + of_nat k\<rparr>"
    using fw_buffer_read_min[OF assms(1), of "nat n"] assms(2-4) False by (auto simp: k_def L_def F_def)
  have "F + k \<le> L" using addr by (simp add: k_def)
  also have "L < 2 ^ 32" unfolding L_def using unat_word_bounds(3)[of "fw_length fw"] by simp
  finally have "F + k < 2 ^ 32" .
  then have off: "unat (fw_offset fw + of_nat k) = F + k"
    by (simp add: unat_word_ariths unat_of_nat F_def)
  have rest: "fw_rest fw = take (L - F) (drop F (fw_address fw))"
    by (simp add: fw_rest_def L_def F_def drop_take)
  have "fw_ok fw'" using assms(1) off addr by (auto simp: fw_ok_def rd word_le_nat_alt k_def L_def F_def)
  moreover have "bs = take (nat n) (fw_rest fw)" by (simp add: rest rd(2) k_def)
  moreover have "fw_rest fw' = drop (nat n) (fw_rest fw)"
  proof -
    have "fw_rest fw' = take (L - (F + k)) (drop (F + k) (fw_address fw))"
      by (simp add: fw_rest_def rd(3) off drop_take L_def)
    then show ?thesis
      using addr(1) by (cases "nat n \<le> L - F") (simp_all add: rest k_def drop_take add.commute)
  qed
  moreover have "fw_rest fw \<noteq> []" "r = int (length bs)" using addr by (auto simp: rest rd k_def)
  ultimately show ?thesis by simp
qed

interpretation image: block_source xbee_fw_buffer_read fw_rest fw_ok
  by unfold_locales (rule fw_buffer_read_block)

interpretation fwlink: xmodem_link xbee_xmodem_ser_read xbee_xmodem_ser_write os_rx os_tx ser_ready
    xbee_fw_buffer_read fw_rest fw_ok ser_feed
proof (unfold_locales, goal_cases)
  case (1 p n r bs q)
  then show ?case unfolding xbee_xmodem_ser_read_def by (intro port.rd_ready)
next
  case (2 p n bs r q)
  then show ?case unfolding xbee_xmodem_ser_write_def by (intro port.wr_ready)
qed (simp_all add: ser_feed_def ser_ready_def)

section \<open>Sending an image\<close>

text \<open>The XMODEM state at the start of a transfer of a memory image over a serial port.\<close>

definition xm_setup ::
  "(xbee_fw_buffer_t, xbee_serial_t) xbee_xmodem_state_t \<Rightarrow> xbee_serial_t \<Rightarrow> bytes \<Rightarrow> xbee_fw_buffer_t \<Rightarrow> u16 \<Rightarrow>
   (xbee_fw_buffer_t, xbee_serial_t) xbee_xmodem_state_t" where
  "xm_setup m ser buf fw flags =
     (let m = snd (xbee_xmodem_use_serport m ser);
          m = snd (xbee_xmodem_set_source m (Some buf) (Some xbee_fw_buffer_read) fw)
      in snd (xbee_xmodem_tx_init m flags))"

lemma xm_setup_inv:
  assumes "ser_ready ser" "fw_ok fw" "xm_block_size (flags AND XBEE_XMODEM_FLAG_USER) + 5 \<le> length buf"
  shows "fwlink.xm_inv (os_tx ser) (fw_rest fw) (os_rx ser) (xm_setup m ser buf fw flags)"
  using assms
  by (simp add: fwlink.xm_inv_def fwlink.xm_ok_def fwlink.line_def fwlink.acked_def xm_setup_def Let_def
      xbee_xmodem_use_serport_def xbee_xmodem_set_stream_def xbee_xmodem_set_source_def xbee_xmodem_tx_init_def)

text \<open>
  C5: a finished transfer is a complete one. Whatever the target sends and whenever the sender
  ticks: when the sender is in the success state, the line carries the packets of all blocks of
  the image in order, each at least once and at most three times in a row, with nothing in
  between, then one to three end markers; and at least one acknowledgement more than there are
  blocks has arrived.
\<close>

theorem xmodem_success_complete:
  assumes "ser_ready ser" "os_rx ser = []" "fw_ok fw"
    and "xm_block_size (flags AND XBEE_XMODEM_FLAG_USER) + 5 \<le> length buf"
    and "xm_run ser_feed (xm_setup m ser buf fw flags) i m'" "xm_state m' = XBEE_XMODEM_STATE_SUCCESS"
  shows "\<exists>rs e. os_tx (stream_context m') =
       os_tx ser @ xm_runs (xm_flags m') 1 (fw_rest fw) rs @ replicate e XMODEM_EOT \<and>
     set rs \<subseteq> {1..3} \<and> e \<in> {1..3} \<and>
     (\<forall>j. j * xm_block_size (xm_flags m') < length (fw_rest fw) \<longleftrightarrow> j < length rs) \<and>
     length rs < count_list i 6"
proof -
  have "fwlink.xm_inv (os_tx ser) (fw_rest fw) i m'"
    using fwlink.run_inv[OF assms(5)] xm_setup_inv[OF assms(1,3,4)] assms(2) by simp
  then obtain rs e where m': "fwlink.at_block i (fw_rest fw) m' rs"
    "drop (length rs * xm_block_size (xm_flags m')) (fw_rest fw) = []"
    "fwlink.acked i m' (Suc (length rs))" "e \<in> {1..3}"
    "fwlink.line (os_tx ser) (fw_rest fw) m' rs (replicate e XMODEM_EOT)"
    using assms(6) by (auto simp: fwlink.xm_inv_def)
  let ?n = "xm_block_size (xm_flags m')"
  have "j * ?n < length (fw_rest fw) \<longleftrightarrow> j < length rs" for j
  proof
    assume "j * ?n < length (fw_rest fw)"
    also have "\<dots> \<le> length rs * ?n" using m'(2) by simp
    finally show "j < length rs" by simp
  qed (use m'(1) in \<open>auto simp: fwlink.at_block_def not_le\<close>)
  moreover have "Suc (length rs) \<le> count_list i 6"
    using m'(3) by (auto simp: fwlink.acked_def)
  ultimately show ?thesis
    using m'(4,5) unfolding fwlink.line_def by (intro exI[of _ rs] exI[of _ e]) auto
qed

text \<open>
  C32: a tick of the sender always returns: in every state a transfer can reach, the flush loops
  end within as many rounds as there are bytes waiting, and one more.
\<close>

theorem xmodem_tick_returns:
  assumes "ser_ready ser" "os_rx ser = []" "fw_ok fw"
    and "xm_block_size (flags AND XBEE_XMODEM_FLAG_USER) + 5 \<le> length buf"
    and "xm_run ser_feed (xm_setup m ser buf fw flags) i m'"
  shows "\<exists>r m''. xbee_xmodem_tx_tick (Suc (length (os_rx (stream_context m')))) m' now = Some (r, m'') \<and>
     (r = 1 \<longrightarrow> xm_state m'' = XBEE_XMODEM_STATE_SUCCESS)"
proof -
  have "fwlink.xm_inv (os_tx ser) (fw_rest fw) i m'"
    using fwlink.run_inv[OF assms(5)] xm_setup_inv[OF assms(1,3,4)] assms(2) by simp
  then show ?thesis
    by (rule fwlink.tick_inv[of _ _ _ _ "Suc (length (os_rx (stream_context m')))" now]) auto
qed

lemma image_transfer:
  assumes "ser_ready ser" "os_rx ser = []" "fw_ok fw"
    and "xm_block_size (flags AND XBEE_XMODEM_FLAG_USER) + 5 \<le> length buf"
    and "2 \<le> fuel" "2 * length (fw_rest fw) + 4 \<le> length clock"
  shows "\<exists>m'. coop ser_feed fuel clock (xm_setup m ser buf fw flags) = Some m' \<and>
     xm_state m' = XBEE_XMODEM_STATE_SUCCESS"
proof -
  let ?m = "xm_setup m ser buf fw flags"
  have inv: "fwlink.xm_inv (os_tx ser) (fw_rest fw) [] ?m" using xm_setup_inv[OF assms(1,3,4)] assms(2) by simp
  have st: "xm_state ?m = XBEE_XMODEM_STATE_START" "stream_context ?m = ser" "file_context ?m = fw"
    by (simp_all add: xm_setup_def Let_def xbee_xmodem_use_serport_def xbee_xmodem_set_stream_def
        xbee_xmodem_set_source_def xbee_xmodem_tx_init_def)
  have ok: "fwlink.coop_ok (os_tx ser) (fw_rest fw) ?m"
    using inv st assms(2) by (auto simp: fwlink.coop_ok_def)
  have "fwlink.todo ?m \<le> length clock" using st assms(6) by (simp add: fwlink.todo_def)
  from fwlink.coop_succeeds[OF ok assms(5) this] show ?thesis
    by (auto simp: fwlink.todo_def split: if_splits)
qed

text \<open>
  C8: a target that cooperates gets the image. When it asks for the file and acknowledges
  everything, the transfer is successful after at most two ticks per byte and four more,
  whatever the clock shows.
\<close>

theorem xmodem_transfer_succeeds:
  assumes "ser_ready ser" "os_rx ser = []" "fw_ok fw"
    and "xm_block_size (flags AND XBEE_XMODEM_FLAG_USER) + 5 \<le> length buf"
    and "2 \<le> fuel" "2 * length (fw_rest fw) + 4 \<le> length clock"
  shows "\<exists>m'. coop ser_feed fuel clock (xm_setup m ser buf fw flags) = Some m' \<and>
     xm_state m' = XBEE_XMODEM_STATE_SUCCESS"
  using assms by (rule image_transfer)

section \<open>Short writes and lost timeouts\<close>

definition ser_slow :: "xbee_serial_t \<Rightarrow> nat \<Rightarrow> bool" where
  "ser_slow s w \<longleftrightarrow> ser_fd s \<ge> 0 \<and> (\<forall>n. os_fail s n = None) \<and> (\<forall>n. os_room s n = w) \<and> os_rx s = []"

lemma slow_write:
  assumes "ser_slow s w" "w < n" "n \<le> length bs"
  shows "xbee_ser_write s bs (int n) =
    (int w, s\<lparr>os_calls := os_calls s + 1, os_tx := os_tx s @ take w bs\<rparr>)"
  using assms
  by (simp add: ser_slow_def xbee_ser_write_def xbee_ser_invalid_def os_write_def syscall_def Let_def min_def)

lemma slow_read:
  assumes "ser_slow s w"
  shows "xbee_ser_read s 1 = (0, [], s\<lparr>os_calls := os_calls s + 1\<rparr>)"
  using assms by (simp add: ser_slow_def xbee_ser_read_def xbee_ser_invalid_def os_read_def syscall_def)

lemma demo_port_ready: "ser_ready (demo_port bs)"
  by (simp add: ser_ready_def demo_port_def)

lemma assemble_image:
  fixes m :: "(xbee_fw_buffer_t, xbee_serial_t) xbee_xmodem_state_t"
  assumes "file_read m = xbee_fw_buffer_read" "fw_ok (file_context m)" "fw_rest (file_context m) \<noteq> []"
    and "buffer m = Some buf" "bsize m + 5 \<le> length buf"
  obtains b f where "assemble_packet m (bsize m) = (0, m\<lparr>tries := 3, file_context := f, buffer := Some b\<rparr>)"
    "take (packet_len (xm_flags m)) b =
      xm_packet (xm_flags m) (packet_num m) (take (bsize m) (fw_rest (file_context m)))"
    "packet_len (xm_flags m) \<le> length b" "fw_rest f = drop (bsize m) (fw_rest (file_context m))"
proof -
  define M where "M = m\<lparr>stream_context := demo_port [], stream_read := xbee_xmodem_ser_read,
    stream_write := xbee_xmodem_ser_write\<rparr>"
  have M: "file_context M = file_context m" "xm_flags M = xm_flags m" "packet_num M = packet_num m"
    by (simp_all add: M_def)
  obtain r m1 where a: "assemble_packet M (bsize M) = (r, m1)" by fastforce
  have ok: "fwlink.xm_ok M" using assms by (simp add: fwlink.xm_ok_def demo_port_ready M_def)
  have ne: "fw_rest (file_context M) \<noteq> []" using assms(3) M by simp
  obtain b f where m1: "r = 0" "m1 = M\<lparr>tries := 3, file_context := f, buffer := Some b\<rparr>"
    "take (packet_len (xm_flags M)) b =
      xm_packet (xm_flags M) (packet_num M) (take (bsize M) (fw_rest (file_context M)))"
    "fwlink.xm_ok m1" "fw_rest f = drop (bsize M) (fw_rest (file_context M))"
    using fwlink.assemble_ok[OF ok a] ne by metis
  note m1 = m1(1,2) m1(3)[unfolded M] m1(4) m1(5)[unfolded M]
  have "assemble_packet m (bsize m) = (0, m\<lparr>tries := 3, file_context := f, buffer := Some b\<rparr>)"
    using a m1(1,2) unfolding M_def
    by (cases m) (auto simp: assemble_packet_def Let_def split: prod.splits if_splits)
  moreover have "packet_len (xm_flags m) \<le> length b"
    using m1(4) unfolding m1(2) by (auto simp: fwlink.xm_ok_def M)
  ultimately show thesis using that m1(3,5) by blast
qed

text \<open>
  A write that is cut short loses data. When the port takes only part of a packet, the
  sender stays in the state in which it starts a packet: the next tick reads the next block of the
  image and sends it under the same number, and the rest of the packet is never sent.
\<close>

theorem xmodem_short_write:
  assumes "xm_state m = XBEE_XMODEM_STATE_SEND"
    and "stream_read m = xbee_xmodem_ser_read" "stream_write m = xbee_xmodem_ser_write"
    and "ser_slow (stream_context m) w" "w < 64"
    and "file_read m = xbee_fw_buffer_read" "fw_ok (file_context m)" "fw_rest (file_context m) \<noteq> []"
    and "buffer m = Some buf" "xm_block_size (xm_flags m) + 5 \<le> length buf"
  shows "\<exists>m'. xbee_xmodem_tx_tick 1 m now = Some (0, m') \<and>
     xm_state m' = XBEE_XMODEM_STATE_SEND \<and> packet_num m' = packet_num m \<and>
     fw_rest (file_context m') = drop (xm_block_size (xm_flags m)) (fw_rest (file_context m)) \<and>
     os_tx (stream_context m') = os_tx (stream_context m) @
       take w (xm_packet (xm_flags m) (packet_num m) (take (xm_block_size (xm_flags m)) (fw_rest (file_context m))))"
proof -
  obtain b f where a: "assemble_packet m (bsize m) = (0, m\<lparr>tries := 3, file_context := f, buffer := Some b\<rparr>)"
    "take (packet_len (xm_flags m)) b =
      xm_packet (xm_flags m) (packet_num m) (take (bsize m) (fw_rest (file_context m)))"
    "packet_len (xm_flags m) \<le> length b" "fw_rest f = drop (bsize m) (fw_rest (file_context m))"
    using assemble_image[OF assms(6-10)] .
  let ?n = "packet_len (xm_flags m)"
  let ?p = "(stream_context m)\<lparr>os_calls := os_calls (stream_context m) + 1\<rparr>"
  have w: "w < ?n" using assms(5) xm_block_size_range[of "xm_flags m"] by auto
  have slow: "ser_slow ?p w" using assms(4) by (simp add: ser_slow_def)
  have "take w b = take w (take ?n b)" using w by simp
  then have "os_tx (snd (xbee_ser_write ?p b (int ?n))) = os_tx (stream_context m) @
      take w (xm_packet (xm_flags m) (packet_num m) (take (bsize m) (fw_rest (file_context m))))"
    unfolding slow_write[OF slow w a(3)] a(2) by simp
  moreover have "fst (xbee_ser_write ?p b (int ?n)) = int w" unfolding slow_write[OF slow w a(3)] by simp
  ultimately obtain q where q: "xbee_ser_write ?p b (int ?n) = (int w, q)" "os_tx q = os_tx (stream_context m) @
      take w (xm_packet (xm_flags m) (packet_num m) (take (bsize m) (fw_rest (file_context m))))"
    by (metis prod.collapse)
  have "xbee_xmodem_getchar (m\<lparr>tries := 3, file_context := f, buffer := Some b\<rparr>) =
      (- ENODATA, m\<lparr>tries := 3, file_context := f, buffer := Some b, stream_context := ?p\<rparr>)"
    using assms(2) slow_read[OF assms(4)] by (simp add: xbee_xmodem_getchar_def xbee_xmodem_ser_read_def)
  moreover have "int (bsize m) + (if xm_flags m AND XBEE_XMODEM_FLAG_CRC \<noteq> 0 then 5 else 4) = int ?n" by simp
  ultimately show ?thesis
    using a(1,4) assms(1,3,9) q w
    by (simp add: xbee_xmodem_tx_tick_def tx_send_def tx_resend_def tx_sending_def Let_def
        xbee_xmodem_ser_write_def)
qed

text \<open>
  A timeout that never comes. The 16-bit timer values are subtracted as \<open>int\<close>; when a packet
  is finished late in the timer's cycle, no later reading is 10 seconds ahead of it, and a sender
  whose target is silent waits for ever, in the same state and with the same number of tries left.
\<close>

theorem xmodem_timeout_never:
  assumes "xm_state m = XBEE_XMODEM_STATE_WAIT_ACK" "buffer m \<noteq> None"
    and "stream_read m = xbee_xmodem_ser_read" "ser_slow (stream_context m) w"
    and "55535 < uint (timer m)"
  shows "xbee_xmodem_tx_tick fuel m now = Some (0, m\<lparr>stream_context :=
     (stream_context m)\<lparr>os_calls := os_calls (stream_context m) + 1\<rparr>\<rparr>)"
proof -
  have "xbee_xmodem_getchar m = (- ENODATA, m\<lparr>stream_context :=
     (stream_context m)\<lparr>os_calls := os_calls (stream_context m) + 1\<rparr>\<rparr>)"
    using assms(3) slow_read[OF assms(4)] by (simp add: xbee_xmodem_getchar_def xbee_xmodem_ser_read_def)
  moreover have "uint (ucast now :: u16) < 65536" using uint_lt2p[of "ucast now :: u16"] by simp
  then have "uint (ucast now :: u16) - uint (timer m) < 10000" using assms(5) by linarith
  ultimately show ?thesis
    using assms(1,2) by (simp add: xbee_xmodem_tx_tick_def tx_wait_ack_def)
qed

section \<open>The installation as a whole\<close>

text \<open>
  The flags of the transfer: the start state has those the installation asks for, and the states
  after it the CRC flag as well.
\<close>

definition crc_flags :: "('f, 's) xbee_xmodem_state_t \<Rightarrow> bool" where
  "crc_flags m \<longleftrightarrow> xm_state m \<noteq> XBEE_XMODEM_STATE_FLUSH \<and>
     xm_flags m = (if xm_state m = XBEE_XMODEM_STATE_START then 0x0008 else 0x000A)"

lemma getchar_keeps:
  "xbee_xmodem_getchar m = (ch, m') \<Longrightarrow> xm_flags m' = xm_flags m \<and> xm_state m' = xm_state m"
  by (auto simp: xbee_xmodem_getchar_def Let_def split: prod.splits if_splits)

lemma putchar_keeps:
  "xm_flags (snd (xbee_xmodem_putchar m c)) = xm_flags m"
  by (auto simp: xbee_xmodem_putchar_def Let_def split: prod.splits)

lemma flush_chars_keeps:
  "flush_chars n m = Some m' \<Longrightarrow> xm_flags m' = xm_flags m \<and> xm_state m' = xm_state m"
  by (induction n arbitrary: m) (auto split: prod.splits if_splits dest!: getchar_keeps)

definition past_start :: "u16 \<Rightarrow> ('f, 's) xbee_xmodem_state_t \<Rightarrow> bool" where
  "past_start fl m \<longleftrightarrow> xm_flags m = fl \<and> xm_state m \<notin> {XBEE_XMODEM_STATE_FLUSH, XBEE_XMODEM_STATE_START}"

lemma failure_keeps: "tx_failure m e = (r, m') \<Longrightarrow> xm_flags m = fl \<Longrightarrow> past_start fl m'"
  by (auto simp: tx_failure_def past_start_def Let_def split: prod.splits)

lemma assemble_keeps: "assemble_packet m n = (r, m') \<Longrightarrow> past_start fl m \<Longrightarrow> past_start fl m'"
  by (auto simp: assemble_packet_def past_start_def Let_def split: prod.splits if_splits)

lemma sending_keeps: "tx_sending m now = (r, m') \<Longrightarrow> past_start fl m \<Longrightarrow> past_start fl m'"
  by (auto simp: tx_sending_def past_start_def Let_def split: prod.splits if_splits
      dest!: failure_keeps[where fl = fl])

lemma resend_keeps: "tx_resend m now = (r, m') \<Longrightarrow> past_start fl m \<Longrightarrow> past_start fl m'"
  unfolding tx_resend_def by (erule sending_keeps) (simp add: past_start_def)

lemma send_keeps:
  assumes "tx_send n m now = Some (r, m')" "past_start fl m"
  shows "past_start fl m'"
proof -
  obtain e m1 where a: "assemble_packet m (block_size m) = (e, m1)" by fastforce
  have m1: "past_start fl m1" by (rule assemble_keeps[OF a assms(2)])
  consider "tx_failure m1 e = (r, m')" | "m' = m1"
    | m2 where "flush_chars n m1 = Some m2" "tx_resend m2 now = (r, m')"
    using assms(1) unfolding tx_send_def a by (auto split: if_splits option.splits)
  then show ?thesis
  proof cases
    case 1
    with m1 show ?thesis by (auto simp: past_start_def dest!: failure_keeps[where fl = fl])
  next
    case (3 m2)
    with m1 flush_chars_keeps[OF 3(1)] show ?thesis
      by (intro resend_keeps[OF 3(2)]) (simp add: past_start_def)
  qed (use m1 in simp)
qed

lemma wait_keeps:
  assumes "tx_wait_ack m now = (r, m') \<or> tx_final_ack m now = (r, m')" "past_start fl m"
  shows "past_start fl m'"
proof -
  obtain ch m1 where g: "xbee_xmodem_getchar m = (ch, m1)" by fastforce
  have m1: "xm_flags m1 = fl" "xm_state m1 = xm_state m"
    using getchar_keeps[OF g] assms(2) by (auto simp: past_start_def)
  have "past_start fl m'" if "tx_failure (m1\<lparr>tries := tries m1 - 1\<rparr>) (- ETIMEDOUT) = (r, m')"
    using failure_keeps[OF that, of fl] m1 by simp
  with assms m1 show ?thesis
    by (auto simp: tx_wait_ack_def tx_final_ack_def g Let_def past_start_def split: if_splits)
qed

lemma tick_crc:
  assumes "xbee_xmodem_tx_tick n m now = Some (r, m')" "crc_flags m"
  shows "crc_flags m'"
proof (cases "buffer m = None")
  case True
  then show ?thesis using assms by (simp add: xbee_xmodem_tx_tick_def)
next
  case buf: False
  have crc: "past_start 0x000A m1 \<Longrightarrow> crc_flags m1" for m1 :: "('a, 'b) xbee_xmodem_state_t"
    by (auto simp: past_start_def crc_flags_def)
  show ?thesis
  proof (cases "xm_state m = XBEE_XMODEM_STATE_START")
    case True
    obtain ch m1 where g: "xbee_xmodem_getchar m = (ch, m1)" by fastforce
    have m1: "xm_flags m1 = 0x0008" "xm_state m1 = XBEE_XMODEM_STATE_START"
      using getchar_keeps[OF g] assms(2) True by (auto simp: crc_flags_def)
    have "crc_flags m'" if "tx_send n (m1\<lparr>xm_flags := 0x000A, xm_state := XBEE_XMODEM_STATE_SEND, packet_num := 1\<rparr>)
        now = Some (r, m')"
      by (rule crc, rule send_keeps[OF that]) (simp add: past_start_def)
    with assms(1) buf True m1 show ?thesis
      by (auto simp: xbee_xmodem_tx_tick_def tx_start_def g Let_def crc_flags_def split: if_splits)
  next
    case False
    then have m: "past_start 0x000A m" using assms(2) by (simp add: past_start_def crc_flags_def)
    have eof: "past_start 0x000A m'" if "tx_eof m now = (r, m')"
      using that m putchar_keeps[of m XMODEM_EOT] by (auto simp: tx_eof_def past_start_def Let_def)
    show ?thesis
      using assms buf m False send_keeps[OF _ m] resend_keeps[OF _ m] wait_keeps[OF disjI1 m] wait_keeps[OF disjI2 m] sending_keeps[OF _ m] eof
      by (intro crc) (auto simp: xbee_xmodem_tx_tick_def crc_flags_def split: xbee_xmodem_state.splits)
  qed
qed

text \<open>The image has been sent completely, at some time.\<close>

definition delivered :: "bytes \<Rightarrow> bytes \<Rightarrow> bool" where
  "delivered img out \<longleftrightarrow> (\<exists>pre rs e post. out = pre @ xm_runs 0x000A 1 img rs @ replicate e XMODEM_EOT @ post \<and>
     set rs \<subseteq> {1..3} \<and> e \<in> {1..3} \<and> (\<forall>j. j * 128 < length img \<longleftrightarrow> j < length rs))"

lemma delivered_append: "delivered img out \<Longrightarrow> delivered img (out @ ext)"
  unfolding delivered_def by (metis append.assoc)

definition fw_inv :: "bytes \<Rightarrow> ('a, xbee_fw_buffer_t) xbee_fw_source_t \<Rightarrow> bool" where
  "fw_inv img s \<longleftrightarrow> ser_ready (fw_port s) \<and> 133 \<le> length (fw_buffer s) \<and>
     fw_read s = xbee_fw_buffer_read \<and> fw_ok (fw_context s) \<and>
     (case fw_state s of
        XBEE_FW_STATE_XMODEM_SEND \<Rightarrow> crc_flags (xbxm s) \<and>
          (\<exists>o0 c i. fwlink.xm_inv o0 c i (fw_lend s) \<and> (c = img \<or> delivered img o0))
      | XBEE_FW_STATE_XMODEM_DONE \<Rightarrow> delivered img (os_tx (fw_port s))
      | XBEE_FW_STATE_FINAL_PROMPT \<Rightarrow> delivered img (os_tx (fw_port s))
      | XBEE_FW_STATE_SUCCESS \<Rightarrow> delivered img (os_tx (fw_port s))
      | XBEE_FW_STATE_FAILURE \<Rightarrow> True
      | _ \<Rightarrow> fw_rest (fw_context s) = img \<or> delivered img (os_tx (fw_port s)))"

text \<open>What the calls on the port keep.\<close>

definition port_keeps :: "xbee_serial_t \<Rightarrow> xbee_serial_t \<Rightarrow> bool" where
  "port_keeps p q \<longleftrightarrow> (ser_ready p \<longrightarrow> ser_ready q) \<and> (\<exists>out. os_tx q = os_tx p @ out)"

lemma port_keeps_trans: "port_keeps p q \<Longrightarrow> port_keeps q r \<Longrightarrow> port_keeps p r"
  unfolding port_keeps_def by (metis append.assoc)

lemma port_keeps_refl: "port_keeps p p"
  by (simp add: port_keeps_def)

lemma port_keeps_flowcontrol: "port_keeps p (snd (xbee_ser_flowcontrol p b))"
  by (auto simp: port_keeps_def xbee_ser_flowcontrol_def syscall_def Let_def ser_ready_def split: option.splits)

lemma port_keeps_set_rts: "port_keeps p (snd (xbee_ser_set_rts p b))"
proof (cases "xbee_ser_invalid (Some p)")
  case False
  let ?q = "snd (xbee_ser_flowcontrol p False)"
  have "port_keeps ?q (snd (xbee_ser_set_rts p b))"
    using False by (auto simp: port_keeps_def xbee_ser_set_rts_def syscall_def Let_def ser_ready_def split: option.splits)
  with port_keeps_flowcontrol show ?thesis by (rule port_keeps_trans)
qed (simp add: xbee_ser_set_rts_def port_keeps_refl)

lemma port_keeps_break: "port_keeps p (snd (xbee_ser_break p b))"
  by (auto simp: port_keeps_def xbee_ser_break_def syscall_def ser_ready_def split: option.splits)

lemma port_keeps_putchar: "port_keeps p (snd (xbee_ser_putchar p c))"
  by (auto simp: port_keeps_def xbee_ser_putchar_def xbee_ser_write_def os_write_def syscall_def Let_def ser_ready_def
      split: option.splits)

lemma port_keeps_getchar: "port_keeps p (snd (xbee_ser_getchar p))"
  by (auto simp: port_keeps_def xbee_ser_getchar_def xbee_ser_read_def os_read_def syscall_def Let_def ser_ready_def
      split: option.splits)

lemma port_keeps_baudrate: "port_keeps p (snd (xbee_ser_baudrate p rate))"
  by (auto simp: port_keeps_def xbee_ser_baudrate_def syscall_def Let_def ser_ready_def split: option.splits)

lemma open_succeeds:
  assumes "os_fail p (os_calls p) = None"
  shows "snd (xbee_ser_open p rate fd) = snd (xbee_ser_baudrate (snd (xbee_ser_baudrate
     (p\<lparr>ser_device := (ser_device p)[39 := 0], ser_fd := fd, os_calls := Suc (Suc (os_calls p))\<rparr>) 0)) rate)"
  using assms by (auto simp: xbee_ser_open_def syscall_def Let_def split: prod.splits)

lemma port_keeps_open:
  assumes "0 \<le> fd"
  shows "port_keeps p (snd (xbee_ser_open p rate fd))"
proof (cases "os_fail p (os_calls p)")
  case None
  let ?q = "p\<lparr>ser_device := (ser_device p)[39 := 0], ser_fd := fd, os_calls := Suc (Suc (os_calls p))\<rparr>"
  have "port_keeps p ?q" using assms by (simp add: port_keeps_def ser_ready_def)
  from port_keeps_trans[OF this port_keeps_trans[OF port_keeps_baudrate port_keeps_baudrate]]
  show ?thesis unfolding open_succeeds[OF None] .
next
  case (Some e)
  then show ?thesis by (auto simp: port_keeps_def xbee_ser_open_def syscall_def ser_ready_def)
qed

lemmas port_keeps_calls = port_keeps_flowcontrol port_keeps_set_rts port_keeps_break port_keeps_putchar
  port_keeps_getchar

text \<open>
  Steps that leave the image, the buffer and the functions alone and only write to the line: they
  keep the invariant when they end in a state before the transfer, or in one after it.
\<close>

definition calm :: "('a, xbee_fw_buffer_t) xbee_fw_source_t \<Rightarrow> ('a, xbee_fw_buffer_t) xbee_fw_source_t \<Rightarrow> bool" where
  "calm s s' \<longleftrightarrow> port_keeps (fw_port s) (fw_port s') \<and> fw_buffer s' = fw_buffer s \<and> fw_read s' = fw_read s \<and>
     fw_context s' = fw_context s"

definition fw_base :: "bytes \<Rightarrow> ('a, xbee_fw_buffer_t) xbee_fw_source_t \<Rightarrow> bool" where
  "fw_base img s \<longleftrightarrow> ser_ready (fw_port s) \<and> 133 \<le> length (fw_buffer s) \<and>
     fw_read s = xbee_fw_buffer_read \<and> fw_ok (fw_context s) \<and>
     (fw_rest (fw_context s) = img \<or> delivered img (os_tx (fw_port s)))"

lemma calm_base: "fw_base img s \<Longrightarrow> calm s s' \<Longrightarrow> fw_base img s'"
  unfolding fw_base_def calm_def port_keeps_def using delivered_append by fastforce

lemma calm_delivered: "delivered img (os_tx (fw_port s)) \<Longrightarrow> calm s s' \<Longrightarrow> delivered img (os_tx (fw_port s'))"
  unfolding calm_def port_keeps_def using delivered_append by fastforce

abbreviation before :: "xbee_fw_state \<Rightarrow> bool" where
  "before st \<equiv> st \<in> {XBEE_FW_STATE_INIT, XBEE_FW_STATE_RESET, XBEE_FW_STATE_BREAK, XBEE_FW_STATE_PROMPT,
     XBEE_FW_STATE_XMODEM_WAIT}"

abbreviation after :: "xbee_fw_state \<Rightarrow> bool" where
  "after st \<equiv> st \<in> {XBEE_FW_STATE_XMODEM_DONE, XBEE_FW_STATE_FINAL_PROMPT, XBEE_FW_STATE_SUCCESS}"

lemma fw_inv_before: "before (fw_state s) \<Longrightarrow> fw_inv img s \<longleftrightarrow> fw_base img s"
  by (auto simp: fw_inv_def fw_base_def)

lemma fw_inv_after: "after (fw_state s) \<Longrightarrow> fw_inv img s \<longleftrightarrow> fw_base img s \<and> delivered img (os_tx (fw_port s))"
  by (auto simp: fw_inv_def fw_base_def)

lemma timeout_inv:
  assumes "fw_inv img s" "before (fw_state s) \<or> after (fw_state s)" "ebl_timeout s now = (r, s')"
  shows "fw_inv img s'"
proof -
  have c: "calm s s'" and st: "fw_state s' = fw_state s \<or> fw_state s' = XBEE_FW_STATE_RESET"
    using assms(3) by (auto simp: ebl_timeout_def calm_def Let_def port_keeps_refl split: if_splits)
  have "fw_base img s" using assms(1,2) fw_inv_before fw_inv_after by blast
  then have b: "fw_base img s'" using c by (rule calm_base)
  show ?thesis
  proof (cases "fw_state s' = XBEE_FW_STATE_RESET")
    case True
    with b fw_inv_before[of s'] show ?thesis by simp
  next
    case False
    with st assms(1,2) b c fw_inv_before[of s'] fw_inv_after[of s' img] fw_inv_after[of s img]
      calm_delivered[of img s s'] show ?thesis by auto
  qed
qed

lemma calm_then_timeout:
  assumes "fw_inv img s" "calm s s1" "ebl_timeout s1 now = (r, s')"
    and "before (fw_state s) \<and> before (fw_state s1) \<or> after (fw_state s) \<and> after (fw_state s1)"
  shows "fw_inv img s'"
proof (rule timeout_inv[OF _ _ assms(3)])
  have b: "fw_base img s" using assms(1,4) fw_inv_before fw_inv_after by blast
  show "fw_inv img s1"
    using calm_base[OF b assms(2)] assms(1,2,4) fw_inv_before[of s1] fw_inv_after[of s1 img] fw_inv_after[of s img]
      calm_delivered[of img s s1] by auto
qed (use assms(4) in auto)

lemma reset_inv:
  assumes "fw_inv img s" "before (fw_state s)" "ebl_reset s now fd = (r, s')" "0 \<le> fd"
  shows "fw_inv img s'"
proof -
  define p where "p = snd (xbee_ser_break (snd (xbee_ser_set_rts (snd (xbee_ser_flowcontrol
      (snd (xbee_ser_open (fw_port s) 115200 fd)) True)) False)) True)"
  have "port_keeps (fw_port s) p"
    unfolding p_def by (rule port_keeps_trans[OF port_keeps_open[OF assms(4)]
        port_keeps_trans[OF port_keeps_flowcontrol port_keeps_trans[OF port_keeps_set_rts port_keeps_break]]])
  moreover define s1 where "s1 = s\<lparr>fw_xbee := snd (xbee_dev_reset ((fw_xbee s)
      \<lparr>reset_calls := reset_calls (fw_xbee s) @ [False], serport := p\<rparr>)),
      fw_timer := now, fw_state := XBEE_FW_STATE_BREAK\<rparr>"
  moreover have "ebl_timeout s1 now = (r, s')"
    using assms(3) by (simp add: ebl_reset_def Let_def p_def s1_def)
  ultimately show ?thesis
    using assms(2) by (intro calm_then_timeout[OF assms(1), of s1]) (auto simp: calm_def xbee_dev_reset_def)
qed

lemma break_inv:
  assumes "fw_inv img s" "fw_state s = XBEE_FW_STATE_BREAK" "ebl_break s now = (r, s')"
  shows "fw_inv img s'"
proof -
  define p where "p = snd (xbee_ser_putchar (snd (xbee_ser_set_rts (snd (xbee_ser_flowcontrol
      (snd (xbee_ser_break (fw_port s) False)) True)) True)) 0x0D)"
  have p: "port_keeps (fw_port s) p"
    unfolding p_def by (rule port_keeps_trans[OF port_keeps_break
        port_keeps_trans[OF port_keeps_flowcontrol port_keeps_trans[OF port_keeps_set_rts port_keeps_putchar]]])
  show ?thesis
  proof (cases "time_elapsed s now 150")
    case True
    let ?s = "(set_port p s)\<lparr>fw_timer := now, fw_state := XBEE_FW_STATE_PROMPT\<rparr>"
    have "ebl_timeout ?s now = (r, s')" using assms(3) True by (simp add: ebl_break_def p_def Let_def)
    then show ?thesis
      using p assms(2) by (intro calm_then_timeout[OF assms(1), of ?s]) (auto simp: calm_def set_port_def)
  qed (use assms timeout_inv[OF assms(1)] in \<open>auto simp: ebl_break_def\<close>)
qed

lemma prompt_inv:
  assumes "fw_inv img s" "fw_state s = XBEE_FW_STATE_PROMPT" "ebl_prompt s now = (r, s')"
  shows "fw_inv img s'"
proof -
  obtain ch p where g: "xbee_ser_getchar (fw_port s) = (ch, p)" by fastforce
  have p: "port_keeps (fw_port s) p" using port_keeps_getchar[of "fw_port s"] g by simp
  let ?q = "snd (xbee_ser_putchar p (bootloader_cmd s))"
  have q: "port_keeps (fw_port s) ?q" using p port_keeps_putchar by (rule port_keeps_trans)
  show ?thesis
  proof (cases "ch = 0x3E")
    case True
    let ?s = "(set_port ?q s)\<lparr>fw_timer := now, fw_state := XBEE_FW_STATE_XMODEM_WAIT\<rparr>"
    have "ebl_timeout ?s now = (r, s')" using assms(3) True g by (simp add: ebl_prompt_def Let_def)
    then show ?thesis
      using q assms(2) by (intro calm_then_timeout[OF assms(1), of ?s]) (auto simp: calm_def set_port_def)
  next
    case False
    then have "ebl_timeout (set_port p s) now = (r, s')" using assms(3) g by (simp add: ebl_prompt_def)
    then show ?thesis
      using p assms(2) by (intro calm_then_timeout[OF assms(1), of "set_port p s"]) (auto simp: calm_def set_port_def)
  qed
qed

lemma xmodem_wait_inv:
  assumes "fw_inv img s" "fw_state s = XBEE_FW_STATE_XMODEM_WAIT" "ebl_xmodem_wait s now = (r, s')"
  shows "fw_inv img s'"
proof -
  obtain ch p where g: "xbee_ser_getchar (fw_port s) = (ch, p)" by fastforce
  have p: "port_keeps (fw_port s) p" using port_keeps_getchar[of "fw_port s"] g by simp
  let ?s = "set_port p s"
  have calm: "calm s ?s" using p by (simp add: calm_def set_port_def)
  have b: "fw_base img ?s" using calm_base[OF _ calm] assms(1,2) fw_inv_before by auto
  show ?thesis
  proof (cases "ch = 0x43")
    case True
    define m where "m = xm_setup (xbxm s) p (fw_buffer s) (fw_context s) XBEE_XMODEM_FLAG_FORCE_CRC"
    have s: "fw_read s = xbee_fw_buffer_read" "ser_ready p" "fw_ok (fw_context s)" "133 \<le> length (fw_buffer s)"
      "fw_rest (fw_context s) = img \<or> delivered img (os_tx p)"
      using b by (auto simp: fw_base_def set_port_def)
    have s': "s' = ?s\<lparr>xbxm := m, fw_state := XBEE_FW_STATE_XMODEM_SEND\<rparr>"
      using assms(3) True g s(1)
      by (simp add: ebl_xmodem_wait_def m_def xm_setup_def Let_def xbee_xmodem_tx_init_def set_port_def)
    have m: "stream_context m = p" "file_context m = fw_context s" "buffer m = Some (fw_buffer s)" "crc_flags m"
      by (simp_all add: m_def xm_setup_def Let_def xbee_xmodem_use_serport_def xbee_xmodem_set_stream_def
          xbee_xmodem_set_source_def xbee_xmodem_tx_init_def crc_flags_def)
    have "fw_lend s' = m" unfolding s' fw_lend_def using m by (cases m) (simp add: set_port_def)
    moreover have "fwlink.xm_inv (os_tx p) (fw_rest (fw_context s)) (os_rx p) m"
      unfolding m_def using s(2-4) by (intro xm_setup_inv) (simp_all add: xm_block_size_def)
    ultimately show ?thesis
      using s m(4) unfolding fw_inv_def s' by (auto simp: set_port_def)
  next
    case False
    then have "ebl_timeout ?s now = (r, s')" using assms(3) g by (simp add: ebl_xmodem_wait_def Let_def)
    then show ?thesis
      using calm assms(2) by (intro calm_then_timeout[OF assms(1) calm]) (auto simp: set_port_def)
  qed
qed

lemma success_delivered:
  assumes "fwlink.xm_inv o0 img i m" "xm_state m = XBEE_XMODEM_STATE_SUCCESS" "crc_flags m"
  shows "delivered img (os_tx (stream_context m))"
proof -
  obtain rs e where m: "fwlink.at_block i img m rs" "drop (length rs * bsize m) img = []" "e \<in> {1..3}"
    "fwlink.line o0 img m rs (replicate e XMODEM_EOT)"
    using assms(1,2) by (auto simp: fwlink.xm_inv_def)
  have fl: "xm_flags m = 0x000A" "xm_block_size 0x000A = 128"
    using assms(2,3) by (simp_all add: crc_flags_def xm_block_size_def)
  have "j * 128 < length img \<longleftrightarrow> j < length rs" for j
    using m(1,2) by (auto simp: fwlink.at_block_def fl not_le)
  then show ?thesis
    using m(3,4) unfolding delivered_def fwlink.line_def fl
    by (intro exI[of _ o0] exI[of _ rs] exI[of _ e] exI[of _ "[]"]) auto
qed

lemma xmodem_send_inv:
  assumes "fw_inv img s" "fw_state s = XBEE_FW_STATE_XMODEM_SEND" "ebl_xmodem_send fuel s now = Some (r, s')"
  shows "fw_inv img s'"
proof -
  obtain o0 c i where s: "crc_flags (fw_lend s)" "fwlink.xm_inv o0 c i (fw_lend s)" "c = img \<or> delivered img o0"
    "133 \<le> length (fw_buffer s)" "fw_read s = xbee_fw_buffer_read"
    using assms(1,2) by (auto simp: fw_inv_def crc_flags_def fw_lend_def)
  obtain e m where t: "xbee_xmodem_tx_tick fuel (fw_lend s) now = Some (e, m)"
    using assms(3) by (auto simp: ebl_xmodem_send_def)
  have m: "fwlink.xm_inv o0 c i m" "e = 1 \<longrightarrow> xm_state m = XBEE_XMODEM_STATE_SUCCESS" "crc_flags m"
    using fwlink.tick_inv_any[OF s(2) t] tick_crc[OF t s(1)] by auto
  obtain b where ok: "ser_ready (stream_context m)" "fw_ok (file_context m)" "buffer m = Some b" "133 \<le> length b"
    using m(1,3) by (auto simp: fwlink.xm_inv_def fwlink.xm_ok_def crc_flags_def xm_block_size_def split: if_splits)
  let ?s = "fw_return m s"
  have lend: "fw_lend (?s\<lparr>fw_state := st\<rparr>) = m" "fw_lend ?s = m" for st
    using ok(3) by (cases m; simp add: fw_lend_def fw_return_def set_port_def)+
  have base: "ser_ready (fw_port ?s)" "133 \<le> length (fw_buffer ?s)" "fw_read ?s = xbee_fw_buffer_read"
    "fw_ok (fw_context ?s)" "xbxm ?s = m" "os_tx (fw_port ?s) = os_tx (stream_context m)"
    using ok s(5) by (simp_all add: fw_return_def set_port_def)
  have "delivered img (os_tx (stream_context m))" if "e = 1"
    using success_delivered[of o0 img i m] m that s(3) fwlink.inv_line[OF m(1)] delivered_append by fastforce
  moreover have "fw_state ?s = XBEE_FW_STATE_XMODEM_SEND" using assms(2) by (simp add: fw_return_def set_port_def)
  ultimately show ?thesis
    using assms(3) base m(1,3) s(3) lend
    by (auto simp: ebl_xmodem_send_def t Let_def fw_inv_def split: if_splits)
qed

lemma final_prompt_inv:
  assumes "fw_inv img s" "fw_state s = XBEE_FW_STATE_FINAL_PROMPT" "ebl_final_prompt s now = (r, s')"
  shows "fw_inv img s'"
proof -
  obtain ch p where g: "xbee_ser_getchar (fw_port s) = (ch, p)" by fastforce
  have p: "port_keeps (fw_port s) p" using port_keeps_getchar[of "fw_port s"] g by simp
  show ?thesis
  proof (cases "ch = 0x3E")
    case True
    let ?s = "(set_port (snd (xbee_ser_putchar p 0x32)) s)\<lparr>fw_timer := now, fw_state := XBEE_FW_STATE_SUCCESS\<rparr>"
    have "calm s ?s" using port_keeps_trans[OF p port_keeps_putchar] by (simp add: calm_def set_port_def)
    moreover have "s' = ?s" using assms(3) True g by (simp add: ebl_final_prompt_def Let_def)
    ultimately show ?thesis
      using assms(1,2) fw_inv_after[of s img] fw_inv_after[of ?s img] calm_base[of img s ?s] calm_delivered[of img s ?s]
      by simp
  next
    case False
    then have "ebl_timeout (set_port p s) now = (r, s')" using assms(3) g by (simp add: ebl_final_prompt_def)
    then show ?thesis
      using p assms(2) by (intro calm_then_timeout[OF assms(1), of "set_port p s"]) (auto simp: calm_def set_port_def)
  qed
qed

lemma xmodem_done_inv:
  assumes "fw_inv img s" "fw_state s = XBEE_FW_STATE_XMODEM_DONE" "ebl_xmodem_done s now = (r, s')"
  shows "fw_inv img s'"
proof (cases "time_elapsed s now 3000")
  case True
  let ?s = "(set_port (snd (xbee_ser_putchar (fw_port s) 0x0D)) s)\<lparr>fw_timer := now, fw_state := XBEE_FW_STATE_FINAL_PROMPT\<rparr>"
  have "calm s ?s" using port_keeps_putchar by (simp add: calm_def set_port_def)
  then have "fw_inv img ?s"
    using assms(1,2) fw_inv_after[of s img] fw_inv_after[of ?s img] calm_base[of img s ?s] calm_delivered[of img s ?s]
    by simp
  then show ?thesis
    by (rule final_prompt_inv) (use assms(3) True in \<open>simp_all add: ebl_xmodem_done_def Let_def\<close>)
qed (use assms in \<open>simp add: ebl_xmodem_done_def\<close>)

lemma ebl_tick_inv:
  assumes "fw_inv img s" "xbee_fw_install_ebl_tick fuel s now fd = Some (r, s')" "0 \<le> fd"
  shows "fw_inv img s'"
proof (cases "fw_state s")
  case XBEE_FW_STATE_INIT
  have "fw_inv img (s\<lparr>fw_tries := 0\<rparr>)" using assms(1) XBEE_FW_STATE_INIT by (simp add: fw_inv_def)
  from reset_inv[OF this _ _ assms(3)] assms(2) XBEE_FW_STATE_INIT show ?thesis
    by (simp add: xbee_fw_install_ebl_tick_def)
qed (use assms reset_inv[OF assms(1) _ _ assms(3)] break_inv[OF assms(1)] prompt_inv[OF assms(1)]
      xmodem_wait_inv[OF assms(1)] xmodem_send_inv[OF assms(1)] xmodem_done_inv[OF assms(1)]
      final_prompt_inv[OF assms(1)] in \<open>auto simp: xbee_fw_install_ebl_tick_def\<close>)

text \<open>
  An installation: ticks of the functions for \<open>.EBL\<close> files or for programmable modules, and bytes
  arriving from the module, in any order.
\<close>

inductive fw_run :: "('a, xbee_fw_buffer_t) xbee_fw_source_t \<Rightarrow> ('a, xbee_fw_buffer_t) xbee_fw_source_t \<Rightarrow> bool"
  for s0 where
  fw_start: "fw_run s0 s0"
| fw_arrive: "fw_run s0 s \<Longrightarrow> fw_run s0 (set_port (ser_feed (fw_port s) bs) s)"
| fw_ebl: "fw_run s0 s \<Longrightarrow> xbee_fw_install_ebl_tick fuel s now fd = Some (r, s') \<Longrightarrow> 0 \<le> fd \<Longrightarrow> fw_run s0 s'"
| fw_hcs08: "fw_run s0 s \<Longrightarrow> xbee_fw_install_hcs08_tick fuel s now fd = Some (r, s') \<Longrightarrow> 0 \<le> fd \<Longrightarrow> fw_run s0 s'"

lemma hcs08_tick_inv:
  assumes "fw_inv img s" "xbee_fw_install_hcs08_tick fuel s now fd = Some (r, s')" "0 \<le> fd"
  shows "fw_inv img s'"
proof -
  define s1 where "s1 = (if fw_state s = XBEE_FW_STATE_INIT then s\<lparr>bootloader_cmd := 0x46\<rparr> else s)"
  have s1: "fw_inv img s1" using assms(1) by (auto simp: s1_def fw_inv_def)
  obtain e s2 where t: "xbee_fw_install_ebl_tick fuel s1 now fd = Some (e, s2)"
    and s': "s' = s2 \<or> fw_state s2 = XBEE_FW_STATE_FINAL_PROMPT \<and> s' = s2\<lparr>fw_state := XBEE_FW_STATE_SUCCESS\<rparr>"
    using assms(2) by (auto simp: xbee_fw_install_hcs08_tick_def s1_def Let_def split: if_splits)
  have "fw_inv img s2" by (rule ebl_tick_inv[OF s1 t assms(3)])
  with s' show ?thesis by (auto simp: fw_inv_def)
qed

lemma feed_inv:
  assumes "fw_inv img s"
  shows "fw_inv img (set_port (ser_feed (fw_port s) bs) s)"
proof (cases "fw_state s = XBEE_FW_STATE_XMODEM_SEND")
  case True
  let ?s = "set_port (ser_feed (fw_port s) bs) s"
  have "fw_lend ?s = (fw_lend s)\<lparr>stream_context := ser_feed (stream_context (fw_lend s)) bs\<rparr>"
    by (simp add: fw_lend_def set_port_def)
  with True assms fwlink.arrive_inv[of _ _ _ "fw_lend s" bs] fwlink.feed(3) show ?thesis
    by (fastforce simp: fw_inv_def set_port_def)
next
  case False
  then show ?thesis
    using assms fwlink.feed(3) by (auto simp: fw_inv_def set_port_def ser_feed_def ser_ready_def split: xbee_fw_state.splits)
qed

text \<open>
  C3: no success without the image. However the module answers, whatever the timeouts and
  retries: when an installation that started with an image reports success, all blocks of the
  image have been sent, in one XMODEM transfer with CRC, in order, each packet one to three times,
  with one to three end markers after the last.
\<close>

theorem fw_install_success:
  assumes "fw_state s0 = XBEE_FW_STATE_INIT" "ser_ready (fw_port s0)" "133 \<le> length (fw_buffer s0)"
    and "fw_read s0 = xbee_fw_buffer_read" "fw_ok (fw_context s0)"
    and "fw_run s0 s" "fw_state s = XBEE_FW_STATE_SUCCESS"
  shows "\<exists>pre rs e post. os_tx (fw_port s) =
       pre @ xm_runs 0x000A 1 (fw_rest (fw_context s0)) rs @ replicate e XMODEM_EOT @ post \<and>
     set rs \<subseteq> {1..3} \<and> e \<in> {1..3} \<and> (\<forall>j. j * 128 < length (fw_rest (fw_context s0)) \<longleftrightarrow> j < length rs)"
proof -
  let ?img = "fw_rest (fw_context s0)"
  have "fw_inv ?img s0" using assms(1-5) by (simp add: fw_inv_def)
  with assms(6) have "fw_inv ?img s"
    by (induction rule: fw_run.induct) (auto intro: feed_inv ebl_tick_inv hcs08_tick_inv)
  with assms(7) have "delivered ?img (os_tx (fw_port s))" by (simp add: fw_inv_def)
  then show ?thesis unfolding delivered_def .
qed

section \<open>A module that cooperates\<close>

lemma rx_calls:
  "os_rx (snd (xbee_ser_flowcontrol p b)) = os_rx p" "os_rx (snd (xbee_ser_break p b)) = os_rx p"
  "os_rx (snd (xbee_ser_putchar p c)) = os_rx p" "os_rx (snd (xbee_ser_baudrate p rate)) = os_rx p"
  by (auto simp: xbee_ser_flowcontrol_def xbee_ser_break_def xbee_ser_putchar_def xbee_ser_write_def os_write_def
      xbee_ser_baudrate_def syscall_def Let_def split: option.splits)

lemma rx_set_rts: "os_rx (snd (xbee_ser_set_rts p b)) = os_rx p"
  by (auto simp: xbee_ser_set_rts_def rx_calls(1) syscall_def Let_def split: option.splits)

lemma rx_open: "ser_ready p \<Longrightarrow> os_rx (snd (xbee_ser_open p rate fd)) = os_rx p"
  by (simp add: open_succeeds ser_ready_def rx_calls(4))

lemma getchar_one:
  assumes "ser_ready p" "os_rx p = [c]"
  obtains q where "xbee_ser_getchar p = (uint c, q)" "os_rx q = []" "ser_ready q"
proof -
  obtain r bs q where rd: "xbee_ser_read p 1 = (r, bs, q)" by (metis prod_cases3)
  with port.rd_ready[OF assms(1) _ rd] assms(2) show thesis
    by (intro that[of q]) (auto simp: xbee_ser_getchar_def)
qed

lemma dev_reset_port [simp]: "serport (snd (xbee_dev_reset x)) = serport x"
  by (simp add: xbee_dev_reset_def)

lemma no_timeout: "fw_timer s = now \<Longrightarrow> ebl_timeout s now = (0, s)"
  by (simp add: ebl_timeout_def time_elapsed_def)

text \<open>A source in a state, with nothing waiting on the port and the timer at \<open>t\<close>.\<close>

definition fw_idle :: "xbee_fw_state \<Rightarrow> u32 \<Rightarrow> ('a, xbee_fw_buffer_t) xbee_fw_source_t \<Rightarrow> bool" where
  "fw_idle st t s \<longleftrightarrow> fw_state s = st \<and> os_rx (fw_port s) = [] \<and> fw_timer s = t \<and> ser_ready (fw_port s)"

definition fw_at :: "xbee_fw_state \<Rightarrow> u32 \<Rightarrow> ('a, xbee_fw_buffer_t) xbee_fw_source_t \<Rightarrow> bool" where
  "fw_at st t s \<longleftrightarrow> fw_idle st t s \<and>
     133 \<le> length (fw_buffer s) \<and> fw_read s = xbee_fw_buffer_read \<and> fw_ok (fw_context s)"

abbreviation fed :: "bytes \<Rightarrow> ('a, xbee_fw_buffer_t) xbee_fw_source_t \<Rightarrow> ('a, xbee_fw_buffer_t) xbee_fw_source_t" where
  "fed bs s \<equiv> set_port (ser_feed (fw_port s) bs) s"

lemma fed_port: "fw_idle st t s \<Longrightarrow> os_rx (fw_port (fed bs s)) = bs \<and> ser_ready (fw_port (fed bs s))"
  by (simp add: fw_at_def fw_idle_def set_port_def ser_feed_def ser_ready_def)

lemma step_reset:
  assumes "fw_at XBEE_FW_STATE_INIT t s" "0 \<le> fd"
  shows "\<exists>s'. xbee_fw_install_ebl_tick fuel s now fd = Some (0, s') \<and> fw_at XBEE_FW_STATE_BREAK now s'"
proof -
  define p where "p = snd (xbee_ser_break (snd (xbee_ser_set_rts (snd (xbee_ser_flowcontrol
      (snd (xbee_ser_open (fw_port s) 115200 fd)) True)) False)) True)"
  have "port_keeps (fw_port s) p"
    unfolding p_def by (rule port_keeps_trans[OF port_keeps_open[OF assms(2)]
        port_keeps_trans[OF port_keeps_flowcontrol port_keeps_trans[OF port_keeps_set_rts port_keeps_break]]])
  then have p: "ser_ready p" "os_rx p = []"
    using assms(1) by (auto simp: fw_at_def fw_idle_def port_keeps_def p_def rx_calls rx_set_rts rx_open)
  with assms(1) show ?thesis
    by (auto simp: xbee_fw_install_ebl_tick_def fw_at_def fw_idle_def ebl_reset_def Let_def no_timeout simp flip: p_def)
qed

lemma step_break:
  assumes "fw_at XBEE_FW_STATE_BREAK t s"
  shows "\<exists>s'. xbee_fw_install_ebl_tick fuel s (t + 151) fd = Some (0, s') \<and> fw_at XBEE_FW_STATE_PROMPT (t + 151) s'"
proof -
  define p where "p = snd (xbee_ser_putchar (snd (xbee_ser_set_rts (snd (xbee_ser_flowcontrol
      (snd (xbee_ser_break (fw_port s) False)) True)) True)) 0x0D)"
  have "port_keeps (fw_port s) p"
    unfolding p_def by (rule port_keeps_trans[OF port_keeps_break
        port_keeps_trans[OF port_keeps_flowcontrol port_keeps_trans[OF port_keeps_set_rts port_keeps_putchar]]])
  then have p: "ser_ready p" "os_rx p = []"
    using assms(1) by (auto simp: fw_at_def fw_idle_def port_keeps_def p_def rx_calls rx_set_rts)
  have "time_elapsed s (t + 151) 150" using assms by (simp add: time_elapsed_def fw_at_def fw_idle_def)
  with p assms show ?thesis
    by (auto simp: xbee_fw_install_ebl_tick_def fw_at_def fw_idle_def ebl_break_def Let_def no_timeout set_port_def simp flip: p_def)
qed

lemma step_prompt:
  assumes "fw_at XBEE_FW_STATE_PROMPT t s"
  shows "\<exists>s'. xbee_fw_install_ebl_tick fuel (fed [0x3E] s) now fd = Some (0, s') \<and> fw_at XBEE_FW_STATE_XMODEM_WAIT now s'"
proof -
  obtain q where q: "xbee_ser_getchar (fw_port (fed [0x3E] s)) = (0x3E, q)" "os_rx q = []" "ser_ready q"
    using getchar_one[of "fw_port (fed [0x3E] s)" "0x3E"] fed_port[of _ t s] assms by (auto simp: fw_at_def)
  let ?p = "snd (xbee_ser_putchar q (bootloader_cmd s))"
  have "ser_ready ?p" "os_rx ?p = []" using port_keeps_putchar[of q] q by (auto simp: port_keeps_def rx_calls)
  with q assms show ?thesis
    by (auto simp: xbee_fw_install_ebl_tick_def fw_at_def fw_idle_def ebl_prompt_def Let_def no_timeout set_port_def)
qed

lemma step_done:
  assumes "fw_idle XBEE_FW_STATE_XMODEM_DONE t s"
  shows "\<exists>s'. xbee_fw_install_ebl_tick fuel (fed [0x3E] s) (t + 3001) fd = Some (1, s') \<and>
     fw_state s' = XBEE_FW_STATE_SUCCESS"
proof -
  let ?p = "snd (xbee_ser_putchar (fw_port (fed [0x3E] s)) 0x0D)"
  have "ser_ready ?p" "os_rx ?p = [0x3E]"
    using port_keeps_putchar[of "fw_port (fed [0x3E] s)"] fed_port[of _ t s] assms by (auto simp: port_keeps_def rx_calls)
  then obtain q where "xbee_ser_getchar ?p = (0x3E, q)" using getchar_one[of ?p "0x3E"] by auto
  moreover have "time_elapsed (fed [0x3E] s) (t + 3001) 3000"
    using assms by (simp add: time_elapsed_def fw_at_def fw_idle_def set_port_def)
  ultimately show ?thesis
    using assms
    by (auto simp: xbee_fw_install_ebl_tick_def fw_at_def fw_idle_def ebl_xmodem_done_def ebl_final_prompt_def Let_def set_port_def)
qed

lemma step_wait:
  assumes "fw_at XBEE_FW_STATE_XMODEM_WAIT t s"
  shows "\<exists>s'. xbee_fw_install_ebl_tick fuel (fed [0x43] s) now fd = Some (0, s') \<and>
     fw_state s' = XBEE_FW_STATE_XMODEM_SEND \<and> fw_read s' = xbee_fw_buffer_read \<and>
     (\<exists>o0. fwlink.coop_ok o0 (fw_rest (fw_context s)) (fw_lend s'))"
proof -
  obtain q where q: "xbee_ser_getchar (fw_port (fed [0x43] s)) = (0x43, q)" "os_rx q = []" "ser_ready q"
    using getchar_one[of "fw_port (fed [0x43] s)" "0x43"] fed_port[of _ t s] assms by (auto simp: fw_at_def)
  define m where "m = xm_setup (xbxm s) q (fw_buffer s) (fw_context s) XBEE_XMODEM_FLAG_FORCE_CRC"
  let ?s = "(set_port q (fed [0x43] s))\<lparr>xbxm := m, fw_state := XBEE_FW_STATE_XMODEM_SEND\<rparr>"
  have s: "fw_read s = xbee_fw_buffer_read" "fw_ok (fw_context s)" "133 \<le> length (fw_buffer s)"
    "fw_state s = XBEE_FW_STATE_XMODEM_WAIT" using assms by (auto simp: fw_at_def fw_idle_def)
  have t: "xbee_fw_install_ebl_tick fuel (fed [0x43] s) now fd = Some (0, ?s)"
    using q s by (simp add: xbee_fw_install_ebl_tick_def ebl_xmodem_wait_def m_def xm_setup_def Let_def
        xbee_xmodem_tx_init_def set_port_def)
  have m: "stream_context m = q" "file_context m = fw_context s" "buffer m = Some (fw_buffer s)"
    "xm_state m = XBEE_XMODEM_STATE_START"
    by (simp_all add: m_def xm_setup_def Let_def xbee_xmodem_use_serport_def xbee_xmodem_set_stream_def
        xbee_xmodem_set_source_def xbee_xmodem_tx_init_def)
  have lend: "fw_lend ?s = m" unfolding fw_lend_def using m by (cases m) (simp add: set_port_def)
  have "fwlink.xm_inv (os_tx q) (fw_rest (fw_context s)) (os_rx q) m"
    unfolding m_def using q s by (intro xm_setup_inv) (simp_all add: xm_block_size_def)
  then have "fwlink.coop_ok (os_tx q) (fw_rest (fw_context s)) (fw_lend ?s)"
    unfolding lend fwlink.coop_ok_def using q(2) m by auto
  with t s(1) show ?thesis by (auto simp: set_port_def)
qed

lemma fw_lend_return: "buffer m \<noteq> None \<Longrightarrow> fw_lend (fw_return m s) = m"
  by (cases m) (auto simp: fw_lend_def fw_return_def set_port_def)

text \<open>Rounds of the transfer as rounds of the installation.\<close>

lemma send_rounds:
  assumes "fw_run s0 s" "fw_state s = XBEE_FW_STATE_XMODEM_SEND" "fw_read s = xbee_fw_buffer_read"
    and "fwlink.coop_ok o0 c (fw_lend s)"
  shows "\<exists>s' t. fw_run s0 s' \<and> fw_idle XBEE_FW_STATE_XMODEM_DONE t s'"
  using assms
proof (induction "fwlink.todo (fw_lend s)" arbitrary: s rule: less_induct)
  case less
  let ?m = "fw_lend s" and ?s = "fed (answer (xm_state (fw_lend s))) s"
  have run: "fw_run s0 ?s" using less.prems(1) by (rule fw_arrive)
  have lend: "fw_lend ?s = ?m\<lparr>stream_context := ser_feed (stream_context ?m) (answer (xm_state ?m))\<rparr>"
    by (simp add: fw_lend_def set_port_def)
  obtain m' where t: "xbee_xmodem_tx_tick 2 (fw_lend ?s) 0 =
      Some (if xm_state m' = XBEE_XMODEM_STATE_SUCCESS then 1 else 0, m')"
    and m': "fwlink.coop_ok o0 c m'" "fwlink.todo m' < fwlink.todo ?m \<or> fwlink.todo m' = 0"
    unfolding lend by (rule fwlink.coop_step_ok[OF less.prems(4), of 2 0]) auto
  obtain b where ok: "buffer m' = Some b" "xm_block_size (xm_flags m') + 5 \<le> length b" "fw_ok (file_context m')"
    "ser_ready (stream_context m')" "os_rx (stream_context m') = []"
    using m'(1) by (auto simp: fwlink.coop_ok_def fwlink.xm_inv_def fwlink.xm_ok_def)
  show ?case
  proof (cases "xm_state m' = XBEE_XMODEM_STATE_SUCCESS")
    case True
    let ?s' = "(fw_return m' ?s)\<lparr>fw_state := XBEE_FW_STATE_XMODEM_DONE, fw_timer := 0\<rparr>"
    have "xbee_fw_install_ebl_tick 2 ?s 0 0 = Some (0, ?s')"
      using t True less.prems(2) by (simp add: xbee_fw_install_ebl_tick_def ebl_xmodem_send_def Let_def set_port_def)
    then have "fw_run s0 ?s'" by (rule fw_ebl[OF run]) simp
    moreover have "fw_idle XBEE_FW_STATE_XMODEM_DONE 0 ?s'"
      using ok less.prems(3) by (simp add: fw_at_def fw_idle_def fw_return_def set_port_def)
    ultimately show ?thesis by blast
  next
    case False
    then have "fwlink.todo m' \<noteq> 0" by (simp add: fwlink.todo_def)
    then have "fwlink.todo m' < fwlink.todo ?m" using m'(2) by simp
    moreover have "fw_lend (fw_return m' ?s) = m'" using ok(1) by (intro fw_lend_return) simp
    moreover have "fw_state (fw_return m' ?s) = XBEE_FW_STATE_XMODEM_SEND"
      "fw_read (fw_return m' ?s) = xbee_fw_buffer_read"
      using less.prems(2,3) by (simp_all add: fw_return_def set_port_def)
    moreover have "xbee_fw_install_ebl_tick 2 ?s 0 0 = Some (0, fw_return m' ?s)"
      using t False less.prems(2) by (simp add: xbee_fw_install_ebl_tick_def ebl_xmodem_send_def Let_def set_port_def)
    then have "fw_run s0 (fw_return m' ?s)" by (rule fw_ebl[OF run]) simp
    ultimately show ?thesis using less.hyps[of "fw_return m' ?s"] m'(1) by simp
  qed
qed

lemma install_run:
  assumes "fw_state s0 = XBEE_FW_STATE_INIT" "ser_ready (fw_port s0)" "os_rx (fw_port s0) = []"
    and "133 \<le> length (fw_buffer s0)" "fw_read s0 = xbee_fw_buffer_read" "fw_ok (fw_context s0)"
  shows "\<exists>s. fw_run s0 s \<and> fw_state s = XBEE_FW_STATE_SUCCESS"
proof -
  have "fw_at XBEE_FW_STATE_INIT (fw_timer s0) s0" using assms by (simp add: fw_at_def fw_idle_def)
  from step_reset[OF this, of 3 1 0] obtain s1 where
    s1: "fw_run s0 s1" "fw_at XBEE_FW_STATE_BREAK 0 s1" using fw_ebl[OF fw_start] by fastforce
  from step_break[OF s1(2), of 1 3] obtain s2 where
    s2: "fw_run s0 s2" "fw_at XBEE_FW_STATE_PROMPT 151 s2" using fw_ebl[OF s1(1)] by fastforce
  from step_prompt[OF s2(2), of 1 151 3] obtain s3 where
    s3: "fw_run s0 s3" "fw_at XBEE_FW_STATE_XMODEM_WAIT 151 s3" using fw_ebl[OF fw_arrive[OF s2(1)]] by fastforce
  from step_wait[OF s3(2), of 1 151 3] obtain s4 o0 where
    s4: "fw_run s0 s4" "fw_state s4 = XBEE_FW_STATE_XMODEM_SEND" "fw_read s4 = xbee_fw_buffer_read"
    "fwlink.coop_ok o0 (fw_rest (fw_context s3)) (fw_lend s4)" using fw_ebl[OF fw_arrive[OF s3(1)]] by fastforce
  from send_rounds[OF s4] obtain s5 t where s5: "fw_run s0 s5" "fw_idle XBEE_FW_STATE_XMODEM_DONE t s5" by blast
  from step_done[OF s5(2), of 1 3] show ?thesis using fw_ebl[OF fw_arrive[OF s5(1)]] by fastforce
qed

text \<open>
  An installation can succeed. From any source with an image, on a working port, there is a
  sequence of ticks and of answers of the module that ends in success: the prompt of the boot
  loader, the request for the file, an acknowledgement for every packet, and the final prompt.
\<close>

theorem fw_install_possible:
  assumes "fw_state s0 = XBEE_FW_STATE_INIT" "ser_ready (fw_port s0)" "os_rx (fw_port s0) = []"
    and "133 \<le> length (fw_buffer s0)" "fw_read s0 = xbee_fw_buffer_read" "fw_ok (fw_context s0)"
  shows "\<exists>s. fw_run s0 s \<and> fw_state s = XBEE_FW_STATE_SUCCESS"
  using assms by (rule install_run)

text \<open>
  A retry after the final prompt. When the boot loader does not show its prompt again after
  a finished transfer, the installation starts over with the source where the transfer left it,
  at its end: the first read of the new transfer finds no data, so it sends no packet at all.
\<close>

theorem fw_retry_not_rewound:
  assumes "fw_state s = XBEE_FW_STATE_FINAL_PROMPT" "ser_ready (fw_port s)" "os_rx (fw_port s) = []"
    and "time_elapsed s now XBEE_FW_LOAD_TIMEOUT" "fw_tries s < 2"
    and "fw_read s = xbee_fw_buffer_read" "fw_offset (fw_context s) = fw_length (fw_context s)"
  shows "\<exists>s'. xbee_fw_install_ebl_tick fuel s now fd = Some (0, s') \<and> fw_state s' = XBEE_FW_STATE_RESET \<and>
     fw_context s' = fw_context s \<and> fw_read s' (fw_context s') n = (- ENODATA, [], fw_context s')"
proof -
  obtain r bs q where rd: "xbee_ser_read (fw_port s) 1 = (r, bs, q)" by (metis prod_cases3)
  then have "xbee_ser_getchar (fw_port s) = (- ENODATA, q)"
    using port.rd_ready[OF assms(2) _ rd] assms(3) by (auto simp: xbee_ser_getchar_def)
  moreover have "time_elapsed (set_port q s) now XBEE_FW_LOAD_TIMEOUT"
    using assms(4) by (simp add: time_elapsed_def set_port_def)
  ultimately show ?thesis
    using assms(1,5-7)
    by (simp add: xbee_fw_install_ebl_tick_def ebl_final_prompt_def ebl_timeout_def set_port_def Let_def
        xbee_fw_buffer_read_def)
qed

text \<open>
  The number that is to change with the status text does not see the state of the XMODEM
  transfer: waiting for an acknowledgement and sending again have the same number.
\<close>

lemma ebl_state_same_text_differs:
  assumes "fw_state s = XBEE_FW_STATE_XMODEM_SEND" "xm_state (xbxm s) = XBEE_XMODEM_STATE_WAIT_ACK"
  shows "xbee_fw_install_ebl_state (s\<lparr>xbxm := (xbxm s)\<lparr>xm_state := XBEE_XMODEM_STATE_RESEND\<rparr>\<rparr>) =
       xbee_fw_install_ebl_state s \<and>
     xbee_fw_status_ebl (s\<lparr>xbxm := (xbxm s)\<lparr>xm_state := XBEE_XMODEM_STATE_RESEND\<rparr>\<rparr>) \<noteq> xbee_fw_status_ebl s"
  using assms by (simp add: xbee_fw_install_ebl_state_def xbee_fw_status_ebl_def)

section \<open>Examples\<close>

text \<open>A source with an image of three bytes, and the state of a transfer of it.\<close>

definition demo_image :: xbee_fw_buffer_t where
  "demo_image = \<lparr>fw_length = 3, fw_address = [0xDE, 0xAD, 0x7E], fw_offset = 0\<rparr>"

definition demo_xm :: "(xbee_fw_buffer_t, xbee_serial_t) xbee_xmodem_state_t" where
  "demo_xm = \<lparr>xm_flags = 0x000A, packet_num = 1, timer = 60000, xm_state = XBEE_XMODEM_STATE_SEND, tries = 3,
     offset = 0, buffer = Some (replicate 133 0), file_read = xbee_fw_buffer_read, file_context = demo_image,
     stream_read = xbee_xmodem_ser_read, stream_write = xbee_xmodem_ser_write, stream_context = demo_port []\<rparr>"

definition demo_source :: "(unit, xbee_fw_buffer_t) xbee_fw_source_t" where
  "demo_source = \<lparr>fw_xbee = snd (xbee_dev_init (demo_port []) 3 True ()), fw_state = XBEE_FW_STATE_INIT,
     fw_next_state = XBEE_FW_STATE_INIT, fw_tries = 0, bootloader_cmd = 0x31, fw_timer = 0, xbxm = demo_xm,
     oem = \<lparr>firmware_length = 0, block_offset = 0, cur_offset = 0, block_length = 0\<rparr>,
     fw_buffer = replicate 133 0, fw_seek = xbee_fw_buffer_seek, fw_read = xbee_fw_buffer_read, fw_context = demo_image\<rparr>"

lemma demo_image_ok: "fw_ok demo_image" "fw_rest demo_image = [0xDE, 0xAD, 0x7E]"
  by (simp_all add: fw_ok_def fw_rest_def demo_image_def)

lemma demo_port_rx: "os_rx (demo_port bs) = bs" "os_tx (demo_port bs) = []"
  by (simp_all add: demo_port_def)

lemma demo_block: "xm_block_size (0x0008 AND XBEE_XMODEM_FLAG_USER) + 5 \<le> length (replicate 133 (0 :: u8))"
  by (simp add: xm_block_size_def)

lemmas demo_setup = demo_port_ready[of "[]"] demo_port_rx(1)[of "[]"] demo_image_ok(1) demo_block

abbreviation demo_start :: "(xbee_fw_buffer_t, xbee_serial_t) xbee_xmodem_state_t" where
  "demo_start \<equiv> xm_setup demo_xm (demo_port []) (replicate 133 0) demo_image 0x0008"

lemma coop_run:
  "xm_run feed m0 i m \<Longrightarrow> coop feed fuel ts m = Some m' \<Longrightarrow> \<exists>i'. xm_run feed m0 i' m'"
proof (induction ts arbitrary: m i)
  case (Cons t ts)
  then obtain r m1 where t: "xbee_xmodem_tx_tick fuel (m\<lparr>stream_context := feed (stream_context m) (answer (xm_state m))\<rparr>) t =
      Some (r, m1)" "coop feed fuel ts m1 = Some m'"
    by (auto simp: coop_step_def bind_eq_Some_conv)
  from run_tick[OF run_arrive[OF Cons.prems(1)] t(1)] Cons.IH t(2) show ?case by blast
qed auto

theorem xmodem_success_complete_witness:
  "\<exists>i m' rs e. xm_run ser_feed demo_start i m' \<and>
     os_tx (stream_context m') = xm_runs (xm_flags m') 1 [0xDE, 0xAD, 0x7E] rs @ replicate e XMODEM_EOT \<and>
     set rs \<subseteq> {1..3} \<and> e \<in> {1..3} \<and> length rs < count_list i 6"
proof -
  obtain m' where m': "coop ser_feed 2 (replicate 10 0) demo_start = Some m'" "xm_state m' = XBEE_XMODEM_STATE_SUCCESS"
    using image_transfer[OF demo_setup, of 2 "replicate 10 0" demo_xm] by (auto simp: demo_image_ok)
  then obtain i where "xm_run ser_feed demo_start i m'" using coop_run[OF run_start] by blast
  with xmodem_success_complete[OF demo_setup this m'(2)] show ?thesis
    unfolding demo_port_rx demo_image_ok by fastforce
qed

theorem xmodem_tick_returns_witness:
  "\<exists>r m''. xbee_xmodem_tx_tick (Suc (length (os_rx (stream_context demo_start)))) demo_start 7 = Some (r, m'')"
  using xmodem_tick_returns[OF demo_setup run_start, of demo_xm 7] by blast

theorem xmodem_transfer_succeeds_witness:
  "\<exists>m'. coop ser_feed 2 (replicate 10 0) demo_start = Some m' \<and> xm_state m' = XBEE_XMODEM_STATE_SUCCESS"
  using xmodem_transfer_succeeds[OF demo_setup, of 2 "replicate 10 0" demo_xm] by (simp add: demo_image_ok)

theorem xmodem_short_write_witness:
  "\<exists>m'. xbee_xmodem_tx_tick 1 (demo_xm\<lparr>stream_context := (demo_port [])\<lparr>os_room := (\<lambda>_. 10)\<rparr>\<rparr>) 0 = Some (0, m') \<and>
     xm_state m' = XBEE_XMODEM_STATE_SEND \<and> fw_rest (file_context m') = []"
  using xmodem_short_write[of "demo_xm\<lparr>stream_context := (demo_port [])\<lparr>os_room := (\<lambda>_. 10)\<rparr>\<rparr>" 10
      "replicate 133 0" 0]
  by (auto simp: demo_xm_def demo_image_ok ser_slow_def demo_port_def xm_block_size_def)

theorem xmodem_timeout_never_witness:
  "xbee_xmodem_tx_tick 1 (demo_xm\<lparr>xm_state := XBEE_XMODEM_STATE_WAIT_ACK\<rparr>) 4000000000 =
     Some (0, demo_xm\<lparr>xm_state := XBEE_XMODEM_STATE_WAIT_ACK, stream_context := (demo_port [])\<lparr>os_calls := 1\<rparr>\<rparr>)"
  using xmodem_timeout_never[of "demo_xm\<lparr>xm_state := XBEE_XMODEM_STATE_WAIT_ACK\<rparr>" "2 ^ 16" 1 4000000000]
  by (simp add: demo_xm_def ser_slow_def demo_port_def)

lemma demo_source_ok: "fw_state demo_source = XBEE_FW_STATE_INIT" "ser_ready (fw_port demo_source)"
  "os_rx (fw_port demo_source) = []" "133 \<le> length (fw_buffer demo_source)"
  "fw_read demo_source = xbee_fw_buffer_read" "fw_ok (fw_context demo_source)" "fw_context demo_source = demo_image"
  by (simp_all add: demo_source_def demo_image_ok demo_port_def xbee_dev_init_def xbee_ser_open_def
      xbee_ser_flowcontrol_def syscall_def xbee_ser_baudrate_def xbee_ser_invalid_def Let_def ser_ready_def)

theorem fw_install_success_witness:
  "\<exists>s pre rs e post. fw_run demo_source s \<and> fw_state s = XBEE_FW_STATE_SUCCESS \<and>
     os_tx (fw_port s) = pre @ xm_runs 0x000A 1 [0xDE, 0xAD, 0x7E] rs @ replicate e XMODEM_EOT @ post \<and>
     set rs \<subseteq> {1..3} \<and> e \<in> {1..3}"
proof -
  obtain s where s: "fw_run demo_source s" "fw_state s = XBEE_FW_STATE_SUCCESS"
    using install_run[OF demo_source_ok(1-6)] by blast
  with fw_install_success[OF demo_source_ok(1,2,4-6) s] show ?thesis
    unfolding demo_source_ok(7) demo_image_ok by fastforce
qed

theorem fw_install_possible_witness: "\<exists>s. fw_run demo_source s \<and> fw_state s = XBEE_FW_STATE_SUCCESS"
  using fw_install_possible[OF demo_source_ok(1-6)] .

theorem fw_retry_not_rewound_witness:
  "\<exists>s'. xbee_fw_install_ebl_tick 1 (demo_source\<lparr>fw_state := XBEE_FW_STATE_FINAL_PROMPT,
       fw_context := demo_image\<lparr>fw_offset := 3\<rparr>\<rparr>) 5001 3 = Some (0, s') \<and> fw_state s' = XBEE_FW_STATE_RESET"
  using fw_retry_not_rewound[of "demo_source\<lparr>fw_state := XBEE_FW_STATE_FINAL_PROMPT,
       fw_context := demo_image\<lparr>fw_offset := 3\<rparr>\<rparr>" 5001 1 3] demo_source_ok(2,3,5)
  by (auto simp: time_elapsed_def demo_source_def demo_image_def)

end
