(* ===== verification/Xbee_Atmode.thy ===== *)
theory Xbee_Atmode
  imports Xbee_Frames
begin

text \<open>
  \<open>src/Software/lib/XBee/src/xbee/xbee_atmode.c\<close>: talking to a module in AT command mode, where
  commands are lines of text instead of frames. The mode of the device is a timed state machine:
  a quiet guard time, the escape sequence, the module's \<open>OK\<close>, then requests and responses. The
  argument \<open>now\<close> is the value of \<open>xbee_millisecond_timer\<close> during the call. The tests for a
  null device or a null string are the only branches left out.
\<close>

section \<open>The functions\<close>

abbreviation (input) EPERM :: int where "EPERM \<equiv> 1"

definition ok_response :: bytes where
  "ok_response = [0x4F, 0x4B, 0x0D]"

text \<open>
  The number of bytes waiting is compared with a \<open>size_t\<close>: a negative error number becomes a
  large one.
\<close>

definition atmode_post_escape :: "u32 \<Rightarrow> 'a xbee_dev_t \<Rightarrow> 'a xbee_dev_t" where
  "atmode_post_escape now x =
     (let (used, s) = xbee_ser_rx_used (serport x); x = x\<lparr>serport := s\<rparr> in
      if (of_int used :: u64) \<ge> 3 then
        let (_, bs, s) = xbee_ser_read (serport x) 3; x = x\<lparr>serport := s\<rparr> in
        if buf_write [0, 0, 0] 0 bs = ok_response
        then x\<lparr>mode_timer := now, mode := XBEE_MODE_COMMAND\<rparr>
        else x\<lparr>mode := XBEE_MODE_IDLE\<rparr>
      else if now - mode_timer x > ucast (guard_time x) + 200 then x\<lparr>mode := XBEE_MODE_IDLE\<rparr>
      else x)"

definition xbee_atmode_tick :: "u32 \<Rightarrow> 'a xbee_dev_t \<Rightarrow> 'a xbee_dev_t" where
  "xbee_atmode_tick now x =
     (case mode x of
        XBEE_MODE_PRE_ESCAPE \<Rightarrow>
          if now - mode_timer x > ucast (guard_time x) + 200 then
            let s = snd (xbee_ser_write (serport x) (replicate 3 (escape_char x)) 3);
                s = snd (xbee_ser_rx_flush s)
            in x\<lparr>serport := s, mode := XBEE_MODE_POST_ESCAPE, mode_timer := now\<rparr>
          else x
      | XBEE_MODE_POST_ESCAPE \<Rightarrow> atmode_post_escape now x
      | XBEE_MODE_WAIT_RESPONSE \<Rightarrow>
          if now - mode_timer x > 2000 then x\<lparr>mode := XBEE_MODE_COMMAND\<rparr> else x
      | XBEE_MODE_WAIT_IDLE \<Rightarrow>
          if now - mode_timer x > 2000 then x\<lparr>mode := XBEE_MODE_IDLE\<rparr> else x
      | XBEE_MODE_COMMAND \<Rightarrow>
          if now - mode_timer x > ucast (idle_timeout x) * 100 then x\<lparr>mode := XBEE_MODE_IDLE\<rparr> else x
      | _ \<Rightarrow> x)"

definition xbee_atmode_enter :: "u32 \<Rightarrow> 'a xbee_dev_t \<Rightarrow> int \<times> 'a xbee_dev_t" where
  "xbee_atmode_enter now x =
     (let x = xbee_atmode_tick now x in
      if mode x \<in> {XBEE_MODE_PRE_ESCAPE, XBEE_MODE_POST_ESCAPE, XBEE_MODE_COMMAND,
                   XBEE_MODE_WAIT_RESPONSE, XBEE_MODE_WAIT_IDLE}
      then (0, x)
      else (0, x\<lparr>mode := XBEE_MODE_PRE_ESCAPE, mode_timer := now\<rparr>))"

text \<open>\<open>command\<close> is the list of the characters of the string.\<close>

definition xbee_atmode_send_request :: "u32 \<Rightarrow> 'a xbee_dev_t \<Rightarrow> bytes \<Rightarrow> int \<times> 'a xbee_dev_t" where
  "xbee_atmode_send_request now x command =
     (let cmdlen = int (length command) in
      if xbee_ser_tx_free (serport x) < cmdlen + 3 then (- ENOSPC, x)
      else
        let s = snd (xbee_ser_write (serport x) (str_bytes ''AT'') 2);
            s = snd (xbee_ser_write s command cmdlen);
            s = snd (xbee_ser_write s [0x0D] 1)
        in (0, x\<lparr>serport := s, mode := XBEE_MODE_WAIT_RESPONSE, mode_timer := now\<rparr>))"

definition xbee_atmode_exit :: "u32 \<Rightarrow> 'a xbee_dev_t \<Rightarrow> int \<times> 'a xbee_dev_t" where
  "xbee_atmode_exit now x =
     (let x = xbee_atmode_tick now x in
      case mode x of
        XBEE_MODE_PRE_ESCAPE \<Rightarrow> (0, x\<lparr>mode := XBEE_MODE_IDLE\<rparr>)
      | XBEE_MODE_POST_ESCAPE \<Rightarrow> (- EBUSY, x)
      | XBEE_MODE_WAIT_RESPONSE \<Rightarrow> (- EBUSY, x)
      | XBEE_MODE_COMMAND \<Rightarrow>
          (0, (snd (xbee_atmode_send_request now x (str_bytes ''CN'')))\<lparr>mode := XBEE_MODE_WAIT_IDLE\<rparr>)
      | _ \<Rightarrow> (0, x))"

text \<open>
  The loop of \<open>xbee_atmode_read_response\<close>: \<open>response\<close> is the caller's buffer and \<open>n\<close> the
  number of bytes in it, the index \<open>p\<close> points at. \<open>None\<close> is a store outside of the buffer.
\<close>

definition put_at :: "bytes \<Rightarrow> int \<Rightarrow> u8 \<Rightarrow> bytes option" where
  "put_at buf n b = (if 0 \<le> n \<and> n < int (length buf) then Some (buf[nat n := b]) else None)"

function read_response_loop ::
  "bool \<Rightarrow> xbee_serial_t \<Rightarrow> bytes \<Rightarrow> int \<Rightarrow> int \<Rightarrow> (int \<times> bytes \<times> int \<times> xbee_serial_t) option" where
  "read_response_loop late s response resp_size n =
     (if n + 1 \<ge> resp_size then Some (- ENOSPC, response, n, s)
      else
        let (ch, s') = xbee_ser_getchar s in
        if ch < 0 then Some (if late then - ETIMEDOUT else - EAGAIN, response, n, s')
        else if ch = 0x0D then Some (0, response, n, s')
        else (case put_at response n (of_int ch) of
                None \<Rightarrow> None
              | Some response \<Rightarrow> read_response_loop late s' response resp_size (n + 1)))"
  by pat_completeness auto
termination
  by (relation "measure (\<lambda>(late, s, response, resp_size, n). nat (resp_size - n))") auto

declare read_response_loop.simps [simp del]

text \<open>
  \<open>bytesread\<close> is \<open>None\<close> for a null pointer; the results are the return value, the buffer and
  the integer \<open>bytesread\<close> points to.
\<close>

definition xbee_atmode_read_response ::
  "u32 \<Rightarrow> 'a xbee_dev_t \<Rightarrow> bytes \<Rightarrow> int \<Rightarrow> int option \<Rightarrow> (int \<times> bytes \<times> int option \<times> 'a xbee_dev_t) option" where
  "xbee_atmode_read_response now x response resp_size bytesread =
     (if mode x \<noteq> XBEE_MODE_WAIT_IDLE \<and> mode x \<noteq> XBEE_MODE_WAIT_RESPONSE
      then Some (- EPERM, response, bytesread, x)
      else
        let n = (case bytesread of Some n \<Rightarrow> n | None \<Rightarrow> int (length (cstr_of response))) in
        (case read_response_loop (now - mode_timer x > 2000) (serport x) response resp_size n of
           None \<Rightarrow> None
         | Some (retval, response, n, s) \<Rightarrow>
             (case put_at response n 0 of
                None \<Rightarrow> None
              | Some response \<Rightarrow>
                  let x = x\<lparr>serport := s\<rparr>;
                      x = (if retval = - ETIMEDOUT \<or> retval = 0 then
                             (if mode x = XBEE_MODE_WAIT_IDLE then x\<lparr>mode := XBEE_MODE_IDLE\<rparr>
                              else if mode x = XBEE_MODE_WAIT_RESPONSE then x\<lparr>mode := XBEE_MODE_COMMAND\<rparr>
                              else x)
                           else x)
                  in Some (retval, response, map_option (\<lambda>_. n) bytesread, x))))"

section \<open>Reading a response\<close>

lemma getchar_ready:
  assumes "ser_ready s" "xbee_ser_getchar s = (ch, s')"
  shows "ser_ready s' \<and> os_tx s' = os_tx s \<and>
     (ch < 0 \<and> os_rx s = [] \<and> os_rx s' = [] \<or> (\<exists>b. ch = uint b \<and> os_rx s = b # os_rx s'))"
proof -
  obtain r bs t where rd: "xbee_ser_read s 1 = (r, bs, t)" by (metis prod_cases3)
  from rd1_ready[OF assms(1) rd] assms(2) rd show ?thesis
    by (auto simp: xbee_ser_getchar_def split: if_splits)
qed

lemma put_at_Some:
  assumes "0 \<le> n" "n < int (length buf)"
  obtains buf' where "put_at buf n b = Some buf'" "length buf' = length buf"
    "take (nat n + 1) buf' = take (nat n) buf @ [b]" "take (nat n) buf' = take (nat n) buf"
proof -
  have "take (nat n + 1) (buf[nat n := b]) = take (nat n) buf @ [b]"
    using assms by (simp add: take_Suc_conv_app_nth)
  then show thesis using assms by (intro that[of "buf[nat n := b]"]) (auto simp: put_at_def)
qed

lemma terminated:
  assumes "take (length l) buf = l" "int (length l) < sz" "sz \<le> int (length buf)"
  obtains buf' where "put_at buf (int (length l)) 0 = Some buf'" "length buf' = length buf"
    "take (length l + 1) buf' = l @ [0]" "take (length l) buf' = l"
proof -
  have "0 \<le> int (length l)" "int (length l) < int (length buf)" using assms(2,3) by linarith+
  from put_at_Some[OF this, of 0] show thesis using assms(1) that by (metis nat_int)
qed

text \<open>The loop takes the bytes of a line up to its end, or all there is.\<close>

definition loop_end :: "bool \<Rightarrow> bytes \<Rightarrow> int \<times> bytes" where
  "loop_end late r = (case r of [] \<Rightarrow> (if late then - ETIMEDOUT else - EAGAIN, []) | _ # r \<Rightarrow> (0, r))"

lemma read_response_loop_line:
  assumes "ser_ready s" "os_rx s = l @ r" "0x0D \<notin> set l" "r = [] \<or> hd r = 0x0D"
    and "0 \<le> n" "n + int (length l) + 1 < resp_size" "resp_size \<le> int (length buf)"
  shows "\<exists>buf' s'. read_response_loop late s buf resp_size n =
       Some (fst (loop_end late r), buf', n + int (length l), s') \<and>
     ser_ready s' \<and> os_tx s' = os_tx s \<and> os_rx s' = snd (loop_end late r) \<and> length buf' = length buf \<and>
     take (nat n + length l) buf' = take (nat n) buf @ l"
  using assms
proof (induction l arbitrary: s n buf)
  case Nil
  obtain ch s' where g: "xbee_ser_getchar s = (ch, s')" by fastforce
  from getchar_ready[OF Nil.prems(1) g] Nil.prems g show ?case
    by (subst read_response_loop.simps) (auto simp: loop_end_def split: list.splits)
next
  case (Cons b l)
  obtain ch s' where g: "xbee_ser_getchar s = (ch, s')" by fastforce
  have s': "ser_ready s'" "os_tx s' = os_tx s" "ch = uint b" "os_rx s' = l @ r"
    using getchar_ready[OF Cons.prems(1) g] Cons.prems(2) by auto
  have b: "uint b \<noteq> 0x0D"
  proof
    assume "uint b = 0x0D"
    then have "b = of_int 0x0D" by (metis word_of_int_uint)
    then show False using Cons.prems(3) by simp
  qed
  obtain buf1 where buf1: "put_at buf n b = Some buf1" "length buf1 = length buf"
    "take (nat n + 1) buf1 = take (nat n) buf @ [b]"
    using put_at_Some[of n buf b] Cons.prems(5-7) by auto
  have "read_response_loop late s buf resp_size n = read_response_loop late s' buf1 resp_size (n + 1)"
    using Cons.prems g s'(3) b buf1(1) by (subst read_response_loop.simps) auto
  then show ?case
    using Cons.IH[OF s'(1,4), of "n + 1" buf1] Cons.prems buf1 s'(2) by (auto simp: nat_add_distrib add.assoc)
qed

text \<open>One call of the function while a line arrives.\<close>

definition recv :: "bytes \<Rightarrow> 'a xbee_dev_t \<Rightarrow> 'a xbee_dev_t" where
  "recv bs x = x\<lparr>serport := (serport x)\<lparr>os_rx := os_rx (serport x) @ bs\<rparr>\<rparr>"

lemma recv_simps [simp]:
  "serport (recv bs x) = (serport x)\<lparr>os_rx := os_rx (serport x) @ bs\<rparr>" "mode (recv bs x) = mode x"
  "mode_timer (recv bs x) = mode_timer x" "guard_time (recv bs x) = guard_time x"
  by (simp_all add: recv_def)

lemma ser_ready_rx [simp]: "ser_ready (s\<lparr>os_rx := r\<rparr>) = ser_ready s"
  by (simp add: ser_ready_def)

text \<open>A device that waits for the response to a request, with \<open>n\<close> bytes of it in the buffer.\<close>

definition waiting :: "'a xbee_dev_t \<Rightarrow> u32 \<Rightarrow> bytes \<Rightarrow> int \<Rightarrow> bytes \<Rightarrow> bool" where
  "waiting x t buf sz l \<longleftrightarrow> ser_ready (serport x) \<and> os_rx (serport x) = [] \<and> mode x = XBEE_MODE_WAIT_RESPONSE \<and>
     mode_timer x = t \<and> int (length l) + 1 < sz \<and> sz \<le> int (length buf) \<and> take (length l) buf = l"

lemma waitingD:
  assumes "waiting x t buf sz l"
  shows "ser_ready (serport x)" "os_rx (serport x) = []" "mode x = XBEE_MODE_WAIT_RESPONSE" "mode_timer x = t"
    "int (length l) + 1 < sz" "sz \<le> int (length buf)" "take (length l) buf = l"
  using assms unfolding waiting_def by blast+

lemma waiting_loop:
  assumes w: "waiting x t buf sz l" and "0x0D \<notin> set c" "int (length (l @ c)) + 1 < sz" "r = [] \<or> hd r = 0x0D"
  obtains buf' s' where
    "read_response_loop late (serport (recv (c @ r) x)) buf sz (int (length l)) =
       Some (fst (loop_end late r), buf', int (length (l @ c)), s')"
    "ser_ready s'" "os_rx s' = snd (loop_end late r)" "length buf' = length buf" "take (length (l @ c)) buf' = l @ c"
proof -
  have "ser_ready (serport (recv (c @ r) x))" "os_rx (serport (recv (c @ r) x)) = c @ r"
    using waitingD(1,2)[OF w] by simp_all
  moreover have "int (length l) + int (length c) + 1 < sz" using assms(3) by simp
  ultimately show thesis
    using read_response_loop_line[of "serport (recv (c @ r) x)" c r "int (length l)" sz buf late]
      assms(2,4) waitingD(6,7)[OF w] that
    by (metis length_append nat_int of_nat_0_le_iff of_nat_add)
qed

lemma read_response_part:
  assumes w: "waiting x t buf sz l" and "0x0D \<notin> set c" "int (length (l @ c)) + 1 < sz" "now - t \<le> 2000"
  obtains buf' x' where
    "xbee_atmode_read_response now (recv c x) buf sz (Some (int (length l))) =
       Some (- EAGAIN, buf', Some (int (length (l @ c))), x')"
    "waiting x' t buf' sz (l @ c)" "length buf' = length buf"
proof -
  obtain buf1 s' where r: "read_response_loop False (serport (recv c x)) buf sz (int (length l)) =
      Some (- EAGAIN, buf1, int (length (l @ c)), s')" "ser_ready s'" "os_rx s' = []" "length buf1 = length buf"
    "take (length (l @ c)) buf1 = l @ c"
    by (rule waiting_loop[OF w assms(2,3), of "[]" False]) (auto simp: loop_end_def)
  obtain buf2 where p: "put_at buf1 (int (length (l @ c))) 0 = Some buf2" "length buf2 = length buf1"
    "take (length (l @ c)) buf2 = l @ c"
    by (rule terminated[OF r(5), of sz]) (use assms(3) r(4) waitingD(6)[OF w] in auto)
  have "(now - mode_timer (recv c x) > 2000) = False" "mode (recv c x) = XBEE_MODE_WAIT_RESPONSE"
    using assms(4) waitingD(3,4)[OF w] by (simp_all add: not_less)
  then have "xbee_atmode_read_response now (recv c x) buf sz (Some (int (length l))) =
      Some (- EAGAIN, buf2, Some (int (length (l @ c))), (recv c x)\<lparr>serport := s'\<rparr>)"
    by (simp add: xbee_atmode_read_response_def r(1) p(1) del: recv_simps length_append)
  moreover have "waiting ((recv c x)\<lparr>serport := s'\<rparr>) t buf2 sz (l @ c)"
    using waitingD(3,4,6)[OF w] r(2-4) p(2,3) assms(3) by (simp add: waiting_def)
  ultimately show thesis by (rule that) (simp add: r(4) p(2))
qed

lemma read_response_last:
  assumes w: "waiting x t buf sz l" and "0x0D \<notin> set c" "int (length (l @ c)) + 1 < sz"
  obtains buf' x' where
    "xbee_atmode_read_response now (recv (c @ 0x0D # r) x) buf sz (Some (int (length l))) =
       Some (0, buf', Some (int (length (l @ c))), x')"
    "take (length (l @ c) + 1) buf' = (l @ c) @ [0]" "length buf' = length buf"
    "mode x' = XBEE_MODE_COMMAND" "os_rx (serport x') = r"
proof -
  let ?x = "recv (c @ 0x0D # r) x" and ?late = "now - mode_timer x > 2000"
  obtain buf1 s' where r: "read_response_loop ?late (serport ?x) buf sz (int (length l)) =
      Some (0, buf1, int (length (l @ c)), s')" "os_rx s' = r" "length buf1 = length buf"
    "take (length (l @ c)) buf1 = l @ c"
    by (rule waiting_loop[OF w assms(2,3), of "0x0D # r" ?late]) (auto simp: loop_end_def)
  obtain buf2 where p: "put_at buf1 (int (length (l @ c))) 0 = Some buf2" "length buf2 = length buf1"
    "take (length (l @ c) + 1) buf2 = (l @ c) @ [0]"
    by (rule terminated[OF r(4), of sz]) (use assms(3) r(3) waitingD(6)[OF w] in auto)
  have "mode ?x = XBEE_MODE_WAIT_RESPONSE" "mode_timer ?x = mode_timer x"
    using waitingD(3)[OF w] by simp_all
  then have "xbee_atmode_read_response now ?x buf sz (Some (int (length l))) =
      Some (0, buf2, Some (int (length (l @ c))), ?x\<lparr>serport := s', mode := XBEE_MODE_COMMAND\<rparr>)"
    by (simp add: xbee_atmode_read_response_def r(1) p(1) del: recv_simps length_append)
  then show thesis by (rule that) (use r(2,3) p(2,3) in simp_all)
qed

text \<open>A client that polls: between the calls at the given times the given bytes arrive.\<close>

fun poll_response :: "(u32 \<times> bytes) list \<Rightarrow> 'a xbee_dev_t \<Rightarrow> bytes \<Rightarrow> int \<Rightarrow> int option \<Rightarrow>
    (int list \<times> bytes \<times> int option \<times> 'a xbee_dev_t) option" where
  "poll_response [] x buf sz n = Some ([], buf, n, x)"
| "poll_response ((now, c) # cs) x buf sz n =
     (case xbee_atmode_read_response now (recv c x) buf sz n of
        None \<Rightarrow> None
      | Some (r, buf, n, x) \<Rightarrow> map_option (apfst ((#) r)) (poll_response cs x buf sz n))"

text \<open>
  C34: the response to a command, arriving in any pieces between the calls of
  \<open>xbee_atmode_read_response\<close>. Every call before the end of the line asks to be called again, the
  last one succeeds; then the buffer holds the line, terminated, its length is returned, the device
  is back in command mode and the bytes after the line are still there to be read.
\<close>

theorem atmode_response_chunks:
  assumes "ser_ready (serport x)" "os_rx (serport x) = []" "mode x = XBEE_MODE_WAIT_RESPONSE"
    and "line = concat (map snd cs) @ c" "0x0D \<notin> set line"
    and "int (length line) + 1 < sz" "sz \<le> int (length buf)"
    and "\<forall>(t, _) \<in> set cs. t - mode_timer x \<le> 2000"
  shows "\<exists>buf' x'. poll_response (cs @ [(now, c @ 0x0D # rest)]) x buf sz (Some 0) =
       Some (replicate (length cs) (- EAGAIN) @ [0], buf', Some (int (length line)), x') \<and>
     take (length line + 1) buf' = line @ [0] \<and> length buf' = length buf \<and>
     mode x' = XBEE_MODE_COMMAND \<and> os_rx (serport x') = rest"
proof -
  have "\<exists>buf' x'. poll_response (cs @ [(now, c @ 0x0D # rest)]) x buf sz (Some (int (length l))) =
       Some (replicate (length cs) (- EAGAIN) @ [0], buf', Some (int (length line)), x') \<and>
     take (length line + 1) buf' = line @ [0] \<and> length buf' = length buf \<and>
     mode x' = XBEE_MODE_COMMAND \<and> os_rx (serport x') = rest"
    if "waiting x t buf sz l" "line = l @ concat (map snd cs) @ c" "0x0D \<notin> set line"
      "int (length line) + 1 < sz" "\<forall>(u, _) \<in> set cs. u - t \<le> 2000" for t l
    using that
  proof (induction cs arbitrary: x buf l)
    case Nil
    then show ?case by (auto elim!: read_response_last[where c = c and now = now and r = rest])
  next
    case (Cons d cs)
    obtain u e where d: "d = (u, e)" by (cases d)
    from read_response_part[OF Cons.prems(1), of e u] Cons.prems d
    obtain buf1 x1 where 1: "xbee_atmode_read_response u (recv e x) buf sz (Some (int (length l))) =
        Some (- EAGAIN, buf1, Some (int (length (l @ e))), x1)" "waiting x1 t buf1 sz (l @ e)" "length buf1 = length buf"
      by auto
    show ?case using Cons.IH[OF 1(2)] Cons.prems d 1 by fastforce
  qed
  from this[of "mode_timer x" "[]"] assms show ?thesis by (auto simp: waiting_def)
qed

text \<open>A device that has sent a command; the answer comes in three pieces, with bytes behind it.\<close>

definition demo_at :: "bytes list xbee_dev_t" where
  "demo_at = (demo_dev [])\<lparr>mode := XBEE_MODE_WAIT_RESPONSE, mode_timer := 0xFFFFFFFF\<rparr>"

lemma demo_at_simps [simp]:
  "serport demo_at = serport (demo_dev [])" "mode demo_at = XBEE_MODE_WAIT_RESPONSE" "mode_timer demo_at = 0xFFFFFFFF"
  by (simp_all add: demo_at_def)

theorem atmode_response_chunks_witness:
  "\<exists>buf' x'. poll_response [(0, [0x31]), (1999, []), (9, [0x32, 0x0D, 0x33])] demo_at [7, 7, 7, 7] 4 (Some 0) =
       Some ([- EAGAIN, - EAGAIN, 0], buf', Some 2, x') \<and> take 3 buf' = [0x31, 0x32, 0] \<and>
     mode x' = XBEE_MODE_COMMAND \<and> os_rx (serport x') = [0x33]"
proof -
  let ?cs = "[(0, [0x31]), (1999, [])] :: (u32 \<times> bytes) list"
  have "\<forall>(t, _) \<in> set ?cs. t - mode_timer demo_at \<le> 2000" "ser_ready (serport demo_at)"
    "os_rx (serport demo_at) = []" "mode demo_at = XBEE_MODE_WAIT_RESPONSE"
    "[0x31, 0x32] = concat (map snd ?cs) @ [0x32]" "0x0D \<notin> set [0x31, 0x32 :: u8]"
    using demo_dev_ok(1,4)[of "[]"] by simp_all
  note h = atmode_response_chunks[OF this(2-6) _ _ this(1), of 4 "[7, 7, 7, 7]" 9 "[0x33]"]
  have "length [0x31, 0x32 :: u8] + 1 = 3" "replicate (length ?cs) (- 11) = [- 11, - 11 :: int]" by simp_all
  with h show ?thesis by (simp add: numeral_3_eq_3 del: poll_response.simps) blast
qed

section \<open>Entering command mode\<close>

text \<open>The states in which the module is not in command mode and not on the way to it.\<close>

definition atmode_outside :: "xbee_dev_mode \<Rightarrow> bool" where
  "atmode_outside m \<longleftrightarrow> m \<in> {XBEE_MODE_UNKNOWN, XBEE_MODE_BOOTLOADER, XBEE_MODE_API, XBEE_MODE_IDLE}"

definition quiet :: "'a xbee_dev_t \<Rightarrow> u32 \<Rightarrow> u32 list \<Rightarrow> bool" where
  "quiet x t0 ts \<longleftrightarrow> (\<forall>t \<in> set ts. t - t0 \<le> ucast (guard_time x) + 200)"

lemma rx_used_ready:
  assumes "ser_ready s"
  shows "xbee_ser_rx_used s = (int (length (os_rx s)), s\<lparr>os_calls := os_calls s + 1\<rparr>)"
  using assms by (simp add: xbee_ser_rx_used_def xbee_ser_invalid_def syscall_def ser_ready_def)

lemma tick_quiet:
  assumes "quiet x t0 ts" "mode x = XBEE_MODE_PRE_ESCAPE" "mode_timer x = t0"
  shows "fold xbee_atmode_tick ts x = x"
  using assms(1)
proof (induction ts)
  case (Cons t ts)
  then have "xbee_atmode_tick t x = x" using assms(2,3) by (simp add: xbee_atmode_tick_def quiet_def leD)
  with Cons show ?case by (simp add: quiet_def)
qed simp

text \<open>The escape sequence \<open>tx\<close> is out, at time \<open>t\<close>, and nothing has come back.\<close>

definition escaped :: "'a xbee_dev_t \<Rightarrow> u32 \<Rightarrow> u16 \<Rightarrow> bytes \<Rightarrow> bool" where
  "escaped x t g tx \<longleftrightarrow> mode x = XBEE_MODE_POST_ESCAPE \<and> mode_timer x = t \<and> guard_time x = g \<and>
     ser_ready (serport x) \<and> os_rx (serport x) = [] \<and> os_tx (serport x) = tx"

lemma tick_escape:
  assumes "ser_ready (serport x)" "mode x = XBEE_MODE_PRE_ESCAPE" "t - mode_timer x > ucast (guard_time x) + 200"
  shows "escaped (xbee_atmode_tick t x) t (guard_time x) (os_tx (serport x) @ replicate 3 (escape_char x))"
proof -
  let ?s = "snd (xbee_ser_write (serport x) (replicate 3 (escape_char x)) 3)"
  have "ser_ready ?s" "os_tx ?s = os_tx (serport x) @ replicate 3 (escape_char x)"
    using wr_ready_snd[OF assms(1), of "replicate 3 (escape_char x)" 3] by auto
  moreover have "snd (xbee_ser_rx_flush ?s) = ?s\<lparr>os_calls := os_calls ?s + 1, os_rx := []\<rparr>"
    using \<open>ser_ready ?s\<close> by (simp add: xbee_ser_rx_flush_def xbee_ser_invalid_def syscall_def ser_ready_def)
  ultimately show ?thesis
    using assms(2,3) by (simp add: xbee_atmode_tick_def escaped_def Let_def ser_ready_def)
qed

lemma escaped_answer:
  assumes "escaped x t1 g tx" "x' = xbee_atmode_tick t (recv r x)"
  shows "length r < 3 \<Longrightarrow> t - t1 \<le> ucast g + 200 \<Longrightarrow> r = [] \<Longrightarrow> escaped x' t1 g tx"
    and "length r < 3 \<Longrightarrow> mode x' = (if t - t1 > ucast g + 200 then XBEE_MODE_IDLE else XBEE_MODE_POST_ESCAPE)"
    and "length r \<ge> 3 \<Longrightarrow> length r < 2 ^ 31 \<Longrightarrow>
      mode x' = (if take 3 r = ok_response then XBEE_MODE_COMMAND else XBEE_MODE_IDLE) \<and> os_rx (serport x') = drop 3 r"
proof -
  have x: "mode x = XBEE_MODE_POST_ESCAPE" "mode_timer x = t1" "guard_time x = g" "ser_ready (serport x)"
    "os_rx (serport x) = []" "os_tx (serport x) = tx"
    using assms(1) unfolding escaped_def by blast+
  let ?s = "serport (recv r x)\<lparr>os_calls := os_calls (serport x) + 1\<rparr>"
  have used: "xbee_ser_rx_used (serport (recv r x)) = (int (length r), ?s)" and ready: "ser_ready ?s" "os_rx ?s = r"
    using x rx_used_ready[of "serport (recv r x)"] by (simp_all add: ser_ready_def)
  have "length r < 3 \<Longrightarrow> \<not> (of_int (int (length r)) :: u64) \<ge> 3"
    by (auto simp: word_le_nat_alt unat_of_nat)
  note short = this
  show "length r < 3 \<Longrightarrow> t - t1 \<le> ucast g + 200 \<Longrightarrow> r = [] \<Longrightarrow> escaped x' t1 g tx"
    "length r < 3 \<Longrightarrow> mode x' = (if t - t1 > ucast g + 200 then XBEE_MODE_IDLE else XBEE_MODE_POST_ESCAPE)"
    using assms(2) x used ready short
    by (auto simp: xbee_atmode_tick_def atmode_post_escape_def Let_def escaped_def not_less)
  assume r: "length r \<ge> 3" "length r < 2 ^ 31"
  then have long: "(of_int (int (length r)) :: u64) \<ge> 3" by (simp add: word_le_nat_alt unat_of_nat)
  obtain n bs s' where rd: "xbee_ser_read ?s 3 = (n, bs, s')" by (metis prod_cases3)
  have b: "bs = take 3 r" "os_rx s' = drop 3 r"
    using port.rd_ready[OF ready(1) _ rd] ready(2) by simp_all
  have "buf_write [0, 0, 0] 0 bs = take 3 r" using b(1) r(1) by (simp add: buf_write_def)
  then show "mode x' = (if take 3 r = ok_response then XBEE_MODE_COMMAND else XBEE_MODE_IDLE) \<and> os_rx (serport x') = drop 3 r"
    using assms(2) x used rd long b(2) by (simp add: xbee_atmode_tick_def atmode_post_escape_def Let_def)
qed

lemma dev_recv_Nil [simp]: "recv [] x = x"
  by (simp add: recv_def)

lemma escaped_quiet:
  "escaped x t1 g tx \<Longrightarrow> \<forall>t \<in> set ts. t - t1 \<le> ucast g + 200 \<Longrightarrow> escaped (fold xbee_atmode_tick ts x) t1 g tx"
  using escaped_answer(1)[of _ t1 g tx _ _ "[]"] by (induction ts arbitrary: x) auto

text \<open>
  C33: entering command mode. After \<open>xbee_atmode_enter\<close> the line stays quiet for the guard time
  and 200 ms; the first tick after that sends the escape character three times and drops what was
  received before. From then on a tick that finds three bytes decides, by whether they are
  \<open>OK\<close> and a return, between command mode and idle mode and consumes just these; a tick that
  finds fewer gives up when the guard time and 200 ms have passed again. Times are differences of
  the 32-bit millisecond timer, which may wrap around.
\<close>

theorem atmode_enter_session:
  assumes "ser_ready (serport x)" "atmode_outside (mode x)"
    and "quiet x t0 ts" "t1 - t0 > ucast (guard_time x) + 200" "quiet x t1 us" "length r < 2 ^ 31"
    and y: "y = snd (xbee_atmode_enter t0 x)"
    and z: "z = fold xbee_atmode_tick (ts @ t1 # us) y"
  shows "os_tx (serport (fold xbee_atmode_tick ts y)) = os_tx (serport x) \<and>
    os_tx (serport z) = os_tx (serport x) @ replicate 3 (escape_char x) \<and>
    mode (xbee_atmode_tick t2 (recv r z)) =
      (if 3 \<le> length r then (if take 3 r = ok_response then XBEE_MODE_COMMAND else XBEE_MODE_IDLE)
       else if t2 - t1 > ucast (guard_time x) + 200 then XBEE_MODE_IDLE else XBEE_MODE_POST_ESCAPE) \<and>
    (3 \<le> length r \<longrightarrow> os_rx (serport (xbee_atmode_tick t2 (recv r z))) = drop 3 r)"
proof -
  have y': "y = x\<lparr>mode := XBEE_MODE_PRE_ESCAPE, mode_timer := t0\<rparr>"
    using assms(2) y by (auto simp: xbee_atmode_enter_def xbee_atmode_tick_def atmode_outside_def)
  have q: "fold xbee_atmode_tick ts y = y"
    using assms(3) by (intro tick_quiet[of _ t0]) (simp_all add: y' quiet_def)
  have "escaped (xbee_atmode_tick t1 y) t1 (guard_time x) (os_tx (serport x) @ replicate 3 (escape_char x))"
    using tick_escape[of y t1] assms(1,4) by (simp add: y')
  from escaped_quiet[OF this, of us] assms(5)
  have e: "escaped z t1 (guard_time x) (os_tx (serport x) @ replicate 3 (escape_char x))"
    by (simp add: z q quiet_def)
  then have "os_tx (serport z) = os_tx (serport x) @ replicate 3 (escape_char x)" by (simp add: escaped_def)
  with escaped_answer(2,3)[OF e refl, of r t2] assms(6) q show ?thesis by (simp add: y' not_le)
qed

theorem atmode_enter_session_witness:
  "os_tx (serport (xbee_atmode_tick 1500 (snd (xbee_atmode_enter 300 (demo_dev [5]))))) = [] \<and>
   mode (xbee_atmode_tick 1600 (recv ok_response (xbee_atmode_tick 1501 (xbee_atmode_tick 1500
     (snd (xbee_atmode_enter 300 (demo_dev [5]))))))) = XBEE_MODE_COMMAND"
proof -
  have x: "ser_ready (serport (demo_dev [5]))" "atmode_outside (mode (demo_dev [5]))" "guard_time (demo_dev [5]) = 1000"
    "os_tx (serport (demo_dev [5])) = []"
    using demo_dev_ok(1,6)[of "[5]"] by (simp_all add: demo_dev_def xbee_dev_init_def split_beta atmode_outside_def)
  then have "quiet (demo_dev [5]) 300 [1500]" "1501 - 300 > ucast (guard_time (demo_dev [5])) + (200 :: u32)"
    "quiet (demo_dev [5]) 1501 []" "length ok_response < 2 ^ 31"
    by (simp_all add: quiet_def ok_response_def)
  from atmode_enter_session[OF x(1,2) this refl refl, of 1600] x(4) show ?thesis by (simp add: ok_response_def)
qed

end
