(* ===== verification/Xbee_Firmware_Oem.thy ===== *)
theory Xbee_Firmware_Oem
  imports Xbee_Firmware Xbee_Atmode
begin

text \<open>
  The second part of \<open>src/Software/lib/XBee/src/xbee/xbee_firmware.c\<close>: installing an \<open>.OEM\<close>
  image. The image is checked, the module is brought into its boot loader by AT commands, and the
  blocks of the image are sent one by one; each is followed in the image by the bytes the boot
  loader has to answer. The steps of the state machine compose the serial port, the AT mode, the
  device and the functions of the source. Type \<open>char\<close> is signed, as on x86.
\<close>

section \<open>Reading the image\<close>

text \<open>Calls of the source's functions; the results of both are ignored by the code.\<close>

definition source_seek :: "('a, 'f) xbee_fw_source_t \<Rightarrow> u32 \<Rightarrow> ('a, 'f) xbee_fw_source_t" where
  "source_seek s offs = s\<lparr>fw_context := snd (fw_seek s (fw_context s) offs)\<rparr>"

definition source_read :: "('a, 'f) xbee_fw_source_t \<Rightarrow> int \<Rightarrow> bytes \<times> ('a, 'f) xbee_fw_source_t" where
  "source_read s n = (let (_, bs, f) = fw_read s (fw_context s) n in (bs, s\<lparr>fw_context := f\<rparr>))"

text \<open>A variable that is zero before the call keeps the bytes the source does not write.\<close>

definition xbee_fw_read_byte :: "('a, 'f) xbee_fw_source_t \<Rightarrow> int \<times> ('a, 'f) xbee_fw_source_t" where
  "xbee_fw_read_byte s = (let (bs, s) = source_read s 1 in (uint (buf_write [0 :: u8] 0 bs ! 0), s))"

definition xbee_fw_read_uint16 :: "('a, 'f) xbee_fw_source_t \<Rightarrow> u16 \<times> ('a, 'f) xbee_fw_source_t" where
  "xbee_fw_read_uint16 s =
     (let (bs, s) = source_read s 2; t = buf_write [0, 0] 0 bs in (be16_of (t ! 0) (t ! 1), s))"

definition xbee_fw_read_uint32 :: "('a, 'f) xbee_fw_source_t \<Rightarrow> u32 \<times> ('a, 'f) xbee_fw_source_t" where
  "xbee_fw_read_uint32 s =
     (let (bs, s) = source_read s 4; t = buf_write [0, 0, 0, 0] 0 bs
      in (be32_of (t ! 0) (t ! 1) (t ! 2) (t ! 3), s))"

text \<open>The loop over at most four characters.\<close>

fun hex2word_loop :: "nat \<Rightarrow> bytes \<Rightarrow> u16 \<Rightarrow> u16" where
  "hex2word_loop (Suc i) (c # cs) v =
     (let ch = sint c in
      if ch \<ge> 0x30 then
        hex2word_loop i cs (push_bit 4 v OR of_int (ch - (if ch \<ge> 0x41 then 0x41 - 10 else 0x30)))
      else v)"
| "hex2word_loop _ _ v = v"

definition xbee_fw_hex2word :: "bytes \<Rightarrow> u16" where
  "xbee_fw_hex2word p = hex2word_loop 4 p 0"

section \<open>Checking the image\<close>

abbreviation (input) EILSEQ :: int where "EILSEQ \<equiv> 84"

abbreviation (input) ENOTSUP :: int where "ENOTSUP \<equiv> 95"

abbreviation (input) XBEE_OEM_MAGIC_NUMBER :: u16 where "XBEE_OEM_MAGIC_NUMBER \<equiv> 0x93FD"

record xbee_oem_header_t =
  magic :: u16
  checksum :: u16
  image_len :: u32
  header_len :: u16
  module_id :: u8
  software_id :: u8

text \<open>The packed structure read from memory, each field converted from big-endian order.\<close>

definition oem_header :: "bytes \<Rightarrow> xbee_oem_header_t" where
  "oem_header b = \<lparr>magic = be16_of (b ! 0) (b ! 1), checksum = be16_of (b ! 2) (b ! 3),
     image_len = be32_of (b ! 4) (b ! 5) (b ! 6) (b ! 7), header_len = be16_of (b ! 8) (b ! 9),
     module_id = b ! 10, software_id = b ! 11\<rparr>"

fun sum_words :: "bytes \<Rightarrow> u16" where
  "sum_words (h # l # bs) = be16_of h l + sum_words bs"
| "sum_words _ = 0"

text \<open>The loop over the rest of the image; \<open>buf\<close> is the local buffer of 256 bytes.\<close>

function oem_verify_loop ::
  "'f xbee_xmodem_read_fn \<Rightarrow> 'f \<Rightarrow> bytes \<Rightarrow> u16 \<Rightarrow> u32 \<Rightarrow> u16 \<times> 'f" where
  "oem_verify_loop rd f buf Checksum Length =
     (if Length = 0 then (Checksum, f)
      else
        let bytes = (if 256 > Length then Length else 256);
            (_, bs, f) = rd f (uint bytes);
            buf = buf_write buf 0 bs
        in oem_verify_loop rd f buf (Checksum + sum_words (take (unat bytes) buf)) (Length - bytes))"
  by pat_completeness auto
termination
proof (relation "measure (\<lambda>(rd, f, buf, c, len). unat len)", goal_cases)
  case (2 rd f buf c len bytes p r q bs f' buf')
  then have "bytes \<le> len" "0 < bytes" by (auto simp: word_gt_0 not_less)
  then show ?case by (simp add: unat_sub word_le_nat_alt word_less_nat_alt)
qed simp

declare oem_verify_loop.simps [simp del]

text \<open>\<open>junk\<close> is what the local buffer holds before it is written.\<close>

definition xbee_oem_verify ::
  "bytes \<Rightarrow> ('a, 'f) xbee_fw_source_t \<Rightarrow> int \<times> ('a, 'f) xbee_fw_source_t" where
  "xbee_oem_verify junk s =
     (let (e, f) = fw_seek s (fw_context s) 0; s = s\<lparr>fw_context := f\<rparr> in
      if e \<noteq> 0 then (- EIO, s)
      else
        let (n, bs, f) = fw_read s (fw_context s) 12; s = s\<lparr>fw_context := f\<rparr> in
        if n \<noteq> 12 then (- EIO, s)
        else
          let h = oem_header bs; Checksum = magic h in
          if Checksum \<noteq> XBEE_OEM_MAGIC_NUMBER then (- EILSEQ, s)
          else
            let Checksum = Checksum + checksum h;
                Length = image_len h;
                Checksum = Checksum + ucast (drop_bit 16 Length);
                Checksum = Checksum + ucast Length;
                Checksum = Checksum + header_len h;
                Checksum = Checksum + (push_bit 8 (ucast (module_id h)) OR ucast (software_id h))
            in if 32 > Length \<or> 128 * 1024 < Length \<or> Length AND 1 \<noteq> 0 then (- EILSEQ, s)
               else
                 let (Checksum, f) = oem_verify_loop (fw_read s) (fw_context s) junk Checksum (Length - 12);
                     s = s\<lparr>fw_context := f\<rparr>
                 in if Checksum \<noteq> 0 then (- EBADMSG, s) else (0, s))"

section \<open>The steps of the installation\<close>

definition oem_to :: "xbee_fw_state \<Rightarrow> ('a, 'f) xbee_fw_source_t \<Rightarrow> ('a, 'f) xbee_fw_source_t" where
  "oem_to st s = s\<lparr>fw_state := st\<rparr>"

definition xbee_fw_send_request ::
  "u32 \<Rightarrow> ('a, 'f) xbee_fw_source_t \<Rightarrow> bytes \<Rightarrow> xbee_fw_state \<Rightarrow> ('a, 'f) xbee_fw_source_t" where
  "xbee_fw_send_request now s request next_state =
     s\<lparr>fw_buffer := (fw_buffer s)[0 := 0], fw_xbee := snd (xbee_atmode_send_request now (fw_xbee s) request),
       fw_state := XBEE_FW_STATE_PARSE_RESPONSE, fw_next_state := next_state\<rparr>"

definition oem_init :: "bytes \<Rightarrow> ('a, 'f) xbee_fw_source_t \<Rightarrow> int \<times> ('a, 'f) xbee_fw_source_t" where
  "oem_init junk s =
     (let (err, s) = xbee_oem_verify junk s in
      if err \<noteq> 0 then (err, oem_to XBEE_FW_STATE_FAILURE s)
      else (0, s\<lparr>fw_state := XBEE_FW_STATE_RESET, fw_tries := 0\<rparr>))"

definition oem_reset :: "u32 \<Rightarrow> int \<Rightarrow> ('a, 'f) xbee_fw_source_t \<Rightarrow> int \<times> ('a, 'f) xbee_fw_source_t" where
  "oem_reset now fd s =
     (let p = snd (xbee_ser_open (fw_port s) (if fw_tries s \<noteq> 0 then 9600 else 115200) fd);
          p = snd (xbee_ser_flowcontrol p True);
          s = set_port p s
      in (0, s\<lparr>fw_xbee := snd (xbee_atmode_enter now (fw_xbee s)), fw_state := XBEE_FW_STATE_CMD_PENDING\<rparr>))"

definition oem_cmd_pending :: "u32 \<Rightarrow> ('a, 'f) xbee_fw_source_t \<Rightarrow> int \<times> ('a, 'f) xbee_fw_source_t" where
  "oem_cmd_pending now s =
     (let s = s\<lparr>fw_xbee := xbee_atmode_tick now (fw_xbee s)\<rparr> in
      case mode (fw_xbee s) of
        XBEE_MODE_COMMAND \<Rightarrow> (0, xbee_fw_send_request now s (str_bytes ''HV'') XBEE_FW_STATE_CMD_HV)
      | XBEE_MODE_IDLE \<Rightarrow>
          if fw_tries s = 0 then (0, s\<lparr>fw_tries := fw_tries s + 1, fw_state := XBEE_FW_STATE_RESET\<rparr>)
          else (- EIO, oem_to XBEE_FW_STATE_FAILURE s)
      | _ \<Rightarrow> (0, s))"

definition oem_parse_response ::
  "u32 \<Rightarrow> ('a, 'f) xbee_fw_source_t \<Rightarrow> (int \<times> ('a, 'f) xbee_fw_source_t) option" where
  "oem_parse_response now s =
     map_option (\<lambda>(retval, b, _, x).
         let s = s\<lparr>fw_buffer := b, fw_xbee := x\<rparr> in
         if retval = - EAGAIN then (0, s)
         else if retval < 0 then (- EIO, oem_to XBEE_FW_STATE_FAILURE s)
         else (0, oem_to (fw_next_state s) s))
       (xbee_atmode_read_response now (fw_xbee s) (fw_buffer s) (int (length (fw_buffer s))) None)"

definition oem_cmd_hv :: "u32 \<Rightarrow> ('a, 'f) xbee_fw_source_t \<Rightarrow> int \<times> ('a, 'f) xbee_fw_source_t" where
  "oem_cmd_hv now s =
     (let hv = xbee_fw_hex2word (fw_buffer s);
          (b, s) = xbee_fw_read_byte (source_seek s 10)
      in if uint (drop_bit 8 hv) \<noteq> b then (- ENOTSUP, s)
         else (0, xbee_fw_send_request now s (str_bytes ''%C'') XBEE_FW_STATE_CMD_COMPAT))"

definition oem_cmd_compat :: "u32 \<Rightarrow> ('a, 'f) xbee_fw_source_t \<Rightarrow> int \<times> ('a, 'f) xbee_fw_source_t" where
  "oem_cmd_compat now s =
     (let (err, s) =
            (if cstr_of (fw_buffer s) \<noteq> str_bytes ''ERROR'' then
               let (b, s) = xbee_fw_read_byte (source_seek s 11)
               in (uint (xbee_fw_hex2word (fw_buffer s)) \<noteq> b, s)
             else (False, s))
      in if err then (- ENOTSUP, s)
         else (0, xbee_fw_send_request now s (str_bytes ''VR'') XBEE_FW_STATE_CMD_VR))"

text \<open>The comparison of the version: the flags after it. The flag is set before it as well.\<close>

fun version_loop :: "bytes \<Rightarrow> u16 \<Rightarrow> ('a, 'f) xbee_fw_source_t \<Rightarrow> u16 \<times> ('a, 'f) xbee_fw_source_t" where
  "version_loop [] flags s = (flags, s)"
| "version_loop (c # cs) flags s =
     (let (b, s) = xbee_fw_read_byte s in
      if b \<noteq> sint c then (flags OR 1, s) else version_loop cs flags s)"

definition oem_cmd_vr :: "u32 \<Rightarrow> ('a, 'f) xbee_fw_source_t \<Rightarrow> int \<times> ('a, 'f) xbee_fw_source_t" where
  "oem_cmd_vr now s =
     (let (flags, s) = version_loop (take 4 (fw_buffer s)) 1 (source_seek s 12) in
      if (if flags = 0 then 1 else 0) AND (1 :: u16) \<noteq> 0 then
        (0, s\<lparr>fw_xbee := snd (xbee_atmode_send_request now (fw_xbee s) (str_bytes ''CN'')),
              fw_state := XBEE_FW_STATE_DONE\<rparr>)
      else (0, xbee_fw_send_request now s (str_bytes ''CF1'') XBEE_FW_STATE_CMD_CF1))"

text \<open>\<open>%04X\<close> of a number below \<open>0x10000\<close>.\<close>

definition hex4 :: "u16 \<Rightarrow> bytes" where
  "hex4 w = map (\<lambda>i. let d = drop_bit (4 * i) w AND 0xF in ucast d + (if d < 10 then 0x30 else 0x37)) [3, 2, 1, 0]"

definition oem_cmd_sl :: "u32 \<Rightarrow> ('a, 'f) xbee_fw_source_t \<Rightarrow> int \<times> ('a, 'f) xbee_fw_source_t" where
  "oem_cmd_sl now s =
     (let response = str_bytes ''%P'' @ hex4 ((xbee_fw_hex2word (fw_buffer s) + 0xDB8A) AND 0x3FFF)
      in (0, xbee_fw_send_request now s response XBEE_FW_STATE_CMD_PROG))"

definition oem_cmd_prog :: "u32 \<Rightarrow> ('a, 'f) xbee_fw_source_t \<Rightarrow> int \<times> ('a, 'f) xbee_fw_source_t" where
  "oem_cmd_prog now s =
     (if cstr_of (fw_buffer s) \<noteq> str_bytes ''OK''
      then (0, xbee_fw_send_request now s (str_bytes ''FR'') XBEE_FW_STATE_CMD_FR)
      else (0, oem_to XBEE_FW_STATE_BOOTLOADER s))"

definition oem_cmd_fr :: "u32 \<Rightarrow> ('a, 'f) xbee_fw_source_t \<Rightarrow> int \<times> ('a, 'f) xbee_fw_source_t" where
  "oem_cmd_fr now s =
     (let p = snd (xbee_ser_set_rts (fw_port s) False);
          p = snd (xbee_ser_break p True)
      in (0, (set_port p s)\<lparr>fw_timer := now, fw_state := XBEE_FW_STATE_BREAK\<rparr>))"

definition oem_tx_start :: "u32 \<Rightarrow> ('a, 'f) xbee_fw_source_t \<Rightarrow> int \<times> ('a, 'f) xbee_fw_source_t" where
  "oem_tx_start now s =
     (let (ch, p) = xbee_ser_getchar (fw_port s); s = set_port p s in
      if ch = - ENODATA \<and> \<not> time_elapsed s now 1000 then (0, s)
      else if ch \<noteq> 0x55 \<and> ch \<noteq> 0x11 then (- EIO, oem_to XBEE_FW_STATE_FAILURE s)
      else
        let s = s\<lparr>fw_tries := 0\<rparr>;
            (len, s) = xbee_fw_read_uint32 (source_seek s 4);
            (offs, s) = xbee_fw_read_uint16 s
        in (0, s\<lparr>oem := (oem s)\<lparr>firmware_length := len, block_offset := ucast offs\<rparr>,
                 fw_state := XBEE_FW_STATE_TX_BLOCK\<rparr>))"

definition oem_bootloader :: "u32 \<Rightarrow> int \<Rightarrow> ('a, 'f) xbee_fw_source_t \<Rightarrow> int \<times> ('a, 'f) xbee_fw_source_t" where
  "oem_bootloader now fd s =
     (let p = snd (xbee_ser_open (fw_port s) 38400 fd);
          p = snd (xbee_ser_putchar p 0x2B)
      in oem_tx_start now (oem_to XBEE_FW_STATE_TX_START (set_port p s)))"

definition oem_break :: "u32 \<Rightarrow> int \<Rightarrow> ('a, 'f) xbee_fw_source_t \<Rightarrow> int \<times> ('a, 'f) xbee_fw_source_t" where
  "oem_break now fd s = (if \<not> time_elapsed s now 400 then (0, s) else oem_bootloader now fd s)"

definition oem_tx_block :: "u32 \<Rightarrow> int \<Rightarrow> ('a, 'f) xbee_fw_source_t \<Rightarrow> int \<times> ('a, 'f) xbee_fw_source_t" where
  "oem_tx_block now fd s =
     (let (tempword, s) = xbee_fw_read_uint16 (source_seek s (block_offset (oem s))) in
      if tempword = 0 then
        let s = s\<lparr>fw_xbee := snd (xbee_dev_reset (fw_xbee s))\<rparr>;
            p = snd (xbee_ser_open (fw_port s) 9600 fd);
            p = snd (xbee_ser_flowcontrol p True)
        in (0, (set_port p s)\<lparr>fw_timer := now, fw_state := XBEE_FW_STATE_FINAL_PROMPT\<rparr>)
      else
        (0, s\<lparr>oem := (oem s)\<lparr>block_length := tempword,
                             cur_offset := block_offset (oem s) + 2 + ucast tempword\<rparr>,
              fw_state := XBEE_FW_STATE_SENDING\<rparr>))"

text \<open>Sending up to 128 bytes of the block through the buffer.\<close>

definition oem_send_part :: "('a, 'f) xbee_fw_source_t \<Rightarrow> ('a, 'f) xbee_fw_source_t" where
  "oem_send_part s =
     (let bytes = xbee_ser_tx_free (fw_port s) in
      if bytes > 0 then
        let bytes = min bytes 128;
            bytes = min bytes (uint (block_length (oem s)));
            (bs, s) = source_read s bytes;
            s = s\<lparr>fw_buffer := buf_write (fw_buffer s) 0 bs\<rparr>;
            s = set_port (snd (xbee_ser_write (fw_port s) (fw_buffer s) bytes)) s
        in s\<lparr>oem := (oem s)\<lparr>block_length := block_length (oem s) - of_int bytes\<rparr>\<rparr>
      else s)"

definition oem_sending :: "u32 \<Rightarrow> ('a, 'f) xbee_fw_source_t \<Rightarrow> int \<times> ('a, 'f) xbee_fw_source_t" where
  "oem_sending now s =
     (let s = oem_send_part s in
      if block_length (oem s) \<noteq> 0 then (0, s)
      else
        let (tempword, s) = xbee_fw_read_uint16 s
        in (0, s\<lparr>oem := (oem s)\<lparr>block_length := tempword, cur_offset := cur_offset (oem s) + (2 + ucast tempword)\<rparr>,
                 fw_timer := now, fw_state := XBEE_FW_STATE_RX_BLOCK\<rparr>))"

definition oem_rx_fail :: "('a, 'f) xbee_fw_source_t \<Rightarrow> int \<times> ('a, 'f) xbee_fw_source_t" where
  "oem_rx_fail s =
     (let s = s\<lparr>fw_tries := fw_tries s + 1\<rparr> in
      if fw_tries s \<le> 3 then (0, oem_to XBEE_FW_STATE_TX_BLOCK s)
      else (- EIO, oem_to XBEE_FW_STATE_FAILURE s))"

text \<open>Comparing received bytes, as \<open>char\<close>, with bytes of the image, as \<open>uint8_t\<close>.\<close>

fun rx_compare :: "bytes \<Rightarrow> ('a, 'f) xbee_fw_source_t \<Rightarrow> bool \<times> ('a, 'f) xbee_fw_source_t" where
  "rx_compare [] s = (True, s)"
| "rx_compare (c # cs) s =
     (let (b, s) = xbee_fw_read_byte s in if sint c \<noteq> b then (False, s) else rx_compare cs s)"

definition oem_rx_block :: "u32 \<Rightarrow> ('a, 'f) xbee_fw_source_t \<Rightarrow> int \<times> ('a, 'f) xbee_fw_source_t" where
  "oem_rx_block now s =
     (let (bytes, bs, p) = xbee_ser_read (fw_port s) (min (uint (block_length (oem s))) 128);
          s = (set_port p s)\<lparr>fw_buffer := buf_write (fw_buffer s) 0 bs\<rparr>
      in if bytes > 0 then
           let (same, s) = rx_compare (take (nat bytes) (fw_buffer s)) s in
           if \<not> same then (0, oem_to XBEE_FW_STATE_RX_FAIL s)
           else
             let s = s\<lparr>oem := (oem s)\<lparr>block_length := block_length (oem s) - of_int bytes\<rparr>\<rparr> in
             if block_length (oem s) \<noteq> 0 then (0, s)
             else (0, s\<lparr>fw_tries := 0, oem := (oem s)\<lparr>block_offset := cur_offset (oem s)\<rparr>,
                        fw_state := XBEE_FW_STATE_TX_BLOCK\<rparr>)
         else if \<not> time_elapsed s now 4000 then (0, s)
         else oem_rx_fail s)"

definition oem_done :: "('a, 'f) xbee_fw_source_t \<Rightarrow> int \<times> ('a, 'f) xbee_fw_source_t" where
  "oem_done s = (1, oem_to XBEE_FW_STATE_SUCCESS s)"

definition xbee_fw_install_oem_tick ::
  "bytes \<Rightarrow> ('a, 'f) xbee_fw_source_t \<Rightarrow> u32 \<Rightarrow> int \<Rightarrow> (int \<times> ('a, 'f) xbee_fw_source_t) option" where
  "xbee_fw_install_oem_tick junk s now fd =
     (case fw_state s of
        XBEE_FW_STATE_SUCCESS \<Rightarrow> Some (1, s)
      | XBEE_FW_STATE_FAILURE \<Rightarrow> Some (- EIO, s)
      | XBEE_FW_STATE_INIT \<Rightarrow> Some (oem_init junk s)
      | XBEE_FW_STATE_RESET \<Rightarrow> Some (oem_reset now fd s)
      | XBEE_FW_STATE_CMD_PENDING \<Rightarrow> Some (oem_cmd_pending now s)
      | XBEE_FW_STATE_PARSE_RESPONSE \<Rightarrow> oem_parse_response now s
      | XBEE_FW_STATE_CMD_HV \<Rightarrow> Some (oem_cmd_hv now s)
      | XBEE_FW_STATE_CMD_COMPAT \<Rightarrow> Some (oem_cmd_compat now s)
      | XBEE_FW_STATE_CMD_VR \<Rightarrow> Some (oem_cmd_vr now s)
      | XBEE_FW_STATE_CMD_CF1 \<Rightarrow> Some (0, xbee_fw_send_request now s (str_bytes ''SL'') XBEE_FW_STATE_CMD_SL)
      | XBEE_FW_STATE_CMD_SL \<Rightarrow> Some (oem_cmd_sl now s)
      | XBEE_FW_STATE_CMD_PROG \<Rightarrow> Some (oem_cmd_prog now s)
      | XBEE_FW_STATE_CMD_FR \<Rightarrow> Some (oem_cmd_fr now s)
      | XBEE_FW_STATE_BREAK \<Rightarrow> Some (oem_break now fd s)
      | XBEE_FW_STATE_BOOTLOADER \<Rightarrow> Some (oem_bootloader now fd s)
      | XBEE_FW_STATE_TX_START \<Rightarrow> Some (oem_tx_start now s)
      | XBEE_FW_STATE_TX_BLOCK \<Rightarrow> Some (oem_tx_block now fd s)
      | XBEE_FW_STATE_SENDING \<Rightarrow> Some (oem_sending now s)
      | XBEE_FW_STATE_RX_BLOCK \<Rightarrow> Some (oem_rx_block now s)
      | XBEE_FW_STATE_RX_FAIL \<Rightarrow> Some (oem_rx_fail s)
      | XBEE_FW_STATE_FINAL_PROMPT \<Rightarrow> Some (if \<not> time_elapsed s now 3000 then (0, s) else oem_done s)
      | XBEE_FW_STATE_DONE \<Rightarrow> Some (oem_done s)
      | _ \<Rightarrow> Some (- EBADMSG, oem_to XBEE_FW_STATE_FAILURE s))"

section \<open>Progress shown to the user\<close>

definition received_text :: "string \<Rightarrow> string" where
  "received_text c = ''Received response to AT'' @ c @ '' command.''"

definition xbee_fw_status_oem :: "('a, 'f) xbee_fw_source_t \<Rightarrow> string" where
  "xbee_fw_status_oem s =
     (let sending = ''Sending firmware ('' @ dec_digits (unat (block_offset (oem s))) @ ''/'' @
            dec_digits (unat (firmware_length (oem s))) @ '').''
      in case fw_state s of
        XBEE_FW_STATE_SUCCESS \<Rightarrow> ''Install successful.''
      | XBEE_FW_STATE_DONE \<Rightarrow> ''Install successful.''
      | XBEE_FW_STATE_FAILURE \<Rightarrow> ''Install failed.''
      | XBEE_FW_STATE_INIT \<Rightarrow> ''Starting update.''
      | XBEE_FW_STATE_RESET \<Rightarrow> ''Verified firmware image.''
      | XBEE_FW_STATE_CMD_PENDING \<Rightarrow>
          ''Trying to enter command mode at '' @ (if fw_tries s \<noteq> 0 then ''9.6'' else ''115'') @ ''kbps.''
      | XBEE_FW_STATE_PARSE_RESPONSE \<Rightarrow> ''Waiting for response to AT command.''
      | XBEE_FW_STATE_CMD_HV \<Rightarrow> received_text ''HV''
      | XBEE_FW_STATE_CMD_COMPAT \<Rightarrow> received_text ''%C''
      | XBEE_FW_STATE_CMD_VR \<Rightarrow> received_text ''VR''
      | XBEE_FW_STATE_CMD_CF1 \<Rightarrow> received_text ''CF1''
      | XBEE_FW_STATE_CMD_SL \<Rightarrow> received_text ''SL''
      | XBEE_FW_STATE_CMD_PROG \<Rightarrow> received_text ''%Pxxxx''
      | XBEE_FW_STATE_CMD_FR \<Rightarrow> received_text ''FR''
      | XBEE_FW_STATE_BREAK \<Rightarrow> ''Generating serial break on transmit pin.''
      | XBEE_FW_STATE_BOOTLOADER \<Rightarrow> ''Waiting for response from bootloader.''
      | XBEE_FW_STATE_TX_START \<Rightarrow> ''Waiting for response from bootloader.''
      | XBEE_FW_STATE_TX_BLOCK \<Rightarrow> sending
      | XBEE_FW_STATE_SENDING \<Rightarrow> sending
      | XBEE_FW_STATE_RX_BLOCK \<Rightarrow> sending
      | XBEE_FW_STATE_RX_FAIL \<Rightarrow> sending
      | XBEE_FW_STATE_FINAL_PROMPT \<Rightarrow> ''Update complete, rebooting into new firmware.''
      | st \<Rightarrow> ''Invalid state '' @ dec_digits (fw_state_num st) @ ''.'')"

section \<open>Images that can be read at any place\<close>

locale image_source = block_source fr rest okf
  for fr :: "'f xbee_xmodem_read_fn" and rest :: "'f \<Rightarrow> bytes" and okf :: "'f \<Rightarrow> bool" +
  fixes seek :: "'f \<Rightarrow> u32 \<Rightarrow> int \<times> 'f" and whole :: "'f \<Rightarrow> bytes"
  assumes seek: "okf f \<Longrightarrow> unat offs \<le> length (whole f) \<Longrightarrow> seek f offs = (e, f') \<Longrightarrow>
      e = 0 \<and> okf f' \<and> whole f' = whole f \<and> rest f' = drop (unat offs) (whole f)"
    and fr_whole: "okf f \<Longrightarrow> 0 < n \<Longrightarrow> n < 2 ^ 15 \<Longrightarrow> fr f n = (e, bs, f') \<Longrightarrow> whole f' = whole f"
begin

definition at :: "bytes \<Rightarrow> nat \<Rightarrow> 'f \<Rightarrow> bool" where
  "at img k f \<longleftrightarrow> okf f \<and> whole f = img \<and> rest f = drop k img"

text \<open>A source that reads the image \<open>img\<close> and is at the place \<open>k\<close>.\<close>

definition src :: "bytes \<Rightarrow> nat \<Rightarrow> ('a, 'f) xbee_fw_source_t \<Rightarrow> bool" where
  "src img k s \<longleftrightarrow> fw_read s = fr \<and> fw_seek s = seek \<and> at img k (fw_context s)"

lemma fr_at:
  assumes "at img k f" "0 < n" "n < 2 ^ 15" "fr f n = (e, bs, f')"
  shows "bs = take (nat n) (drop k img)" "at img (k + nat n) f'"
    "k + nat n \<le> length img \<Longrightarrow> e = n" "k \<ge> length img \<Longrightarrow> e = 0 \<or> e = - ENODATA"
    "k < length img \<Longrightarrow> e = int (length bs)"
  using fr[OF _ assms(2-4)] fr_whole[OF _ assms(2-4)] assms(1,2)
  by (auto simp: at_def add.commute min_def split: if_splits)

lemma seek_at:
  assumes "at img k f" "unat offs \<le> length img" "seek f offs = (e, f')"
  shows "e = 0" "at img (unat offs) f'"
  using seek[OF _ _ assms(3)] assms(1,2) by (auto simp: at_def)

lemma source_seek_at:
  assumes "src img k s" "unat offs \<le> length img"
  obtains f where "source_seek s offs = s\<lparr>fw_context := f\<rparr>" "at img (unat offs) f"
proof -
  obtain e f where "seek (fw_context s) offs = (e, f)" by fastforce
  with seek_at(2)[OF _ assms(2) this] assms(1) show thesis
    by (intro that[of f]) (auto simp: src_def source_seek_def)
qed

lemma source_read_at:
  assumes "src img k s" "0 < n" "n < 2 ^ 15"
  obtains f where "source_read s n = (take (nat n) (drop k img), s\<lparr>fw_context := f\<rparr>)" "at img (k + nat n) f"
proof -
  obtain e bs f where "fr (fw_context s) n = (e, bs, f)" by (metis prod_cases3)
  with fr_at(1,2)[OF _ assms(2,3) this] assms(1) show thesis
    by (intro that[of f]) (auto simp: src_def source_read_def)
qed

lemma read_byte_at:
  assumes "src img k s" "k < length img"
  obtains f where "xbee_fw_read_byte s = (uint (img ! k), s\<lparr>fw_context := f\<rparr>)" "at img (k + 1) f"
proof -
  obtain f where f: "source_read s 1 = (take 1 (drop k img), s\<lparr>fw_context := f\<rparr>)" "at img (k + 1) f"
    using source_read_at[OF assms(1), of 1] by auto
  have "take 1 (drop k img) = [img ! k]" using assms(2) by (simp add: take_Suc hd_drop_conv_nth)
  with f show thesis by (intro that[of f]) (simp_all add: xbee_fw_read_byte_def buf_write_def)
qed

lemma read_uint16_at:
  assumes "src img k s" "take 2 (drop k img) = be16_bytes w"
  obtains f where "xbee_fw_read_uint16 s = (w, s\<lparr>fw_context := f\<rparr>)" "at img (k + 2) f"
proof -
  obtain f where f: "source_read s 2 = (be16_bytes w, s\<lparr>fw_context := f\<rparr>)" "at img (k + 2) f"
    using source_read_at[OF assms(1), of 2] assms(2) by auto
  then show thesis
    by (intro that[of f]) (simp_all add: xbee_fw_read_uint16_def buf_write_def be16_bytes_def be16_roundtrip)
qed

end

text \<open>What the check of an image means: the format, and the sum of all its 16-bit words.\<close>

definition oem_check :: "bytes \<Rightarrow> int" where
  "oem_check img =
     (if length img < 12 then - EIO
      else
        let h = oem_header img; len = unat (image_len h) in
        if magic h \<noteq> XBEE_OEM_MAGIC_NUMBER then - EILSEQ
        else if len < 32 \<or> 131072 < len \<or> odd len then - EILSEQ
        else if sum_words (take len img) \<noteq> 0 then - EBADMSG else 0)"

text \<open>The bytes the header promises are there.\<close>

definition oem_complete :: "bytes \<Rightarrow> bool" where
  "oem_complete img \<longleftrightarrow> (12 \<le> length img \<longrightarrow> unat (image_len (oem_header img)) \<le> length img)"

lemma sum_words_append: "even (length a) \<Longrightarrow> sum_words (a @ b) = sum_words a + sum_words b"
  by (induction a rule: sum_words.induct) (simp_all add: add.assoc)

lemma sum_words_header:
  assumes "12 \<le> length img"
  defines "h \<equiv> oem_header img"
  shows "sum_words (take 12 img) = magic h + checksum h + ucast (drop_bit 16 (image_len h)) + ucast (image_len h) +
     header_len h + (push_bit 8 (ucast (module_id h)) OR ucast (software_id h))"
proof -
  have "ucast (drop_bit 16 (be32_of a b c d)) = be16_of a b" "ucast (be32_of a b c d) = be16_of c d" for a b c d
    by (rule bit_word_eqI, auto simp: be32_of_def be16_of_def bit_simps dest: bit_word_lt)+
  note w = this
  have "take 12 img = map ((!) img) [0..<12]"
    using assms(1) by (intro nth_equalityI) simp_all
  also have "\<dots> = [img!0, img!1, img!2, img!3, img!4, img!5, img!6, img!7, img!8, img!9, img!10, img!11]"
    by (simp add: upt_rec numeral_eq_Suc)
  finally show ?thesis
    unfolding h_def by (simp add: oem_header_def w be16_of_def[of "img ! 10"] add.assoc)
qed

lemma oem_header_take: "oem_header (take 12 img) = oem_header img"
  by (simp add: oem_header_def)

lemma even_unat: "even (unat (w :: u32)) \<longleftrightarrow> w AND 1 = 0"
proof -
  have "even (unat w) \<longleftrightarrow> even w" by transfer (simp add: even_nat_iff)
  then show ?thesis by (simp add: and_one_eq even_iff_mod_2_eq_zero)
qed

context image_source
begin

lemma verify_loop_at:
  assumes "at img k f" "k + unat len \<le> length img" "even (unat len)" "length buf = 256"
  shows "\<exists>f'. oem_verify_loop fr f buf c len = (c + sum_words (take (unat len) (drop k img)), f') \<and>
     at img (k + unat len) f'"
  using assms
proof (induction "unat len" arbitrary: len k f buf c rule: less_induct)
  case less
  show ?case
  proof (cases "len = 0")
    case True
    with less.prems show ?thesis by (subst oem_verify_loop.simps) simp
  next
    case False
    define b where "b = (if 256 > len then len else 256)"
    have b: "b \<le> len" "0 < b" "b \<le> 256" "even (unat b)" using False less.prems(3) by (auto simp: b_def word_gt_0)
    define B where "B = unat b"
    have B: "B \<le> unat len" "0 < B" "B \<le> 256" "even B" "unat (len - b) = unat len - B" "uint b = int B"
      using b unfolding B_def by (simp_all add: word_le_nat_alt word_less_nat_alt unat_sub)
    obtain e bs f' where rd: "fr f (int B) = (e, bs, f')" by (metis prod_cases3)
    have f': "bs = take B (drop k img)" "at img (k + B) f'"
      using fr_at[OF less.prems(1) _ _ rd] B by simp_all
    have len: "length bs = B" using f'(1) less.prems(2) B by simp
    have "\<exists>f''. oem_verify_loop fr f' (buf_write buf 0 bs) (c + sum_words bs) (len - b) =
        (c + sum_words bs + sum_words (take (unat (len - b)) (drop (k + B) img)), f'') \<and>
      at img (k + B + unat (len - b)) f''"
    proof (rule less.hyps)
      show "unat (len - b) < unat len" "k + B + unat (len - b) \<le> length img" "even (unat (len - b))"
        using B(1,2,4,5) less.prems(2,3) by simp_all
      show "length (buf_write buf 0 bs) = 256" using len B(3) less.prems(4) by simp
    qed (rule f'(2))
    moreover have "take (unat len) (drop k img) = bs @ take (unat len - B) (drop (k + B) img)"
      using B(1) f'(1) by (metis add.commute drop_drop le_add_diff_inverse take_add)
    moreover have "take (unat b) (buf_write buf 0 bs) = bs" using len by (simp add: buf_write_def B_def)
    ultimately show ?thesis
      using False rd B f' less.prems(2) len
      by (subst oem_verify_loop.simps) (simp add: sum_words_append add.assoc flip: b_def)
  qed
qed

lemma verify_at:
  assumes "src img k s" "oem_complete img" "length junk = 256"
  shows "\<exists>s' k'. xbee_oem_verify junk s = (oem_check img, s') \<and> s' = s\<lparr>fw_context := fw_context s'\<rparr> \<and> src img k' s'"
proof -
  obtain e f where sk: "seek (fw_context s) 0 = (e, f)" by fastforce
  obtain n bs f' where rd: "fr f 12 = (n, bs, f')" by (metis prod_cases3)
  have s: "fw_read s = fr" "fw_seek s = seek" "at img k (fw_context s)" using assms(1) by (auto simp: src_def)
  have f: "e = 0" "at img 0 f" using seek_at[OF s(3) _ sk] by auto
  note f' = fr_at[OF f(2) _ _ rd, simplified]
  show ?thesis
  proof (cases "length img < 12")
    case True
    then have "n \<noteq> 12" using f'(1,4,5) by (cases "img = []") auto
    with True f'(2) show ?thesis
      by (auto simp: xbee_oem_verify_def s sk f rd oem_check_def src_def)
  next
    case False
    define h where "h = oem_header img"
    define len where "len = image_len h"
    have bs: "n = 12" "oem_header bs = h" using f'(1,3) False by (simp_all add: h_def oem_header_take)
    have bad: "32 > len \<or> 128 * 1024 < len \<or> len AND 1 \<noteq> 0 \<longleftrightarrow> unat len < 32 \<or> 131072 < unat len \<or> odd (unat len)"
      by (simp add: even_unat word_less_nat_alt)
    show ?thesis
    proof (cases "magic h \<noteq> XBEE_OEM_MAGIC_NUMBER \<or> unat len < 32 \<or> 131072 < unat len \<or> odd (unat len)")
      case True
      with bs bad False f'(2) show ?thesis
        by (auto simp: xbee_oem_verify_def s sk f rd oem_check_def Let_def src_def simp flip: h_def len_def)
    next
      case ok: False
      then have u: "unat (len - 12) = unat len - 12" by (simp add: unat_sub word_le_nat_alt)
      let ?c = "magic h + checksum h + ucast (drop_bit 16 len) + ucast len + header_len h +
        (push_bit 8 (ucast (module_id h)) OR ucast (software_id h)) :: u16"
      obtain f2 where l: "oem_verify_loop fr f' junk ?c (len - 12) =
          (?c + sum_words (take (unat len - 12) (drop 12 img)), f2)" "at img (unat len) f2"
        using verify_loop_at[OF f'(2), of "len - 12" junk ?c] assms(2,3) ok False u
        by (auto simp: oem_complete_def h_def len_def)
      have "take (unat len) img = take 12 img @ take (unat len - 12) (drop 12 img)"
        using ok take_add[of 12 "unat len - 12" img] by simp
      then have "sum_words (take (unat len) img) = ?c + sum_words (take (unat len - 12) (drop 12 img))"
        using sum_words_header[of img] False by (simp add: sum_words_append h_def len_def)
      with l bs bad ok False show ?thesis
        by (auto simp: xbee_oem_verify_def s sk f rd oem_check_def Let_def src_def simp flip: h_def len_def)
    qed
  qed
qed

end

section \<open>The blocks of an image\<close>

text \<open>A block: the bytes to send, and the bytes the boot loader has to answer.\<close>

definition oem_block :: "bytes \<times> bytes \<Rightarrow> bytes" where
  "oem_block b = be16_bytes (of_nat (length (fst b))) @ fst b @ be16_bytes (of_nat (length (snd b))) @ snd b"

definition oem_blocks :: "(bytes \<times> bytes) list \<Rightarrow> bytes" where
  "oem_blocks bs = concat (map oem_block bs) @ [0, 0]"

text \<open>At the place \<open>k\<close> of the image are the blocks \<open>todo\<close> and the end marker.\<close>

definition spot :: "bytes \<Rightarrow> (bytes \<times> bytes) list \<Rightarrow> nat \<Rightarrow> bool" where
  "spot img todo k \<longleftrightarrow> (\<exists>tail. drop k img = oem_blocks todo @ tail) \<and> length img < 2 ^ 32 \<and>
     (\<forall>(d, r) \<in> set todo. d \<noteq> [] \<and> length d < 2 ^ 16 \<and> length r < 2 ^ 16)"

definition oem_layout :: "bytes \<Rightarrow> (bytes \<times> bytes) list \<Rightarrow> bool" where
  "oem_layout img blocks \<longleftrightarrow> 12 \<le> length img \<and> spot img blocks (unat (header_len (oem_header img)))"

lemma unat_of_nat_small: "n < 2 ^ 16 \<Longrightarrow> unat (of_nat n :: u16) = n"
  by (simp add: unat_of_nat)

lemma of_nat_small_nz: "0 < n \<Longrightarrow> n < 2 ^ 16 \<Longrightarrow> (of_nat n :: u16) \<noteq> 0"
  using unat_of_nat_small[of n] by auto

lemma spot_in: "spot img todo k \<Longrightarrow> k + 2 \<le> length img"
proof -
  assume "spot img todo k"
  then obtain tail where "drop k img = oem_blocks todo @ tail" by (auto simp: spot_def)
  then have "length img - k \<ge> 2" by (metis (no_types) length_drop length_append oem_blocks_def le_add1 le_add2
        One_nat_def Suc_1 append.assoc length_Cons list.size(3) order.trans add.commute)
  then show ?thesis by simp
qed

lemma spot_Nil: "spot img [] k \<Longrightarrow> take 2 (drop k img) = be16_bytes 0"
  by (auto simp: spot_def oem_blocks_def be16_bytes_def)

lemma spot_Cons:
  assumes "spot img ((d, r) # todo) k"
  shows "take 2 (drop k img) = be16_bytes (of_nat (length d))" "take (length d) (drop (k + 2) img) = d"
    "take 2 (drop (k + 2 + length d) img) = be16_bytes (of_nat (length r))"
    "take (length r) (drop (k + 2 + length d + 2) img) = r"
    "spot img todo (k + 2 + length d + 2 + length r)"
    "d \<noteq> []" "length d < 2 ^ 16" "length r < 2 ^ 16" "k + 2 + length d + 2 + length r + 2 \<le> length img"
proof -
  obtain tail where k: "drop k img = oem_block (d, r) @ oem_blocks todo @ tail"
    using assms by (auto simp: spot_def oem_blocks_def)
  have 1: "drop (k + 2) img = d @ be16_bytes (of_nat (length r)) @ r @ oem_blocks todo @ tail"
    using arg_cong[OF k, of "drop 2"] by (simp add: oem_block_def add.commute)
  have 2: "drop (k + 2 + length d) img = be16_bytes (of_nat (length r)) @ r @ oem_blocks todo @ tail"
    using arg_cong[OF 1, of "drop (length d)"] by (simp add: ac_simps)
  have 3: "drop (k + 2 + length d + 2) img = r @ oem_blocks todo @ tail"
    using arg_cong[OF 2, of "drop 2"] by (simp add: ac_simps)
  have 4: "drop (k + 2 + length d + 2 + length r) img = oem_blocks todo @ tail"
    using arg_cong[OF 3, of "drop (length r)"] by (simp add: ac_simps)
  show "take 2 (drop k img) = be16_bytes (of_nat (length d))" using k by (simp add: oem_block_def)
  show "take (length d) (drop (k + 2) img) = d" using 1 by simp
  show "take 2 (drop (k + 2 + length d) img) = be16_bytes (of_nat (length r))" using 2 by simp
  show "take (length r) (drop (k + 2 + length d + 2) img) = r" using 3 by simp
  show s: "spot img todo (k + 2 + length d + 2 + length r)" using assms 4 by (auto simp: spot_def)
  show "d \<noteq> []" "length d < 2 ^ 16" "length r < 2 ^ 16" using assms by (auto simp: spot_def)
  show "k + 2 + length d + 2 + length r + 2 \<le> length img" by (rule spot_in[OF s])
qed

text \<open>The line after the first blocks were sent, each as often as the list says.\<close>

definition oem_sent :: "(bytes \<times> bytes) list \<Rightarrow> nat list \<Rightarrow> bytes" where
  "oem_sent bs ns = concat (map2 (\<lambda>b n. concat (replicate n (fst b))) bs ns)"

text \<open>
  The answers to the blocks, in order, among the received bytes, and such that the code
  accepts them: not empty, and without bytes above 127.
\<close>

definition oem_answered :: "(bytes \<times> bytes) list \<Rightarrow> bytes \<Rightarrow> bool" where
  "oem_answered bs i \<longleftrightarrow>
     (\<exists>js j. length js = length bs \<and> i = concat (map2 (\<lambda>b j. j @ snd b) bs js) @ j) \<and>
     (\<forall>(d, r) \<in> set bs. r \<noteq> [] \<and> (\<forall>b \<in> set r. b < 0x80))"

lemma answered_more: "oem_answered bs i \<Longrightarrow> oem_answered bs (i @ j)"
  by (auto simp: oem_answered_def)

lemma answered_Nil: "oem_answered [] i"
  by (simp add: oem_answered_def)

lemma answered_snoc:
  assumes "oem_answered bs i" "r \<noteq> []" "\<forall>b \<in> set r. b < 0x80"
  shows "oem_answered (bs @ [(d, r)]) (i @ r)"
proof -
  obtain js j where "length js = length bs" "i = concat (map2 (\<lambda>b j. j @ snd b) bs js) @ j"
    using assms(1) by (auto simp: oem_answered_def)
  then have "length (js @ [j]) = length (bs @ [(d, r)]) \<and>
      i @ r = concat (map2 (\<lambda>b j. j @ snd b) (bs @ [(d, r)]) (js @ [j])) @ []" by simp
  moreover have "\<forall>(d, r) \<in> set (bs @ [(d, r)]). r \<noteq> [] \<and> (\<forall>b \<in> set r. b < 0x80)"
    using assms by (auto simp: oem_answered_def)
  ultimately show ?thesis unfolding oem_answered_def by (intro conjI exI[of _ "js @ [j]"] exI[of _ "[]"]) blast+
qed

lemma sent_snoc: "length ns = length bs \<Longrightarrow> oem_sent (bs @ [b]) (ns @ [n]) = oem_sent bs ns @ concat (replicate n (fst b))"
  by (simp add: oem_sent_def)

definition fw_whole :: "xbee_fw_buffer_t \<Rightarrow> bytes" where
  "fw_whole fw = take (unat (fw_length fw)) (fw_address fw)"

lemma fw_buffer_read_whole: "xbee_fw_buffer_read fw n = (e, bs, fw') \<Longrightarrow> fw_whole fw' = fw_whole fw"
  by (auto simp: xbee_fw_buffer_read_def fw_whole_def Let_def split: if_splits)

lemma fw_buffer_seek_ok:
  assumes "fw_ok fw" "unat offs \<le> length (fw_whole fw)" "xbee_fw_buffer_seek fw offs = (e, fw')"
  shows "e = 0 \<and> fw_ok fw' \<and> fw_whole fw' = fw_whole fw \<and> fw_rest fw' = drop (unat offs) (fw_whole fw)"
proof -
  have "offs \<le> fw_length fw" using assms(1,2) by (simp add: fw_ok_def fw_whole_def word_le_nat_alt)
  with assms show ?thesis
    by (auto simp: xbee_fw_buffer_seek_def fw_ok_def fw_whole_def fw_rest_def word_le_nat_alt word_less_nat_alt split: if_splits)
qed

interpretation oemsrc: image_source xbee_fw_buffer_read fw_rest fw_ok xbee_fw_buffer_seek fw_whole
  by unfold_locales (rule fw_buffer_seek_ok fw_buffer_read_whole; assumption)+

lemma image_src:
  assumes "fw_read s = xbee_fw_buffer_read" "fw_seek s = xbee_fw_buffer_seek" "fw_ok (fw_context s)"
  shows "oemsrc.src (fw_whole (fw_context s)) (unat (fw_offset (fw_context s))) s"
  using assms by (simp add: oemsrc.src_def oemsrc.at_def fw_rest_def fw_whole_def)

text \<open>
  C31: the check of an image. For an image in memory that holds at least the bytes its header
  promises, \<open>_xbee_oem_verify\<close> reports an error exactly when the image is too short for a header,
  has another magic number, a length that is odd, below 32 or above 128 KiB, or when its 16-bit
  words, most significant byte first, do not add up to zero; the first of these decides which. (An
  image shorter than its header says is outside this: see \<open>oem_verify_truncated\<close>.)
\<close>

theorem oem_verify_correct:
  assumes "fw_read s = xbee_fw_buffer_read" "fw_seek s = xbee_fw_buffer_seek" "fw_ok (fw_context s)"
    and "img = fw_whole (fw_context s)" "oem_complete img" "length junk = 256"
  shows "fst (xbee_oem_verify junk s) =
     (if length img < 12 then - EIO
      else
        let h = oem_header img; len = unat (image_len h) in
        if magic h \<noteq> XBEE_OEM_MAGIC_NUMBER then - EILSEQ
        else if len < 32 \<or> 131072 < len \<or> odd len then - EILSEQ
        else if sum_words (take len img) \<noteq> 0 then - EBADMSG else 0)"
  using oemsrc.verify_at[OF image_src[OF assms(1-3), folded assms(4)] assms(5,6)] unfolding oem_check_def by fastforce

text \<open>An image with a header, a version, one block and its answer, the end marker, and padding.\<close>

definition demo_oem_bytes :: bytes where
  "demo_oem_bytes = [0x93, 0xFD, 0x8E, 0x65, 0, 0, 0, 0x20, 0, 0x10, 0x18, 0x01, 0x38, 0x30, 0x34, 0x32,
     0, 4, 1, 2, 3, 4, 0, 1, 0x55, 0, 0, 0, 0, 0, 0, 0]"

definition demo_oem :: "(unit, xbee_fw_buffer_t) xbee_fw_source_t" where
  "demo_oem = demo_source\<lparr>fw_context := \<lparr>fw_length = 32, fw_address = demo_oem_bytes, fw_offset = 0\<rparr>\<rparr>"

lemma demo_oem_ok:
  "fw_read demo_oem = xbee_fw_buffer_read" "fw_seek demo_oem = xbee_fw_buffer_seek" "fw_ok (fw_context demo_oem)"
  "fw_whole (fw_context demo_oem) = demo_oem_bytes" "fw_state demo_oem = XBEE_FW_STATE_INIT"
  "ser_ready (fw_port demo_oem)" "os_rx (fw_port demo_oem) = []" "133 \<le> length (fw_buffer demo_oem)"
  "fw_xbee demo_oem = fw_xbee demo_source"
  using demo_source_ok by (simp_all add: demo_oem_def fw_ok_def fw_whole_def demo_oem_bytes_def demo_source_def)

lemma demo_oem_image: "oem_complete demo_oem_bytes" "oem_check demo_oem_bytes = 0"
  by (simp_all add: oem_complete_def oem_check_def oem_header_def demo_oem_bytes_def be16_of_def be32_of_def)

lemma demo_oem_layout: "oem_layout demo_oem_bytes [([1, 2, 3, 4], [0x55])]"
  by (simp add: oem_layout_def spot_def oem_blocks_def oem_block_def be16_bytes_def oem_header_def demo_oem_bytes_def be16_of_def)

theorem oem_verify_correct_witness: "fst (xbee_oem_verify (replicate 256 7) demo_oem) = 0"
  using oem_verify_correct[OF demo_oem_ok(1-3) refl, unfolded demo_oem_ok(4), OF demo_oem_image(1), of "replicate 256 7"]
    demo_oem_image(2) by (simp add: oem_check_def)

text \<open>
  A truncated image is not reported: the result of \<open>read\<close> is ignored and what the local buffer held
  before is added to the sum. Here only the header is there and the buffer holds the rest by chance.
\<close>

lemma oem_verify_truncated:
  "fst (xbee_oem_verify (drop 12 demo_oem_bytes @ replicate 236 0)
     (demo_oem\<lparr>fw_context := \<lparr>fw_length = 12, fw_address = take 12 demo_oem_bytes, fw_offset = 0\<rparr>\<rparr>)) = 0"
  by (simp add: xbee_oem_verify_def oem_verify_loop.simps demo_oem_def demo_source_def demo_oem_bytes_def
      xbee_fw_buffer_seek_def xbee_fw_buffer_read_def oem_header_def be16_of_def be32_of_def buf_write_def Let_def)

end
