(* ===== verification/Xbee_Firmware_Oem_Run.thy ===== *)
theory Xbee_Firmware_Oem_Run
  imports Xbee_Firmware_Oem
begin

text \<open>
  The installation of an \<open>.OEM\<close> image as a whole. An installation is any sequence of ticks
  and of bytes arriving from the module. Its invariant says which blocks of the image are on
  the line and which answers have arrived; it is proved for every source that satisfies the
  contract \<open>image_source\<close> and used for images in memory.
\<close>

section \<open>What the calls do to the port\<close>

definition port_step :: "xbee_serial_t \<Rightarrow> xbee_serial_t \<Rightarrow> bool" where
  "port_step p q \<longleftrightarrow> (ser_ready p \<longrightarrow> ser_ready q \<and> (\<exists>g. os_rx p = g @ os_rx q))"

lemma port_step_refl: "port_step p p"
  by (simp add: port_step_def)

lemma port_step_trans [trans]: "port_step p q \<Longrightarrow> port_step q r \<Longrightarrow> port_step p r"
  unfolding port_step_def by (metis append.assoc)

lemma port_step_keeps: "port_keeps p q \<Longrightarrow> (ser_ready p \<Longrightarrow> os_rx q = os_rx p) \<Longrightarrow> port_step p q"
  by (simp add: port_step_def port_keeps_def)

lemma port_step_calls:
  "0 \<le> fd \<Longrightarrow> port_step p (snd (xbee_ser_open p rate fd))" "port_step p (snd (xbee_ser_flowcontrol p b))"
  "port_step p (snd (xbee_ser_set_rts p b))" "port_step p (snd (xbee_ser_break p b))"
  "port_step p (snd (xbee_ser_putchar p c))"
  by (simp_all add: port_step_keeps port_keeps_open rx_open port_keeps_calls rx_calls rx_set_rts)

lemma port_step_write: "port_step p (snd (xbee_ser_write p bs n))"
  by (auto simp: port_step_def xbee_ser_write_def os_write_def syscall_def Let_def ser_ready_def split: option.splits)

lemma port_step_read: "xbee_ser_read p n = (e, bs, q) \<Longrightarrow> port_step p q"
  by (auto simp: port_step_def xbee_ser_read_def os_read_def syscall_def ser_ready_def
      split: option.splits if_splits intro: exI[of _ "take (nat n) (os_rx p)"])

lemma port_step_getchar: "xbee_ser_getchar p = (c, q) \<Longrightarrow> port_step p q"
  by (auto simp: xbee_ser_getchar_def split: prod.splits if_splits dest: port_step_read)

lemma port_step_rx_flush: "port_step p (snd (xbee_ser_rx_flush p))"
  by (auto simp: port_step_def xbee_ser_rx_flush_def syscall_def ser_ready_def split: option.splits)

lemma port_step_rx_used: "xbee_ser_rx_used p = (n, q) \<Longrightarrow> port_step p q"
  by (auto simp: port_step_def xbee_ser_rx_used_def syscall_def ser_ready_def split: option.splits if_splits)

lemma port_step_response:
  "read_response_loop late p b sz n = Some (e, b', n', q) \<Longrightarrow> port_step p q \<and> length b' = length b"
proof (induction late p b sz n rule: read_response_loop.induct)
  case (1 late p b sz n)
  obtain c p' where g: "xbee_ser_getchar p = (c, p')" by fastforce
  have p': "port_step p p'" by (rule port_step_getchar[OF g])
  show ?case
  proof (cases "n + 1 \<ge> sz \<or> c < 0 \<or> c = 0x0D")
    case True
    with 1(2) g p' show ?thesis
      by (subst (asm) read_response_loop.simps) (auto simp: port_step_refl split: if_splits)
  next
    case False
    then obtain b1 where "put_at b n (of_int c) = Some b1" "read_response_loop late p' b1 sz (n + 1) = Some (e, b', n', q)"
      using 1(2) g by (subst (asm) read_response_loop.simps) (auto split: option.splits)
    with 1(1)[OF _ g[symmetric] refl] False p' port_step_trans show ?thesis
      by (fastforce simp: put_at_def split: if_splits)
  qed
qed

abbreviation dev_step :: "'a xbee_dev_t \<Rightarrow> 'a xbee_dev_t \<Rightarrow> bool" where
  "dev_step x y \<equiv> port_step (serport x) (serport y)"

lemma dev_step_response:
  assumes "xbee_atmode_read_response now x b sz k = Some (e, b', k', y)"
  shows "dev_step x y \<and> length b' = length b"
  using assms
  by (auto simp: xbee_atmode_read_response_def Let_def put_at_def port_step_refl
      split: if_splits option.splits dest!: port_step_response)

lemma dev_step_tick: "dev_step x (xbee_atmode_tick now x)"
proof (cases "mode x")
  case XBEE_MODE_PRE_ESCAPE
  have "port_step (serport x) (snd (xbee_ser_rx_flush (snd (xbee_ser_write (serport x) (replicate 3 (escape_char x)) 3))))"
    by (rule port_step_trans[OF port_step_write port_step_rx_flush])
  then show ?thesis by (simp add: xbee_atmode_tick_def XBEE_MODE_PRE_ESCAPE port_step_refl Let_def)
next
  case XBEE_MODE_POST_ESCAPE
  obtain n q where u: "xbee_ser_rx_used (serport x) = (n, q)" by fastforce
  obtain e bs q' where rd: "xbee_ser_read q 3 = (e, bs, q')" by (metis prod_cases3)
  have "port_step (serport x) q" "port_step (serport x) q'"
    using port_step_rx_used[OF u] port_step_trans[OF _ port_step_read[OF rd]] by auto
  then show ?thesis by (simp add: xbee_atmode_tick_def XBEE_MODE_POST_ESCAPE atmode_post_escape_def u rd Let_def)
qed (simp_all add: xbee_atmode_tick_def port_step_refl)

lemma dev_step_enter: "dev_step x (snd (xbee_atmode_enter now x))"
  using dev_step_tick[of x now] by (simp add: xbee_atmode_enter_def Let_def)

lemma dev_step_send_request: "dev_step x (snd (xbee_atmode_send_request now x c))"
proof -
  let ?p = "snd (xbee_ser_write (snd (xbee_ser_write (snd (xbee_ser_write (serport x) (str_bytes ''AT'') 2))
      c (int (length c)))) [0x0D] 1)"
  have "port_step (serport x) ?p"
    by (rule port_step_trans[OF port_step_write port_step_trans[OF port_step_write port_step_write]])
  then show ?thesis by (simp add: xbee_atmode_send_request_def Let_def port_step_refl)
qed

text \<open>Calls that send nothing.\<close>

lemma tx_open: "ser_ready p \<Longrightarrow> os_tx (snd (xbee_ser_open p rate fd)) = os_tx p"
  by (simp add: open_succeeds ser_ready_def xbee_ser_baudrate_def syscall_def Let_def split: option.splits)

lemma tx_flowcontrol: "os_tx (snd (xbee_ser_flowcontrol p b)) = os_tx p"
  by (auto simp: xbee_ser_flowcontrol_def syscall_def Let_def split: option.splits)

lemma tx_putchar: "ser_ready p \<Longrightarrow> os_tx (snd (xbee_ser_putchar p c)) = os_tx p @ [c]"
  using wr_ready_snd[of p "[c]" 1] by (auto simp: xbee_ser_putchar_def split: prod.splits)

lemma unat_add_len:
  assumes "n < 2 ^ 16" "unat (a :: u32) + 2 + n < 2 ^ 32"
  shows "unat (a + 2 + ucast (of_nat n :: u16)) = unat a + 2 + n"
  using assms by (simp add: unat_word_ariths unsigned_ucast_eq unat_of_nat take_bit_eq_mod)

text \<open>A \<open>char\<close> and a \<open>uint8_t\<close> are equal only below 128.\<close>

lemma sint_eq_uint: "sint (c :: u8) = uint (b :: u8) \<longleftrightarrow> c = b \<and> c < 0x80"
proof
  assume eq: "sint c = uint b"
  have "c = of_int (sint c)" by simp
  also have "\<dots> = b" unfolding eq by simp
  finally have c: "c = b" .
  moreover have "uint c < 128" using sint_lt[of c] eq c by simp
  then have "c < 0x80" by (simp add: word_less_def)
  ultimately show "c = b \<and> c < 0x80" by simp
next
  assume c: "c = b \<and> c < 0x80"
  then have "uint c < 128" by (auto simp: word_less_def)
  moreover have "- (2 ^ 7) \<le> uint c" by (rule order_trans[of _ 0]) simp_all
  ultimately have "signed_take_bit 7 (uint c) = uint c" by (intro signed_take_bit_int_eq_self) simp_all
  with c show "sint c = uint b" by (simp add: sint_uint)
qed

lemma read_port:
  assumes "ser_ready p" "xbee_ser_read p n = (e, bs, q)"
  shows "port_step p q" "os_tx q = os_tx p" "os_rx p = bs @ os_rx q" "length bs \<le> nat n"
    "e > 0 \<Longrightarrow> e = int (length bs)" "e \<le> 0 \<Longrightarrow> bs = []"
  using port_step_read[OF assms(2)] assms
  by (auto simp: xbee_ser_read_def os_read_def syscall_def ser_ready_def xbee_ser_invalid_def min_def split: if_splits)

section \<open>The invariant\<close>

text \<open>The first blocks and the bytes \<open>ext\<close> are on the line, after the boot loader was called.\<close>

definition oem_line :: "(bytes \<times> bytes) list \<Rightarrow> bytes \<Rightarrow> bytes \<Rightarrow> bool" where
  "oem_line ds tx ext \<longleftrightarrow> (\<exists>pre ns. tx = pre @ [0x2B] @ oem_sent ds ns @ ext \<and>
     length ns = length ds \<and> set ns \<subseteq> {1..4})"

lemma line_snoc:
  assumes "oem_line ds tx (concat (replicate n d))" "n \<in> {1..4}"
  shows "oem_line (ds @ [(d, r)]) tx []"
proof -
  obtain pre ns where "tx = pre @ [0x2B] @ oem_sent ds ns @ concat (replicate n d)" "length ns = length ds"
    "set ns \<subseteq> {1..4}" using assms(1) by (auto simp: oem_line_def)
  with assms(2) show ?thesis
    unfolding oem_line_def by (intro exI[of _ pre] exI[of _ "ns @ [n]"]) (simp add: sent_snoc)
qed

lemma line_more: "oem_line ds tx ext \<Longrightarrow> oem_line ds (tx @ bs) (ext @ bs)"
  unfolding oem_line_def by (metis append.assoc)

text \<open>The bytes consumed so far, of all that have arrived, end with the answers to \<open>ds\<close> and \<open>part\<close>.\<close>

definition oem_got :: "(bytes \<times> bytes) list \<Rightarrow> bytes \<Rightarrow> bytes \<Rightarrow> xbee_serial_t \<Rightarrow> bool" where
  "oem_got ds part i p \<longleftrightarrow> (\<exists>g. i = g @ part @ os_rx p \<and> oem_answered ds g) \<and> (\<forall>b \<in> set part. b < 0x80)"

abbreviation cmd_states :: "xbee_fw_state set" where
  "cmd_states \<equiv> {XBEE_FW_STATE_CMD_HV, XBEE_FW_STATE_CMD_COMPAT, XBEE_FW_STATE_CMD_VR, XBEE_FW_STATE_CMD_CF1,
     XBEE_FW_STATE_CMD_SL, XBEE_FW_STATE_CMD_PROG, XBEE_FW_STATE_CMD_FR}"

text \<open>The block \<open>(d, r)\<close> is next, after the blocks \<open>ds\<close>, and was sent \<open>t\<close> times.\<close>

definition in_block :: "bytes \<Rightarrow> (bytes \<times> bytes) list \<Rightarrow> ('a, 'f) xbee_fw_source_t \<Rightarrow> (bytes \<times> bytes) list \<Rightarrow>
    bytes \<Rightarrow> bytes \<Rightarrow> (bytes \<times> bytes) list \<Rightarrow> nat \<Rightarrow> bool" where
  "in_block img blocks s ds d r todo t \<longleftrightarrow> blocks = ds @ (d, r) # todo \<and>
     spot img ((d, r) # todo) (unat (block_offset (oem s))) \<and> fw_tries s = int t \<and> t \<le> 3"

context image_source
begin

text \<open>
  A block is about to be sent; \<open>m\<close> bytes of it are sent; \<open>n\<close> bytes of its answer are received;
  the answer is wrong or late.
\<close>

definition starts :: "bytes \<Rightarrow> (bytes \<times> bytes) list \<Rightarrow> bytes \<Rightarrow> ('a, 'f) xbee_fw_source_t \<Rightarrow> (bytes \<times> bytes) list \<Rightarrow>
    bytes \<Rightarrow> bytes \<Rightarrow> (bytes \<times> bytes) list \<Rightarrow> nat \<Rightarrow> bool" where
  "starts img blocks i s ds d r todo t \<longleftrightarrow> in_block img blocks s ds d r todo t \<and>
     oem_line ds (os_tx (fw_port s)) (concat (replicate t d)) \<and> oem_got ds [] i (fw_port s)"

definition sends :: "bytes \<Rightarrow> (bytes \<times> bytes) list \<Rightarrow> bytes \<Rightarrow> ('a, 'f) xbee_fw_source_t \<Rightarrow> (bytes \<times> bytes) list \<Rightarrow>
    bytes \<Rightarrow> bytes \<Rightarrow> (bytes \<times> bytes) list \<Rightarrow> nat \<Rightarrow> nat \<Rightarrow> bool" where
  "sends img blocks i s ds d r todo t m \<longleftrightarrow> in_block img blocks s ds d r todo t \<and> m < length d \<and>
     src img (unat (block_offset (oem s)) + 2 + m) s \<and> block_length (oem s) = of_nat (length d - m) \<and>
     unat (cur_offset (oem s)) = unat (block_offset (oem s)) + 2 + length d \<and>
     oem_line ds (os_tx (fw_port s)) (concat (replicate t d) @ take m d) \<and> oem_got ds [] i (fw_port s)"

definition waits :: "bytes \<Rightarrow> (bytes \<times> bytes) list \<Rightarrow> bytes \<Rightarrow> ('a, 'f) xbee_fw_source_t \<Rightarrow> (bytes \<times> bytes) list \<Rightarrow>
    bytes \<Rightarrow> bytes \<Rightarrow> (bytes \<times> bytes) list \<Rightarrow> nat \<Rightarrow> nat \<Rightarrow> bool" where
  "waits img blocks i s ds d r todo t n \<longleftrightarrow> in_block img blocks s ds d r todo t \<and> n \<le> length r \<and>
     src img (unat (block_offset (oem s)) + 2 + length d + 2 + n) s \<and> block_length (oem s) = of_nat (length r - n) \<and>
     unat (cur_offset (oem s)) = unat (block_offset (oem s)) + 2 + length d + 2 + length r \<and>
     oem_line ds (os_tx (fw_port s)) (concat (replicate (Suc t) d)) \<and> oem_got ds (take n r) i (fw_port s)"

definition block_failed :: "bytes \<Rightarrow> (bytes \<times> bytes) list \<Rightarrow> bytes \<Rightarrow> ('a, 'f) xbee_fw_source_t \<Rightarrow> bool" where
  "block_failed img blocks i s \<longleftrightarrow>
     (\<exists>ds d r todo t. in_block img blocks s ds d r todo t \<and>
        oem_line ds (os_tx (fw_port s)) (concat (replicate (Suc t) d)) \<and> oem_got ds [] i (fw_port s))"

definition all_sent :: "(bytes \<times> bytes) list \<Rightarrow> bytes \<Rightarrow> ('a, 'f) xbee_fw_source_t \<Rightarrow> bool" where
  "all_sent blocks i s \<longleftrightarrow> oem_line blocks (os_tx (fw_port s)) [] \<and> oem_got blocks [] i (fw_port s)"

definition block_ready :: "bytes \<Rightarrow> (bytes \<times> bytes) list \<Rightarrow> bytes \<Rightarrow> ('a, 'f) xbee_fw_source_t \<Rightarrow> bool" where
  "block_ready img blocks i s \<longleftrightarrow> (\<exists>ds d r todo t. starts img blocks i s ds d r todo t) \<or>
     spot img [] (unat (block_offset (oem s))) \<and> all_sent blocks i s"

definition block_sending :: "bytes \<Rightarrow> (bytes \<times> bytes) list \<Rightarrow> bytes \<Rightarrow> ('a, 'f) xbee_fw_source_t \<Rightarrow> bool" where
  "block_sending img blocks i s \<longleftrightarrow> (\<exists>ds d r todo t m. sends img blocks i s ds d r todo t m)"

definition block_waiting :: "bytes \<Rightarrow> (bytes \<times> bytes) list \<Rightarrow> bytes \<Rightarrow> ('a, 'f) xbee_fw_source_t \<Rightarrow> bool" where
  "block_waiting img blocks i s \<longleftrightarrow>
     (\<exists>ds d r todo t n. waits img blocks i s ds d r todo t n \<and> (n = length r \<longrightarrow> r = []))"

lemma block_sendingI: "sends img blocks i s ds d r todo t m \<Longrightarrow> block_sending img blocks i s"
  unfolding block_sending_def by blast

lemma block_waitingI:
  "waits img blocks i s ds d r todo t n \<Longrightarrow> n < length r \<or> n = 0 \<Longrightarrow> block_waiting img blocks i s"
  unfolding block_waiting_def by (metis length_0_conv less_irrefl)

definition oem_base :: "bytes \<Rightarrow> bytes \<Rightarrow> ('a, 'f) xbee_fw_source_t \<Rightarrow> bool" where
  "oem_base img i s \<longleftrightarrow> ser_ready (fw_port s) \<and> 133 \<le> length (fw_buffer s) \<and> (\<exists>k. src img k s) \<and>
     oem_got [] [] i (fw_port s) \<and> (fw_state s \<notin> {XBEE_FW_STATE_INIT, XBEE_FW_STATE_FAILURE} \<longrightarrow> oem_check img = 0)"

definition oem_inv :: "bytes \<Rightarrow> (bytes \<times> bytes) list \<Rightarrow> bytes \<Rightarrow> ('a, 'f) xbee_fw_source_t \<Rightarrow> bool" where
  "oem_inv img blocks i s \<longleftrightarrow> oem_base img i s \<and>
     (case fw_state s of
        XBEE_FW_STATE_PARSE_RESPONSE \<Rightarrow> fw_next_state s \<in> cmd_states
      | XBEE_FW_STATE_TX_START \<Rightarrow> oem_line [] (os_tx (fw_port s)) []
      | XBEE_FW_STATE_TX_BLOCK \<Rightarrow> block_ready img blocks i s
      | XBEE_FW_STATE_SENDING \<Rightarrow> block_sending img blocks i s
      | XBEE_FW_STATE_RX_BLOCK \<Rightarrow> block_waiting img blocks i s
      | XBEE_FW_STATE_RX_FAIL \<Rightarrow> block_failed img blocks i s
      | XBEE_FW_STATE_FINAL_PROMPT \<Rightarrow> all_sent blocks i s
      | XBEE_FW_STATE_DONE \<Rightarrow> all_sent blocks i s
      | XBEE_FW_STATE_SUCCESS \<Rightarrow> all_sent blocks i s
      | _ \<Rightarrow> True)"

lemma oem_base_step:
  assumes "oem_base img i s" "port_step (fw_port s) (fw_port s')" "length (fw_buffer s') = length (fw_buffer s)"
    and "src img k s'" "oem_check img = 0 \<or> fw_state s' = XBEE_FW_STATE_FAILURE"
  shows "oem_base img i s'"
proof -
  obtain g where "ser_ready (fw_port s')" "os_rx (fw_port s) = g @ os_rx (fw_port s')"
    using assms(1,2) by (auto simp: oem_base_def port_step_def)
  moreover from this(2) have "oem_got [] [] i (fw_port s')"
    using assms(1) by (auto simp: oem_base_def oem_got_def answered_Nil)
  ultimately show ?thesis using assms by (auto simp: oem_base_def)
qed

lemma src_regs [simp]:
  "src img k (s\<lparr>fw_tries := t\<rparr>) = src img k s" "src img k (s\<lparr>fw_timer := u\<rparr>) = src img k s"
  "src img k (s\<lparr>oem := m\<rparr>) = src img k s" "src img k (s\<lparr>fw_state := st\<rparr>) = src img k s"
  "src img k (s\<lparr>fw_buffer := b\<rparr>) = src img k s" "src img k (s\<lparr>fw_xbee := x\<rparr>) = src img k s"
  by (simp_all add: src_def)

lemma base_regs [simp]:
  "oem_base img i (s\<lparr>fw_tries := t\<rparr>) = oem_base img i s" "oem_base img i (s\<lparr>fw_timer := u\<rparr>) = oem_base img i s"
  "oem_base img i (s\<lparr>oem := m\<rparr>) = oem_base img i s"
  by (simp_all add: oem_base_def)

lemma base_state: "oem_base img i s \<Longrightarrow> oem_check img = 0 \<Longrightarrow> oem_base img i (s\<lparr>fw_state := st\<rparr>)"
  by (simp add: oem_base_def)

lemma base_checked: "oem_base img i s \<Longrightarrow> fw_state s \<notin> {XBEE_FW_STATE_INIT, XBEE_FW_STATE_FAILURE} \<Longrightarrow> oem_check img = 0"
  by (simp add: oem_base_def)

lemma base_src: "oem_base img i s \<Longrightarrow> \<exists>k. src img k s"
  by (simp add: oem_base_def)

abbreviation plain :: "xbee_fw_state \<Rightarrow> bool" where
  "plain st \<equiv> st \<in> cmd_states \<union> {XBEE_FW_STATE_INIT, XBEE_FW_STATE_RESET, XBEE_FW_STATE_CMD_PENDING,
     XBEE_FW_STATE_BREAK, XBEE_FW_STATE_BOOTLOADER, XBEE_FW_STATE_FAILURE}"

lemma oem_inv_base: "oem_inv img blocks i s \<Longrightarrow> oem_base img i s"
  by (simp add: oem_inv_def)

lemma oem_inv_plain: "plain (fw_state s) \<Longrightarrow> oem_base img i s \<Longrightarrow> oem_inv img blocks i s"
  by (auto simp: oem_inv_def)

text \<open>Steps that change the device and the source in between, and end in a plain state.\<close>

lemma plain_step:
  assumes "oem_base img i s" "port_step (fw_port s) (fw_port s')" "length (fw_buffer s') = length (fw_buffer s)"
    and "src img k s'" "oem_check img = 0 \<or> fw_state s' = XBEE_FW_STATE_FAILURE" "plain (fw_state s')"
  shows "oem_inv img blocks i s'"
  by (rule oem_inv_plain[OF assms(6) oem_base_step[OF assms(1-5)]])

lemma request_inv:
  assumes "oem_base img i s" "oem_check img = 0" "nxt \<in> cmd_states"
  shows "oem_inv img blocks i (xbee_fw_send_request now s c nxt)"
proof -
  let ?s = "xbee_fw_send_request now s c nxt"
  obtain k where k: "src img k s" using base_src[OF assms(1)] ..
  have "oem_base img i ?s"
    by (rule oem_base_step[OF assms(1), of _ k])
      (use k assms(2) dev_step_send_request[of "fw_xbee s"] in \<open>simp_all add: xbee_fw_send_request_def src_def\<close>)
  then show ?thesis using assms(3) by (simp add: oem_inv_def xbee_fw_send_request_def)
qed

lemma base_context:
  "oem_base img i s \<Longrightarrow> at img k f \<Longrightarrow> oem_base img i (s\<lparr>fw_context := f\<rparr>)"
  by (auto simp: oem_base_def src_def)

lemma read_byte_any:
  assumes "src img k s" "xbee_fw_read_byte s = (b, s')"
  shows "\<exists>f. s' = s\<lparr>fw_context := f\<rparr> \<and> at img (k + 1) f"
  using source_read_at[OF assms(1), of 1] assms(2) by (fastforce simp: xbee_fw_read_byte_def)

lemma seek_byte:
  assumes "src img k s" "unat offs \<le> length img" "xbee_fw_read_byte (source_seek s offs) = (b, s')"
  shows "\<exists>f k. s' = s\<lparr>fw_context := f\<rparr> \<and> at img k f"
proof -
  obtain f where f: "source_seek s offs = s\<lparr>fw_context := f\<rparr>" "at img (unat offs) f"
    by (rule source_seek_at[OF assms(1,2)])
  have "src img (unat offs) (s\<lparr>fw_context := f\<rparr>)" using f(2) assms(1) by (simp add: src_def)
  from read_byte_any[OF this] assms(3) f(1) show ?thesis by fastforce
qed

lemma version_loop_any:
  assumes "src img k s" "version_loop cs 1 s = (flags, s')"
  shows "flags = 1 \<and> (\<exists>f k. s' = s\<lparr>fw_context := f\<rparr> \<and> at img k f)"
  using assms
proof (induction cs arbitrary: s k)
  case Nil
  then show ?case by (auto simp: src_def intro!: exI[of _ "fw_context s"])
next
  case (Cons c cs)
  obtain b s1 where rd: "xbee_fw_read_byte s = (b, s1)" by fastforce
  obtain f where f: "s1 = s\<lparr>fw_context := f\<rparr>" "at img (k + 1) f"
    using read_byte_any[OF Cons.prems(1) rd] by blast
  then have "src img (k + 1) s1" using Cons.prems(1) by (simp add: src_def)
  from Cons.IH[OF this] Cons.prems(2) rd f show ?case by (auto split: if_splits)
qed

lemma init_inv:
  assumes "oem_base img i s" "oem_init junk s = (e, s')" "oem_complete img" "length junk = 256"
  shows "oem_inv img blocks i s'"
proof -
  obtain k where "src img k s" using base_src[OF assms(1)] ..
  from verify_at[OF this assms(3,4)] obtain f k' where v: "xbee_oem_verify junk s = (oem_check img, s\<lparr>fw_context := f\<rparr>)"
    "src img k' (s\<lparr>fw_context := f\<rparr>)" by metis
  show ?thesis
    by (rule plain_step[OF assms(1), of _ k'])
      (use assms(2) v in \<open>auto simp: oem_init_def oem_to_def src_def port_step_refl split: if_splits\<close>)
qed

lemma reset_inv_oem:
  assumes "oem_base img i s" "oem_check img = 0" "oem_reset now fd s = (e, s')" "0 \<le> fd"
  shows "oem_inv img blocks i s'"
proof -
  obtain k where k: "src img k s" using base_src[OF assms(1)] ..
  let ?p = "snd (xbee_ser_flowcontrol (snd (xbee_ser_open (fw_port s) (if fw_tries s \<noteq> 0 then 9600 else 115200) fd)) True)"
  have "port_step (fw_port s) ?p" using assms(4) by (intro port_step_trans[OF port_step_calls(1) port_step_calls(2)])
  also have "port_step ?p (serport (snd (xbee_atmode_enter now ((fw_xbee s)\<lparr>serport := ?p\<rparr>))))"
    using dev_step_enter[of "(fw_xbee s)\<lparr>serport := ?p\<rparr>" now] by simp
  finally have "port_step (fw_port s) (serport (snd (xbee_atmode_enter now ((fw_xbee s)\<lparr>serport := ?p\<rparr>))))" .
  with k assms(2,3) show ?thesis
    by (intro plain_step[OF assms(1), of _ k]) (auto simp: oem_reset_def set_port_def src_def Let_def)
qed

lemma cmd_pending_inv:
  assumes "oem_inv img blocks i s" "oem_check img = 0" "oem_cmd_pending now s = (e, s')"
    and "fw_state s = XBEE_FW_STATE_CMD_PENDING"
  shows "oem_inv img blocks i s'"
proof -
  obtain k where k: "src img k s" using base_src[OF oem_inv_base[OF assms(1)]] ..
  let ?s = "s\<lparr>fw_xbee := xbee_atmode_tick now (fw_xbee s)\<rparr>"
  have b: "oem_base img i ?s"
    by (rule oem_base_step[OF oem_inv_base[OF assms(1)], of _ k])
      (use k assms(2) dev_step_tick[of "fw_xbee s"] in \<open>simp_all add: src_def\<close>)
  consider "s' = xbee_fw_send_request now ?s (str_bytes ''HV'') XBEE_FW_STATE_CMD_HV"
    | "s' = ?s\<lparr>fw_tries := fw_tries s + 1, fw_state := XBEE_FW_STATE_RESET\<rparr>"
    | "s' = ?s\<lparr>fw_state := XBEE_FW_STATE_FAILURE\<rparr>" | "s' = ?s"
    using assms(3) by (auto simp: oem_cmd_pending_def oem_to_def Let_def split: xbee_dev_mode.splits if_splits)
  then show ?thesis
  proof cases
    case 1
    then show ?thesis using request_inv[OF b assms(2)] by simp
  qed (use b assms(2,4) base_state[OF b assms(2)] base_state[of img i "?s\<lparr>fw_tries := fw_tries s + 1\<rparr>"]
      in \<open>simp_all add: oem_inv_plain\<close>)
qed

lemma parse_response_inv:
  assumes "oem_inv img blocks i s" "fw_state s = XBEE_FW_STATE_PARSE_RESPONSE" "oem_parse_response now s = Some (e, s')"
  shows "oem_inv img blocks i s'"
proof -
  obtain k where k: "src img k s" using base_src[OF oem_inv_base[OF assms(1)]] ..
  have c: "oem_check img = 0" "fw_next_state s \<in> cmd_states"
    using assms(1,2) by (auto simp: oem_inv_def oem_base_def)
  obtain r b n x where rd: "xbee_atmode_read_response now (fw_xbee s) (fw_buffer s) (int (length (fw_buffer s))) None =
      Some (r, b, n, x)" using assms(3) by (auto simp: oem_parse_response_def)
  let ?s = "s\<lparr>fw_buffer := b, fw_xbee := x\<rparr>"
  have b: "oem_base img i ?s"
    by (rule oem_base_step[OF oem_inv_base[OF assms(1)], of _ k])
      (use k c dev_step_response[OF rd] in \<open>simp_all add: src_def\<close>)
  then have "oem_base img i (?s\<lparr>fw_state := st\<rparr>)" for st using c(1) by (simp add: oem_base_def src_def)
  moreover have "s' = ?s \<or> s' = ?s\<lparr>fw_state := XBEE_FW_STATE_FAILURE\<rparr> \<or> s' = ?s\<lparr>fw_state := fw_next_state s\<rparr>"
    using assms(3) rd by (auto simp: oem_parse_response_def oem_to_def Let_def split: if_splits)
  ultimately show ?thesis
    using b c(2) assms(2) by (elim disjE) (auto simp: oem_inv_def)
qed

lemma cmd_hv_inv:
  assumes "oem_inv img blocks i s" "fw_state s = XBEE_FW_STATE_CMD_HV" "oem_cmd_hv now s = (e, s')" "12 \<le> length img"
  shows "oem_inv img blocks i s'"
proof -
  have b: "oem_base img i s" "oem_check img = 0" using assms(1,2) by (auto simp: oem_inv_def oem_base_def)
  obtain k where k: "src img k s" using base_src[OF b(1)] ..
  obtain v s1 where rd: "xbee_fw_read_byte (source_seek s 10) = (v, s1)" by fastforce
  from seek_byte[OF k _ rd] assms(4) obtain f k' where f: "s1 = s\<lparr>fw_context := f\<rparr>" "at img k' f" by auto
  have "oem_base img i s1" using base_context[OF b(1) f(2)] f(1) by simp
  with request_inv[OF this b(2)] assms(2,3) rd f(1) show ?thesis
    by (auto simp: oem_cmd_hv_def oem_inv_plain split: if_splits)
qed

lemma cmd_compat_inv:
  assumes "oem_inv img blocks i s" "fw_state s = XBEE_FW_STATE_CMD_COMPAT" "oem_cmd_compat now s = (e, s')"
    and "12 \<le> length img"
  shows "oem_inv img blocks i s'"
proof -
  have b: "oem_base img i s" "oem_check img = 0" using assms(1,2) by (auto simp: oem_inv_def oem_base_def)
  obtain k where k: "src img k s" using base_src[OF b(1)] ..
  obtain v s1 where rd: "xbee_fw_read_byte (source_seek s 11) = (v, s1)" by fastforce
  from seek_byte[OF k _ rd] assms(4) obtain f k' where f: "s1 = s\<lparr>fw_context := f\<rparr>" "at img k' f" by auto
  have "oem_base img i s1" using base_context[OF b(1) f(2)] f(1) by simp
  with request_inv[OF this b(2)] request_inv[OF b] assms(2,3) rd f(1) show ?thesis
    by (auto simp: oem_cmd_compat_def oem_inv_plain split: if_splits)
qed

lemma cmd_vr_inv:
  assumes "oem_inv img blocks i s" "fw_state s = XBEE_FW_STATE_CMD_VR" "oem_cmd_vr now s = (e, s')" "12 \<le> length img"
  shows "oem_inv img blocks i s'"
proof -
  have b: "oem_base img i s" "oem_check img = 0" using assms(1,2) by (auto simp: oem_inv_def oem_base_def)
  obtain k where k: "src img k s" using base_src[OF b(1)] ..
  obtain f where f: "source_seek s 12 = s\<lparr>fw_context := f\<rparr>" "at img (unat (12 :: u32)) f"
    by (rule source_seek_at[OF k, of 12]) (use assms(4) in simp_all)
  have "src img (unat (12 :: u32)) (s\<lparr>fw_context := f\<rparr>)" using f(2) k by (simp add: src_def)
  moreover obtain fl s1 where v: "version_loop (take 4 (fw_buffer s)) 1 (s\<lparr>fw_context := f\<rparr>) = (fl, s1)" by fastforce
  ultimately obtain f' k' where f': "fl = 1" "s1 = s\<lparr>fw_context := f'\<rparr>" "at img k' f'"
    using version_loop_any by fastforce
  have "oem_base img i s1" using base_context[OF b(1) f'(3)] f'(2) by simp
  with request_inv[OF this b(2)] assms(3) v f(1) f'(1) show ?thesis by (auto simp: oem_cmd_vr_def)
qed

lemma cmd_fr_inv:
  assumes "oem_inv img blocks i s" "fw_state s = XBEE_FW_STATE_CMD_FR" "oem_cmd_fr now s = (e, s')"
  shows "oem_inv img blocks i s'"
proof -
  have b: "oem_base img i s" "oem_check img = 0" using assms(1,2) by (auto simp: oem_inv_def oem_base_def)
  obtain k where k: "src img k s" using base_src[OF b(1)] ..
  have "port_step (fw_port s) (snd (xbee_ser_break (snd (xbee_ser_set_rts (fw_port s) False)) True))"
    by (rule port_step_trans[OF port_step_calls(3) port_step_calls(4)])
  with k b(2) assms(3) show ?thesis
    by (intro plain_step[OF b(1), of _ k]) (auto simp: oem_cmd_fr_def set_port_def Let_def)
qed

lemma base_port:
  assumes "oem_base img i s" "oem_check img = 0" "port_step (fw_port s) p"
  shows "oem_base img i (set_port p s)"
proof -
  obtain k where "src img k s" using base_src[OF assms(1)] ..
  then show ?thesis using assms(2,3) by (intro oem_base_step[OF assms(1), of _ k]) (simp_all add: set_port_def)
qed

lemma got_Nil: "oem_got [] [] i p \<longleftrightarrow> (\<exists>g. i = g @ os_rx p)"
  by (simp add: oem_got_def answered_Nil)

lemma be16_of_bytes: "be16_bytes (be16_of a b) = [a, b]"
proof -
  have "ucast (drop_bit 8 (be16_of a b)) = a" "ucast (be16_of a b) = b"
    by (rule bit_word_eqI, auto simp: be16_of_def bit_simps dest: bit_word_lt)+
  then show ?thesis by (simp add: be16_bytes_def)
qed

lemma read_lengths:
  assumes k: "src img k s" and len: "12 \<le> length img"
  obtains v f1 f where "xbee_fw_read_uint32 (source_seek s 4) = (v, s\<lparr>fw_context := f1\<rparr>)"
    "xbee_fw_read_uint16 (s\<lparr>fw_context := f1\<rparr>) = (header_len (oem_header img), s\<lparr>fw_context := f\<rparr>)" "at img 10 f"
proof -
  obtain f0 where f0: "source_seek s 4 = s\<lparr>fw_context := f0\<rparr>" "at img 4 f0"
    by (rule source_seek_at[OF k, of 4]) (use len in simp_all)
  then have "src img 4 (s\<lparr>fw_context := f0\<rparr>)" using k by (simp add: src_def)
  then obtain f1 where f1: "source_read (s\<lparr>fw_context := f0\<rparr>) 4 = (take (nat 4) (drop 4 img), s\<lparr>fw_context := f1\<rparr>)"
    "at img (4 + nat 4) f1" by (rule source_read_at[where n = 4]) simp_all
  then obtain v where v: "xbee_fw_read_uint32 (s\<lparr>fw_context := f0\<rparr>) = (v, s\<lparr>fw_context := f1\<rparr>)"
    by (simp add: xbee_fw_read_uint32_def Let_def)
  have s1: "src img 8 (s\<lparr>fw_context := f1\<rparr>)" using f1(2) k by (simp add: src_def)
  have "take 2 (drop 8 img) = [img ! 8, img ! 9]" using len by (simp add: take_Suc_conv_app_nth numeral_2_eq_2)
  then have "take 2 (drop 8 img) = be16_bytes (header_len (oem_header img))"
    by (simp add: oem_header_def be16_of_bytes)
  then obtain f where "xbee_fw_read_uint16 (s\<lparr>fw_context := f1\<rparr>) = (header_len (oem_header img), s\<lparr>fw_context := f\<rparr>)"
    "at img (8 + 2) f" by (rule read_uint16_at[OF s1]) simp
  then show thesis using that v f0(1) by simp
qed

lemma block_ready_next:
  assumes "blocks = ds @ todo" "spot img todo (unat (block_offset (oem s)))" "fw_tries s = 0"
    and "oem_line ds (os_tx (fw_port s)) []" "oem_got ds [] i (fw_port s)"
  shows "case todo of [] \<Rightarrow> spot img [] (unat (block_offset (oem s))) \<and> all_sent blocks i s
     | (d, r) # bs \<Rightarrow> starts img blocks i s ds d r bs 0"
  using assms by (auto simp: starts_def in_block_def all_sent_def split: list.splits)

lemma block_ready_todo:
  assumes "case todo of [] \<Rightarrow> spot img [] (unat (block_offset (oem s))) \<and> all_sent blocks i s
     | (d, r) # bs \<Rightarrow> starts img blocks i s ds d r bs 0"
  shows "block_ready img blocks i s"
  using assms unfolding block_ready_def by (auto split: list.splits)

lemma tx_start_accept:
  assumes b: "oem_base img i s" "oem_check img = 0" and l: "oem_line [] (os_tx (fw_port s)) []"
    and g: "xbee_ser_getchar (fw_port s) = (c, p)" "c = 0x55 \<or> c = 0x11"
    and tick: "oem_tx_start now s = (e, s')" and lay: "oem_layout img blocks"
  shows "e = 0 \<and> fw_state s' = XBEE_FW_STATE_TX_BLOCK \<and> fw_port s' = p \<and> oem_base img i s' \<and>
    (case blocks of [] \<Rightarrow> spot img [] (unat (block_offset (oem s'))) \<and> all_sent blocks i s'
     | (d, r) # bs \<Rightarrow> starts img blocks i s' [] d r bs 0)"
proof -
  have tx: "os_tx p = os_tx (fw_port s)" using getchar_ready[OF _ g(1)] b(1) by (simp add: oem_base_def)
  let ?s = "set_port p s"
  have base: "oem_base img i ?s" by (rule base_port[OF b port_step_getchar[OF g(1)]])
  obtain k where k: "src img k (?s\<lparr>fw_tries := 0\<rparr>)" using base_src[OF base] by auto
  obtain v f1 f where f: "xbee_fw_read_uint32 (source_seek (?s\<lparr>fw_tries := 0\<rparr>) 4) = (v, ?s\<lparr>fw_tries := 0, fw_context := f1\<rparr>)"
    "xbee_fw_read_uint16 (?s\<lparr>fw_tries := 0, fw_context := f1\<rparr>) =
      (header_len (oem_header img), ?s\<lparr>fw_tries := 0, fw_context := f\<rparr>)" "at img 10 f"
    by (rule read_lengths[OF k]) (use lay in \<open>simp_all add: oem_layout_def\<close>)
  let ?o = "(oem s)\<lparr>firmware_length := v, block_offset := ucast (header_len (oem_header img))\<rparr>"
  let ?t = "?s\<lparr>fw_tries := 0, fw_context := f, oem := ?o, fw_state := XBEE_FW_STATE_TX_BLOCK\<rparr>"
  have s': "e = 0" "s' = ?t" using tick g f(1,2) by (auto simp: oem_tx_start_def Let_def set_port_def)
  have "oem_base img i (?s\<lparr>fw_tries := 0, fw_context := f\<rparr>)" by (rule base_context[OF _ f(3)]) (simp add: base)
  then have base': "oem_base img i ?t" by (intro base_state[OF _ b(2)]) simp
  have "case blocks of [] \<Rightarrow> spot img [] (unat (block_offset (oem ?t))) \<and> all_sent blocks i ?t
     | (d, r) # bs \<Rightarrow> starts img blocks i ?t [] d r bs 0"
    by (rule block_ready_next[OF append_Nil[symmetric]])
      (use lay l tx base' in \<open>simp_all add: oem_layout_def oem_base_def set_port_def unsigned_ucast_eq take_bit_eq_mod\<close>)
  with base' show ?thesis unfolding s' by (simp add: set_port_def)
qed

lemma tx_start_inv:
  assumes "oem_base img i s" "oem_check img = 0" "oem_line [] (os_tx (fw_port s)) []"
    and "fw_state s = XBEE_FW_STATE_TX_START" "oem_tx_start now s = (e, s')" "oem_layout img blocks"
  shows "oem_inv img blocks i s'"
proof -
  obtain c p where g: "xbee_ser_getchar (fw_port s) = (c, p)" by fastforce
  let ?s = "set_port p s"
  show ?thesis
  proof (cases "c = 0x55 \<or> c = 0x11")
    case True
    from tx_start_accept[OF assms(1-3) g True assms(5,6)] show ?thesis
      by (auto simp: oem_inv_def intro: block_ready_todo)
  next
    case False
    have tx: "os_tx p = os_tx (fw_port s)" using getchar_ready[OF _ g] assms(1) by (simp add: oem_base_def)
    have b: "oem_base img i ?s" by (rule base_port[OF assms(1,2) port_step_getchar[OF g]])
    have "s' = ?s \<or> s' = ?s\<lparr>fw_state := XBEE_FW_STATE_FAILURE\<rparr>"
      using False assms(5) g by (auto simp: oem_tx_start_def oem_to_def Let_def split: if_splits)
    then show ?thesis
      using b base_state[OF b assms(2)] assms(3,4) tx by (elim disjE) (simp_all add: oem_inv_def set_port_def)
  qed
qed

lemma bootloader_start:
  assumes b: "oem_base img i s" "oem_check img = 0" and fd: "0 \<le> fd"
  obtains s1 where "oem_bootloader now fd s = oem_tx_start now s1" "oem_base img i s1"
    "oem_line [] (os_tx (fw_port s1)) []" "fw_state s1 = XBEE_FW_STATE_TX_START" "os_rx (fw_port s1) = os_rx (fw_port s)"
proof -
  let ?q = "snd (xbee_ser_open (fw_port s) 38400 fd)"
  let ?p = "snd (xbee_ser_putchar ?q 0x2B)"
  have ready: "ser_ready (fw_port s)" using b(1) by (simp add: oem_base_def)
  have q: "port_step (fw_port s) ?q" by (rule port_step_calls(1)[OF fd])
  then have "ser_ready ?q" using ready by (simp add: port_step_def)
  then have tx: "os_tx ?p = os_tx (fw_port s) @ [0x2B]" "os_rx ?p = os_rx (fw_port s)"
    by (simp_all add: tx_putchar tx_open[OF ready] rx_calls rx_open[OF ready])
  have p: "port_step (fw_port s) ?p" using q port_step_calls(5) by (rule port_step_trans)
  let ?s = "(set_port ?p s)\<lparr>fw_state := XBEE_FW_STATE_TX_START\<rparr>"
  show thesis
  proof (rule that[of ?s])
    show "oem_base img i ?s" by (rule base_state[OF base_port[OF b p] b(2)])
    show "oem_line [] (os_tx (fw_port ?s)) []" using tx by (auto simp: oem_line_def oem_sent_def set_port_def)
  qed (use tx in \<open>simp_all add: oem_bootloader_def oem_to_def Let_def set_port_def\<close>)
qed

lemma bootloader_inv:
  assumes "oem_base img i s" "oem_check img = 0" "oem_bootloader now fd s = (e, s')" "0 \<le> fd" "oem_layout img blocks"
  shows "oem_inv img blocks i s'"
  by (rule bootloader_start[OF assms(1,2,4), of now]) (use tx_start_inv[OF _ assms(2) _ _ _ assms(5)] assms(3) in metis)

lemma seek_uint16:
  assumes k: "src img k s" and sp: "spot img todo (unat offs)" and w: "take 2 (drop (unat offs) img) = be16_bytes w"
  shows "\<exists>f. xbee_fw_read_uint16 (source_seek s offs) = (w, s\<lparr>fw_context := f\<rparr>) \<and> at img (unat offs + 2) f"
proof -
  obtain f1 where f1: "source_seek s offs = s\<lparr>fw_context := f1\<rparr>" "at img (unat offs) f1"
    by (rule source_seek_at[OF k, of offs]) (use spot_in[OF sp] in simp_all)
  then have "src img (unat offs) (s\<lparr>fw_context := f1\<rparr>)" using k by (simp add: src_def)
  from read_uint16_at[OF this w] f1(1) show ?thesis by fastforce
qed

lemma tx_block_begin:
  assumes b: "oem_base img i s" "oem_check img = 0" and st: "starts img blocks i s ds d r todo t"
    and tick: "oem_tx_block now fd s = (e, s')"
  shows "e = 0 \<and> fw_state s' = XBEE_FW_STATE_SENDING \<and> fw_port s' = fw_port s \<and> oem_base img i s' \<and>
    sends img blocks i s' ds d r todo t 0"
proof -
  define K where "K = unat (block_offset (oem s))"
  have sp: "spot img ((d, r) # todo) K" using st by (simp add: starts_def in_block_def K_def)
  note d = spot_Cons[OF sp]
  obtain k where k: "src img k s" using base_src[OF b(1)] ..
  obtain f where f: "xbee_fw_read_uint16 (source_seek s (block_offset (oem s))) = (of_nat (length d), s\<lparr>fw_context := f\<rparr>)"
    "at img (K + 2) f" using seek_uint16[OF k, of _ "block_offset (oem s)"] sp d(1) unfolding K_def by blast
  have nz: "(of_nat (length d) :: u16) \<noteq> 0" using d(6) by (intro of_nat_small_nz[OF _ d(7)]) simp
  let ?o = "(oem s)\<lparr>block_length := of_nat (length d), cur_offset := block_offset (oem s) + 2 + ucast (of_nat (length d) :: u16)\<rparr>"
  let ?t = "s\<lparr>fw_context := f, oem := ?o, fw_state := XBEE_FW_STATE_SENDING\<rparr>"
  have s': "e = 0" "s' = ?t" using tick f(1) nz by (auto simp: oem_tx_block_def)
  have "K + 2 + length d < 2 ^ 32" using d(9) sp by (auto simp: spot_def)
  then have cur: "unat (cur_offset ?o) = K + 2 + length d" unfolding K_def using d(7) unat_add_len by simp
  have base: "oem_base img i ?t" by (rule base_state[OF _ b(2)]) (simp add: base_context[OF b(1) f(2)])
  have "src img (K + 2) ?t" using f(2) k by (simp add: src_def)
  moreover have "in_block img blocks ?t ds d r todo t" using st by (simp add: starts_def in_block_def)
  ultimately have "sends img blocks i ?t ds d r todo t 0"
    using cur st d(6) unfolding sends_def starts_def by (simp add: K_def)
  with base s' show ?thesis by simp
qed

lemma tx_block_end:
  assumes b: "oem_base img i s" "oem_check img = 0" "0 \<le> fd"
    and st: "spot img [] (unat (block_offset (oem s)))" "all_sent blocks i s"
    and tick: "oem_tx_block now fd s = (e, s')"
  shows "e = 0 \<and> fw_state s' = XBEE_FW_STATE_FINAL_PROMPT \<and> fw_timer s' = now \<and> oem_base img i s' \<and> all_sent blocks i s'"
proof -
  define K where "K = unat (block_offset (oem s))"
  obtain k where k: "src img k s" using base_src[OF b(1)] ..
  obtain f where f: "xbee_fw_read_uint16 (source_seek s (block_offset (oem s))) = (0, s\<lparr>fw_context := f\<rparr>)"
    "at img (K + 2) f" using seek_uint16[OF k st(1) spot_Nil[OF st(1)]] unfolding K_def by blast
  let ?q = "snd (xbee_ser_open (fw_port s) 9600 fd)"
  let ?p = "snd (xbee_ser_flowcontrol ?q True)"
  have ready: "ser_ready (fw_port s)" using b(1) by (simp add: oem_base_def)
  have p: "port_step (fw_port s) ?p" using b(3) by (intro port_step_trans[OF port_step_calls(1) port_step_calls(2)])
  have rx: "os_rx ?p = os_rx (fw_port s)" "os_tx ?p = os_tx (fw_port s)"
    using ready by (simp_all add: rx_calls rx_open tx_flowcontrol tx_open)
  have s': "e = 0" "s' = s\<lparr>fw_context := f, fw_xbee := (snd (xbee_dev_reset (fw_xbee s)))\<lparr>serport := ?p\<rparr>,
      fw_timer := now, fw_state := XBEE_FW_STATE_FINAL_PROMPT\<rparr>"
    using tick f(1) by (simp_all add: oem_tx_block_def Let_def set_port_def)
  have "oem_base img i s'"
    unfolding s' by (rule oem_base_step[OF b(1), of _ "K + 2"]) (use p f(2) k b(2) in \<open>simp_all add: src_def\<close>)
  moreover have "all_sent blocks i s'" using st(2) rx by (simp add: s' all_sent_def oem_got_def)
  ultimately show ?thesis using s' by simp
qed

lemma tx_block_inv:
  assumes "oem_inv img blocks i s" "fw_state s = XBEE_FW_STATE_TX_BLOCK" "oem_tx_block now fd s = (e, s')" "0 \<le> fd"
  shows "oem_inv img blocks i s'"
proof -
  have b: "oem_base img i s" "oem_check img = 0" "block_ready img blocks i s"
    using assms(1,2) by (auto simp: oem_inv_def oem_base_def)
  from b(3) consider ds d r todo t where "starts img blocks i s ds d r todo t"
    | "spot img [] (unat (block_offset (oem s)))" "all_sent blocks i s" unfolding block_ready_def by blast
  then show ?thesis
  proof cases
    case 1
    from tx_block_begin[OF b(1,2) this assms(3)] show ?thesis by (auto simp: oem_inv_def intro: block_sendingI)
  next
    case 2
    from tx_block_end[OF b(1,2) assms(4) this assms(3)] show ?thesis by (auto simp: oem_inv_def)
  qed
qed

lemma rx_fail_inv:
  assumes "oem_base img i s" "oem_check img = 0" "block_failed img blocks i s" "oem_rx_fail s = (e, s')"
  shows "oem_inv img blocks i s'"
proof -
  obtain ds d r todo t where t: "in_block img blocks s ds d r todo t" "oem_got ds [] i (fw_port s)"
    "oem_line ds (os_tx (fw_port s)) (concat (replicate (Suc t) d))"
    using assms(3) unfolding block_failed_def by blast
  let ?s = "s\<lparr>fw_tries := fw_tries s + 1\<rparr>"
  have b: "oem_base img i (?s\<lparr>fw_state := st\<rparr>)" for st using base_state[of img i ?s st] assms(1,2) by simp
  show ?thesis
  proof (cases "t < 3")
    case True
    let ?t = "?s\<lparr>fw_state := XBEE_FW_STATE_TX_BLOCK\<rparr>"
    have s': "s' = ?t" using assms(4) t(1) True by (simp add: oem_rx_fail_def oem_to_def in_block_def Let_def)
    have "starts img blocks i ?t ds d r todo (Suc t)" using t True by (simp add: starts_def in_block_def)
    then have "block_ready img blocks i ?t" unfolding block_ready_def by blast
    then show ?thesis using b unfolding oem_inv_def s' by simp
  next
    case False
    then have "s' = ?s\<lparr>fw_state := XBEE_FW_STATE_FAILURE\<rparr>"
      using assms(4) t(1) by (simp add: oem_rx_fail_def oem_to_def in_block_def Let_def)
    then show ?thesis using b by (simp add: oem_inv_def)
  qed
qed

text \<open>One part of a block: up to 128 bytes go from the image through the buffer to the line.\<close>

lemma send_part:
  assumes "src img k s" "ser_ready (fw_port s)" "133 \<le> length (fw_buffer s)"
    and "block_length (oem s) = of_nat L" "0 < L" "L < 2 ^ 16" "k + L \<le> length img"
  defines "n \<equiv> min 128 L"
  obtains f b c where "oem_send_part s = s\<lparr>fw_context := f, fw_buffer := b,
      fw_xbee := (fw_xbee s)\<lparr>serport := sent (fw_port s) (take n (drop k img)) c\<rparr>,
      oem := (oem s)\<lparr>block_length := of_nat (L - n)\<rparr>\<rparr>"
    "at img (k + n) f" "length b = length (fw_buffer s)"
proof -
  have L: "uint (of_nat L :: u16) = int L" using arg_cong[OF unat_of_nat_small[OF assms(6)], of int] by simp
  have n: "0 < n" "n \<le> 128" "n \<le> L" "min (min 2147483647 128) (int L) = int n" using assms(5) by (auto simp: n_def)
  obtain f where f: "source_read s (int n) = (take n (drop k img), s\<lparr>fw_context := f\<rparr>)" "at img (k + n) f"
    by (rule source_read_at[OF assms(1), of "int n"]) (use n(1,2) in simp_all)
  let ?bs = "take n (drop k img)"
  have len: "length ?bs = n" using assms(7) n(3) by simp
  let ?b = "buf_write (fw_buffer s) 0 ?bs"
  have "xbee_ser_write p ?b (int n) = xbee_ser_write p ?bs (int n)" for p
    using len by (simp add: xbee_ser_write_def buf_write_def)
  then have wr: "snd (xbee_ser_write (fw_port s) ?b (int n)) = sent (fw_port s) ?bs (os_calls (fw_port s) + 1)"
    using write_sent[OF assms(2), of ?bs "int n"] len n(2) by simp
  have "xbee_ser_tx_free (fw_port s) = 2147483647"
    using assms(2) by (simp add: xbee_ser_tx_free_def xbee_ser_invalid_def ser_ready_def)
  moreover have "(of_nat L - of_int (int n) :: u16) = of_nat (L - n)" using n(3) by simp
  ultimately have "oem_send_part s = s\<lparr>fw_context := f, fw_buffer := ?b,
      fw_xbee := (fw_xbee s)\<lparr>serport := sent (fw_port s) ?bs (os_calls (fw_port s) + 1)\<rparr>,
      oem := (oem s)\<lparr>block_length := of_nat (L - n)\<rparr>\<rparr>"
    using f(1) wr n(4) assms(4) L by (simp add: oem_send_part_def Let_def set_port_def)
  then show thesis using f(2) by (rule that) (use len n(2) assms(3) in simp)
qed

text \<open>A part is sent: the block goes on, or it is complete and its answer is awaited.\<close>

lemma sending_step:
  assumes b: "oem_base img i s" "oem_check img = 0" and t: "sends img blocks i s ds d r todo t m"
    and tick: "oem_sending now s = (e, s')" and st: "fw_state s = XBEE_FW_STATE_SENDING"
  defines "n \<equiv> min 128 (length d - m)"
  shows "e = 0 \<and> oem_base img i s' \<and> os_rx (fw_port s') = os_rx (fw_port s) \<and>
    (if m + n < length d then fw_state s' = XBEE_FW_STATE_SENDING \<and> sends img blocks i s' ds d r todo t (m + n)
     else fw_state s' = XBEE_FW_STATE_RX_BLOCK \<and> waits img blocks i s' ds d r todo t 0)"
proof -
  define K where "K = unat (block_offset (oem s)) + 2"
  have sp: "spot img ((d, r) # todo) (unat (block_offset (oem s)))" using t by (simp add: sends_def in_block_def)
  note d = spot_Cons[OF sp, folded K_def]
  have m: "m < length d" "src img (K + m) s" "block_length (oem s) = of_nat (length d - m)"
    using t by (simp_all add: sends_def K_def)
  have L: "0 < length d - m" "length d - m < 2 ^ 16" "K + m + (length d - m) \<le> length img"
    using m(1) d(7,9) by linarith+
  have n: "m + n \<le> length d" "n \<le> length d - m" using m(1) by (simp_all add: n_def)
  have bs: "take n (drop (K + m) img) = take n (drop m d)"
    using arg_cong[OF d(2), of "\<lambda>x. take n (drop m x)"] n(2) by (simp add: drop_take add.commute)
  have ready: "ser_ready (fw_port s)" "133 \<le> length (fw_buffer s)" using b(1) by (simp_all add: oem_base_def)
  obtain f bf c where p: "oem_send_part s = s\<lparr>fw_context := f, fw_buffer := bf,
      fw_xbee := (fw_xbee s)\<lparr>serport := sent (fw_port s) (take n (drop m d)) c\<rparr>,
      oem := (oem s)\<lparr>block_length := of_nat (length d - m - n)\<rparr>\<rparr>" (is "_ = ?s")
    "at img (K + m + n) f" "length bf = length (fw_buffer s)"
    by (rule send_part[OF m(2) ready m(3) L, folded n_def, unfolded bs])
  have src: "src img (K + (m + n)) ?s" using p(2) m(2) by (simp add: src_def add.assoc)
  have base: "oem_base img i ?s"
    by (rule oem_base_step[OF b(1) _ _ src]) (use p(3) b(2) in \<open>simp_all add: port_step_def\<close>)
  have "oem_line ds (os_tx (fw_port s) @ take n (drop m d)) ((concat (replicate t d) @ take m d) @ take n (drop m d))"
    using t unfolding sends_def by (intro line_more) blast
  then have line: "oem_line ds (os_tx (fw_port ?s)) (concat (replicate t d) @ take (m + n) d)"
    by (simp add: take_add)
  show ?thesis
  proof (cases "m + n < length d")
    case True
    then have "(of_nat (length d - m - n) :: u16) \<noteq> 0" using d(7) by (intro of_nat_small_nz) linarith+
    then have s': "e = 0" "s' = ?s" using tick p(1) by (simp_all add: oem_sending_def)
    have "sends img blocks i ?s ds d r todo t (m + n)"
      using t src line True unfolding sends_def in_block_def K_def oem_got_def by simp
    with base st True show ?thesis unfolding s' by simp
  next
    case False
    with n(1) have mn: "m + n = length d" by simp
    have src': "src img (K + length d) ?s" using src mn by simp
    obtain f' where f': "xbee_fw_read_uint16 ?s = (of_nat (length r), ?s\<lparr>fw_context := f'\<rparr>)"
      "at img (K + length d + 2) f'" by (rule read_uint16_at[OF src' d(3)])
    let ?o = "(oem s)\<lparr>block_length := of_nat (length r), cur_offset := cur_offset (oem s) + (2 + ucast (of_nat (length r) :: u16))\<rparr>"
    let ?t = "?s\<lparr>fw_context := f', oem := ?o, fw_timer := now, fw_state := XBEE_FW_STATE_RX_BLOCK\<rparr>"
    have s': "e = 0" "s' = ?t" using tick p(1) f'(1) mn by (simp_all add: oem_sending_def)
    have "K + length d + 2 + length r < 2 ^ 32" using d(9) sp by (auto simp: spot_def)
    then have cur: "unat (cur_offset ?o) = K + length d + 2 + length r"
      using unat_add_len[OF d(8), of "cur_offset (oem s)"] t by (simp add: sends_def K_def add.assoc)
    have src2: "src img (K + length d + 2) ?t" using f'(2) m(2) by (simp add: src_def)
    have base': "oem_base img i ?t"
      by (rule oem_base_step[OF b(1) _ _ src2]) (use p(3) b(2) in \<open>simp_all add: port_step_def\<close>)
    have "concat (replicate t d) @ d = concat (replicate (Suc t) d)" by (induction t) simp_all
    then have "waits img blocks i ?t ds d r todo t 0"
      using t line cur src2 mn unfolding waits_def sends_def in_block_def oem_got_def by (simp add: K_def)
    with base' mn show ?thesis unfolding s' by simp
  qed
qed

lemma sending_inv:
  assumes "oem_inv img blocks i s" "fw_state s = XBEE_FW_STATE_SENDING" "oem_sending now s = (e, s')"
  shows "oem_inv img blocks i s'"
proof -
  have b: "oem_base img i s" "oem_check img = 0" "block_sending img blocks i s"
    using assms(1,2) by (auto simp: oem_inv_def oem_base_def)
  from b(3) obtain ds d r todo t m where "sends img blocks i s ds d r todo t m" unfolding block_sending_def by blast
  from sending_step[OF b(1,2) this assms(3,2)] show ?thesis
    by (auto simp: oem_inv_def intro: block_sendingI block_waitingI split: if_splits)
qed

lemma rx_compare_at:
  assumes "src img k s" "k + length cs \<le> length img" "rx_compare cs s = (same, s')"
  shows "\<exists>f k'. s' = s\<lparr>fw_context := f\<rparr> \<and> at img k' f \<and> (same \<longrightarrow> k' = k + length cs) \<and>
    (same \<longleftrightarrow> cs = take (length cs) (drop k img) \<and> (\<forall>c \<in> set cs. c < 0x80))"
  using assms
proof (induction cs arbitrary: k s)
  case Nil
  then show ?case by (intro exI[of _ "fw_context s"] exI[of _ k]) (simp add: src_def)
next
  case (Cons c cs)
  obtain f where f: "xbee_fw_read_byte s = (uint (img ! k), s\<lparr>fw_context := f\<rparr>)" "at img (k + 1) f"
    using read_byte_at[OF Cons.prems(1)] Cons.prems(2) by auto
  have hd: "take (length (c # cs)) (drop k img) = img ! k # take (length cs) (drop (k + 1) img)"
    using Cons.prems(2) by (subst Cons_nth_drop_Suc[symmetric]) simp_all
  show ?case
  proof (cases "c = img ! k \<and> c < 0x80")
    case True
    then have "rx_compare cs (s\<lparr>fw_context := f\<rparr>) = (same, s')" using Cons.prems(3) f(1) by (auto simp: sint_eq_uint)
    moreover have "src img (k + 1) (s\<lparr>fw_context := f\<rparr>)" using f(2) Cons.prems(1) by (simp add: src_def)
    ultimately obtain f' k' where f': "s' = s\<lparr>fw_context := f'\<rparr>" "at img k' f'" "same \<longrightarrow> k' = k + 1 + length cs"
      "same \<longleftrightarrow> cs = take (length cs) (drop (k + 1) img) \<and> (\<forall>c \<in> set cs. c < 0x80)"
      using Cons.IH[of "k + 1" "s\<lparr>fw_context := f\<rparr>"] Cons.prems(2) by auto
    with True show ?thesis unfolding hd by (intro exI[of _ f'] exI[of _ k']) auto
  next
    case False
    then have "same = False" "s' = s\<lparr>fw_context := f\<rparr>" using Cons.prems(3) f(1) by (auto simp: sint_eq_uint)
    with f(2) False show ?thesis unfolding hd by auto
  qed
qed

lemma answer_complete:
  assumes "waits img blocks i s ds d r todo t (length r)" "r \<noteq> []" "s' = s\<lparr>fw_tries := 0,
      oem := (oem s)\<lparr>block_offset := cur_offset (oem s)\<rparr>, fw_state := XBEE_FW_STATE_TX_BLOCK\<rparr>"
  shows "case todo of [] \<Rightarrow> spot img [] (unat (block_offset (oem s'))) \<and> all_sent blocks i s'
     | (d', r') # bs \<Rightarrow> starts img blocks i s' (ds @ [(d, r)]) d' r' bs 0"
proof (rule block_ready_next)
  have sp: "spot img ((d, r) # todo) (unat (block_offset (oem s)))" and t: "t \<le> 3" "blocks = ds @ (d, r) # todo"
    using assms(1) by (auto simp: waits_def in_block_def)
  show "blocks = (ds @ [(d, r)]) @ todo" using t(2) by simp
  show "spot img todo (unat (block_offset (oem s')))"
    using spot_Cons(5)[OF sp] assms(1,3) by (simp add: waits_def)
  show "oem_line (ds @ [(d, r)]) (os_tx (fw_port s')) []"
    using assms(1,3) t(1) by (intro line_snoc[of _ _ "Suc t"]) (simp_all add: waits_def del: replicate_Suc)
  obtain g where g: "i = g @ r @ os_rx (fw_port s)" "oem_answered ds g" "\<forall>b \<in> set r. b < 0x80"
    using assms(1) by (auto simp: waits_def oem_got_def)
  from answered_snoc[OF g(2) assms(2) g(3), of d] g(1) show "oem_got (ds @ [(d, r)]) [] i (fw_port s')"
    by (simp add: oem_got_def assms(3))
qed (use assms(3) in simp)

lemma answer_part:
  assumes w: "waits img blocks i s ds d r todo t n" and rd: "os_rx (fw_port s) = bs @ os_rx p" "os_tx p = os_tx (fw_port s)"
    and bs: "bs = take (length bs) (drop n r)" "\<forall>b \<in> set bs. b < 0x80" "n + length bs \<le> length r"
    and f: "at img (unat (block_offset (oem s)) + 2 + length d + 2 + n + length bs) f"
    and s': "s' = s\<lparr>fw_xbee := (fw_xbee s)\<lparr>serport := p\<rparr>, fw_buffer := b, fw_context := f,
      oem := (oem s)\<lparr>block_length := block_length (oem s) - of_nat (length bs)\<rparr>\<rparr>"
  shows "waits img blocks i s' ds d r todo t (n + length bs)"
proof -
  have part: "take (n + length bs) r = take n r @ bs" using bs(1) by (metis take_add)
  obtain g where g: "i = g @ take n r @ os_rx (fw_port s)" "oem_answered ds g" "\<forall>b \<in> set (take n r). b < 0x80"
    using w by (auto simp: waits_def oem_got_def)
  have "oem_got ds (take (n + length bs) r) i p"
    unfolding oem_got_def part set_append using g rd(1) bs(2) by (intro conjI exI[of _ g]) auto
  moreover have "length r - (n + length bs) = length r - n - length bs" by simp
  then have "(of_nat (length r - n) - of_nat (length bs) :: u16) = of_nat (length r - (n + length bs))"
    using bs(3) by (simp only: of_nat_diff)
  ultimately show ?thesis
    using w rd(2) bs(3) f by (auto simp: waits_def in_block_def s' src_def add.assoc)
qed

lemma answer_wrong:
  assumes w: "waits img blocks i s ds d r todo t n" and rd: "os_rx (fw_port s) = bs @ os_rx p" "os_tx p = os_tx (fw_port s)"
    and s': "oem s' = oem s" "fw_tries s' = fw_tries s" "fw_port s' = p"
  shows "block_failed img blocks i s'"
proof -
  obtain g where "i = g @ take n r @ os_rx (fw_port s)" "oem_answered ds g" using w by (auto simp: waits_def oem_got_def)
  then have "oem_got ds [] i p" using rd(1) answered_more by (auto simp: oem_got_def intro!: exI[of _ "g @ take n r @ bs"])
  then show ?thesis using w rd(2) s' unfolding block_failed_def waits_def in_block_def by auto
qed

text \<open>A read while an answer is awaited.\<close>

lemma waits_read:
  assumes b: "oem_base img i s" "oem_check img = 0" and w: "waits img blocks i s ds d r todo t n"
    and rd: "xbee_ser_read (fw_port s) (min (uint (block_length (oem s))) 128) = (m, bs, p)"
    and s1: "s1 = s\<lparr>fw_xbee := (fw_xbee s)\<lparr>serport := p\<rparr>, fw_buffer := buf_write (fw_buffer s) 0 bs\<rparr>"
  shows "length bs \<le> length r - n" "length bs \<le> 128" "oem_base img i s1" "n + length bs \<le> length r"
    "take (length bs) (fw_buffer s1) = bs"
proof -
  have ready: "ser_ready (fw_port s)" "133 \<le> length (fw_buffer s)" using b(1) by (simp_all add: oem_base_def)
  note p = read_port[OF ready(1) rd]
  have sp: "spot img ((d, r) # todo) (unat (block_offset (oem s)))" and n: "n \<le> length r"
    "block_length (oem s) = of_nat (length r - n)" using w by (simp_all add: waits_def in_block_def)
  have "unat (block_length (oem s)) = length r - n"
    unfolding n(2) using spot_Cons(8)[OF sp] by (intro unat_of_nat_small) simp
  then have "uint (block_length (oem s)) = int (length r - n)" by (metis of_nat_unat)
  then show len: "length bs \<le> length r - n" "length bs \<le> 128" using p(4) by auto
  then show "n + length bs \<le> length r" using n(1) by simp
  obtain k where "src img k s" using base_src[OF b(1)] ..
  then show "oem_base img i s1"
    using p(1) len(2) b(2) ready(2) by (intro oem_base_step[OF b(1), of _ k]) (simp_all add: s1)
  show "take (length bs) (fw_buffer s1) = bs" by (simp add: s1 buf_write_def)
qed

text \<open>Bytes of the answer have come: they are wrong, or they go on with it, or they complete it.\<close>

lemma rx_bytes:
  assumes b: "oem_base img i s" "oem_check img = 0" and w: "waits img blocks i s ds d r todo t n"
    and rd: "xbee_ser_read (fw_port s) (min (uint (block_length (oem s))) 128) = (m, bs, p)" "m > 0"
    and tick: "oem_rx_block now s = (e, s')" and st: "fw_state s = XBEE_FW_STATE_RX_BLOCK"
  defines "good \<equiv> bs = take (length bs) (drop n r) \<and> (\<forall>b \<in> set bs. b < 0x80)"
  shows "e = 0 \<and> oem_base img i s' \<and> fw_port s' = p \<and> n + length bs \<le> length r \<and> bs \<noteq> [] \<and>
    (if \<not> good then fw_state s' = XBEE_FW_STATE_RX_FAIL \<and> block_failed img blocks i s'
     else if n + length bs < length r
     then fw_state s' = XBEE_FW_STATE_RX_BLOCK \<and> waits img blocks i s' ds d r todo t (n + length bs)
     else fw_state s' = XBEE_FW_STATE_TX_BLOCK \<and>
       (case todo of [] \<Rightarrow> spot img [] (unat (block_offset (oem s'))) \<and> all_sent blocks i s'
        | (d', r') # bs \<Rightarrow> starts img blocks i s' (ds @ [(d, r)]) d' r' bs 0))"
proof -
  define K where "K = unat (block_offset (oem s)) + 2 + length d + 2"
  have sp: "spot img ((d, r) # todo) (unat (block_offset (oem s)))" "src img (K + n) s"
    using w by (simp_all add: waits_def in_block_def K_def)
  note d = spot_Cons[OF sp(1), folded K_def]
  have p: "os_rx (fw_port s) = bs @ os_rx p" "os_tx p = os_tx (fw_port s)" "m = int (length bs)" "bs \<noteq> []"
    using read_port[OF _ rd(1)] rd(2) b(1) by (auto simp: oem_base_def)
  let ?s = "s\<lparr>fw_xbee := (fw_xbee s)\<lparr>serport := p\<rparr>, fw_buffer := buf_write (fw_buffer s) 0 bs\<rparr>"
  note len = waits_read[OF b w rd(1) refl]
  obtain same s1 where c: "rx_compare bs ?s = (same, s1)" by fastforce
  have "src img (K + n) ?s" "K + n + length bs \<le> length img" using sp(2) d(9) len(4) by simp_all
  note cmp = rx_compare_at[OF this c]
  have r: "take (length bs) (drop (K + n) img) = take (length bs) (drop n r)"
    using arg_cong[OF d(4), of "\<lambda>x. take (length bs) (drop n x)"] len(1) by (simp add: drop_take add.commute)
  obtain f k' where f: "s1 = ?s\<lparr>fw_context := f\<rparr>" "at img k' f" "same = good" "same \<Longrightarrow> k' = K + n + length bs"
    using cmp unfolding good_def r by blast
  have base1: "oem_base img i s1" unfolding f(1) by (rule base_context[OF len(3) f(2)])
  let ?t = "s1\<lparr>oem := (oem s1)\<lparr>block_length := block_length (oem s1) - of_int m\<rparr>\<rparr>"
  have s': "oem_rx_block now s = (0, if \<not> same then s1\<lparr>fw_state := XBEE_FW_STATE_RX_FAIL\<rparr>
      else if block_length (oem ?t) \<noteq> 0 then ?t
      else ?t\<lparr>fw_tries := 0, oem := (oem ?t)\<lparr>block_offset := cur_offset (oem ?t)\<rparr>, fw_state := XBEE_FW_STATE_TX_BLOCK\<rparr>)"
    using rd len(5) c p(3) by (simp add: oem_rx_block_def set_port_def oem_to_def Let_def)
  show ?thesis
  proof (cases good)
    case False
    then have s'': "e = 0" "s' = s1\<lparr>fw_state := XBEE_FW_STATE_RX_FAIL\<rparr>" using s' tick f(3) by simp_all
    have "block_failed img blocks i s'" by (rule answer_wrong[OF w p(1,2)]) (simp_all add: s'' f(1))
    then show ?thesis using False s'' base_state[OF base1 b(2)] p(4) len(4) f(1) by simp
  next
    case True
    have w': "waits img blocks i ?t ds d r todo t (n + length bs)"
      by (rule answer_part[OF w p(1,2)]) (use True f len(4) p(3) in \<open>simp_all add: K_def good_def\<close>)
    then have left: "block_length (oem ?t) = of_nat (length r - (n + length bs))" unfolding waits_def by blast
    show ?thesis
    proof (cases "n + length bs < length r")
      case part: True
      then have "block_length (oem ?t) \<noteq> 0" unfolding left using d(8) by (intro of_nat_small_nz) linarith+
      then have "e = 0" "s' = ?t" using s' tick f(3) True by simp_all
      then show ?thesis using w' base1 True part st f(1) p(4) by simp
    next
      case False
      then have n': "n + length bs = length r" using len(4) by simp
      then have "block_length (oem ?t) = 0" unfolding left by simp
      then have s'': "e = 0" "s' = ?t\<lparr>fw_tries := 0, oem := (oem ?t)\<lparr>block_offset := cur_offset (oem ?t)\<rparr>,
          fw_state := XBEE_FW_STATE_TX_BLOCK\<rparr>" using s' tick f(3) True by simp_all
      have "r \<noteq> []" using n' p(4) by auto
      from answer_complete[OF _ this s''(2)] w' n' have "case todo of
          [] \<Rightarrow> spot img [] (unat (block_offset (oem s'))) \<and> all_sent blocks i s'
        | (d', r') # bs \<Rightarrow> starts img blocks i s' (ds @ [(d, r)]) d' r' bs 0" by simp
      moreover have "oem_base img i s'" unfolding s'' by (rule base_state[OF _ b(2)]) (use base1 in simp)
      ultimately show ?thesis using s'' True n' f(1) p(4) by simp
    qed
  qed
qed

lemma rx_block_inv:
  assumes "oem_inv img blocks i s" "fw_state s = XBEE_FW_STATE_RX_BLOCK" "oem_rx_block now s = (e, s')"
  shows "oem_inv img blocks i s'"
proof -
  have b: "oem_base img i s" "oem_check img = 0" "ser_ready (fw_port s)"
    using assms(1,2) by (auto simp: oem_inv_def oem_base_def)
  obtain ds d r todo t n where w: "waits img blocks i s ds d r todo t n" "n = length r \<longrightarrow> r = []"
    using assms(1,2) by (auto simp: oem_inv_def block_waiting_def)
  obtain m bs p where rd: "xbee_ser_read (fw_port s) (min (uint (block_length (oem s))) 128) = (m, bs, p)"
    by (metis prod_cases3)
  show ?thesis
  proof (cases "m > 0")
    case True
    note step = rx_bytes[OF b(1,2) w(1) rd True assms(3,2)]
    then have "bs \<noteq> []" by blast
    with step show ?thesis
      by (auto simp: oem_inv_def intro: block_waitingI block_ready_todo split: if_splits)
  next
    case False
    note p = read_port[OF b(3) rd]
    have nil: "bs = []" using p(6) False by simp
    let ?s = "s\<lparr>fw_xbee := (fw_xbee s)\<lparr>serport := p\<rparr>, fw_buffer := buf_write (fw_buffer s) 0 bs\<rparr>"
    note base = waits_read(3)[OF b(1,2) w(1) rd refl]
    have s: "oem_rx_block now s = (if \<not> time_elapsed ?s now 4000 then (0, ?s) else oem_rx_fail ?s)"
      using rd False nil by (simp add: oem_rx_block_def set_port_def)
    have "waits img blocks i ?s ds d r todo t n"
      using w(1) p(2,3) nil by (simp add: waits_def in_block_def oem_got_def)
    then have wait: "block_waiting img blocks i ?s" using w(2) unfolding block_waiting_def by blast
    have fail: "block_failed img blocks i ?s" by (rule answer_wrong[OF w(1) p(3,2)]) simp_all
    show ?thesis
    proof (cases "time_elapsed ?s now 4000")
      case True
      then have "oem_rx_fail ?s = (e, s')" using s assms(3) by simp
      then show ?thesis by (rule rx_fail_inv[OF base b(2) fail])
    next
      case False
      then have "s' = ?s" using s assms(3) by simp
      then show ?thesis using base wait assms(2) by (simp add: oem_inv_def)
    qed
  qed
qed

lemma oem_tick_inv:
  assumes inv: "oem_inv img blocks i s" and lay: "oem_layout img blocks" "oem_complete img" "length junk = 256" "0 \<le> fd"
    and tick: "xbee_fw_install_oem_tick junk s now fd = Some (e, s')"
  shows "oem_inv img blocks i s'"
proof -
  have b: "oem_base img i s" and len: "12 \<le> length img" using inv lay(1) by (auto simp: oem_inv_def oem_layout_def)
  have c: "fw_state s \<noteq> XBEE_FW_STATE_INIT \<Longrightarrow> fw_state s \<noteq> XBEE_FW_STATE_FAILURE \<Longrightarrow> oem_check img = 0"
    using base_checked[OF b] by simp
  note req = request_inv[OF b c] and st = base_state[OF b c]
  have fail: "fw_state s \<noteq> XBEE_FW_STATE_INIT \<Longrightarrow> fw_state s \<noteq> XBEE_FW_STATE_FAILURE \<Longrightarrow>
      oem_inv img blocks i (s\<lparr>fw_state := XBEE_FW_STATE_FAILURE\<rparr>)" using st by (intro oem_inv_plain) simp_all
  show ?thesis
  proof (cases "fw_state s")
    case XBEE_FW_STATE_BREAK
    with tick have "s' = s \<or> oem_bootloader now fd s = (e, s')"
      by (auto simp: xbee_fw_install_oem_tick_def oem_break_def split: if_splits)
    with inv bootloader_inv[OF b c _ lay(4,1)] XBEE_FW_STATE_BREAK show ?thesis by auto
  next
    case XBEE_FW_STATE_TX_START
    with inv have "oem_line [] (os_tx (fw_port s)) []" by (simp add: oem_inv_def)
    with tick tx_start_inv[OF b c _ _ _ lay(1)] XBEE_FW_STATE_TX_START show ?thesis
      by (simp add: xbee_fw_install_oem_tick_def)
  next
    case XBEE_FW_STATE_RX_FAIL
    with inv have "block_failed img blocks i s" by (simp add: oem_inv_def)
    with tick rx_fail_inv[OF b c] XBEE_FW_STATE_RX_FAIL show ?thesis by (simp add: xbee_fw_install_oem_tick_def)
  next
    case XBEE_FW_STATE_FINAL_PROMPT
    with inv tick st[of XBEE_FW_STATE_SUCCESS] show ?thesis
      by (auto simp: xbee_fw_install_oem_tick_def oem_done_def oem_to_def oem_inv_def all_sent_def split: if_splits)
  next
    case XBEE_FW_STATE_DONE
    with inv tick st[of XBEE_FW_STATE_SUCCESS] show ?thesis
      by (auto simp: xbee_fw_install_oem_tick_def oem_done_def oem_to_def oem_inv_def all_sent_def)
  next
    case XBEE_FW_STATE_CMD_SL
    with tick req show ?thesis by (auto simp: xbee_fw_install_oem_tick_def oem_cmd_sl_def)
  next
    case XBEE_FW_STATE_CMD_PROG
    with tick req st[of XBEE_FW_STATE_BOOTLOADER] show ?thesis
      by (auto simp: xbee_fw_install_oem_tick_def oem_cmd_prog_def oem_to_def oem_inv_plain split: if_splits)
  next
    case XBEE_FW_STATE_CMD_CF1
    with tick req show ?thesis by (auto simp: xbee_fw_install_oem_tick_def)
  qed (use tick inv init_inv[OF b _ lay(2,3)] reset_inv_oem[OF b c _ lay(4)] cmd_pending_inv[OF inv c]
      parse_response_inv[OF inv] cmd_hv_inv[OF inv _ _ len] cmd_compat_inv[OF inv _ _ len] cmd_vr_inv[OF inv _ _ len]
      cmd_fr_inv[OF inv] bootloader_inv[OF b c _ lay(4,1)] tx_block_inv[OF inv _ _ lay(4)] sending_inv[OF inv]
      rx_block_inv[OF inv] fail
    in \<open>auto simp: xbee_fw_install_oem_tick_def oem_to_def\<close>)
qed

end

section \<open>Installations\<close>

text \<open>
  The states an installation can reach from \<open>s0\<close>, with all the bytes that were waiting at the
  start or have arrived since.
\<close>

inductive oem_run :: "('a, 'f) xbee_fw_source_t \<Rightarrow> bytes \<Rightarrow> ('a, 'f) xbee_fw_source_t \<Rightarrow> bool"
  for s0 where
  oem_start: "oem_run s0 (os_rx (fw_port s0)) s0"
| oem_arrive: "oem_run s0 i s \<Longrightarrow> oem_run s0 (i @ bs) (set_port (ser_feed (fw_port s) bs) s)"
| oem_tick: "oem_run s0 i s \<Longrightarrow> xbee_fw_install_oem_tick junk s now fd = Some (e, s') \<Longrightarrow> length junk = 256 \<Longrightarrow>
    0 \<le> fd \<Longrightarrow> oem_run s0 i s'"

context image_source
begin

lemma feed_simps:
  "os_tx (fw_port (set_port (ser_feed (fw_port s) bs) s)) = os_tx (fw_port s)"
  "fw_state (set_port (ser_feed (fw_port s) bs) s) = fw_state s" "oem (set_port (ser_feed (fw_port s) bs) s) = oem s"
  "fw_next_state (set_port (ser_feed (fw_port s) bs) s) = fw_next_state s"
  "fw_buffer (set_port (ser_feed (fw_port s) bs) s) = fw_buffer s"
  "ser_ready (fw_port (set_port (ser_feed (fw_port s) bs) s)) = ser_ready (fw_port s)"
  "src img k (set_port (ser_feed (fw_port s) bs) s) = src img k s"
  "in_block img blocks (set_port (ser_feed (fw_port s) bs) s) ds d r todo t = in_block img blocks s ds d r todo t"
  "oem_got ds part (i @ bs) (fw_port (set_port (ser_feed (fw_port s) bs) s)) = oem_got ds part i (fw_port s)"
proof -
  let ?s = "set_port (ser_feed (fw_port s) bs) s"
  have "i @ bs = g @ part @ os_rx (fw_port ?s) \<longleftrightarrow> i = g @ part @ os_rx (fw_port s)" for g
    using append_same_eq[of i bs "g @ part @ os_rx (fw_port s)"] by (simp add: set_port_def ser_feed_def)
  then show "oem_got ds part (i @ bs) (fw_port ?s) = oem_got ds part i (fw_port s)"
    unfolding oem_got_def by (simp only:)
qed (simp_all add: set_port_def ser_feed_def ser_ready_def in_block_def)

lemma base_arrive: "oem_base img (i @ bs) (set_port (ser_feed (fw_port s) bs) s) = oem_base img i s"
  unfolding oem_base_def feed_simps ..

lemma waits_arrive:
  "waits img blocks (i @ bs) (set_port (ser_feed (fw_port s) bs) s) ds d r todo t n = waits img blocks i s ds d r todo t n"
  unfolding waits_def feed_simps ..

lemma oem_arrive_inv:
  assumes "oem_inv img blocks i s"
  shows "oem_inv img blocks (i @ bs) (set_port (ser_feed (fw_port s) bs) s)"
  using assms unfolding oem_inv_def base_arrive block_ready_def block_sending_def block_waiting_def block_failed_def
    all_sent_def starts_def sends_def waits_arrive feed_simps .

lemma oem_run_inv:
  assumes "oem_run s0 i s" "oem_layout img blocks" "oem_complete img" "oem_inv img blocks (os_rx (fw_port s0)) s0"
  shows "oem_inv img blocks i s"
  using assms(1)
proof (induction rule: oem_run.induct)
  case (oem_tick i s junk now fd e s')
  show ?case by (rule oem_tick_inv[OF oem_tick.IH assms(2,3) oem_tick.hyps(3,4,2)])
qed (use assms(4) in \<open>simp_all add: oem_arrive_inv\<close>)

end

section \<open>Hexadecimal numbers\<close>

lemma hex_digit:
  fixes d :: u16
  assumes "d < 16"
  defines "c \<equiv> ucast d + (if d < 10 then 0x30 else 0x37) :: u8"
  shows "sint c \<ge> 0x30" "of_int (sint c - (if sint c \<ge> 0x41 then 0x41 - 10 else 0x30)) = d"
proof -
  have "unat d < 16" using assms(1) by (simp add: word_less_nat_alt)
  moreover have "d = of_nat (unat d)" by simp
  ultimately obtain k where k: "k < 16" "d = of_nat k" by blast
  then have "k \<in> {0, 1, 2, 3, 4, 5, 6, 7, 8, 9, 10, 11, 12, 13, 14, 15}" by (simp, presburger)
  then show "sint c \<ge> 0x30" "of_int (sint c - (if sint c \<ge> 0x41 then 0x41 - 10 else 0x30)) = d"
    unfolding c_def k(2) by auto
qed

lemma nibble_less: "drop_bit n w AND 0xF < (16 :: u16)"
  using word_and_le1[of "drop_bit n w" "0xF"] by (simp add: word_le_nat_alt word_less_nat_alt)

lemma hex4_chars: "c \<in> set (hex4 w) \<Longrightarrow> sint c \<ge> 0x30"
  unfolding hex4_def set_map Let_def by (elim imageE) (simp only: hex_digit(1)[OF nibble_less])

lemma hex2word_hex4: "xbee_fw_hex2word (hex4 w @ rest) = w"
proof -
  let ?d = "\<lambda>i. drop_bit (4 * i) w AND 0xF"
  have m: "(0xF :: u16) = mask 4" by (simp add: mask_eq_exp_minus_1)
  have lt: "?d i < 16" for i by (rule nibble_less)
  have step: "hex2word_loop (Suc n) ((ucast d + (if d < 10 then 0x30 else 0x37)) # cs) v = hex2word_loop n cs (push_bit 4 v OR d)"
    if "d < 16" for n d cs v
    using hex_digit[OF that] by (simp add: Let_def)
  have "push_bit 4 (push_bit 4 (push_bit 4 (push_bit 4 0 OR ?d 3) OR ?d 2) OR ?d 1) OR ?d 0 = w"
    unfolding m
  proof (rule bit_word_eqI)
    fix n
    assume "n < LENGTH(16)"
    consider "n < 4" | "4 \<le> n" "n < 8" | "8 \<le> n" "n < 12" | "12 \<le> n" by linarith
    then show "bit (push_bit 4 (push_bit 4 (push_bit 4 (push_bit 4 0 OR (drop_bit (4 * 3) w AND mask 4)) OR
        (drop_bit (4 * 2) w AND mask 4)) OR (drop_bit (4 * 1) w AND mask 4)) OR (drop_bit (4 * 0) w AND mask 4)) n = bit w n"
      using \<open>n < LENGTH(16)\<close> by cases (auto simp: bit_simps)
  qed
  moreover have four: "4 = Suc (Suc (Suc (Suc 0)))" by simp
  have "xbee_fw_hex2word (hex4 w @ rest) = hex2word_loop (Suc (Suc (Suc (Suc 0))))
      (map (\<lambda>i. ucast (?d i) + (if ?d i < 10 then 0x30 else 0x37)) [3, 2, 1, 0] @ rest) 0"
    unfolding xbee_fw_hex2word_def hex4_def Let_def unfolding four by (rule refl)
  ultimately show ?thesis
    unfolding list.map append_Cons append_Nil step[OF lt] hex2word_loop.simps(2) by simp
qed

end
