(* ===== verification/Xbee_Firmware_Oem_Live.thy ===== *)
theory Xbee_Firmware_Oem_Live
  imports Xbee_Firmware_Oem_Run
begin

text \<open>
  An installation of an \<open>.OEM\<close> image that succeeds: a module that answers the commands as expected
  and acknowledges every block brings the state machine from its first to its last state.
\<close>

section \<open>Commands and their answers\<close>

lemma feed_recv: "set_port (ser_feed (fw_port s) bs) s = s\<lparr>fw_xbee := recv bs (fw_xbee s)\<rparr>"
  by (simp add: set_port_def ser_feed_def recv_def)

lemmas oem_recv = oem_arrive[unfolded feed_recv]

lemma read_response_null:
  "xbee_atmode_read_response now x b sz None =
     map_option (\<lambda>(e, b, _, x). (e, b, None, x))
       (xbee_atmode_read_response now x b sz (Some (int (length (cstr_of b)))))"
  by (auto simp: xbee_atmode_read_response_def Let_def split: option.splits)

context image_source
begin

text \<open>A source between two steps: nothing is waiting on the port.\<close>

definition calm_at :: "bytes \<Rightarrow> xbee_fw_state \<Rightarrow> ('a, 'f) xbee_fw_source_t \<Rightarrow> bool" where
  "calm_at img st s \<longleftrightarrow> ser_ready (fw_port s) \<and> os_rx (fw_port s) = [] \<and> 133 \<le> length (fw_buffer s) \<and>
     (\<exists>k. src img k s) \<and> fw_state s = st"

lemma calm_src: "calm_at img st s \<Longrightarrow> \<exists>k. src img k s"
  by (simp add: calm_at_def)

lemma calm_context: "calm_at img st s \<Longrightarrow> at img k f \<Longrightarrow> calm_at img st (s\<lparr>fw_context := f\<rparr>)"
  by (auto simp: calm_at_def src_def)

lemma request_waiting:
  assumes "ser_ready (fw_port s)" "os_rx (fw_port s) = []" "133 \<le> length (fw_buffer s)" "length c < 2 ^ 16"
  shows "waiting (fw_xbee (xbee_fw_send_request now s c nxt)) now (fw_buffer (xbee_fw_send_request now s c nxt))
    (int (length (fw_buffer (xbee_fw_send_request now s c nxt)))) []"
proof -
  have free: "xbee_ser_tx_free (fw_port s) = 2147483647"
    using assms(1) by (simp add: xbee_ser_tx_free_def xbee_ser_invalid_def ser_ready_def)
  have rx: "os_rx (snd (xbee_ser_write p b n)) = os_rx p" for p b n
    by (auto simp: xbee_ser_write_def os_write_def syscall_def Let_def split: option.splits)
  have "ser_ready (serport (snd (xbee_atmode_send_request now (fw_xbee s) c)))"
    using dev_step_send_request[of "fw_xbee s" now c] assms(1) by (simp add: port_step_def)
  with assms free show ?thesis
    by (auto simp: waiting_def xbee_fw_send_request_def xbee_atmode_send_request_def Let_def rx)
qed

text \<open>A command is out; the module answers with a line.\<close>

lemma run_dialog:
  assumes run: "oem_run s0 i (xbee_fw_send_request now s c nxt)" and s: "calm_at img st s" "length c < 2 ^ 16"
    and line: "0x0D \<notin> set l" "length l \<le> 100"
  obtains i' s' where "oem_run s0 i' s'" "calm_at img nxt s'" "take (length l + 1) (fw_buffer s') = l @ [0]"
proof -
  let ?s = "xbee_fw_send_request now s c nxt"
  let ?b = "fw_buffer ?s" and ?sz = "int (length (fw_buffer ?s))"
  have w: "waiting (fw_xbee ?s) now ?b ?sz []"
    using s by (intro request_waiting) (simp_all add: calm_at_def)
  have len: "133 \<le> length ?b" using s(1) by (simp add: calm_at_def xbee_fw_send_request_def)
  obtain b x where r: "xbee_atmode_read_response now (recv (l @ [0x0D]) (fw_xbee ?s)) ?b ?sz (Some (int (length []))) =
      Some (0, b, Some (int (length ([] @ l))), x)" "take (length ([] @ l) + 1) b = ([] @ l) @ [0]" "length b = length ?b"
    "os_rx (serport x) = []"
    by (rule read_response_last[OF w line(1), of now "[]"]) (use line(2) len in auto)
  have "cstr_of ?b = []" using len by (cases "fw_buffer s") (auto simp: cstr_of_def xbee_fw_send_request_def)
  then have rd: "xbee_atmode_read_response now (recv (l @ [0x0D]) (fw_xbee ?s)) ?b ?sz None = Some (0, b, None, x)"
    unfolding read_response_null using r(1) by simp
  let ?t = "?s\<lparr>fw_xbee := recv (l @ [0x0D]) (fw_xbee ?s)\<rparr>"
  let ?u = "?s\<lparr>fw_xbee := x, fw_buffer := b, fw_state := nxt\<rparr>"
  have "oem_run s0 (i @ l @ [0x0D]) ?t" by (rule oem_recv[OF run])
  moreover have "xbee_fw_install_oem_tick (replicate 256 0) ?t now 0 = Some (0, ?u)"
    using rd by (simp add: xbee_fw_install_oem_tick_def oem_parse_response_def oem_to_def xbee_fw_send_request_def)
  ultimately have "oem_run s0 (i @ l @ [0x0D]) ?u" by (rule oem_tick) simp_all
  moreover have "ser_ready (serport x)"
    using dev_step_response[OF rd] waitingD(1)[OF w] by (simp add: port_step_def)
  then have "calm_at img nxt ?u"
    using s(1) r(3,4) len by (auto simp: calm_at_def xbee_fw_send_request_def src_def)
  ultimately show thesis using that r(2) by auto
qed

text \<open>From the first state to command mode.\<close>

lemma run_to_reset:
  assumes "oem_run s0 i s" "calm_at img XBEE_FW_STATE_INIT s" "oem_complete img" "oem_check img = 0"
  obtains s' where "oem_run s0 i s'" "calm_at img XBEE_FW_STATE_RESET s'" "fw_xbee s' = fw_xbee s"
proof -
  obtain k where k: "src img k s" using calm_src[OF assms(2)] ..
  obtain f k' where v: "xbee_oem_verify (replicate 256 0) s = (0, s\<lparr>fw_context := f\<rparr>)" "src img k' (s\<lparr>fw_context := f\<rparr>)"
    using verify_at[OF k assms(3), of "replicate 256 0"] assms(4) by (metis length_replicate)
  let ?s = "s\<lparr>fw_context := f, fw_state := XBEE_FW_STATE_RESET, fw_tries := 0\<rparr>"
  have "oem_run s0 i ?s"
    by (rule oem_tick[OF assms(1), where junk = "replicate 256 0" and fd = 0 and e = 0])
      (use assms(2) v(1) in \<open>simp_all add: xbee_fw_install_oem_tick_def oem_init_def calm_at_def\<close>)
  moreover have "calm_at img XBEE_FW_STATE_RESET ?s" using assms(2) v(2) by (auto simp: calm_at_def src_def)
  ultimately show thesis by (rule that) simp
qed

lemma run_to_pending:
  assumes "oem_run s0 i s" "calm_at img XBEE_FW_STATE_RESET s" "atmode_outside (mode (fw_xbee s))"
  obtains s' where "oem_run s0 i s'" "calm_at img XBEE_FW_STATE_CMD_PENDING s'"
    "mode (fw_xbee s') = XBEE_MODE_PRE_ESCAPE" "mode_timer (fw_xbee s') = 0"
proof -
  let ?p = "snd (xbee_ser_flowcontrol (snd (xbee_ser_open (fw_port s) (if fw_tries s \<noteq> 0 then 9600 else 115200) 0)) True)"
  have ready: "ser_ready (fw_port s)" "os_rx (fw_port s) = []" using assms(2) by (simp_all add: calm_at_def)
  have "port_step (fw_port s) ?p" by (intro port_step_trans[OF port_step_calls(1) port_step_calls(2)]) simp
  then have p: "ser_ready ?p" "os_rx ?p = []" using ready by (auto simp: port_step_def)
  let ?x = "(fw_xbee s)\<lparr>serport := ?p, mode := XBEE_MODE_PRE_ESCAPE, mode_timer := 0\<rparr>"
  have "snd (xbee_atmode_enter 0 ((fw_xbee s)\<lparr>serport := ?p\<rparr>)) = ?x"
    using assms(3) by (auto simp: xbee_atmode_enter_def xbee_atmode_tick_def atmode_outside_def)
  then have "oem_reset 0 0 s = (0, s\<lparr>fw_xbee := ?x, fw_state := XBEE_FW_STATE_CMD_PENDING\<rparr>)"
    by (simp add: oem_reset_def set_port_def)
  then have "oem_run s0 i (s\<lparr>fw_xbee := ?x, fw_state := XBEE_FW_STATE_CMD_PENDING\<rparr>)"
    by (intro oem_tick[OF assms(1), where junk = "replicate 256 0" and fd = 0 and e = 0 and now = 0])
      (use assms(2) in \<open>simp_all add: xbee_fw_install_oem_tick_def calm_at_def\<close>)
  then show thesis by (rule that) (use assms(2) p in \<open>simp_all add: calm_at_def\<close>)
qed

text \<open>The guard time passes, the escape sequence goes out, and the module answers \<open>OK\<close>.\<close>

lemma run_to_command:
  assumes run: "oem_run s0 i s" "calm_at img XBEE_FW_STATE_CMD_PENDING s"
    and md: "mode (fw_xbee s) = XBEE_MODE_PRE_ESCAPE" "mode_timer (fw_xbee s) = 0"
  obtains i' s' where "oem_run s0 i' (xbee_fw_send_request (ucast (guard_time (fw_xbee s)) + 201) s' (str_bytes ''HV'') XBEE_FW_STATE_CMD_HV)"
    "calm_at img XBEE_FW_STATE_CMD_PENDING s'"
proof -
  define g where "g = guard_time (fw_xbee s)"
  define now :: u32 where "now = ucast g + 201"
  define x where "x = xbee_atmode_tick now (fw_xbee s)"
  have ready: "ser_ready (fw_port s)" using run(2) by (simp add: calm_at_def)
  have "unat g < 65536" using unsigned_less[of g] by simp
  then have "unat g + 200 < 4294967296" "unat g + 201 < 4294967296" by linarith+
  then have "ucast g + 200 < now" unfolding now_def by (simp add: word_less_nat_alt unat_word_ariths)
  then obtain tx where esc: "escaped x now g tx"
    using tick_escape[OF ready md(1), of now] md(2) by (simp add: x_def g_def)
  let ?s = "s\<lparr>fw_xbee := x\<rparr>"
  have "oem_run s0 i ?s"
    by (rule oem_tick[OF run(1), where junk = "replicate 256 0" and fd = 0 and e = 0 and now = now])
      (use run(2) esc in \<open>simp_all add: xbee_fw_install_oem_tick_def oem_cmd_pending_def calm_at_def escaped_def flip: x_def\<close>)
  then have fed: "oem_run s0 (i @ ok_response) (?s\<lparr>fw_xbee := recv ok_response x\<rparr>)"
    using oem_recv[of s0 i ?s ok_response] by simp
  define y where "y = xbee_atmode_tick now (recv ok_response x)"
  have y: "mode y = XBEE_MODE_COMMAND" "os_rx (serport y) = []"
    using escaped_answer(3)[OF esc refl, of ok_response now] by (simp_all add: y_def ok_response_def)
  have "dev_step (recv ok_response x) y" unfolding y_def by (rule dev_step_tick)
  moreover have "ser_ready (serport (recv ok_response x))" using esc by (simp add: escaped_def)
  ultimately have "ser_ready (serport y)" by (simp add: port_step_def)
  then have "calm_at img XBEE_FW_STATE_CMD_PENDING (s\<lparr>fw_xbee := y\<rparr>)" using run(2) y by (simp add: calm_at_def)
  moreover have "oem_run s0 (i @ ok_response) (xbee_fw_send_request now (s\<lparr>fw_xbee := y\<rparr>) (str_bytes ''HV'') XBEE_FW_STATE_CMD_HV)"
    by (rule oem_tick[OF fed, where junk = "replicate 256 0" and fd = 0 and e = 0 and now = now])
      (use run(2) y(1) in \<open>simp_all add: xbee_fw_install_oem_tick_def oem_cmd_pending_def calm_at_def flip: y_def\<close>)
  ultimately show thesis using that unfolding now_def g_def by blast
qed

text \<open>The commands, up to the one that starts the boot loader.\<close>

lemma calm_byte:
  assumes "calm_at img st s" "k < length img" "k < 2 ^ 32"
  obtains f where "xbee_fw_read_byte (source_seek s (of_nat k)) = (uint (img ! k), s\<lparr>fw_context := f\<rparr>)"
    "calm_at img st (s\<lparr>fw_context := f\<rparr>)"
proof -
  obtain k0 where k0: "src img k0 s" using calm_src[OF assms(1)] ..
  have u: "unat (of_nat k :: u32) = k" using assms(3) by (simp add: unat_of_nat)
  obtain f1 where f1: "source_seek s (of_nat k) = s\<lparr>fw_context := f1\<rparr>" "at img k f1"
    by (rule source_seek_at[OF k0, of "of_nat k", unfolded u]) (use assms(2) in simp_all)
  then have "src img k (s\<lparr>fw_context := f1\<rparr>)" using k0 by (simp add: src_def)
  then obtain f where "xbee_fw_read_byte (s\<lparr>fw_context := f1\<rparr>) = (uint (img ! k), s\<lparr>fw_context := f\<rparr>)" "at img (k + 1) f"
    by (rule read_byte_at[OF _ assms(2)]) simp
  then show thesis using that f1(1) calm_context[OF assms(1)] by simp
qed

lemma oem_tick0:
  assumes "oem_run s0 i s" "xbee_fw_install_oem_tick (replicate 256 0) s now 0 = Some (e, s')"
  shows "oem_run s0 i s'"
  using oem_tick[OF assms] by simp

lemma run_hv:
  assumes run: "oem_run s0 i s" "calm_at img XBEE_FW_STATE_CMD_HV s" and img: "12 \<le> length img"
    and b: "take 5 (fw_buffer s) = hex4 (push_bit 8 (ucast (img ! 10))) @ [0]"
  obtains s' where "oem_run s0 i (xbee_fw_send_request 0 s' (str_bytes ''%C'') XBEE_FW_STATE_CMD_COMPAT)"
    "calm_at img XBEE_FW_STATE_CMD_HV s'"
proof -
  let ?w = "push_bit 8 (ucast (img ! 10)) :: u16"
  obtain f where f: "xbee_fw_read_byte (source_seek s 10) = (uint (img ! 10), s\<lparr>fw_context := f\<rparr>)"
    "calm_at img XBEE_FW_STATE_CMD_HV (s\<lparr>fw_context := f\<rparr>)"
    using calm_byte[OF run(2), of 10] img by auto
  have "fw_buffer s = hex4 ?w @ (0 # drop 5 (fw_buffer s))" using b append_take_drop_id[of 5 "fw_buffer s"] by simp
  then have "xbee_fw_hex2word (fw_buffer s) = ?w" using hex2word_hex4[of ?w] by metis
  moreover have "uint (drop_bit 8 ?w) = uint (img ! 10)"
  proof -
    have "drop_bit 8 ?w = ucast (img ! 10)" by (rule bit_word_eqI) (auto simp: bit_simps dest: bit_word_lt)
    moreover have "uint (img ! 10) < 65536" using uint_lt2p[of "img ! 10"] by simp
    ultimately show ?thesis by (simp add: unsigned_ucast_eq take_bit_eq_mod)
  qed
  ultimately have "oem_cmd_hv 0 s = (0, xbee_fw_send_request 0 (s\<lparr>fw_context := f\<rparr>) (str_bytes ''%C'') XBEE_FW_STATE_CMD_COMPAT)"
    using f(1) by (simp add: oem_cmd_hv_def)
  then have "xbee_fw_install_oem_tick (replicate 256 0) s 0 0 =
      Some (0, xbee_fw_send_request 0 (s\<lparr>fw_context := f\<rparr>) (str_bytes ''%C'') XBEE_FW_STATE_CMD_COMPAT)"
    using run(2) by (simp add: xbee_fw_install_oem_tick_def calm_at_def)
  then show thesis by (rule that[OF oem_tick0[OF run(1)] f(2)])
qed

lemma cstr_prefix: "take (length l + 1) b = l @ [0] \<Longrightarrow> 0 \<notin> set l \<Longrightarrow> cstr_of b = l"
  using append_take_drop_id[of "length l + 1" b] cstr_of_terminated[of l] by (metis append.assoc append_Cons append_Nil)

lemma run_vr:
  assumes run: "oem_run s0 i s" "calm_at img XBEE_FW_STATE_CMD_VR s" and img: "12 \<le> length img"
  obtains s' where "oem_run s0 i (xbee_fw_send_request 0 s' (str_bytes ''CF1'') XBEE_FW_STATE_CMD_CF1)"
    "calm_at img XBEE_FW_STATE_CMD_VR s'"
proof -
  obtain k where k: "src img k s" using calm_src[OF run(2)] ..
  obtain f where f: "source_seek s 12 = s\<lparr>fw_context := f\<rparr>" "at img (unat (12 :: u32)) f"
    by (rule source_seek_at[OF k, of 12]) (use img in simp_all)
  have "src img (unat (12 :: u32)) (s\<lparr>fw_context := f\<rparr>)" using f(2) k by (simp add: src_def)
  moreover obtain fl s1 where v: "version_loop (take 4 (fw_buffer s)) 1 (s\<lparr>fw_context := f\<rparr>) = (fl, s1)" by fastforce
  ultimately obtain f' k' where f': "fl = 1" "s1 = s\<lparr>fw_context := f'\<rparr>" "at img k' f'"
    using version_loop_any by fastforce
  have "oem_cmd_vr 0 s = (0, xbee_fw_send_request 0 (s\<lparr>fw_context := f'\<rparr>) (str_bytes ''CF1'') XBEE_FW_STATE_CMD_CF1)"
    using v f(1) f'(1,2) by (simp add: oem_cmd_vr_def)
  then have "xbee_fw_install_oem_tick (replicate 256 0) s 0 0 =
      Some (0, xbee_fw_send_request 0 (s\<lparr>fw_context := f'\<rparr>) (str_bytes ''CF1'') XBEE_FW_STATE_CMD_CF1)"
    using run(2) by (simp add: xbee_fw_install_oem_tick_def calm_at_def)
  then show thesis by (rule that[OF oem_tick0[OF run(1)] calm_context[OF run(2) f'(3)]])
qed

lemma run_to_bootloader:
  assumes run: "oem_run s0 i (xbee_fw_send_request now s (str_bytes ''HV'') XBEE_FW_STATE_CMD_HV)" "calm_at img st s"
    and img: "12 \<le> length img"
  obtains i' s' where "oem_run s0 i' s'" "calm_at img XBEE_FW_STATE_BOOTLOADER s'"
proof -
  let ?hv = "hex4 (push_bit 8 (ucast (img ! 10)))"
  have hv: "0x0D \<notin> set ?hv" "length ?hv = 4" using hex4_chars[of "0x0D"] by (auto simp: hex4_def)
  obtain i1 s1 where 1: "oem_run s0 i1 s1" "calm_at img XBEE_FW_STATE_CMD_HV s1" "take (length ?hv + 1) (fw_buffer s1) = ?hv @ [0]"
    by (rule run_dialog[OF run _ hv(1)]) (simp_all add: hv str_bytes_def)
  obtain s2 where 2: "oem_run s0 i1 (xbee_fw_send_request 0 s2 (str_bytes ''%C'') XBEE_FW_STATE_CMD_COMPAT)"
    "calm_at img XBEE_FW_STATE_CMD_HV s2"
    by (rule run_hv[OF 1(1,2) img]) (use 1(3) hv(2) in simp_all)
  let ?e = "str_bytes ''ERROR''"
  have e: "0x0D \<notin> set ?e" "0 \<notin> set ?e" "length ?e = 5" by (simp_all add: str_bytes_def chr_byte_def)
  obtain i3 s3 where 3: "oem_run s0 i3 s3" "calm_at img XBEE_FW_STATE_CMD_COMPAT s3" "take (length ?e + 1) (fw_buffer s3) = ?e @ [0]"
    by (rule run_dialog[OF 2 _ e(1)]) (simp_all add: e str_bytes_def)
  have "oem_run s0 i3 (xbee_fw_send_request 0 s3 (str_bytes ''VR'') XBEE_FW_STATE_CMD_VR)"
    by (rule oem_tick0[OF 3(1), of 0 0])
      (use 3(2) cstr_prefix[OF 3(3) e(2)] in \<open>simp add: xbee_fw_install_oem_tick_def calm_at_def oem_cmd_compat_def\<close>)
  then obtain i4 s4 where 4: "oem_run s0 i4 s4" "calm_at img XBEE_FW_STATE_CMD_VR s4"
    by (rule run_dialog[OF _ 3(2), where l = "[]"]) (simp_all add: str_bytes_def)
  obtain s5 where "oem_run s0 i4 (xbee_fw_send_request 0 s5 (str_bytes ''CF1'') XBEE_FW_STATE_CMD_CF1)"
    "calm_at img XBEE_FW_STATE_CMD_VR s5" by (rule run_vr[OF 4 img])
  then obtain i6 s6 where 6: "oem_run s0 i6 s6" "calm_at img XBEE_FW_STATE_CMD_CF1 s6"
    by (rule run_dialog[where l = "[]"]) (simp_all add: str_bytes_def)
  have "oem_run s0 i6 (xbee_fw_send_request 0 s6 (str_bytes ''SL'') XBEE_FW_STATE_CMD_SL)"
    by (rule oem_tick0[OF 6(1), of 0 0]) (use 6(2) in \<open>simp add: xbee_fw_install_oem_tick_def calm_at_def\<close>)
  then obtain i7 s7 where 7: "oem_run s0 i7 s7" "calm_at img XBEE_FW_STATE_CMD_SL s7"
    by (rule run_dialog[OF _ 6(2), where l = "[]"]) (simp_all add: str_bytes_def)
  let ?p = "str_bytes ''%P'' @ hex4 ((xbee_fw_hex2word (fw_buffer s7) + 0xDB8A) AND 0x3FFF)"
  have p: "oem_run s0 i7 (xbee_fw_send_request 0 s7 ?p XBEE_FW_STATE_CMD_PROG)"
    by (rule oem_tick0[OF 7(1), of 0 0])
      (use 7(2) in \<open>simp add: xbee_fw_install_oem_tick_def calm_at_def oem_cmd_sl_def\<close>)
  let ?ok = "str_bytes ''OK''"
  have ok: "0x0D \<notin> set ?ok" "0 \<notin> set ?ok" "length ?ok = 2" by (simp_all add: str_bytes_def chr_byte_def)
  obtain i8 s8 where 8: "oem_run s0 i8 s8" "calm_at img XBEE_FW_STATE_CMD_PROG s8"
    "take (length ?ok + 1) (fw_buffer s8) = ?ok @ [0]"
    by (rule run_dialog[OF p 7(2) _ ok(1)]) (simp_all add: ok str_bytes_def hex4_def)
  have "oem_run s0 i8 (s8\<lparr>fw_state := XBEE_FW_STATE_BOOTLOADER\<rparr>)"
    by (rule oem_tick0[OF 8(1), of 0 0])
      (use 8(2) cstr_prefix[OF 8(3) ok(2)] in \<open>simp add: xbee_fw_install_oem_tick_def calm_at_def oem_cmd_prog_def oem_to_def\<close>)
  then show thesis by (rule that) (use 8(2) in \<open>simp add: calm_at_def\<close>)
qed

section \<open>Blocks and their answers\<close>

lemma run_send:
  assumes "oem_run s0 i s" "oem_base img i s" "fw_state s = XBEE_FW_STATE_SENDING" "oem_check img = 0"
    and "sends img blocks i s ds d r todo t m"
  shows "\<exists>s'. oem_run s0 i s' \<and> oem_base img i s' \<and> fw_state s' = XBEE_FW_STATE_RX_BLOCK \<and>
    os_rx (fw_port s') = os_rx (fw_port s) \<and> waits img blocks i s' ds d r todo t 0"
  using assms
proof (induction "length d - m" arbitrary: s m rule: less_induct)
  case less
  obtain e s1 where tick: "oem_sending 0 s = (e, s1)" by fastforce
  define n where "n = min 128 (length d - m)"
  note step = sending_step[OF less.prems(2,4,5) tick less.prems(3), folded n_def]
  have n: "0 < n" using less.prems(5) by (simp add: n_def sends_def)
  have run: "oem_run s0 i s1"
    by (rule oem_tick0[OF less.prems(1), of 0 e]) (use tick less.prems(3) in \<open>simp add: xbee_fw_install_oem_tick_def\<close>)
  show ?case
  proof (cases "m + n < length d")
    case True
    have "\<exists>s'. oem_run s0 i s' \<and> oem_base img i s' \<and> fw_state s' = XBEE_FW_STATE_RX_BLOCK \<and>
      os_rx (fw_port s') = os_rx (fw_port s1) \<and> waits img blocks i s' ds d r todo t 0"
      by (rule less.hyps[OF _ run _ _ less.prems(4), of "m + n"]) (use step True n in auto)
    with step show ?thesis by auto
  next
    case False
    with step run show ?thesis by auto
  qed
qed

text \<open>What is left when the blocks \<open>ds\<close> are done.\<close>

abbreviation next_block :: "bytes \<Rightarrow> (bytes \<times> bytes) list \<Rightarrow> bytes \<Rightarrow> ('a, 'f) xbee_fw_source_t \<Rightarrow>
    (bytes \<times> bytes) list \<Rightarrow> (bytes \<times> bytes) list \<Rightarrow> bool" where
  "next_block img blocks i s ds todo \<equiv>
     (case todo of [] \<Rightarrow> spot img [] (unat (block_offset (oem s))) \<and> all_sent blocks i s
      | (d, r) # bs \<Rightarrow> starts img blocks i s ds d r bs 0)"

lemma run_receive:
  assumes "oem_run s0 i s" "oem_base img i s" "fw_state s = XBEE_FW_STATE_RX_BLOCK" "oem_check img = 0"
    and "waits img blocks i s ds d r todo t n" "os_rx (fw_port s) = drop n r" "n < length r" "\<forall>b \<in> set r. b < 0x80"
  shows "\<exists>s'. oem_run s0 i s' \<and> oem_base img i s' \<and> fw_state s' = XBEE_FW_STATE_TX_BLOCK \<and>
    os_rx (fw_port s') = [] \<and> next_block img blocks i s' (ds @ [(d, r)]) todo"
  using assms
proof (induction "length r - n" arbitrary: s n rule: less_induct)
  case less
  obtain e s1 where tick: "oem_rx_block 0 s = (e, s1)" by fastforce
  obtain m bs p where rd: "xbee_ser_read (fw_port s) (min (uint (block_length (oem s))) 128) = (m, bs, p)"
    by (metis prod_cases3)
  have ready: "ser_ready (fw_port s)" using less.prems(2) by (simp add: oem_base_def)
  have "block_length (oem s) \<noteq> 0"
  proof -
    have "spot img ((d, r) # todo) (unat (block_offset (oem s)))" "block_length (oem s) = of_nat (length r - n)"
      using less.prems(5) by (simp_all add: waits_def in_block_def)
    then show ?thesis using spot_Cons(8) less.prems(7) of_nat_small_nz[of "length r - n"] by force
  qed
  then have "0 < min (uint (block_length (oem s))) 128" by (simp add: word_neq_0_conv word_less_def)
  then have "m > 0" using port.rd_ready[OF ready _ rd] less.prems(6,7) by (auto simp: not_le)
  note step = rx_bytes[OF less.prems(2,4,5) rd this tick less.prems(3)]
  have rx: "drop n r = bs @ os_rx p" using read_port(3)[OF ready rd] less.prems(6) by simp
  have "os_rx p = drop (n + length bs) r" using arg_cong[OF rx, of "drop (length bs)"] by (simp add: add.commute)
  moreover have "bs = take (length bs) (drop n r)" "\<forall>b \<in> set bs. b < 0x80"
    using less.prems(8) set_drop_subset[of n r] unfolding rx by auto
  ultimately have good: "bs = take (length bs) (drop n r)" "\<forall>b \<in> set bs. b < 0x80" "os_rx p = drop (n + length bs) r"
    by blast+
  have run: "oem_run s0 i s1"
    by (rule oem_tick0[OF less.prems(1), of 0 e]) (use tick less.prems(3) in \<open>simp add: xbee_fw_install_oem_tick_def\<close>)
  show ?case
  proof (cases "n + length bs < length r")
    case True
    show ?thesis
      by (rule less.hyps[OF _ run _ _ less.prems(4), of "n + length bs"])
        (use step True good less.prems(8) in \<open>auto simp flip: length_greater_0_conv\<close>)
  next
    case False
    with step good run show ?thesis by (intro exI[of _ s1]) (simp split: list.splits)
  qed
qed

lemma run_final:
  assumes "oem_run s0 i s" "oem_base img i s" "fw_state s = XBEE_FW_STATE_TX_BLOCK" "oem_check img = 0"
    and "next_block img blocks i s ds []"
  shows "\<exists>s'. oem_run s0 i s' \<and> fw_state s' = XBEE_FW_STATE_SUCCESS"
proof -
  obtain e s1 where tick: "oem_tx_block 0 0 s = (e, s1)" by fastforce
  have s1: "fw_state s1 = XBEE_FW_STATE_FINAL_PROMPT" "fw_timer s1 = 0"
    using tx_block_end[OF assms(2,4) _ _ _ tick] assms(5) by auto
  have "oem_run s0 i s1"
    by (rule oem_tick0[OF assms(1), of 0 e]) (use tick assms(3) in \<open>simp add: xbee_fw_install_oem_tick_def\<close>)
  then have "oem_run s0 i (s1\<lparr>fw_state := XBEE_FW_STATE_SUCCESS\<rparr>)"
    by (rule oem_tick0[of _ _ _ 3001 1])
      (use s1 in \<open>simp add: xbee_fw_install_oem_tick_def time_elapsed_def oem_done_def oem_to_def\<close>)
  then show ?thesis by (intro exI[of _ "s1\<lparr>fw_state := XBEE_FW_STATE_SUCCESS\<rparr>"]) simp
qed

lemma run_blocks:
  assumes "oem_run s0 i s" "oem_base img i s" "fw_state s = XBEE_FW_STATE_TX_BLOCK" "oem_check img = 0"
    and "os_rx (fw_port s) = []" "next_block img blocks i s ds todo"
    and "\<forall>(d, r) \<in> set todo. r \<noteq> [] \<and> (\<forall>b \<in> set r. b < 0x80)"
  shows "\<exists>i' s'. oem_run s0 i' s' \<and> fw_state s' = XBEE_FW_STATE_SUCCESS"
  using assms
proof (induction todo arbitrary: i s ds)
  case Nil
  then show ?case using run_final[of s0 i s img blocks ds] by auto
next
  case (Cons b bs)
  obtain d r where b: "b = (d, r)" by fastforce
  have st: "starts img blocks i s ds d r bs 0" "r \<noteq> []" "\<forall>b \<in> set r. b < 0x80"
    using Cons.prems(6,7) b by auto
  obtain e s1 where tick: "oem_tx_block 0 0 s = (e, s1)" by fastforce
  have 1: "oem_run s0 i s1"
    by (rule oem_tick0[OF Cons.prems(1), of 0 e]) (use tick Cons.prems(3) in \<open>simp add: xbee_fw_install_oem_tick_def\<close>)
  note s1 = tx_block_begin[OF Cons.prems(2,4) st(1) tick]
  obtain s2 where 2: "oem_run s0 i s2" "oem_base img i s2" "fw_state s2 = XBEE_FW_STATE_RX_BLOCK"
    "os_rx (fw_port s2) = []" "waits img blocks i s2 ds d r bs 0 0"
    using run_send[OF 1 _ _ Cons.prems(4)] s1 Cons.prems(5) by fastforce
  let ?s = "set_port (ser_feed (fw_port s2) r) s2"
  have 3: "oem_run s0 (i @ r) ?s" "oem_base img (i @ r) ?s" "fw_state ?s = XBEE_FW_STATE_RX_BLOCK"
    "waits img blocks (i @ r) ?s ds d r bs 0 0" "os_rx (fw_port ?s) = drop 0 r"
    using oem_arrive[OF 2(1)] 2 unfolding base_arrive waits_arrive by (auto simp: set_port_def ser_feed_def)
  obtain s4 where 4: "oem_run s0 (i @ r) s4" "oem_base img (i @ r) s4" "fw_state s4 = XBEE_FW_STATE_TX_BLOCK"
    "os_rx (fw_port s4) = []" "next_block img blocks (i @ r) s4 (ds @ [(d, r)]) bs"
    using run_receive[OF 3(1,2,3) Cons.prems(4) 3(4,5) _ st(3)] st(2) by auto
  show ?case by (rule Cons.IH[OF 4(1-3) Cons.prems(4) 4(4,5)]) (use Cons.prems(7) in simp)
qed

lemma oem_succeeds:
  assumes s0: "calm_at img XBEE_FW_STATE_INIT s0" "atmode_outside (mode (fw_xbee s0))"
    and img: "oem_complete img" "oem_layout img blocks" "oem_check img = 0"
    and ans: "\<forall>(d, r) \<in> set blocks. r \<noteq> [] \<and> (\<forall>b \<in> set r. b < 0x80)"
  shows "\<exists>i s. oem_run s0 i s \<and> fw_state s = XBEE_FW_STATE_SUCCESS"
proof -
  have start: "oem_run s0 [] s0" using oem_start[of s0] s0(1) by (simp add: calm_at_def)
  obtain s1 where 1: "oem_run s0 [] s1" "calm_at img XBEE_FW_STATE_RESET s1" "fw_xbee s1 = fw_xbee s0"
    by (rule run_to_reset[OF start s0(1) img(1,3)])
  obtain s2 where 2: "oem_run s0 [] s2" "calm_at img XBEE_FW_STATE_CMD_PENDING s2"
    "mode (fw_xbee s2) = XBEE_MODE_PRE_ESCAPE" "mode_timer (fw_xbee s2) = 0"
    by (rule run_to_pending[OF 1(1,2)]) (use s0(2) 1(3) in simp_all)
  obtain i3 s3 where 3: "oem_run s0 i3 (xbee_fw_send_request (ucast (guard_time (fw_xbee s2)) + 201) s3 (str_bytes ''HV'')
      XBEE_FW_STATE_CMD_HV)" "calm_at img XBEE_FW_STATE_CMD_PENDING s3" by (rule run_to_command[OF 2])
  have len: "12 \<le> length img" using img(2) by (simp add: oem_layout_def)
  obtain i4 s4 where 4: "oem_run s0 i4 s4" "calm_at img XBEE_FW_STATE_BOOTLOADER s4"
    by (rule run_to_bootloader[OF 3 len])
  obtain k where "src img k s0" using calm_src[OF s0(1)] ..
  then have "oem_inv img blocks (os_rx (fw_port s0)) s0"
    using s0(1) by (auto simp: calm_at_def oem_inv_def oem_base_def oem_got_def answered_Nil)
  from oem_run_inv[OF 4(1) img(2,1) this] have "oem_base img i4 s4" by (rule oem_inv_base)
  moreover define s5 where "s5 = set_port (ser_feed (fw_port s4) [0x55]) s4"
  ultimately have b5: "oem_base img (i4 @ [0x55]) s5" using base_arrive[of img i4 "[0x55]" s4] by simp
  have 5: "oem_run s0 (i4 @ [0x55]) s5" "os_rx (fw_port s5) = [0x55]" "fw_state s5 = XBEE_FW_STATE_BOOTLOADER"
    using oem_arrive[OF 4(1)] 4(2) by (simp_all add: s5_def calm_at_def set_port_def ser_feed_def)
  obtain s6 where s6: "oem_bootloader 0 0 s5 = oem_tx_start 0 s6" "oem_base img (i4 @ [0x55]) s6"
    "oem_line [] (os_tx (fw_port s6)) []" "os_rx (fw_port s6) = [0x55]"
    by (rule bootloader_start[OF b5 img(3), of 0 0]) (use 5(2) in simp_all)
  obtain p where g: "xbee_ser_getchar (fw_port s6) = (0x55, p)" "os_rx p = []"
    using getchar_one[OF _ s6(4)] s6(2) by (auto simp: oem_base_def)
  obtain e s7 where tick: "oem_tx_start 0 s6 = (e, s7)" by fastforce
  note s7 = tx_start_accept[OF s6(2) img(3) s6(3) g(1) _ tick img(2)]
  have "oem_run s0 (i4 @ [0x55]) s7"
    by (rule oem_tick0[OF 5(1), of 0 e]) (use 5(3) s6(1) tick in \<open>simp add: xbee_fw_install_oem_tick_def\<close>)
  from run_blocks[OF this _ _ img(3), of blocks "[]" blocks] s7 g(2) ans show ?thesis by auto
qed

end

section \<open>The properties\<close>

lemma image_calm:
  assumes "fw_state s = XBEE_FW_STATE_INIT" "ser_ready (fw_port s)" "os_rx (fw_port s) = []" "133 \<le> length (fw_buffer s)"
    and "fw_read s = xbee_fw_buffer_read" "fw_seek s = xbee_fw_buffer_seek" "fw_ok (fw_context s)"
  shows "oemsrc.calm_at (fw_whole (fw_context s)) XBEE_FW_STATE_INIT s"
proof -
  have "oemsrc.src (fw_whole (fw_context s)) (unat (fw_offset (fw_context s))) s" by (rule image_src[OF assms(5-7)])
  then show ?thesis using assms(1-4) by (auto simp: oemsrc.calm_at_def)
qed

text \<open>
  C4: no success without the blocks. However the module answers and whenever the ticks come: when
  the installation of an image in memory reports success, the image has passed the check, and after
  the call of the boot loader the line carries exactly the blocks of the image in order, each one
  to four times in a row. The answers the image asks for have arrived in this order, and none of
  them is empty or has a byte above 127: an image with such an answer is never installed.
\<close>

theorem oem_install_success:
  assumes "fw_state s0 = XBEE_FW_STATE_INIT" "ser_ready (fw_port s0)" "133 \<le> length (fw_buffer s0)"
    and "fw_read s0 = xbee_fw_buffer_read" "fw_seek s0 = xbee_fw_buffer_seek" "fw_ok (fw_context s0)"
    and "img = fw_whole (fw_context s0)" "oem_complete img" "oem_layout img blocks"
    and "oem_run s0 i s" "fw_state s = XBEE_FW_STATE_SUCCESS"
  shows "oem_check img = 0 \<and>
     (\<exists>pre ns. os_tx (fw_port s) = pre @ [0x2B] @ oem_sent blocks ns \<and> length ns = length blocks \<and> set ns \<subseteq> {1..4}) \<and>
     oem_answered blocks i"
proof -
  have "oemsrc.src img (unat (fw_offset (fw_context s0))) s0" unfolding assms(7) by (rule image_src[OF assms(4-6)])
  then have "oemsrc.oem_base img (os_rx (fw_port s0)) s0"
    using assms(1-3) by (auto simp: oemsrc.oem_base_def oem_got_def answered_Nil)
  then have "oemsrc.oem_inv img blocks (os_rx (fw_port s0)) s0" using assms(1) by (simp add: oemsrc.oem_inv_def)
  from oemsrc.oem_run_inv[OF assms(10,9,8) this]
  have "oemsrc.oem_base img i s" "oemsrc.all_sent blocks i s" using assms(11) by (auto simp: oemsrc.oem_inv_def)
  then show ?thesis
    using assms(11) answered_more
    by (auto simp: oemsrc.oem_base_def oemsrc.all_sent_def oem_line_def oem_got_def)
qed

text \<open>
  An image that passes the check can be installed. When its blocks ask for answers that are not
  empty and have no byte above 127, there are ticks and answers of the module that bring the
  installation from the first state to success, whatever the port, the buffer and the place in the
  image are at the start.
\<close>

theorem oem_install_possible:
  assumes "fw_state s0 = XBEE_FW_STATE_INIT" "ser_ready (fw_port s0)" "os_rx (fw_port s0) = []"
    and "133 \<le> length (fw_buffer s0)" "fw_read s0 = xbee_fw_buffer_read" "fw_seek s0 = xbee_fw_buffer_seek"
    and "fw_ok (fw_context s0)" "atmode_outside (mode (fw_xbee s0))"
    and "img = fw_whole (fw_context s0)" "oem_complete img" "oem_layout img blocks" "oem_check img = 0"
    and "\<forall>(d, r) \<in> set blocks. r \<noteq> [] \<and> (\<forall>b \<in> set r. b < 0x80)"
  shows "\<exists>i s. oem_run s0 i s \<and> fw_state s = XBEE_FW_STATE_SUCCESS"
  using oemsrc.oem_succeeds[OF image_calm[OF assms(1-7)] assms(8) _ _ _ assms(13)] assms(9-12) by blast

text \<open>The demonstration image, on a port that works.\<close>

lemma demo_oem_mode: "atmode_outside (mode (fw_xbee demo_oem))"
  by (simp add: demo_oem_ok(9) demo_source_def xbee_dev_init_def split_beta atmode_outside_def)

lemma demo_oem_run: "\<exists>i s. oem_run demo_oem i s \<and> fw_state s = XBEE_FW_STATE_SUCCESS"
  using oemsrc.oem_succeeds[OF image_calm[OF demo_oem_ok(5,6,7,8,1,2,3)] demo_oem_mode, of "[([1, 2, 3, 4], [0x55])]"]
    demo_oem_image demo_oem_layout demo_oem_ok(4) by simp

theorem oem_install_success_witness:
  "\<exists>i s pre n. oem_run demo_oem i s \<and> fw_state s = XBEE_FW_STATE_SUCCESS \<and>
     os_tx (fw_port s) = pre @ 0x2B # concat (replicate n [1, 2, 3, 4]) \<and> n \<in> {1..4} \<and>
     oem_answered [([1, 2, 3, 4], [0x55])] i"
proof -
  obtain i s where r: "oem_run demo_oem i s" "fw_state s = XBEE_FW_STATE_SUCCESS" using demo_oem_run by blast
  have "oem_complete (fw_whole (fw_context demo_oem))" "oem_layout (fw_whole (fw_context demo_oem)) [([1, 2, 3, 4], [0x55])]"
    using demo_oem_image(1) demo_oem_layout demo_oem_ok(4) by simp_all
  from oem_install_success[OF demo_oem_ok(5,6,8,1,2,3) refl this r]
  obtain pre ns where "os_tx (fw_port s) = pre @ [0x2B] @ oem_sent [([1, 2, 3, 4], [0x55])] ns" "length ns = Suc 0"
    "set ns \<subseteq> {1..4}" "oem_answered [([1, 2, 3, 4], [0x55])] i" by auto
  moreover from this(2) obtain n where "ns = [n]" by (auto simp: length_Suc_conv)
  ultimately show ?thesis
    using r by (intro exI[of _ i] exI[of _ s] exI[of _ pre] exI[of _ n]) (simp add: oem_sent_def)
qed

theorem oem_install_possible_witness:
  "\<exists>i s. oem_run demo_oem i s \<and> fw_state s = XBEE_FW_STATE_SUCCESS"
  by (rule oem_install_possible[OF demo_oem_ok(5,6,7,8,1,2,3) demo_oem_mode demo_oem_ok(4)[symmetric]
        demo_oem_image(1) demo_oem_layout demo_oem_image(2)]) simp

end
