(* ===== verification/Spec2Isabelle.thy ===== *)
theory Spec2Isabelle
  imports Wpan_Types Cbuf Xbee_Time Telnet_Session Xbee_Io_Shadow Xbee_Wpan Xbee_Firmware_Oem_Live
begin

text \<open>
  VoxPopuli is a voting system: hand-held remotes talk over XBee radio modules to a daemon on a
  computer, which offers the votes over OSC and MIDI and a console over Telnet. Its core logic in
  C is in two libraries, which this development models and verifies: the XBee library
  (\<open>src/Software/lib/XBee\<close>), which drives the radio module on a serial port, and libtelnet
  (\<open>src/Software/lib/libtelnet\<close>), the protocol of the console.

  \<^bold>\<open>The parts and their theories.\<close> File names are below \<open>src/Software/lib\<close>.

  \<^item> \<open>Prelude\<close>: C integers as words, \<open>errno\<close> values, byte order, generic lemmas.
  \<^item> \<open>Util\<close>: \<open>XBee/src/util\<close>, byte swapping, hexadecimal input, comparison with a byte, CRC-16.
    \<open>Wpan_Types\<close>: \<open>wpan_types.c\<close>, the text form of radio addresses.
  \<^item> \<open>Cbuf\<close>: \<open>xbee_cbuf.c\<close>, the ring buffer of the interrupt-driven serial ports. The locale
    \<open>bounded_fifo\<close> states what a client relies on and is interpreted on the operations.
  \<^item> \<open>Xbee_Time\<close>: \<open>xbee_time.c\<close>, seconds since 2000 to and from the calendar.
  \<^item> \<open>Xbee_Serial\<close>: \<open>posix/xbee_serial_posix.c\<close>. The record holds the port and the terminal
    behind it: received and sent bytes, settings, and which system calls fail. The locale
    \<open>byte_port\<close> is the contract for the layers above, interpreted on \<open>xbee_ser_read\<close> and
    \<open>xbee_ser_write\<close>.
  \<^item> \<open>Xbee_Device\<close>, \<open>Xbee_Frames\<close>: \<open>xbee_device.c\<close>, the frames between host and module. The
    first has the device and every operation, the second a decoder that takes one byte at a time
    and the refinement of the receiver to it.
  \<^item> \<open>Xbee_Atmode\<close>: \<open>xbee_atmode.c\<close>, the command mode of a module in transparent mode: the guard
    times, the escape sequence, requests as text and the collection of the answer.
  \<^item> \<open>Xbee_Atcmd\<close>, \<open>Xbee_Atcmd_List\<close>, \<open>Xbee_Atcmd_Inv\<close>: \<open>xbee_atcmd.c\<close>, commands in frames. The
    first has the request table with its handles and everything that sends, the second the
    responses, the command lists, the query of the module's registers that fills the device
    record, and the tick; both compose the frame layer. The third has the invariant of the table.
    The locale \<open>at_callbacks\<close> is the contract of the application's callbacks, interpreted as
    \<open>observed\<close> on callbacks that look at a response and end or keep the request.
  \<^item> \<open>Xbee_Io\<close>, \<open>Xbee_Io_Shadow\<close>: \<open>xbee_io.c\<close>, the pins of a module. The first has the samples and the functions that read
    them, the second the shadow of the pin registers, which the configuring functions keep by AT commands and the query by a
    command list.
  \<^item> \<open>Wpan_Aps\<close>, \<open>Xbee_Wpan\<close>: \<open>wpan_aps.c\<close> and \<open>xbee_wpan.c\<close>, the network layer: endpoint and cluster tables, conversations and
    their expiry, envelopes; the second has the dispatching of envelopes and the explicit frames that carry them, on the frame layer.
  \<^item> \<open>Zcl_Types\<close>, \<open>Zcl\<close>: \<open>zcl_types.c\<close> and \<open>zigbee_zcl.c\<close>, the cluster library: types, attribute tables, encoding and
    decoding of values, the general commands. \<open>Zcl_Write\<close>, \<open>Zcl_Read\<close>, \<open>Zcl_Cmd\<close>: what is shown of writing,
    of reading and of replies. The locale \<open>attr_functions\<close> is the contract of the functions that refresh and store
    attributes, interpreted as \<open>default\<close> on the default function and as \<open>ident\<close> on those of the Identify cluster.
  \<^item> \<open>Zcl_Clusters\<close>: \<open>zcl_identify.c\<close>, \<open>zcl_time.c\<close>, \<open>zcl_onoff.c\<close>, \<open>zcl_basic.c\<close>, four clusters with their attributes and
    handlers.
  \<^item> \<open>Xbee_Xmodem\<close>, \<open>Xbee_Xmodem_Protocol\<close>: \<open>xbee_xmodem.c\<close>, the sender of firmware files. The
    locale \<open>block_source\<close> is the contract of the file, \<open>xmodem_link\<close> extends it and
    \<open>byte_port\<close> to a transfer; the invariant of the sender is proved there once.
  \<^item> \<open>Xbee_Firmware\<close>: \<open>xbee_firmware.c\<close>, images in memory and the installation of \<open>.EBL\<close> images,
    which composes the serial port, the device and the XMODEM sender. Both locales are interpreted
    there on the functions of the source.
  \<^item> \<open>Xbee_Firmware_Oem\<close>, \<open>Xbee_Firmware_Oem_Run\<close>, \<open>Xbee_Firmware_Oem_Live\<close>: the rest of
    \<open>xbee_firmware.c\<close>, the installation of \<open>.OEM\<close> images, which composes the serial port, AT
    mode and the device. The locale \<open>image_source\<close> extends \<open>block_source\<close> to an image that can be
    read at any place; the invariant of the installation and its success are proved there, and it
    is interpreted on the functions for images in memory.
  \<^item> \<open>Telnet_Option\<close>, \<open>Telnet_Subneg\<close>, \<open>Telnet\<close>, \<open>Telnet_Session\<close>: \<open>libtelnet.c\<close>. Option
    negotiation, with the locale \<open>option_table\<close> for the packed table; the decoders of
    subnegotiations, which rewrite their buffer in place; the receiving state machine; the sending
    functions and the invariant of a session.

  \<^bold>\<open>How the code is represented.\<close> A function is a definition of the same name (without a leading
  underscore), a structure a record, an enumeration a datatype; errors are the negative results
  of the source. Memory is a byte list per buffer, changed where the source changes it. What the
  system or the application decides is a parameter: whether the \<open>n\<close>-th system call or memory
  request fails, how much a write accepts, the value of the clock during a call, the handlers of
  the dispatch table, the functions behind the pointers of a transfer. Compile-time switches are
  those of the POSIX build: no \<open>HAVE_ZLIB\<close>, no verbose or testing code; AT mode is compiled in
  (\<open>XBEE_DEVICE_ENABLE_ATMODE\<close>). The fields of the device that a command list reaches by an
  offset are addressed by the offsets of the structure on a 64-bit POSIX system. The cluster library
  is that of a little-endian host; a pointer to a variable of the application is the number of an object and an
  offset, a pointer into a table the rest of the table. \<open>None\<close> is undefined behaviour: an access outside an array or an
  object, a null pointer, or, in \<open>xbee_mktime\<close>, an \<open>int\<close> that overflows.

  \<^bold>\<open>What is shown.\<close>

  \<^item> Frames: the receiver refines the byte decoder and always returns on a working port; what
    \<open>xbee_frame_write\<close> sends is dispatched unchanged, also after noise; what it refuses leaves
    no byte on the line; frame identifiers do not repeat within 255.
  \<^item> XMODEM and installation: in every reachable state, with any answers and any clock, the line
    carries the packets of the image in order, each at most three times; success means the whole
    image was sent and acknowledged; a tick returns; a cooperating target gets the image; an
    installation that reports success has sent it. For \<open>.OEM\<close> images: the check is the sum of the
    words; success means that the blocks were sent in order, each at most four times, and answered
    as the image demands; a cooperating module gets the image.
  \<^item> AT mode: the escape sequence is sent only between the guard times and the mode is entered on
    the answer; a response is collected the same however the bytes arrive. AT commands: the frame
    that carries a request; a handle refers to its request until it is released and to none
    after, though the entry is used again, for the next 255 releases; whatever responses arrive, the commands return and the table stays well-formed, if the callbacks keep their contract.
  \<^item> Pins: what a sample says is what the reading functions return; the commands sent bring the registers of the module to
    what the shadow says; after a query each pin has one function, outputs set by force excepted.
  \<^item> Network layer: a response reaches the handler of its conversation; a frame that was not encrypted does not reach a
    cluster of the cluster library that demands encryption; a request on the line is answered by at most one frame, to its sender.
  \<^item> Cluster library: a valid write stores the values, an undivided one all or none of them, and no request leaves the arrays;
    a read is answered by records in the order of the request, as far as they fit; an encoded value is decoded to what it
    was, and stays in the space given, empty strings excepted; limits are compared as numbers, but for
    short negative ones; Identify counts down, and the clock of a Time client runs with the server's.
  \<^item> Telnet: negotiation follows the tables of RFC 1143 (with one lost DO); cutting the input
    into calls differently makes no difference; data, subnegotiations and ZMP commands arrive as
    sent; the in-place decoders agree with decoding into separate strings; buffer and option table
    stay in bounds.
  \<^item> Ring buffer: refines a bounded first-in first-out queue, for single bytes and blocks. Calendar: the
    Gregorian calendar for all timestamps, both ways. CRC: division by the polynomial. Addresses:
    exactly the documented forms are accepted, and formatting is inverted.
  \<^item> Deviations: theorems that exhibit an error in the code, each listed with its place in the
    source in the manifest: a receiver that hangs on a failing port, a checksum cut to eight bits,
    packets lost by short writes, timeouts that never come, a retry that sends nothing, an
    option table that forgets, an underflow in the MCCP1 path. In the AT commands: registers stored
    at the wrong offset of the device, a negative length of a response value, a list that goes on
    past its end after a timeout, a first handle that is the invalid one. In the installer: answers
    with bytes above 127, which are never accepted, and a check that goes through stale bytes when an image is
    too short. In the cluster library: 26 refused records overflow the array of statuses, an empty string is written where there is no
    space, negative values of short types pass the check of limits. In the network layer: clusters of other
    protocols get frames that were not encrypted although their flag demands it.

  \<^bold>\<open>Bounds.\<close> Loops without a structural argument take a bound on their rounds and return \<open>None\<close>
  when it is used up; a larger bound never changes a result. The receiver and the flush loops of
  the sender need one round more than there are bytes waiting, which is what the theorems ask
  for. The hanging receiver is \<open>None\<close> for every bound. A callback may create a request, which
  may release one whose callback does the same: \<open>xbee_cmd_create\<close> has a bound on this depth, and
  three levels are enough for callbacks that satisfy \<open>at_callbacks\<close>. A walk over
  the endpoints has as many rounds as the table has entries and one more, the loop over a write request as it has bytes
  and one more; the nesting of arrays and structures is bounded by the space for the value, as every level takes
  two bytes of it.

  \<^bold>\<open>Not modelled.\<close> Device discovery and the search for servers (\<open>zigbee_zdo.c\<close>, \<open>zcl_client.c\<close>, the part of
  \<open>zcl_time.c\<close> that uses it), commissioning, node discovery and the table of remote modules, over-the-air
  updates and \<open>.EBL\<close> files on disk, source routes: they build on the layers modelled here. The drivers of other platforms, which
  implement the same serial interface by other systems' calls; \<open>jslong.c\<close>, which is not compiled
  on POSIX; printing for debugging; the C++ code (daemon, remote, oscpack, RtMidi), which is Qt,
  input and output, and third-party libraries.
\<close>

end
